(* ===== verification/Prelude.thy ===== *)
theory Prelude
  imports Main "HOL-Library.AList" "HOL-Library.Char_ord" "HOL-Library.List_Lexorder"
    "HOL-Library.Product_Lexorder"
begin

text \<open>
  What the components share.  Python effects are made explicit in one way throughout: a
  function that may raise returns a value of \<open>'e + 'a\<close>, with \<open>Inl\<close> for the raised
  exception; a sequence of ``if bad: raise'' statements is a list of guards evaluated in the
  order of the source (\<open>raise_first\<close>); a Python \<open>dict\<close> is an association list in
  insertion order with distinct keys (\<open>dict_get\<close>, \<open>dict_set\<close>, \<open>dict_del\<close>);
  strings are lists of ASCII characters, compared code point by code point as Python does.
  The locales at the end are the contracts the components provide or rely on.
\<close>

named_theorems res_simps \<open>evaluation of guard chains and of sequenced results\<close>
named_theorems dict_simps \<open>lookup after update of a Python dict\<close>

section \<open>Results and guards\<close>

text \<open>
  \<open>raise_first\<close> is a straight sequence of ``if condition: raise error'' statements: the
  first condition that holds decides which error is raised.
\<close>

fun raise_first :: "(bool \<times> 'e) list \<Rightarrow> 'e option" where
  "raise_first [] = None"
| "raise_first ((bad, e) # gs) = (if bad then Some e else raise_first gs)"

definition guarded :: "(bool \<times> 'e) list \<Rightarrow> ('e + 'a) \<Rightarrow> 'e + 'a" where
  "guarded gs r = (case raise_first gs of Some e \<Rightarrow> Inl e | None \<Rightarrow> r)"

definition and_then :: "'e + 'a \<Rightarrow> ('a \<Rightarrow> 'e + 'b) \<Rightarrow> 'e + 'b" where
  "and_then r f = (case r of Inl e \<Rightarrow> Inl e | Inr x \<Rightarrow> f x)"

definition raise_opt :: "'e option \<Rightarrow> ('e + 'a) \<Rightarrow> 'e + 'a" where
  "raise_opt c r = (case c of Some e \<Rightarrow> Inl e | None \<Rightarrow> r)"

declare raise_first.simps(2) [simp del]

lemma raise_first_Cons_None [simp]:
  "raise_first ((bad, e) # gs) = None \<longleftrightarrow> \<not> bad \<and> raise_first gs = None"
  by (simp add: raise_first.simps)

lemma raise_first_Cons_Some:
  "raise_first ((bad, e) # gs) = Some x \<longleftrightarrow> bad \<and> e = x \<or> \<not> bad \<and> raise_first gs = Some x"
  by (simp add: raise_first.simps)

lemma raise_first_bad [simp]: "bad \<Longrightarrow> raise_first ((bad, e) # gs) = Some e"
  by (simp add: raise_first.simps)

lemma raise_first_good [simp]: "\<not> bad \<Longrightarrow> raise_first ((bad, e) # gs) = raise_first gs"
  by (simp add: raise_first.simps)

lemma raise_first_None_iff: "raise_first gs = None \<longleftrightarrow> (\<forall>(bad, e) \<in> set gs. \<not> bad)"
  by (induction gs rule: raise_first.induct) auto

lemma raise_first_append:
  "raise_first (gs @ hs) = (case raise_first gs of Some e \<Rightarrow> Some e | None \<Rightarrow> raise_first hs)"
  by (induction gs rule: raise_first.induct) (auto simp: raise_first.simps)

lemma raise_first_append_None [simp]:
  "raise_first (gs @ hs) = None \<longleftrightarrow> raise_first gs = None \<and> raise_first hs = None"
  by (simp add: raise_first_append split: option.split)

lemma raise_first_concat_None [simp]:
  "raise_first (concat (map f xs)) = None \<longleftrightarrow> (\<forall>x \<in> set xs. raise_first (f x) = None)"
  by (induction xs) auto

lemma raise_first_Some_member: "raise_first gs = Some e \<Longrightarrow> (True, e) \<in> set gs"
  by (induction gs rule: raise_first.induct) (auto simp: raise_first_Cons_Some)

lemma guarded_Inr_iff [res_simps]:
  "guarded gs r = Inr x \<longleftrightarrow> raise_first gs = None \<and> r = Inr x"
  by (simp add: guarded_def split: option.splits)

lemma guarded_Inl_iff:
  "guarded gs r = Inl e \<longleftrightarrow> raise_first gs = Some e \<or> raise_first gs = None \<and> r = Inl e"
  by (simp add: guarded_def split: option.splits)

lemma guarded_pass [simp]: "raise_first gs = None \<Longrightarrow> guarded gs r = r"
  by (simp add: guarded_def)

lemma guarded_fail [simp]: "raise_first gs = Some e \<Longrightarrow> guarded gs r = Inl e"
  by (simp add: guarded_def)

lemma and_then_simps [simp]:
  "and_then (Inl e) f = Inl e"
  "and_then (Inr x) f = f x"
  by (simp_all add: and_then_def)

lemma and_then_Inr_iff [res_simps]:
  "and_then r f = Inr y \<longleftrightarrow> (\<exists>x. r = Inr x \<and> f x = Inr y)"
  by (cases r) simp_all

lemma raise_opt_simps [simp]:
  "raise_opt None r = r"
  "raise_opt (Some e) r = Inl e"
  by (simp_all add: raise_opt_def)

lemma raise_opt_Inr_iff [res_simps]: "raise_opt c r = Inr x \<longleftrightarrow> c = None \<and> r = Inr x"
  by (cases c) simp_all

section \<open>Python dictionaries\<close>

type_synonym ('k, 'v) dict = "('k \<times> 'v) list"

definition dict_get :: "('k, 'v) dict \<Rightarrow> 'k \<Rightarrow> 'v option" where
  "dict_get d k = map_of d k"

definition dict_set :: "'k \<Rightarrow> 'v \<Rightarrow> ('k, 'v) dict \<Rightarrow> ('k, 'v) dict" where
  "dict_set k v d = AList.update k v d"

definition dict_del :: "'k \<Rightarrow> ('k, 'v) dict \<Rightarrow> ('k, 'v) dict" where
  "dict_del k d = AList.delete k d"

definition dict_keys :: "('k, 'v) dict \<Rightarrow> 'k list" where
  "dict_keys d = map fst d"

definition dict_vals :: "('k, 'v) dict \<Rightarrow> 'v list" where
  "dict_vals d = map snd d"

definition dict_ok :: "('k, 'v) dict \<Rightarrow> bool" where
  "dict_ok d \<longleftrightarrow> distinct (dict_keys d)"

lemma dict_get_Nil [simp]: "dict_get [] k = None"
  by (simp add: dict_get_def)

lemma dict_get_Cons: "dict_get ((a, b) # d) k = (if a = k then Some b else dict_get d k)"
  by (simp add: dict_get_def)

lemma dict_get_set [dict_simps]: "dict_get (dict_set k v d) j = (if j = k then Some v else dict_get d j)"
  by (simp add: dict_get_def dict_set_def update_conv')

lemma dict_get_del [dict_simps]: "dict_get (dict_del k d) j = (if j = k then None else dict_get d j)"
  by (simp add: dict_get_def dict_del_def delete_conv')

lemma dict_ok_Nil [simp]: "dict_ok []"
  by (simp add: dict_ok_def dict_keys_def)

lemma dict_ok_set [simp]: "dict_ok d \<Longrightarrow> dict_ok (dict_set k v d)"
  by (simp add: dict_ok_def dict_keys_def dict_set_def distinct_update)

lemma dict_ok_del [simp]: "dict_ok d \<Longrightarrow> dict_ok (dict_del k d)"
  by (simp add: dict_ok_def dict_keys_def dict_del_def distinct_delete)

lemma dict_get_eq_Some_iff: "dict_ok d \<Longrightarrow> dict_get d k = Some v \<longleftrightarrow> (k, v) \<in> set d"
  by (simp add: dict_ok_def dict_keys_def dict_get_def)

lemma dict_get_member: "dict_get d k = Some v \<Longrightarrow> (k, v) \<in> set d"
  by (simp add: dict_get_def map_of_SomeD)

lemma dict_get_None_iff: "dict_get d k = None \<longleftrightarrow> k \<notin> set (dict_keys d)"
  by (simp add: dict_get_def dict_keys_def map_of_eq_None_iff)

lemma dict_del_set: "set (dict_del k d) = {(j, v) \<in> set d. j \<noteq> k}"
  by (auto simp: dict_del_def AList.delete_eq)

section \<open>Strings\<close>

text \<open>
  \<open>str.strip\<close>, \<open>str.casefold\<close> and \<open>str.isalpha\<close> on ASCII, which is what every
  identifier the program accepts consists of.
\<close>

definition py_isspace :: "char \<Rightarrow> bool" where
  "py_isspace c \<longleftrightarrow> (let n = (of_char c :: nat) in (9 \<le> n \<and> n \<le> 13) \<or> (28 \<le> n \<and> n \<le> 32))"

definition py_strip :: "string \<Rightarrow> string" where
  "py_strip s = rev (dropWhile py_isspace (rev (dropWhile py_isspace s)))"

definition py_lower :: "char \<Rightarrow> char" where
  "py_lower c = (let n = (of_char c :: nat) in if 65 \<le> n \<and> n \<le> 90 then char_of (n + 32) else c)"

definition casefold :: "string \<Rightarrow> string" where
  "casefold s = map py_lower s"

definition is_alnum :: "char \<Rightarrow> bool" where
  "is_alnum c \<longleftrightarrow> (let n = (of_char c :: nat) in
     (48 \<le> n \<and> n \<le> 57) \<or> (65 \<le> n \<and> n \<le> 90) \<or> (97 \<le> n \<and> n \<le> 122))"

definition is_digit :: "char \<Rightarrow> bool" where
  "is_digit c \<longleftrightarrow> (let n = (of_char c :: nat) in 48 \<le> n \<and> n \<le> 57)"

definition is_hex :: "char \<Rightarrow> bool" where
  "is_hex c \<longleftrightarrow> (let n = (of_char c :: nat) in (48 \<le> n \<and> n \<le> 57) \<or> (97 \<le> n \<and> n \<le> 102))"

definition starts_with :: "string \<Rightarrow> string \<Rightarrow> bool" where
  "starts_with p s \<longleftrightarrow> take (length p) s = p"

definition has_char :: "char list \<Rightarrow> string \<Rightarrow> bool" where
  "has_char bad s \<longleftrightarrow> list_ex (\<lambda>c. c \<in> set bad) s"

text \<open>NUL, carriage return and line feed: the characters most validators forbid.\<close>

definition nul_cr_lf :: "char list" where
  "nul_cr_lf = [CHR 0x00, CHR 0x0D, CHR 0x0A]"

fun show_nat :: "nat \<Rightarrow> string" where
  "show_nat n = (if n < 10 then [char_of (48 + n)]
                 else show_nat (n div 10) @ [char_of (48 + n mod 10)])"

declare show_nat.simps [simp del]

definition show_int :: "int \<Rightarrow> string" where
  "show_int i = (if i < 0 then CHR ''-'' # show_nat (nat (- i)) else show_nat (nat i))"

lemma show_nat_nonempty [simp]: "show_nat n \<noteq> []"
  by (subst show_nat.simps) simp

lemma starts_with_append [simp]: "starts_with p (p @ s)"
  by (simp add: starts_with_def)

lemma starts_with_length: "starts_with p s \<Longrightarrow> length p \<le> length s"
  by (metis length_take min.cobounded1 starts_with_def)

lemma starts_with_drop: "starts_with p s \<Longrightarrow> p @ drop (length p) s = s"
  by (metis append_take_drop_id starts_with_def)

lemma starts_with_same_prefix [simp]: "starts_with (i @ p) (i @ s) \<longleftrightarrow> starts_with p s"
  by (simp add: starts_with_def)

lemma starts_with_Nil [simp]: "starts_with [] s"
  by (simp add: starts_with_def)

lemma starts_with_Cons [simp]: "starts_with (c # p) (d # s) \<longleftrightarrow> c = d \<and> starts_with p s"
  by (auto simp: starts_with_def)

lemma starts_with_Cons_Nil [simp]: "\<not> starts_with (c # p) []"
  by (simp add: starts_with_def)

section \<open>Decimal numbers\<close>

definition read_digits :: "string \<Rightarrow> nat" where
  "read_digits s = foldl (\<lambda>n c. 10 * n + (of_char c - 48)) 0 s"

text \<open>The pattern \<open>0|[1-9][0-9]*\<close>.\<close>

definition decimal :: "string \<Rightarrow> bool" where
  "decimal s \<longleftrightarrow> s = ''0'' \<or> (case s of [] \<Rightarrow> False
     | c # cs \<Rightarrow> is_digit c \<and> c \<noteq> CHR ''0'' \<and> list_all is_digit cs)"

lemma digit_char: "d < 10 \<Longrightarrow> (of_char (char_of (48 + d) :: char) :: nat) = 48 + d"
  by simp

lemma is_digit_char [simp]: "d < 10 \<Longrightarrow> is_digit (char_of (48 + d :: nat))"
  by (simp add: is_digit_def)

lemma read_digits_snoc: "read_digits (s @ [c]) = 10 * read_digits s + (of_char c - 48)"
  by (simp add: read_digits_def)

lemma read_show_nat [simp]: "read_digits (show_nat n) = n"
proof (induction n rule: show_nat.induct)
  case (1 n)
  show ?case
  proof (cases "n < 10")
    case True
    then show ?thesis by (subst show_nat.simps) (simp add: read_digits_def)
  next
    case False
    have "read_digits (show_nat n) = 10 * read_digits (show_nat (n div 10)) + n mod 10"
      using False by (subst show_nat.simps) (simp add: read_digits_snoc)
    with 1 False show ?thesis by simp
  qed
qed

lemma show_nat_digits: "list_all is_digit (show_nat n)"
proof (induction n rule: show_nat.induct)
  case (1 n)
  then show ?case by (subst show_nat.simps) simp
qed

lemma show_nat_hd: "0 < n \<Longrightarrow> hd (show_nat n) \<noteq> CHR ''0''"
proof (induction n rule: show_nat.induct)
  case (1 n)
  show ?case
  proof (cases "n < 10")
    case True
    have "hd (show_nat n) = char_of (48 + n)" using True by (subst show_nat.simps) simp
    moreover have "(of_char (char_of (48 + n) :: char) :: nat) \<noteq> of_char CHR ''0''"
      using True 1(2) by simp
    ultimately show ?thesis by metis
  next
    case False
    then have "hd (show_nat n) = hd (show_nat (n div 10))" by (subst show_nat.simps) simp
    with 1 False show ?thesis by simp
  qed
qed

lemma show_nat_0: "show_nat 0 = ''0''"
  by code_simp

lemma show_nat_decimal: "decimal (show_nat n)"
proof (cases "n = 0")
  case True
  then show ?thesis by (simp add: decimal_def show_nat_0)
next
  case False
  obtain c cs where "show_nat n = c # cs" using show_nat_nonempty [of n] by (cases "show_nat n") auto
  with False show ?thesis using show_nat_digits [of n] show_nat_hd [of n] by (simp add: decimal_def)
qed

lemma show_nat_inject [simp]: "show_nat m = show_nat n \<longleftrightarrow> m = n"
  by (metis read_show_nat)

section \<open>Lists\<close>

lemma find_Some_member: "find P xs = Some x \<Longrightarrow> x \<in> set xs \<and> P x"
  by (auto simp: find_Some_iff)

lemma find_None_none: "find P xs = None \<longleftrightarrow> (\<forall>x \<in> set xs. \<not> P x)"
  by (auto simp: find_None_iff)

lemma replace_by_key_map:
  assumes "\<And>x. key (f x) = key x"
  shows "map key (map (\<lambda>x. if key x = k then f x else x) xs) = map key xs"
  using assms by (induction xs) auto

lemma hd_sort_key_least:
  assumes "x \<in> set xs" and "\<And>y. y \<in> set xs \<Longrightarrow> y \<noteq> x \<Longrightarrow> f x < f y"
  shows "\<exists>ys. sort_key f xs = x # ys"
proof -
  have "set (sort_key f xs) \<noteq> {}" using assms(1) by auto
  then have ne: "sort_key f xs \<noteq> []" by (metis set_empty)
  then obtain y ys where ys: "sort_key f xs = y # ys" by (cases "sort_key f xs") auto
  then have "y \<in> set xs" by (metis list.set_intros(1) set_sort)
  moreover have "f y \<le> f x"
    using sorted_sort_key [of f xs] assms(1) ys by (metis list.simps(9) set_ConsD set_sort sorted_wrt.simps(2) list.set_map image_eqI order_refl)
  ultimately show ?thesis using assms(2) ys by (metis leD)
qed

lemma sort_key_position:
  assumes "distinct (map f xs)" and "i < length xs"
  shows "card {x \<in> set xs. f x < f (sort_key f xs ! i)} = i"
proof -
  let ?ys = "sort_key f xs"
  have "distinct (map f ?ys)"
    using assms(1) by (simp add: distinct_map)
  then have strict: "sorted_wrt (<) (map f ?ys)" by (simp add: strict_sorted_iff)
  have less: "f (?ys ! j) < f (?ys ! i) \<longleftrightarrow> j < i" if "j < length xs" for j
  proof (cases "j < i")
    case True
    with strict assms(2) that show ?thesis by (auto dest: sorted_wrt_nth_less [of _ _ j i])
  next
    case False
    then have "f (?ys ! i) \<le> f (?ys ! j)"
      using sorted_nth_mono [OF sorted_sort_key [of f xs], of i j] that assms(2) by simp
    with False show ?thesis by simp
  qed
  have "{x \<in> set xs. f x < f (?ys ! i)} = (!) ?ys ` {..<i}"
  proof (intro equalityI subsetI)
    fix x assume x: "x \<in> {x \<in> set xs. f x < f (?ys ! i)}"
    then have "x \<in> set ?ys" by simp
    then obtain j where "j < length xs" "x = ?ys ! j" by (metis in_set_conv_nth length_sort)
    with x less show "x \<in> (!) ?ys ` {..<i}" by auto
  next
    fix x assume "x \<in> (!) ?ys ` {..<i}"
    then obtain j where "j < i" "x = ?ys ! j" by auto
    moreover from this assms(2) have "x \<in> set ?ys" by (metis length_sort nth_mem order.strict_trans)
    ultimately show "x \<in> {x \<in> set xs. f x < f (?ys ! i)}" using less assms(2) by auto
  qed
  moreover have "inj_on ((!) ?ys) {..<i}"
    using \<open>distinct (map f ?ys)\<close> assms(2)
    by (auto simp: inj_on_def distinct_map nth_eq_iff_index_eq)
  ultimately show ?thesis by (simp add: card_image)
qed

lemma hd_sorted_le: "sorted (map f xs) \<Longrightarrow> x \<in> set xs \<Longrightarrow> f (hd xs) \<le> f x"
  by (cases xs) auto

section \<open>Contracts\<close>

text \<open>
  A store addressed by keys.  Provided by the Python dictionaries above; relied on by every
  component that keeps one record per identity.
\<close>

locale keyed_store =
  fixes get :: "'d \<Rightarrow> 'k \<Rightarrow> 'v option"
    and put :: "'k \<Rightarrow> 'v \<Rightarrow> 'd \<Rightarrow> 'd"
    and del :: "'k \<Rightarrow> 'd \<Rightarrow> 'd"
    and ok :: "'d \<Rightarrow> bool"
  assumes get_put: "get (put k v d) j = (if j = k then Some v else get d j)"
    and get_del: "get (del k d) j = (if j = k then None else get d j)"
    and ok_put: "ok d \<Longrightarrow> ok (put k v d)"
    and ok_del: "ok d \<Longrightarrow> ok (del k d)"
begin

lemma put_other: "j \<noteq> k \<Longrightarrow> get (put k v d) j = get d j"
  by (simp add: get_put)

lemma put_all:
  assumes "\<And>j x. get d j = Some x \<Longrightarrow> P j x" and "P k v"
  shows "get (put k v d) j = Some x \<Longrightarrow> P j x"
  using assms by (auto simp: get_put split: if_splits)

lemma del_all:
  assumes "\<And>j x. get d j = Some x \<Longrightarrow> P j x"
  shows "get (del k d) j = Some x \<Longrightarrow> P j x"
  using assms by (auto simp: get_del split: if_splits)

end

interpretation dict: keyed_store dict_get dict_set dict_del dict_ok
  by unfold_locales (simp_all add: dict_get_set dict_get_del)

text \<open>
  The states a component can reach: the runs of its operations.  \<open>step\<close> is the
  component's own relation or function graph, so \<open>reachable_from\<close> is generic.
\<close>

inductive reachable_from :: "('s \<Rightarrow> bool) \<Rightarrow> ('s \<Rightarrow> 's \<Rightarrow> bool) \<Rightarrow> 's \<Rightarrow> bool"
  for initial :: "'s \<Rightarrow> bool" and step :: "'s \<Rightarrow> 's \<Rightarrow> bool" where
  start: "initial s \<Longrightarrow> reachable_from initial step s"
| more: "reachable_from initial step s \<Longrightarrow> step s t \<Longrightarrow> reachable_from initial step t"

locale invariant_system =
  fixes initial :: "'s \<Rightarrow> bool"
    and step :: "'s \<Rightarrow> 's \<Rightarrow> bool"
    and inv :: "'s \<Rightarrow> bool"
  assumes initial_inv: "initial s \<Longrightarrow> inv s"
    and step_inv: "inv s \<Longrightarrow> step s t \<Longrightarrow> inv t"
begin

lemma reachable_inv: "reachable_from initial step s \<Longrightarrow> inv s"
  by (induction rule: reachable_from.induct) (auto intro: initial_inv step_inv)

lemma steps_inv: "step\<^sup>*\<^sup>* s t \<Longrightarrow> inv s \<Longrightarrow> inv t"
  by (induction rule: rtranclp_induct) (auto intro: step_inv)

end

text \<open>A quantity that no step decreases, on the states the invariant allows.\<close>

locale monotone_system = invariant_system initial step inv
  for initial :: "'s \<Rightarrow> bool" and step :: "'s \<Rightarrow> 's \<Rightarrow> bool" and inv :: "'s \<Rightarrow> bool" +
  fixes level :: "'s \<Rightarrow> 'm::preorder"
  assumes step_level: "inv s \<Longrightarrow> step s t \<Longrightarrow> level s \<le> level t"
begin

lemma steps_level: "step\<^sup>*\<^sup>* s t \<Longrightarrow> inv s \<Longrightarrow> level s \<le> level t"
proof (induction rule: rtranclp_induct)
  case base
  show ?case by simp
next
  case (step t u)
  from step.hyps(1) step.prems have "inv t" by (rule steps_inv)
  with step.hyps(2) have "level t \<le> level u" by (blast intro: step_level)
  with step.IH step.prems show ?case by (blast intro: order_trans)
qed

end

text \<open>
  Objects that no step loses: whatever is in the state stays in it, up to a transitive relation
  that says how it may change.
\<close>

locale tracked_system = invariant_system initial step inv
  for initial :: "'s \<Rightarrow> bool" and step :: "'s \<Rightarrow> 's \<Rightarrow> bool" and inv :: "'s \<Rightarrow> bool" +
  fixes member :: "'s \<Rightarrow> 'a \<Rightarrow> bool"
    and follows :: "'a \<Rightarrow> 'a \<Rightarrow> bool"
  assumes follows_refl: "follows x x"
    and follows_trans: "follows x y \<Longrightarrow> follows y z \<Longrightarrow> follows x z"
    and step_tracks: "inv s \<Longrightarrow> step s t \<Longrightarrow> member s x \<Longrightarrow> \<exists>y. member t y \<and> follows x y"
begin

lemma steps_track: "step\<^sup>*\<^sup>* s t \<Longrightarrow> inv s \<Longrightarrow> member s x \<Longrightarrow> \<exists>y. member t y \<and> follows x y"
proof (induction rule: rtranclp_induct)
  case base
  then show ?case using follows_refl by blast
next
  case (step t u)
  then obtain y where y: "member t y" "follows x y" by blast
  from step.hyps(1) step.prems(1) have "inv t" by (rule steps_inv)
  from step_tracks [OF this step.hyps(2) y(1)] y(2) show ?case by (blast intro: follows_trans)
qed

end

end
