(* ===== verification/Core_Types.thy ===== *)
theory Core_Types
  imports Prelude
begin

text \<open>
  \<open>core_types.py\<close>: the three shared enumerations.  \<open>TaskDifficulty\<close> and
  \<open>WorkerKind\<close> are ordered by their position, as every module that ranks them does
  (\<open>_DIFFICULTY_ORDER\<close> in \<open>difficulty_assessor.py\<close>, \<open>_PROGRESSION\<close> in
  \<open>escalation_service.py\<close>), through instances of \<open>linorder\<close>.  \<open>chain\<close> is the
  contract of such a ranking.
\<close>

datatype TaskDifficulty = BASIC | STANDARD | ADVANCED | EXPERT

datatype MadDeliberationDepth = FAST | BALANCED | DEEP

datatype WorkerKind = BASIC_AGENT | STANDARD_AGENT | ADVANCED_AGENT | EXPERT_AGENT

fun TaskDifficulty_value :: "TaskDifficulty \<Rightarrow> string" where
  "TaskDifficulty_value BASIC = ''basic''"
| "TaskDifficulty_value STANDARD = ''standard''"
| "TaskDifficulty_value ADVANCED = ''advanced''"
| "TaskDifficulty_value EXPERT = ''expert''"

fun MadDeliberationDepth_value :: "MadDeliberationDepth \<Rightarrow> string" where
  "MadDeliberationDepth_value FAST = ''fast''"
| "MadDeliberationDepth_value BALANCED = ''balanced''"
| "MadDeliberationDepth_value DEEP = ''deep''"

fun WorkerKind_value :: "WorkerKind \<Rightarrow> string" where
  "WorkerKind_value BASIC_AGENT = ''basic_agent''"
| "WorkerKind_value STANDARD_AGENT = ''standard_agent''"
| "WorkerKind_value ADVANCED_AGENT = ''advanced_agent''"
| "WorkerKind_value EXPERT_AGENT = ''expert_agent''"

lemma TaskDifficulty_value_inject [simp]:
  "TaskDifficulty_value a = TaskDifficulty_value b \<longleftrightarrow> a = b"
  by (cases a; cases b) simp_all

lemma WorkerKind_value_inject [simp]: "WorkerKind_value a = WorkerKind_value b \<longleftrightarrow> a = b"
  by (cases a; cases b) simp_all

section \<open>Ranked enumerations\<close>

text \<open>An enumeration listed in order: \<open>rank\<close> is the position of a member in that list.\<close>

locale chain =
  fixes members :: "'a list" and rank :: "'a \<Rightarrow> nat"
  assumes all_members: "x \<in> set members"
    and rank_members: "map rank members = [0..<length members]"
begin

lemma rank_less: "rank x < length members"
proof -
  have "rank x \<in> set (map rank members)" using all_members by simp
  then show ?thesis by (simp only: rank_members) simp
qed

lemma distinct_members: "distinct members"
proof -
  have "distinct (map rank members)" by (simp add: rank_members)
  then show ?thesis by (rule distinct_map [THEN iffD1, THEN conjunct1])
qed

lemma rank_inject: "rank x = rank y \<Longrightarrow> x = y"
proof -
  assume eq: "rank x = rank y"
  have "inj_on rank (set members)"
    using distinct_map [of rank members] by (simp add: rank_members)
  with eq show "x = y" using all_members by (auto dest: inj_onD)
qed

lemma rank_surj: "i < length members \<Longrightarrow> \<exists>x. rank x = i"
proof -
  assume "i < length members"
  then have "i \<in> set (map rank members)" by (simp add: rank_members)
  then show ?thesis by auto
qed

text \<open>The running maximum that the code computes by a loop.\<close>

lemma foldl_max_member:
  "foldl (\<lambda>m v. if rank v > rank m then v else m) b vs \<in> insert b (set vs)"
  by (induction vs arbitrary: b) auto

lemma foldl_max_start: "rank b \<le> rank (foldl (\<lambda>m v. if rank v > rank m then v else m) b vs)"
proof (induction vs arbitrary: b)
  case (Cons a vs)
  show ?case using Cons.IH [of a] Cons.IH [of b] by auto
qed simp

lemma foldl_max_upper:
  "v \<in> set vs \<Longrightarrow> rank v \<le> rank (foldl (\<lambda>m v. if rank v > rank m then v else m) b vs)"
proof (induction vs arbitrary: b)
  case (Cons a vs)
  show ?case
  proof (cases "v = a")
    case True
    then show ?thesis
      using foldl_max_start [of a vs] foldl_max_start [of b vs] by auto
  next
    case False
    with Cons show ?thesis by simp
  qed
qed simp

end

fun difficulty_rank :: "TaskDifficulty \<Rightarrow> nat" where
  "difficulty_rank BASIC = 0"
| "difficulty_rank STANDARD = 1"
| "difficulty_rank ADVANCED = 2"
| "difficulty_rank EXPERT = 3"

fun kind_rank :: "WorkerKind \<Rightarrow> nat" where
  "kind_rank BASIC_AGENT = 0"
| "kind_rank STANDARD_AGENT = 1"
| "kind_rank ADVANCED_AGENT = 2"
| "kind_rank EXPERT_AGENT = 3"

definition difficulties :: "TaskDifficulty list" where
  "difficulties = [BASIC, STANDARD, ADVANCED, EXPERT]"

definition worker_kinds :: "WorkerKind list" where
  "worker_kinds = [BASIC_AGENT, STANDARD_AGENT, ADVANCED_AGENT, EXPERT_AGENT]"

interpretation difficulty: chain difficulties difficulty_rank
proof
  show "x \<in> set difficulties" for x by (cases x) (simp_all add: difficulties_def)
qed (simp add: difficulties_def upt_rec)

interpretation kind: chain worker_kinds kind_rank
proof
  show "x \<in> set worker_kinds" for x by (cases x) (simp_all add: worker_kinds_def)
qed (simp add: worker_kinds_def upt_rec)

instantiation TaskDifficulty :: linorder
begin

definition less_eq_TaskDifficulty :: "TaskDifficulty \<Rightarrow> TaskDifficulty \<Rightarrow> bool" where
  "a \<le> b \<longleftrightarrow> difficulty_rank a \<le> difficulty_rank b"

definition less_TaskDifficulty :: "TaskDifficulty \<Rightarrow> TaskDifficulty \<Rightarrow> bool" where
  "a < b \<longleftrightarrow> difficulty_rank a < difficulty_rank b"

instance
  by standard
    (auto simp: less_eq_TaskDifficulty_def less_TaskDifficulty_def dest: difficulty.rank_inject)

end

instantiation WorkerKind :: linorder
begin

definition less_eq_WorkerKind :: "WorkerKind \<Rightarrow> WorkerKind \<Rightarrow> bool" where
  "a \<le> b \<longleftrightarrow> kind_rank a \<le> kind_rank b"

definition less_WorkerKind :: "WorkerKind \<Rightarrow> WorkerKind \<Rightarrow> bool" where
  "a < b \<longleftrightarrow> kind_rank a < kind_rank b"

instance
  by standard (auto simp: less_eq_WorkerKind_def less_WorkerKind_def dest: kind.rank_inject)

end

lemmas difficulty_order = less_eq_TaskDifficulty_def less_TaskDifficulty_def
lemmas kind_order = less_eq_WorkerKind_def less_WorkerKind_def

lemma BASIC_least [simp]: "BASIC \<le> d"
  by (simp add: difficulty_order)

lemma EXPERT_greatest [simp]: "d \<le> EXPERT"
  by (cases d) (simp_all add: difficulty_order)

end
