(* ===== verification/Context_Budget.thy ===== *)
theory Context_Budget
  imports Core_Types
begin

text \<open>
  \<open>context_budget.py\<close>: the token budget of a task.  Python integers are unbounded, so the
  window is an \<open>int\<close>.  The run-time type checks of \<open>compute_budget\<close> are discharged by
  the types; the range checks, the corruption guards and the internal invariants (the explicit
  \<open>raise AssertionError\<close> statements) are guards of the model.
\<close>

datatype budget_error =
    WindowNotPositive int
  | WindowTooSmall int TaskDifficulty int int int
  | BudgetAssertion string

record BudgetResult =
  context_window_tokens :: int
  difficulty :: TaskDifficulty
  budget_percent :: int
  budget_cap_tokens :: int
  budget_tokens :: int
  reserved_tokens :: int

fun BUDGET_PERCENT :: "TaskDifficulty \<Rightarrow> int" where
  "BUDGET_PERCENT BASIC = 20"
| "BUDGET_PERCENT STANDARD = 35"
| "BUDGET_PERCENT ADVANCED = 50"
| "BUDGET_PERCENT EXPERT = 65"

fun BUDGET_CAP :: "TaskDifficulty \<Rightarrow> int" where
  "BUDGET_CAP BASIC = 64000"
| "BUDGET_CAP STANDARD = 128000"
| "BUDGET_CAP ADVANCED = 256000"
| "BUDGET_CAP EXPERT = 512000"

definition compute_budget :: "int \<Rightarrow> TaskDifficulty \<Rightarrow> budget_error + BudgetResult" where
  "compute_budget window d = (
     let percent = BUDGET_PERCENT d;
         cap = BUDGET_CAP d;
         percentage_budget = window * percent div 100;
         budget = min percentage_budget cap;
         reserved = window - budget;
         minimum_reserved = (window * 35 + 99) div 100
     in guarded
       [(window \<le> 0, WindowNotPositive window),
        (\<not> (1 \<le> percent \<and> percent \<le> 65), BudgetAssertion ''percent''),
        (cap < 0, BudgetAssertion ''cap''),
        (budget < 1, WindowTooSmall window d percent cap budget),
        (budget > percentage_budget, BudgetAssertion ''percentage_budget''),
        (budget > cap, BudgetAssertion ''budget_cap''),
        (budget + reserved \<noteq> window, BudgetAssertion ''sum''),
        (reserved < minimum_reserved, BudgetAssertion ''minimum_reserved'')]
       (Inr \<lparr>context_window_tokens = window, difficulty = d, budget_percent = percent,
             budget_cap_tokens = cap, budget_tokens = budget, reserved_tokens = reserved\<rparr>))"

lemma BUDGET_PERCENT_range: "1 \<le> BUDGET_PERCENT d \<and> BUDGET_PERCENT d \<le> 65"
  by (cases d) simp_all

lemma BUDGET_CAP_pos: "0 < BUDGET_CAP d"
  by (cases d) simp_all

lemma BUDGET_tables_mono: "d \<le> e \<Longrightarrow> BUDGET_PERCENT d \<le> BUDGET_PERCENT e \<and> BUDGET_CAP d \<le> BUDGET_CAP e"
  by (cases d; cases e) (simp_all add: difficulty_order)

text \<open>The reserve: 35 per cent, rounded up, is never part of a budget of at most 65 per cent.\<close>

lemma div100_le: "100 * (x div 100) \<le> (x :: int)"
  using pos_mod_sign [of 100 x] mult_div_mod_eq [of 100 x] by linarith

lemma reserve_kept:
  fixes w p :: int
  assumes "0 < w" and "p \<le> 65"
  shows "(w * 35 + 99) div 100 \<le> w - w * p div 100"
proof -
  have "w * p \<le> w * 65" using assms by (simp add: mult_left_mono)
  then show ?thesis using div100_le [of "w * p"] div100_le [of "w * 35 + 99"] by linarith
qed

lemma compute_budget_eq:
  "compute_budget window d = (
     let budget = min (window * BUDGET_PERCENT d div 100) (BUDGET_CAP d)
     in if window \<le> 0 then Inl (WindowNotPositive window)
        else if budget < 1 then
          Inl (WindowTooSmall window d (BUDGET_PERCENT d) (BUDGET_CAP d) budget)
        else Inr \<lparr>context_window_tokens = window, difficulty = d,
          budget_percent = BUDGET_PERCENT d, budget_cap_tokens = BUDGET_CAP d,
          budget_tokens = budget, reserved_tokens = window - budget\<rparr>)"
proof -
  define p where "p = window * BUDGET_PERCENT d div 100"
  define b where "b = min p (BUDGET_CAP d)"
  have le: "b \<le> p" "b \<le> BUDGET_CAP d" by (simp_all add: b_def)
  have reserve: "(window * 35 + 99) div 100 \<le> window - b" if "0 < window"
    using reserve_kept [OF that BUDGET_PERCENT_range [THEN conjunct2], of d] le
    by (simp add: p_def)
  show ?thesis
    unfolding compute_budget_def Let_def p_def [symmetric] b_def [symmetric]
    using le reserve BUDGET_PERCENT_range [of d] BUDGET_CAP_pos [of d]
    by (cases "0 < window") (auto simp: guarded_def not_less not_le)
qed

text \<open>
  The token budget is always safe: \<open>compute_budget\<close> never trips one of its internal
  assertions, whatever the window, and a budget it returns lies between one token and the cap of
  the difficulty, adds up with the reserve to the whole window and leaves at least 35 per cent
  of the window in reserve.
\<close>

theorem compute_budget_safe:
  "case compute_budget window d of
     Inl (BudgetAssertion s) \<Rightarrow> False
   | Inl (WindowNotPositive w) \<Rightarrow> w = window \<and> window \<le> 0
   | Inl (WindowTooSmall w e p c b) \<Rightarrow> 0 < window \<and> window * BUDGET_PERCENT d < 100
   | Inr r \<Rightarrow> 1 \<le> budget_tokens r \<and> budget_tokens r \<le> BUDGET_CAP d
       \<and> budget_tokens r + reserved_tokens r = window
       \<and> 35 * window \<le> 100 * reserved_tokens r"
proof -
  define b where "b = min (window * BUDGET_PERCENT d div 100) (BUDGET_CAP d)"
  have small: "window * BUDGET_PERCENT d < 100" if "b < 1"
  proof -
    have "window * BUDGET_PERCENT d div 100 < 1"
      using that BUDGET_CAP_pos [of d] unfolding b_def by linarith
    then show ?thesis by linarith
  qed
  define q where "q = window * BUDGET_PERCENT d div 100"
  define t where "t = window * BUDGET_PERCENT d"
  have "100 * q \<le> t" by (simp add: q_def t_def div100_le)
  moreover have "b \<le> q" by (simp add: b_def q_def)
  moreover have "t \<le> 65 * window" if "0 < window"
    using that BUDGET_PERCENT_range [of d] by (simp add: t_def mult.commute [of window])
  ultimately have reserve: "35 * window \<le> 100 * (window - b)" if "0 < window"
    using that by fastforce
  have "b \<le> BUDGET_CAP d" by (simp add: b_def)
  then show ?thesis
    unfolding compute_budget_eq Let_def b_def [symmetric]
    using small reserve by (auto simp: not_less not_le)
qed

end
