(* ===== verification/Escalation.thy ===== *)
theory Escalation
  imports Core_Types
begin

text \<open>
  \<open>escalation_service.py\<close>: the tier progression of Workers.  The progression is the
  module's dictionary, consulted with \<open>dict.get\<close> and a sentinel; a decision is built by the
  checking constructor \<open>EscalationDecision.__post_init__\<close> (\<open>make_decision\<close>).
\<close>

datatype EscalationAction = ESCALATE | REQUEST_USER_DECISION

datatype escalation_error =
    NextKindMissing
  | NextKindPresent
  | NotExpert WorkerKind
  | UnknownWorkerKind WorkerKind

definition PROGRESSION :: "(WorkerKind, WorkerKind option) dict" where
  "PROGRESSION =
    [(BASIC_AGENT, Some STANDARD_AGENT),
     (STANDARD_AGENT, Some ADVANCED_AGENT),
     (ADVANCED_AGENT, Some EXPERT_AGENT),
     (EXPERT_AGENT, None)]"

record EscalationRequest =
  er_current_worker_kind :: WorkerKind

record EscalationDecision =
  ed_action :: EscalationAction
  ed_current_worker_kind :: WorkerKind
  ed_next_worker_kind :: "WorkerKind option"

definition make_decision ::
  "EscalationAction \<Rightarrow> WorkerKind \<Rightarrow> WorkerKind option \<Rightarrow> escalation_error + EscalationDecision"
where
  "make_decision action current next_kind = (
     let d = \<lparr>ed_action = action, ed_current_worker_kind = current, ed_next_worker_kind = next_kind\<rparr>
     in case action of
          ESCALATE \<Rightarrow> guarded [(next_kind = None, NextKindMissing)] (Inr d)
        | REQUEST_USER_DECISION \<Rightarrow>
            guarded [(next_kind \<noteq> None, NextKindPresent),
                     (current \<noteq> EXPERT_AGENT, NotExpert current)] (Inr d))"

definition evaluate_escalation :: "EscalationRequest \<Rightarrow> escalation_error + EscalationDecision" where
  "evaluate_escalation request = (
     let current = er_current_worker_kind request
     in case dict_get PROGRESSION current of
          None \<Rightarrow> Inl (UnknownWorkerKind current)
        | Some next_kind \<Rightarrow>
            make_decision (if next_kind = None then REQUEST_USER_DECISION else ESCALATE)
              current next_kind)"

text \<open>One escalation as a step between tiers.\<close>

definition escalates :: "WorkerKind \<Rightarrow> WorkerKind \<Rightarrow> bool" where
  "escalates k k' \<longleftrightarrow> (case evaluate_escalation \<lparr>er_current_worker_kind = k\<rparr> of
     Inl e \<Rightarrow> False
   | Inr d \<Rightarrow> ed_action d = ESCALATE \<and> ed_next_worker_kind d = Some k')"

lemma evaluate_escalation_eq:
  "evaluate_escalation \<lparr>er_current_worker_kind = k\<rparr> =
     Inr (case k of
       BASIC_AGENT \<Rightarrow> \<lparr>ed_action = ESCALATE, ed_current_worker_kind = k,
                       ed_next_worker_kind = Some STANDARD_AGENT\<rparr>
     | STANDARD_AGENT \<Rightarrow> \<lparr>ed_action = ESCALATE, ed_current_worker_kind = k,
                          ed_next_worker_kind = Some ADVANCED_AGENT\<rparr>
     | ADVANCED_AGENT \<Rightarrow> \<lparr>ed_action = ESCALATE, ed_current_worker_kind = k,
                          ed_next_worker_kind = Some EXPERT_AGENT\<rparr>
     | EXPERT_AGENT \<Rightarrow> \<lparr>ed_action = REQUEST_USER_DECISION, ed_current_worker_kind = k,
                        ed_next_worker_kind = None\<rparr>)"
  by (cases k) (simp_all add: evaluate_escalation_def PROGRESSION_def dict_get_def make_decision_def)

lemma escalates_iff: "escalates k k' \<longleftrightarrow> kind_rank k' = Suc (kind_rank k)"
  by (cases k; cases k') (simp_all add: escalates_def evaluate_escalation_eq)

lemma escalates_relpowp_rank: "(escalates ^^ n) k k' \<Longrightarrow> kind_rank k' = kind_rank k + n"
  by (induction n arbitrary: k') (auto simp: escalates_iff)

lemma escalates_to_any: "kind_rank k' = kind_rank k + n \<Longrightarrow> (escalates ^^ n) k k'"
proof (induction n arbitrary: k')
  case 0
  then show ?case by (simp add: kind.rank_inject)
next
  case (Suc n)
  have "kind_rank k + n < length worker_kinds"
    using Suc.prems kind.rank_less [of k'] by simp
  then obtain m where m: "kind_rank m = kind_rank k + n" using kind.rank_surj by blast
  from m have "(escalates ^^ n) k m" by (rule Suc.IH)
  moreover from m Suc.prems have "escalates m k'" by (simp add: escalates_iff)
  ultimately show ?case by auto
qed

text \<open>
  Escalation makes progress and stops: every tier gets a decision (the checking constructor
  never rejects it), the user is asked exactly at the expert tier, and \<open>n\<close> successive
  escalations lead from one tier to another exactly when the second is \<open>n\<close> tiers above the
  first, so no run of escalations is longer than three or ever returns to a tier.
\<close>

theorem escalation_progress:
  "(\<exists>d. evaluate_escalation \<lparr>er_current_worker_kind = k\<rparr> = Inr d
        \<and> ed_current_worker_kind d = k
        \<and> (ed_action d = REQUEST_USER_DECISION \<longleftrightarrow> k = EXPERT_AGENT)
        \<and> (ed_next_worker_kind d = None \<longleftrightarrow> k = EXPERT_AGENT))
   \<and> ((escalates ^^ n) k k' \<longleftrightarrow> kind_rank k' = kind_rank k + n)"
proof
  show "\<exists>d. evaluate_escalation \<lparr>er_current_worker_kind = k\<rparr> = Inr d
        \<and> ed_current_worker_kind d = k
        \<and> (ed_action d = REQUEST_USER_DECISION \<longleftrightarrow> k = EXPERT_AGENT)
        \<and> (ed_next_worker_kind d = None \<longleftrightarrow> k = EXPERT_AGENT)"
    by (cases k) (simp_all add: evaluate_escalation_eq)
  show "(escalates ^^ n) k k' \<longleftrightarrow> kind_rank k' = kind_rank k + n"
    by (blast intro: escalates_relpowp_rank escalates_to_any)
qed

end
