(* ===== verification/Difficulty.thy ===== *)
theory Difficulty
  imports Core_Types
begin

text \<open>
  \<open>difficulty_assessor.py\<close>: the deterministic assessment of a task's difficulty from the
  seven rationale keys.  The policy table is the module's table; the rationale keys are looked
  up in it, their dimensions must come in the order of \<open>AssessmentDimension\<close>, and the
  minimum (from the hard floors), the recommendation (from all dimensions) and the PM's
  selection are combined with the override rules.  The type checks of the Python code are
  discharged by the types.
\<close>

datatype AssessmentDimension =
    MODIFICATION_SCOPE | REQUIREMENT_CLARITY | STATE_CONCURRENCY | PUBLIC_CONTRACT
  | FAILURE_IMPACT | ROLLBACK_COMPLEXITY | DEPENDENCY_CONFLICT

record DimensionResult =
  dr_dimension :: AssessmentDimension
  dr_difficulty :: TaskDifficulty
  dr_rationale_key :: string
  dr_hard_floor :: bool

record TaskDifficultyAssessment =
  ta_schema_version :: string
  ta_assessment_id :: string
  ta_task_id :: string
  ta_revision :: int
  ta_minimum_difficulty :: TaskDifficulty
  ta_recommended_difficulty :: TaskDifficulty
  ta_selected_difficulty :: TaskDifficulty
  ta_dimension_results :: "DimensionResult list"
  ta_override_direction :: string
  ta_override_reason :: "string option"
  ta_approval_id :: "string option"
  ta_policy_version :: string

datatype assessment_error =
    DifficultyAssessmentInputError string
  | DifficultyAssessmentStateError string

definition OVERRIDE_REASONS :: "string list" where
  "OVERRIDE_REASONS =
    [''pm_scope_calibration'', ''pm_known_pattern'', ''pm_bounded_failure_impact'',
     ''pm_reviewed_rollback'']"

definition DIMENSION_ORDER :: "AssessmentDimension list" where
  "DIMENSION_ORDER =
    [MODIFICATION_SCOPE, REQUIREMENT_CLARITY, STATE_CONCURRENCY, PUBLIC_CONTRACT,
     FAILURE_IMPACT, ROLLBACK_COMPLEXITY, DEPENDENCY_CONFLICT]"

definition RATIONALE_POLICY :: "(string \<times> AssessmentDimension \<times> TaskDifficulty \<times> bool) list" where
  "RATIONALE_POLICY =
    [(''scope.bounded'', MODIFICATION_SCOPE, BASIC, False),
     (''scope.single_module'', MODIFICATION_SCOPE, STANDARD, False),
     (''scope.cross_module'', MODIFICATION_SCOPE, ADVANCED, False),
     (''scope.architecture'', MODIFICATION_SCOPE, EXPERT, False),
     (''clarity.explicit'', REQUIREMENT_CLARITY, BASIC, False),
     (''clarity.known_pattern'', REQUIREMENT_CLARITY, STANDARD, False),
     (''clarity.ambiguous_constraints'', REQUIREMENT_CLARITY, ADVANCED, False),
     (''clarity.open_decision'', REQUIREMENT_CLARITY, EXPERT, False),
     (''concurrency.single_writer'', STATE_CONCURRENCY, BASIC, False),
     (''concurrency.shared_state'', STATE_CONCURRENCY, STANDARD, False),
     (''concurrency.lock_cas'', STATE_CONCURRENCY, ADVANCED, True),
     (''concurrency.cross_process_recovery'', STATE_CONCURRENCY, EXPERT, True),
     (''contract.internal'', PUBLIC_CONTRACT, BASIC, False),
     (''contract.additive'', PUBLIC_CONTRACT, STANDARD, False),
     (''contract.compatibility_sensitive'', PUBLIC_CONTRACT, ADVANCED, False),
     (''contract.breaking_migration'', PUBLIC_CONTRACT, EXPERT, True),
     (''impact.informational'', FAILURE_IMPACT, BASIC, False),
     (''impact.local_failure'', FAILURE_IMPACT, STANDARD, False),
     (''impact.service_degradation'', FAILURE_IMPACT, ADVANCED, False),
     (''impact.security_boundary'', FAILURE_IMPACT, EXPERT, True),
     (''impact.data_corruption'', FAILURE_IMPACT, EXPERT, True),
     (''rollback.simple'', ROLLBACK_COMPLEXITY, BASIC, False),
     (''rollback.tested'', ROLLBACK_COMPLEXITY, STANDARD, False),
     (''rollback.multi_step'', ROLLBACK_COMPLEXITY, ADVANCED, False),
     (''rollback.irreversible'', ROLLBACK_COMPLEXITY, EXPERT, True),
     (''dependency.none'', DEPENDENCY_CONFLICT, BASIC, False),
     (''dependency.known'', DEPENDENCY_CONFLICT, STANDARD, False),
     (''dependency.cross_repository'', DEPENDENCY_CONFLICT, ADVANCED, False),
     (''dependency.unresolved'', DEPENDENCY_CONFLICT, EXPERT, False)]"

definition clean_string :: "string \<Rightarrow> string \<Rightarrow> assessment_error + string" where
  "clean_string value field = guarded
     [(value = [] \<or> py_strip value \<noteq> value,
         DifficultyAssessmentInputError (field @ ''_blank_or_wrapped'')),
      (has_char nul_cr_lf value,
         DifficultyAssessmentInputError (field @ ''_control_character''))]
     (Inr value)"

text \<open>The pattern \<open>ASM-[A-Za-z0-9][A-Za-z0-9._-]*\<close>.\<close>

definition assessment_id_pattern :: "string \<Rightarrow> bool" where
  "assessment_id_pattern s \<longleftrightarrow> starts_with ''ASM-'' s \<and>
     (case drop 4 s of [] \<Rightarrow> False
      | c # cs \<Rightarrow> is_alnum c \<and> list_all (\<lambda>x. is_alnum x \<or> x \<in> set ''._-'') cs)"

definition validate_assessment_id :: "string \<Rightarrow> assessment_error + string" where
  "validate_assessment_id value = and_then (clean_string value ''assessment_id'')
     (\<lambda>v. guarded [(\<not> assessment_id_pattern v,
                     DifficultyAssessmentInputError ''assessment_id_format'')] (Inr v))"

definition validate_optional_string :: "string option \<Rightarrow> string \<Rightarrow> assessment_error + string option"
where
  "validate_optional_string value field = (case value of
     None \<Rightarrow> Inr None
   | Some s \<Rightarrow> and_then (clean_string s field) (\<lambda>v. Inr (Some v)))"

fun policy_in ::
  "(string \<times> AssessmentDimension \<times> TaskDifficulty \<times> bool) list \<Rightarrow> string \<Rightarrow>
     (AssessmentDimension \<times> TaskDifficulty \<times> bool) option"
where
  "policy_in [] key = None"
| "policy_in ((k, p) # rest) key = (if key = k then Some p else policy_in rest key)"

definition policy_for :: "string \<Rightarrow> (AssessmentDimension \<times> TaskDifficulty \<times> bool) option" where
  "policy_for key = policy_in RATIONALE_POLICY key"

text \<open>The loop over \<open>enumerate(rationale_keys)\<close>, with the dimensions still expected.\<close>

fun dimension_results_loop ::
  "AssessmentDimension list \<Rightarrow> string list \<Rightarrow> assessment_error + DimensionResult list"
where
  "dimension_results_loop dims [] = Inr []"
| "dimension_results_loop [] (key # keys) = Inl (DifficultyAssessmentInputError ''rationale_keys_count'')"
| "dimension_results_loop (dim # dims) (key # keys) =
     and_then (clean_string key ''rationale_key'') (\<lambda>key.
       case policy_for key of
         None \<Rightarrow> Inl (DifficultyAssessmentInputError ''rationale_key_unknown'')
       | Some (dimension, difficulty, hard_floor) \<Rightarrow>
           if dimension \<noteq> dim then Inl (DifficultyAssessmentInputError ''rationale_dimension_order'')
           else and_then (dimension_results_loop dims keys) (\<lambda>results.
             Inr (\<lparr>dr_dimension = dimension, dr_difficulty = difficulty,
                   dr_rationale_key = key, dr_hard_floor = hard_floor\<rparr> # results)))"

definition validated_dimension_results :: "string list \<Rightarrow> assessment_error + DimensionResult list" where
  "validated_dimension_results keys = guarded
     [(length keys \<noteq> length DIMENSION_ORDER, DifficultyAssessmentInputError ''rationale_keys_count'')]
     (dimension_results_loop DIMENSION_ORDER keys)"

definition maximum_difficulty :: "TaskDifficulty list \<Rightarrow> TaskDifficulty" where
  "maximum_difficulty values =
     foldl (\<lambda>maximum value. if difficulty_rank value > difficulty_rank maximum then value else maximum)
       BASIC values"

definition validate_approval_id :: "string option \<Rightarrow> assessment_error + string option" where
  "validate_approval_id value = (case value of
     None \<Rightarrow> Inr None
   | Some v \<Rightarrow> guarded [(\<not> starts_with ''APR-'' v \<or> length v = length ''APR-'',
                          DifficultyAssessmentInputError ''approval_id_format'')] (Inr (Some v)))"

text \<open>The override rules: the direction and the two override fields that are kept.\<close>

definition override_fields ::
  "TaskDifficulty \<Rightarrow> TaskDifficulty \<Rightarrow> string option \<Rightarrow> string option \<Rightarrow>
     assessment_error + (string \<times> string option \<times> string option)"
where
  "override_fields selected recommended reason approval =
     (if selected = recommended then
        guarded [(reason \<noteq> None \<or> approval \<noteq> None,
                  DifficultyAssessmentInputError ''override_fields_without_downward_override'')]
          (Inr (''none'', None, None))
      else if difficulty_rank selected > difficulty_rank recommended then
        guarded [(reason \<noteq> None \<or> approval \<noteq> None,
                  DifficultyAssessmentInputError ''override_fields_without_downward_override'')]
          (Inr (''up'', None, None))
      else
        guarded [((case reason of None \<Rightarrow> True | Some r \<Rightarrow> r \<notin> set OVERRIDE_REASONS),
                  DifficultyAssessmentInputError ''downward_override_reason''),
                 (approval = None, DifficultyAssessmentInputError ''downward_override_approval'')]
          (Inr (''down'', reason, approval)))"

text \<open>The aggregation, once every argument is validated.\<close>

definition minimum_of :: "DimensionResult list \<Rightarrow> TaskDifficulty" where
  "minimum_of results = (
     let hard_floors = map dr_difficulty (filter dr_hard_floor results)
     in if hard_floors = [] then BASIC else maximum_difficulty hard_floors)"

definition recommended_of :: "DimensionResult list \<Rightarrow> TaskDifficulty" where
  "recommended_of results = maximum_difficulty (map dr_difficulty results)"

definition aggregate ::
  "string \<Rightarrow> string \<Rightarrow> int \<Rightarrow> DimensionResult list \<Rightarrow> TaskDifficulty option \<Rightarrow> string option \<Rightarrow>
     string option \<Rightarrow> assessment_error + TaskDifficultyAssessment"
where
  "aggregate aid tid revision results selected_difficulty reason approval = (
     let minimum = minimum_of results;
         recommended = recommended_of results;
         selected = (case selected_difficulty of None \<Rightarrow> recommended | Some s \<Rightarrow> s)
     in guarded [(difficulty_rank selected < difficulty_rank minimum,
                  DifficultyAssessmentStateError ''selected_below_minimum'')] (
        and_then (override_fields selected recommended reason approval) (\<lambda>(direction, reason', approval').
        Inr \<lparr>ta_schema_version = ''agentdesk.difficulty-assessment/v1'',
             ta_assessment_id = aid, ta_task_id = tid, ta_revision = revision,
             ta_minimum_difficulty = minimum, ta_recommended_difficulty = recommended,
             ta_selected_difficulty = selected, ta_dimension_results = results,
             ta_override_direction = direction, ta_override_reason = reason',
             ta_approval_id = approval',
             ta_policy_version = ''agentdesk.difficulty-policy/v1''\<rparr>)))"

definition assess_task_difficulty ::
  "string \<Rightarrow> string \<Rightarrow> int \<Rightarrow> string list \<Rightarrow> TaskDifficulty option \<Rightarrow> string option \<Rightarrow> string option \<Rightarrow>
     assessment_error + TaskDifficultyAssessment"
where
  "assess_task_difficulty assessment_id task_id revision rationale_keys
       selected_difficulty override_reason approval_id =
     and_then (validate_assessment_id assessment_id) (\<lambda>aid.
     and_then (clean_string task_id ''task_id'') (\<lambda>tid.
     guarded [(revision < 1, DifficultyAssessmentInputError ''revision_range'')] (
     and_then (validated_dimension_results rationale_keys) (\<lambda>results.
     and_then (validate_optional_string override_reason ''override_reason'') (\<lambda>reason.
     and_then (and_then (validate_optional_string approval_id ''approval_id'') validate_approval_id)
       (\<lambda>approval.
     aggregate aid tid revision results selected_difficulty reason approval))))))"

section \<open>Facts about the pieces\<close>

lemma clean_string_Inr [simp]: "clean_string v f = Inr w \<longleftrightarrow>
    w = v \<and> v \<noteq> [] \<and> py_strip v = v \<and> \<not> has_char nul_cr_lf v"
  by (auto simp: clean_string_def res_simps)

lemma validate_assessment_id_Inr [simp]:
  "validate_assessment_id v = Inr w \<longleftrightarrow>
    w = v \<and> clean_string v ''assessment_id'' = Inr v \<and> assessment_id_pattern v"
  by (auto simp: validate_assessment_id_def res_simps)

lemma validate_optional_string_Inr:
  "validate_optional_string v f = Inr w \<Longrightarrow> w = v"
  by (auto simp: validate_optional_string_def res_simps split: option.splits)

lemma validate_approval_id_Inr:
  "validate_approval_id v = Inr w \<Longrightarrow>
     w = v \<and> (\<forall>s. v = Some s \<longrightarrow> starts_with ''APR-'' s \<and> length s > length ''APR-'')"
  by (cases v) (auto simp: validate_approval_id_def res_simps dest: starts_with_length)



lemma maximum_difficulty_upper: "d \<in> set ds \<Longrightarrow> d \<le> maximum_difficulty ds"
  unfolding maximum_difficulty_def less_eq_TaskDifficulty_def by (rule difficulty.foldl_max_upper)

lemma maximum_difficulty_member: "maximum_difficulty ds \<in> insert BASIC (set ds)"
  unfolding maximum_difficulty_def by (rule difficulty.foldl_max_member)

lemma maximum_difficulty_mono: "set ds \<subseteq> set es \<Longrightarrow> maximum_difficulty ds \<le> maximum_difficulty es"
  using maximum_difficulty_member [of ds] maximum_difficulty_upper [of _ es] by auto

lemma override_fields_Inr:
  "override_fields sel rec reason approval = Inr (dir, reason', approval') \<longleftrightarrow>
     (if sel = rec then dir = ''none'' \<and> reason = None \<and> approval = None
                       \<and> reason' = None \<and> approval' = None
      else if rec < sel then dir = ''up'' \<and> reason = None \<and> approval = None
                       \<and> reason' = None \<and> approval' = None
      else dir = ''down'' \<and> reason' = reason \<and> approval' = approval \<and> approval \<noteq> None
           \<and> (\<exists>r. reason = Some r \<and> r \<in> set OVERRIDE_REASONS))"
  by (auto simp: override_fields_def res_simps difficulty_order split: option.splits)

lemma minimum_le_recommended: "minimum_of rs \<le> recommended_of rs"
proof -
  have "maximum_difficulty (map dr_difficulty (filter dr_hard_floor rs))
      \<le> maximum_difficulty (map dr_difficulty rs)"
    by (rule maximum_difficulty_mono) auto
  then show ?thesis by (simp add: minimum_of_def recommended_of_def Let_def)
qed



text \<open>Everything a successful assessment has checked and computed.\<close>

lemma aggregate_Inr:
  "aggregate aid tid rv rs sel reason approval = Inr a \<Longrightarrow>
     ta_dimension_results a = rs
     \<and> ta_recommended_difficulty a = recommended_of rs
     \<and> ta_minimum_difficulty a = minimum_of rs
     \<and> ta_selected_difficulty a = (case sel of None \<Rightarrow> recommended_of rs | Some s \<Rightarrow> s)
     \<and> minimum_of rs \<le> ta_selected_difficulty a
     \<and> override_fields (ta_selected_difficulty a) (recommended_of rs) reason approval =
           Inr (ta_override_direction a, ta_override_reason a, ta_approval_id a)"
  by (auto simp: aggregate_def res_simps Let_def difficulty_order)

lemma assess_Inr:
  assumes "assess_task_difficulty aid tid rv keys sel reason approval = Inr a"
  obtains rs where "validated_dimension_results keys = Inr rs"
    and "aggregate aid tid rv rs sel reason approval = Inr a"
    and "\<forall>s. approval = Some s \<longrightarrow> starts_with ''APR-'' s \<and> length s > length ''APR-''"
proof -
  from assms obtain rs reason' approval' approval'' where
      "validated_dimension_results keys = Inr rs"
    and "validate_optional_string reason ''override_reason'' = Inr reason'"
    and "validate_optional_string approval ''approval_id'' = Inr approval'"
    and "validate_approval_id approval' = Inr approval''"
    and "aggregate aid tid rv rs sel reason' approval'' = Inr a"
    by (auto simp: assess_task_difficulty_def res_simps)
  then show thesis
    by (auto intro!: that dest!: validate_optional_string_Inr validate_approval_id_Inr)
qed

section \<open>Properties\<close>


text \<open>
  Lowering the difficulty needs authority: when the selected difficulty is below the
  recommendation, the assessment carries one of the four frozen override reasons and a
  well-formed approval id, both those the PM supplied; in every other case both fields are
  empty, so no assessment carries an unused approval.
\<close>

theorem assessment_downgrade_authorised:
  assumes "assess_task_difficulty aid tid rv keys sel reason approval = Inr a"
  shows "if ta_selected_difficulty a < ta_recommended_difficulty a
    then (\<exists>r p. ta_override_reason a = Some r \<and> reason = Some r \<and> r \<in> set OVERRIDE_REASONS
            \<and> ta_approval_id a = Some p \<and> approval = Some p
            \<and> starts_with ''APR-'' p \<and> length p > length ''APR-'')
    else ta_override_reason a = None \<and> ta_approval_id a = None \<and> reason = None \<and> approval = None"
proof -
  from assms obtain rs where agg: "aggregate aid tid rv rs sel reason approval = Inr a"
    and "\<forall>s. approval = Some s \<longrightarrow> starts_with ''APR-'' s \<and> length s > length ''APR-''"
    by (rule assess_Inr)
  then show ?thesis
    using aggregate_Inr [OF agg] by (auto simp: override_fields_Inr split: if_splits)
qed

text \<open>
  With valid identifiers and rationale keys and no override fields, the assessment
  succeeds exactly for the selections at or above the recommendation, and the omitted selection
  is the recommendation itself.
\<close>

theorem assessment_without_override:
  assumes "validate_assessment_id aid = Inr aid" and "clean_string tid ''task_id'' = Inr tid"
    and "1 \<le> rv" and "validated_dimension_results keys = Inr rs"
  shows "((\<exists>a. assess_task_difficulty aid tid rv keys (Some s) None None = Inr a)
           \<longleftrightarrow> recommended_of rs \<le> s)
    \<and> (\<exists>a. assess_task_difficulty aid tid rv keys None None None = Inr a
           \<and> ta_selected_difficulty a = recommended_of rs)"
proof -
  have eq: "assess_task_difficulty aid tid rv keys sel None None =
      aggregate aid tid rv rs sel None None" for sel
    unfolding assess_task_difficulty_def
    by (simp add: assms(1,2,4) assms(3) [unfolded not_less [symmetric]] validate_optional_string_def
        validate_approval_id_def del: clean_string_Inr validate_assessment_id_Inr)
  have le: "\<not> s < minimum_of rs" if "recommended_of rs \<le> s" for s
    using that minimum_le_recommended [of rs] by auto
  show ?thesis
    unfolding eq aggregate_def Let_def less_TaskDifficulty_def [symmetric] using le
    by (cases "s = recommended_of rs")
      (auto simp: res_simps override_fields_Inr not_less split: if_splits)
qed

text \<open>Witnesses: a lock-and-CAS task with a hard floor at advanced.\<close>

definition sample_keys :: "string list" where
  "sample_keys =
    [''scope.architecture'', ''clarity.explicit'', ''concurrency.lock_cas'', ''contract.additive'',
     ''impact.local_failure'', ''rollback.tested'', ''dependency.none'']"


lemma assessment_downgrade_authorised_witness:
  "\<exists>a. assess_task_difficulty ''ASM-1'' ''TC-1'' 1 sample_keys (Some ADVANCED)
         (Some ''pm_known_pattern'') (Some ''APR-7'') = Inr a
     \<and> ta_approval_id a = Some ''APR-7''"
proof -
  let ?t = "assess_task_difficulty ''ASM-1'' ''TC-1'' 1 sample_keys (Some ADVANCED)
         (Some ''pm_known_pattern'') (Some ''APR-7'')"
  have "case ?t of Inl e \<Rightarrow> False
      | Inr a \<Rightarrow> ta_selected_difficulty a < ta_recommended_difficulty a"
    by code_simp
  then obtain a where a: "?t = Inr a" "ta_selected_difficulty a < ta_recommended_difficulty a"
    by (cases ?t) auto
  show ?thesis using a assessment_downgrade_authorised [OF a(1)] by auto
qed

lemma assessment_without_override_witness:
  "\<exists>a. assess_task_difficulty ''ASM-1'' ''TC-1'' 1 sample_keys None None None = Inr a
     \<and> ta_selected_difficulty a = EXPERT"
proof -
  have h: "validate_assessment_id ''ASM-1'' = Inr ''ASM-1''"
    "clean_string ''TC-1'' ''task_id'' = Inr ''TC-1''"
    by code_simp+
  have "case validated_dimension_results sample_keys of Inl e \<Rightarrow> False
      | Inr rs \<Rightarrow> recommended_of rs = EXPERT"
    by code_simp
  then obtain rs where rs: "validated_dimension_results sample_keys = Inr rs"
      "recommended_of rs = EXPERT"
    by (cases "validated_dimension_results sample_keys") auto
  show ?thesis using assessment_without_override [OF h _ rs(1), of 1] rs(2) by simp
qed

end
