(* ===== verification/Rate_Limit.thy ===== *)
theory Rate_Limit
  imports Core_Types "HOL-Library.Multiset"
begin

text \<open>
  \<open>rate_limit.py\<close>: the stateless rate-limit policy.  A \<open>datetime\<close> is its number of
  microseconds since the epoch, the resolution of Python's type, so a duration in seconds is
  the exact quotient by one million; the code computes it as a float, which is the same value
  after \<open>math.ceil\<close> for spans below \<open>2^33\<close> seconds (272 years).  The checking constructors
  of the three dataclasses are \<open>signal_init\<close>, \<open>request_init\<close> and \<open>decision_init\<close>.
\<close>

datatype RateLimitScope = REQUEST_SCOPE | TOKEN_SCOPE | CONCURRENCY_SCOPE | UNKNOWN_SCOPE

datatype RateLimitSignalSource = PROVIDER_429 | BUDGET_THROTTLE | MANUAL

datatype RateLimitAction = ALLOW | WAIT | FAIL_CLOSED_ACTION

datatype RateLimitReason = NO_SIGNALS | WITHIN_LIMIT | RETRY_AFTER | INSUFFICIENT | EXHAUSTED

datatype rate_limit_error =
    RateLimitInputError string
  | RateLimitStateError string

record RateLimitSignal =
  sig_provider :: string
  sig_scope :: RateLimitScope
  sig_observed_at :: int
  sig_retry_after_seconds :: "int option"
  sig_reset_at :: "int option"
  sig_limit :: "int option"
  sig_remaining :: "int option"
  sig_source :: RateLimitSignalSource

record RateLimitCheckRequest =
  req_provider :: string
  req_scope :: RateLimitScope
  req_now :: int
  req_units_requested :: int
  req_signals :: "RateLimitSignal list"

record RateLimitDecision =
  dec_action :: RateLimitAction
  dec_wait_seconds :: int
  dec_reason :: RateLimitReason

definition provider_guards :: "string \<Rightarrow> (bool \<times> rate_limit_error) list" where
  "provider_guards value =
    [(value = [], RateLimitInputError ''provider must be non-empty''),
     (value \<noteq> py_strip value, RateLimitInputError ''provider whitespace''),
     (has_char nul_cr_lf value, RateLimitInputError ''provider NUL, CR, or LF'')]"

definition non_negative_guard :: "int option \<Rightarrow> string \<Rightarrow> bool \<times> rate_limit_error" where
  "non_negative_guard value field =
    (case value of None \<Rightarrow> False | Some v \<Rightarrow> v < 0, RateLimitInputError field)"

definition signal_init :: "RateLimitSignal \<Rightarrow> rate_limit_error + RateLimitSignal" where
  "signal_init s = guarded
    (provider_guards (sig_provider s) @
     [non_negative_guard (sig_retry_after_seconds s) ''retry_after_seconds'',
      (case sig_reset_at s of None \<Rightarrow> False | Some r \<Rightarrow> r < sig_observed_at s,
         RateLimitInputError ''reset_at must be >= observed_at''),
      non_negative_guard (sig_limit s) ''limit'',
      non_negative_guard (sig_remaining s) ''remaining'',
      (case (sig_limit s, sig_remaining s) of (Some l, Some r) \<Rightarrow> r > l | _ \<Rightarrow> False,
         RateLimitInputError ''remaining must be <= limit'')])
    (Inr s)"

definition request_init :: "RateLimitCheckRequest \<Rightarrow> rate_limit_error + RateLimitCheckRequest" where
  "request_init r = guarded
    (provider_guards (req_provider r) @
     [(req_units_requested r < 1, RateLimitInputError ''units_requested must be >= 1'')])
    (Inr r)"

definition decision_init ::
  "RateLimitAction \<Rightarrow> int \<Rightarrow> RateLimitReason \<Rightarrow> rate_limit_error + RateLimitDecision"
where
  "decision_init action wait reason = guarded
    ((wait < 0, RateLimitInputError ''wait_seconds must be non-negative'') #
     (case action of
        ALLOW \<Rightarrow>
          [(reason \<notin> {NO_SIGNALS, WITHIN_LIMIT}, RateLimitStateError ''ALLOW reason''),
           (wait \<noteq> 0, RateLimitStateError ''ALLOW must have wait_seconds == 0'')]
      | WAIT \<Rightarrow>
          [(reason \<notin> {RETRY_AFTER, INSUFFICIENT}, RateLimitStateError ''WAIT reason''),
           (wait \<le> 0, RateLimitStateError ''WAIT must have wait_seconds > 0'')]
      | FAIL_CLOSED_ACTION \<Rightarrow>
          [(reason \<noteq> EXHAUSTED, RateLimitStateError ''FAIL_CLOSED reason''),
           (wait \<noteq> 0, RateLimitStateError ''FAIL_CLOSED must have wait_seconds == 0'')]))
    (Inr \<lparr>dec_action = action, dec_wait_seconds = wait, dec_reason = reason\<rparr>)"

text \<open>\<open>math.ceil\<close> of a duration given in microseconds.\<close>

definition ceil_seconds :: "int \<Rightarrow> int" where
  "ceil_seconds us = - ((- us) div 1000000)"

definition matches :: "RateLimitCheckRequest \<Rightarrow> RateLimitSignal \<Rightarrow> bool" where
  "matches request sig \<longleftrightarrow> sig_provider sig = req_provider request
     \<and> (req_scope request = UNKNOWN_SCOPE \<or> sig_scope sig = req_scope request
        \<or> sig_scope sig = UNKNOWN_SCOPE)"

definition retry_wait :: "int \<Rightarrow> RateLimitSignal \<Rightarrow> int option" where
  "retry_wait now sig = (case sig_retry_after_seconds sig of
     None \<Rightarrow> None
   | Some r \<Rightarrow> Some (max 0 (ceil_seconds (r * 1000000 - (now - sig_observed_at sig)))))"

definition reset_wait :: "int \<Rightarrow> RateLimitSignal \<Rightarrow> int option" where
  "reset_wait now sig = (case sig_reset_at sig of
     None \<Rightarrow> None
   | Some r \<Rightarrow> Some (max 0 (ceil_seconds (r - now))))"

definition or_zero :: "int option \<Rightarrow> int" where
  "or_zero v = (case v of None \<Rightarrow> 0 | Some w \<Rightarrow> w)"

definition effective_wait :: "int \<Rightarrow> RateLimitSignal \<Rightarrow> int" where
  "effective_wait now sig = max (or_zero (retry_wait now sig)) (or_zero (reset_wait now sig))"

definition has_time_info :: "RateLimitSignal \<Rightarrow> bool" where
  "has_time_info sig \<longleftrightarrow> sig_retry_after_seconds sig \<noteq> None \<or> sig_reset_at sig \<noteq> None"

text \<open>One iteration of the loop of step 4: what the signal contributes.\<close>

datatype candidate = Expired | WaitCandidate int bool | FailCandidate | AllowCandidate

definition classify :: "RateLimitCheckRequest \<Rightarrow> RateLimitSignal \<Rightarrow> candidate" where
  "classify request sig = (
     let now = req_now request; wait = effective_wait now sig
     in if has_time_info sig \<and> wait = 0 then Expired
        else if wait > 0 then
          WaitCandidate wait (case retry_wait now sig of None \<Rightarrow> False | Some w \<Rightarrow> w > 0)
        else if (case sig_remaining sig of None \<Rightarrow> True
                 | Some r \<Rightarrow> r = 0 \<or> r < req_units_requested request) then FailCandidate
        else AllowCandidate)"

definition wait_candidates :: "candidate list \<Rightarrow> (int \<times> bool) list" where
  "wait_candidates cs = List.map_filter
     (\<lambda>c. case c of WaitCandidate w r \<Rightarrow> Some (w, r) | _ \<Rightarrow> None) cs"

definition evaluate :: "RateLimitCheckRequest \<Rightarrow> rate_limit_error + RateLimitDecision" where
  "evaluate request = (
     let matching = filter (matches request) (req_signals request);
         candidates = map (classify request) matching;
         waits = wait_candidates candidates
     in if matching = [] then decision_init ALLOW 0 NO_SIGNALS
        else if list_ex (\<lambda>sig. sig_observed_at sig > req_now request) matching then
          Inl (RateLimitStateError ''signal observed_at is in the future'')
        else if waits \<noteq> [] then
          decision_init WAIT (fold max (map fst waits) (fst (hd waits)))
            (if list_ex snd waits then RETRY_AFTER else INSUFFICIENT)
        else if FailCandidate \<in> set candidates then decision_init FAIL_CLOSED_ACTION 0 EXHAUSTED
        else if AllowCandidate \<in> set candidates then decision_init ALLOW 0 WITHIN_LIMIT
        else decision_init ALLOW 0 NO_SIGNALS)"

section \<open>Facts about durations and candidates\<close>

lemma ceil_seconds_le_iff: "ceil_seconds x \<le> w \<longleftrightarrow> x \<le> w * 1000000"
  unfolding ceil_seconds_def by linarith

lemma ceil_seconds_pos_iff [simp]: "0 < ceil_seconds x \<longleftrightarrow> 0 < x"
  using ceil_seconds_le_iff [of x 0] by linarith

lemma ceil_seconds_shift: "ceil_seconds (x - w * 1000000) = ceil_seconds x - w"
proof -
  have "- (x - w * 1000000) = - x + w * 1000000" by simp
  then show ?thesis by (simp add: ceil_seconds_def)
qed

lemma effective_wait_nonneg [simp]: "0 \<le> effective_wait now s"
  by (auto simp: effective_wait_def or_zero_def retry_wait_def reset_wait_def le_max_iff_disj
      split: option.splits)

lemma ceil_seconds_shifts:
  "ceil_seconds (r - (now + w * 1000000)) = ceil_seconds (r - now) - w"
  "ceil_seconds (r - (now + w * 1000000 - t)) = ceil_seconds (r - (now - t)) - w"
  using ceil_seconds_shift [of "r - now" w] ceil_seconds_shift [of "r - (now - t)" w]
  by (simp_all add: algebra_simps)

lemma max_0_shift: "0 \<le> w \<Longrightarrow> max 0 (max 0 c - w) = max 0 (c - w :: int)"
  by simp

lemma retry_wait_shift:
  "0 \<le> w \<Longrightarrow> or_zero (retry_wait (now + w * 1000000) s) = max 0 (or_zero (retry_wait now s) - w)"
  by (cases "sig_retry_after_seconds s")
    (simp_all add: or_zero_def retry_wait_def ceil_seconds_shifts max_0_shift)

lemma reset_wait_shift:
  "0 \<le> w \<Longrightarrow> or_zero (reset_wait (now + w * 1000000) s) = max 0 (or_zero (reset_wait now s) - w)"
  by (cases "sig_reset_at s")
    (simp_all add: or_zero_def reset_wait_def ceil_seconds_shifts max_0_shift)

lemma effective_wait_shift:
  "0 \<le> w \<Longrightarrow> effective_wait (now + w * 1000000) s = max 0 (effective_wait now s - w)"
  unfolding effective_wait_def by (simp add: retry_wait_shift reset_wait_shift)

lemma no_time_info_no_wait: "\<not> has_time_info s \<Longrightarrow> effective_wait now s = 0"
  by (simp add: has_time_info_def effective_wait_def or_zero_def retry_wait_def reset_wait_def)

definition retry_pending :: "int \<Rightarrow> RateLimitSignal \<Rightarrow> bool" where
  "retry_pending now s \<longleftrightarrow> (case retry_wait now s of None \<Rightarrow> False | Some w \<Rightarrow> w > 0)"

definition exhausted_for :: "int \<Rightarrow> RateLimitSignal \<Rightarrow> bool" where
  "exhausted_for units s \<longleftrightarrow> \<not> has_time_info s \<and>
     (case sig_remaining s of None \<Rightarrow> True | Some r \<Rightarrow> r = 0 \<or> r < units)"

lemma retry_pending_waits: "retry_pending now s \<Longrightarrow> 0 < effective_wait now s"
  by (auto simp: retry_pending_def effective_wait_def or_zero_def split: option.splits)

lemma set_wait_candidates: "set (wait_candidates cs) = {(w, r). WaitCandidate w r \<in> set cs}"
  by (induction cs) (auto simp: wait_candidates_def List.map_filter_simps split: candidate.splits)

lemma classify_wait_iff: "classify request s = WaitCandidate w r \<longleftrightarrow>
    0 < effective_wait (req_now request) s \<and> w = effective_wait (req_now request) s
    \<and> r = retry_pending (req_now request) s"
  by (auto simp: classify_def Let_def retry_pending_def)

lemma classify_fail_iff: "classify request s = FailCandidate \<longleftrightarrow>
    exhausted_for (req_units_requested request) s"
  using effective_wait_nonneg [of "req_now request" s]
  by (cases "has_time_info s")
    (auto simp: classify_def Let_def exhausted_for_def no_time_info_no_wait not_less
      simp del: effective_wait_nonneg split: option.splits)

lemma classify_allow_iff: "classify request s = AllowCandidate \<longleftrightarrow>
    \<not> has_time_info s \<and> \<not> exhausted_for (req_units_requested request) s"
  using effective_wait_nonneg [of "req_now request" s]
  by (cases "has_time_info s")
    (auto simp: classify_def Let_def exhausted_for_def no_time_info_no_wait not_less
      simp del: effective_wait_nonneg split: option.splits)

section \<open>The policy as a function of the set of matching signals\<close>

text \<open>The abstract policy: no lists, no candidates, only which signals there are.\<close>

definition policy :: "RateLimitCheckRequest \<Rightarrow> rate_limit_error + RateLimitDecision" where
  "policy request = (
     let M = {s \<in> set (req_signals request). matches request s}; now = req_now request
     in if \<exists>s \<in> M. now < sig_observed_at s then
          Inl (RateLimitStateError ''signal observed_at is in the future'')
        else if \<exists>s \<in> M. 0 < effective_wait now s then
          Inr \<lparr>dec_action = WAIT, dec_wait_seconds = Max (effective_wait now ` M),
               dec_reason = (if \<exists>s \<in> M. retry_pending now s then RETRY_AFTER else INSUFFICIENT)\<rparr>
        else if \<exists>s \<in> M. exhausted_for (req_units_requested request) s then
          Inr \<lparr>dec_action = FAIL_CLOSED_ACTION, dec_wait_seconds = 0, dec_reason = EXHAUSTED\<rparr>
        else Inr \<lparr>dec_action = ALLOW, dec_wait_seconds = 0,
                  dec_reason = (if \<exists>s \<in> M. \<not> has_time_info s then WITHIN_LIMIT else NO_SIGNALS)\<rparr>)"

lemma Max_positive_part:
  fixes f :: "'a \<Rightarrow> int"
  assumes "finite M" and "x \<in> M" and "0 < f x"
  shows "Max (f ` {y \<in> M. 0 < f y}) = Max (f ` M)"
proof (rule Max_eqI [symmetric])
  show "y \<le> Max (f ` {y \<in> M. 0 < f y})" if "y \<in> f ` M" for y
  proof (cases "0 < y")
    case True
    with that assms(1) show ?thesis by (auto intro!: Max_ge)
  next
    case False
    with assms have "y \<le> f x" by simp
    also from assms have "f x \<le> Max (f ` {y \<in> M. 0 < f y})" by (auto intro!: Max_ge)
    finally show ?thesis .
  qed
  have "Max (f ` {y \<in> M. 0 < f y}) \<in> f ` {y \<in> M. 0 < f y}" using assms by (intro Max_in) auto
  then show "Max (f ` {y \<in> M. 0 < f y}) \<in> f ` M" by auto
qed (use assms in simp)

lemma decision_init_wait: "0 < w \<Longrightarrow> decision_init WAIT w (if b then RETRY_AFTER else INSUFFICIENT) =
    Inr \<lparr>dec_action = WAIT, dec_wait_seconds = w, dec_reason = (if b then RETRY_AFTER else INSUFFICIENT)\<rparr>"
  by (simp add: decision_init_def)

lemma decision_init_others:
  "decision_init FAIL_CLOSED_ACTION 0 EXHAUSTED =
     Inr \<lparr>dec_action = FAIL_CLOSED_ACTION, dec_wait_seconds = 0, dec_reason = EXHAUSTED\<rparr>"
  "decision_init ALLOW 0 WITHIN_LIMIT =
     Inr \<lparr>dec_action = ALLOW, dec_wait_seconds = 0, dec_reason = WITHIN_LIMIT\<rparr>"
  "decision_init ALLOW 0 NO_SIGNALS =
     Inr \<lparr>dec_action = ALLOW, dec_wait_seconds = 0, dec_reason = NO_SIGNALS\<rparr>"
  by (simp_all add: decision_init_def)

lemma evaluate_eq_policy: "evaluate request = policy request"
proof -
  define now where "now = req_now request"
  define ms where "ms = filter (matches request) (req_signals request)"
  define ws where "ws = wait_candidates (map (classify request) ms)"
  have M: "{s \<in> set (req_signals request). matches request s} = set ms" by (simp add: ms_def)
  have ws: "set ws = (\<lambda>s. (effective_wait now s, retry_pending now s)) `
      {s \<in> set ms. 0 < effective_wait now s}"
    by (auto simp: ws_def set_wait_candidates now_def classify_wait_iff [symmetric] image_iff)
      (metis classify_wait_iff)+
  have empty: "ws = [] \<longleftrightarrow> \<not> (\<exists>s \<in> set ms. 0 < effective_wait now s)"
    using ws by (metis (mono_tags, lifting) empty_Collect_eq image_is_empty set_empty)
  have retry: "list_ex snd ws \<longleftrightarrow> (\<exists>s \<in> set ms. retry_pending now s)"
    by (auto simp: list_ex_iff ws dest: retry_pending_waits)
  have longest: "fold max (map fst ws) (fst (hd ws)) = Max (effective_wait now ` set ms)"
    if "\<exists>s \<in> set ms. 0 < effective_wait now s"
  proof -
    have "ws \<noteq> []" using that empty by blast
    then have "fold max (map fst ws) (fst (hd ws)) = Max (fst ` set ws)"
      by (cases ws) (simp_all add: Max.set_eq_fold [symmetric] del: Max.set_eq_fold)
    also have "fst ` set ws = effective_wait now ` {s \<in> set ms. 0 < effective_wait now s}"
      by (simp add: ws image_image)
    also have "Max \<dots> = Max (effective_wait now ` set ms)"
      using that by (auto intro: Max_positive_part)
    finally show ?thesis .
  qed
  have pos: "0 < Max (effective_wait now ` set ms)" if "\<exists>s \<in> set ms. 0 < effective_wait now s"
  proof -
    from that obtain s where "s \<in> set ms" "0 < effective_wait now s" by blast
    moreover from this(1) have "effective_wait now s \<le> Max (effective_wait now ` set ms)" by simp
    ultimately show ?thesis by linarith
  qed
  have fail: "FailCandidate \<in> set (map (classify request) ms) \<longleftrightarrow>
      (\<exists>s \<in> set ms. exhausted_for (req_units_requested request) s)"
    by (auto simp: classify_fail_iff image_iff eq_commute [of FailCandidate])
  have allow: "AllowCandidate \<in> set (map (classify request) ms) \<longleftrightarrow>
      (\<exists>s \<in> set ms. \<not> has_time_info s \<and> \<not> exhausted_for (req_units_requested request) s)"
    by (auto simp: classify_allow_iff image_iff eq_commute [of AllowCandidate])
  have nil: "ms = [] \<Longrightarrow> policy request = decision_init ALLOW 0 NO_SIGNALS"
    by (simp add: policy_def M Let_def decision_init_others)
  have eval: "evaluate request =
     (if ms = [] then decision_init ALLOW 0 NO_SIGNALS
      else if list_ex (\<lambda>sig. sig_observed_at sig > now) ms then
          Inl (RateLimitStateError ''signal observed_at is in the future'')
      else if ws \<noteq> [] then
          decision_init WAIT (fold max (map fst ws) (fst (hd ws)))
            (if list_ex snd ws then RETRY_AFTER else INSUFFICIENT)
      else if FailCandidate \<in> set (map (classify request) ms) then decision_init FAIL_CLOSED_ACTION 0 EXHAUSTED
      else if AllowCandidate \<in> set (map (classify request) ms) then decision_init ALLOW 0 WITHIN_LIMIT
      else decision_init ALLOW 0 NO_SIGNALS)"
    unfolding evaluate_def Let_def ms_def ws_def now_def ..
  have future: "list_ex (\<lambda>sig. sig_observed_at sig > now) ms \<longleftrightarrow> (\<exists>s \<in> set ms. now < sig_observed_at s)"
    by (simp add: list_ex_iff)
  show ?thesis
  proof (cases "ms = []")
    case True
    with nil show ?thesis by (simp add: eval)
  next
    case ne: False
    show ?thesis
    proof (cases "\<exists>s \<in> set ms. 0 < effective_wait now s")
      case True
      with ne show ?thesis
        unfolding eval policy_def Let_def M now_def [symmetric] future retry empty longest [OF True]
        by (simp add: decision_init_wait [OF pos [OF True]])
    next
      case False
      with ne show ?thesis
        unfolding eval policy_def Let_def M now_def [symmetric] future retry empty fail allow
        by (auto simp: decision_init_others exhausted_for_def)
    qed
  qed
qed

section \<open>Properties\<close>

lemma matches_update [simp]:
  "matches (request\<lparr>req_now := t\<rparr>) = matches request"
  "matches (request\<lparr>req_signals := sigs\<rparr>) = matches request"
  by (simp_all add: matches_def fun_eq_iff)

lemma policy_wait_iff:
  "(\<exists>d. policy request = Inr d \<and> dec_action d = WAIT \<and> dec_wait_seconds d = w) \<longleftrightarrow>
     (let M = {s \<in> set (req_signals request). matches request s}; now = req_now request
      in (\<forall>s \<in> M. sig_observed_at s \<le> now) \<and> (\<exists>s \<in> M. 0 < effective_wait now s)
         \<and> w = Max (effective_wait now ` M))"
  by (auto simp: policy_def Let_def not_less split: if_splits)

lemma policy_no_future:
  assumes "\<forall>s \<in> {s \<in> set (req_signals request). matches request s}. sig_observed_at s \<le> req_now request"
  shows "\<exists>d. policy request = Inr d"
  using assms by (auto simp: policy_def Let_def not_less)

lemma Max_shift:
  fixes f :: "'a \<Rightarrow> int"
  assumes "finite M" and "x \<in> M" and "0 < Max (f ` M) - t"
  shows "Max ((\<lambda>s. max 0 (f s - t)) ` M) = Max (f ` M) - t"
proof (rule Max_eqI)
  from assms have "Max (f ` M) \<in> f ` M" by (intro Max_in) auto
  then obtain m where "m \<in> M" "f m = Max (f ` M)" by auto
  with assms(3) show "Max (f ` M) - t \<in> (\<lambda>s. max 0 (f s - t)) ` M" by force
  show "y \<le> Max (f ` M) - t" if "y \<in> (\<lambda>s. max 0 (f s - t)) ` M" for y
    using that assms by auto
qed (use assms in simp)

lemma Max_pos:
  fixes f :: "'a \<Rightarrow> int"
  shows "finite M \<Longrightarrow> s \<in> M \<Longrightarrow> 0 < f s \<Longrightarrow> 0 < Max (f ` M)"
  by (meson Max_ge finite_imageI imageI less_le_trans)

lemma policy_accepted:
  assumes "policy request = Inr d"
  shows "decision_init (dec_action d) (dec_wait_seconds d) (dec_reason d) = Inr d"
proof -
  define M where "M = {s \<in> set (req_signals request). matches request s}"
  have fin: "finite M" by (simp add: M_def)
  show ?thesis
  proof (cases "\<exists>s \<in> M. 0 < effective_wait (req_now request) s")
    case True
    then have pos: "0 < Max (effective_wait (req_now request) ` M)"
      using Max_pos [OF fin] by blast
    show ?thesis
      using assms decision_init_wait [OF pos, of True] decision_init_wait [OF pos, of False] True
      unfolding policy_def Let_def M_def [symmetric]
      by (auto simp: decision_init_others split: if_splits)
  next
    case False
    with assms show ?thesis
      unfolding policy_def Let_def M_def [symmetric]
      by (auto simp: decision_init_others split: if_splits)
  qed
qed

text \<open>
  C31. The rate-limit decision is the abstract policy: it fails only on an observation from the
  future; otherwise it waits, for the longest remaining delay of the matching signals, when one
  of them still has a delay; failing that it fails closed when a matching signal without time
  information has no room for the requested units; and it allows in every other case, an
  expired signal counting for nothing.  The checking constructor of the decision accepts it.
\<close>

theorem rate_limit_outcome:
  "let M = {s \<in> set (req_signals request). matches request s}; now = req_now request
   in case evaluate request of
        Inl e \<Rightarrow> (\<exists>s \<in> M. now < sig_observed_at s)
          \<and> e = RateLimitStateError ''signal observed_at is in the future''
      | Inr d \<Rightarrow>
          decision_init (dec_action d) (dec_wait_seconds d) (dec_reason d) = Inr d
          \<and> \<not> (\<exists>s \<in> M. now < sig_observed_at s)
          \<and> (if \<exists>s \<in> M. 0 < effective_wait now s
             then dec_action d = WAIT \<and> dec_wait_seconds d = Max (effective_wait now ` M)
                  \<and> (dec_reason d = RETRY_AFTER \<longleftrightarrow> (\<exists>s \<in> M. retry_pending now s))
             else if \<exists>s \<in> M. exhausted_for (req_units_requested request) s
             then dec_action d = FAIL_CLOSED_ACTION
             else dec_action d = ALLOW
                  \<and> (dec_reason d = WITHIN_LIMIT \<longleftrightarrow> (\<exists>s \<in> M. \<not> has_time_info s)))"
proof (cases "policy request")
  case (Inl e)
  then show ?thesis unfolding evaluate_eq_policy Let_def
    by (auto simp: policy_def Let_def split: if_splits)
next
  case (Inr d)
  note policy_accepted [OF Inr]
  moreover from Inr have "\<not> (\<exists>s \<in> {s \<in> set (req_signals request). matches request s}.
      req_now request < sig_observed_at s)"
    by (auto simp: policy_def Let_def split: if_splits)
  ultimately show ?thesis using Inr unfolding evaluate_eq_policy Let_def
    by (simp add: policy_def Let_def split: if_splits) auto
qed

text \<open>
  The decision depends only on which signals there are: neither their order nor
  repetitions change it, so concurrent reporters need not agree on an order.
\<close>

theorem rate_limit_order_independent:
  assumes "set sigs = set (req_signals request)"
  shows "evaluate (request\<lparr>req_signals := sigs\<rparr>) = evaluate request"
proof -
  let ?request = "request\<lparr>req_signals := sigs\<rparr>"
  have "{s \<in> set (req_signals ?request). matches ?request s} =
      {s \<in> set (req_signals request). matches request s}"
    using assms by auto
  moreover have "req_now ?request = req_now request"
    and "req_units_requested ?request = req_units_requested request" by simp_all
  ultimately show ?thesis unfolding evaluate_eq_policy policy_def by (simp only:)
qed

text \<open>
  The advised wait is exact: after waiting the advised number of seconds the same signals
  no longer say wait, and after any smaller whole number of seconds they still do, for exactly
  the remaining time.
\<close>

theorem rate_limit_wait_exact:
  assumes "evaluate request = Inr d" and "dec_action d = WAIT"
  shows "(\<exists>d'. evaluate (request\<lparr>req_now := req_now request + dec_wait_seconds d * 1000000\<rparr>) = Inr d'
            \<and> dec_action d' \<noteq> WAIT)
    \<and> (\<forall>t. 0 \<le> t \<and> t < dec_wait_seconds d \<longrightarrow>
          (\<exists>d'. evaluate (request\<lparr>req_now := req_now request + t * 1000000\<rparr>) = Inr d'
            \<and> dec_action d' = WAIT \<and> dec_wait_seconds d' = dec_wait_seconds d - t))"
proof -
  define M where "M = {s \<in> set (req_signals request). matches request s}"
  define now where "now = req_now request"
  define w where "w = dec_wait_seconds d"
  have fin: "finite M" by (simp add: M_def)
  have *: "(\<forall>s \<in> M. sig_observed_at s \<le> now) \<and> (\<exists>s \<in> M. 0 < effective_wait now s)
         \<and> w = Max (effective_wait now ` M)"
    using policy_wait_iff [of request w] assms
    by (auto simp: evaluate_eq_policy M_def now_def w_def Let_def)
  have upper: "effective_wait now s \<le> w" if "s \<in> M" for s using * fin that by simp
  from * obtain s0 where s0: "s0 \<in> M" "0 < effective_wait now s0" by blast
  have w0: "0 < w" using s0 upper [of s0] by linarith
  have past: "sig_observed_at s \<le> now + t * 1000000" if "s \<in> M" "0 \<le> t" for s t
    using that * by (meson add_increasing2 mult_nonneg_nonneg order_trans zero_le_numeral)
  have "\<exists>d'. evaluate (request\<lparr>req_now := now + w * 1000000\<rparr>) = Inr d' \<and> dec_action d' \<noteq> WAIT"
  proof -
    have "effective_wait (now + w * 1000000) s = 0" if "s \<in> M" for s
      using upper [OF that] w0 by (simp add: effective_wait_shift)
    then show ?thesis
      unfolding evaluate_eq_policy policy_def
      using past [of _ w] w0 by (auto simp: Let_def M_def not_less)
  qed
  moreover have "\<exists>d'. evaluate (request\<lparr>req_now := now + t * 1000000\<rparr>) = Inr d'
            \<and> dec_action d' = WAIT \<and> dec_wait_seconds d' = w - t" if t: "0 \<le> t" "t < w" for t
  proof -
    have eff: "effective_wait (now + t * 1000000) ` M = (\<lambda>s. max 0 (effective_wait now s - t)) ` M"
      using t by (simp add: effective_wait_shift)
    have "Max (effective_wait (now + t * 1000000) ` M) = w - t"
      unfolding eff using * t fin s0 by (simp add: Max_shift)
    moreover from this have "w - t \<in> effective_wait (now + t * 1000000) ` M"
      using Max_in [of "effective_wait (now + t * 1000000) ` M"] fin s0(1) by auto
    then have "\<exists>s \<in> M. 0 < effective_wait (now + t * 1000000) s" using t(2) by force
    ultimately show ?thesis
      unfolding evaluate_eq_policy using policy_wait_iff [of "request\<lparr>req_now := now + t * 1000000\<rparr>" "w - t"]
        past [OF _ t(1)]
      by (simp add: Let_def M_def)
  qed
  ultimately show ?thesis by (auto simp: now_def w_def)
qed

text \<open>Witnesses: a signal observed one and a half seconds ago that asked to retry after five.\<close>

definition sample_signal :: RateLimitSignal where
  "sample_signal = \<lparr>sig_provider = ''claude'', sig_scope = REQUEST_SCOPE, sig_observed_at = 1000000,
     sig_retry_after_seconds = Some 5, sig_reset_at = None, sig_limit = Some 10,
     sig_remaining = Some 0, sig_source = PROVIDER_429\<rparr>"

definition sample_request :: RateLimitCheckRequest where
  "sample_request = \<lparr>req_provider = ''claude'', req_scope = REQUEST_SCOPE, req_now = 2500000,
     req_units_requested = 1, req_signals = [sample_signal]\<rparr>"

lemma rate_limit_order_independent_witness:
  "evaluate (sample_request\<lparr>req_signals := [sample_signal, sample_signal]\<rparr>) = evaluate sample_request
   \<and> evaluate sample_request =
       Inr \<lparr>dec_action = WAIT, dec_wait_seconds = 4, dec_reason = RETRY_AFTER\<rparr>"
proof
  show "evaluate (sample_request\<lparr>req_signals := [sample_signal, sample_signal]\<rparr>) = evaluate sample_request"
    by (rule rate_limit_order_independent) (simp add: sample_request_def)
qed code_simp

lemma rate_limit_wait_exact_witness:
  "\<exists>d'. evaluate (sample_request\<lparr>req_now := 6500000\<rparr>) = Inr d' \<and> dec_action d' \<noteq> WAIT"
proof -
  have "evaluate sample_request =
       Inr \<lparr>dec_action = WAIT, dec_wait_seconds = 4, dec_reason = RETRY_AFTER\<rparr>"
    by code_simp
  from rate_limit_wait_exact [OF this] show ?thesis by (simp add: sample_request_def)
qed

end
