(* ===== verification/Json.thy ===== *)
theory Json
  imports Prelude
begin

text \<open>
  The part of Python's \<open>json\<close> module the stores use: \<open>json.dumps\<close> with
  \<open>ensure_ascii=False\<close> and compact separators, with or without \<open>sort_keys\<close>, and
  \<open>json.loads\<close>.  An object is its list of members in document order, as an
  \<open>object_pairs_hook\<close> sees it.  Characters are code points below 256; a \<open>\\u\<close> escape
  beyond them is outside the model and makes \<open>loads\<close> fail.  A number with a fraction or an
  exponent is kept as its text.
\<close>

datatype json =
    JNull
  | JBool bool
  | JInt int
  | JFloat string
  | JStr string
  | JArr "json list"
  | JObj "(string \<times> json) list"

section \<open>Writing\<close>

definition hex_digit :: "nat \<Rightarrow> char" where
  "hex_digit n = (if n < 10 then char_of (48 + n) else char_of (87 + n))"

definition json_escape :: "char \<Rightarrow> string" where
  "json_escape c = (
     if c = CHR 0x22 \<or> c = CHR 0x5C then [CHR 0x5C, c]
     else if c = CHR 0x0A then [CHR 0x5C, CHR ''n'']
     else if c = CHR 0x0D then [CHR 0x5C, CHR ''r'']
     else if c = CHR 0x09 then [CHR 0x5C, CHR ''t'']
     else if c = CHR 0x0C then [CHR 0x5C, CHR ''f'']
     else if c = CHR 0x08 then [CHR 0x5C, CHR ''b'']
     else if (of_char c :: nat) < 32 then
       [CHR 0x5C, CHR ''u'', CHR ''0'', CHR ''0'', hex_digit (of_char c div 16), hex_digit (of_char c mod 16)]
     else [c])"

definition json_quote :: "string \<Rightarrow> string" where
  "json_quote s = [CHR 0x22] @ concat (map json_escape s) @ [CHR 0x22]"

fun joined :: "string list \<Rightarrow> string" where
  "joined [] = []"
| "joined [s] = s"
| "joined (s # ss) = s @ [CHR '',''] @ joined ss"

function dumps :: "json \<Rightarrow> string" where
  "dumps JNull = ''null''"
| "dumps (JBool b) = (if b then ''true'' else ''false'')"
| "dumps (JInt i) = show_int i"
| "dumps (JFloat s) = s"
| "dumps (JStr s) = json_quote s"
| "dumps (JArr xs) = [CHR ''[''] @ joined (map dumps xs) @ [CHR '']'']"
| "dumps (JObj ps) = [CHR 0x7B] @
     joined (map (\<lambda>p. json_quote (fst p) @ [CHR '':''] @ dumps (snd p)) ps) @ [CHR 0x7D]"
  by pat_completeness auto

lemma member_size: "p \<in> set ps \<Longrightarrow> size (snd p) < Suc (size_list (size_prod (\<lambda>x. 0) size) ps)"
  by (induction ps) (auto simp: less_Suc_eq_le intro: trans_le_add1 trans_le_add2)

termination dumps
  by (relation "measure size") (auto simp: member_size size_list_estimation' less_Suc_eq_le)

text \<open>\<open>sort_keys=True\<close>; the keys of a Python dict are distinct.\<close>

function sort_keys :: "json \<Rightarrow> json" where
  "sort_keys (JArr xs) = JArr (map sort_keys xs)"
| "sort_keys (JObj ps) = JObj (sort_key fst (map (\<lambda>p. (fst p, sort_keys (snd p))) ps))"
| "sort_keys JNull = JNull"
| "sort_keys (JBool b) = JBool b"
| "sort_keys (JInt i) = JInt i"
| "sort_keys (JFloat s) = JFloat s"
| "sort_keys (JStr s) = JStr s"
  by pat_completeness auto

termination sort_keys
  by (relation "measure size") (auto simp: member_size size_list_estimation' less_Suc_eq_le)

section \<open>Reading\<close>

definition json_space :: "char \<Rightarrow> bool" where
  "json_space c \<longleftrightarrow> c \<in> {CHR '' '', CHR 0x09, CHR 0x0A, CHR 0x0D}"

definition skip :: "string \<Rightarrow> string" where
  "skip s = dropWhile json_space s"

definition hex_value :: "char \<Rightarrow> nat option" where
  "hex_value c = (let n = (of_char c :: nat) in
     if 48 \<le> n \<and> n \<le> 57 then Some (n - 48)
     else if 97 \<le> n \<and> n \<le> 102 then Some (n - 87)
     else if 65 \<le> n \<and> n \<le> 70 then Some (n - 55)
     else None)"

definition unicode_escape :: "char \<Rightarrow> char \<Rightarrow> char \<Rightarrow> char \<Rightarrow> char option" where
  "unicode_escape a b c d = (case (hex_value a, hex_value b, hex_value c, hex_value d) of
      (Some 0, Some 0, Some h, Some l) \<Rightarrow> Some (char_of (16 * h + l))
    | _ \<Rightarrow> None)"

definition simple_escape :: "char \<Rightarrow> char option" where
  "simple_escape c = (
     if c \<in> {CHR 0x22, CHR 0x5C, CHR ''/''} then Some c
     else if c = CHR ''n'' then Some CHR 0x0A
     else if c = CHR ''r'' then Some CHR 0x0D
     else if c = CHR ''t'' then Some CHR 0x09
     else if c = CHR ''f'' then Some CHR 0x0C
     else if c = CHR ''b'' then Some CHR 0x08
     else None)"

definition cons_fst :: "'a \<Rightarrow> ('a list \<times> 'b) option \<Rightarrow> ('a list \<times> 'b) option" where
  "cons_fst x r = map_option (\<lambda>(xs, y). (x # xs, y)) r"

text \<open>The rest of a string literal, after its opening quote.\<close>

fun json_string :: "string \<Rightarrow> (string \<times> string) option" where
  "json_string [] = None"
| "json_string (c # cs) = (
     if c = CHR 0x22 then Some ([], cs)
     else if c = CHR 0x5C then
       (case cs of
          [] \<Rightarrow> None
        | e # ds \<Rightarrow>
           if e = CHR ''u'' then
             (case ds of
                h1 # h2 # h3 # h4 # es \<Rightarrow>
                  (case unicode_escape h1 h2 h3 h4 of None \<Rightarrow> None | Some x \<Rightarrow> cons_fst x (json_string es))
              | _ \<Rightarrow> None)
           else (case simple_escape e of None \<Rightarrow> None | Some x \<Rightarrow> cons_fst x (json_string ds)))
     else if (of_char c :: nat) < 32 then None
     else cons_fst c (json_string cs))"

text \<open>
  A number: sign, integer part without leading zeros, then perhaps a fraction and an exponent.
\<close>

definition json_fraction :: "string \<Rightarrow> string" where
  "json_fraction s = (case s of
      c # cs \<Rightarrow> if c = CHR ''.'' \<and> takeWhile is_digit cs \<noteq> [] then c # takeWhile is_digit cs else []
    | [] \<Rightarrow> [])"

definition json_exponent :: "string \<Rightarrow> string" where
  "json_exponent s = (case s of
      c # cs \<Rightarrow>
        let sign = takeWhile (\<lambda>x. x \<in> set ''+-'') (take 1 cs); ds = takeWhile is_digit (drop (length sign) cs)
        in if c \<in> set ''eE'' \<and> ds \<noteq> [] then c # sign @ ds else []
    | [] \<Rightarrow> [])"

definition json_number :: "string \<Rightarrow> (json \<times> string) option" where
  "json_number s =
    (let sign = takeWhile (\<lambda>c. c = CHR ''-'') (take 1 s);
         body = drop (length sign) s;
         digits = takeWhile is_digit body;
         int_part = (if take 1 digits = ''0'' then ''0'' else digits);
         after = drop (length int_part) body;
         frac = json_fraction after;
         exponent = json_exponent (drop (length frac) after);
         rest = drop (length frac + length exponent) after
     in if digits = [] then None
        else if frac = [] \<and> exponent = [] then
          Some (JInt (if sign = [] then int (read_digits int_part) else - int (read_digits int_part)), rest)
        else Some (JFloat (sign @ int_part @ frac @ exponent), rest))"

definition json_literals :: "(string \<times> json) list" where
  "json_literals = [(''null'', JNull), (''true'', JBool True), (''false'', JBool False),
     (''NaN'', JFloat ''NaN''), (''Infinity'', JFloat ''Infinity''), (''-Infinity'', JFloat ''-Infinity'')]"

definition json_atom :: "string \<Rightarrow> (json \<times> string) option" where
  "json_atom s = (case find (\<lambda>(w, v). starts_with w s) json_literals of
      Some (w, v) \<Rightarrow> Some (v, drop (length w) s)
    | None \<Rightarrow> json_number s)"

text \<open>
  \<open>json_value\<close> reads one value, \<open>json_items\<close> the elements of an array and
  \<open>json_members\<close> those of an object up to the closing bracket.  Two units of fuel per
  character are enough.
\<close>

fun json_value :: "nat \<Rightarrow> string \<Rightarrow> (json \<times> string) option"
and json_items :: "nat \<Rightarrow> string \<Rightarrow> (json list \<times> string) option"
and json_members :: "nat \<Rightarrow> string \<Rightarrow> ((string \<times> json) list \<times> string) option"
where
  "json_value 0 s = None"
| "json_value (Suc n) s = (case s of
     [] \<Rightarrow> None
   | c # cs \<Rightarrow>
      if c = CHR 0x22 then map_option (\<lambda>(t, r). (JStr t, r)) (json_string cs)
      else if c = CHR 0x7B then
        (if take 1 (skip cs) = [CHR 0x7D] then Some (JObj [], drop 1 (skip cs))
         else map_option (\<lambda>(ps, r). (JObj ps, r)) (json_members n (skip cs)))
      else if c = CHR ''['' then
        (if take 1 (skip cs) = [CHR '']''] then Some (JArr [], drop 1 (skip cs))
         else map_option (\<lambda>(xs, r). (JArr xs, r)) (json_items n (skip cs)))
      else json_atom s)"
| "json_items 0 s = None"
| "json_items (Suc n) s = (case json_value n s of
     None \<Rightarrow> None
   | Some (v, r) \<Rightarrow>
      (case skip r of
         [] \<Rightarrow> None
       | c # t \<Rightarrow> if c = CHR '']'' then Some ([v], t)
                 else if c = CHR '','' then cons_fst v (json_items n (skip t))
                 else None))"
| "json_members 0 s = None"
| "json_members (Suc n) s = (case s of
     [] \<Rightarrow> None
   | q # cs \<Rightarrow> if q \<noteq> CHR 0x22 then None else
      (case json_string cs of
         None \<Rightarrow> None
       | Some (k, r) \<Rightarrow>
          (case skip r of
             [] \<Rightarrow> None
           | c # t \<Rightarrow> if c \<noteq> CHR '':'' then None else
              (case json_value n (skip t) of
                 None \<Rightarrow> None
               | Some (v, u) \<Rightarrow>
                  (case skip u of
                     [] \<Rightarrow> None
                   | e # w \<Rightarrow> if e = CHR 0x7D then Some ([(k, v)], w)
                             else if e = CHR '','' then cons_fst (k, v) (json_members n (skip w))
                             else None)))))"

definition loads :: "string \<Rightarrow> json option" where
  "loads s = (case json_value (2 * length s + 2) (skip s) of
      Some (v, r) \<Rightarrow> if skip r = [] then Some v else None
    | None \<Rightarrow> None)"

section \<open>Reading what was written\<close>

fun json_ok :: "json \<Rightarrow> bool" where
  "json_ok (JFloat s) = False"
| "json_ok (JArr xs) = list_all json_ok xs"
| "json_ok (JObj ps) = list_all (\<lambda>(k, v). json_ok v) ps"
| "json_ok _ = True"

lemma hex_value_digit [simp]: "n < 16 \<Longrightarrow> hex_value (hex_digit n) = Some n"
  by (simp add: hex_value_def hex_digit_def)

lemma unicode_escape_code:
  assumes "n < 256"
  shows "unicode_escape CHR ''0'' CHR ''0'' (hex_digit (n div 16)) (hex_digit (n mod 16)) = Some (char_of n)"
proof -
  have "hex_value CHR ''0'' = Some 0" by (simp add: hex_value_def)
  moreover have "n div 16 < 16" using assms by linarith
  ultimately show ?thesis by (simp add: unicode_escape_def)
qed

lemma json_string_escape: "json_string (json_escape c @ rest) = cons_fst c (json_string rest)"
proof -
  have "unicode_escape CHR ''0'' CHR ''0'' (hex_digit (of_char c div 16)) (hex_digit (of_char c mod 16)) = Some c"
    if "(of_char c :: nat) < 32" using that unicode_escape_code [of "of_char c"] by simp
  note code = this
  consider "c \<in> {CHR 0x22, CHR 0x5C, CHR 0x0A, CHR 0x0D, CHR 0x09, CHR 0x0C, CHR 0x08}"
    | "c \<notin> {CHR 0x22, CHR 0x5C, CHR 0x0A, CHR 0x0D, CHR 0x09, CHR 0x0C, CHR 0x08}" "(of_char c :: nat) < 32"
    | "c \<notin> {CHR 0x22, CHR 0x5C, CHR 0x0A, CHR 0x0D, CHR 0x09, CHR 0x0C, CHR 0x08}" "\<not> (of_char c :: nat) < 32"
    by blast
  then show ?thesis
  proof cases
    case 1
    then show ?thesis by (auto simp: json_escape_def simple_escape_def)
  next
    case 2
    from 2(1) have "json_escape c = [CHR 0x5C, CHR ''u'', CHR ''0'', CHR ''0'',
        hex_digit (of_char c div 16), hex_digit (of_char c mod 16)]" using 2(2) by (simp add: json_escape_def)
    then show ?thesis by (simp add: code [OF 2(2)])
  next
    case 3
    then have "json_escape c = [c]" by (simp add: json_escape_def)
    with 3 show ?thesis by simp
  qed
qed

lemma cons_fst_Some [simp]: "cons_fst x (Some (xs, y)) = Some (x # xs, y)"
  by (simp add: cons_fst_def)

lemma cons_fst_Some_iff: "cons_fst x r = Some z \<longleftrightarrow> (\<exists>xs. r = Some (xs, snd z) \<and> fst z = x # xs)"
  by (cases z) (auto simp: cons_fst_def)

lemma json_string_quote [simp]: "json_string (concat (map json_escape s) @ CHR 0x22 # rest) = Some (s, rest)"
  by (induction s) (simp_all add: json_string_escape)

text \<open>What may follow a number.\<close>

definition ends_number :: "string \<Rightarrow> bool" where
  "ends_number s \<longleftrightarrow> (case s of [] \<Rightarrow> True | c # cs \<Rightarrow> \<not> is_digit c \<and> c \<notin> set ''.eE'')"

lemma takeWhile_digits: "list_all is_digit ds \<Longrightarrow> ends_number rest \<Longrightarrow> takeWhile is_digit (ds @ rest) = ds"
  by (induction ds) (auto simp: ends_number_def split: list.splits)

lemma json_number_decimal:
  assumes "decimal ds" and "ends_number rest"
  shows "json_number (ds @ rest) = Some (JInt (int (read_digits ds)), rest)"
    "json_number (CHR ''-'' # ds @ rest) = Some (JInt (- int (read_digits ds)), rest)"
proof -
  from assms(1) obtain c cs where ds: "ds = c # cs" "list_all is_digit ds" "is_digit c"
    by (auto simp: decimal_def is_digit_def split: list.split_asm)
  have c: "c \<noteq> CHR ''-''" using ds(3) by (auto simp: is_digit_def)
  have int_part: "take 1 ds = ''0'' \<longleftrightarrow> ds = ''0''" using assms(1) ds(1) by (auto simp: decimal_def)
  have tail: "json_fraction rest = []" "json_exponent rest = []"
    using assms(2) by (auto simp: json_fraction_def json_exponent_def ends_number_def Let_def split: list.split)
  have nonempty: "ds \<noteq> []" by (simp add: ds(1))
  have zero: "is_digit CHR ''0''" by (simp add: is_digit_def)
  note simps = json_number_def Let_def takeWhile_digits [OF ds(2) assms(2)] tail int_part
  have sign: "takeWhile (\<lambda>c. c = CHR ''-'') (take 1 (ds @ rest)) = []" using c by (simp add: ds(1))
  show "json_number (ds @ rest) = Some (JInt (int (read_digits ds)), rest)"
    unfolding simps sign using nonempty zero
    by (cases "ds = ''0''") (simp_all add: takeWhile_digits [OF ds(2) assms(2)] tail int_part [unfolded One_nat_def] del: take_append)
  show "json_number (CHR ''-'' # ds @ rest) = Some (JInt (- int (read_digits ds)), rest)"
    unfolding simps using nonempty zero
    by (cases "ds = ''0''") (simp_all add: takeWhile_digits [OF ds(2) assms(2)] tail int_part [unfolded One_nat_def] del: take_append)
qed

lemma json_number_int:
  assumes "ends_number rest"
  shows "json_number (show_int i @ rest) = Some (JInt i, rest)"
  using json_number_decimal [OF show_nat_decimal assms]
  by (cases "i < 0") (simp_all add: show_int_def)

text \<open>What a value can start with: never white space, a comma or a closing bracket.\<close>

definition starts_value :: "char \<Rightarrow> bool" where
  "starts_value c \<longleftrightarrow> is_digit c \<or> c \<in> {CHR ''-'', CHR 0x22, CHR 0x7B, CHR ''['', CHR ''n'', CHR ''t'', CHR ''f''}"

lemma starts_value_simps:
  "starts_value c \<Longrightarrow> \<not> json_space c" "\<not> starts_value CHR '']''" "\<not> starts_value CHR 0x7D" "\<not> starts_value CHR '',''"
  by (auto simp: starts_value_def json_space_def is_digit_def)

lemma dumps_start: "json_ok j \<Longrightarrow> \<exists>c s. dumps j = c # s \<and> starts_value c"
proof (cases j)
  case (JInt i)
  obtain c cs where "show_nat (nat i) = c # cs" using show_nat_nonempty [of "nat i"] by (cases "show_nat (nat i)") auto
  with show_nat_digits [of "nat i"] show ?thesis
    by (cases "i < 0") (auto simp: JInt show_int_def starts_value_def)
qed (auto simp: starts_value_def json_quote_def)

lemma skip_start [simp]: "starts_value c \<Longrightarrow> skip (c # s) = c # s"
  by (simp add: skip_def starts_value_simps)

lemma skip_punct [simp]: "skip (CHR '','' # s) = CHR '','' # s" "skip (CHR '']'' # s) = CHR '']'' # s"
  "skip (CHR 0x7D # s) = CHR 0x7D # s" "skip (CHR '':'' # s) = CHR '':'' # s" "skip (CHR 0x22 # s) = CHR 0x22 # s"
  by (simp_all add: skip_def json_space_def)

lemma skip_dumps: "json_ok j \<Longrightarrow> skip (dumps j @ rest) = dumps j @ rest"
  using dumps_start [of j] by auto

lemma ends_number_punct [simp]: "ends_number []" "ends_number (CHR '','' # s)" "ends_number (CHR '']'' # s)" "ends_number (CHR 0x7D # s)"
  by (simp_all add: ends_number_def is_digit_def)

lemma json_atom_digit:
  assumes "is_digit c \<or> c = CHR ''-'' \<and> take 1 s \<noteq> ''I''"
  shows "json_atom (c # s) = json_number (c # s)"
proof -
  have "\<not> is_digit CHR ''n''" "\<not> is_digit CHR ''t''" "\<not> is_digit CHR ''f''" "\<not> is_digit CHR ''N''"
    "\<not> is_digit CHR ''I''" "\<not> is_digit CHR ''-''" by (simp_all add: is_digit_def)
  then have head: "c \<noteq> CHR ''n''" "c \<noteq> CHR ''t''" "c \<noteq> CHR ''f''" "c \<noteq> CHR ''N''" "c \<noteq> CHR ''I''"
    "c \<noteq> CHR ''-'' \<or> take 1 s \<noteq> ''I''" using assms by (cases "is_digit c"; force)+
  have "\<not> starts_with ''-Infinity'' (c # s)" using head(6) by (cases s) auto
  with head(1-5) have "find (\<lambda>(w, v). starts_with w (c # s)) json_literals = None"
    by (simp add: json_literals_def)
  then show ?thesis by (simp add: json_atom_def)
qed

lemma json_atom_int: "ends_number rest \<Longrightarrow> json_atom (show_int i @ rest) = Some (JInt i, rest)"
proof -
  assume rest: "ends_number rest"
  obtain c cs where c: "show_nat (nat \<bar>i\<bar>) = c # cs" using show_nat_nonempty [of "nat \<bar>i\<bar>"]
    by (cases "show_nat (nat \<bar>i\<bar>)") auto
  with show_nat_digits [of "nat \<bar>i\<bar>"] have "is_digit c" by simp
  then have "c \<noteq> CHR ''I''" by (auto simp: is_digit_def)
  with c \<open>is_digit c\<close> have "json_atom (show_int i @ rest) = json_number (show_int i @ rest)"
    by (cases "i < 0") (simp_all add: show_int_def json_atom_digit)
  then show ?thesis using json_number_int [OF rest] by simp
qed

lemma json_value_int: "0 < n \<Longrightarrow> ends_number rest \<Longrightarrow> json_value n (show_int i @ rest) = Some (JInt i, rest)"
proof -
  assume n: "0 < n" and rest: "ends_number rest"
  from n obtain m where m: "n = Suc m" by (cases n) auto
  from dumps_start [of "JInt i"] obtain c s where c: "show_int i = c # s" by auto
  have "c \<noteq> CHR 0x22 \<and> c \<noteq> CHR 0x7B \<and> c \<noteq> CHR ''[''"
  proof (cases "i < 0")
    case True
    with c show ?thesis by (auto simp: show_int_def)
  next
    case False
    with c show_nat_digits [of "nat i"] have "is_digit c" by (simp add: show_int_def)
    then show ?thesis by (auto simp: is_digit_def)
  qed
  then show ?thesis using json_atom_int [OF rest, of i] by (simp add: m c)
qed

lemma json_value_word: "0 < n \<Longrightarrow> json_value n (CHR ''n'' # ''ull'' @ rest) = Some (JNull, rest)"
  "0 < n \<Longrightarrow> json_value n (CHR ''t'' # ''rue'' @ rest) = Some (JBool True, rest)"
  "0 < n \<Longrightarrow> json_value n (CHR ''f'' # ''alse'' @ rest) = Some (JBool False, rest)"
  by (cases n; simp add: json_atom_def json_literals_def)+

text \<open>A sequence of values, of elements or of members, up to its closing bracket.\<close>

definition reads_value :: "json \<Rightarrow> bool" where
  "reads_value j \<longleftrightarrow> (\<forall>n rest. 2 * length (dumps j) \<le> n \<longrightarrow> ends_number rest \<longrightarrow> json_value n (dumps j @ rest) = Some (j, rest))"

lemma joined_Cons: "ss \<noteq> [] \<Longrightarrow> joined (s # ss) = s @ [CHR '',''] @ joined ss"
  by (cases ss) simp_all

lemma reads_items:
  assumes "\<forall>x \<in> set xs. json_ok x \<and> reads_value x" and "xs \<noteq> []"
    and "2 * length (joined (map dumps xs)) + 1 \<le> n"
  shows "json_items n (joined (map dumps xs) @ CHR '']'' # rest) = Some (xs, rest)"
  using assms
proof (induction xs arbitrary: n)
  case (Cons x xs)
  from Cons.prems(3) obtain m where n: "n = Suc m" by (cases n) auto
  show ?case
  proof (cases "xs = []")
    case True
    with Cons.prems n show ?thesis by (simp add: reads_value_def)
  next
    case False
    note join = joined_Cons [of "map dumps xs", OF False [folded map_is_Nil_conv [of dumps]]]
    obtain y ys where xs: "xs = y # ys" using False by (cases xs) auto
    have tail: "skip (joined (map dumps xs) @ CHR '']'' # rest) = joined (map dumps xs) @ CHR '']'' # rest"
      using dumps_start [of y] Cons.prems(1) by (cases ys) (auto simp: xs)
    have "json_items m (joined (map dumps xs) @ CHR '']'' # rest) = Some (xs, rest)"
      using Cons.IH [of m] Cons.prems False by (simp add: n join)
    moreover have "json_value m (dumps x @ CHR '','' # joined (map dumps xs) @ CHR '']'' # rest)
        = Some (x, CHR '','' # joined (map dumps xs) @ CHR '']'' # rest)"
      using Cons.prems by (simp add: reads_value_def n join)
    ultimately show ?thesis by (simp add: n join tail)
  qed
qed simp

definition member_text :: "string \<times> json \<Rightarrow> string" where
  "member_text p = json_quote (fst p) @ [CHR '':''] @ dumps (snd p)"

lemma dumps_JObj: "dumps (JObj ps) = [CHR 0x7B] @ joined (map member_text ps) @ [CHR 0x7D]"
  unfolding dumps.simps member_text_def ..

lemma reads_members:
  assumes "\<forall>p \<in> set ps. json_ok (snd p) \<and> reads_value (snd p)" and "ps \<noteq> []"
    and "2 * length (joined (map member_text ps)) + 1 \<le> n"
  shows "json_members n (joined (map member_text ps) @ CHR 0x7D # rest) = Some (ps, rest)"
  using assms
proof (induction ps arbitrary: n)
  case (Cons p ps)
  obtain k v where p: "p = (k, v)" by (cases p)
  from Cons.prems(3) obtain m where n: "n = Suc m" by (cases n) auto
  have v: "json_value m (dumps v @ r) = Some (v, r)" if "ends_number r" for r
    using Cons.prems that by (cases ps) (auto simp: p n reads_value_def json_quote_def member_text_def)
  have sk: "skip (dumps v @ r) = dumps v @ r" for r using Cons.prems(1) by (simp add: p skip_dumps)
  show ?case
  proof (cases "ps = []")
    case True
    with v sk show ?thesis by (simp add: p n json_quote_def member_text_def)
  next
    case False
    note join = joined_Cons [of "map member_text ps", OF False [folded map_is_Nil_conv [of member_text]]]
    have tail: "skip (joined (map member_text ps) @ CHR 0x7D # rest) = joined (map member_text ps) @ CHR 0x7D # rest"
      using False by (cases ps; cases "tl ps") (auto simp: json_quote_def member_text_def)
    have "json_members m (joined (map member_text ps) @ CHR 0x7D # rest) = Some (ps, rest)"
      using Cons.IH [of m] Cons.prems False by (simp add: n join)
    moreover have "member_text (k, v) = CHR 0x22 # concat (map json_escape k) @ CHR 0x22 # CHR '':'' # dumps v"
      by (simp add: member_text_def json_quote_def)
    ultimately show ?thesis using v [of "CHR '','' # joined (map member_text ps) @ CHR 0x7D # rest"] sk
      by (simp add: n p join tail)
  qed
qed simp

lemma reads_string: "2 * length (json_quote t) \<le> n \<Longrightarrow> json_value n (json_quote t @ rest) = Some (JStr t, rest)"
  by (cases n) (simp_all add: json_quote_def)

lemma show_int_positive: "2 * length (show_int i) \<le> n \<Longrightarrow> 0 < n"
  using dumps_start [of "JInt i"] by auto

lemma reads_dumps: "json_ok j \<Longrightarrow> reads_value j"
proof (induction j rule: json_ok.induct)
  case (2 xs)
  then have xs: "\<forall>x \<in> set xs. json_ok x \<and> reads_value x" by (simp add: list_all_iff)
  show ?case
    unfolding reads_value_def
  proof (intro allI impI)
    fix n rest assume n: "2 * length (dumps (JArr xs)) \<le> n" and "ends_number rest"
    then obtain m where m: "n = Suc m" by (cases n) auto
    show "json_value n (dumps (JArr xs) @ rest) = Some (JArr xs, rest)"
    proof (cases xs)
      case Nil
      then show ?thesis by (simp add: m)
    next
      case (Cons y ys)
      from xs obtain c s where c: "dumps y = c # s" "starts_value c" using dumps_start [of y] by (auto simp: Cons)
      obtain t where t: "joined (map dumps xs) = c # t" using c by (cases ys) (auto simp: Cons)
      have "c \<noteq> CHR '']''" using c(2) starts_value_simps(2) by auto
      with reads_items [OF xs, of m rest] n show ?thesis by (simp add: m t c(2)) (simp add: Cons)
    qed
  qed
next
  case (3 ps)
  then have ps: "\<forall>p \<in> set ps. json_ok (snd p) \<and> reads_value (snd p)" by (auto simp: list_all_iff)
  show ?case
    unfolding reads_value_def
  proof (intro allI impI)
    fix n rest assume n: "2 * length (dumps (JObj ps)) \<le> n" and "ends_number rest"
    then obtain m where m: "n = Suc m" by (cases n) auto
    show "json_value n (dumps (JObj ps) @ rest) = Some (JObj ps, rest)"
    proof (cases ps)
      case Nil
      then show ?thesis by (simp add: m)
    next
      case (Cons y ys)
      obtain t where t: "joined (map member_text ps) = CHR 0x22 # t" by (cases ys) (auto simp: Cons json_quote_def member_text_def)
      with reads_members [OF ps, of m rest] n show ?thesis by (simp add: m dumps_JObj del: dumps.simps(7)) (simp add: Cons)
    qed
  qed
qed (auto simp: reads_value_def json_value_int json_value_word [simplified] reads_string show_int_positive)

lemma json_space_not_number: "list_all json_space ws \<Longrightarrow> ends_number ws"
  by (cases ws) (auto simp: ends_number_def json_space_def is_digit_def)

lemma skip_spaces: "list_all json_space ws \<Longrightarrow> skip ws = []"
  by (induction ws) (auto simp: skip_def)

theorem loads_dumps:
  assumes "json_ok j" and "list_all json_space ws"
  shows "loads (dumps j @ ws) = Some j"
proof -
  have "json_value (2 * length (dumps j @ ws) + 2) (dumps j @ ws) = Some (j, ws)"
    using reads_dumps [OF assms(1)] json_space_not_number [OF assms(2)]
    by (simp add: reads_value_def del: json_value.simps)
  then show ?thesis using skip_dumps [OF assms(1), of ws] skip_spaces [OF assms(2)] by (simp add: loads_def)
qed

corollary dumps_inject: "json_ok j \<Longrightarrow> json_ok k \<Longrightarrow> dumps j = dumps k \<longleftrightarrow> j = k"
  using loads_dumps [of j "[]", unfolded append_Nil2] loads_dumps [of k "[]", unfolded append_Nil2]
  by (metis list.pred_inject(1) option.inject)

section \<open>Enough fuel\<close>

lemma json_string_shorter: "json_string s = Some (t, r) \<Longrightarrow> length r < length s"
proof (induction s arbitrary: t rule: length_induct)
  case (1 s)
  have IH: "length r < length u" if "cons_fst x (json_string u) = Some (t, r)" "length u < length s" for x u
  proof -
    from that(1) obtain xs where "json_string u = Some (xs, r)"
      unfolding cons_fst_Some_iff by auto
    with 1(1) that(2) show ?thesis by blast
  qed
  show ?case
  proof (cases s)
    case (Cons c cs)
    consider "c = CHR 0x22" | "c = CHR 0x5C" | "c \<noteq> CHR 0x22" "c \<noteq> CHR 0x5C" by blast
    then show ?thesis
    proof cases
      case 2
      with 1(2) obtain e ds where cs: "cs = e # ds" by (auto simp: Cons split: list.split_asm)
      show ?thesis
      proof (cases "e = CHR ''u''")
        case True
        with 1(2) 2 obtain h1 h2 h3 h4 es x where "ds = h1 # h2 # h3 # h4 # es" "cons_fst x (json_string es) = Some (t, r)"
          by (auto simp: Cons cs split: list.split_asm option.split_asm)
        with IH [of x es] show ?thesis by (simp add: Cons cs)
      next
        case False
        with 1(2) 2 obtain x where "cons_fst x (json_string ds) = Some (t, r)"
          by (auto simp: Cons cs split: option.split_asm)
        with IH [of x ds] show ?thesis by (simp add: Cons cs)
      qed
    next
      case 3
      with 1(2) have "cons_fst c (json_string cs) = Some (t, r)" by (auto simp: Cons split: if_split_asm)
      with IH [of c cs] show ?thesis by (simp add: Cons)
    qed (use 1(2) Cons in simp)
  qed (use 1(2) in simp)
qed

lemma skip_shorter: "length (skip s) \<le> length s"
  by (simp add: skip_def length_dropWhile_le)

lemma json_atom_shorter: "json_atom s = Some (v, r) \<Longrightarrow> length r < length s"
proof -
  assume "json_atom s = Some (v, r)"
  then consider (word) w where "starts_with w s" "0 < length w" "r = drop (length w) s" | (number) "json_number s = Some (v, r)"
    by (auto simp: json_atom_def json_literals_def split: option.split_asm if_split_asm)
  then show ?thesis
  proof cases
    case word
    then show ?thesis using starts_with_length [of w s] by (cases s) auto
  next
    case number
    define sign where "sign = takeWhile (\<lambda>c. c = CHR ''-'') (take 1 s)"
    define body where "body = drop (length sign) s"
    define digits where "digits = takeWhile is_digit body"
    define ip where "ip = (if take 1 digits = ''0'' then ''0'' else digits)"
    define after where "after = drop (length ip) body"
    note defs = sign_def body_def digits_def ip_def after_def
    note num = number [unfolded json_number_def Let_def, folded sign_def, folded body_def, folded digits_def,
        folded ip_def, folded after_def]
    have ne: "digits \<noteq> []" using num by (auto split: if_split_asm)
    then have "body \<noteq> []" by (auto simp: digits_def)
    moreover have "0 < length ip" using ne by (simp add: ip_def)
    moreover have "length r \<le> length after" using num by (auto split: if_split_asm)
    ultimately have "length r < length body" unfolding after_def length_drop length_greater_0_conv
      by (metis (no_types) diff_less le_less_trans length_greater_0_conv)
    then show ?thesis by (simp add: body_def)
  qed
qed

lemma json_items_Suc:
  assumes "json_items (Suc n) s = Some (vs, r)"
  obtains v u c t where "json_value n s = Some (v, u)" "skip u = c # t"
    "r = t \<or> (\<exists>ws. json_items n (skip t) = Some (ws, r))"
  using assms by (auto simp: cons_fst_Some_iff split: option.split_asm list.split_asm if_split_asm)

lemma json_members_Suc:
  assumes "json_members (Suc n) s = Some (ps, r)"
  obtains cs k u c t v w e x where "s = CHR 0x22 # cs" "json_string cs = Some (k, u)" "skip u = c # t"
    "json_value n (skip t) = Some (v, w)" "skip w = e # x" "r = x \<or> (\<exists>qs. json_members n (skip x) = Some (qs, r))"
  using assms by (auto simp: cons_fst_Some_iff split: option.split_asm list.split_asm if_split_asm)

lemma skip_Cons_shorter: "skip u = c # t \<Longrightarrow> length t < length u"
  using skip_shorter [of u] by simp

text \<open>Every value read is shorter than its text, so two units of fuel per character never run out.\<close>

lemma json_shorter:
  "json_value n s = Some (v, r) \<Longrightarrow> length r < length s"
  "json_items n s = Some (vs, r) \<Longrightarrow> length r < length s"
  "json_members n s = Some (ps, r) \<Longrightarrow> length r < length s"
proof (induction n arbitrary: s v r vs ps)
  case (Suc n)
  { case 1
    note read = this
    then obtain c cs where s: "s = c # cs" by (auto split: list.split_asm)
    note le = skip_shorter [of cs]
    consider "c = CHR 0x22" | "c = CHR 0x7B" "take 1 (skip cs) = [CHR 0x7D]" | "c = CHR 0x7B" "take 1 (skip cs) \<noteq> [CHR 0x7D]"
      | "c = CHR ''[''" "take 1 (skip cs) = [CHR '']'']" | "c = CHR ''[''" "take 1 (skip cs) \<noteq> [CHR '']'']"
      | "c \<noteq> CHR 0x22" "c \<noteq> CHR 0x7B" "c \<noteq> CHR ''[''" by blast
    then show ?case
    proof cases
      case 1
      with read show ?thesis by (auto simp: s dest: json_string_shorter)
    next
      case 3
      with read obtain ps where "json_members n (skip cs) = Some (ps, r)" by (auto simp: s)
      with Suc.IH(3) [of "skip cs" ps r] le show ?thesis by (simp add: s)
    next
      case 5
      with read obtain xs where "json_items n (skip cs) = Some (xs, r)" by (auto simp: s)
      with Suc.IH(2) [of "skip cs" xs r] le show ?thesis by (simp add: s)
    next
      case 6
      with read show ?thesis using json_atom_shorter [of s v r] by (simp add: s)
    qed (use read le in \<open>auto simp: s\<close>)
  next
    case 2
    then obtain v u c t where "json_value n s = Some (v, u)" "skip u = c # t"
      "r = t \<or> (\<exists>ws. json_items n (skip t) = Some (ws, r))" by (rule json_items_Suc)
    with Suc.IH(1) [of s v u] Suc.IH(2) [of "skip t" _ r] skip_Cons_shorter [of u c t] skip_shorter [of t]
    show ?case by fastforce
  next
    case 3
    then obtain cs k u c t v w e x where m: "s = CHR 0x22 # cs" "json_string cs = Some (k, u)" "skip u = c # t"
      "json_value n (skip t) = Some (v, w)" "skip w = e # x" "r = x \<or> (\<exists>qs. json_members n (skip x) = Some (qs, r))"
      by (rule json_members_Suc)
    from m(6) have "length r \<le> length x" using Suc.IH(3) [of "skip x" _ r] skip_shorter [of x] by fastforce
    with json_string_shorter [OF m(2)] skip_Cons_shorter [OF m(3)] skip_Cons_shorter [OF m(5)] Suc.IH(1) [OF m(4)]
      skip_shorter [of t] show ?case by (simp add: m(1))
  }
qed simp_all

lemma json_fuel_step:
  "2 * length s \<le> n \<Longrightarrow> json_value (Suc n) s = json_value n s"
  "2 * length s + 1 \<le> n \<Longrightarrow> json_items (Suc n) s = json_items n s"
  "2 * length s + 1 \<le> n \<Longrightarrow> json_members (Suc n) s = json_members n s"
proof (induction n arbitrary: s)
  case (Suc n)
  { case 1
    show ?case
    proof (cases s)
      case (Cons c cs)
      have "2 * length (skip cs) + 1 \<le> n" using 1 skip_shorter [of cs] by (simp add: Cons)
      from Suc.IH(2,3) [OF this] show ?thesis
        unfolding Cons json_value.simps(2) [of "Suc n" "c # cs"] json_value.simps(2) [of n "c # cs"] list.case by (simp only:)
    qed simp
  next
    case 2
    have v: "json_value (Suc n) s = json_value n s" using Suc.IH(1) [of s] 2 by simp
    have "json_items (Suc n) (skip t) = json_items n (skip t)" if "json_value n s = Some (x, r)" "skip r = c # t" for x r c t
      using Suc.IH(2) [of "skip t"] json_shorter(1) [OF that(1)] skip_Cons_shorter [OF that(2)] skip_shorter [of t] 2
      by simp
    then show ?case unfolding json_items.simps(2) [of "Suc n" s] json_items.simps(2) [of n s] v
      by (auto simp del: json_value.simps json_items.simps json_members.simps split: option.split list.split)
  next
    case 3
    show ?case
    proof (cases s)
      case (Cons q cs)
      have rest: "json_value (Suc n) (skip t) = json_value n (skip t)"
        if "json_string cs = Some (k, u)" "skip u = c # t" for k u c t
        using Suc.IH(1) [of "skip t"] json_string_shorter [OF that(1)] skip_Cons_shorter [OF that(2)] skip_shorter [of t] 3
        by (simp add: Cons)
      have more: "json_members (Suc n) (skip x) = json_members n (skip x)"
        if "json_string cs = Some (k, u)" "skip u = c # t" "json_value n (skip t) = Some (v, w)" "skip w = e # x"
        for k u c t v w e x
        using Suc.IH(3) [of "skip x"] json_string_shorter [OF that(1)] skip_Cons_shorter [OF that(2)]
          json_shorter(1) [OF that(3)] skip_Cons_shorter [OF that(4)] skip_shorter [of t] skip_shorter [of x] 3
        by (simp add: Cons)
      show ?thesis unfolding Cons json_members.simps(2) [of "Suc n" "q # cs"] json_members.simps(2) [of n "q # cs"]
        by (auto simp: rest more simp del: json_value.simps json_items.simps json_members.simps split: option.split list.split)
    qed simp
  }
qed simp_all

theorem loads_fuel: "2 * length s + 2 \<le> n \<Longrightarrow> json_value n (skip s) = json_value (2 * length s + 2) (skip s)"
proof (induction n rule: dec_induct)
  case (step n)
  have "2 * length (skip s) \<le> n" using skip_shorter [of s] step.hyps(1) by simp
  from json_fuel_step(1) [OF this] step.IH show ?case by simp
qed simp

end
