(* ===== verification/Scheduler_Types.thy ===== *)
theory Scheduler_Types
  imports Core_Types
begin

text \<open>
  The data of the portfolio scheduler (\<open>portfolio_scheduler_store.py\<close>, lines 60 to 475):
  its error classes, the enumerations, the queue entry and the schedule receipt, and the
  validators their constructors run.  The Python validators also test the dynamic types of
  their arguments; those tests are the types here.  Strings are ASCII, on which NFC
  normalisation is the identity.
\<close>

datatype scheduler_error =
    PortfolioSchedulerInputError string
  | PortfolioSchedulerSchemaError string
  | PortfolioSchedulerSecurityError string
  | PortfolioSchedulerConflictError string
  | PortfolioSchedulerSequenceError string
  | PortfolioSchedulerLockConflictError string
  | PortfolioSchedulerTransitionError string
  | PortfolioSchedulerNotFoundError string
  | PortfolioSchedulerPermissionError string

type_synonym scheduler_guard = "bool \<times> scheduler_error"

definition SCHEMA_VERSION :: string where
  "SCHEMA_VERSION = ''agentdesk.portfolio-scheduler/v1''"

definition RESERVED_WINDOWS_NAMES :: "string list" where
  "RESERVED_WINDOWS_NAMES = [''con'', ''prn'', ''aux'', ''nul''] @
     map (\<lambda>i. ''com'' @ show_nat i) [1..<10] @ map (\<lambda>i. ''lpt'' @ show_nat i) [1..<10]"

lemma RESERVED_WINDOWS_NAMES_code [code]:
  "RESERVED_WINDOWS_NAMES =
    [''con'', ''prn'', ''aux'', ''nul'', ''com1'', ''com2'', ''com3'', ''com4'', ''com5'',
    ''com6'', ''com7'', ''com8'', ''com9'', ''lpt1'', ''lpt2'', ''lpt3'', ''lpt4'', ''lpt5'',
    ''lpt6'', ''lpt7'', ''lpt8'', ''lpt9'']"
  by code_simp

datatype BusinessPriority = P0 | P1 | P2 | P3

datatype QueuePhase = QUEUED | SELECTED | DISPATCHED | RETIRED

datatype ReceiptPhase = RECEIPT_SELECTED | RECEIPT_DISPATCHED

datatype ConflictKeyClass = HARD_EXCLUSIVE | ADVISORY | UNKNOWN

fun BusinessPriority_value :: "BusinessPriority \<Rightarrow> string" where
  "BusinessPriority_value P0 = ''P0''"
| "BusinessPriority_value P1 = ''P1''"
| "BusinessPriority_value P2 = ''P2''"
| "BusinessPriority_value P3 = ''P3''"

fun QueuePhase_value :: "QueuePhase \<Rightarrow> string" where
  "QueuePhase_value QUEUED = ''queued''"
| "QueuePhase_value SELECTED = ''selected''"
| "QueuePhase_value DISPATCHED = ''dispatched''"
| "QueuePhase_value RETIRED = ''retired''"

fun ReceiptPhase_value :: "ReceiptPhase \<Rightarrow> string" where
  "ReceiptPhase_value RECEIPT_SELECTED = ''selected''"
| "ReceiptPhase_value RECEIPT_DISPATCHED = ''dispatched''"

fun ConflictKeyClass_value :: "ConflictKeyClass \<Rightarrow> string" where
  "ConflictKeyClass_value HARD_EXCLUSIVE = ''hard_exclusive''"
| "ConflictKeyClass_value ADVISORY = ''advisory''"
| "ConflictKeyClass_value UNKNOWN = ''unknown''"

text \<open>The members in declaration order, as \<open>enum_type(value)\<close> searches them.\<close>

definition business_priorities :: "BusinessPriority list" where
  "business_priorities = [P0, P1, P2, P3]"

definition queue_phases :: "QueuePhase list" where
  "queue_phases = [QUEUED, SELECTED, DISPATCHED, RETIRED]"

definition receipt_phases :: "ReceiptPhase list" where
  "receipt_phases = [RECEIPT_SELECTED, RECEIPT_DISPATCHED]"

definition conflict_classes :: "ConflictKeyClass list" where
  "conflict_classes = [HARD_EXCLUSIVE, ADVISORY, UNKNOWN]"

text \<open>\<open>_PRIORITY_RANK\<close> of the policy: P0 is the most urgent.\<close>

fun PRIORITY_RANK :: "BusinessPriority \<Rightarrow> nat" where
  "PRIORITY_RANK P0 = 0"
| "PRIORITY_RANK P1 = 1"
| "PRIORITY_RANK P2 = 2"
| "PRIORITY_RANK P3 = 3"

interpretation priority: chain business_priorities PRIORITY_RANK
proof
  show "x \<in> set business_priorities" for x by (cases x) (simp_all add: business_priorities_def)
qed (simp add: business_priorities_def upt_rec)

instantiation BusinessPriority :: linorder
begin

definition less_eq_BusinessPriority :: "BusinessPriority \<Rightarrow> BusinessPriority \<Rightarrow> bool" where
  "a \<le> b \<longleftrightarrow> PRIORITY_RANK a \<le> PRIORITY_RANK b"

definition less_BusinessPriority :: "BusinessPriority \<Rightarrow> BusinessPriority \<Rightarrow> bool" where
  "a < b \<longleftrightarrow> PRIORITY_RANK a < PRIORITY_RANK b"

instance
  by standard
    (auto simp: less_eq_BusinessPriority_def less_BusinessPriority_def dest: priority.rank_inject)

end

lemmas priority_order = less_eq_BusinessPriority_def less_BusinessPriority_def

section \<open>Records\<close>

record ConflictKey =
  ck_value :: string
  ck_classification :: ConflictKeyClass
  ck_canonical :: bool

record QueueEntry =
  qe_schema_version :: string
  qe_queue_id :: string
  qe_task_id :: string
  qe_revision :: int
  qe_enqueue_sequence :: int
  qe_enqueued_at :: string
  qe_business_priority :: BusinessPriority
  qe_aging_basis_at :: string
  qe_worker_kind_request :: WorkerKind
  qe_assessment_id :: string
  qe_state :: QueuePhase
  qe_conflict_keys :: "ConflictKey list"
  qe_retry_budget_used :: int
  qe_content_digest :: string
  qe_selection_generation :: int

record ScheduleReceipt =
  sr_schema_version :: string
  sr_receipt_id :: string
  sr_queue_id :: string
  sr_task_id :: string
  sr_revision :: int
  sr_enqueue_sequence :: int
  sr_selected_at :: string
  sr_order_key :: "int \<times> int \<times> int \<times> string"
  sr_selection_reason :: string
  sr_worker_kind :: WorkerKind
  sr_dispatch_event_id :: "string option"
  sr_phase :: ReceiptPhase
  sr_content_digest :: string
  sr_selection_generation :: int

section \<open>Validators\<close>

definition is_control :: "char \<Rightarrow> bool" where
  "is_control c \<longleftrightarrow> (let n = (of_char c :: nat) in n < 32 \<or> n = 127)"

definition require_exact_string :: "string \<Rightarrow> string \<Rightarrow> scheduler_guard list" where
  "require_exact_string value code =
    [(value = [] \<or> list_ex is_control value, PortfolioSchedulerInputError (code @ ''_unsafe''))]"

definition SAFE_ID_RE :: "string \<Rightarrow> bool" where
  "SAFE_ID_RE s \<longleftrightarrow> (case s of [] \<Rightarrow> False
     | c # cs \<Rightarrow> is_alnum c \<and> list_all (\<lambda>x. is_alnum x \<or> x \<in> set ''._-'') cs)"

definition SAFE_KEY_RE :: "string \<Rightarrow> bool" where
  "SAFE_KEY_RE s \<longleftrightarrow> (case s of [] \<Rightarrow> False
     | c # cs \<Rightarrow> is_alnum c \<and> list_all (\<lambda>x. is_alnum x \<or> x \<in> set ''._:/-'') cs)"

definition SHA256_RE :: "string \<Rightarrow> bool" where
  "SHA256_RE s \<longleftrightarrow> starts_with ''sha256:'' s \<and> length s = 71 \<and> list_all is_hex (drop 7 s)"

definition validate_id :: "string \<Rightarrow> string \<Rightarrow> string option \<Rightarrow> scheduler_guard list" where
  "validate_id value code prefix = require_exact_string value code @
    [(has_char [CHR 0x2F, CHR 0x5C] value \<or> value = ''.'' \<or> value = ''..'',
        PortfolioSchedulerSecurityError (code @ ''_path'')),
     (\<not> SAFE_ID_RE value, PortfolioSchedulerInputError (code @ ''_format'')),
     (case prefix of None \<Rightarrow> False | Some p \<Rightarrow> \<not> starts_with p value,
        PortfolioSchedulerInputError (code @ ''_prefix'')),
     (takeWhile (\<lambda>c. c \<noteq> CHR ''.'') (casefold value) \<in> set RESERVED_WINDOWS_NAMES,
        PortfolioSchedulerSecurityError (code @ ''_reserved''))]"

definition validate_key :: "string \<Rightarrow> string \<Rightarrow> scheduler_guard list" where
  "validate_key value code = require_exact_string value code @
    [(\<not> SAFE_KEY_RE value, PortfolioSchedulerInputError (code @ ''_format''))]"

text \<open>\<open>_TIMESTAMP_RE\<close>, and the calendar check of \<open>datetime.fromisoformat\<close>.\<close>

fun fits_template :: "string \<Rightarrow> string \<Rightarrow> bool" where
  "fits_template [] [] = True"
| "fits_template (t # ts) (c # cs) =
     ((if t = CHR ''d'' then is_digit c else c = t) \<and> fits_template ts cs)"
| "fits_template _ _ = False"

definition TIMESTAMP_RE :: "string \<Rightarrow> bool" where
  "TIMESTAMP_RE s \<longleftrightarrow> fits_template ''dddd-dd-ddTdd:dd:dd.ddddddZ'' s"

definition digits_at :: "string \<Rightarrow> nat \<Rightarrow> nat \<Rightarrow> nat" where
  "digits_at s i n = read_digits (take n (drop i s))"

definition days_in_month :: "nat \<Rightarrow> nat \<Rightarrow> nat" where
  "days_in_month y m =
    (if m = 2 then (if y mod 4 = 0 \<and> (y mod 100 \<noteq> 0 \<or> y mod 400 = 0) then 29 else 28)
     else if m \<in> {4, 6, 9, 11} then 30 else 31)"

definition calendar_ok :: "string \<Rightarrow> bool" where
  "calendar_ok s \<longleftrightarrow> (
     let y = digits_at s 0 4; m = digits_at s 5 2; d = digits_at s 8 2
     in 1 \<le> y \<and> 1 \<le> m \<and> m \<le> 12 \<and> 1 \<le> d \<and> d \<le> days_in_month y m
        \<and> digits_at s 11 2 < 24 \<and> digits_at s 14 2 < 60 \<and> digits_at s 17 2 < 60)"

definition validate_timestamp :: "string \<Rightarrow> string \<Rightarrow> scheduler_guard list" where
  "validate_timestamp value code = require_exact_string value code @
    [(\<not> TIMESTAMP_RE value, PortfolioSchedulerInputError (code @ ''_format'')),
     (\<not> calendar_ok value, PortfolioSchedulerInputError (code @ ''_value''))]"

definition validate_int :: "int \<Rightarrow> string \<Rightarrow> int \<Rightarrow> scheduler_guard list" where
  "validate_int value code minimum =
    [(value < minimum, PortfolioSchedulerInputError (code @ ''_range''))]"

definition validate_digest :: "string \<Rightarrow> string \<Rightarrow> scheduler_guard list" where
  "validate_digest value code = require_exact_string value code @
    [(\<not> SHA256_RE value, PortfolioSchedulerInputError (code @ ''_format''))]"

definition validate_selection_reason :: "string \<Rightarrow> scheduler_guard list" where
  "validate_selection_reason value = require_exact_string value ''selection_reason''"

definition validate_conflict_key :: "ConflictKey \<Rightarrow> scheduler_guard list" where
  "validate_conflict_key k = validate_key (ck_value k) ''conflict_key'' @
    [(ck_classification k = UNKNOWN \<and> ck_canonical k,
        PortfolioSchedulerInputError ''unknown_conflict_canonical'')]"

definition validate_queue_entry_fields :: "QueueEntry \<Rightarrow> scheduler_guard list" where
  "validate_queue_entry_fields e =
    [(qe_schema_version e \<noteq> SCHEMA_VERSION, PortfolioSchedulerInputError ''queue_schema_version'')] @
    validate_id (qe_queue_id e) ''queue_id'' (Some ''Q-'') @
    validate_id (qe_task_id e) ''task_id'' None @
    validate_int (qe_revision e) ''revision'' 1 @
    validate_int (qe_enqueue_sequence e) ''enqueue_sequence'' 1 @
    validate_timestamp (qe_enqueued_at e) ''enqueued_at'' @
    validate_timestamp (qe_aging_basis_at e) ''aging_basis_at'' @
    validate_id (qe_assessment_id e) ''assessment_id'' (Some ''ASM-'') @
    [(\<not> distinct (map (casefold \<circ> ck_value) (qe_conflict_keys e)),
        PortfolioSchedulerInputError ''duplicate_conflict_key'')] @
    validate_int (qe_retry_budget_used e) ''retry_budget_used'' 0 @
    validate_digest (qe_content_digest e) ''content_digest'' @
    validate_int (qe_selection_generation e) ''selection_generation'' 1"

definition validate_schedule_receipt_fields :: "ScheduleReceipt \<Rightarrow> scheduler_guard list" where
  "validate_schedule_receipt_fields r = (case sr_order_key r of (k0, k1, k2, k3) \<Rightarrow>
    [(sr_schema_version r \<noteq> SCHEMA_VERSION, PortfolioSchedulerInputError ''receipt_schema_version'')] @
    validate_id (sr_receipt_id r) ''receipt_id'' (Some ''SR-'') @
    validate_id (sr_queue_id r) ''queue_id'' (Some ''Q-'') @
    validate_id (sr_task_id r) ''task_id'' None @
    validate_int (sr_revision r) ''revision'' 1 @
    validate_int (sr_enqueue_sequence r) ''enqueue_sequence'' 1 @
    validate_timestamp (sr_selected_at r) ''selected_at'' @
    validate_int k0 ''order_key'' 0 @ validate_int k1 ''order_key'' 0 @
    validate_int k2 ''order_key'' 0 @
    validate_id k3 ''order_key_queue_id'' (Some ''Q-'') @
    validate_selection_reason (sr_selection_reason r) @
    (case sr_dispatch_event_id r of None \<Rightarrow> []
     | Some v \<Rightarrow> validate_id v ''dispatch_event_id'' (Some ''EVT-'')) @
    [(sr_phase r = RECEIPT_SELECTED \<and> sr_dispatch_event_id r \<noteq> None,
        PortfolioSchedulerInputError ''selected_dispatch_event''),
     (sr_phase r = RECEIPT_DISPATCHED \<and> sr_dispatch_event_id r = None,
        PortfolioSchedulerInputError ''dispatched_event_missing'')] @
    validate_digest (sr_content_digest r) ''content_digest'' @
    validate_int (sr_selection_generation r) ''selection_generation'' 1)"

text \<open>The constructors: a frozen dataclass exists only when its validator passed.\<close>

definition make_conflict_key :: "ConflictKey \<Rightarrow> scheduler_error + ConflictKey" where
  "make_conflict_key k = guarded (validate_conflict_key k) (Inr k)"

definition make_queue_entry :: "QueueEntry \<Rightarrow> scheduler_error + QueueEntry" where
  "make_queue_entry e = guarded (validate_queue_entry_fields e) (Inr e)"

definition make_schedule_receipt :: "ScheduleReceipt \<Rightarrow> scheduler_error + ScheduleReceipt" where
  "make_schedule_receipt r = guarded (validate_schedule_receipt_fields r) (Inr r)"

definition entry_valid :: "QueueEntry \<Rightarrow> bool" where
  "entry_valid e \<longleftrightarrow> raise_first (validate_queue_entry_fields e) = None
     \<and> (\<forall>k \<in> set (qe_conflict_keys e). raise_first (validate_conflict_key k) = None)"

definition receipt_valid :: "ScheduleReceipt \<Rightarrow> bool" where
  "receipt_valid r \<longleftrightarrow> raise_first (validate_schedule_receipt_fields r) = None"

end
