(* ===== verification/Scheduler_Codec.thy ===== *)
theory Scheduler_Codec
  imports Scheduler_Types
begin

text \<open>
  The canonical text form of queue entries and schedule receipts
  (\<open>portfolio_scheduler_store.py\<close>, lines 270 to 292 and 568 to 864): scalars, lines,
  documents, content digests, and the strict decoders.  A document is a string of bytes; on
  ASCII, UTF-8 is the identity.  The cursor of the parsers is the list of the lines not yet
  consumed.  \<open>hashlib.sha256(data).hexdigest()\<close> is the argument \<open>H\<close> of every
  definition that needs it.
\<close>

section \<open>Scalars and lines\<close>

datatype scalar = SNull | SBool bool | SInt int | SStr string

definition quote_char :: "char \<Rightarrow> string" where
  "quote_char c = (if c = CHR 0x5C then [CHR 0x5C, CHR 0x5C]
                   else if c = CHR 0x22 then [CHR 0x5C, CHR 0x22] else [c])"

definition quote :: "string \<Rightarrow> string" where
  "quote value = [CHR 0x22] @ concat (map quote_char value) @ [CHR 0x22]"

fun scalar_text :: "scalar \<Rightarrow> string" where
  "scalar_text SNull = ''null''"
| "scalar_text (SBool b) = (if b then ''true'' else ''false'')"
| "scalar_text (SInt i) = show_int i"
| "scalar_text (SStr s) = quote s"

definition field_line :: "string \<Rightarrow> string \<Rightarrow> scalar \<Rightarrow> string" where
  "field_line indent key v = indent @ key @ '': '' @ scalar_text v"

definition opt_scalar :: "string option \<Rightarrow> scalar" where
  "opt_scalar v = (case v of None \<Rightarrow> SNull | Some s \<Rightarrow> SStr s)"

fun join_lines :: "string list \<Rightarrow> string" where
  "join_lines [] = []"
| "join_lines [l] = l"
| "join_lines (l # ls) = l @ [CHR 0x0A] @ join_lines ls"

definition finish :: "string list \<Rightarrow> string" where
  "finish lines = join_lines lines @ [CHR 0x0A]"

definition conflict_lines :: "string \<Rightarrow> ConflictKey \<Rightarrow> string list" where
  "conflict_lines indent k =
    [field_line indent ''  - value'' (SStr (ck_value k)),
     field_line (indent @ ''    '') ''classification'' (SStr (ConflictKeyClass_value (ck_classification k))),
     field_line (indent @ ''    '') ''canonical'' (SBool (ck_canonical k))]"

definition entry_lines :: "QueueEntry \<Rightarrow> bool \<Rightarrow> string \<Rightarrow> string list" where
  "entry_lines e include_digest indent =
    [field_line indent ''schema_version'' (SStr (qe_schema_version e)),
     field_line indent ''queue_id'' (SStr (qe_queue_id e)),
     field_line indent ''task_id'' (SStr (qe_task_id e)),
     field_line indent ''revision'' (SInt (qe_revision e)),
     field_line indent ''enqueue_sequence'' (SInt (qe_enqueue_sequence e)),
     field_line indent ''enqueued_at'' (SStr (qe_enqueued_at e)),
     field_line indent ''business_priority'' (SStr (BusinessPriority_value (qe_business_priority e))),
     field_line indent ''aging_basis_at'' (SStr (qe_aging_basis_at e)),
     field_line indent ''worker_kind_request'' (SStr (WorkerKind_value (qe_worker_kind_request e))),
     field_line indent ''assessment_id'' (SStr (qe_assessment_id e)),
     field_line indent ''state'' (SStr (QueuePhase_value (qe_state e))),
     indent @ ''conflict_keys:''] @
    concat (map (conflict_lines indent) (qe_conflict_keys e)) @
    [field_line indent ''retry_budget_used'' (SInt (qe_retry_budget_used e))] @
    (if include_digest then [field_line indent ''content_digest'' (SStr (qe_content_digest e))]
     else []) @
    [field_line indent ''selection_generation'' (SInt (qe_selection_generation e))]"

definition receipt_lines :: "ScheduleReceipt \<Rightarrow> bool \<Rightarrow> string \<Rightarrow> string list" where
  "receipt_lines r include_digest indent = (case sr_order_key r of (k0, k1, k2, k3) \<Rightarrow>
    [field_line indent ''schema_version'' (SStr (sr_schema_version r)),
     field_line indent ''receipt_id'' (SStr (sr_receipt_id r)),
     field_line indent ''queue_id'' (SStr (sr_queue_id r)),
     field_line indent ''task_id'' (SStr (sr_task_id r)),
     field_line indent ''revision'' (SInt (sr_revision r)),
     field_line indent ''enqueue_sequence'' (SInt (sr_enqueue_sequence r)),
     field_line indent ''selected_at'' (SStr (sr_selected_at r)),
     indent @ ''order_key:'',
     indent @ ''  - '' @ scalar_text (SInt k0),
     indent @ ''  - '' @ scalar_text (SInt k1),
     indent @ ''  - '' @ scalar_text (SInt k2),
     indent @ ''  - '' @ scalar_text (SStr k3),
     field_line indent ''selection_reason'' (SStr (sr_selection_reason r)),
     field_line indent ''worker_kind'' (SStr (WorkerKind_value (sr_worker_kind r))),
     field_line indent ''dispatch_event_id'' (opt_scalar (sr_dispatch_event_id r)),
     field_line indent ''phase'' (SStr (ReceiptPhase_value (sr_phase r)))] @
    (if include_digest then [field_line indent ''content_digest'' (SStr (sr_content_digest r))]
     else []) @
    [field_line indent ''selection_generation'' (SInt (sr_selection_generation r))])"

definition entry_digest :: "(string \<Rightarrow> string) \<Rightarrow> QueueEntry \<Rightarrow> string" where
  "entry_digest H e = ''sha256:'' @ H (finish (entry_lines e False []))"

definition receipt_digest :: "(string \<Rightarrow> string) \<Rightarrow> ScheduleReceipt \<Rightarrow> string" where
  "receipt_digest H r = ''sha256:'' @ H (finish (receipt_lines r False []))"

definition ensure_entry_digest :: "(string \<Rightarrow> string) \<Rightarrow> QueueEntry \<Rightarrow> scheduler_guard list" where
  "ensure_entry_digest H e =
    [(qe_content_digest e \<noteq> entry_digest H e, PortfolioSchedulerSchemaError ''queue_digest_mismatch'')]"

definition ensure_receipt_digest :: "(string \<Rightarrow> string) \<Rightarrow> ScheduleReceipt \<Rightarrow> scheduler_guard list" where
  "ensure_receipt_digest H r =
    [(sr_content_digest r \<noteq> receipt_digest H r,
        PortfolioSchedulerSchemaError ''receipt_digest_mismatch'')]"

definition encode_queue_entry :: "(string \<Rightarrow> string) \<Rightarrow> QueueEntry \<Rightarrow> scheduler_error + string" where
  "encode_queue_entry H e = guarded (validate_queue_entry_fields e @ ensure_entry_digest H e)
     (Inr (finish (entry_lines e True [])))"

definition encode_schedule_receipt ::
  "(string \<Rightarrow> string) \<Rightarrow> ScheduleReceipt \<Rightarrow> scheduler_error + string"
where
  "encode_schedule_receipt H r = guarded (validate_schedule_receipt_fields r @ ensure_receipt_digest H r)
     (Inr (finish (receipt_lines r True [])))"

section \<open>Parsing\<close>

fun split_lines :: "string \<Rightarrow> string list" where
  "split_lines [] = [[]]"
| "split_lines (c # cs) = (if c = CHR 0x0A then [] # split_lines cs
     else case split_lines cs of l # ls \<Rightarrow> (c # l) # ls | [] \<Rightarrow> [[c]])"

definition ends_with :: "string \<Rightarrow> string \<Rightarrow> bool" where
  "ends_with suffix s \<longleftrightarrow> starts_with (rev suffix) (rev s)"

definition document_control :: "char \<Rightarrow> bool" where
  "document_control c \<longleftrightarrow> (of_char c :: nat) < 32 \<and> c \<noteq> CHR 0x0A"

definition decode_document :: "string \<Rightarrow> string \<Rightarrow> scheduler_error + string list" where
  "decode_document data code = guarded
    [(data = [] \<or> starts_with [CHR 0xEF, CHR 0xBB, CHR 0xBF] data,
        PortfolioSchedulerSchemaError (code @ ''_document'')),
     (\<not> ends_with [CHR 0x0A] data \<or> ends_with [CHR 0x0A, CHR 0x0A] data,
        PortfolioSchedulerSchemaError (code @ ''_newline'')),
     (list_ex document_control data, PortfolioSchedulerSchemaError (code @ ''_control''))]
    (let lines = split_lines (butlast data)
     in guarded [(list_ex (\<lambda>l. l = []) lines, PortfolioSchedulerSchemaError (code @ ''_blank_line''))]
          (Inr lines))"

fun unescape :: "string \<Rightarrow> string \<Rightarrow> scheduler_error + string" where
  "unescape code [] = Inr []"
| "unescape code (c # cs) =
     (if c = CHR 0x5C then
        (case cs of
           [] \<Rightarrow> Inl (PortfolioSchedulerSchemaError (code @ ''_escape''))
         | d # ds \<Rightarrow>
             if d \<in> {CHR 0x22, CHR 0x5C} then and_then (unescape code ds) (\<lambda>r. Inr (d # r))
             else Inl (PortfolioSchedulerSchemaError (code @ ''_escape'')))
      else if c = CHR 0x22 then Inl (PortfolioSchedulerSchemaError (code @ ''_quote''))
      else if is_control c then Inl (PortfolioSchedulerSchemaError (code @ ''_control''))
      else and_then (unescape code cs) (\<lambda>r. Inr (c # r)))"

definition parse_quoted_scalar :: "string \<Rightarrow> string \<Rightarrow> scheduler_error + string" where
  "parse_quoted_scalar token code = guarded
    [(length token < 2 \<or> hd token \<noteq> CHR 0x22 \<or> last token \<noteq> CHR 0x22,
        PortfolioSchedulerSchemaError (code @ ''_scalar''))]
    (and_then (unescape code (butlast (tl token)))
       (\<lambda>value. guarded [(quote value \<noteq> token, PortfolioSchedulerSchemaError (code @ ''_noncanonical''))]
          (Inr value)))"

definition parse_scalar :: "string \<Rightarrow> string \<Rightarrow> scheduler_error + scalar" where
  "parse_scalar token code =
    (if token = ''null'' then Inr SNull
     else if token = ''true'' then Inr (SBool True)
     else if token = ''false'' then Inr (SBool False)
     else if starts_with [CHR 0x22] token then
       and_then (parse_quoted_scalar token code) (\<lambda>s. Inr (SStr s))
     else if decimal token then Inr (SInt (int (read_digits token)))
     else Inl (PortfolioSchedulerSchemaError (code @ ''_scalar'')))"

definition parse_line_scalar ::
  "string list \<Rightarrow> string \<Rightarrow> string \<Rightarrow> scheduler_error + (scalar \<times> string list)"
where
  "parse_line_scalar lines indent key = (case lines of
      [] \<Rightarrow> Inl (PortfolioSchedulerSchemaError (''missing_'' @ key))
    | line # rest \<Rightarrow>
        (let prefix = indent @ key @ '': ''; token = drop (length prefix) line
         in guarded
           [(\<not> starts_with prefix line, PortfolioSchedulerSchemaError (''field_order_'' @ key)),
            (token = [], PortfolioSchedulerSchemaError (''missing_value_'' @ key))]
           (and_then (parse_scalar token key) (\<lambda>v. Inr (v, rest)))))"

definition need_str :: "scalar \<Rightarrow> scheduler_error \<Rightarrow> scheduler_error + string" where
  "need_str v e = (case v of SStr s \<Rightarrow> Inr s | _ \<Rightarrow> Inl e)"

definition need_int :: "scalar \<Rightarrow> scheduler_error \<Rightarrow> scheduler_error + int" where
  "need_int v e = (case v of SInt i \<Rightarrow> Inr i | _ \<Rightarrow> Inl e)"

definition need_bool :: "scalar \<Rightarrow> scheduler_error \<Rightarrow> scheduler_error + bool" where
  "need_bool v e = (case v of SBool b \<Rightarrow> Inr b | _ \<Rightarrow> Inl e)"

definition need_opt_str :: "scalar \<Rightarrow> scheduler_error \<Rightarrow> scheduler_error + string option" where
  "need_opt_str v e = (case v of SNull \<Rightarrow> Inr None | SStr s \<Rightarrow> Inr (Some s) | _ \<Rightarrow> Inl e)"

text \<open>\<open>_parse_enum\<close>, given the members of the enumeration and their values.\<close>

definition parse_enum :: "'a list \<Rightarrow> ('a \<Rightarrow> string) \<Rightarrow> scalar \<Rightarrow> string \<Rightarrow> scheduler_error + 'a" where
  "parse_enum members value_of v code =
    (let e = PortfolioSchedulerSchemaError (code @ ''_enum'')
     in and_then (need_str v e) (\<lambda>s.
          case find (\<lambda>m. value_of m = s) members of None \<Rightarrow> Inl e | Some m \<Rightarrow> Inr m))"

text \<open>Every error of a constructor other than a schema error becomes one schema error.\<close>

definition as_schema_error :: "string \<Rightarrow> (scheduler_error + 'a) \<Rightarrow> scheduler_error + 'a" where
  "as_schema_error code r = (case r of
      Inr x \<Rightarrow> Inr x
    | Inl (PortfolioSchedulerSchemaError c) \<Rightarrow> Inl (PortfolioSchedulerSchemaError c)
    | Inl _ \<Rightarrow> Inl (PortfolioSchedulerSchemaError code))"

lemma and_then_cong [fundef_cong]:
  "r = r' \<Longrightarrow> (\<And>x. r' = Inr x \<Longrightarrow> f x = f' x) \<Longrightarrow> and_then r f = and_then r' f'"
  by (cases r') simp_all

lemma parse_line_scalar_rest:
  "parse_line_scalar lines indent key = Inr (v, rest) \<Longrightarrow> rest = tl lines \<and> lines \<noteq> []"
  by (auto simp: parse_line_scalar_def Let_def res_simps split: list.splits)

function parse_conflicts ::
  "string \<Rightarrow> string list \<Rightarrow> scheduler_error + (ConflictKey list \<times> string list)"
where
  "parse_conflicts indent [] = Inr ([], [])"
| "parse_conflicts indent (line # rest) =
    (let item_prefix = indent @ ''  - value: ''
     in if starts_with item_prefix line then
          and_then (parse_scalar (drop (length item_prefix) line) ''conflict_key'') (\<lambda>value.
          and_then (parse_line_scalar rest (indent @ ''    '') ''classification'') (\<lambda>(classification, rest1).
          and_then (parse_line_scalar rest1 (indent @ ''    '') ''canonical'') (\<lambda>(canonical, rest2).
          and_then (need_str value (PortfolioSchedulerSchemaError ''conflict_key_value'')) (\<lambda>text.
          and_then (parse_enum conflict_classes ConflictKeyClass_value classification ''classification'') (\<lambda>class.
          and_then (guarded (validate_key text ''conflict_key'')
            (need_bool canonical (PortfolioSchedulerInputError ''conflict_canonical_type''))) (\<lambda>flag.
          and_then (make_conflict_key \<lparr>ck_value = text, ck_classification = class, ck_canonical = flag\<rparr>) (\<lambda>key.
          and_then (parse_conflicts indent rest2) (\<lambda>(keys, rest3).
          Inr (key # keys, rest3)))))))))
        else Inr ([], line # rest))"
  by pat_completeness auto

termination
  by (relation "measure (\<lambda>(i, ls). length ls)") (auto dest!: parse_line_scalar_rest)

definition expect_line ::
  "string list \<Rightarrow> string \<Rightarrow> scheduler_error \<Rightarrow> scheduler_error + string list"
where
  "expect_line lines l e = (case lines of [] \<Rightarrow> Inl e | x # rest \<Rightarrow> if x \<noteq> l then Inl e else Inr rest)"

definition parse_entry_at :: "string list \<Rightarrow> string \<Rightarrow> scheduler_error + (QueueEntry \<times> string list)" where
  "parse_entry_at lines indent = (
     let bad = PortfolioSchedulerSchemaError ''queue_entry_fields''
     in and_then (parse_line_scalar lines indent ''schema_version'') (\<lambda>(v_schema, l).
        and_then (parse_line_scalar l indent ''queue_id'') (\<lambda>(v_queue, l).
        and_then (parse_line_scalar l indent ''task_id'') (\<lambda>(v_task, l).
        and_then (parse_line_scalar l indent ''revision'') (\<lambda>(v_revision, l).
        and_then (parse_line_scalar l indent ''enqueue_sequence'') (\<lambda>(v_sequence, l).
        and_then (parse_line_scalar l indent ''enqueued_at'') (\<lambda>(v_enqueued, l).
        and_then (parse_line_scalar l indent ''business_priority'') (\<lambda>(v_priority, l).
        and_then (parse_line_scalar l indent ''aging_basis_at'') (\<lambda>(v_aging, l).
        and_then (parse_line_scalar l indent ''worker_kind_request'') (\<lambda>(v_kind, l).
        and_then (parse_line_scalar l indent ''assessment_id'') (\<lambda>(v_assessment, l).
        and_then (parse_line_scalar l indent ''state'') (\<lambda>(v_state, l).
        and_then (expect_line l (indent @ ''conflict_keys:'')
          (PortfolioSchedulerSchemaError ''field_order_conflict_keys'')) (\<lambda>l.
        and_then (parse_conflicts indent l) (\<lambda>(keys, l).
        and_then (parse_line_scalar l indent ''retry_budget_used'') (\<lambda>(v_retry, l).
        and_then (parse_line_scalar l indent ''content_digest'') (\<lambda>(v_digest, l).
        and_then (parse_line_scalar l indent ''selection_generation'') (\<lambda>(v_generation, l).
        and_then (need_str v_priority (PortfolioSchedulerSchemaError ''business_priority_enum'')) (\<lambda>_.
        and_then (need_str v_kind (PortfolioSchedulerSchemaError ''worker_kind_enum'')) (\<lambda>_.
        and_then (need_str v_state (PortfolioSchedulerSchemaError ''state_enum'')) (\<lambda>_.
        and_then (parse_enum business_priorities BusinessPriority_value v_priority ''business_priority'') (\<lambda>priority.
        and_then (parse_enum worker_kinds WorkerKind_value v_kind ''worker_kind_request'') (\<lambda>kind.
        and_then (parse_enum queue_phases QueuePhase_value v_state ''state'') (\<lambda>state.
        and_then (need_str v_schema bad) (\<lambda>schema.
        and_then (need_str v_queue bad) (\<lambda>queue.
        and_then (need_str v_task bad) (\<lambda>task.
        and_then (need_int v_revision bad) (\<lambda>revision.
        and_then (need_int v_sequence bad) (\<lambda>sequence.
        and_then (need_str v_enqueued bad) (\<lambda>enqueued.
        and_then (need_str v_aging bad) (\<lambda>aging.
        and_then (need_str v_assessment bad) (\<lambda>assessment.
        and_then (need_int v_retry bad) (\<lambda>retry.
        and_then (need_str v_digest bad) (\<lambda>digest.
        and_then (need_int v_generation bad) (\<lambda>generation.
        and_then (as_schema_error ''queue_entry_fields'' (make_queue_entry
          \<lparr>qe_schema_version = schema, qe_queue_id = queue, qe_task_id = task,
           qe_revision = revision, qe_enqueue_sequence = sequence, qe_enqueued_at = enqueued,
           qe_business_priority = priority, qe_aging_basis_at = aging,
           qe_worker_kind_request = kind, qe_assessment_id = assessment, qe_state = state,
           qe_conflict_keys = keys, qe_retry_budget_used = retry, qe_content_digest = digest,
           qe_selection_generation = generation\<rparr>)) (\<lambda>entry.
        Inr (entry, l))))))))))))))))))))))))))))))))))))"

definition decode_queue_entry :: "(string \<Rightarrow> string) \<Rightarrow> string \<Rightarrow> scheduler_error + QueueEntry" where
  "decode_queue_entry H data =
     and_then (decode_document data ''queue'') (\<lambda>lines.
     and_then (parse_entry_at lines []) (\<lambda>(entry, rest).
     guarded [(rest \<noteq> [], PortfolioSchedulerSchemaError ''queue_unknown_or_extra'')]
      (and_then (encode_queue_entry H entry) (\<lambda>canonical.
       guarded [(canonical \<noteq> data, PortfolioSchedulerSchemaError ''queue_noncanonical'')]
         (Inr entry)))))"

definition parse_order_item ::
  "string list \<Rightarrow> string \<Rightarrow> scheduler_error + (scalar \<times> string list)"
where
  "parse_order_item lines indent = (case lines of
      [] \<Rightarrow> Inl (PortfolioSchedulerSchemaError ''order_key_missing'')
    | line # rest \<Rightarrow>
        (let prefix = indent @ ''  - ''
         in guarded [(\<not> starts_with prefix line, PortfolioSchedulerSchemaError ''order_key_item'')]
           (and_then (parse_scalar (drop (length prefix) line) ''order_key'') (\<lambda>v. Inr (v, rest)))))"

definition parse_receipt_at ::
  "string list \<Rightarrow> string \<Rightarrow> scheduler_error + (ScheduleReceipt \<times> string list)"
where
  "parse_receipt_at lines indent = (
     let bad = PortfolioSchedulerSchemaError ''schedule_receipt_fields''
     in and_then (parse_line_scalar lines indent ''schema_version'') (\<lambda>(v_schema, l).
        and_then (parse_line_scalar l indent ''receipt_id'') (\<lambda>(v_receipt, l).
        and_then (parse_line_scalar l indent ''queue_id'') (\<lambda>(v_queue, l).
        and_then (parse_line_scalar l indent ''task_id'') (\<lambda>(v_task, l).
        and_then (parse_line_scalar l indent ''revision'') (\<lambda>(v_revision, l).
        and_then (parse_line_scalar l indent ''enqueue_sequence'') (\<lambda>(v_sequence, l).
        and_then (parse_line_scalar l indent ''selected_at'') (\<lambda>(v_selected, l).
        and_then (expect_line l (indent @ ''order_key:'')
          (PortfolioSchedulerSchemaError ''field_order_order_key'')) (\<lambda>l.
        and_then (parse_order_item l indent) (\<lambda>(v_k0, l).
        and_then (parse_order_item l indent) (\<lambda>(v_k1, l).
        and_then (parse_order_item l indent) (\<lambda>(v_k2, l).
        and_then (parse_order_item l indent) (\<lambda>(v_k3, l).
        and_then (parse_line_scalar l indent ''selection_reason'') (\<lambda>(v_reason, l).
        and_then (parse_line_scalar l indent ''worker_kind'') (\<lambda>(v_kind, l).
        and_then (parse_line_scalar l indent ''dispatch_event_id'') (\<lambda>(v_event, l).
        and_then (parse_line_scalar l indent ''phase'') (\<lambda>(v_phase, l).
        and_then (parse_line_scalar l indent ''content_digest'') (\<lambda>(v_digest, l).
        and_then (parse_line_scalar l indent ''selection_generation'') (\<lambda>(v_generation, l).
        and_then (need_str v_kind (PortfolioSchedulerSchemaError ''worker_kind_enum'')) (\<lambda>_.
        and_then (need_str v_phase (PortfolioSchedulerSchemaError ''phase_enum'')) (\<lambda>_.
        and_then (parse_enum worker_kinds WorkerKind_value v_kind ''worker_kind'') (\<lambda>kind.
        and_then (parse_enum receipt_phases ReceiptPhase_value v_phase ''phase'') (\<lambda>phase.
        and_then (need_str v_schema bad) (\<lambda>schema.
        and_then (need_str v_receipt bad) (\<lambda>receipt.
        and_then (need_str v_queue bad) (\<lambda>queue.
        and_then (need_str v_task bad) (\<lambda>task.
        and_then (need_int v_revision bad) (\<lambda>revision.
        and_then (need_int v_sequence bad) (\<lambda>sequence.
        and_then (need_str v_selected bad) (\<lambda>selected.
        and_then (need_int v_k0 bad) (\<lambda>k0.
        and_then (need_int v_k1 bad) (\<lambda>k1.
        and_then (need_int v_k2 bad) (\<lambda>k2.
        and_then (need_str v_k3 bad) (\<lambda>k3.
        and_then (need_str v_reason bad) (\<lambda>reason.
        and_then (need_opt_str v_event bad) (\<lambda>event.
        and_then (need_str v_digest bad) (\<lambda>digest.
        and_then (need_int v_generation bad) (\<lambda>generation.
        and_then (as_schema_error ''schedule_receipt_fields'' (make_schedule_receipt
          \<lparr>sr_schema_version = schema, sr_receipt_id = receipt, sr_queue_id = queue,
           sr_task_id = task, sr_revision = revision, sr_enqueue_sequence = sequence,
           sr_selected_at = selected, sr_order_key = (k0, k1, k2, k3),
           sr_selection_reason = reason, sr_worker_kind = kind, sr_dispatch_event_id = event,
           sr_phase = phase, sr_content_digest = digest,
           sr_selection_generation = generation\<rparr>)) (\<lambda>r.
        Inr (r, l))))))))))))))))))))))))))))))))))))))))"

definition decode_schedule_receipt :: "(string \<Rightarrow> string) \<Rightarrow> string \<Rightarrow> scheduler_error + ScheduleReceipt" where
  "decode_schedule_receipt H data =
     and_then (decode_document data ''receipt'') (\<lambda>lines.
     and_then (parse_receipt_at lines []) (\<lambda>(receipt, rest).
     guarded [(rest \<noteq> [], PortfolioSchedulerSchemaError ''receipt_unknown_or_extra'')]
      (and_then (encode_schedule_receipt H receipt) (\<lambda>canonical.
       guarded [(canonical \<noteq> data, PortfolioSchedulerSchemaError ''receipt_noncanonical'')]
         (Inr receipt)))))"

section \<open>Facts about scalars\<close>

named_theorems codec_simps \<open>forward evaluation of the parsers on canonical lines\<close>

definition plain :: "string \<Rightarrow> bool" where
  "plain s \<longleftrightarrow> list_all (\<lambda>c. \<not> is_control c) s"

fun scalar_ok :: "scalar \<Rightarrow> bool" where
  "scalar_ok (SInt i) \<longleftrightarrow> 0 \<le> i"
| "scalar_ok (SStr s) \<longleftrightarrow> plain s"
| "scalar_ok _ \<longleftrightarrow> True"

lemma is_control_specials [simp]:
  "\<not> is_control CHR 0x22" "\<not> is_control CHR 0x5C" "is_control CHR 0x0A"
  by (simp_all add: is_control_def)

lemma plain_simps [simp]:
  "plain []" "plain (c # cs) \<longleftrightarrow> \<not> is_control c \<and> plain cs" "plain (s @ t) \<longleftrightarrow> plain s \<and> plain t"
  by (simp_all add: plain_def)

lemma unescape_escaped: "plain s \<Longrightarrow> unescape code (concat (map quote_char s)) = Inr s"
  by (induction s) (auto simp: quote_char_def)

lemma quote_plain: "plain s \<Longrightarrow> plain (quote s)"
  by (induction s) (auto simp: quote_def quote_char_def)

lemma parse_quote: "plain s \<Longrightarrow> parse_quoted_scalar (quote s) code = Inr s"
proof -
  assume "plain s"
  moreover have "butlast (tl (quote s)) = concat (map quote_char s)" by (simp add: quote_def)
  moreover have "2 \<le> length (quote s)" and "hd (quote s) = CHR 0x22" and "last (quote s) = CHR 0x22"
    by (simp_all add: quote_def)
  ultimately show ?thesis
    by (simp add: parse_quoted_scalar_def unescape_escaped)
qed

lemma quote_inject [simp]: "quote s = quote t \<longleftrightarrow> s = t"
proof -
  have "concat (map quote_char s) = concat (map quote_char t) \<Longrightarrow> s = t" for s t
  proof (induction s arbitrary: t)
    case Nil
    then show ?case by (cases t) (auto simp: quote_char_def split: if_splits)
  next
    case (Cons c s)
    then show ?case by (cases t) (auto simp: quote_char_def split: if_splits)
  qed
  then show ?thesis by (auto simp: quote_def)
qed

lemma digits_not_control: "list_all is_digit s \<Longrightarrow> plain s"
  by (induction s) (auto simp: is_digit_def is_control_def Let_def)

lemma digit_string_not_keyword:
  "list_all is_digit s \<Longrightarrow> s \<noteq> ''null'' \<and> s \<noteq> ''true'' \<and> s \<noteq> ''false'' \<and> \<not> starts_with [CHR 0x22] s"
  by (auto simp: is_digit_def starts_with_def)
     (cases s; simp add: is_digit_def)

lemma parse_scalar_text [codec_simps]: "scalar_ok v \<Longrightarrow> parse_scalar (scalar_text v) code = Inr v"
proof (cases v)
  case (SInt i)
  assume "scalar_ok v"
  with SInt have "scalar_text v = show_nat (nat i)" and "0 \<le> i" by (simp_all add: show_int_def)
  with SInt show ?thesis
    using digit_string_not_keyword [OF show_nat_digits [of "nat i"]] show_nat_decimal [of "nat i"]
    by (simp add: parse_scalar_def)
next
  case (SStr s)
  assume "scalar_ok v"
  with SStr show ?thesis
    by (simp add: parse_scalar_def parse_quote) (simp add: quote_def starts_with_def)
qed (simp_all add: parse_scalar_def)

lemma scalar_text_nonempty [simp]: "scalar_ok v \<Longrightarrow> scalar_text v \<noteq> []"
  by (cases v) (auto simp: quote_def show_int_def)

lemma plain_literal_text: "scalar_ok v \<Longrightarrow> plain (scalar_text v)"
proof (cases v)
  case (SInt i)
  assume "scalar_ok v"
  with SInt show ?thesis using digits_not_control [OF show_nat_digits] by (simp add: show_int_def)
next
  case (SBool b)
  then show ?thesis by (simp add: is_control_def)
qed (simp_all add: quote_plain is_control_def)

lemma parse_field_line [codec_simps]:
  "scalar_ok v \<Longrightarrow> parse_line_scalar (field_line indent key v # rest) indent key = Inr (v, rest)"
proof -
  assume v: "scalar_ok v"
  have line: "field_line indent key v = (indent @ key @ '': '') @ scalar_text v"
    by (simp add: field_line_def)
  show ?thesis unfolding parse_line_scalar_def line Let_def
    using v by (simp add: parse_scalar_text del: append_assoc)
qed

lemma field_line_plain [codec_simps]:
  "plain (field_line indent key v) \<longleftrightarrow> plain indent \<and> plain key \<and> plain (scalar_text v)"
  by (auto simp: field_line_def is_control_def)

lemma field_line_nonempty [codec_simps]: "field_line indent key v \<noteq> []"
  by (simp add: field_line_def)

lemma parse_priority [codec_simps]:
  "parse_enum business_priorities BusinessPriority_value (SStr (BusinessPriority_value p)) code = Inr p"
  by (cases p) (simp_all add: parse_enum_def need_str_def business_priorities_def Let_def)

lemma parse_kind [codec_simps]:
  "parse_enum worker_kinds WorkerKind_value (SStr (WorkerKind_value k)) code = Inr k"
  by (cases k) (simp_all add: parse_enum_def need_str_def worker_kinds_def Let_def)

lemma parse_queue_phase [codec_simps]:
  "parse_enum queue_phases QueuePhase_value (SStr (QueuePhase_value p)) code = Inr p"
  by (cases p) (simp_all add: parse_enum_def need_str_def queue_phases_def Let_def)

lemma parse_receipt_phase [codec_simps]:
  "parse_enum receipt_phases ReceiptPhase_value (SStr (ReceiptPhase_value p)) code = Inr p"
  by (cases p) (simp_all add: parse_enum_def need_str_def receipt_phases_def Let_def)

lemma parse_conflict_class [codec_simps]:
  "parse_enum conflict_classes ConflictKeyClass_value (SStr (ConflictKeyClass_value c)) code = Inr c"
  by (cases c) (simp_all add: parse_enum_def need_str_def conflict_classes_def Let_def)

lemma plain_enum_values [codec_simps]:
  "plain (BusinessPriority_value p)" "plain (WorkerKind_value k)" "plain (QueuePhase_value q)"
  "plain (ReceiptPhase_value r)" "plain (ConflictKeyClass_value c)"
proof -
  show "plain (BusinessPriority_value p)" by (cases p) (simp_all add: is_control_def)
  show "plain (WorkerKind_value k)" by (cases k) (simp_all add: is_control_def)
  show "plain (QueuePhase_value q)" by (cases q) (simp_all add: is_control_def)
  show "plain (ReceiptPhase_value r)" by (cases r) (simp_all add: is_control_def)
  show "plain (ConflictKeyClass_value c)" by (cases c) (simp_all add: is_control_def)
qed

lemma need_simps [codec_simps]:
  "need_str (SStr s) e = Inr s" "need_int (SInt i) e = Inr i" "need_bool (SBool b) e = Inr b"
  "need_opt_str (opt_scalar v) e = Inr v"
  by (cases v; simp add: need_str_def need_int_def need_bool_def need_opt_str_def opt_scalar_def)+

lemma scalar_ok_opt [codec_simps]:
  "scalar_ok (opt_scalar v) \<longleftrightarrow> (case v of None \<Rightarrow> True | Some s \<Rightarrow> plain s)"
  by (simp add: opt_scalar_def split: option.split)

lemma expect_line_same [codec_simps]: "expect_line (l # rest) l e = Inr rest"
  by (simp add: expect_line_def)

lemma parse_order_item_text [codec_simps]:
  "scalar_ok v \<Longrightarrow> parse_order_item ((indent @ ''  - '' @ scalar_text v) # rest) indent = Inr (v, rest)"
proof -
  assume v: "scalar_ok v"
  have line: "indent @ ''  - '' @ scalar_text v = (indent @ ''  - '') @ scalar_text v" by simp
  show ?thesis unfolding parse_order_item_def line Let_def
    using v by (simp add: parse_scalar_text del: append_assoc)
qed

section \<open>What a passed validator says\<close>

lemma exact_string_plain [simp]:
  "raise_first (require_exact_string v code) = None \<longleftrightarrow> v \<noteq> [] \<and> plain v"
  by (auto simp: require_exact_string_def plain_def list_all_iff list_ex_iff)

lemma valid_id_plain: "raise_first (validate_id v code p) = None \<Longrightarrow> plain v"
  by (simp add: validate_id_def)

lemma valid_key_plain: "raise_first (validate_key v code) = None \<Longrightarrow> plain v"
  by (simp add: validate_key_def)

lemma valid_timestamp_plain: "raise_first (validate_timestamp v code) = None \<Longrightarrow> plain v"
  by (simp add: validate_timestamp_def)

lemma valid_digest_plain: "raise_first (validate_digest v code) = None \<Longrightarrow> plain v"
  by (simp add: validate_digest_def)

lemma valid_int_iff [simp]: "raise_first (validate_int v code m) = None \<longleftrightarrow> m \<le> v"
  by (simp add: validate_int_def not_less)

lemma plain_SCHEMA_VERSION: "plain SCHEMA_VERSION"
  by (simp add: SCHEMA_VERSION_def is_control_def)

lemmas valid_plain = valid_id_plain valid_key_plain valid_timestamp_plain valid_digest_plain

lemma entry_valid_scalars:
  assumes "entry_valid e"
  shows "plain (qe_schema_version e)" "plain (qe_queue_id e)" "plain (qe_task_id e)"
    "0 \<le> qe_revision e" "0 \<le> qe_enqueue_sequence e" "plain (qe_enqueued_at e)"
    "plain (qe_aging_basis_at e)" "plain (qe_assessment_id e)" "0 \<le> qe_retry_budget_used e"
    "plain (qe_content_digest e)" "0 \<le> qe_selection_generation e"
  using assms plain_SCHEMA_VERSION
  by (auto simp: entry_valid_def validate_queue_entry_fields_def dest: valid_plain)

lemma receipt_valid_scalars:
  assumes "receipt_valid r" and "sr_order_key r = (k0, k1, k2, k3)"
  shows "plain (sr_schema_version r)" "plain (sr_receipt_id r)" "plain (sr_queue_id r)"
    "plain (sr_task_id r)" "0 \<le> sr_revision r" "0 \<le> sr_enqueue_sequence r"
    "plain (sr_selected_at r)" "0 \<le> k0" "0 \<le> k1" "0 \<le> k2" "plain k3"
    "plain (sr_selection_reason r)" "scalar_ok (opt_scalar (sr_dispatch_event_id r))"
    "plain (sr_content_digest r)" "0 \<le> sr_selection_generation r"
  using assms plain_SCHEMA_VERSION
  by (auto simp: receipt_valid_def validate_schedule_receipt_fields_def
      validate_selection_reason_def scalar_ok_opt dest: valid_plain split: option.splits)

section \<open>Round trips of the line parsers\<close>

lemma parse_conflict_lines:
  assumes "\<forall>k \<in> set keys. raise_first (validate_conflict_key k) = None"
    and stop: "\<not> starts_with (indent @ ''  - value: '') l"
  shows "parse_conflicts indent (concat (map (conflict_lines indent) keys) @ l # rest) = Inr (keys, l # rest)"
  using assms(1)
proof (induction keys)
  case Nil
  with stop show ?case by (simp add: Let_def)
next
  case (Cons k keys)
  then have key: "raise_first (validate_key (ck_value k) ''conflict_key'') = None"
    and valid: "raise_first (validate_conflict_key k) = None"
    by (simp_all add: validate_conflict_key_def)
  have ok: "scalar_ok (SStr (ck_value k))" using valid_key_plain [OF key] by simp
  have lines: "concat (map (conflict_lines indent) (k # keys)) @ l # rest =
      ((indent @ ''  - value: '') @ scalar_text (SStr (ck_value k))) #
      field_line (indent @ ''    '') ''classification'' (SStr (ConflictKeyClass_value (ck_classification k))) #
      field_line (indent @ ''    '') ''canonical'' (SBool (ck_canonical k)) #
      concat (map (conflict_lines indent) keys) @ l # rest"
    by (simp add: conflict_lines_def field_line_def)
  have "make_conflict_key \<lparr>ck_value = ck_value k, ck_classification = ck_classification k,
      ck_canonical = ck_canonical k\<rparr> = Inr k"
    using valid by (cases k) (simp add: make_conflict_key_def)
  moreover have "parse_conflicts indent (concat (map (conflict_lines indent) keys) @ l # rest) = Inr (keys, l # rest)"
    using Cons by simp
  ultimately show ?case
    unfolding lines parse_conflicts.simps(2) Let_def
    using key ok by (simp add: codec_simps del: append_assoc scalar_text.simps)
qed

lemma rebuild_entry:
  "\<lparr>qe_schema_version = qe_schema_version e, qe_queue_id = qe_queue_id e, qe_task_id = qe_task_id e,
    qe_revision = qe_revision e, qe_enqueue_sequence = qe_enqueue_sequence e,
    qe_enqueued_at = qe_enqueued_at e, qe_business_priority = qe_business_priority e,
    qe_aging_basis_at = qe_aging_basis_at e, qe_worker_kind_request = qe_worker_kind_request e,
    qe_assessment_id = qe_assessment_id e, qe_state = qe_state e,
    qe_conflict_keys = qe_conflict_keys e, qe_retry_budget_used = qe_retry_budget_used e,
    qe_content_digest = qe_content_digest e,
    qe_selection_generation = qe_selection_generation e\<rparr> = e"
  by (cases e) simp

lemma rebuild_receipt:
  "\<lparr>sr_schema_version = sr_schema_version r, sr_receipt_id = sr_receipt_id r,
    sr_queue_id = sr_queue_id r, sr_task_id = sr_task_id r, sr_revision = sr_revision r,
    sr_enqueue_sequence = sr_enqueue_sequence r, sr_selected_at = sr_selected_at r,
    sr_order_key = sr_order_key r, sr_selection_reason = sr_selection_reason r,
    sr_worker_kind = sr_worker_kind r, sr_dispatch_event_id = sr_dispatch_event_id r,
    sr_phase = sr_phase r, sr_content_digest = sr_content_digest r,
    sr_selection_generation = sr_selection_generation r\<rparr> = r"
  by (cases r) simp

lemma as_schema_error_Inr [codec_simps]: "as_schema_error code (Inr x) = Inr x"
  by (simp add: as_schema_error_def)

lemma parse_entry_lines:
  assumes "entry_valid e"
  shows "parse_entry_at (entry_lines e True indent @ rest) indent = Inr (e, rest)"
proof -
  note ok = entry_valid_scalars [OF assms]
  have keys: "parse_conflicts indent (concat (map (conflict_lines indent) (qe_conflict_keys e)) @
      field_line indent ''retry_budget_used'' v # ls) =
      Inr (qe_conflict_keys e, field_line indent ''retry_budget_used'' v # ls)" for v ls
    using assms by (intro parse_conflict_lines) (simp_all add: entry_valid_def field_line_def)
  have "make_queue_entry e = Inr e" using assms by (simp add: make_queue_entry_def entry_valid_def)
  then show ?thesis
    unfolding parse_entry_at_def entry_lines_def Let_def
    using ok by (simp add: codec_simps keys rebuild_entry)
qed

lemma parse_receipt_lines:
  assumes "receipt_valid r"
  shows "parse_receipt_at (receipt_lines r True indent @ rest) indent = Inr (r, rest)"
proof -
  obtain k0 k1 k2 k3 where key: "sr_order_key r = (k0, k1, k2, k3)" by (cases "sr_order_key r")
  note ok = receipt_valid_scalars [OF assms key]
  have "make_schedule_receipt r = Inr r"
    using assms by (simp add: make_schedule_receipt_def receipt_valid_def)
  moreover have "parse_order_item ((indent @ ''  - '' @ show_int k) # ls) indent = Inr (SInt k, ls)"
    if "0 \<le> k" for k ls
    using parse_order_item_text [of "SInt k"] that by simp
  moreover have "parse_order_item ((indent @ ''  - '' @ quote k3) # ls) indent = Inr (SStr k3, ls)" for ls
    using parse_order_item_text [of "SStr k3"] ok by simp
  ultimately show ?thesis
    unfolding parse_receipt_at_def receipt_lines_def Let_def key
    using ok rebuild_receipt [of r, unfolded key] by (simp add: codec_simps)
qed

section \<open>Documents\<close>

lemma plain_no_newline: "plain l \<Longrightarrow> CHR 0x0A \<notin> set l"
  by (auto simp: plain_def list_all_iff)

lemma split_lines_last: "CHR 0x0A \<notin> set l \<Longrightarrow> split_lines l = [l]"
  by (induction l) auto

lemma split_lines_append: "CHR 0x0A \<notin> set l \<Longrightarrow> split_lines (l @ CHR 0x0A # s) = l # split_lines s"
  by (induction l) auto

lemma split_join_lines:
  "lines \<noteq> [] \<Longrightarrow> \<forall>l \<in> set lines. plain l \<Longrightarrow> split_lines (join_lines lines) = lines"
  by (induction lines rule: join_lines.induct)
    (auto simp: plain_no_newline split_lines_last split_lines_append)

lemma join_lines_chars: "\<forall>l \<in> set lines. plain l \<Longrightarrow> c \<in> set (join_lines lines) \<Longrightarrow> \<not> document_control c"
  by (induction lines rule: join_lines.induct)
    (auto simp: plain_def list_all_iff document_control_def is_control_def Let_def)

lemma join_lines_last:
  "lines \<noteq> [] \<Longrightarrow> \<forall>l \<in> set lines. plain l \<and> l \<noteq> [] \<Longrightarrow>
     join_lines lines \<noteq> [] \<and> last (join_lines lines) \<noteq> CHR 0x0A"
proof (induction lines rule: join_lines.induct)
  case (2 l)
  then have "last l \<in> set l" by simp
  with 2 plain_no_newline [of l] have "last l \<noteq> CHR 0x0A" by (metis list.set_intros(1))
  with 2 show ?case by simp
qed auto

lemma decode_finish:
  assumes "lines \<noteq> []" and plain: "\<forall>l \<in> set lines. plain l \<and> l \<noteq> []"
    and bom: "\<not> starts_with [CHR 0xEF, CHR 0xBB, CHR 0xBF] (finish lines)"
  shows "decode_document (finish lines) code = Inr lines"
proof -
  have last: "join_lines lines \<noteq> []" "last (join_lines lines) \<noteq> CHR 0x0A"
    using join_lines_last [OF assms(1) plain] by blast+
  then obtain s c where join: "join_lines lines = s @ [c]" "c \<noteq> CHR 0x0A"
    by (cases "join_lines lines" rule: rev_cases) auto
  have "\<not> list_ex document_control (finish lines)"
    using join_lines_chars [of lines] plain by (auto simp: finish_def list_ex_iff document_control_def)
  moreover have "split_lines (butlast (finish lines)) = lines"
    using split_join_lines assms by (simp add: finish_def)
  moreover have "\<not> list_ex (\<lambda>l. l = []) lines" using plain by (auto simp: list_ex_iff)
  moreover have "ends_with [CHR 0x0A] (finish lines)" "\<not> ends_with [CHR 0x0A, CHR 0x0A] (finish lines)"
    using join by (simp_all add: ends_with_def finish_def)
  moreover have "finish lines \<noteq> []" by (simp add: finish_def)
  ultimately show ?thesis using bom by (simp add: decode_document_def)
qed

lemma finish_Cons_starts: "starts_with p (finish (l # ls)) \<longleftrightarrow> starts_with p (l @ drop (length l) (finish (l # ls)))"
  by (cases ls) (simp_all add: finish_def)

lemma finish_first: "finish ((c # l) # ls) = c # tl (finish ((c # l) # ls))"
  by (cases ls) (simp_all add: finish_def)

lemma schema_line_no_bom:
  "\<not> starts_with [CHR 0xEF, CHR 0xBB, CHR 0xBF] (finish (field_line [] ''schema_version'' v # ls))"
  by (simp add: field_line_def) (subst finish_first, simp)

lemma entry_lines_all_plain:
  assumes "entry_valid e" and "plain indent"
  shows "\<forall>l \<in> set (entry_lines e True indent). plain l \<and> l \<noteq> []"
proof -
  have "plain l \<and> l \<noteq> []" if "l \<in> set (concat (map (conflict_lines indent) (qe_conflict_keys e)))" for l
  proof -
    from that obtain k where k: "k \<in> set (qe_conflict_keys e)" "l \<in> set (conflict_lines indent k)" by auto
    from assms(1) k(1) have "plain (ck_value k)"
      by (auto simp: entry_valid_def validate_conflict_key_def dest: valid_key_plain)
    with k(2) assms(2) show ?thesis
      by (auto simp: conflict_lines_def codec_simps plain_literal_text is_control_def quote_plain)
  qed
  then show ?thesis
    using entry_valid_scalars [OF assms(1)] plain_literal_text [of "SInt _"] assms(2)
    by (auto simp: entry_lines_def codec_simps is_control_def quote_plain simp del: set_concat set_map)
qed

lemma entry_lines_document:
  assumes "entry_valid e"
  shows "decode_document (finish (entry_lines e True [])) code = Inr (entry_lines e True [])"
  by (rule decode_finish [OF _ entry_lines_all_plain [OF assms plain_simps(1)]])
    (simp_all add: entry_lines_def schema_line_no_bom)

lemma receipt_lines_document:
  assumes "receipt_valid r"
  shows "decode_document (finish (receipt_lines r True [])) code = Inr (receipt_lines r True [])"
proof (rule decode_finish)
  obtain k0 k1 k2 k3 where key: "sr_order_key r = (k0, k1, k2, k3)" by (cases "sr_order_key r")
  note ok = receipt_valid_scalars [OF assms key]
  show "\<forall>l \<in> set (receipt_lines r True []). plain l \<and> l \<noteq> []"
    using ok plain_literal_text [of "SInt _"] plain_literal_text [OF ok(13)]
    by (auto simp: receipt_lines_def key codec_simps is_control_def quote_plain)
qed (simp_all add: receipt_lines_def schema_line_no_bom split: prod.splits)

section \<open>What a decoded value satisfies\<close>

lemma parse_conflicts_valid:
  "parse_conflicts indent lines = Inr (keys, rest) \<Longrightarrow>
     \<forall>k \<in> set keys. raise_first (validate_conflict_key k) = None"
proof (induction indent lines arbitrary: keys rest rule: parse_conflicts.induct)
  case (2 indent line rest keys rest')
  then show ?case
    by (auto simp: Let_def res_simps make_conflict_key_def split: if_splits)
qed simp

lemma as_schema_error_Inr_iff [res_simps]: "as_schema_error code r = Inr x \<longleftrightarrow> r = Inr x"
  by (cases r) (auto simp: as_schema_error_def split: scheduler_error.splits)

lemma parse_entry_valid:
  assumes "parse_entry_at lines indent = Inr (e, rest)"
  shows "entry_valid e"
  using assms unfolding parse_entry_at_def Let_def
  by (auto simp: res_simps make_queue_entry_def entry_valid_def split_paired_all
      dest!: parse_conflicts_valid)

lemma parse_receipt_valid:
  assumes "parse_receipt_at lines indent = Inr (r, rest)"
  shows "receipt_valid r"
  using assms unfolding parse_receipt_at_def Let_def
  by (auto simp: res_simps make_schedule_receipt_def receipt_valid_def split_paired_all)

lemma encode_entry_iff: "encode_queue_entry H e = Inr data \<longleftrightarrow>
    raise_first (validate_queue_entry_fields e) = None \<and> qe_content_digest e = entry_digest H e
    \<and> data = finish (entry_lines e True [])"
  by (auto simp: encode_queue_entry_def ensure_entry_digest_def res_simps)

lemma encode_receipt_iff: "encode_schedule_receipt H r = Inr data \<longleftrightarrow>
    receipt_valid r \<and> sr_content_digest r = receipt_digest H r
    \<and> data = finish (receipt_lines r True [])"
  by (auto simp: encode_schedule_receipt_def ensure_receipt_digest_def receipt_valid_def res_simps)

text \<open>The lines with and without the digest line determine each other.\<close>

lemma entry_lines_digest: "entry_lines e True indent =
    butlast (entry_lines e False indent) @
    [field_line indent ''content_digest'' (SStr (qe_content_digest e)), last (entry_lines e False indent)]"
  by (simp add: entry_lines_def butlast_append)

lemma entry_lines_ignores_digest: "entry_lines (e\<lparr>qe_content_digest := d\<rparr>) False indent = entry_lines e False indent"
  by (simp add: entry_lines_def)

lemma receipt_lines_digest: "receipt_lines r True indent =
    butlast (receipt_lines r False indent) @
    [field_line indent ''content_digest'' (SStr (sr_content_digest r)), last (receipt_lines r False indent)]"
  by (simp add: receipt_lines_def butlast_append split: prod.split)

lemma receipt_lines_ignores_digest: "receipt_lines (r\<lparr>sr_content_digest := d\<rparr>) False indent = receipt_lines r False indent"
  by (simp add: receipt_lines_def)

lemma entry_lines_False_plain: "l \<in> set (entry_lines e False i) \<Longrightarrow> l \<in> set (entry_lines e True i)"
  by (auto simp: entry_lines_def)

section \<open>Properties\<close>

text \<open>
  C24. Decoding and encoding a queue entry are exact inverses: a document decodes to an entry
  just when that entry is valid and the document is its canonical encoding, with the content
  digest of its other fields.  So no byte of an accepted document is free, and every valid
  entry can be read back.
\<close>

theorem queue_entry_roundtrip:
  "decode_queue_entry H data = Inr e \<longleftrightarrow> entry_valid e \<and> encode_queue_entry H e = Inr data"
proof
  assume "decode_queue_entry H data = Inr e"
  then show "entry_valid e \<and> encode_queue_entry H e = Inr data"
    by (auto simp: decode_queue_entry_def res_simps dest: parse_entry_valid)
next
  assume e: "entry_valid e \<and> encode_queue_entry H e = Inr data"
  then have data: "data = finish (entry_lines e True [])" by (simp add: encode_entry_iff)
  have "parse_entry_at (entry_lines e True []) [] = Inr (e, [])"
    using parse_entry_lines [of e "[]" "[]"] e by simp
  with e show "decode_queue_entry H data = Inr e"
    by (simp add: decode_queue_entry_def data entry_lines_document)
qed

text \<open>
  The same for schedule receipts: the decoder accepts exactly the canonical encodings of
  valid receipts, and returns the receipt that was encoded.
\<close>

theorem schedule_receipt_roundtrip:
  "decode_schedule_receipt H data = Inr r \<longleftrightarrow> encode_schedule_receipt H r = Inr data"
proof
  assume "decode_schedule_receipt H data = Inr r"
  then show "encode_schedule_receipt H r = Inr data"
    by (auto simp: decode_schedule_receipt_def res_simps)
next
  assume r: "encode_schedule_receipt H r = Inr data"
  then have valid: "receipt_valid r" and data: "data = finish (receipt_lines r True [])"
    by (simp_all add: encode_receipt_iff)
  have "parse_receipt_at (receipt_lines r True []) [] = Inr (r, [])"
    using parse_receipt_lines [of r "[]" "[]"] valid by simp
  with r valid show "decode_schedule_receipt H data = Inr r"
    by (simp add: decode_schedule_receipt_def data receipt_lines_document)
qed

text \<open>
  The content digest binds every other field of a queue entry: two valid entries with the
  same digest agree on all of them, unless their two different canonical texts are a collision
  of the hash function.
\<close>

theorem entry_digest_binds:
  assumes "entry_valid e" and "entry_valid e'" and "entry_digest H e = entry_digest H e'"
  shows "e' = e\<lparr>qe_content_digest := qe_content_digest e'\<rparr>
    \<or> (finish (entry_lines e False []) \<noteq> finish (entry_lines e' False [])
       \<and> H (finish (entry_lines e False [])) = H (finish (entry_lines e' False [])))"
proof (cases "finish (entry_lines e False []) = finish (entry_lines e' False [])")
  case True
  have plain: "\<forall>l \<in> set (entry_lines x False []). plain l" if "entry_valid x" for x
  proof
    fix l assume "l \<in> set (entry_lines x False [])"
    then have "l \<in> set (entry_lines x True [])" by (rule entry_lines_False_plain)
    with entry_lines_all_plain [OF that plain_simps(1)] show "plain l" by blast
  qed
  have ne: "entry_lines x False [] \<noteq> []" for x by (simp add: entry_lines_def)
  have "entry_lines e False [] = entry_lines e' False []"
    using True split_join_lines [OF ne plain] assms(1,2) by (metis butlast_snoc finish_def)
  then have lines: "entry_lines (e\<lparr>qe_content_digest := qe_content_digest e'\<rparr>) True [] = entry_lines e' True []"
    by (simp add: entry_lines_digest entry_lines_ignores_digest)
  have "entry_valid (e\<lparr>qe_content_digest := qe_content_digest e'\<rparr>)"
    using assms(1,2) by (simp add: entry_valid_def validate_queue_entry_fields_def)
  from parse_entry_lines [OF this, of "[]" "[]"] parse_entry_lines [OF assms(2), of "[]" "[]"]
  show ?thesis by (simp add: lines)
next
  case False
  with assms(3) show ?thesis by (simp add: entry_digest_def)
qed

text \<open>
  A malformed conflict key is reported as an input error, while every other malformed field of
  a stored entry is reported as a schema error: the constructor of the key runs outside the
  \<open>try\<close> block that converts the errors of the entry's own constructor.
\<close>

lemma malformed_conflict_key_error:
  "parse_conflicts [] [field_line [] ''  - value'' (SStr ''bad key''),
     field_line ''    '' ''classification'' (SStr ''advisory''),
     field_line ''    '' ''canonical'' (SBool True)] =
   Inl (PortfolioSchedulerInputError ''conflict_key_format'')"
  by code_simp

text \<open>What \<open>hexdigest\<close> of a SHA-256 object returns: sixty-four lower-case hexadecimal digits.\<close>

definition hexdigest :: "(string \<Rightarrow> string) \<Rightarrow> bool" where
  "hexdigest H \<longleftrightarrow> (\<forall>s. length (H s) = 64 \<and> list_all is_hex (H s))"

lemma hexdigest_valid:
  assumes "hexdigest H"
  shows "raise_first (validate_digest (''sha256:'' @ H s) code) = None"
proof -
  have "is_hex c \<Longrightarrow> \<not> is_control c" for c by (auto simp: is_hex_def is_control_def Let_def)
  with assms have "plain (H s)" by (auto simp: hexdigest_def plain_def list_all_iff)
  with assms show ?thesis
    by (simp add: validate_digest_def SHA256_RE_def hexdigest_def is_control_def)
qed

section \<open>Witnesses\<close>

definition sample_hash :: "string \<Rightarrow> string" where
  "sample_hash s = replicate 63 (CHR ''a'') @ [char_of (48 + length s mod 10)]"

definition sample_body :: QueueEntry where
  "sample_body = \<lparr>qe_schema_version = SCHEMA_VERSION, qe_queue_id = ''Q-1'', qe_task_id = ''T-7'',
     qe_revision = 1, qe_enqueue_sequence = 3, qe_enqueued_at = ''2026-02-28T09:30:00.000000Z'',
     qe_business_priority = P1, qe_aging_basis_at = ''2026-02-27T00:00:00.000000Z'',
     qe_worker_kind_request = STANDARD_AGENT, qe_assessment_id = ''ASM-9'', qe_state = QUEUED,
     qe_conflict_keys = [\<lparr>ck_value = ''repo:core'', ck_classification = ADVISORY, ck_canonical = True\<rparr>],
     qe_retry_budget_used = 0, qe_content_digest = ''sha256:'' @ replicate 64 (CHR ''0''),
     qe_selection_generation = 1\<rparr>"

definition sample_entry :: QueueEntry where
  "sample_entry = sample_body\<lparr>qe_content_digest := entry_digest sample_hash sample_body\<rparr>"

lemma sample_body_valid: "entry_valid sample_body"
  by code_simp

lemma sample_hash_hexdigest: "hexdigest sample_hash"
proof -
  have "list_all is_hex (replicate 63 (CHR ''a''))" by (simp add: list_all_iff is_hex_def)
  moreover have "n mod 10 \<le> 9" for n :: nat using mod_less_divisor [of 10 n] by linarith
  ultimately show ?thesis by (simp add: hexdigest_def sample_hash_def is_hex_def)
qed

lemma sample_entry_valid: "entry_valid sample_entry"
  using sample_body_valid hexdigest_valid [OF sample_hash_hexdigest]
  by (simp add: sample_entry_def entry_valid_def validate_queue_entry_fields_def entry_digest_def)

lemma entry_digest_binds_witness:
  "sample_entry = sample_body\<lparr>qe_content_digest := qe_content_digest sample_entry\<rparr>"
proof -
  have same: "entry_lines sample_entry False [] = entry_lines sample_body False []"
    by (simp add: sample_entry_def entry_lines_ignores_digest)
  then have "entry_digest sample_hash sample_body = entry_digest sample_hash sample_entry"
    by (simp add: entry_digest_def)
  from entry_digest_binds [OF sample_body_valid sample_entry_valid this] same
  show ?thesis by simp
qed

end
