(* ===== verification/Scheduler_Policy.thy ===== *)
theory Scheduler_Policy
  imports Scheduler_Codec "HOL-Library.Multiset"
begin

text \<open>
  The deterministic selection policy (\<open>portfolio_scheduler_policy.py\<close>): the admission
  context and its checks, the validation of the queue snapshot, the three eligibility filters,
  the ageing ranks, the order key, and the receipt of the chosen entry.  The lemmas reduce the
  pipeline of lists, dictionaries and sorts to a choice on the set of eligible entries: the
  least one for \<open>urgency\<close>.
\<close>

datatype policy_error =
    InvalidInputTypeError string
  | DuplicateQueueIdentityError string
  | DuplicateEnqueueSequenceError string
  | UnknownConflictError string
  | ForbiddenGlobalKeyError string
  | UnsupportedPolicyVersionError string
  | StoreError scheduler_error

type_synonym policy_guard = "bool \<times> policy_error"

record AdvisoryAuthorization =
  aa_queue_id :: string
  aa_task_id :: string
  aa_revision :: int
  aa_authorized_by :: string

record AdmissionContext =
  ac_policy_version :: string
  ac_evaluated_at :: string
  ac_active_hard_conflict_keys :: "string list"
  ac_advisory_conflict_keys :: "string list"
  ac_advisory_authorizations :: "AdvisoryAuthorization list"
  ac_available_worker_kinds :: "WorkerKind list"
  ac_max_selections :: int

definition make_authorization :: "AdvisoryAuthorization \<Rightarrow> policy_error + AdvisoryAuthorization" where
  "make_authorization a = guarded
    [(aa_queue_id a = [], InvalidInputTypeError ''advisory_auth_queue_id_type''),
     (aa_task_id a = [], InvalidInputTypeError ''advisory_auth_task_id_type''),
     (aa_revision a < 1, InvalidInputTypeError ''advisory_auth_revision_type''),
     (aa_authorized_by a = [], InvalidInputTypeError ''advisory_auth_authorized_by_type'')]
    (Inr a)"

definition make_context :: "AdmissionContext \<Rightarrow> policy_error + AdmissionContext" where
  "make_context ctx = guarded
    [(ac_policy_version ctx = [], InvalidInputTypeError ''policy_version_type''),
     (ac_evaluated_at ctx = [], InvalidInputTypeError ''evaluated_at_type''),
     (ac_max_selections ctx < 1, InvalidInputTypeError ''max_selections_type''),
     (list_ex (\<lambda>k. k = []) (ac_active_hard_conflict_keys ctx),
        InvalidInputTypeError ''active_hard_conflict_key_type''),
     (list_ex (\<lambda>k. k = []) (ac_advisory_conflict_keys ctx),
        InvalidInputTypeError ''advisory_conflict_key_type'')]
    (Inr ctx)"

definition GLOBAL_KEY_CASEFOLD :: string where
  "GLOBAL_KEY_CASEFOLD = ''global''"

definition snapshot_key_guards :: "ConflictKey \<Rightarrow> policy_guard list" where
  "snapshot_key_guards ck =
    [(ck_classification ck = UNKNOWN, UnknownConflictError ''unknown_conflict_key''),
     (casefold (ck_value ck) = GLOBAL_KEY_CASEFOLD, ForbiddenGlobalKeyError ''global_key'')]"

text \<open>The loop of \<open>_validate_snapshot\<close> with its two growing sets.\<close>

fun validate_snapshot_from :: "string list \<Rightarrow> int list \<Rightarrow> QueueEntry list \<Rightarrow> policy_guard list" where
  "validate_snapshot_from ids seqs [] = []"
| "validate_snapshot_from ids seqs (e # es) =
    [(qe_queue_id e \<in> set ids, DuplicateQueueIdentityError ''duplicate_queue_id''),
     (qe_enqueue_sequence e \<in> set seqs, DuplicateEnqueueSequenceError ''duplicate_enqueue_sequence'')] @
    concat (map snapshot_key_guards (qe_conflict_keys e)) @
    validate_snapshot_from (qe_queue_id e # ids) (qe_enqueue_sequence e # seqs) es"

definition validate_snapshot :: "QueueEntry list \<Rightarrow> policy_guard list" where
  "validate_snapshot snapshot = validate_snapshot_from [] [] snapshot"

definition validate_admission_context :: "AdmissionContext \<Rightarrow> policy_guard list" where
  "validate_admission_context ctx =
    [(ac_policy_version ctx \<noteq> SCHEMA_VERSION, UnsupportedPolicyVersionError ''unsupported_policy_version'')]"

section \<open>Conflict adjudication\<close>

fun has_active_hard_conflict_in :: "ConflictKey list \<Rightarrow> string list \<Rightarrow> bool" where
  "has_active_hard_conflict_in [] active = False"
| "has_active_hard_conflict_in (ck # cks) active =
    (if ck_classification ck \<noteq> HARD_EXCLUSIVE then has_active_hard_conflict_in cks active
     else if casefold (ck_value ck) \<in> set active then True
     else has_active_hard_conflict_in cks active)"

definition has_active_hard_conflict :: "QueueEntry \<Rightarrow> string list \<Rightarrow> bool" where
  "has_active_hard_conflict e active = has_active_hard_conflict_in (qe_conflict_keys e) active"

definition advisory_entry_keys :: "QueueEntry \<Rightarrow> string list" where
  "advisory_entry_keys e =
    map (casefold \<circ> ck_value) (filter (\<lambda>ck. ck_classification ck = ADVISORY) (qe_conflict_keys e))"

fun advisory_authorized :: "QueueEntry \<Rightarrow> string list \<Rightarrow> AdvisoryAuthorization list \<Rightarrow> bool" where
  "advisory_authorized e keys [] = False"
| "advisory_authorized e keys (a # auths) =
    (if casefold (aa_authorized_by a) \<notin> set keys then advisory_authorized e keys auths
     else if aa_queue_id a = qe_queue_id e then True
     else if aa_task_id a = qe_task_id e \<and> aa_revision a = qe_revision e then True
     else advisory_authorized e keys auths)"

definition check_advisory_blocked :: "QueueEntry \<Rightarrow> AdmissionContext \<Rightarrow> string list \<Rightarrow> bool" where
  "check_advisory_blocked e ctx active = (
     let entry_advisory = advisory_entry_keys e;
         intersection = filter (\<lambda>k. k \<in> set active) entry_advisory
     in if entry_advisory = [] then False
        else if intersection = [] then False
        else if advisory_authorized e intersection (ac_advisory_authorizations ctx) then False
        else True)"

section \<open>Ageing ranks and the order key\<close>

definition by_priority :: "QueueEntry list \<Rightarrow> (BusinessPriority, QueueEntry list) dict" where
  "by_priority candidates = foldl (\<lambda>d e.
     dict_set (qe_business_priority e)
       ((case dict_get d (qe_business_priority e) of None \<Rightarrow> [] | Some es \<Rightarrow> es) @ [e]) d)
     [] candidates"

definition aging_key :: "QueueEntry \<Rightarrow> string \<times> int" where
  "aging_key e = (qe_aging_basis_at e, qe_enqueue_sequence e)"

definition compute_aging_ranks :: "QueueEntry list \<Rightarrow> (string, nat) dict" where
  "compute_aging_ranks candidates = foldl (\<lambda>ranks (p, entries).
     foldl (\<lambda>ranks (ordinal, e). dict_set (qe_queue_id e) ordinal ranks) ranks
       (List.enumerate 0 (sort_key aging_key entries)))
     [] (by_priority candidates)"

definition order_key :: "QueueEntry \<Rightarrow> nat \<Rightarrow> int \<times> int \<times> int \<times> string" where
  "order_key e aging_rank =
    (int (PRIORITY_RANK (qe_business_priority e)), int aging_rank, qe_enqueue_sequence e, qe_queue_id e)"

section \<open>The receipt\<close>

definition deterministic_receipt_id :: "QueueEntry \<Rightarrow> string" where
  "deterministic_receipt_id e = ''SR-'' @ drop 2 (qe_queue_id e) @ ''-'' @
     show_int (qe_enqueue_sequence e) @ ''-g'' @ show_int (qe_selection_generation e)"

definition build_receipt ::
  "(string \<Rightarrow> string) \<Rightarrow> QueueEntry \<Rightarrow> int \<times> int \<times> int \<times> string \<Rightarrow> string \<Rightarrow> string \<Rightarrow>
   scheduler_error + ScheduleReceipt"
where
  "build_receipt H e order_key_value evaluated_at selection_reason = and_then
     (make_schedule_receipt
       \<lparr>sr_schema_version = SCHEMA_VERSION, sr_receipt_id = deterministic_receipt_id e,
        sr_queue_id = qe_queue_id e, sr_task_id = qe_task_id e, sr_revision = qe_revision e,
        sr_enqueue_sequence = qe_enqueue_sequence e, sr_selected_at = evaluated_at,
        sr_order_key = order_key_value, sr_selection_reason = selection_reason,
        sr_worker_kind = qe_worker_kind_request e, sr_dispatch_event_id = None,
        sr_phase = RECEIPT_SELECTED, sr_content_digest = ''sha256:'' @ replicate 64 (CHR ''0''),
        sr_selection_generation = qe_selection_generation e\<rparr>)
     (\<lambda>provisional. make_schedule_receipt
        (provisional\<lparr>sr_content_digest := receipt_digest H provisional\<rparr>))"

fun join_colon :: "string list \<Rightarrow> string" where
  "join_colon [] = []"
| "join_colon [p] = p"
| "join_colon (p # ps) = p @ '':'' @ join_colon ps"

definition build_selection_reason :: "QueueEntry \<Rightarrow> nat \<Rightarrow> bool \<Rightarrow> string" where
  "build_selection_reason e aging_rank is_advisory_authorized = join_colon
    ([''priority_'' @ BusinessPriority_value (qe_business_priority e)] @
     (if aging_rank = 0 then [''oldest_in_band''] else []) @
     (if is_advisory_authorized then [''advisory_authorized''] else []) @ [''fifo''])"

section \<open>Selection\<close>

definition map_error :: "('e \<Rightarrow> 'f) \<Rightarrow> 'e + 'a \<Rightarrow> 'f + 'a" where
  "map_error f r = (case r of Inl e \<Rightarrow> Inl (f e) | Inr x \<Rightarrow> Inr x)"

text \<open>Steps 7 to 10 of \<open>select_next\<close>, on the entries that passed the filters.\<close>

definition choose_receipt ::
  "(string \<Rightarrow> string) \<Rightarrow> QueueEntry list \<Rightarrow> string list \<Rightarrow> AdmissionContext \<Rightarrow>
   policy_error + ScheduleReceipt option"
where
  "choose_receipt H eligible advisory_authorized_entries ctx = (
     let aging_ranks = compute_aging_ranks eligible;
         rank_of = (\<lambda>e. case dict_get aging_ranks (qe_queue_id e) of None \<Rightarrow> 0 | Some i \<Rightarrow> i);
         sorted_entries = sort_key (\<lambda>e. order_key e (rank_of e)) eligible;
         selected = take (nat (ac_max_selections ctx)) sorted_entries
     in case selected of
          [] \<Rightarrow> Inr None
        | chosen # _ \<Rightarrow>
            map_error StoreError (and_then
              (build_receipt H chosen (order_key chosen (rank_of chosen)) (ac_evaluated_at ctx)
                (build_selection_reason chosen (rank_of chosen)
                  (qe_queue_id chosen \<in> set advisory_authorized_entries)))
              (\<lambda>r. Inr (Some r))))"

definition select_next ::
  "(string \<Rightarrow> string) \<Rightarrow> QueueEntry list \<Rightarrow> AdmissionContext \<Rightarrow> policy_error + ScheduleReceipt option"
where
  "select_next H queue_snapshot ctx = guarded
    (validate_snapshot queue_snapshot @ validate_admission_context ctx)
    (let candidates = filter (\<lambda>e. qe_state e = QUEUED) queue_snapshot;
         active_hard = map casefold (ac_active_hard_conflict_keys ctx);
         active_advisory = map casefold (ac_advisory_conflict_keys ctx);
         eligible1 = filter (\<lambda>e. \<not> has_active_hard_conflict e active_hard) candidates;
         blocked = filter (\<lambda>e. check_advisory_blocked e ctx active_advisory) eligible1;
         advisory_authorized_entries = map qe_queue_id
           (filter (\<lambda>e. \<not> check_advisory_blocked e ctx active_advisory) eligible1);
         eligible2 = filter (\<lambda>e. qe_queue_id e \<notin> set (map qe_queue_id blocked)) eligible1;
         eligible3 = filter (\<lambda>e. qe_worker_kind_request e \<in> set (ac_available_worker_kinds ctx)) eligible2
     in if candidates = [] then Inr None
        else if eligible1 = [] then Inr None
        else if eligible2 = [] then Inr None
        else if eligible3 = [] then Inr None
        else choose_receipt H eligible3 advisory_authorized_entries ctx)"

section \<open>The abstract choice\<close>

text \<open>What makes an entry eligible, without lists or sets of identities.\<close>

definition authorizes :: "AdvisoryAuthorization \<Rightarrow> QueueEntry \<Rightarrow> bool" where
  "authorizes a e \<longleftrightarrow> aa_queue_id a = qe_queue_id e
     \<or> aa_task_id a = qe_task_id e \<and> aa_revision a = qe_revision e"

definition advisory_overlap :: "AdmissionContext \<Rightarrow> QueueEntry \<Rightarrow> string set" where
  "advisory_overlap ctx e =
     {casefold (ck_value ck) | ck. ck \<in> set (qe_conflict_keys e) \<and> ck_classification ck = ADVISORY}
     \<inter> casefold ` set (ac_advisory_conflict_keys ctx)"

definition hard_clear :: "AdmissionContext \<Rightarrow> QueueEntry \<Rightarrow> bool" where
  "hard_clear ctx e \<longleftrightarrow> (\<forall>ck \<in> set (qe_conflict_keys e). ck_classification ck = HARD_EXCLUSIVE \<longrightarrow>
     casefold (ck_value ck) \<notin> casefold ` set (ac_active_hard_conflict_keys ctx))"

definition advisory_clear :: "AdmissionContext \<Rightarrow> QueueEntry \<Rightarrow> bool" where
  "advisory_clear ctx e \<longleftrightarrow> advisory_overlap ctx e = {} \<or>
     (\<exists>a \<in> set (ac_advisory_authorizations ctx).
        casefold (aa_authorized_by a) \<in> advisory_overlap ctx e \<and> authorizes a e)"

definition eligible :: "AdmissionContext \<Rightarrow> QueueEntry \<Rightarrow> bool" where
  "eligible ctx e \<longleftrightarrow> qe_state e = QUEUED \<and> hard_clear ctx e \<and> advisory_clear ctx e
     \<and> qe_worker_kind_request e \<in> set (ac_available_worker_kinds ctx)"

text \<open>The order of selection: priority, then age, then arrival.\<close>

definition urgency :: "QueueEntry \<Rightarrow> nat \<times> string \<times> int" where
  "urgency e = (PRIORITY_RANK (qe_business_priority e), aging_key e)"

definition aging_rank_in :: "QueueEntry set \<Rightarrow> QueueEntry \<Rightarrow> nat" where
  "aging_rank_in E e =
     card {x \<in> E. qe_business_priority x = qe_business_priority e \<and> aging_key x < aging_key e}"

section \<open>The filters\<close>

definition snapshot_ok :: "QueueEntry list \<Rightarrow> bool" where
  "snapshot_ok es \<longleftrightarrow> distinct (map qe_queue_id es) \<and> distinct (map qe_enqueue_sequence es)
     \<and> (\<forall>e \<in> set es. \<forall>ck \<in> set (qe_conflict_keys e).
          ck_classification ck \<noteq> UNKNOWN \<and> casefold (ck_value ck) \<noteq> GLOBAL_KEY_CASEFOLD)"

lemma validate_snapshot_from_None: "raise_first (validate_snapshot_from ids seqs es) = None \<longleftrightarrow>
    snapshot_ok es \<and> set ids \<inter> qe_queue_id ` set es = {} \<and> set seqs \<inter> qe_enqueue_sequence ` set es = {}"
  by (induction ids seqs es rule: validate_snapshot_from.induct)
    (auto simp: snapshot_ok_def snapshot_key_guards_def)

lemma validate_snapshot_None: "raise_first (validate_snapshot es) = None \<longleftrightarrow> snapshot_ok es"
  by (simp add: validate_snapshot_def validate_snapshot_from_None)

lemma has_active_hard_conflict_iff: "has_active_hard_conflict e (map casefold (ac_active_hard_conflict_keys ctx))
    \<longleftrightarrow> \<not> hard_clear ctx e"
proof -
  have "has_active_hard_conflict_in cks active \<longleftrightarrow>
      (\<exists>ck \<in> set cks. ck_classification ck = HARD_EXCLUSIVE \<and> casefold (ck_value ck) \<in> set active)"
    for cks active by (induction cks) auto
  then show ?thesis by (auto simp: has_active_hard_conflict_def hard_clear_def)
qed

lemma advisory_authorized_iff: "advisory_authorized e keys auths \<longleftrightarrow>
    (\<exists>a \<in> set auths. casefold (aa_authorized_by a) \<in> set keys \<and> authorizes a e)"
  by (induction auths) (auto simp: authorizes_def)

lemma check_advisory_blocked_iff: "check_advisory_blocked e ctx (map casefold (ac_advisory_conflict_keys ctx))
    \<longleftrightarrow> \<not> advisory_clear ctx e"
proof -
  have overlap: "set (filter (\<lambda>k. k \<in> set (map casefold (ac_advisory_conflict_keys ctx))) (advisory_entry_keys e)) =
      advisory_overlap ctx e"
    by (auto simp: advisory_entry_keys_def advisory_overlap_def)
  then have "filter (\<lambda>k. k \<in> set (map casefold (ac_advisory_conflict_keys ctx))) (advisory_entry_keys e) = []
      \<longleftrightarrow> advisory_overlap ctx e = {}"
    by (metis set_empty)
  with overlap show ?thesis
    unfolding check_advisory_blocked_def advisory_clear_def Let_def advisory_authorized_iff
    by (metis filter.simps(1))
qed

lemma distinct_key_eq: "distinct (map f xs) \<Longrightarrow> x \<in> set xs \<Longrightarrow> y \<in> set xs \<Longrightarrow> f x = f y \<Longrightarrow> x = y"
  by (auto simp: distinct_map dest: inj_onD)

lemma select_next_filters: "select_next H snapshot ctx = guarded
    (validate_snapshot snapshot @ validate_admission_context ctx)
    (if filter (eligible ctx) snapshot = [] then Inr None
     else choose_receipt H (filter (eligible ctx) snapshot)
       (map qe_queue_id (filter (\<lambda>e. qe_state e = QUEUED \<and> hard_clear ctx e \<and> advisory_clear ctx e) snapshot))
       ctx)"
proof (cases "raise_first (validate_snapshot snapshot @ validate_admission_context ctx)")
  case None
  then have ids: "distinct (map qe_queue_id snapshot)"
    by (simp add: validate_snapshot_None snapshot_ok_def)
  let ?hard = "map casefold (ac_active_hard_conflict_keys ctx)"
  let ?advisory = "map casefold (ac_advisory_conflict_keys ctx)"
  define c where "c = filter (\<lambda>e. qe_state e = QUEUED) snapshot"
  define e1 where "e1 = filter (\<lambda>e. \<not> has_active_hard_conflict e ?hard) c"
  define blocked where "blocked = filter (\<lambda>e. check_advisory_blocked e ctx ?advisory) e1"
  define auth where "auth = filter (\<lambda>e. \<not> check_advisory_blocked e ctx ?advisory) e1"
  define e2 where "e2 = filter (\<lambda>e. qe_queue_id e \<notin> set (map qe_queue_id blocked)) e1"
  define e3 where "e3 = filter (\<lambda>e. qe_worker_kind_request e \<in> set (ac_available_worker_kinds ctx)) e2"
  have select: "select_next H snapshot ctx = guarded
      (validate_snapshot snapshot @ validate_admission_context ctx)
      (if c = [] then Inr None else if e1 = [] then Inr None else if e2 = [] then Inr None
       else if e3 = [] then Inr None else choose_receipt H e3 (map qe_queue_id auth) ctx)"
    unfolding select_next_def Let_def c_def e1_def blocked_def auth_def e2_def e3_def ..
  have e1: "e1 = filter (\<lambda>e. qe_state e = QUEUED \<and> hard_clear ctx e) snapshot"
    by (simp add: e1_def c_def has_active_hard_conflict_iff conj_commute)
  have auth: "auth = filter (\<lambda>e. qe_state e = QUEUED \<and> hard_clear ctx e \<and> advisory_clear ctx e) snapshot"
    by (simp add: auth_def e1 check_advisory_blocked_iff conj_ac)
  have "qe_queue_id e \<notin> set (map qe_queue_id blocked) \<longleftrightarrow> advisory_clear ctx e" if "e \<in> set e1" for e
    using that distinct_key_eq [OF ids] by (auto simp: blocked_def e1 check_advisory_blocked_iff)
  from filter_cong [OF refl this] have e2: "e2 = filter (advisory_clear ctx) e1" by (simp add: e2_def)
  have e3: "e3 = filter (eligible ctx) snapshot"
    by (auto simp: e3_def e2 e1 eligible_def intro!: filter_cong)
  have "c = [] \<Longrightarrow> e3 = []" "e1 = [] \<Longrightarrow> e3 = []" "e2 = [] \<Longrightarrow> e3 = []"
    by (simp_all add: e3_def e2_def e1_def)
  then show ?thesis unfolding select auth e3 [symmetric] by auto
next
  case (Some e)
  then show ?thesis by (simp add: select_next_def)
qed

section \<open>Ageing ranks\<close>

lemma by_priority_get: "dict_get (by_priority cs) p =
    (if filter (\<lambda>e. qe_business_priority e = p) cs = [] then None
     else Some (filter (\<lambda>e. qe_business_priority e = p) cs))"
  by (induction cs rule: rev_induct) (auto simp: by_priority_def dict_simps)

lemma by_priority_ok: "dict_ok (by_priority cs)"
  by (induction cs rule: rev_induct) (simp_all add: by_priority_def)

lemma by_priority_member: "(p, es) \<in> set (by_priority cs) \<longleftrightarrow>
    es = filter (\<lambda>e. qe_business_priority e = p) cs \<and> es \<noteq> []"
  using dict_get_eq_Some_iff [OF by_priority_ok, of cs p es] by (auto simp: by_priority_get split: if_splits)

definition assign_ranks :: "QueueEntry list \<Rightarrow> nat \<Rightarrow> (string, nat) dict \<Rightarrow> (string, nat) dict" where
  "assign_ranks es n ranks =
     foldl (\<lambda>ranks (ordinal, e). dict_set (qe_queue_id e) ordinal ranks) ranks (List.enumerate n es)"

lemma assign_ranks_other:
  "k \<notin> qe_queue_id ` set es \<Longrightarrow> dict_get (assign_ranks es n ranks) k = dict_get ranks k"
  by (induction es arbitrary: n ranks) (auto simp: assign_ranks_def dict_simps)

lemma assign_ranks_nth:
  "distinct (map qe_queue_id es) \<Longrightarrow> i < length es \<Longrightarrow>
     dict_get (assign_ranks es n ranks) (qe_queue_id (es ! i)) = Some (n + i)"
proof (induction es arbitrary: n ranks i)
  case (Cons e es)
  have step: "assign_ranks (e # es) n ranks = assign_ranks es (Suc n) (dict_set (qe_queue_id e) n ranks)"
    by (simp add: assign_ranks_def)
  show ?case
  proof (cases i)
    case 0
    with Cons.prems show ?thesis by (simp add: step assign_ranks_other dict_simps)
  next
    case (Suc j)
    with Cons show ?thesis by (simp add: step)
  qed
qed simp

definition rank_groups :: "(BusinessPriority \<times> QueueEntry list) list \<Rightarrow> (string, nat) dict" where
  "rank_groups gs = foldl (\<lambda>ranks (p, es). assign_ranks (sort_key aging_key es) 0 ranks) [] gs"

lemma compute_aging_ranks_groups: "compute_aging_ranks cs = rank_groups (by_priority cs)"
  by (simp add: compute_aging_ranks_def rank_groups_def assign_ranks_def)

lemma rank_groups_nth:
  assumes "distinct (map qe_queue_id cs)"
    and "\<forall>(p, es) \<in> set gs. es = filter (\<lambda>e. qe_business_priority e = p) cs"
    and "distinct (map fst gs)" and "(p, es) \<in> set gs" and "i < length es"
  shows "dict_get (rank_groups gs) (qe_queue_id (sort_key aging_key es ! i)) = Some i"
  using assms(2-4)
proof (induction gs rule: rev_induct)
  case (snoc g gs)
  obtain q fs where g: "g = (q, fs)" by (cases g)
  have step: "rank_groups (gs @ [g]) = assign_ranks (sort_key aging_key fs) 0 (rank_groups gs)"
    by (simp add: rank_groups_def g)
  have mem: "sort_key aging_key es ! i \<in> set es"
    using nth_mem [of i "sort_key aging_key es"] assms(5) by simp
  show ?case
  proof (cases "(p, es) = g")
    case True
    have "distinct (map qe_queue_id (sort_key aging_key es))"
      using assms(1) True g snoc.prems(1) by (auto simp: distinct_map intro: inj_on_subset)
    moreover from True g have "es = fs" by simp
    ultimately show ?thesis using assms(5) by (simp add: step assign_ranks_nth)
  next
    case False
    with snoc.prems have in_gs: "(p, es) \<in> set gs" by auto
    then have "p \<noteq> q" using snoc.prems(2) g by force
    have "qe_queue_id (sort_key aging_key es ! i) \<notin> qe_queue_id ` set (sort_key aging_key fs)"
    proof
      assume "qe_queue_id (sort_key aging_key es ! i) \<in> qe_queue_id ` set (sort_key aging_key fs)"
      then obtain f where "f \<in> set fs" "qe_queue_id (sort_key aging_key es ! i) = qe_queue_id f" by auto
      moreover have "f \<in> set cs \<and> qe_business_priority f = q"
        "sort_key aging_key es ! i \<in> set cs \<and> qe_business_priority (sort_key aging_key es ! i) = p"
        using snoc.prems(1) in_gs g \<open>f \<in> set fs\<close> mem by auto
      ultimately show False using distinct_key_eq [OF assms(1)] \<open>p \<noteq> q\<close> by metis
    qed
    with snoc in_gs show ?thesis by (simp add: step assign_ranks_other)
  qed
qed simp

lemma aging_rank_get:
  assumes "distinct (map qe_queue_id cs)" and "distinct (map qe_enqueue_sequence cs)" and "e \<in> set cs"
  shows "dict_get (compute_aging_ranks cs) (qe_queue_id e) = Some (aging_rank_in (set cs) e)"
proof -
  let ?es = "filter (\<lambda>x. qe_business_priority x = qe_business_priority e) cs"
  have "e \<in> set (sort_key aging_key ?es)" using assms(3) by simp
  then obtain i where i: "i < length ?es" "sort_key aging_key ?es ! i = e"
    by (metis in_set_conv_nth length_sort)
  have "distinct (map aging_key ?es)"
    using assms(2) by (auto simp: distinct_map aging_key_def inj_on_def dest: distinct_filter)
  from sort_key_position [OF this i(1)] i(2)
  have "i = card {x \<in> set ?es. aging_key x < aging_key e}" by simp
  also have "{x \<in> set ?es. aging_key x < aging_key e} =
      {x \<in> set cs. qe_business_priority x = qe_business_priority e \<and> aging_key x < aging_key e}" by auto
  finally have rank: "i = aging_rank_in (set cs) e" by (simp add: aging_rank_in_def)
  have "(qe_business_priority e, ?es) \<in> set (by_priority cs)"
    using assms(3) by (auto simp: by_priority_member filter_empty_conv)
  then have "dict_get (rank_groups (by_priority cs)) (qe_queue_id (sort_key aging_key ?es ! i)) = Some i"
    using by_priority_ok [of cs] assms(1) i(1)
    by (intro rank_groups_nth [of cs]) (auto simp: by_priority_member dict_ok_def dict_keys_def)
  with i(2) rank show ?thesis by (simp add: compute_aging_ranks_groups)
qed

section \<open>The chosen entry\<close>

definition most_urgent :: "QueueEntry set \<Rightarrow> QueueEntry \<Rightarrow> bool" where
  "most_urgent E e \<longleftrightarrow> e \<in> E \<and> (\<forall>x \<in> E. urgency e \<le> urgency x)"

lemma most_urgent_exists: "finite E \<Longrightarrow> E \<noteq> {} \<Longrightarrow> \<exists>e. most_urgent E e"
  using ex_min_if_finite [of "urgency ` E"] by (force simp: most_urgent_def not_less)

lemma most_urgent_rank: "most_urgent E e \<Longrightarrow> aging_rank_in E e = 0"
proof -
  assume "most_urgent E e"
  then have "{x \<in> E. qe_business_priority x = qe_business_priority e \<and> aging_key x < aging_key e} = {}"
    by (auto simp: most_urgent_def urgency_def)
  then show ?thesis unfolding aging_rank_in_def by (simp only: card.empty)
qed

lemma most_urgent_key:
  assumes "most_urgent (set cs) e" and "x \<in> set cs" and "x \<noteq> e"
    and "distinct (map qe_enqueue_sequence cs)"
  shows "order_key e (aging_rank_in (set cs) e) < order_key x (aging_rank_in (set cs) x)"
proof -
  from assms have e: "e \<in> set cs" and le: "urgency e \<le> urgency x" by (auto simp: most_urgent_def)
  have "aging_key e \<noteq> aging_key x"
    using assms(3) distinct_key_eq [OF assms(4) e assms(2)] by (auto simp: aging_key_def)
  moreover have "PRIORITY_RANK (qe_business_priority e) \<le> PRIORITY_RANK (qe_business_priority x)"
    "PRIORITY_RANK (qe_business_priority e) < PRIORITY_RANK (qe_business_priority x)
      \<or> aging_key e \<le> aging_key x"
    using le by (auto simp: urgency_def)
  ultimately consider "PRIORITY_RANK (qe_business_priority e) < PRIORITY_RANK (qe_business_priority x)"
    | "qe_business_priority e = qe_business_priority x" "aging_key e < aging_key x"
    by (metis order_le_imp_less_or_eq priority.rank_inject)
  then show ?thesis
  proof cases
    case 1
    then show ?thesis by (simp add: order_key_def)
  next
    case 2
    have "e \<in> {y \<in> set cs. qe_business_priority y = qe_business_priority x \<and> aging_key y < aging_key x}"
      using e 2 by simp
    then have "0 < aging_rank_in (set cs) x"
      unfolding aging_rank_in_def by (subst card_gt_0_iff) (auto simp: finite_subset)
    with 2 most_urgent_rank [OF assms(1)] show ?thesis by (simp add: order_key_def)
  qed
qed

definition receipt_for ::
  "(string \<Rightarrow> string) \<Rightarrow> QueueEntry \<Rightarrow> AdmissionContext \<Rightarrow> policy_error + ScheduleReceipt option"
where
  "receipt_for H e ctx = map_error StoreError (and_then
     (build_receipt H e (order_key e 0) (ac_evaluated_at ctx) (build_selection_reason e 0 True))
     (\<lambda>r. Inr (Some r)))"

lemma choose_most_urgent:
  assumes "distinct (map qe_queue_id cs)" and seqs: "distinct (map qe_enqueue_sequence cs)"
    and e: "most_urgent (set cs) e" and "qe_queue_id e \<in> set ids" and "1 \<le> ac_max_selections ctx"
  shows "choose_receipt H cs ids ctx = receipt_for H e ctx"
proof -
  define rank_of where "rank_of = (\<lambda>e :: QueueEntry. case dict_get (compute_aging_ranks cs) (qe_queue_id e) of
      None \<Rightarrow> 0 | Some i \<Rightarrow> i)"
  have rank: "rank_of x = aging_rank_in (set cs) x" if "x \<in> set cs" for x
    using aging_rank_get [OF assms(1) seqs that] by (simp add: rank_of_def)
  have mem: "e \<in> set cs" using e by (simp add: most_urgent_def)
  have "\<exists>ys. sort_key (\<lambda>e. order_key e (rank_of e)) cs = e # ys"
    using mem most_urgent_key [OF e _ _ seqs] rank by (intro hd_sort_key_least) auto
  then obtain ys where ys: "sort_key (\<lambda>e. order_key e (rank_of e)) cs = e # ys" by blast
  have "\<exists>zs. take (nat (ac_max_selections ctx)) (e # ys) = e # zs"
    using assms(5) by (cases "nat (ac_max_selections ctx)") auto
  then obtain zs where zs: "take (nat (ac_max_selections ctx)) (e # ys) = e # zs" by blast
  have "rank_of e = 0" using rank [OF mem] most_urgent_rank [OF e] by simp
  moreover have "choose_receipt H cs ids ctx =
      (case take (nat (ac_max_selections ctx)) (sort_key (\<lambda>e. order_key e (rank_of e)) cs) of
         [] \<Rightarrow> Inr None
       | chosen # _ \<Rightarrow> map_error StoreError (and_then
           (build_receipt H chosen (order_key chosen (rank_of chosen)) (ac_evaluated_at ctx)
             (build_selection_reason chosen (rank_of chosen) (qe_queue_id chosen \<in> set ids)))
           (\<lambda>r. Inr (Some r))))"
    by (simp only: choose_receipt_def Let_def rank_of_def)
  ultimately show ?thesis using assms(4) by (simp add: ys zs receipt_for_def)
qed

text \<open>Everything \<open>select_next\<close> does, in terms of the set of the snapshot's entries.\<close>

definition eligible_set :: "AdmissionContext \<Rightarrow> QueueEntry list \<Rightarrow> QueueEntry set" where
  "eligible_set ctx snapshot = {e \<in> set snapshot. eligible ctx e}"

lemma select_next_empty:
  assumes "snapshot_ok snapshot" and "ac_policy_version ctx = SCHEMA_VERSION"
    and "eligible_set ctx snapshot = {}"
  shows "select_next H snapshot ctx = Inr None"
  using assms
  by (auto simp: select_next_filters validate_snapshot_None validate_admission_context_def
      eligible_set_def filter_empty_conv)

lemma select_next_most_urgent:
  assumes "snapshot_ok snapshot" and "ac_policy_version ctx = SCHEMA_VERSION"
    and "1 \<le> ac_max_selections ctx" and e: "most_urgent (eligible_set ctx snapshot) e"
  shows "select_next H snapshot ctx = receipt_for H e ctx"
proof -
  have set: "set (filter (eligible ctx) snapshot) = eligible_set ctx snapshot"
    by (simp add: eligible_set_def)
  have mem: "e \<in> set snapshot" "eligible ctx e"
    using e by (auto simp: most_urgent_def eligible_set_def)
  have "choose_receipt H (filter (eligible ctx) snapshot)
      (map qe_queue_id (filter (\<lambda>e. qe_state e = QUEUED \<and> hard_clear ctx e \<and> advisory_clear ctx e) snapshot))
      ctx = receipt_for H e ctx"
  proof (rule choose_most_urgent)
    show "most_urgent (set (filter (eligible ctx) snapshot)) e" unfolding set by (rule e)
  qed (use assms(1,3) mem in
        \<open>auto simp: snapshot_ok_def eligible_def distinct_map intro: inj_on_subset\<close>)
  moreover have "filter (eligible ctx) snapshot \<noteq> []" using mem by (auto simp: filter_empty_conv)
  ultimately show ?thesis
    using assms by (simp add: select_next_filters validate_snapshot_None validate_admission_context_def)
qed

lemma select_next_cases:
  assumes "select_next H snapshot ctx = Inr x" and "1 \<le> ac_max_selections ctx"
  obtains (none) "x = None" "snapshot_ok snapshot" "ac_policy_version ctx = SCHEMA_VERSION"
      "eligible_set ctx snapshot = {}"
    | (chosen) e where "snapshot_ok snapshot" "ac_policy_version ctx = SCHEMA_VERSION"
      "most_urgent (eligible_set ctx snapshot) e" "receipt_for H e ctx = Inr x"
proof -
  have ok: "snapshot_ok snapshot" "ac_policy_version ctx = SCHEMA_VERSION"
    using assms(1) by (auto simp: select_next_def res_simps validate_snapshot_None validate_admission_context_def)
  show thesis
  proof (cases "eligible_set ctx snapshot = {}")
    case True
    with ok assms show ?thesis using select_next_empty [OF ok True] by (intro none) auto
  next
    case False
    then obtain e where e: "most_urgent (eligible_set ctx snapshot) e"
      using most_urgent_exists [of "eligible_set ctx snapshot"] by (auto simp: eligible_set_def)
    with select_next_most_urgent [OF ok assms(2) e] assms(1) ok show ?thesis by (intro chosen) auto
  qed
qed

section \<open>The receipt of the chosen entry\<close>

definition selected_receipt ::
  "QueueEntry \<Rightarrow> int \<times> int \<times> int \<times> string \<Rightarrow> string \<Rightarrow> string \<Rightarrow> string \<Rightarrow> ScheduleReceipt"
where
  "selected_receipt e k t reason digest =
     \<lparr>sr_schema_version = SCHEMA_VERSION, sr_receipt_id = deterministic_receipt_id e,
      sr_queue_id = qe_queue_id e, sr_task_id = qe_task_id e, sr_revision = qe_revision e,
      sr_enqueue_sequence = qe_enqueue_sequence e, sr_selected_at = t,
      sr_order_key = k, sr_selection_reason = reason,
      sr_worker_kind = qe_worker_kind_request e, sr_dispatch_event_id = None,
      sr_phase = RECEIPT_SELECTED, sr_content_digest = digest,
      sr_selection_generation = qe_selection_generation e\<rparr>"

definition zero_digest :: string where
  "zero_digest = ''sha256:'' @ replicate 64 (CHR ''0'')"

lemma selected_receipt_update:
  "(selected_receipt e k t reason d)\<lparr>sr_content_digest := d'\<rparr> = selected_receipt e k t reason d'"
  by (simp add: selected_receipt_def)

lemma selected_receipt_digest:
  "receipt_digest H (selected_receipt e k t reason d) = receipt_digest H (selected_receipt e k t reason d')"
  using receipt_lines_ignores_digest [of d' "selected_receipt e k t reason d"]
  by (simp add: receipt_digest_def selected_receipt_update)

lemma make_schedule_receipt_Inr: "make_schedule_receipt r = Inr r' \<longleftrightarrow> receipt_valid r \<and> r' = r"
  by (auto simp: make_schedule_receipt_def receipt_valid_def res_simps)

lemma build_receipt_iff: "build_receipt H e k t reason = Inr r \<longleftrightarrow>
    receipt_valid (selected_receipt e k t reason zero_digest) \<and> receipt_valid r
    \<and> r = selected_receipt e k t reason (receipt_digest H (selected_receipt e k t reason zero_digest))"
  unfolding build_receipt_def selected_receipt_def [symmetric] zero_digest_def [symmetric]
    and_then_Inr_iff make_schedule_receipt_Inr
  by (metis selected_receipt_update)

lemma build_receipt_Inr:
  assumes "build_receipt H e k t reason = Inr r"
  shows "receipt_valid r" "sr_content_digest r = receipt_digest H r"
    "sr_receipt_id r = deterministic_receipt_id e" "sr_queue_id r = qe_queue_id e"
    "sr_task_id r = qe_task_id e" "sr_revision r = qe_revision e"
    "sr_enqueue_sequence r = qe_enqueue_sequence e" "sr_selected_at r = t"
    "sr_order_key r = k" "sr_selection_reason r = reason"
    "sr_worker_kind r = qe_worker_kind_request e" "sr_dispatch_event_id r = None"
    "sr_phase r = RECEIPT_SELECTED" "sr_selection_generation r = qe_selection_generation e"
proof -
  from assms have r: "r = selected_receipt e k t reason (receipt_digest H (selected_receipt e k t reason zero_digest))"
    and valid: "receipt_valid r" using build_receipt_iff by blast+
  show "receipt_valid r" by (rule valid)
  have "receipt_digest H r = receipt_digest H (selected_receipt e k t reason zero_digest)"
    unfolding r by (rule selected_receipt_digest)
  also have "\<dots> = sr_content_digest r" unfolding r by (simp add: selected_receipt_def)
  finally show "sr_content_digest r = receipt_digest H r" ..
qed (use assms in \<open>auto simp: build_receipt_iff selected_receipt_def\<close>)

lemma receipt_valid_digest:
  assumes "receipt_valid r" and "raise_first (validate_digest d ''content_digest'') = None"
  shows "receipt_valid (r\<lparr>sr_content_digest := d\<rparr>)"
  using assms by (simp add: receipt_valid_def validate_schedule_receipt_fields_def split: prod.splits)

lemma receipt_for_Inr: "receipt_for H e ctx = Inr x \<longleftrightarrow>
    (\<exists>r. x = Some r \<and> build_receipt H e (order_key e 0) (ac_evaluated_at ctx)
       (build_selection_reason e 0 True) = Inr r)"
  by (auto simp: receipt_for_def map_error_def res_simps split: sum.splits)

lemma make_context_max: "make_context ctx = Inr x \<Longrightarrow> 1 \<le> ac_max_selections ctx"
  by (auto simp: make_context_def res_simps)

lemma safe_tail_digits: "list_all is_digit s \<Longrightarrow> list_all (\<lambda>x. is_alnum x \<or> x \<in> set ''._-'') s"
  by (auto simp: list_all_iff is_digit_def is_alnum_def Let_def)

lemma safe_not_path: "SAFE_ID_RE s \<Longrightarrow> \<not> has_char [CHR 0x2F, CHR 0x5C] s"
  by (auto simp: SAFE_ID_RE_def has_char_def list_ex_iff list_all_iff is_alnum_def split: list.splits)

lemma safe_plain: "SAFE_ID_RE s \<Longrightarrow> plain s"
  by (auto simp: SAFE_ID_RE_def plain_def list_all_iff is_alnum_def is_control_def Let_def split: list.splits)

lemma not_reserved_dash: "takeWhile (\<lambda>c. c \<noteq> CHR ''.'') (casefold (a # b # CHR ''-'' # s))
    \<notin> set RESERVED_WINDOWS_NAMES" if "a \<noteq> CHR ''.''" "b \<noteq> CHR ''.''"
    "py_lower a \<noteq> CHR ''.''" "py_lower b \<noteq> CHR ''.''"
proof -
  have "py_lower (CHR ''-'') = CHR ''-''" by (simp add: py_lower_def)
  then show ?thesis using that by (simp add: RESERVED_WINDOWS_NAMES_code casefold_def)
qed

lemma deterministic_id_valid:
  assumes "entry_valid e"
  shows "raise_first (validate_id (deterministic_receipt_id e) ''receipt_id'' (Some ''SR-'')) = None"
proof -
  have "raise_first (validate_id (qe_queue_id e) ''queue_id'' (Some ''Q-'')) = None"
    and pos: "0 \<le> qe_enqueue_sequence e" "0 \<le> qe_selection_generation e"
    using assms by (simp_all add: entry_valid_def validate_queue_entry_fields_def)
  then have "SAFE_ID_RE (qe_queue_id e)" by (simp add: validate_id_def)
  then have "list_all (\<lambda>x. is_alnum x \<or> x \<in> set ''._-'') (drop 2 (qe_queue_id e))"
    by (auto simp: SAFE_ID_RE_def list_all_iff dest: in_set_dropD split: list.splits)
  moreover have "list_all (\<lambda>x. is_alnum x \<or> x \<in> set ''._-'') (show_int i)" if "0 \<le> i" for i
    using that safe_tail_digits [OF show_nat_digits] by (simp add: show_int_def)
  ultimately have safe: "SAFE_ID_RE (deterministic_receipt_id e)"
    using pos by (simp add: SAFE_ID_RE_def deterministic_receipt_id_def is_alnum_def)
  have "takeWhile (\<lambda>c. c \<noteq> CHR ''.'') (casefold (deterministic_receipt_id e)) \<notin> set RESERVED_WINDOWS_NAMES"
    unfolding deterministic_receipt_id_def append_Cons append_Nil
    by (rule not_reserved_dash) code_simp+
  with safe safe_plain [OF safe] safe_not_path [OF safe] show ?thesis
    by (simp add: validate_id_def) (simp add: deterministic_receipt_id_def)
qed

lemma plain_reason: "plain (build_selection_reason e n b) \<and> build_selection_reason e n b \<noteq> []"
  using plain_enum_values(1) [of "qe_business_priority e"]
  by (auto simp: build_selection_reason_def is_control_def)

lemma receipt_for_total:
  assumes e: "entry_valid e" and "hexdigest H"
    and time: "raise_first (validate_timestamp (ac_evaluated_at ctx) ''selected_at'') = None"
  shows "\<exists>r. receipt_for H e ctx = Inr (Some r)"
proof -
  have qid: "raise_first (validate_id (qe_queue_id e) code (Some ''Q-'')) = None" for code
    using e by (simp add: entry_valid_def validate_queue_entry_fields_def validate_id_def)
  have tid: "raise_first (validate_id (qe_task_id e) ''task_id'' None) = None"
    and ints: "1 \<le> qe_revision e" "1 \<le> qe_enqueue_sequence e" "1 \<le> qe_selection_generation e"
    using e by (simp_all add: entry_valid_def validate_queue_entry_fields_def validate_id_def)
  let ?r = "selected_receipt e (order_key e 0) (ac_evaluated_at ctx) (build_selection_reason e 0 True)"
  have "raise_first (validate_digest zero_digest ''content_digest'') = None" by code_simp
  then have valid: "receipt_valid (?r zero_digest)"
    using qid tid ints time deterministic_id_valid [OF e] plain_reason
    by (simp add: receipt_valid_def selected_receipt_def validate_schedule_receipt_fields_def
        order_key_def validate_selection_reason_def)
  have "receipt_valid ((?r zero_digest)\<lparr>sr_content_digest := receipt_digest H (?r zero_digest)\<rparr>)"
    by (rule receipt_valid_digest [OF valid])
      (simp only: receipt_digest_def hexdigest_valid [OF assms(2)])
  with valid show ?thesis by (simp add: receipt_for_Inr build_receipt_iff selected_receipt_update)
qed

text \<open>The last occurrence of a separator splits a string in one way.\<close>

lemma last_separator:
  "xs @ c # ds = ys @ c # es \<Longrightarrow> c \<notin> set ds \<Longrightarrow> c \<notin> set es \<Longrightarrow> xs = ys \<and> ds = es"
proof (induction xs arbitrary: ys)
  case Nil
  then show ?case by (cases ys) auto
next
  case (Cons x xs)
  then show ?case by (cases ys) auto
qed

lemma show_int_no_dash: "0 \<le> i \<Longrightarrow> CHR ''-'' \<notin> set (show_int i)"
  using show_nat_digits [of "nat i"] by (auto simp: show_int_def list_all_iff is_digit_def)

lemma show_int_inject: "0 \<le> i \<Longrightarrow> 0 \<le> j \<Longrightarrow> show_int i = show_int j \<longleftrightarrow> i = j"
  by (auto simp: show_int_def)

lemma starts_with_Q: "starts_with ''Q-'' s \<Longrightarrow> s = ''Q-'' @ drop 2 s"
  using starts_with_drop [of "''Q-''" s] by (simp add: numeral_2_eq_2)

section \<open>Properties\<close>

text \<open>
  C20. Selection is safe and binding.  A receipt names an entry of the snapshot that is queued,
  whose worker kind is available, none of whose exclusive conflict keys is active, and whose
  advisory conflicts, if any, carry an authorisation for that entry; no other such entry comes
  before it by priority, age and arrival; and the receipt repeats the entry's identity, is
  valid, and carries the digest of its own content.
\<close>

theorem selection_sound:
  assumes "make_context ctx = Inr ctx" and "select_next H snapshot ctx = Inr (Some r)"
  shows "\<exists>e \<in> set snapshot.
      qe_state e = QUEUED
    \<and> qe_worker_kind_request e \<in> set (ac_available_worker_kinds ctx)
    \<and> (\<forall>ck \<in> set (qe_conflict_keys e). ck_classification ck = HARD_EXCLUSIVE \<longrightarrow>
         casefold (ck_value ck) \<notin> casefold ` set (ac_active_hard_conflict_keys ctx))
    \<and> (advisory_overlap ctx e = {} \<or> (\<exists>a \<in> set (ac_advisory_authorizations ctx).
         casefold (aa_authorized_by a) \<in> advisory_overlap ctx e \<and> authorizes a e))
    \<and> (\<forall>x \<in> set snapshot. eligible ctx x \<longrightarrow> urgency e \<le> urgency x)
    \<and> (sr_queue_id r, sr_task_id r, sr_revision r, sr_enqueue_sequence r, sr_selection_generation r) =
        (qe_queue_id e, qe_task_id e, qe_revision e, qe_enqueue_sequence e, qe_selection_generation e)
    \<and> sr_worker_kind r = qe_worker_kind_request e \<and> sr_phase r = RECEIPT_SELECTED
    \<and> sr_selected_at r = ac_evaluated_at ctx
    \<and> encode_schedule_receipt H r = Inr (finish (receipt_lines r True []))"
  using assms(2) make_context_max [OF assms(1)]
proof (cases rule: select_next_cases)
  case (chosen e)
  then have e: "e \<in> set snapshot" "eligible ctx e" "\<And>x. x \<in> set snapshot \<Longrightarrow> eligible ctx x \<Longrightarrow> urgency e \<le> urgency x"
    by (auto simp: most_urgent_def eligible_set_def)
  from chosen(4) have "build_receipt H e (order_key e 0) (ac_evaluated_at ctx) (build_selection_reason e 0 True) = Inr r"
    by (simp add: receipt_for_Inr)
  note r = build_receipt_Inr [OF this]
  show ?thesis
    by (rule bexI [OF _ e(1)])
      (use e(2,3) r in \<open>simp add: eligible_def hard_clear_def advisory_clear_def encode_receipt_iff\<close>)
qed simp

text \<open>
  C32. Selection is live and total: on a snapshot of valid entries with distinct identities,
  with a well-formed evaluation time, it never fails, and it returns no receipt only when no
  entry is eligible.
\<close>

theorem selection_live:
  assumes "make_context ctx = Inr ctx" and "ac_policy_version ctx = SCHEMA_VERSION"
    and "snapshot_ok snapshot" and "\<forall>e \<in> set snapshot. entry_valid e" and "hexdigest H"
    and "raise_first (validate_timestamp (ac_evaluated_at ctx) ''selected_at'') = None"
  shows "if \<exists>e \<in> set snapshot. eligible ctx e then \<exists>r. select_next H snapshot ctx = Inr (Some r)
         else select_next H snapshot ctx = Inr None"
proof (cases "eligible_set ctx snapshot = {}")
  case True
  with select_next_empty [OF assms(3,2) True] show ?thesis by (auto simp: eligible_set_def)
next
  case False
  then obtain e where e: "most_urgent (eligible_set ctx snapshot) e"
    using most_urgent_exists [of "eligible_set ctx snapshot"] by (auto simp: eligible_set_def)
  then have "entry_valid e" using assms(4) by (auto simp: most_urgent_def eligible_set_def)
  with receipt_for_total [OF _ assms(5,6)] select_next_most_urgent [OF assms(3,2) _ e, of H]
    make_context_max [OF assms(1)] False
  show ?thesis by (auto simp: eligible_set_def)
qed

text \<open>
  The order in which the store lists its entries does not matter: any permutation of a
  snapshot gives the same result, byte for byte.
\<close>

theorem selection_permutation:
  assumes "make_context ctx = Inr ctx" and "mset snapshot' = mset snapshot"
    and "select_next H snapshot ctx = Inr x"
  shows "select_next H snapshot' ctx = Inr x"
proof -
  note max = make_context_max [OF assms(1)]
  have set: "set snapshot' = set snapshot" using assms(2) by (rule mset_eq_setD)
  have "distinct (map qe_queue_id snapshot') = distinct (map qe_queue_id snapshot)"
    and "distinct (map qe_enqueue_sequence snapshot') = distinct (map qe_enqueue_sequence snapshot)"
    using assms(2) by (auto intro!: mset_eq_imp_distinct_iff)
  then have ok: "snapshot_ok snapshot' = snapshot_ok snapshot" by (simp add: snapshot_ok_def set)
  have elig: "eligible_set ctx snapshot' = eligible_set ctx snapshot"
    by (simp add: eligible_set_def set)
  from assms(3) max show ?thesis
  proof (cases rule: select_next_cases)
    case none
    with select_next_empty [of snapshot' ctx H] ok elig show ?thesis by simp
  next
    case (chosen e)
    with select_next_most_urgent [of snapshot' ctx e H] ok elig max show ?thesis by simp
  qed
qed

text \<open>
  Receipt identities do not collide: two valid entries get the same receipt identity only
  when they agree on queue identity, enqueue sequence and selection generation, although the
  three parts are joined with a character that queue identities may contain.
\<close>

theorem receipt_id_injective:
  assumes "entry_valid e" and "entry_valid e'"
    and "deterministic_receipt_id e = deterministic_receipt_id e'"
  shows "qe_queue_id e = qe_queue_id e' \<and> qe_enqueue_sequence e = qe_enqueue_sequence e'
    \<and> qe_selection_generation e = qe_selection_generation e'"
proof -
  have pre: "starts_with ''Q-'' (qe_queue_id x)" and pos: "0 \<le> qe_enqueue_sequence x"
    "0 \<le> qe_selection_generation x" if "entry_valid x" for x
    using that by (simp_all add: entry_valid_def validate_queue_entry_fields_def validate_id_def)
  let ?g = "\<lambda>x. CHR ''g'' # show_int (qe_selection_generation x)"
  let ?q = "\<lambda>x. ''SR-'' @ drop 2 (qe_queue_id x)"
  have "(?q e @ CHR ''-'' # show_int (qe_enqueue_sequence e)) @ CHR ''-'' # ?g e =
      (?q e' @ CHR ''-'' # show_int (qe_enqueue_sequence e')) @ CHR ''-'' # ?g e'"
    using assms(3) by (simp add: deterministic_receipt_id_def)
  from last_separator [OF this] have
    1: "?q e @ CHR ''-'' # show_int (qe_enqueue_sequence e) = ?q e' @ CHR ''-'' # show_int (qe_enqueue_sequence e')"
    and g: "show_int (qe_selection_generation e) = show_int (qe_selection_generation e')"
    using show_int_no_dash pos assms(1,2) by auto
  from last_separator [OF 1] have "drop 2 (qe_queue_id e) = drop 2 (qe_queue_id e')"
    and "show_int (qe_enqueue_sequence e) = show_int (qe_enqueue_sequence e')"
    using show_int_no_dash pos assms(1,2) by auto
  with g show ?thesis
    using starts_with_Q [OF pre [OF assms(1)]] starts_with_Q [OF pre [OF assms(2)]] pos assms(1,2)
    by (metis show_int_inject)
qed

text \<open>
  The selection reason and the second component of the order key carry no information:
  the chosen entry is always the oldest of its priority band, and it is reported as
  ``advisory authorised'' whether or not it had any advisory conflict.
\<close>

theorem selection_reason_constant:
  assumes "make_context ctx = Inr ctx" and "select_next H snapshot ctx = Inr (Some r)"
  shows "\<exists>e \<in> set snapshot. sr_queue_id r = qe_queue_id e
    \<and> sr_order_key r = (int (PRIORITY_RANK (qe_business_priority e)), 0, qe_enqueue_sequence e, qe_queue_id e)
    \<and> sr_selection_reason r = ''priority_'' @ BusinessPriority_value (qe_business_priority e)
        @ '':oldest_in_band:advisory_authorized:fifo''"
  using assms(2) make_context_max [OF assms(1)]
proof (cases rule: select_next_cases)
  case (chosen e)
  from chosen(4) have "build_receipt H e (order_key e 0) (ac_evaluated_at ctx) (build_selection_reason e 0 True) = Inr r"
    by (simp add: receipt_for_Inr)
  note r = build_receipt_Inr [OF this]
  show ?thesis
    by (rule bexI [of _ e])
      (use chosen(3) r in \<open>auto simp: most_urgent_def eligible_set_def order_key_def build_selection_reason_def\<close>)
qed simp

text \<open>The bound on the number of selections has no effect: one receipt is built at most.\<close>

lemma max_selections_ignored:
  assumes "1 \<le> m" and "1 \<le> n"
  shows "select_next H snapshot (ctx\<lparr>ac_max_selections := m\<rparr>) = select_next H snapshot (ctx\<lparr>ac_max_selections := n\<rparr>)"
proof (cases "snapshot_ok snapshot \<and> ac_policy_version ctx = SCHEMA_VERSION")
  case ok: True
  have same: "eligible_set (ctx\<lparr>ac_max_selections := k\<rparr>) snapshot = eligible_set ctx snapshot"
    "receipt_for H e (ctx\<lparr>ac_max_selections := k\<rparr>) = receipt_for H e ctx" for k e
    by (simp_all add: eligible_set_def eligible_def hard_clear_def advisory_clear_def
        advisory_overlap_def receipt_for_def)
  show ?thesis
  proof (cases "eligible_set ctx snapshot = {}")
    case True
    with ok same select_next_empty [of snapshot "ctx\<lparr>ac_max_selections := _\<rparr>"] show ?thesis by simp
  next
    case False
    then obtain e where e: "most_urgent (eligible_set ctx snapshot) e"
      using most_urgent_exists [of "eligible_set ctx snapshot"] by (auto simp: eligible_set_def)
    have "select_next H snapshot (ctx\<lparr>ac_max_selections := k\<rparr>) = receipt_for H e ctx" if "1 \<le> k" for k
      using ok e that by (subst select_next_most_urgent) (simp_all add: same)
    with assms show ?thesis by simp
  qed
next
  case False
  then obtain x where "raise_first (validate_snapshot snapshot @ validate_admission_context ctx) = Some x"
    by (cases "raise_first (validate_snapshot snapshot @ validate_admission_context ctx)")
      (auto simp: validate_snapshot_None validate_admission_context_def)
  then show ?thesis by (simp add: select_next_def validate_admission_context_def)
qed

section \<open>Witnesses\<close>

text \<open>
  Two queued entries; the first has an advisory conflict and an authorisation for it, written
  in a different case.
\<close>

definition sample_second :: QueueEntry where
  "sample_second = sample_entry\<lparr>qe_queue_id := ''Q-2'', qe_enqueue_sequence := 4,
     qe_business_priority := P2, qe_conflict_keys := []\<rparr>"

definition sample_context :: AdmissionContext where
  "sample_context = \<lparr>ac_policy_version = SCHEMA_VERSION,
     ac_evaluated_at = ''2026-03-01T00:00:00.000000Z'', ac_active_hard_conflict_keys = [''repo:core''],
     ac_advisory_conflict_keys = [''REPO:core''],
     ac_advisory_authorizations = [\<lparr>aa_queue_id = ''Q-1'', aa_task_id = ''T-0'', aa_revision = 1,
       aa_authorized_by = ''Repo:Core''\<rparr>],
     ac_available_worker_kinds = [STANDARD_AGENT], ac_max_selections = 1\<rparr>"

lemma sample_context_made: "make_context sample_context = Inr sample_context"
  by code_simp

lemma sample_eligible: "eligible sample_context sample_entry" "eligible sample_context sample_second"
proof -
  have "casefold ''REPO:core'' = ''repo:core''" "casefold ''Repo:Core'' = ''repo:core''"
    "casefold ''repo:core'' = ''repo:core''" by code_simp+
  then show "eligible sample_context sample_entry" "eligible sample_context sample_second"
    by (auto simp: eligible_def hard_clear_def advisory_clear_def advisory_overlap_def authorizes_def
        sample_context_def sample_entry_def sample_body_def sample_second_def)
qed

lemma sample_most_urgent: "most_urgent (eligible_set sample_context [sample_second, sample_entry]) sample_entry"
  using sample_eligible
  by (auto simp: most_urgent_def eligible_set_def urgency_def sample_second_def sample_entry_def
      sample_body_def)

lemma sample_snapshot_ok: "snapshot_ok [sample_second, sample_entry]"
proof -
  have "casefold ''repo:core'' \<noteq> GLOBAL_KEY_CASEFOLD" by code_simp
  then show ?thesis
    by (simp add: snapshot_ok_def sample_second_def sample_entry_def sample_body_def)
qed

lemma sample_time: "raise_first (validate_timestamp (ac_evaluated_at sample_context) ''selected_at'') = None"
  by code_simp

lemma sample_selected:
  obtains r where "select_next sample_hash [sample_second, sample_entry] sample_context = Inr (Some r)"
  using receipt_for_total [OF sample_entry_valid sample_hash_hexdigest sample_time]
    select_next_most_urgent [OF sample_snapshot_ok _ make_context_max [OF sample_context_made]
      sample_most_urgent, of sample_hash]
  by (auto simp: sample_context_def)

lemma sample_second_valid: "entry_valid sample_second"
proof -
  have "raise_first (validate_id ''Q-2'' ''queue_id'' (Some ''Q-'')) = None" by code_simp
  with sample_entry_valid show ?thesis
    by (simp add: entry_valid_def validate_queue_entry_fields_def sample_second_def)
qed

lemma selection_sound_witness:
  "\<exists>r. select_next sample_hash [sample_second, sample_entry] sample_context = Inr (Some r)
     \<and> (\<exists>e \<in> {sample_second, sample_entry}. sr_queue_id r = qe_queue_id e \<and> qe_state e = QUEUED)"
proof -
  obtain r where r: "select_next sample_hash [sample_second, sample_entry] sample_context = Inr (Some r)"
    by (rule sample_selected)
  from selection_sound [OF sample_context_made r] r show ?thesis by auto
qed

lemma selection_live_witness:
  "\<exists>r. select_next sample_hash [sample_second, sample_entry] sample_context = Inr (Some r)"
  using selection_live [OF sample_context_made _ sample_snapshot_ok _ sample_hash_hexdigest sample_time]
    sample_eligible sample_entry_valid sample_second_valid
  by (auto simp: sample_context_def)

lemma selection_permutation_witness:
  "\<exists>r. select_next sample_hash [sample_entry, sample_second] sample_context = Inr (Some r)"
proof -
  obtain r where "select_next sample_hash [sample_second, sample_entry] sample_context = Inr (Some r)"
    by (rule sample_selected)
  from selection_permutation [OF sample_context_made _ this, of "[sample_entry, sample_second]"]
  show ?thesis by (simp add: add_mset_commute)
qed

lemma receipt_id_injective_witness:
  "deterministic_receipt_id sample_entry \<noteq> deterministic_receipt_id sample_second"
  using receipt_id_injective [OF sample_entry_valid sample_second_valid]
  by (auto simp: sample_second_def sample_entry_def sample_body_def)

lemma selection_reason_constant_witness:
  "\<exists>r. select_next sample_hash [sample_second, sample_entry] sample_context = Inr (Some r)
     \<and> fst (snd (sr_order_key r)) = 0"
proof -
  obtain r where r: "select_next sample_hash [sample_second, sample_entry] sample_context = Inr (Some r)"
    by (rule sample_selected)
  from selection_reason_constant [OF sample_context_made r] r show ?thesis by auto
qed

end
