(* ===== verification/Scheduler_Files.thy ===== *)
theory Scheduler_Files
  imports Scheduler_Codec
begin

text \<open>
  The other files of the scheduler store (\<open>portfolio_scheduler_store.py\<close>, lines 1376 to
  1564): the sequence counter, the queue snapshot and the tombstone, with their validators,
  encoders and strict decoders.  Each decoder accepts exactly the canonical encodings of
  valid values; that is what the operations on the store rest on.
\<close>

section \<open>The sequence counter\<close>

definition sequence_lines :: "int \<Rightarrow> int list \<Rightarrow> string list" where
  "sequence_lines last_issued reserved =
    [field_line [] ''schema_version'' (SStr SCHEMA_VERSION),
     field_line [] ''last_issued_enqueue_sequence'' (SInt last_issued),
     ''reserved_sequences:''] @ map (\<lambda>s. ''  - '' @ scalar_text (SInt s)) reserved"

definition encode_sequence :: "int \<Rightarrow> int list \<Rightarrow> scheduler_error + string" where
  "encode_sequence last_issued reserved = guarded
    (validate_int last_issued ''last_issued_enqueue_sequence'' 0 @
     [(reserved \<noteq> [1..last_issued], PortfolioSchedulerSequenceError ''sequence_not_contiguous'')])
    (Inr (finish (sequence_lines last_issued reserved)))"

fun parse_reserved :: "string list \<Rightarrow> scheduler_error + int list" where
  "parse_reserved [] = Inr []"
| "parse_reserved (line # rest) = guarded
    [(\<not> starts_with ''  - '' line, PortfolioSchedulerSchemaError ''sequence_extra'')]
    (and_then (parse_scalar (drop 4 line) ''reserved_sequence'') (\<lambda>v.
     and_then (need_int v (PortfolioSchedulerSequenceError ''reserved_sequence_value'')) (\<lambda>i.
     guarded [(i < 1, PortfolioSchedulerSequenceError ''reserved_sequence_value'')]
      (and_then (parse_reserved rest) (\<lambda>is. Inr (i # is))))))"

definition decode_sequence :: "string \<Rightarrow> scheduler_error + (int \<times> int list)" where
  "decode_sequence data =
     and_then (decode_document data ''sequence'') (\<lambda>lines.
     case lines of
       l0 # l1 # l2 # rest \<Rightarrow>
         (let prefix = ''last_issued_enqueue_sequence: ''
          in guarded
           [(l0 \<noteq> field_line [] ''schema_version'' (SStr SCHEMA_VERSION),
               PortfolioSchedulerSchemaError ''sequence_schema''),
            (\<not> starts_with prefix l1, PortfolioSchedulerSchemaError ''sequence_counter'')]
           (and_then (parse_scalar (drop (length prefix) l1) ''last_issued_enqueue_sequence'') (\<lambda>v.
            and_then (need_int v (PortfolioSchedulerSequenceError ''counter_type'')) (\<lambda>value.
            guarded
             [(value < 0, PortfolioSchedulerSequenceError ''counter_negative''),
              (l2 \<noteq> ''reserved_sequences:'', PortfolioSchedulerSchemaError ''sequence_reserved'')]
             (and_then (parse_reserved rest) (\<lambda>reserved.
              and_then (encode_sequence value reserved) (\<lambda>canonical.
              guarded [(canonical \<noteq> data, PortfolioSchedulerSequenceError ''sequence_noncanonical'')]
                (Inr (value, reserved)))))))))
     | _ \<Rightarrow> Inl (PortfolioSchedulerSchemaError ''sequence_fields''))"

section \<open>The queue snapshot\<close>

fun validate_queue_entries ::
  "(string \<Rightarrow> string) \<Rightarrow> int \<Rightarrow> int set \<Rightarrow> string set \<Rightarrow> (string \<times> int) set \<Rightarrow> QueueEntry list \<Rightarrow>
   scheduler_guard list"
where
  "validate_queue_entries H previous sequences ids revisions [] = []"
| "validate_queue_entries H previous sequences ids revisions (e # es) =
    ensure_entry_digest H e @
    [(qe_enqueue_sequence e \<le> previous, PortfolioSchedulerSequenceError ''queue_sequence_order''),
     (qe_enqueue_sequence e \<in> sequences, PortfolioSchedulerSequenceError ''queue_sequence_duplicate''),
     (qe_queue_id e \<in> ids, PortfolioSchedulerConflictError ''queue_id_duplicate''),
     ((qe_task_id e, qe_revision e) \<in> revisions,
        PortfolioSchedulerConflictError ''task_revision_duplicate'')] @
    validate_queue_entries H (qe_enqueue_sequence e) (insert (qe_enqueue_sequence e) sequences)
      (insert (qe_queue_id e) ids) (insert (qe_task_id e, qe_revision e) revisions) es"

definition validate_queue_snapshot :: "(string \<Rightarrow> string) \<Rightarrow> QueueEntry list \<Rightarrow> scheduler_guard list" where
  "validate_queue_snapshot H entries = validate_queue_entries H 0 {} {} {} entries"

definition snapshot_lines :: "QueueEntry list \<Rightarrow> string list" where
  "snapshot_lines entries =
    [field_line [] ''schema_version'' (SStr SCHEMA_VERSION), ''entries:''] @
    concat (map (\<lambda>e. ''  - entry:'' # entry_lines e True ''    '') entries)"

definition encode_queue_snapshot ::
  "(string \<Rightarrow> string) \<Rightarrow> QueueEntry list \<Rightarrow> scheduler_error + string"
where
  "encode_queue_snapshot H entries = guarded (validate_queue_snapshot H entries)
     (Inr (finish (snapshot_lines entries)))"

lemma parse_line_scalar_length [dest]:
  "parse_line_scalar lines indent key = Inr (v, rest) \<Longrightarrow> length rest \<le> length lines"
  by (auto dest!: parse_line_scalar_rest)

lemma expect_line_length: "expect_line lines l e = Inr rest \<Longrightarrow> length rest \<le> length lines"
  by (auto simp: expect_line_def split: list.splits if_splits)

lemma parse_conflicts_step:
  "parse_conflicts indent (line # rest) = Inr (keys, rest') \<Longrightarrow>
     rest' = line # rest \<or> (\<exists>keys'. parse_conflicts indent (tl (tl rest)) = Inr (keys', rest'))"
  by (auto simp: Let_def res_simps split: if_splits dest!: parse_line_scalar_rest)

lemma parse_conflicts_length:
  "parse_conflicts indent lines = Inr (keys, rest) \<Longrightarrow> length rest \<le> length lines"
proof (induction lines arbitrary: keys rule: length_induct)
  case (1 lines)
  show ?case
  proof (cases lines)
    case Nil
    with 1 show ?thesis by simp
  next
    case (Cons line ls)
    with parse_conflicts_step 1(2) consider "rest = lines"
      | keys' where "parse_conflicts indent (tl (tl ls)) = Inr (keys', rest)" by blast
    then show ?thesis
    proof cases
      case 2
      moreover have "length (tl (tl ls)) < length lines" using Cons by simp
      ultimately have "length rest \<le> length (tl (tl ls))" using 1(1) by blast
      then show ?thesis using Cons by simp
    qed simp
  qed
qed

lemma parse_entry_at_length:
  assumes "parse_entry_at lines indent = Inr (e, rest)"
  shows "length rest \<le> length lines"
  using assms unfolding parse_entry_at_def Let_def
  by (auto simp: res_simps dest!: parse_line_scalar_length expect_line_length parse_conflicts_length)

function parse_entries :: "string list \<Rightarrow> scheduler_error + QueueEntry list" where
  "parse_entries [] = Inr []"
| "parse_entries (line # rest) = guarded
    [(line \<noteq> ''  - entry:'', PortfolioSchedulerSchemaError ''queue_snapshot_item'')]
    (and_then (parse_entry_at rest ''    '') (\<lambda>(entry, rest').
     and_then (parse_entries rest') (\<lambda>entries. Inr (entry # entries))))"
  by pat_completeness auto

termination
  by (relation "measure length") (auto dest!: parse_entry_at_length)

definition decode_queue_snapshot ::
  "(string \<Rightarrow> string) \<Rightarrow> string \<Rightarrow> scheduler_error + QueueEntry list"
where
  "decode_queue_snapshot H data =
     and_then (decode_document data ''queue_snapshot'') (\<lambda>lines. guarded
      [(length lines < 2 \<or> hd lines \<noteq> field_line [] ''schema_version'' (SStr SCHEMA_VERSION),
          PortfolioSchedulerSchemaError ''queue_snapshot_schema''),
       (lines ! 1 \<noteq> ''entries:'', PortfolioSchedulerSchemaError ''queue_snapshot_entries'')]
      (and_then (parse_entries (drop 2 lines)) (\<lambda>entries.
       guarded (validate_queue_snapshot H entries)
        (and_then (encode_queue_snapshot H entries) (\<lambda>canonical.
         guarded [(canonical \<noteq> data, PortfolioSchedulerSchemaError ''queue_snapshot_noncanonical'')]
           (Inr entries))))))"

section \<open>The tombstone\<close>

record Tombstone =
  tb_kind :: string
  tb_receipt_id :: string
  tb_queue_id :: string
  tb_selection_generation :: int
  tb_next_selection_generation :: "int option"
  tb_receipt_digest :: string
  tb_created_at :: string

definition validate_tombstone :: "Tombstone \<Rightarrow> scheduler_guard list" where
  "validate_tombstone t =
    [(tb_kind t \<notin> {''finalized'', ''selected_recovery''},
        PortfolioSchedulerSchemaError ''tombstone_kind'')] @
    validate_id (tb_receipt_id t) ''tombstone_receipt'' (Some ''SR-'') @
    validate_id (tb_queue_id t) ''tombstone_queue'' (Some ''Q-'') @
    validate_int (tb_selection_generation t) ''tombstone_generation'' 1 @
    (if tb_kind t = ''finalized'' then
       [(tb_next_selection_generation t \<noteq> None,
           PortfolioSchedulerSchemaError ''finalized_next_generation'')]
     else
       [(tb_next_selection_generation t \<noteq> Some (tb_selection_generation t + 1),
           PortfolioSchedulerSchemaError ''recovery_next_generation'')]) @
    (case tb_next_selection_generation t of None \<Rightarrow> []
     | Some g \<Rightarrow> validate_int g ''next_generation'' 1) @
    validate_digest (tb_receipt_digest t) ''tombstone_digest'' @
    validate_timestamp (tb_created_at t) ''tombstone_created_at''"

definition opt_int_scalar :: "int option \<Rightarrow> scalar" where
  "opt_int_scalar v = (case v of None \<Rightarrow> SNull | Some i \<Rightarrow> SInt i)"

definition need_opt_int :: "scalar \<Rightarrow> scheduler_error \<Rightarrow> scheduler_error + int option" where
  "need_opt_int v e = (case v of SNull \<Rightarrow> Inr None | SInt i \<Rightarrow> Inr (Some i) | _ \<Rightarrow> Inl e)"

definition tombstone_lines :: "Tombstone \<Rightarrow> string list" where
  "tombstone_lines t =
    [field_line [] ''schema_version'' (SStr SCHEMA_VERSION),
     field_line [] ''kind'' (SStr (tb_kind t)),
     field_line [] ''receipt_id'' (SStr (tb_receipt_id t)),
     field_line [] ''queue_id'' (SStr (tb_queue_id t)),
     field_line [] ''selection_generation'' (SInt (tb_selection_generation t)),
     field_line [] ''next_selection_generation'' (opt_int_scalar (tb_next_selection_generation t)),
     field_line [] ''receipt_digest'' (SStr (tb_receipt_digest t)),
     field_line [] ''created_at'' (SStr (tb_created_at t))]"

definition encode_tombstone :: "Tombstone \<Rightarrow> scheduler_error + string" where
  "encode_tombstone t = guarded (validate_tombstone t) (Inr (finish (tombstone_lines t)))"

definition decode_tombstone :: "string \<Rightarrow> scheduler_error + Tombstone" where
  "decode_tombstone data = (
     let ident = PortfolioSchedulerSchemaError ''tombstone_identity'';
         val = PortfolioSchedulerSchemaError ''tombstone_value''
     in and_then (decode_document data ''tombstone'') (\<lambda>l.
        and_then (parse_line_scalar l [] ''schema_version'') (\<lambda>(v_schema, l).
        and_then (parse_line_scalar l [] ''kind'') (\<lambda>(v_kind, l).
        and_then (parse_line_scalar l [] ''receipt_id'') (\<lambda>(v_receipt, l).
        and_then (parse_line_scalar l [] ''queue_id'') (\<lambda>(v_queue, l).
        and_then (parse_line_scalar l [] ''selection_generation'') (\<lambda>(v_generation, l).
        and_then (parse_line_scalar l [] ''next_selection_generation'') (\<lambda>(v_next, l).
        and_then (parse_line_scalar l [] ''receipt_digest'') (\<lambda>(v_digest, l).
        and_then (parse_line_scalar l [] ''created_at'') (\<lambda>(v_created, l).
        guarded [(l \<noteq> [] \<or> v_schema \<noteq> SStr SCHEMA_VERSION,
            PortfolioSchedulerSchemaError ''tombstone_schema'')]
        (and_then (need_str v_kind ident) (\<lambda>kind.
         and_then (need_str v_receipt ident) (\<lambda>receipt.
         and_then (need_str v_queue ident) (\<lambda>queue.
         and_then (need_int v_generation (PortfolioSchedulerSchemaError ''tombstone_generation'')) (\<lambda>generation.
         and_then (need_opt_int v_next (PortfolioSchedulerSchemaError ''next_generation_type'')) (\<lambda>next_generation.
         and_then (need_str v_digest val) (\<lambda>digest.
         and_then (need_str v_created val) (\<lambda>created.
         (let t = \<lparr>tb_kind = kind, tb_receipt_id = receipt, tb_queue_id = queue,
                   tb_selection_generation = generation,
                   tb_next_selection_generation = next_generation,
                   tb_receipt_digest = digest, tb_created_at = created\<rparr>
          in guarded (validate_tombstone t)
             (and_then (encode_tombstone t) (\<lambda>canonical.
              guarded [(canonical \<noteq> data, PortfolioSchedulerSchemaError ''tombstone_noncanonical'')]
                (Inr t))))))))))))))))))))))"

section \<open>Round trips\<close>

lemma field_line_text: "scalar_ok v \<Longrightarrow> plain indent \<Longrightarrow> plain key \<Longrightarrow> plain (field_line indent key v)"
  by (simp add: field_line_plain plain_literal_text)

lemma need_opt_int_scalar [codec_simps]: "need_opt_int (opt_int_scalar v) e = Inr v"
  by (cases v) (simp_all add: need_opt_int_def opt_int_scalar_def)

lemma parse_reserved_lines:
  assumes "\<forall>i \<in> set ns. 1 \<le> i"
  shows "parse_reserved (map (\<lambda>s. ''  - '' @ scalar_text (SInt s)) ns) = Inr ns"
  using assms
proof (induction ns)
  case (Cons i ns)
  have "drop 4 (''  - '' @ scalar_text (SInt i)) = scalar_text (SInt i)" by simp
  with Cons show ?case
    by (simp add: parse_scalar_text need_simps del: scalar_text.simps append_Cons)
qed simp

lemma sequence_lines_document:
  assumes "0 \<le> last_issued" and "\<forall>i \<in> set ns. 0 \<le> i"
  shows "decode_document (finish (sequence_lines last_issued ns)) code = Inr (sequence_lines last_issued ns)"
proof (rule decode_finish)
  show "\<forall>l \<in> set (sequence_lines last_issued ns). plain l \<and> l \<noteq> []"
    using assms plain_SCHEMA_VERSION plain_literal_text [of "SInt _"]
    by (auto simp: sequence_lines_def field_line_nonempty is_control_def intro!: field_line_text)
qed (simp_all add: sequence_lines_def schema_line_no_bom)

lemma encode_sequence_iff: "encode_sequence n ns = Inr data \<longleftrightarrow>
    0 \<le> n \<and> ns = [1..n] \<and> data = finish (sequence_lines n ns)"
  by (auto simp: encode_sequence_def res_simps)

lemma decode_sequence_iff: "decode_sequence data = Inr (n, ns) \<longleftrightarrow> encode_sequence n ns = Inr data"
proof
  assume dec: "decode_sequence data = Inr (n, ns)"
  show "encode_sequence n ns = Inr data"
  proof (cases "decode_document data ''sequence''")
    case (Inr lines)
    then have "length lines < 3 \<or> (\<exists>l0 l1 l2 rest. lines = l0 # l1 # l2 # rest)"
      by (cases lines rule: list.exhaust; cases "tl lines"; cases "tl (tl lines)") auto
    moreover have "\<not> length lines < 3"
      using dec Inr by (auto simp: decode_sequence_def split: list.split_asm)
    ultimately obtain l0 l1 l2 rest where "lines = l0 # l1 # l2 # rest" by blast
    with dec Inr show ?thesis by (auto simp: decode_sequence_def Let_def res_simps)
  qed (use dec in \<open>simp add: decode_sequence_def\<close>)
next
  assume enc: "encode_sequence n ns = Inr data"
  then have n: "0 \<le> n" "ns = [1..n]" and data: "data = finish (sequence_lines n ns)"
    by (simp_all add: encode_sequence_iff)
  have doc: "decode_document data code = Inr (sequence_lines n ns)" for code
    unfolding data by (rule sequence_lines_document) (use n in auto)
  have res: "parse_reserved (map (\<lambda>s. ''  - '' @ scalar_text (SInt s)) ns) = Inr ns"
    by (rule parse_reserved_lines) (use n in auto)
  have line: "field_line [] ''last_issued_enqueue_sequence'' (SInt n) =
      ''last_issued_enqueue_sequence: '' @ scalar_text (SInt n)" by (simp add: field_line_def)
  have pre: "starts_with ''last_issued_enqueue_sequence: '' (field_line [] ''last_issued_enqueue_sequence'' (SInt n))"
    unfolding line by (rule starts_with_append)
  have tail: "drop (length ''last_issued_enqueue_sequence: '')
      (field_line [] ''last_issued_enqueue_sequence'' (SInt n)) = scalar_text (SInt n)"
    unfolding line by (simp only: append_eq_conv_conj [THEN iffD1, THEN conjunct2, symmetric] refl)
  have scalar: "parse_scalar (scalar_text (SInt n)) code = Inr (SInt n)" for code
    using n by (simp add: parse_scalar_text del: scalar_text.simps)
  show "decode_sequence data = Inr (n, ns)"
    unfolding decode_sequence_def doc and_then_simps sequence_lines_def append_Cons append_Nil
      list.case Let_def tail scalar need_simps res [unfolded append_Cons append_Nil]
    using n enc pre by simp
qed

lemma parse_entries_lines:
  assumes "\<forall>e \<in> set es. entry_valid e"
  shows "parse_entries (concat (map (\<lambda>e. ''  - entry:'' # entry_lines e True ''    '') es)) = Inr es"
  using assms by (induction es) (simp_all add: parse_entry_lines)

lemma parse_entries_valid: "parse_entries lines = Inr es \<Longrightarrow> \<forall>e \<in> set es. entry_valid e"
proof (induction lines arbitrary: es rule: parse_entries.induct)
  case (2 line rest)
  from "2.prems" obtain e rest' es' where e: "line = ''  - entry:''" "parse_entry_at rest ''    '' = Inr (e, rest')"
    and es': "parse_entries rest' = Inr es'" and es: "es = e # es'"
    by (auto simp: res_simps)
  have "\<forall>e \<in> set es'. entry_valid e"
    by (rule "2.IH" [OF e(2) refl es'])
  with parse_entry_valid [OF e(2)] show ?case by (simp add: es)
qed simp

lemma snapshot_lines_document:
  assumes "\<forall>e \<in> set es. entry_valid e"
  shows "decode_document (finish (snapshot_lines es)) code = Inr (snapshot_lines es)"
proof (rule decode_finish)
  have "plain l \<and> l \<noteq> []" if "e \<in> set es" "l \<in> set (entry_lines e True ''    '')" for e l
    using entry_lines_all_plain [of e "''    ''"] assms that by (simp add: is_control_def)
  then show "\<forall>l \<in> set (snapshot_lines es). plain l \<and> l \<noteq> []"
    using plain_SCHEMA_VERSION
    by (auto simp: snapshot_lines_def field_line_nonempty is_control_def intro!: field_line_text)
qed (simp_all add: snapshot_lines_def schema_line_no_bom)

lemma encode_snapshot_iff: "encode_queue_snapshot H es = Inr data \<longleftrightarrow>
    raise_first (validate_queue_snapshot H es) = None \<and> data = finish (snapshot_lines es)"
  by (auto simp: encode_queue_snapshot_def res_simps)

lemma encode_tombstone_iff: "encode_tombstone t = Inr data \<longleftrightarrow>
    raise_first (validate_tombstone t) = None \<and> data = finish (tombstone_lines t)"
  by (auto simp: encode_tombstone_def res_simps)

lemma tombstone_scalars:
  assumes "raise_first (validate_tombstone t) = None"
  shows "scalar_ok (SStr (tb_kind t))" "scalar_ok (SStr (tb_receipt_id t))" "scalar_ok (SStr (tb_queue_id t))"
    "scalar_ok (SInt (tb_selection_generation t))" "scalar_ok (opt_int_scalar (tb_next_selection_generation t))"
    "scalar_ok (SStr (tb_receipt_digest t))" "scalar_ok (SStr (tb_created_at t))"
  using assms
  by (auto simp: validate_tombstone_def opt_int_scalar_def is_control_def dest: valid_plain split: option.split if_splits)

lemma tombstone_lines_document:
  assumes "raise_first (validate_tombstone t) = None"
  shows "decode_document (finish (tombstone_lines t)) code = Inr (tombstone_lines t)"
proof (rule decode_finish)
  show "\<forall>l \<in> set (tombstone_lines t). plain l \<and> l \<noteq> []"
    using tombstone_scalars [OF assms] plain_SCHEMA_VERSION
    by (auto simp: tombstone_lines_def field_line_nonempty is_control_def intro!: field_line_text)
qed (simp_all add: tombstone_lines_def schema_line_no_bom)

lemma decode_tombstone_iff: "decode_tombstone data = Inr t \<longleftrightarrow> encode_tombstone t = Inr data"
proof
  assume "decode_tombstone data = Inr t"
  then show "encode_tombstone t = Inr data"
    unfolding decode_tombstone_def Let_def by (auto simp: res_simps)
next
  assume t: "encode_tombstone t = Inr data"
  then have valid: "raise_first (validate_tombstone t) = None" and data: "data = finish (tombstone_lines t)"
    by (simp_all add: encode_tombstone_iff)
  have lines: "decode_document data code = Inr (tombstone_lines t)" for code
    unfolding data by (rule tombstone_lines_document [OF valid])
  have rebuild: "\<lparr>tb_kind = tb_kind t, tb_receipt_id = tb_receipt_id t, tb_queue_id = tb_queue_id t,
      tb_selection_generation = tb_selection_generation t,
      tb_next_selection_generation = tb_next_selection_generation t,
      tb_receipt_digest = tb_receipt_digest t, tb_created_at = tb_created_at t\<rparr> = t" by simp
  note tombstone_scalars [OF valid]
  moreover have "scalar_ok (SStr SCHEMA_VERSION)" using plain_SCHEMA_VERSION by simp
  ultimately show "decode_tombstone data = Inr t"
    unfolding decode_tombstone_def Let_def lines tombstone_lines_def
    using valid t by (simp add: codec_simps rebuild del: scalar_ok.simps)
qed

section \<open>Properties\<close>

text \<open>
  Decoding and encoding a queue snapshot are exact inverses: a document decodes to a list of
  entries just when they are all valid and the document is their canonical encoding.
\<close>

theorem queue_snapshot_roundtrip:
  "decode_queue_snapshot H data = Inr es \<longleftrightarrow>
     list_all entry_valid es \<and> encode_queue_snapshot H es = Inr data"
  unfolding list_all_iff
proof
  assume "decode_queue_snapshot H data = Inr es"
  then show "(\<forall>e \<in> set es. entry_valid e) \<and> encode_queue_snapshot H es = Inr data"
    by (auto simp: decode_queue_snapshot_def res_simps dest: parse_entries_valid)
next
  assume es: "(\<forall>e \<in> set es. entry_valid e) \<and> encode_queue_snapshot H es = Inr data"
  then have data: "data = finish (snapshot_lines es)"
    and valid: "raise_first (validate_queue_snapshot H es) = None" by (simp_all add: encode_snapshot_iff)
  have doc: "decode_document data code = Inr (snapshot_lines es)" for code
    unfolding data by (rule snapshot_lines_document) (use es in blast)
  have "parse_entries (drop 2 (snapshot_lines es)) = Inr es"
    using parse_entries_lines [of es] es by (simp add: snapshot_lines_def)
  with es valid show "decode_queue_snapshot H data = Inr es"
    by (simp add: decode_queue_snapshot_def doc) (simp add: snapshot_lines_def)
qed

text \<open>What a passed validation of a snapshot says.\<close>

lemma validate_queue_entries_None:
  "raise_first (validate_queue_entries H previous seqs ids revs es) = None \<longleftrightarrow>
     (\<forall>e \<in> set es. qe_content_digest e = entry_digest H e) \<and> (\<forall>e \<in> set es. previous < qe_enqueue_sequence e)
     \<and> qe_enqueue_sequence ` set es \<inter> seqs = {} \<and> qe_queue_id ` set es \<inter> ids = {}
     \<and> (\<lambda>e. (qe_task_id e, qe_revision e)) ` set es \<inter> revs = {}
     \<and> sorted_wrt (<) (map qe_enqueue_sequence es) \<and> distinct (map qe_queue_id es)
     \<and> distinct (map (\<lambda>e. (qe_task_id e, qe_revision e)) es)"
proof (induction es arbitrary: previous seqs ids revs)
  case (Cons e es)
  have "\<forall>x \<in> set es. qe_enqueue_sequence e < qe_enqueue_sequence x \<Longrightarrow> previous < qe_enqueue_sequence e \<Longrightarrow>
      (\<forall>x \<in> set es. previous < qe_enqueue_sequence x) \<and> qe_enqueue_sequence e \<notin> qe_enqueue_sequence ` set es"
    by force
  then show ?case
    unfolding validate_queue_entries.simps raise_first_append_None Cons.IH
    by (simp add: ensure_entry_digest_def not_le) (intro iffI conjI; (elim conjE)?; simp?; blast?)
qed simp

lemma validate_queue_snapshot_None:
  "raise_first (validate_queue_snapshot H es) = None \<longleftrightarrow>
     (\<forall>e \<in> set es. qe_content_digest e = entry_digest H e \<and> 0 < qe_enqueue_sequence e)
     \<and> sorted_wrt (<) (map qe_enqueue_sequence es) \<and> distinct (map qe_queue_id es)
     \<and> distinct (map (\<lambda>e. (qe_task_id e, qe_revision e)) es)"
  by (auto simp: validate_queue_snapshot_def validate_queue_entries_None)

end
