(* ===== verification/Effects.thy ===== *)
theory Effects
  imports Prelude
begin

text \<open>
  Operations on durable files.  A disk is a dictionary from the names of files to their
  contents.  Every store of the program replaces a file atomically (a temporary file, a flush
  to the device and \<open>os.replace\<close>), so an operation is its result together with the list of
  the writes it performs, in order; a crash leaves a prefix of them done.  The reads of an
  operation concern the disk it started on, which its lock keeps unchanged by others.
\<close>

definition commit :: "('p \<times> 'b) list \<Rightarrow> ('p, 'b) dict \<Rightarrow> ('p, 'b) dict" where
  "commit ws d = foldl (\<lambda>d (p, b). dict_set p b d) d ws"

definition returning :: "'a \<Rightarrow> ('e + 'a) \<times> ('p \<times> 'b) list" where
  "returning x = (Inr x, [])"

definition failing :: "'e \<Rightarrow> ('e + 'a) \<times> ('p \<times> 'b) list" where
  "failing e = (Inl e, [])"

definition ensuring ::
  "(bool \<times> 'e) list \<Rightarrow> ('e + 'a) \<times> ('p \<times> 'b) list \<Rightarrow> ('e + 'a) \<times> ('p \<times> 'b) list"
where
  "ensuring gs r = (case raise_first gs of Some e \<Rightarrow> (Inl e, []) | None \<Rightarrow> r)"

definition reading ::
  "'e + 'c \<Rightarrow> ('c \<Rightarrow> ('e + 'a) \<times> ('p \<times> 'b) list) \<Rightarrow> ('e + 'a) \<times> ('p \<times> 'b) list"
where
  "reading v f = (case v of Inl e \<Rightarrow> (Inl e, []) | Inr x \<Rightarrow> f x)"

text \<open>Encode, then replace the file, then go on.\<close>

definition storing ::
  "'p \<Rightarrow> 'e + 'b \<Rightarrow> ('e + 'a) \<times> ('p \<times> 'b) list \<Rightarrow> ('e + 'a) \<times> ('p \<times> 'b) list"
where
  "storing p v r = (case v of Inl e \<Rightarrow> (Inl e, []) | Inr b \<Rightarrow> (fst r, (p, b) # snd r))"

lemma commit_simps: "commit [] d = d" "commit ((p, b) # ws) d = commit ws (dict_set p b d)"
  by (simp_all add: commit_def)

lemma commit_append: "commit (us @ ws) d = commit ws (commit us d)"
  by (simp add: commit_def)

lemma ensuring_pass [simp]: "raise_first gs = None \<Longrightarrow> ensuring gs r = r"
  by (simp add: ensuring_def)

lemma ensuring_fail [simp]: "raise_first gs = Some e \<Longrightarrow> ensuring gs r = (Inl e, [])"
  by (simp add: ensuring_def)

lemma reading_Inr [simp]: "reading (Inr x) f = f x"
  by (simp add: reading_def)

lemma reading_Inl [simp]: "reading (Inl e) f = (Inl e, [])"
  by (simp add: reading_def)

lemma storing_Inr [simp]: "storing p (Inr b) r = (fst r, (p, b) # snd r)"
  by (simp add: storing_def)

lemma fst_returning [simp]: "fst (returning x) = Inr x" "fst (failing e) = Inl e"
  by (simp_all add: returning_def failing_def)

lemma no_writes [simp]: "snd (returning x) = []" "snd (failing e) = []"
  by (simp_all add: returning_def failing_def)

text \<open>What an operation that went on, or reported success, has passed.\<close>

lemma writes_ensuring: "w \<in> set (snd (ensuring gs r)) \<Longrightarrow> raise_first gs = None \<and> w \<in> set (snd r)"
  by (auto simp: ensuring_def split: option.split_asm)

lemma writes_reading: "w \<in> set (snd (reading v f)) \<Longrightarrow> \<exists>x. v = Inr x \<and> w \<in> set (snd (f x))"
  by (auto simp: reading_def split: sum.split_asm)

lemma writes_storing: "w \<in> set (snd (storing p v r)) \<Longrightarrow> \<exists>b. v = Inr b \<and> (w = (p, b) \<or> w \<in> set (snd r))"
  by (auto simp: storing_def split: sum.split_asm)

lemmas writes_dest = writes_ensuring writes_reading writes_storing

lemma ensuring_Inr_iff [res_simps]: "ensuring gs r = (Inr x, ws) \<longleftrightarrow> raise_first gs = None \<and> r = (Inr x, ws)"
  by (auto simp: ensuring_def split: option.split)

lemma reading_Inr_iff [res_simps]: "reading v f = (Inr x, ws) \<longleftrightarrow> (\<exists>y. v = Inr y \<and> f y = (Inr x, ws))"
  by (cases v) (auto simp: reading_def)

lemma storing_Inr_iff [res_simps]:
  "storing p v r = (Inr x, ws) \<longleftrightarrow> (\<exists>b us. v = Inr b \<and> r = (Inr x, us) \<and> ws = (p, b) # us)"
  by (cases v; cases r) (auto simp: storing_def)

lemma returning_Inr_iff [res_simps]:
  "returning y = (Inr x, ws) \<longleftrightarrow> x = y \<and> ws = []" "failing e \<noteq> (Inr x, ws)"
  by (auto simp: returning_def failing_def)

section \<open>Runs with crashes\<close>

text \<open>An operation runs until it ends or crashes: a prefix of its writes is done.\<close>

inductive crash_step ::
  "('op \<Rightarrow> ('p, 'b) dict \<Rightarrow> ('p \<times> 'b) list) \<Rightarrow> ('op \<Rightarrow> bool) \<Rightarrow> ('p, 'b) dict \<Rightarrow> ('p, 'b) dict \<Rightarrow> bool"
  for writes :: "'op \<Rightarrow> ('p, 'b) dict \<Rightarrow> ('p \<times> 'b) list" and legal :: "'op \<Rightarrow> bool"
where
  run: "legal op \<Longrightarrow> crash_step writes legal d (commit (take k (writes op d)) d)"

inductive_cases crash_stepE: "crash_step writes legal d d'"

lemma crash_step_whole: "legal op \<Longrightarrow> crash_step writes legal d (commit (writes op d) d)"
  using crash_step.run [of legal op writes d "length (writes op d)"] by simp

text \<open>
  An invariant kept by each write an operation makes, from the states its earlier writes lead to.
\<close>

lemma commit_invariant:
  assumes "I d" and "\<And>us p b vs. ws = us @ (p, b) # vs \<Longrightarrow> I (commit us d) \<Longrightarrow> I (dict_set p b (commit us d))"
  shows "I (commit (take k ws) d)"
proof (induction k)
  case 0
  show ?case using assms(1) by (simp add: commit_simps)
next
  case (Suc k)
  show ?case
  proof (cases "k < length ws")
    case True
    obtain p b where w: "ws ! k = (p, b)" by (cases "ws ! k")
    from True have "ws = take k ws @ (p, b) # drop (Suc k) ws" by (metis id_take_nth_drop w)
    from assms(2) [OF this Suc] show ?thesis
      using True by (simp add: take_Suc_conv_app_nth w commit_append commit_simps)
  qed (use Suc in simp)
qed

text \<open>What a disk holds after writes to different files.\<close>

lemma commit_get:
  "distinct (map fst ws) \<Longrightarrow>
   dict_get (commit ws d) p = (case map_of ws p of None \<Rightarrow> dict_get d p | Some b \<Rightarrow> Some b)"
proof (induction ws arbitrary: d)
  case (Cons w ws)
  obtain q c where w: "w = (q, c)" by (cases w)
  from Cons.prems have "map_of ws q = None" by (simp add: w map_of_eq_None_iff)
  with Cons show ?case by (simp add: w commit_simps dict_get_set split: option.split)
qed (simp add: commit_simps)

lemma commit_ok: "dict_ok d \<Longrightarrow> dict_ok (commit ws d)"
  by (induction ws arbitrary: d) (auto simp: commit_simps)

lemma crash_step_get:
  assumes "crash_step writes legal d d'" and "\<And>op. distinct (map fst (writes op d))"
  obtains "dict_get d' p = dict_get d p" | op b where "legal op" "dict_get d' p = Some b" "(p, b) \<in> set (writes op d)"
  using assms(1)
proof cases
  case (run op k)
  have "distinct (map fst (take k (writes op d)))" using assms(2) [of op] by (simp add: take_map [symmetric])
  note get = commit_get [OF this, of d p]
  show ?thesis
  proof (cases "map_of (take k (writes op d)) p")
    case None
    with get run(1) that(1) show ?thesis by simp
  next
    case (Some b)
    then have "(p, b) \<in> set (writes op d)" by (meson in_set_takeD map_of_SomeD)
    with Some get run that(2) [of op b] show ?thesis by simp
  qed
qed

end
