(* ===== verification/Scheduler_Store.thy ===== *)
theory Scheduler_Store
  imports Scheduler_Files Effects
begin

text \<open>
  The operations of \<open>PortfolioSchedulerStore\<close> (\<open>portfolio_scheduler_store.py\<close>, lines 1612 to
  1730 and 1837 to 2345), on a disk of named files.  Every write replaces one file atomically
  (\<open>_atomic_store_bytes\<close>), so an operation is modelled by its result together with the list
  of the writes it performs, in order; a crash leaves a prefix of them done.  All reads of an
  operation precede its first write or concern another file, so they are taken from the disk
  it started on.
\<close>

section \<open>Disks and effects\<close>

datatype store_path =
    QueueFile
  | SequenceFile
  | ReceiptFile string
  | TombstoneFile string
  | ReservationFile string int

type_synonym disk = "(store_path, string) dict"

type_synonym store_write = "store_path \<times> string"

type_synonym 'a outcome = "(scheduler_error + 'a) \<times> store_write list"

section \<open>Loading\<close>

definition load_queue :: "(string \<Rightarrow> string) \<Rightarrow> disk \<Rightarrow> scheduler_error + QueueEntry list" where
  "load_queue H d = (case dict_get d QueueFile of
      None \<Rightarrow> Inr [] | Some raw \<Rightarrow> decode_queue_snapshot H raw)"

definition load_sequence :: "disk \<Rightarrow> QueueEntry list \<Rightarrow> scheduler_error + (int \<times> int list)" where
  "load_sequence d entries = (case dict_get d SequenceFile of
      None \<Rightarrow> guarded [(entries \<noteq> [], PortfolioSchedulerSequenceError ''counter_missing_with_queue'')]
                (Inr (0, []))
    | Some raw \<Rightarrow> and_then (decode_sequence raw) (\<lambda>(last_issued, reserved). guarded
        [(list_ex (\<lambda>e. qe_enqueue_sequence e > last_issued) entries,
            PortfolioSchedulerSequenceError ''queue_sequence_above_counter''),
         (list_ex (\<lambda>e. qe_enqueue_sequence e \<notin> set reserved) entries,
            PortfolioSchedulerSequenceError ''queue_sequence_unreserved'')]
        (Inr (last_issued, reserved))))"

definition load_state ::
  "(string \<Rightarrow> string) \<Rightarrow> disk \<Rightarrow> scheduler_error + (QueueEntry list \<times> int \<times> int list)"
where
  "load_state H d = and_then (load_queue H d) (\<lambda>entries.
     and_then (load_sequence d entries) (\<lambda>sequence. Inr (entries, sequence)))"

definition read_tombstone :: "disk \<Rightarrow> string \<Rightarrow> scheduler_error + Tombstone option" where
  "read_tombstone d receipt_id = guarded (validate_id receipt_id ''receipt_id'' (Some ''SR-''))
    (case dict_get d (TombstoneFile receipt_id) of
       None \<Rightarrow> Inr None | Some raw \<Rightarrow> and_then (decode_tombstone raw) (\<lambda>t. Inr (Some t)))"

definition read_receipt_file ::
  "(string \<Rightarrow> string) \<Rightarrow> disk \<Rightarrow> string \<Rightarrow> scheduler_error + ScheduleReceipt option"
where
  "read_receipt_file H d receipt_id = guarded (validate_id receipt_id ''receipt_id'' (Some ''SR-''))
    (case dict_get d (ReceiptFile receipt_id) of
       None \<Rightarrow> Inr None | Some raw \<Rightarrow> and_then (decode_schedule_receipt H raw) (\<lambda>r. Inr (Some r)))"

text \<open>\<open>_safe_file\<close> on \<open>_reservation_path\<close>: the raw bytes.\<close>

definition reservation_bytes :: "disk \<Rightarrow> string \<Rightarrow> int \<Rightarrow> scheduler_error + string option" where
  "reservation_bytes d queue_id generation = guarded
     (validate_id queue_id ''queue_id'' (Some ''Q-'') @ validate_int generation ''selection_generation'' 1)
     (Inr (dict_get d (ReservationFile queue_id generation)))"

definition replace_entry :: "(string \<Rightarrow> string) \<Rightarrow> QueueEntry \<Rightarrow> scheduler_error + QueueEntry" where
  "replace_entry H changed = and_then (make_queue_entry changed) (\<lambda>candidate.
     make_queue_entry (candidate\<lparr>qe_content_digest := entry_digest H candidate\<rparr>))"

definition replace_receipt :: "(string \<Rightarrow> string) \<Rightarrow> ScheduleReceipt \<Rightarrow> scheduler_error + ScheduleReceipt" where
  "replace_receipt H changed = and_then (make_schedule_receipt changed) (\<lambda>candidate.
     make_schedule_receipt (candidate\<lparr>sr_content_digest := receipt_digest H candidate\<rparr>))"

definition find_queue_entry :: "QueueEntry list \<Rightarrow> string \<Rightarrow> scheduler_error + QueueEntry" where
  "find_queue_entry entries queue_id = (case find (\<lambda>e. qe_queue_id e = queue_id) entries of
      None \<Rightarrow> Inl (PortfolioSchedulerNotFoundError ''queue_entry_missing'') | Some e \<Rightarrow> Inr e)"

definition validate_receipt_binding :: "ScheduleReceipt \<Rightarrow> QueueEntry \<Rightarrow> scheduler_guard list" where
  "validate_receipt_binding r e = (case sr_order_key r of (_, _, k2, k3) \<Rightarrow>
    [(sr_queue_id r \<noteq> qe_queue_id e \<or> sr_task_id r \<noteq> qe_task_id e \<or> sr_revision r \<noteq> qe_revision e
        \<or> sr_enqueue_sequence r \<noteq> qe_enqueue_sequence e
        \<or> sr_selection_generation r \<noteq> qe_selection_generation e
        \<or> k2 \<noteq> qe_enqueue_sequence e \<or> k3 \<noteq> qe_queue_id e
        \<or> sr_worker_kind r \<noteq> qe_worker_kind_request e,
        PortfolioSchedulerConflictError ''receipt_queue_binding''),
     (sr_phase r = RECEIPT_SELECTED \<and> qe_state e \<noteq> SELECTED,
        PortfolioSchedulerTransitionError ''selected_receipt_stale''),
     (sr_phase r = RECEIPT_DISPATCHED \<and> qe_state e \<notin> {DISPATCHED, RETIRED},
        PortfolioSchedulerTransitionError ''dispatched_receipt_state'')])"

definition validate_tombstone_for_receipt :: "Tombstone \<Rightarrow> ScheduleReceipt \<Rightarrow> scheduler_guard list" where
  "validate_tombstone_for_receipt t r =
    [(tb_receipt_id t \<noteq> sr_receipt_id r \<or> tb_queue_id t \<noteq> sr_queue_id r
        \<or> tb_selection_generation t \<noteq> sr_selection_generation r
        \<or> tb_receipt_digest t \<noteq> sr_content_digest r,
        PortfolioSchedulerConflictError ''tombstone_receipt_mismatch'')]"

text \<open>The queue with one entry replaced.\<close>

definition put_entry :: "QueueEntry \<Rightarrow> QueueEntry list \<Rightarrow> QueueEntry list" where
  "put_entry updated entries = map (\<lambda>item. if qe_queue_id item = qe_queue_id updated then updated else item) entries"

section \<open>Operations on the queue\<close>

definition reserve_enqueue_sequence :: "(string \<Rightarrow> string) \<Rightarrow> disk \<Rightarrow> int outcome" where
  "reserve_enqueue_sequence H d =
     reading (load_queue H d) (\<lambda>entries.
     reading (load_sequence d entries) (\<lambda>(last_issued, reserved).
     (let next_sequence = last_issued + 1
      in storing SequenceFile (encode_sequence next_sequence (reserved @ [next_sequence]))
           (returning next_sequence))))"

text \<open>The loop over the existing entries: an identical one is returned.\<close>

fun find_existing ::
  "(string \<Rightarrow> string) \<Rightarrow> QueueEntry \<Rightarrow> string \<Rightarrow> QueueEntry list \<Rightarrow> scheduler_error + QueueEntry option"
where
  "find_existing H entry encoded [] = Inr None"
| "find_existing H entry encoded (existing # rest) =
    (if qe_queue_id existing = qe_queue_id entry then
       and_then (encode_queue_entry H existing) (\<lambda>b.
         if b = encoded then Inr (Some existing)
         else Inl (PortfolioSchedulerConflictError ''queue_divergent_replay''))
     else if qe_task_id existing = qe_task_id entry \<and> qe_revision existing = qe_revision entry then
       Inl (PortfolioSchedulerConflictError ''task_revision_conflict'')
     else if qe_enqueue_sequence existing = qe_enqueue_sequence entry then
       Inl (PortfolioSchedulerConflictError ''sequence_conflict'')
     else find_existing H entry encoded rest)"

definition create_queue_entry ::
  "(string \<Rightarrow> string) \<Rightarrow> QueueEntry \<Rightarrow> disk \<Rightarrow> QueueEntry outcome"
where
  "create_queue_entry H entry d = ensuring
    (validate_queue_entry_fields entry @ ensure_entry_digest H entry @
     [(qe_state entry \<noteq> QUEUED, PortfolioSchedulerTransitionError ''queue_create_phase'')])
    (reading (load_state H d) (\<lambda>(entries, last_issued, reserved).
     ensuring [(qe_enqueue_sequence entry > last_issued \<or> qe_enqueue_sequence entry \<notin> set reserved,
                PortfolioSchedulerSequenceError ''enqueue_sequence_unreserved'')]
      (reading (encode_queue_entry H entry) (\<lambda>encoded.
       reading (find_existing H entry encoded entries) (\<lambda>found. case found of
          Some existing \<Rightarrow> returning existing
        | None \<Rightarrow> storing QueueFile
            (encode_queue_snapshot H (sort_key qe_enqueue_sequence (entries @ [entry])))
            (returning entry))))))"

definition read_queue_entry :: "(string \<Rightarrow> string) \<Rightarrow> string \<Rightarrow> disk \<Rightarrow> scheduler_error + QueueEntry" where
  "read_queue_entry H queue_id d = guarded (validate_id queue_id ''queue_id'' (Some ''Q-''))
    (and_then (load_state H d) (\<lambda>(entries, _). find_queue_entry entries queue_id))"

definition enumerate_queue_snapshot :: "(string \<Rightarrow> string) \<Rightarrow> disk \<Rightarrow> scheduler_error + QueueEntry list" where
  "enumerate_queue_snapshot H d = and_then (load_state H d) (\<lambda>(entries, _). Inr entries)"

definition next_phase :: "QueuePhase \<Rightarrow> QueuePhase option" where
  "next_phase p = (case p of QUEUED \<Rightarrow> Some SELECTED | SELECTED \<Rightarrow> Some DISPATCHED
     | DISPATCHED \<Rightarrow> Some RETIRED | RETIRED \<Rightarrow> None)"

definition event_guards :: "string option \<Rightarrow> scheduler_guard list" where
  "event_guards event = (case event of None \<Rightarrow> []
     | Some v \<Rightarrow> validate_id v ''dispatch_event_id'' (Some ''EVT-''))"

definition advance_queue_phase ::
  "(string \<Rightarrow> string) \<Rightarrow> string \<Rightarrow> int \<Rightarrow> QueuePhase \<Rightarrow> string option \<Rightarrow> disk \<Rightarrow> QueueEntry outcome"
where
  "advance_queue_phase H queue_id generation new_state event d = ensuring
    (validate_id queue_id ''queue_id'' (Some ''Q-'') @
     validate_int generation ''expected_generation'' 1 @ event_guards event)
    (reading (load_state H d) (\<lambda>(entries, _).
     reading (find_queue_entry entries queue_id) (\<lambda>current.
     ensuring [(qe_selection_generation current \<noteq> generation,
                PortfolioSchedulerConflictError ''queue_generation_stale'')]
      (if qe_state current = new_state then ensuring
         [(new_state = DISPATCHED \<and> event = None, PortfolioSchedulerTransitionError ''dispatch_event_missing''),
          (new_state \<noteq> DISPATCHED \<and> event \<noteq> None, PortfolioSchedulerTransitionError ''unexpected_dispatch_event'')]
         (returning current)
       else ensuring
         [(next_phase (qe_state current) \<noteq> Some new_state,
             PortfolioSchedulerTransitionError ''queue_phase_transition''),
          (new_state = DISPATCHED \<and> event = None, PortfolioSchedulerTransitionError ''dispatch_event_missing''),
          (new_state \<noteq> DISPATCHED \<and> event \<noteq> None, PortfolioSchedulerTransitionError ''unexpected_dispatch_event'')]
         (reading (replace_entry H (current\<lparr>qe_state := new_state\<rparr>)) (\<lambda>updated.
          storing QueueFile (encode_queue_snapshot H (put_entry updated entries)) (returning updated)))))))"

definition retire_queue_entry :: "(string \<Rightarrow> string) \<Rightarrow> string \<Rightarrow> int \<Rightarrow> disk \<Rightarrow> QueueEntry outcome" where
  "retire_queue_entry H queue_id generation d = advance_queue_phase H queue_id generation RETIRED None d"

section \<open>Operations on receipts\<close>

text \<open>The reservation file must be absent or hold the same bytes.\<close>

definition reservation_guard :: "string option \<Rightarrow> string \<Rightarrow> scheduler_guard list" where
  "reservation_guard reservation encoded =
    [(reservation \<noteq> None \<and> reservation \<noteq> Some encoded,
        PortfolioSchedulerConflictError ''reservation_divergent'')]"

definition create_schedule_receipt ::
  "(string \<Rightarrow> string) \<Rightarrow> ScheduleReceipt \<Rightarrow> disk \<Rightarrow> ScheduleReceipt outcome"
where
  "create_schedule_receipt H receipt d = ensuring
    (validate_schedule_receipt_fields receipt @ ensure_receipt_digest H receipt @
     [(sr_phase receipt \<noteq> RECEIPT_SELECTED, PortfolioSchedulerTransitionError ''receipt_create_phase'')])
    (reading (load_state H d) (\<lambda>(entries, _).
     reading (find_queue_entry entries (sr_queue_id receipt)) (\<lambda>entry.
     ensuring (validate_receipt_binding receipt entry)
     (reading (read_tombstone d (sr_receipt_id receipt)) (\<lambda>tombstone.
      ensuring [(tombstone \<noteq> None, PortfolioSchedulerConflictError ''receipt_tombstoned'')]
      (reading (encode_schedule_receipt H receipt) (\<lambda>encoded.
       reading (read_receipt_file H d (sr_receipt_id receipt)) (\<lambda>found.
       let path = ReservationFile (sr_queue_id receipt) (sr_selection_generation receipt);
           reservation = reservation_bytes d (sr_queue_id receipt) (sr_selection_generation receipt)
       in case found of
            Some existing \<Rightarrow>
              reading (encode_schedule_receipt H existing) (\<lambda>b.
              ensuring [(b \<noteq> encoded, PortfolioSchedulerConflictError ''receipt_divergent_replay'')]
              (reading reservation (\<lambda>res. ensuring (reservation_guard res encoded)
                (if res = None then storing path (Inr encoded) (returning existing)
                 else returning existing))))
          | None \<Rightarrow>
              reading reservation (\<lambda>res. ensuring (reservation_guard res encoded)
                (storing (ReceiptFile (sr_receipt_id receipt)) (Inr encoded)
                  (if res = None then storing path (Inr encoded) (returning receipt)
                   else returning receipt)))))))))))"

definition read_schedule_receipt ::
  "(string \<Rightarrow> string) \<Rightarrow> string \<Rightarrow> disk \<Rightarrow> scheduler_error + ScheduleReceipt"
where
  "read_schedule_receipt H receipt_id d = guarded (validate_id receipt_id ''receipt_id'' (Some ''SR-''))
    (and_then (read_receipt_file H d receipt_id) (\<lambda>found. case found of
       None \<Rightarrow> Inl (PortfolioSchedulerNotFoundError ''receipt_missing'')
     | Some receipt \<Rightarrow>
        and_then (read_tombstone d receipt_id) (\<lambda>tombstone. guarded
          (case tombstone of None \<Rightarrow> [] | Some t \<Rightarrow> validate_tombstone_for_receipt t receipt @
             [(tb_kind t = ''selected_recovery'', PortfolioSchedulerTransitionError ''receipt_recovered'')])
          (and_then (load_state H d) (\<lambda>(entries, _).
           and_then (find_queue_entry entries (sr_queue_id receipt)) (\<lambda>entry.
           guarded (validate_receipt_binding receipt entry) (Inr receipt)))))))"

definition advance_schedule_receipt ::
  "(string \<Rightarrow> string) \<Rightarrow> string \<Rightarrow> int \<Rightarrow> ReceiptPhase \<Rightarrow> string option \<Rightarrow> disk \<Rightarrow> ScheduleReceipt outcome"
where
  "advance_schedule_receipt H receipt_id generation new_phase event d = ensuring
    (validate_id receipt_id ''receipt_id'' (Some ''SR-'') @
     validate_int generation ''expected_generation'' 1 @ event_guards event)
    (reading (read_receipt_file H d receipt_id) (\<lambda>found. case found of
       None \<Rightarrow> failing (PortfolioSchedulerNotFoundError ''receipt_missing'')
     | Some receipt \<Rightarrow>
        reading (read_tombstone d receipt_id) (\<lambda>tombstone. ensuring
          (case tombstone of None \<Rightarrow> [] | Some t \<Rightarrow> validate_tombstone_for_receipt t receipt @
             [(True, PortfolioSchedulerTransitionError ''receipt_finalized_or_recovered'')])
          (ensuring [(sr_selection_generation receipt \<noteq> generation,
                      PortfolioSchedulerConflictError ''receipt_generation_stale'')]
          (reading (load_state H d) (\<lambda>(entries, _).
           reading (find_queue_entry entries (sr_queue_id receipt)) (\<lambda>entry.
           ensuring (validate_receipt_binding receipt entry)
           (if sr_phase receipt = new_phase then ensuring
              [(new_phase = RECEIPT_DISPATCHED \<and> sr_dispatch_event_id receipt \<noteq> event,
                  PortfolioSchedulerConflictError ''receipt_event_replay''),
               (new_phase = RECEIPT_SELECTED \<and> event \<noteq> None,
                  PortfolioSchedulerConflictError ''receipt_event_replay'')]
              (returning receipt)
            else ensuring
              [(sr_phase receipt \<noteq> RECEIPT_SELECTED \<or> new_phase \<noteq> RECEIPT_DISPATCHED,
                  PortfolioSchedulerTransitionError ''receipt_phase_transition''),
               (event = None, PortfolioSchedulerTransitionError ''dispatch_event_missing'')]
              (reading (replace_receipt H
                 (receipt\<lparr>sr_phase := RECEIPT_DISPATCHED, sr_dispatch_event_id := event\<rparr>)) (\<lambda>updated.
               storing (ReceiptFile receipt_id) (encode_schedule_receipt H updated)
               (reading (reservation_bytes d (sr_queue_id receipt) (sr_selection_generation receipt)) (\<lambda>res.
                reading (encode_schedule_receipt H receipt) (\<lambda>old.
                ensuring (reservation_guard res old) (returning updated))))))))))))))"

definition finalize_schedule_receipt ::
  "(string \<Rightarrow> string) \<Rightarrow> string \<Rightarrow> string \<Rightarrow> disk \<Rightarrow> ScheduleReceipt outcome"
where
  "finalize_schedule_receipt H utc_now receipt_id d = ensuring
    (validate_id receipt_id ''receipt_id'' (Some ''SR-''))
    (reading (read_receipt_file H d receipt_id) (\<lambda>found. case found of
       None \<Rightarrow> failing (PortfolioSchedulerNotFoundError ''receipt_missing'')
     | Some receipt \<Rightarrow>
        reading (load_state H d) (\<lambda>(entries, _).
        reading (find_queue_entry entries (sr_queue_id receipt)) (\<lambda>entry.
        ensuring (validate_receipt_binding receipt entry @
           [(sr_phase receipt \<noteq> RECEIPT_DISPATCHED, PortfolioSchedulerTransitionError ''receipt_not_dispatched'')])
        (reading (read_tombstone d receipt_id) (\<lambda>tombstone. case tombstone of
            Some t \<Rightarrow> ensuring (validate_tombstone_for_receipt t receipt @
               [(tb_kind t \<noteq> ''finalized'', PortfolioSchedulerTransitionError ''receipt_recovered'')])
               (returning receipt)
          | None \<Rightarrow> storing (TombstoneFile receipt_id) (encode_tombstone
              \<lparr>tb_kind = ''finalized'', tb_receipt_id = sr_receipt_id receipt,
               tb_queue_id = sr_queue_id receipt,
               tb_selection_generation = sr_selection_generation receipt,
               tb_next_selection_generation = None, tb_receipt_digest = sr_content_digest receipt,
               tb_created_at = utc_now\<rparr>)
              (returning receipt)))))))"

text \<open>The requeueing write that ends a recovery.\<close>

definition requeue ::
  "(string \<Rightarrow> string) \<Rightarrow> int \<Rightarrow> QueueEntry \<Rightarrow> QueueEntry list \<Rightarrow> QueueEntry outcome"
where
  "requeue H generation current entries =
     reading (replace_entry H (current\<lparr>qe_state := QUEUED, qe_selection_generation := generation + 1\<rparr>)) (\<lambda>updated.
     storing QueueFile (encode_queue_snapshot H (put_entry updated entries)) (returning updated))"

definition recover_selected_without_dispatch ::
  "(string \<Rightarrow> string) \<Rightarrow> string \<Rightarrow> string \<Rightarrow> int \<Rightarrow> string \<Rightarrow> disk \<Rightarrow> QueueEntry outcome"
where
  "recover_selected_without_dispatch H utc_now queue_id generation receipt_id d = ensuring
    (validate_id queue_id ''queue_id'' (Some ''Q-'') @
     validate_int generation ''expected_generation'' 1 @
     validate_id receipt_id ''receipt_id'' (Some ''SR-''))
    (reading (load_state H d) (\<lambda>(entries, _).
     reading (find_queue_entry entries queue_id) (\<lambda>current.
     reading (read_tombstone d receipt_id) (\<lambda>tombstone. case tombstone of
       Some t \<Rightarrow> ensuring
         [(tb_kind t \<noteq> ''selected_recovery'' \<or> tb_queue_id t \<noteq> queue_id
             \<or> tb_selection_generation t \<noteq> generation,
             PortfolioSchedulerConflictError ''recovery_tombstone_conflict'')]
         (reading (read_receipt_file H d receipt_id) (\<lambda>found. case found of
            None \<Rightarrow> failing (PortfolioSchedulerTransitionError ''recovery_receipt'')
          | Some receipt \<Rightarrow> ensuring
             ([(sr_phase receipt \<noteq> RECEIPT_SELECTED, PortfolioSchedulerTransitionError ''recovery_receipt'')] @
              validate_tombstone_for_receipt t receipt @
              [(sr_queue_id receipt \<noteq> queue_id \<or> sr_selection_generation receipt \<noteq> generation,
                  PortfolioSchedulerConflictError ''recovery_receipt_binding'')])
             (if Some (qe_selection_generation current) = tb_next_selection_generation t
                 \<and> qe_state current = QUEUED then returning current
              else ensuring
                ([(qe_selection_generation current \<noteq> generation \<or> qe_state current \<noteq> SELECTED,
                     PortfolioSchedulerTransitionError ''recovery_incomplete_state'')] @
                 validate_receipt_binding receipt current)
                (requeue H generation current entries))))
     | None \<Rightarrow> ensuring
         [(qe_selection_generation current \<noteq> generation \<or> qe_state current \<noteq> SELECTED,
             PortfolioSchedulerTransitionError ''recovery_state'')]
         (reading (read_receipt_file H d receipt_id) (\<lambda>found. case found of
            None \<Rightarrow> failing (PortfolioSchedulerTransitionError ''recovery_receipt'')
          | Some receipt \<Rightarrow> ensuring
             ([(sr_phase receipt \<noteq> RECEIPT_SELECTED, PortfolioSchedulerTransitionError ''recovery_receipt'')] @
              validate_receipt_binding receipt current)
             (storing (TombstoneFile receipt_id) (encode_tombstone
               \<lparr>tb_kind = ''selected_recovery'', tb_receipt_id = receipt_id, tb_queue_id = queue_id,
                tb_selection_generation = generation,
                tb_next_selection_generation = Some (generation + 1),
                tb_receipt_digest = sr_content_digest receipt, tb_created_at = utc_now\<rparr>)
              (requeue H generation current entries))))))))"

definition read_reservation ::
  "(string \<Rightarrow> string) \<Rightarrow> string \<Rightarrow> int \<Rightarrow> disk \<Rightarrow> scheduler_error + ScheduleReceipt"
where
  "read_reservation H queue_id generation d =
     guarded (validate_id queue_id ''queue_id'' (Some ''Q-'') @
              validate_int generation ''expected_generation'' 1)
     (case dict_get d (ReservationFile queue_id generation) of
        None \<Rightarrow> Inl (PortfolioSchedulerNotFoundError ''evidence_missing'')
      | Some raw \<Rightarrow> and_then (decode_schedule_receipt H raw) (\<lambda>receipt. guarded
          [(sr_queue_id receipt \<noteq> queue_id \<or> sr_selection_generation receipt \<noteq> generation,
              PortfolioSchedulerConflictError ''reservation_binding'')] (Inr receipt)))"

end
