(* ===== verification/Scheduler_Spec.thy ===== *)
theory Scheduler_Spec
  imports Scheduler_Store Scheduler_Policy "HOL-Library.Option_ord" "HOL-Library.Product_Lexorder"
begin

text \<open>
  What the scheduler store promises, without files: a queue of entries, the counter of issued
  sequence numbers, the receipts, tombstones and reservations by identity, and nine steps,
  each the effect of one atomic write.  The operations of \<open>Scheduler_Store\<close>, crashes included,
  are sequences of these steps; that is shown in \<open>Scheduler_Refinement\<close>.
\<close>

record sched =
  queue :: "QueueEntry list"
  counter :: int
  receipts :: "string \<Rightarrow> ScheduleReceipt option"
  tombstones :: "string \<Rightarrow> Tombstone option"
  reservations :: "string \<times> int \<Rightarrow> ScheduleReceipt option"

definition sealed :: "(string \<Rightarrow> string) \<Rightarrow> QueueEntry \<Rightarrow> QueueEntry" where
  "sealed H e = e\<lparr>qe_content_digest := entry_digest H e\<rparr>"

definition sealed_receipt :: "(string \<Rightarrow> string) \<Rightarrow> ScheduleReceipt \<Rightarrow> ScheduleReceipt" where
  "sealed_receipt H r = r\<lparr>sr_content_digest := receipt_digest H r\<rparr>"

definition entry_ok :: "(string \<Rightarrow> string) \<Rightarrow> QueueEntry \<Rightarrow> bool" where
  "entry_ok H e \<longleftrightarrow> entry_valid e \<and> qe_content_digest e = entry_digest H e"

definition receipt_ok :: "(string \<Rightarrow> string) \<Rightarrow> ScheduleReceipt \<Rightarrow> bool" where
  "receipt_ok H r \<longleftrightarrow> receipt_valid r \<and> sr_content_digest r = receipt_digest H r"

text \<open>The receipt belongs to the entry's task, whatever the generation and the phase.\<close>

definition same_identity :: "ScheduleReceipt \<Rightarrow> QueueEntry \<Rightarrow> bool" where
  "same_identity r e \<longleftrightarrow> sr_queue_id r = qe_queue_id e \<and> sr_task_id r = qe_task_id e
     \<and> sr_revision r = qe_revision e \<and> sr_enqueue_sequence r = qe_enqueue_sequence e
     \<and> sr_worker_kind r = qe_worker_kind_request e"

definition bound :: "ScheduleReceipt \<Rightarrow> QueueEntry \<Rightarrow> bool" where
  "bound r e \<longleftrightarrow> raise_first (validate_receipt_binding r e) = None"

lemma bound_identity:
  "bound r e \<Longrightarrow> same_identity r e \<and> sr_selection_generation r = qe_selection_generation e"
  by (auto simp: bound_def validate_receipt_binding_def same_identity_def split: prod.splits)

lemma bound_selected: "bound r e \<Longrightarrow> sr_phase r = RECEIPT_SELECTED \<Longrightarrow> qe_state e = SELECTED"
  by (auto simp: bound_def validate_receipt_binding_def split: prod.splits)

lemma bound_dispatched: "bound r e \<Longrightarrow> sr_phase r = RECEIPT_DISPATCHED \<Longrightarrow> qe_state e \<in> {DISPATCHED, RETIRED}"
  by (auto simp: bound_def validate_receipt_binding_def split: prod.splits)

definition tombstone_for :: "string \<Rightarrow> ScheduleReceipt \<Rightarrow> string \<Rightarrow> Tombstone" where
  "tombstone_for kind r now =
     \<lparr>tb_kind = kind, tb_receipt_id = sr_receipt_id r, tb_queue_id = sr_queue_id r,
      tb_selection_generation = sr_selection_generation r,
      tb_next_selection_generation =
        (if kind = ''finalized'' then None else Some (sr_selection_generation r + 1)),
      tb_receipt_digest = sr_content_digest r, tb_created_at = now\<rparr>"

definition reserved_by :: "ScheduleReceipt \<Rightarrow> string \<times> int" where
  "reserved_by r = (sr_queue_id r, sr_selection_generation r)"

inductive sched_step :: "(string \<Rightarrow> string) \<Rightarrow> sched \<Rightarrow> sched \<Rightarrow> bool" for H :: "string \<Rightarrow> string" where
  issue: "sched_step H s (s\<lparr>counter := counter s + 1\<rparr>)"
| enqueue: "entry_ok H e \<Longrightarrow> qe_state e = QUEUED \<Longrightarrow> qe_enqueue_sequence e \<le> counter s \<Longrightarrow>
    \<forall>x \<in> set (queue s). qe_queue_id x \<noteq> qe_queue_id e \<and> (qe_task_id x, qe_revision x) \<noteq> (qe_task_id e, qe_revision e)
      \<and> qe_enqueue_sequence x \<noteq> qe_enqueue_sequence e \<Longrightarrow>
    sched_step H s (s\<lparr>queue := sort_key qe_enqueue_sequence (queue s @ [e])\<rparr>)"
| advance: "e \<in> set (queue s) \<Longrightarrow> next_phase (qe_state e) = Some p \<Longrightarrow>
    sched_step H s (s\<lparr>queue := put_entry (sealed H (e\<lparr>qe_state := p\<rparr>)) (queue s)\<rparr>)"
| select: "receipt_ok H r \<Longrightarrow> sr_phase r = RECEIPT_SELECTED \<Longrightarrow> e \<in> set (queue s) \<Longrightarrow> bound r e \<Longrightarrow>
    receipts s (sr_receipt_id r) = None \<Longrightarrow> tombstones s (sr_receipt_id r) = None \<Longrightarrow>
    reservations s (reserved_by r) \<in> {None, Some r} \<Longrightarrow>
    sched_step H s (s\<lparr>receipts := (receipts s)(sr_receipt_id r \<mapsto> r)\<rparr>)"
| reserve: "receipts s (sr_receipt_id r) = Some r \<Longrightarrow> sr_phase r = RECEIPT_SELECTED \<Longrightarrow>
    e \<in> set (queue s) \<Longrightarrow> bound r e \<Longrightarrow> tombstones s (sr_receipt_id r) = None \<Longrightarrow>
    reservations s (reserved_by r) = None \<Longrightarrow>
    sched_step H s (s\<lparr>reservations := (reservations s)(reserved_by r \<mapsto> r)\<rparr>)"
| dispatch: "receipts s (sr_receipt_id r) = Some r \<Longrightarrow> sr_phase r = RECEIPT_SELECTED \<Longrightarrow>
    e \<in> set (queue s) \<Longrightarrow> bound r e \<Longrightarrow> tombstones s (sr_receipt_id r) = None \<Longrightarrow>
    r' = sealed_receipt H (r\<lparr>sr_phase := RECEIPT_DISPATCHED, sr_dispatch_event_id := Some event\<rparr>) \<Longrightarrow>
    receipt_ok H r' \<Longrightarrow>
    sched_step H s (s\<lparr>receipts := (receipts s)(sr_receipt_id r \<mapsto> r')\<rparr>)"
| finalize: "receipts s (sr_receipt_id r) = Some r \<Longrightarrow> sr_phase r = RECEIPT_DISPATCHED \<Longrightarrow>
    e \<in> set (queue s) \<Longrightarrow> bound r e \<Longrightarrow> tombstones s (sr_receipt_id r) = None \<Longrightarrow>
    sched_step H s (s\<lparr>tombstones := (tombstones s)(sr_receipt_id r \<mapsto> tombstone_for ''finalized'' r now)\<rparr>)"
| mark: "receipts s (sr_receipt_id r) = Some r \<Longrightarrow> sr_phase r = RECEIPT_SELECTED \<Longrightarrow>
    e \<in> set (queue s) \<Longrightarrow> bound r e \<Longrightarrow> tombstones s (sr_receipt_id r) = None \<Longrightarrow>
    sched_step H s (s\<lparr>tombstones := (tombstones s)(sr_receipt_id r \<mapsto> tombstone_for ''selected_recovery'' r now)\<rparr>)"
| requeued: "receipts s (sr_receipt_id r) = Some r \<Longrightarrow> sr_phase r = RECEIPT_SELECTED \<Longrightarrow>
    e \<in> set (queue s) \<Longrightarrow> bound r e \<Longrightarrow> tombstones s (sr_receipt_id r) = Some t \<Longrightarrow>
    tb_kind t = ''selected_recovery'' \<Longrightarrow>
    sched_step H s (s\<lparr>queue := put_entry (sealed H (e\<lparr>qe_state := QUEUED,
        qe_selection_generation := qe_selection_generation e + 1\<rparr>)) (queue s)\<rparr>)"

inductive_cases sched_stepE: "sched_step H s s'"

definition empty_sched :: sched where
  "empty_sched = \<lparr>queue = [], counter = 0, receipts = (\<lambda>_. None), tombstones = (\<lambda>_. None), reservations = (\<lambda>_. None)\<rparr>"

section \<open>Facts about the queue\<close>

lemma sealed_fields [simp]:
  "qe_queue_id (sealed H e) = qe_queue_id e" "qe_task_id (sealed H e) = qe_task_id e"
  "qe_revision (sealed H e) = qe_revision e" "qe_enqueue_sequence (sealed H e) = qe_enqueue_sequence e"
  "qe_state (sealed H e) = qe_state e" "qe_selection_generation (sealed H e) = qe_selection_generation e"
  "qe_worker_kind_request (sealed H e) = qe_worker_kind_request e"
  by (simp_all add: sealed_def)

lemma sealed_receipt_fields [simp]:
  "sr_receipt_id (sealed_receipt H r) = sr_receipt_id r" "sr_queue_id (sealed_receipt H r) = sr_queue_id r"
  "sr_selection_generation (sealed_receipt H r) = sr_selection_generation r"
  "sr_phase (sealed_receipt H r) = sr_phase r" "same_identity (sealed_receipt H r) e = same_identity r e"
  by (simp_all add: sealed_receipt_def same_identity_def)

lemma put_entry_set:
  assumes "distinct (map qe_queue_id es)" and "e \<in> set es" and "qe_queue_id e' = qe_queue_id e"
  shows "set (put_entry e' es) = insert e' (set es - {e})"
proof -
  have eq: "x = e" if "x \<in> set es" "qe_queue_id x = qe_queue_id e" for x
    using that assms(1,2) by (metis distinct_map inj_onD)
  show ?thesis using assms(2,3) eq by (auto simp: put_entry_def)
qed

lemma put_entry_map:
  assumes "distinct (map qe_queue_id es)" and "e \<in> set es" and "qe_queue_id e' = qe_queue_id e" and "f e' = f e"
  shows "map f (put_entry e' es) = map f es"
proof -
  have eq: "x = e" if "x \<in> set es" "qe_queue_id x = qe_queue_id e" for x
    using that assms(1,2) by (metis distinct_map inj_onD)
  show ?thesis using assms(3,4) eq by (auto simp: put_entry_def)
qed

definition queue_ok :: "(string \<Rightarrow> string) \<Rightarrow> QueueEntry list \<Rightarrow> bool" where
  "queue_ok H es \<longleftrightarrow> (\<forall>e \<in> set es. entry_ok H e) \<and> sorted_wrt (<) (map qe_enqueue_sequence es)
     \<and> distinct (map qe_queue_id es) \<and> distinct (map (\<lambda>e. (qe_task_id e, qe_revision e)) es)"

lemma entry_valid_positive: "entry_valid e \<Longrightarrow> 1 \<le> qe_enqueue_sequence e \<and> 1 \<le> qe_selection_generation e"
  by (simp add: entry_valid_def validate_queue_entry_fields_def)

lemma queue_ok_iff: "queue_ok H es \<longleftrightarrow> (\<forall>e \<in> set es. entry_valid e)
     \<and> raise_first (validate_queue_snapshot H es) = None"
  using entry_valid_positive by (fastforce simp: queue_ok_def entry_ok_def validate_queue_snapshot_None)

lemma queue_ok_distinct: "queue_ok H es \<Longrightarrow> distinct (map qe_queue_id es)"
  by (simp add: queue_ok_def)

lemma queue_ok_put:
  assumes "queue_ok H es" and "e \<in> set es" and "entry_ok H e'" and "qe_queue_id e' = qe_queue_id e"
    and "qe_task_id e' = qe_task_id e" and "qe_revision e' = qe_revision e"
    and "qe_enqueue_sequence e' = qe_enqueue_sequence e"
  shows "queue_ok H (put_entry e' es)"
proof -
  note distinct = queue_ok_distinct [OF assms(1)]
  note maps = put_entry_map [OF distinct assms(2,4)]
  show ?thesis using assms
    by (simp add: queue_ok_def put_entry_set [OF distinct assms(2,4)] maps)
qed

lemma distinct_map_sort_key: "distinct (map f (sort_key g xs)) \<longleftrightarrow> distinct (map f xs)"
  by (simp add: distinct_map)

lemma queue_ok_insert:
  assumes "queue_ok H es" and "entry_ok H e"
    and "\<forall>x \<in> set es. qe_queue_id x \<noteq> qe_queue_id e \<and> (qe_task_id x, qe_revision x) \<noteq> (qe_task_id e, qe_revision e)
      \<and> qe_enqueue_sequence x \<noteq> qe_enqueue_sequence e"
  shows "queue_ok H (sort_key qe_enqueue_sequence (es @ [e]))"
proof -
  let ?q = "sort_key qe_enqueue_sequence (es @ [e])"
  have "distinct (map qe_enqueue_sequence es)" using assms(1) by (auto simp: queue_ok_def strict_sorted_iff)
  then have "distinct (map qe_enqueue_sequence ?q)" using assms(3) by (auto simp: distinct_map_sort_key)
  moreover have "distinct (map qe_queue_id ?q)" using assms(1,3) by (auto simp: distinct_map_sort_key queue_ok_def)
  moreover have "distinct (map (\<lambda>e. (qe_task_id e, qe_revision e)) ?q)"
    using assms(1,3) by (auto simp: distinct_map_sort_key queue_ok_def)
  moreover have "sorted (map qe_enqueue_sequence ?q)" by (rule sorted_sort_key)
  ultimately show ?thesis using assms(1,2) by (auto simp: queue_ok_def strict_sorted_iff)
qed

lemma entry_ok_sealed:
  assumes "entry_ok H e" and "hexdigest H" and "1 \<le> g"
  shows "entry_ok H (sealed H (e\<lparr>qe_state := p, qe_selection_generation := g\<rparr>))"
proof -
  have "entry_digest H (sealed H x) = entry_digest H x" for x
    by (simp add: sealed_def entry_digest_def entry_lines_ignores_digest)
  moreover have "raise_first (validate_digest (entry_digest H x) code) = None" for x code
    using hexdigest_valid [OF assms(2)] by (simp add: entry_digest_def)
  ultimately show ?thesis using assms(1,3)
    by (simp add: entry_ok_def entry_valid_def validate_queue_entry_fields_def)
      (simp add: sealed_def)
qed

section \<open>The invariant\<close>

definition reservations_ok :: "(string \<Rightarrow> string) \<Rightarrow> sched \<Rightarrow> bool" where
  "reservations_ok H s \<longleftrightarrow> (\<forall>k r. reservations s k = Some r \<longrightarrow> reserved_by r = k
     \<and> sr_phase r = RECEIPT_SELECTED \<and> receipt_ok H r \<and> receipts s (sr_receipt_id r) \<noteq> None)"

definition sched_ok :: "(string \<Rightarrow> string) \<Rightarrow> sched \<Rightarrow> bool" where
  "sched_ok H s \<longleftrightarrow> queue_ok H (queue s) \<and> 0 \<le> counter s
     \<and> (\<forall>e \<in> set (queue s). qe_enqueue_sequence e \<le> counter s)
     \<and> (\<forall>rid r. receipts s rid = Some r \<longrightarrow> sr_receipt_id r = rid \<and> receipt_ok H r
          \<and> (\<exists>e \<in> set (queue s). same_identity r e \<and> sr_selection_generation r \<le> qe_selection_generation e))
     \<and> (\<forall>rid t. tombstones s rid = Some t \<longrightarrow> (\<exists>r now. receipts s rid = Some r
          \<and> (t = tombstone_for ''finalized'' r now \<and> sr_phase r = RECEIPT_DISPATCHED
             \<or> t = tombstone_for ''selected_recovery'' r now \<and> sr_phase r = RECEIPT_SELECTED)))
     \<and> reservations_ok H s"

lemma sched_ok_queue: "sched_ok H s \<Longrightarrow> queue_ok H (queue s)"
  by (simp add: sched_ok_def)

lemma sched_ok_counter: "sched_ok H s \<Longrightarrow> 0 \<le> counter s \<and> (\<forall>e \<in> set (queue s). qe_enqueue_sequence e \<le> counter s)"
  by (simp add: sched_ok_def)

lemma sched_ok_receipt: "sched_ok H s \<Longrightarrow> receipts s rid = Some r \<Longrightarrow> sr_receipt_id r = rid \<and> receipt_ok H r
    \<and> (\<exists>e \<in> set (queue s). same_identity r e \<and> sr_selection_generation r \<le> qe_selection_generation e)"
  by (simp add: sched_ok_def)

lemma sched_ok_tombstone: "sched_ok H s \<Longrightarrow> tombstones s rid = Some t \<Longrightarrow> \<exists>r now. receipts s rid = Some r
    \<and> (t = tombstone_for ''finalized'' r now \<and> sr_phase r = RECEIPT_DISPATCHED
       \<or> t = tombstone_for ''selected_recovery'' r now \<and> sr_phase r = RECEIPT_SELECTED)"
  by (simp add: sched_ok_def)

lemma sched_ok_reservation: "sched_ok H s \<Longrightarrow> reservations s k = Some r \<Longrightarrow> reserved_by r = k
    \<and> sr_phase r = RECEIPT_SELECTED \<and> receipt_ok H r \<and> receipts s (sr_receipt_id r) \<noteq> None"
  unfolding sched_ok_def reservations_ok_def by blast

text \<open>What the queue part of a step must keep.\<close>

definition queue_grows :: "(string \<Rightarrow> string) \<Rightarrow> QueueEntry list \<Rightarrow> QueueEntry list \<Rightarrow> bool" where
  "queue_grows H es es' \<longleftrightarrow> queue_ok H es' \<and> (\<forall>e \<in> set es. \<exists>e' \<in> set es'.
     (\<forall>r. same_identity r e \<longrightarrow> same_identity r e')
     \<and> qe_selection_generation e \<le> qe_selection_generation e')"

lemma sched_ok_queue_update:
  assumes "sched_ok H s" and "queue_grows H (queue s) es" and "\<forall>e \<in> set es. qe_enqueue_sequence e \<le> counter s"
  shows "sched_ok H (s\<lparr>queue := es\<rparr>)"
proof -
  have "\<exists>e' \<in> set es. same_identity r e' \<and> sr_selection_generation r \<le> qe_selection_generation e'"
    if r: "receipts s rid = Some r" for rid r
  proof -
    from sched_ok_receipt [OF assms(1) r] obtain e where "e \<in> set (queue s)" "same_identity r e"
      "sr_selection_generation r \<le> qe_selection_generation e" by blast
    with assms(2) show ?thesis unfolding queue_grows_def by (metis order_trans)
  qed
  then show ?thesis using assms by (simp add: sched_ok_def reservations_ok_def queue_grows_def)
qed

lemma queue_grows_put:
  assumes "hexdigest H" and "queue_ok H es" and "e \<in> set es" and "qe_selection_generation e \<le> g"
  shows "queue_grows H es (put_entry (sealed H (e\<lparr>qe_state := p, qe_selection_generation := g\<rparr>)) es)"
    "set (put_entry (sealed H (e\<lparr>qe_state := p, qe_selection_generation := g\<rparr>)) es) =
       insert (sealed H (e\<lparr>qe_state := p, qe_selection_generation := g\<rparr>)) (set es - {e})"
proof -
  let ?e = "sealed H (e\<lparr>qe_state := p, qe_selection_generation := g\<rparr>)"
  have e: "entry_ok H e" using assms(2,3) by (simp add: queue_ok_def)
  then have "1 \<le> g" using entry_valid_positive [of e] assms(4) by (simp add: entry_ok_def)
  with e assms(1) have ok: "entry_ok H ?e" by (intro entry_ok_sealed)
  show set: "set (put_entry ?e es) = insert ?e (set es - {e})"
    by (rule put_entry_set [OF queue_ok_distinct [OF assms(2)] assms(3)]) simp
  have "queue_ok H (put_entry ?e es)" by (rule queue_ok_put [OF assms(2,3) ok]) simp_all
  moreover have "\<exists>e' \<in> set (put_entry ?e es). (\<forall>r. same_identity r x \<longrightarrow> same_identity r e')
      \<and> qe_selection_generation x \<le> qe_selection_generation e'" if "x \<in> set es" for x
  proof (cases "x = e")
    case True
    with assms(4) show ?thesis unfolding set by (intro bexI [of _ ?e]) (auto simp: same_identity_def)
  next
    case False
    with that show ?thesis unfolding set by blast
  qed
  ultimately show "queue_grows H es (put_entry ?e es)" by (simp add: queue_grows_def)
qed

lemma sched_ok_receipt_update:
  assumes ok: "sched_ok H s" and "receipt_ok H r" and "tombstones s (sr_receipt_id r) = None"
    and "e \<in> set (queue s)" and "same_identity r e" and "sr_selection_generation r \<le> qe_selection_generation e"
  shows "sched_ok H (s\<lparr>receipts := (receipts s)(sr_receipt_id r \<mapsto> r)\<rparr>)"
proof -
  let ?s = "s\<lparr>receipts := (receipts s)(sr_receipt_id r \<mapsto> r)\<rparr>"
  have "reservations_ok H ?s"
    using sched_ok_reservation [OF ok] unfolding reservations_ok_def by (intro allI impI) auto
  moreover have "\<exists>r now. receipts ?s rid = Some r \<and> (t = tombstone_for ''finalized'' r now \<and> sr_phase r = RECEIPT_DISPATCHED
      \<or> t = tombstone_for ''selected_recovery'' r now \<and> sr_phase r = RECEIPT_SELECTED)"
    if t: "tombstones s rid = Some t" for rid t
  proof -
    from t assms(3) have "rid \<noteq> sr_receipt_id r" by auto
    with sched_ok_tombstone [OF ok t] show ?thesis by simp
  qed
  moreover have "\<exists>e \<in> set (queue s). same_identity r e \<and> sr_selection_generation r \<le> qe_selection_generation e"
    using assms(4-6) by blast
  ultimately show ?thesis using ok assms(2) by (simp add: sched_ok_def)
qed

lemma sched_ok_tombstone_update:
  assumes ok: "sched_ok H s" and "receipts s rid = Some r"
    and "t = tombstone_for ''finalized'' r now \<and> sr_phase r = RECEIPT_DISPATCHED
      \<or> t = tombstone_for ''selected_recovery'' r now \<and> sr_phase r = RECEIPT_SELECTED"
  shows "sched_ok H (s\<lparr>tombstones := (tombstones s)(rid \<mapsto> t)\<rparr>)"
proof -
  have "\<exists>r now. receipts s rid' = Some r \<and> (t' = tombstone_for ''finalized'' r now \<and> sr_phase r = RECEIPT_DISPATCHED
      \<or> t' = tombstone_for ''selected_recovery'' r now \<and> sr_phase r = RECEIPT_SELECTED)"
    if "((tombstones s)(rid \<mapsto> t)) rid' = Some t'" for rid' t'
  proof (cases "rid' = rid")
    case True
    with that assms(2,3) show ?thesis by auto
  next
    case False
    with that have "tombstones s rid' = Some t'" by simp
    with ok show ?thesis by (rule sched_ok_tombstone)
  qed
  with ok show ?thesis by (simp add: sched_ok_def reservations_ok_def)
qed

lemma sched_ok_reservation_update:
  assumes ok: "sched_ok H s" and "receipts s (sr_receipt_id r) = Some r" and "sr_phase r = RECEIPT_SELECTED"
  shows "sched_ok H (s\<lparr>reservations := (reservations s)(reserved_by r \<mapsto> r)\<rparr>)"
proof -
  have upd: "reserved_by r' = k \<and> sr_phase r' = RECEIPT_SELECTED \<and> receipt_ok H r' \<and> receipts s (sr_receipt_id r') \<noteq> None"
    if "((reservations s)(reserved_by r \<mapsto> r)) k = Some r'" for k r'
  proof (cases "k = reserved_by r")
    case True
    with that assms(2,3) sched_ok_receipt [OF ok assms(2)] show ?thesis by auto
  next
    case False
    with that have "reservations s k = Some r'" by simp
    with ok show ?thesis by (rule sched_ok_reservation)
  qed
  have "reservations_ok H (s\<lparr>reservations := (reservations s)(reserved_by r \<mapsto> r)\<rparr>)"
    unfolding reservations_ok_def
  proof (intro allI impI, goal_cases)
    case (1 k r')
    then have "((reservations s)(reserved_by r \<mapsto> r)) k = Some r'" by simp
    from upd [OF this] show ?case by simp
  qed
  with ok show ?thesis by (simp add: sched_ok_def)
qed

lemma update_same_generation: "e\<lparr>qe_state := p\<rparr> = e\<lparr>qe_state := p, qe_selection_generation := qe_selection_generation e\<rparr>"
  by (cases e) simp

lemma sched_ok_step:
  assumes "sched_step H s s'" and "hexdigest H" and ok: "sched_ok H s"
  shows "sched_ok H s'"
  using assms(1)
proof cases
  case issue
  then show ?thesis using ok by (auto simp: sched_ok_def reservations_ok_def)
next
  case (enqueue e)
  have "queue_ok H (sort_key qe_enqueue_sequence (queue s @ [e]))"
    by (rule queue_ok_insert [OF sched_ok_queue [OF ok] enqueue(2,5)])
  then have "queue_grows H (queue s) (sort_key qe_enqueue_sequence (queue s @ [e]))"
    unfolding queue_grows_def by (auto intro: order_refl)
  then show ?thesis unfolding enqueue(1)
    by (rule sched_ok_queue_update [OF ok]) (use ok enqueue(4) in \<open>auto simp: sched_ok_def\<close>)
next
  case (advance e p)
  note put = queue_grows_put [OF assms(2) sched_ok_queue [OF ok] advance(2) order_refl, of p,
    folded update_same_generation]
  show ?thesis unfolding advance(1)
    by (rule sched_ok_queue_update [OF ok put(1)])
      (use sched_ok_counter [OF ok] advance(2) in \<open>auto simp: put(2)\<close>)
next
  case (requeued r e t)
  have "qe_selection_generation e \<le> qe_selection_generation e + 1" by simp
  note put = queue_grows_put [OF assms(2) sched_ok_queue [OF ok] requeued(4) this, of QUEUED]
  show ?thesis unfolding requeued(1)
    by (rule sched_ok_queue_update [OF ok put(1)])
      (use sched_ok_counter [OF ok] requeued(4) in \<open>auto simp: put(2)\<close>)
next
  case (select r e)
  with bound_identity [OF select(5)] show ?thesis unfolding select(1)
    by (intro sched_ok_receipt_update [OF ok]) auto
next
  case (reserve r e)
  show ?thesis unfolding reserve(1) by (rule sched_ok_reservation_update [OF ok reserve(2,3)])
next
  case (dispatch r e r' event)
  have r': "sr_receipt_id r' = sr_receipt_id r" "sr_selection_generation r' = sr_selection_generation r"
    "same_identity r' e \<longleftrightarrow> same_identity r e"
    by (simp_all add: dispatch(7)) (simp add: sealed_receipt_def same_identity_def)
  have "sched_ok H (s\<lparr>receipts := (receipts s)(sr_receipt_id r' \<mapsto> r')\<rparr>)"
    using bound_identity [OF dispatch(5)] dispatch(4,6,8)
    by (intro sched_ok_receipt_update [OF ok]) (auto simp: r')
  then show ?thesis by (simp add: dispatch(1) r')
next
  case (finalize r e now)
  show ?thesis unfolding finalize(1)
    by (rule sched_ok_tombstone_update [OF ok finalize(2)]) (use finalize(3) in blast)
next
  case (mark r e now)
  show ?thesis unfolding mark(1)
    by (rule sched_ok_tombstone_update [OF ok mark(2)]) (use mark(3) in blast)
qed

section \<open>How entries and receipts develop\<close>

definition phase_rank :: "QueuePhase \<Rightarrow> nat" where
  "phase_rank p = (case p of QUEUED \<Rightarrow> 0 | SELECTED \<Rightarrow> 1 | DISPATCHED \<Rightarrow> 2 | RETIRED \<Rightarrow> 3)"

text \<open>
  The later entry differs in phase, generation and digest only, and generation and phase have
  not gone back: a lower phase needs a higher generation.
\<close>

definition entry_follows :: "QueueEntry \<Rightarrow> QueueEntry \<Rightarrow> bool" where
  "entry_follows e e' \<longleftrightarrow>
     e' = e\<lparr>qe_state := qe_state e', qe_content_digest := qe_content_digest e',
           qe_selection_generation := qe_selection_generation e'\<rparr>
     \<and> (qe_selection_generation e, phase_rank (qe_state e)) \<le> (qe_selection_generation e', phase_rank (qe_state e'))"

lemma entry_follows_refl: "entry_follows e e"
  by (simp add: entry_follows_def)

lemma entry_follows_trans:
  assumes "entry_follows e e'" and "entry_follows e' e''"
  shows "entry_follows e e''"
proof -
  from assms have "e'' = (e\<lparr>qe_state := qe_state e', qe_content_digest := qe_content_digest e',
      qe_selection_generation := qe_selection_generation e'\<rparr>)
      \<lparr>qe_state := qe_state e'', qe_content_digest := qe_content_digest e'',
       qe_selection_generation := qe_selection_generation e''\<rparr>"
    unfolding entry_follows_def by metis
  then have "e'' = e\<lparr>qe_state := qe_state e'', qe_content_digest := qe_content_digest e'',
      qe_selection_generation := qe_selection_generation e''\<rparr>" by simp
  with assms show ?thesis unfolding entry_follows_def by (blast intro: order_trans)
qed

lemma next_phase_rank: "next_phase p = Some p' \<Longrightarrow> phase_rank p < phase_rank p'"
  by (cases p) (auto simp: next_phase_def phase_rank_def)

lemma entry_follows_put:
  assumes "queue_ok H es" and "e \<in> set es" and "x \<in> set es" and "entry_follows e e'" and "qe_queue_id e' = qe_queue_id e"
  shows "\<exists>y \<in> set (put_entry e' es). entry_follows x y"
  unfolding put_entry_set [OF queue_ok_distinct [OF assms(1)] assms(2,5)]
  using assms(3,4) entry_follows_refl by (cases "x = e") auto

lemma entry_follows_step:
  assumes "sched_step H s s'" and ok: "sched_ok H s" and x: "x \<in> set (queue s)"
  shows "\<exists>y \<in> set (queue s'). entry_follows x y"
  using assms(1)
proof cases
  case (advance e p)
  have "entry_follows e (sealed H (e\<lparr>qe_state := p\<rparr>))"
    using next_phase_rank [OF advance(3)] by (simp add: entry_follows_def sealed_def)
  from entry_follows_put [OF sched_ok_queue [OF ok] advance(2) x this] show ?thesis
    by (simp add: advance(1))
next
  case (requeued r e t)
  have "entry_follows e (sealed H (e\<lparr>qe_state := QUEUED, qe_selection_generation := qe_selection_generation e + 1\<rparr>))"
    by (simp add: entry_follows_def sealed_def)
  from entry_follows_put [OF sched_ok_queue [OF ok] requeued(4) x this] show ?thesis
    by (simp add: requeued(1))
qed (use x entry_follows_refl in auto)

text \<open>The store as a system; the hash is SHA-256 in hexadecimal.\<close>

definition runs_from_empty :: "(string \<Rightarrow> string) \<Rightarrow> sched \<Rightarrow> bool" where
  "runs_from_empty H s \<longleftrightarrow> hexdigest H \<and> s = empty_sched"

definition sched_run :: "(string \<Rightarrow> string) \<Rightarrow> sched \<Rightarrow> sched \<Rightarrow> bool" where
  "sched_run H s s' \<longleftrightarrow> hexdigest H \<and> sched_step H s s'"

lemma empty_sched_ok: "sched_ok H empty_sched"
  by (simp add: sched_ok_def reservations_ok_def empty_sched_def queue_ok_def)

interpretation sched_entries: tracked_system "runs_from_empty H" "sched_run H" "sched_ok H"
  "\<lambda>s e. e \<in> set (queue s)" entry_follows
  for H
proof unfold_locales
  show "entry_follows x y \<Longrightarrow> entry_follows y z \<Longrightarrow> entry_follows x z" for x y z by (rule entry_follows_trans)
  show "sched_ok H s \<Longrightarrow> sched_run H s t \<Longrightarrow> x \<in> set (queue s) \<Longrightarrow> \<exists>y. y \<in> set (queue t) \<and> entry_follows x y" for s t x
    using entry_follows_step unfolding sched_run_def by blast
  show "sched_ok H s \<Longrightarrow> sched_run H s t \<Longrightarrow> sched_ok H t" for s t
    using sched_ok_step unfolding sched_run_def by blast
qed (simp_all add: runs_from_empty_def empty_sched_ok entry_follows_refl)

text \<open>A receipt that has been dispatched or recovered is final.\<close>

definition receipt_final :: "sched \<Rightarrow> ScheduleReceipt \<Rightarrow> bool" where
  "receipt_final s r \<longleftrightarrow> receipts s (sr_receipt_id r) = Some r
     \<and> (sr_phase r = RECEIPT_DISPATCHED \<or> tombstones s (sr_receipt_id r) \<noteq> None)"

lemma receipt_final_step:
  assumes "sched_step H s s'" and "receipt_final s r"
  shows "receipt_final s' r \<and> (tombstones s (sr_receipt_id r) \<noteq> None \<longrightarrow>
    tombstones s' (sr_receipt_id r) = tombstones s (sr_receipt_id r))"
  using assms(1) by cases (use assms(2) in \<open>auto simp: receipt_final_def\<close>)

interpretation final_receipts: tracked_system "runs_from_empty H" "sched_run H" "sched_ok H"
  receipt_final "(=)"
  for H
  by unfold_locales (use receipt_final_step in \<open>auto simp: sched_run_def\<close>)

section \<open>Receipt identities chosen by the selection policy\<close>

text \<open>
  The selection policy derives the identity of a receipt from the queue identity, the sequence
  number and the generation.  With such identities a selection has one receipt.
\<close>

definition policy_ids :: "sched \<Rightarrow> bool" where
  "policy_ids s \<longleftrightarrow> (\<forall>rid r. receipts s rid = Some r \<longrightarrow> (\<exists>e. same_identity r e
     \<and> qe_selection_generation e = sr_selection_generation r \<and> sr_receipt_id r = deterministic_receipt_id e))"

lemma policy_receipt_unique:
  assumes ok: "sched_ok H s" and ids: "policy_ids s" and r: "receipts s rid = Some r"
    and r': "receipts s rid' = Some r'" and same: "reserved_by r = reserved_by r'"
  shows "r = r'"
proof -
  from sched_ok_receipt [OF ok r] obtain x where x: "x \<in> set (queue s)" "same_identity r x" "sr_receipt_id r = rid" by blast
  from sched_ok_receipt [OF ok r'] obtain x' where x': "x' \<in> set (queue s)" "same_identity r' x'" "sr_receipt_id r' = rid'" by blast
  have "qe_queue_id x = qe_queue_id x'" using same x(2) x'(2) by (simp add: reserved_by_def same_identity_def)
  then have "x = x'" using queue_ok_distinct [OF sched_ok_queue [OF ok]] x(1) x'(1) by (metis distinct_map inj_onD)
  then have "sr_enqueue_sequence r = sr_enqueue_sequence r'" using x(2) x'(2) by (simp add: same_identity_def)
  moreover from ids r obtain e where "same_identity r e" "qe_selection_generation e = sr_selection_generation r"
    "sr_receipt_id r = deterministic_receipt_id e" unfolding policy_ids_def by blast
  moreover from ids r' obtain e' where "same_identity r' e'" "qe_selection_generation e' = sr_selection_generation r'"
    "sr_receipt_id r' = deterministic_receipt_id e'" unfolding policy_ids_def by blast
  ultimately have "rid = rid'" using x(3) x'(3) same
    by (simp add: deterministic_receipt_id_def same_identity_def reserved_by_def)
  with r r' show ?thesis by simp
qed

text \<open>The entry of a dispatched receipt still stands at the receipt's generation.\<close>

definition entry_locked :: "sched \<Rightarrow> ScheduleReceipt \<Rightarrow> bool" where
  "entry_locked s r \<longleftrightarrow> (\<exists>e \<in> set (queue s). same_identity r e
     \<and> qe_selection_generation e = sr_selection_generation r \<and> qe_state e \<noteq> QUEUED)"

definition dispatches_locked :: "sched \<Rightarrow> bool" where
  "dispatches_locked s \<longleftrightarrow> (\<forall>rid r. receipts s rid = Some r \<and> sr_phase r = RECEIPT_DISPATCHED \<longrightarrow> entry_locked s r)"

lemma entry_locked_put:
  assumes "queue_ok H (queue s)" and "e \<in> set (queue s)" and "entry_locked s r" and "qe_queue_id e' = qe_queue_id e"
    and "same_identity r e \<Longrightarrow> qe_selection_generation e = sr_selection_generation r \<Longrightarrow>
      same_identity r e' \<and> qe_selection_generation e' = sr_selection_generation r \<and> qe_state e' \<noteq> QUEUED"
  shows "entry_locked (s\<lparr>queue := put_entry e' (queue s)\<rparr>) r"
proof -
  from assms(3) obtain x where x: "x \<in> set (queue s)" "same_identity r x"
    "qe_selection_generation x = sr_selection_generation r" "qe_state x \<noteq> QUEUED" unfolding entry_locked_def by blast
  show ?thesis
    unfolding entry_locked_def sched.select_convs(1) sched.update_convs
    using x assms(5) put_entry_set [OF queue_ok_distinct [OF assms(1)] assms(2,4)]
    by (cases "x = e") auto
qed

lemma entry_locked_step:
  assumes "sched_step H s s'" and ok: "sched_ok H s" and ids: "policy_ids s"
    and r: "receipts s rid = Some r" "sr_phase r = RECEIPT_DISPATCHED" and locked: "entry_locked s r"
  shows "entry_locked s' r"
  using assms(1)
proof cases
  case (advance e p)
  have "p \<noteq> QUEUED" using advance(3) by (auto simp: next_phase_def split: QueuePhase.splits)
  then show ?thesis unfolding advance(1)
    by (intro entry_locked_put [OF sched_ok_queue [OF ok] advance(2) locked]) (auto simp: same_identity_def)
next
  case (requeued r0 e t)
  have "r0 = r" if "same_identity r e" "qe_selection_generation e = sr_selection_generation r"
  proof (rule policy_receipt_unique [OF ok ids requeued(2) r(1)])
    from bound_identity [OF requeued(5)] that show "reserved_by r0 = reserved_by r"
      by (simp add: reserved_by_def same_identity_def)
  qed
  with requeued(3) r(2) show ?thesis unfolding requeued(1)
    by (intro entry_locked_put [OF sched_ok_queue [OF ok] requeued(4) locked]) auto
qed (use locked in \<open>auto simp: entry_locked_def\<close>)

lemma dispatches_locked_step:
  assumes step: "sched_step H s s'" and ok: "sched_ok H s" and ids: "policy_ids s" and locked: "dispatches_locked s"
  shows "dispatches_locked s'"
  unfolding dispatches_locked_def
proof (intro allI impI, elim conjE)
  fix rid r assume r: "receipts s' rid = Some r" "sr_phase r = RECEIPT_DISPATCHED"
  show "entry_locked s' r"
  proof (cases "receipts s rid = Some r")
    case True
    with locked r(2) have "entry_locked s r" unfolding dispatches_locked_def by blast
    with entry_locked_step [OF step ok ids True r(2)] show ?thesis by blast
  next
    case False
    with step r show ?thesis
    proof cases
      case (dispatch r0 e r' event)
      with False r(1) have "r = r'" by (auto split: if_splits)
      then have "same_identity r e" "sr_selection_generation r = sr_selection_generation r0"
        using bound_identity [OF dispatch(5)] by (auto simp: dispatch(7) same_identity_def sealed_receipt_def)
      with dispatch(4) bound_identity [OF dispatch(5)] bound_selected [OF dispatch(5,3)] show ?thesis
        unfolding dispatch(1) entry_locked_def by auto
    next
      case (select r0 e)
      with False r show ?thesis by (auto split: if_splits)
    qed auto
  qed
qed

definition policy_run :: "(string \<Rightarrow> string) \<Rightarrow> sched \<Rightarrow> sched \<Rightarrow> bool" where
  "policy_run H s s' \<longleftrightarrow> sched_run H s s' \<and> policy_ids s'"

definition policy_ok :: "(string \<Rightarrow> string) \<Rightarrow> sched \<Rightarrow> bool" where
  "policy_ok H s \<longleftrightarrow> sched_ok H s \<and> policy_ids s \<and> dispatches_locked s"

interpretation policy_runs: tracked_system "runs_from_empty H" "policy_run H" "policy_ok H"
  "\<lambda>s r. receipts s (sr_receipt_id r) = Some r \<and> sr_phase r = RECEIPT_DISPATCHED \<and> entry_locked s r" "(=)"
  for H
proof unfold_locales
  show "policy_ok H s" if "runs_from_empty H s" for s
    using that empty_sched_ok by (simp add: runs_from_empty_def policy_ok_def policy_ids_def dispatches_locked_def)
      (simp add: empty_sched_def)
  show "policy_ok H t" if "policy_ok H s" "policy_run H s t" for s t
    using that sched_ok_step dispatches_locked_step unfolding policy_ok_def policy_run_def sched_run_def by blast
  show "\<exists>y. (receipts t (sr_receipt_id y) = Some y \<and> sr_phase y = RECEIPT_DISPATCHED \<and> entry_locked t y) \<and> x = y"
    if "policy_ok H s" "policy_run H s t"
      "receipts s (sr_receipt_id x) = Some x \<and> sr_phase x = RECEIPT_DISPATCHED \<and> entry_locked s x" for s t x
    using that entry_locked_step [of H s t "sr_receipt_id x" x] receipt_final_step [of H s t x]
    unfolding policy_ok_def policy_run_def sched_run_def receipt_final_def by blast
qed simp_all

end
