(* ===== verification/Scheduler_Refinement.thy ===== *)
theory Scheduler_Refinement
  imports Scheduler_Spec
begin

text \<open>
  The operations of \<open>Scheduler_Store\<close> refine \<open>Scheduler_Spec\<close>.  A disk is legible when every
  file decodes and the counter covers the queue; its view is the abstract state it stands for.
  Every write an operation performs keeps the disk legible and is one abstract step on its view,
  so stopping after any number of writes is safe.
\<close>

section \<open>The view of a disk\<close>

definition stored :: "(string \<Rightarrow> scheduler_error + 'a) \<Rightarrow> disk \<Rightarrow> store_path \<Rightarrow> 'a option" where
  "stored dec d p = (case dict_get d p of None \<Rightarrow> None | Some raw \<Rightarrow>
     (case dec raw of Inl _ \<Rightarrow> None | Inr x \<Rightarrow> Some x))"

definition view :: "(string \<Rightarrow> string) \<Rightarrow> disk \<Rightarrow> sched" where
  "view H d =
    \<lparr>queue = (case stored (decode_queue_snapshot H) d QueueFile of None \<Rightarrow> [] | Some es \<Rightarrow> es),
     counter = (case stored decode_sequence d SequenceFile of None \<Rightarrow> 0 | Some (n, _) \<Rightarrow> n),
     receipts = (\<lambda>rid. stored (decode_schedule_receipt H) d (ReceiptFile rid)),
     tombstones = (\<lambda>rid. stored decode_tombstone d (TombstoneFile rid)),
     reservations = (\<lambda>(q, g). stored (decode_schedule_receipt H) d (ReservationFile q g))\<rparr>"

definition decodable :: "(string \<Rightarrow> scheduler_error + 'a) \<Rightarrow> disk \<Rightarrow> store_path \<Rightarrow> bool" where
  "decodable dec d p \<longleftrightarrow> (\<forall>raw. dict_get d p = Some raw \<longrightarrow> (\<exists>x. dec raw = Inr x))"

definition legible :: "(string \<Rightarrow> string) \<Rightarrow> disk \<Rightarrow> bool" where
  "legible H d \<longleftrightarrow> decodable (decode_queue_snapshot H) d QueueFile \<and> decodable decode_sequence d SequenceFile
     \<and> (\<forall>rid. decodable (decode_schedule_receipt H) d (ReceiptFile rid))
     \<and> (\<forall>rid. decodable decode_tombstone d (TombstoneFile rid))
     \<and> (\<forall>q g. decodable (decode_schedule_receipt H) d (ReservationFile q g))
     \<and> sched_ok H (view H d)"

lemma stored_set: "stored dec (dict_set p b d) q =
    (if q = p then (case dec b of Inl _ \<Rightarrow> None | Inr x \<Rightarrow> Some x) else stored dec d q)"
  by (simp add: stored_def dict_simps)

lemma decodable_set: "decodable dec (dict_set p b d) q \<longleftrightarrow>
    (if q = p then \<exists>x. dec b = Inr x else decodable dec d q)"
  by (simp add: decodable_def dict_simps)

lemma legible_ok: "legible H d \<Longrightarrow> sched_ok H (view H d)"
  by (simp add: legible_def)

lemma load_queue_view: "legible H d \<Longrightarrow> load_queue H d = Inr (queue (view H d))"
  by (auto simp: legible_def load_queue_def view_def stored_def decodable_def split: option.split sum.split)

lemma load_sequence_view:
  assumes "legible H d"
  shows "load_sequence d (queue (view H d)) = Inr (counter (view H d), [1..counter (view H d)])"
proof (cases "dict_get d SequenceFile")
  case None
  then have "counter (view H d) = 0" by (simp add: view_def stored_def)
  moreover from this legible_ok [OF assms] have "queue (view H d) = []"
    using sched_ok_counter sched_ok_queue entry_valid_positive unfolding queue_ok_def entry_ok_def
    by (metis all_not_in_conv list.set(1) not_one_le_zero order_trans set_empty2)
  ultimately show ?thesis using None by (simp add: load_sequence_def)
next
  case (Some raw)
  with assms obtain n ns where dec: "decode_sequence raw = Inr (n, ns)" by (auto simp: legible_def decodable_def)
  then have n: "0 \<le> n" "ns = [1..n]" by (simp_all add: decode_sequence_iff encode_sequence_iff)
  have c: "counter (view H d) = n" using Some dec by (simp add: view_def stored_def)
  have "\<forall>e \<in> set (queue (view H d)). 1 \<le> qe_enqueue_sequence e \<and> qe_enqueue_sequence e \<le> n"
    using sched_ok_counter [OF legible_ok [OF assms]] sched_ok_queue [OF legible_ok [OF assms]] entry_valid_positive
    by (auto simp: c queue_ok_def entry_ok_def)
  then have "\<not> list_ex (\<lambda>e. qe_enqueue_sequence e > n) (queue (view H d))"
    "\<not> list_ex (\<lambda>e. qe_enqueue_sequence e \<notin> set [1..n]) (queue (view H d))"
    by (auto simp: list_ex_iff)
  then show ?thesis using Some dec n by (simp add: load_sequence_def c)
qed

lemma load_state_view:
  "legible H d \<Longrightarrow> load_state H d = Inr (queue (view H d), counter (view H d), [1..counter (view H d)])"
  by (simp add: load_state_def load_queue_view load_sequence_view)

lemma find_entry_view:
  assumes "legible H d"
  shows "find_queue_entry (queue (view H d)) q = Inr e \<longleftrightarrow> e \<in> set (queue (view H d)) \<and> qe_queue_id e = q"
proof -
  have eq: "x = y" if "x \<in> set (queue (view H d))" "y \<in> set (queue (view H d))" "qe_queue_id x = qe_queue_id y" for x y
    using that queue_ok_distinct [OF sched_ok_queue [OF legible_ok [OF assms]]] by (metis distinct_map inj_onD)
  show ?thesis
    by (auto simp: find_queue_entry_def find_None_none dest: find_Some_member intro: eq split: option.split)
qed

lemma read_receipt_view:
  assumes "legible H d" and "read_receipt_file H d rid = Inr found"
  shows "found = receipts (view H d) rid \<and> raise_first (validate_id rid ''receipt_id'' (Some ''SR-'')) = None"
  using assms by (auto simp: read_receipt_file_def view_def stored_def res_simps split: option.split_asm)

lemma read_tombstone_view:
  assumes "legible H d" and "read_tombstone d rid = Inr found"
  shows "found = tombstones (view H d) rid"
  using assms by (auto simp: read_tombstone_def view_def stored_def res_simps split: option.split_asm)

lemma reservation_view:
  assumes "legible H d" and "reservation_bytes d q g = Inr res"
  shows "(res = None \<longleftrightarrow> reservations (view H d) (q, g) = None)
    \<and> (\<forall>b r. res = Some b \<and> encode_schedule_receipt H r = Inr b \<longrightarrow> reservations (view H d) (q, g) = Some r)"
proof -
  have "decodable (decode_schedule_receipt H) d (ReservationFile q g)" using assms(1) by (simp add: legible_def)
  with assms(2) show ?thesis
    by (auto simp: reservation_bytes_def view_def stored_def decodable_def res_simps schedule_receipt_roundtrip [symmetric]
        split: option.split sum.split)
qed

section \<open>Writes and the view\<close>

lemma view_queue_write:
  "decode_queue_snapshot H b = Inr es \<Longrightarrow> view H (dict_set QueueFile b d) = (view H d)\<lparr>queue := es\<rparr>"
  by (simp add: view_def stored_set)

lemma view_sequence_write:
  "decode_sequence b = Inr (n, ns) \<Longrightarrow> view H (dict_set SequenceFile b d) = (view H d)\<lparr>counter := n\<rparr>"
  by (simp add: view_def stored_set)

lemma view_receipt_write: "decode_schedule_receipt H b = Inr r \<Longrightarrow>
    view H (dict_set (ReceiptFile rid) b d) = (view H d)\<lparr>receipts := (receipts (view H d))(rid \<mapsto> r)\<rparr>"
  by (auto simp: view_def stored_set)

lemma view_tombstone_write: "decode_tombstone b = Inr t \<Longrightarrow>
    view H (dict_set (TombstoneFile rid) b d) = (view H d)\<lparr>tombstones := (tombstones (view H d))(rid \<mapsto> t)\<rparr>"
  by (auto simp: view_def stored_set)

lemma view_reservation_write: "decode_schedule_receipt H b = Inr r \<Longrightarrow>
    view H (dict_set (ReservationFile q g) b d) = (view H d)\<lparr>reservations := (reservations (view H d))((q, g) \<mapsto> r)\<rparr>"
  by (auto simp: view_def stored_set)

lemma legible_set:
  assumes "hexdigest H" and "legible H d" and "sched_step H (view H d) (view H (dict_set p b d))"
    and "(case p of QueueFile \<Rightarrow> \<exists>es. decode_queue_snapshot H b = Inr es
      | SequenceFile \<Rightarrow> \<exists>n. decode_sequence b = Inr n
      | ReceiptFile rid \<Rightarrow> \<exists>r. decode_schedule_receipt H b = Inr r
      | TombstoneFile rid \<Rightarrow> \<exists>t. decode_tombstone b = Inr t
      | ReservationFile q g \<Rightarrow> \<exists>r. decode_schedule_receipt H b = Inr r)"
  shows "legible H (dict_set p b d)"
proof -
  have "sched_ok H (view H (dict_set p b d))"
    by (rule sched_ok_step [OF assms(3,1) legible_ok [OF assms(2)]])
  with assms(2,4) show ?thesis
    by (cases p) (simp_all add: legible_def decodable_set)
qed

text \<open>A write that is one abstract step; a sequence of them.\<close>

definition justified_write :: "(string \<Rightarrow> string) \<Rightarrow> disk \<Rightarrow> store_path \<Rightarrow> string \<Rightarrow> bool" where
  "justified_write H d p b \<longleftrightarrow> legible H (dict_set p b d) \<and> sched_step H (view H d) (view H (dict_set p b d))"

fun justified :: "(string \<Rightarrow> string) \<Rightarrow> disk \<Rightarrow> store_write list \<Rightarrow> bool" where
  "justified H d [] \<longleftrightarrow> True"
| "justified H d ((p, b) # ws) \<longleftrightarrow> justified_write H d p b \<and> justified H (dict_set p b d) ws"

lemma queue_write:
  assumes "hexdigest H" and "legible H d" and "encode_queue_snapshot H es = Inr b"
    and step: "sched_step H (view H d) ((view H d)\<lparr>queue := es\<rparr>)"
  shows "justified_write H d QueueFile b"
proof -
  have "queue_ok H es" using sched_ok_queue [OF sched_ok_step [OF step assms(1) legible_ok [OF assms(2)]]] by simp
  with assms(3) have dec: "decode_queue_snapshot H b = Inr es"
    by (simp add: queue_snapshot_roundtrip queue_ok_def entry_ok_def list_all_iff)
  with assms show ?thesis by (simp add: justified_write_def legible_set view_queue_write)
qed

lemma receipt_write:
  assumes "hexdigest H" and "legible H d" and "encode_schedule_receipt H r = Inr b"
    and step: "sched_step H (view H d) ((view H d)\<lparr>receipts := (receipts (view H d))(rid \<mapsto> r)\<rparr>)"
  shows "justified_write H d (ReceiptFile rid) b"
proof -
  from assms(3) have dec: "decode_schedule_receipt H b = Inr r" by (simp add: schedule_receipt_roundtrip)
  with assms show ?thesis by (simp add: justified_write_def legible_set view_receipt_write)
qed

lemma reservation_write:
  assumes "hexdigest H" and "legible H d" and "encode_schedule_receipt H r = Inr b"
    and step: "sched_step H (view H d) ((view H d)\<lparr>reservations := (reservations (view H d))((q, g) \<mapsto> r)\<rparr>)"
  shows "justified_write H d (ReservationFile q g) b"
proof -
  from assms(3) have dec: "decode_schedule_receipt H b = Inr r" by (simp add: schedule_receipt_roundtrip)
  with assms show ?thesis by (simp add: justified_write_def legible_set view_reservation_write)
qed

lemma tombstone_write:
  assumes "hexdigest H" and "legible H d" and "encode_tombstone t = Inr b"
    and step: "sched_step H (view H d) ((view H d)\<lparr>tombstones := (tombstones (view H d))(rid \<mapsto> t)\<rparr>)"
  shows "justified_write H d (TombstoneFile rid) b"
proof -
  from assms(3) have dec: "decode_tombstone b = Inr t" by (simp add: decode_tombstone_iff)
  with assms show ?thesis by (simp add: justified_write_def legible_set view_tombstone_write)
qed

lemma sequence_write:
  assumes "hexdigest H" and "legible H d" and "encode_sequence n ns = Inr b"
    and step: "sched_step H (view H d) ((view H d)\<lparr>counter := n\<rparr>)"
  shows "justified_write H d SequenceFile b"
proof -
  from assms(3) have dec: "decode_sequence b = Inr (n, ns)" by (simp add: decode_sequence_iff)
  with assms show ?thesis by (simp add: justified_write_def legible_set view_sequence_write)
qed

lemma justified_ensuring [intro!]:
  "(raise_first gs = None \<Longrightarrow> justified H d (snd r)) \<Longrightarrow> justified H d (snd (ensuring gs r))"
  by (auto simp: ensuring_def split: option.split)

lemma justified_reading [intro!]:
  "(\<And>x. v = Inr x \<Longrightarrow> justified H d (snd (f x))) \<Longrightarrow> justified H d (snd (reading v f))"
  by (auto simp: reading_def split: sum.split)

lemma justified_storing:
  "(\<And>b. v = Inr b \<Longrightarrow> justified_write H d p b) \<Longrightarrow>
   (\<And>b. v = Inr b \<Longrightarrow> justified_write H d p b \<Longrightarrow> justified H (dict_set p b d) (snd r)) \<Longrightarrow>
   justified H d (snd (storing p v r))"
  by (auto simp: storing_def split: sum.split)

lemma justified_ends [simp]: "justified H d (snd (returning x))" "justified H d (snd (failing e))"
  by (simp_all add: returning_def failing_def)

lemma justified_commit:
  assumes "justified H d ws" and "legible H d"
  shows "legible H (commit (take k ws) d) \<and> (sched_step H)\<^sup>*\<^sup>* (view H d) (view H (commit (take k ws) d))"
  using assms
proof (induction ws arbitrary: d k)
  case (Cons w ws)
  obtain p b where w: "w = (p, b)" by (cases w)
  show ?case
  proof (cases k)
    case (Suc j)
    from Cons.prems w have "legible H (dict_set p b d)" "sched_step H (view H d) (view H (dict_set p b d))"
      "justified H (dict_set p b d) ws" by (simp_all add: justified_write_def)
    with Cons.IH [of "dict_set p b d" j] show ?thesis
      by (auto simp: Suc w commit_def intro: converse_rtranclp_into_rtranclp)
  qed (use Cons.prems in \<open>simp add: commit_def\<close>)
qed (simp add: commit_def)

section \<open>Every operation is justified\<close>

lemma replace_entry_Inr: "replace_entry H c = Inr e \<Longrightarrow> e = sealed H c"
  by (auto simp: replace_entry_def make_queue_entry_def sealed_def res_simps)

lemma replace_receipt_Inr: "replace_receipt H c = Inr r \<Longrightarrow> r = sealed_receipt H c \<and> receipt_ok H r"
proof -
  assume "replace_receipt H c = Inr r"
  then have "r = sealed_receipt H c" "receipt_valid r"
    by (auto simp: replace_receipt_def make_schedule_receipt_def sealed_receipt_def receipt_valid_def res_simps)
  then show ?thesis
    by (simp add: receipt_ok_def sealed_receipt_def receipt_digest_def receipt_lines_ignores_digest)
qed

lemma reserve_justified:
  assumes "hexdigest H" and "legible H d"
  shows "justified H d (snd (reserve_enqueue_sequence H d))"
  unfolding reserve_enqueue_sequence_def load_queue_view [OF assms(2)] reading_def sum.case
    load_sequence_view [OF assms(2)] prod.case Let_def
  by (rule justified_storing, rule sequence_write [OF assms], assumption) (simp_all add: sched_step.issue)

lemma find_existing_None:
  "find_existing H e b es = Inr None \<Longrightarrow> \<forall>x \<in> set es. qe_queue_id x \<noteq> qe_queue_id e
     \<and> (qe_task_id x, qe_revision x) \<noteq> (qe_task_id e, qe_revision e) \<and> qe_enqueue_sequence x \<noteq> qe_enqueue_sequence e"
proof (induction es)
  case (Cons x es)
  have "and_then v (\<lambda>c. if c = b then Inr (Some x) else Inl err) \<noteq> Inr None" for v :: "scheduler_error + string" and err
    by (cases v) simp_all
  with Cons show ?case by (simp split: if_split_asm)
qed simp

lemma create_justified:
  assumes "hexdigest H" and "legible H d" and "entry_valid e"
  shows "justified H d (snd (create_queue_entry H e d))"
proof -
  have "justified H d (snd (case found of Some x \<Rightarrow> returning x
      | None \<Rightarrow> storing QueueFile (encode_queue_snapshot H (sort_key qe_enqueue_sequence (queue (view H d) @ [e]))) (returning e)))"
    if e: "qe_content_digest e = entry_digest H e" "qe_state e = QUEUED" "qe_enqueue_sequence e \<le> counter (view H d)"
      and found: "find_existing H e b (queue (view H d)) = Inr found" for b found
  proof (cases found)
    case None
    with found have "\<forall>x \<in> set (queue (view H d)). qe_queue_id x \<noteq> qe_queue_id e
     \<and> (qe_task_id x, qe_revision x) \<noteq> (qe_task_id e, qe_revision e) \<and> qe_enqueue_sequence x \<noteq> qe_enqueue_sequence e"
      using find_existing_None by blast
    then have "sched_step H (view H d) ((view H d)\<lparr>queue := sort_key qe_enqueue_sequence (queue (view H d) @ [e])\<rparr>)"
      using e assms(3) by (intro sched_step.enqueue) (simp_all add: entry_ok_def)
    then show ?thesis using None by (auto intro: justified_storing queue_write [OF assms(1,2)])
  qed simp
  then show ?thesis
    unfolding create_queue_entry_def load_state_view [OF assms(2)]
    by (auto simp: ensure_entry_digest_def simp del: split_paired_All)
qed

lemma advance_queue_justified:
  assumes "hexdigest H" and "legible H d"
  shows "justified H d (snd (advance_queue_phase H q g p event d))"
proof -
  have "justified H d (snd (storing QueueFile (encode_queue_snapshot H (put_entry u (queue (view H d)))) (returning u)))"
    if "e \<in> set (queue (view H d))" "next_phase (qe_state e) = Some p"
      and u: "replace_entry H (e\<lparr>qe_state := p\<rparr>) = Inr u" for e u
  proof (intro justified_storing queue_write [OF assms], assumption)
    show "sched_step H (view H d) ((view H d)\<lparr>queue := put_entry u (queue (view H d))\<rparr>)"
      using that(1,2) unfolding replace_entry_Inr [OF u] by (rule sched_step.advance)
  qed simp
  then show ?thesis
    unfolding advance_queue_phase_def load_state_view [OF assms(2)]
    by (auto simp: find_entry_view [OF assms(2)] split: if_split)
qed

lemma encoded_ok: "encode_schedule_receipt H r = Inr b \<Longrightarrow> receipt_ok H r"
  by (simp add: encode_receipt_iff receipt_ok_def)

lemma reservation_guard_view:
  assumes "legible H d" and "reservation_bytes d (sr_queue_id r) (sr_selection_generation r) = Inr res"
    and "encode_schedule_receipt H r = Inr b" and "raise_first (reservation_guard res b) = None"
  shows "reservations (view H d) (reserved_by r) = (if res = None then None else Some r)"
proof (cases res)
  case None
  with reservation_view [OF assms(1,2)] show ?thesis by (simp add: reserved_by_def)
next
  case (Some b')
  with assms(4) have "b' = b" by (simp add: reservation_guard_def)
  with Some reservation_view [OF assms(1,2)] assms(3) show ?thesis by (auto simp: reserved_by_def)
qed

text \<open>Writing the reservation of a stored receipt.\<close>

lemma reserve_write:
  assumes "hexdigest H" and "legible H d" and "encode_schedule_receipt H r = Inr b"
    and "receipts (view H d) (sr_receipt_id r) = Some r" and "sr_phase r = RECEIPT_SELECTED"
    and "e \<in> set (queue (view H d))" and "bound r e" and "tombstones (view H d) (sr_receipt_id r) = None"
    and "reservations (view H d) (reserved_by r) = None"
  shows "justified H d (snd (storing (ReservationFile (sr_queue_id r) (sr_selection_generation r)) (Inr b :: scheduler_error + string) (returning x)))"
proof (rule justified_storing)
  fix b' assume "(Inr b :: scheduler_error + string) = Inr b'"
  moreover have "justified_write H d (ReservationFile (sr_queue_id r) (sr_selection_generation r)) b"
    by (rule reservation_write [OF assms(1-3)])
      (use sched_step.reserve [OF assms(4-9)] in \<open>simp add: reserved_by_def\<close>)
  ultimately show "justified_write H d (ReservationFile (sr_queue_id r) (sr_selection_generation r)) b'" by simp
qed simp

lemma create_receipt_new:
  assumes "hexdigest H" and "legible H d" and b: "encode_schedule_receipt H r = Inr b"
    and "receipts (view H d) (sr_receipt_id r) = None" and "sr_phase r = RECEIPT_SELECTED"
    and e: "e \<in> set (queue (view H d))" "bound r e" and t: "tombstones (view H d) (sr_receipt_id r) = None"
    and res: "reservations (view H d) (reserved_by r) = (if res = None then None else Some r)"
  shows "justified H d (snd (storing (ReceiptFile (sr_receipt_id r)) (Inr b :: scheduler_error + string)
    (if res = None then storing (ReservationFile (sr_queue_id r) (sr_selection_generation r)) (Inr b) (returning r)
     else returning r)))"
proof (rule justified_storing)
  have "reservations (view H d) (reserved_by r) \<in> {None, Some r}" using res by simp
  from sched_step.select [OF encoded_ok [OF b] assms(5) e assms(4) t this]
  have w: "justified_write H d (ReceiptFile (sr_receipt_id r)) b" by (rule receipt_write [OF assms(1,2) b])
  fix b' assume "(Inr b :: scheduler_error + string) = Inr b'"
  then have b': "b' = b" by simp
  with w show "justified_write H d (ReceiptFile (sr_receipt_id r)) b'" by simp
  let ?d = "dict_set (ReceiptFile (sr_receipt_id r)) b' d"
  have leg: "legible H ?d" using w by (simp add: b' justified_write_def)
  have view: "view H ?d = (view H d)\<lparr>receipts := (receipts (view H d))(sr_receipt_id r \<mapsto> r)\<rparr>"
    using b by (simp add: b' view_receipt_write schedule_receipt_roundtrip)
  show "justified H ?d (snd (if res = None
      then storing (ReservationFile (sr_queue_id r) (sr_selection_generation r)) (Inr b) (returning r) else returning r))"
  proof (cases res)
    case None
    then show ?thesis
      using reserve_write [OF assms(1) leg b _ assms(5)] e t res by (simp add: view)
  qed simp
qed

lemma create_receipt_justified:
  assumes "hexdigest H" and "legible H d"
  shows "justified H d (snd (create_schedule_receipt H r d))"
  unfolding create_schedule_receipt_def load_state_view [OF assms(2)] reading_Inr prod.case
proof (intro justified_ensuring justified_reading, goal_cases)
  case (1 e tomb b found)
  then have e: "e \<in> set (queue (view H d))" "bound r e" by (simp_all add: find_entry_view [OF assms(2)] bound_def)
  from 1 have tomb: "tombstones (view H d) (sr_receipt_id r) = None"
    using read_tombstone_view [OF assms(2), of "sr_receipt_id r"] by auto
  from 1 have found: "found = receipts (view H d) (sr_receipt_id r)"
    using read_receipt_view [OF assms(2), of "sr_receipt_id r"] by blast
  show ?case
  proof (cases found)
    case None
    have "justified H d (snd (storing (ReceiptFile (sr_receipt_id r)) (Inr b :: scheduler_error + string)
      (if res = None then storing (ReservationFile (sr_queue_id r) (sr_selection_generation r)) (Inr b) (returning r)
       else returning r)))"
      if "reservation_bytes d (sr_queue_id r) (sr_selection_generation r) = Inr res"
        "raise_first (reservation_guard res b) = None" for res
      by (rule create_receipt_new [OF assms _ _ _ e tomb reservation_guard_view [OF assms(2) that(1) _ that(2)]])
        (use 1 None found in simp_all)
    then show ?thesis by (auto simp: None Let_def)
  next
    case (Some x)
    have "justified H d (snd (if res = None
      then storing (ReservationFile (sr_queue_id r) (sr_selection_generation r)) (Inr b) (returning x) else returning x))"
      if "reservation_bytes d (sr_queue_id r) (sr_selection_generation r) = Inr res"
        "raise_first (reservation_guard res b) = None" "encode_schedule_receipt H x = Inr b" for res
    proof (cases res)
      case None
      have "x = r" using that(3) 1 by (metis schedule_receipt_roundtrip sum.inject(2))
      moreover have "reservations (view H d) (reserved_by r) = None"
        using reservation_guard_view [OF assms(2) that(1) _ that(2)] None that(3) \<open>x = r\<close> by simp
      ultimately show ?thesis
        using None that(3) Some found reserve_write [OF assms _ _ _ e tomb, of b r] \<open>e \<in> _\<close> 1(1) by simp
    qed simp
    then show ?thesis by (auto simp: Some Let_def)
  qed
qed

lemma advance_receipt_justified:
  assumes "hexdigest H" and "legible H d"
  shows "justified H d (snd (advance_schedule_receipt H rid g p event d))"
proof -
  have step: "justified H d (snd (storing (ReceiptFile rid) (encode_schedule_receipt H u) (reading v f)))"
    if r: "receipts (view H d) rid = Some r" "sr_phase r = RECEIPT_SELECTED" and e: "e \<in> set (queue (view H d))" "bound r e"
      and t: "tombstones (view H d) rid = None"
      and u: "replace_receipt H (r\<lparr>sr_phase := RECEIPT_DISPATCHED, sr_dispatch_event_id := Some ev\<rparr>) = Inr u"
      and f: "\<And>d x. justified H d (snd (f x))"
    for r e u ev v and f :: "string option \<Rightarrow> ScheduleReceipt outcome"
  proof (intro justified_storing receipt_write [OF assms], assumption)
    have id: "sr_receipt_id r = rid" using sched_ok_receipt [OF legible_ok [OF assms(2)] r(1)] by blast
    show "sched_step H (view H d) ((view H d)\<lparr>receipts := (receipts (view H d))(rid \<mapsto> u)\<rparr>)"
      using sched_step.dispatch [of "view H d" r e u H ev] r e t replace_receipt_Inr [OF u] by (auto simp: id)
  qed (auto intro: f)
  show ?thesis
    unfolding advance_schedule_receipt_def load_state_view [OF assms(2)] reading_Inr prod.case
  proof (intro justified_ensuring justified_reading, goal_cases)
    case (1 found)
    note found = read_receipt_view [OF assms(2) 1(2)]
    show ?case
    proof (cases found)
      case (Some r)
      with found have r: "receipts (view H d) rid = Some r" by simp
      show ?thesis unfolding Some option.case
      proof (intro justified_ensuring justified_reading, goal_cases)
        case (1 tomb e)
        then have tomb: "tombstones (view H d) rid = None"
          using read_tombstone_view [OF assms(2), of rid] by (auto split: option.split_asm)
        from 1 have e: "e \<in> set (queue (view H d))" by (simp add: find_entry_view [OF assms(2)])
        from 1 have b: "bound r e" by (simp add: bound_def)
        show ?case
        proof (cases event)
          case (Some ev)
          then show ?thesis
            by (auto simp: bound_def [symmetric] intro!: step [OF r _ e b tomb])
        qed auto
      qed
    qed simp
  qed
qed

lemma finalize_justified:
  assumes "hexdigest H" and "legible H d"
  shows "justified H d (snd (finalize_schedule_receipt H now rid d))"
  unfolding finalize_schedule_receipt_def load_state_view [OF assms(2)] reading_Inr prod.case
proof (intro justified_ensuring justified_reading, goal_cases)
  case (1 found)
  note found = read_receipt_view [OF assms(2) 1(2)]
  show ?case
  proof (cases found)
    case (Some r)
    with found have r: "receipts (view H d) rid = Some r" by simp
    have id: "sr_receipt_id r = rid" using sched_ok_receipt [OF legible_ok [OF assms(2)] r] by blast
    show ?thesis unfolding Some option.case
    proof (intro justified_ensuring justified_reading, goal_cases)
      case (1 e tomb)
      then have e: "e \<in> set (queue (view H d))" "bound r e" "sr_phase r = RECEIPT_DISPATCHED"
        by (simp_all add: find_entry_view [OF assms(2)] bound_def)
      show ?case
      proof (cases tomb)
        case None
        with 1 have t: "tombstones (view H d) rid = None" using read_tombstone_view [OF assms(2)] by simp
        have "sched_step H (view H d) ((view H d)\<lparr>tombstones := (tombstones (view H d))(rid \<mapsto> tombstone_for ''finalized'' r now)\<rparr>)"
          using sched_step.finalize [of "view H d" r e H now] r e t by (simp add: id)
        then show ?thesis unfolding None option.case
          by (intro justified_storing tombstone_write [OF assms]) (simp_all add: tombstone_for_def)
      qed auto
    qed
  qed simp
qed

lemma requeue_justified:
  assumes "hexdigest H" and "legible H d" and "receipts (view H d) rid = Some r" and "sr_phase r = RECEIPT_SELECTED"
    and "e \<in> set (queue (view H d))" and "bound r e" and "tombstones (view H d) rid = Some t"
    and "tb_kind t = ''selected_recovery''" and "g = qe_selection_generation e"
  shows "justified H d (snd (requeue H g e (queue (view H d))))"
proof -
  have id: "sr_receipt_id r = rid" using sched_ok_receipt [OF legible_ok [OF assms(2)] assms(3)] by blast
  have "justified H d (snd (storing QueueFile (encode_queue_snapshot H (put_entry u (queue (view H d)))) (returning u)))"
    if u: "replace_entry H (e\<lparr>qe_state := QUEUED, qe_selection_generation := g + 1\<rparr>) = Inr u" for u
  proof (intro justified_storing queue_write [OF assms(1,2)], assumption)
    show "sched_step H (view H d) ((view H d)\<lparr>queue := put_entry u (queue (view H d))\<rparr>)"
      using sched_step.requeued [of "view H d" r e t H] assms(3-8) unfolding replace_entry_Inr [OF u] assms(9)
      by (simp add: id)
  qed simp
  then show ?thesis unfolding requeue_def by auto
qed

lemma recover_justified:
  assumes "hexdigest H" and "legible H d"
  shows "justified H d (snd (recover_selected_without_dispatch H now q g rid d))"
  unfolding recover_selected_without_dispatch_def load_state_view [OF assms(2)] reading_Inr prod.case
proof (intro justified_ensuring justified_reading, goal_cases)
  case (1 e tomb)
  then have e: "e \<in> set (queue (view H d))" "qe_queue_id e = q" by (simp_all add: find_entry_view [OF assms(2)])
  from 1 have tomb: "tombstones (view H d) rid = tomb" using read_tombstone_view [OF assms(2)] by blast
  show ?case
  proof (cases tomb)
    case (Some t)
    show ?thesis unfolding Some option.case
    proof (intro justified_ensuring justified_reading, goal_cases)
      case (1 found)
      note found = read_receipt_view [OF assms(2) 1(2)]
      show ?case
      proof (cases found)
        case (Some r)
        from 1(1) have "tb_kind t = ''selected_recovery''" by simp
        then show ?thesis unfolding Some option.case
          using requeue_justified [OF assms _ _ e(1), of rid r t] found Some tomb \<open>tomb = Some t\<close>
          by (auto simp: bound_def split: if_split)
      qed simp
    qed
  next
    case None
    show ?thesis unfolding None option.case
    proof (intro justified_ensuring justified_reading, goal_cases)
      case (1 found)
      note found = read_receipt_view [OF assms(2) 1(2)]
      from 1(1) have g: "g = qe_selection_generation e" by simp
      show ?case
      proof (cases found)
        case (Some r)
        with found have r: "receipts (view H d) rid = Some r" by simp
        show ?thesis unfolding Some option.case
        proof (intro justified_ensuring, goal_cases)
          case 1
          then have b: "sr_phase r = RECEIPT_SELECTED" "bound r e" by (simp_all add: bound_def)
          have id: "sr_receipt_id r = rid" using sched_ok_receipt [OF legible_ok [OF assms(2)] r] by blast
          have "q = sr_queue_id r" "g = sr_selection_generation r"
            using bound_identity [OF b(2)] e(2) g by (simp_all add: same_identity_def)
          then have t: "tombstone_for ''selected_recovery'' r now =
             \<lparr>tb_kind = ''selected_recovery'', tb_receipt_id = rid, tb_queue_id = q,
              tb_selection_generation = g, tb_next_selection_generation = Some (g + 1),
              tb_receipt_digest = sr_content_digest r, tb_created_at = now\<rparr>"
            by (simp add: tombstone_for_def id)
          have "sched_step H (view H d) ((view H d)\<lparr>tombstones := (tombstones (view H d))(rid \<mapsto>
              tombstone_for ''selected_recovery'' r now)\<rparr>)"
            using sched_step.mark [of "view H d" r e H now] r b e(1) tomb None by (simp add: id)
          note put = tombstone_write [OF assms _ this]
          show ?case unfolding t [symmetric]
          proof (rule justified_storing [OF put], assumption)
            fix raw assume raw: "encode_tombstone (tombstone_for ''selected_recovery'' r now) = Inr raw"
              and w: "justified_write H d (TombstoneFile rid) raw"
            let ?d = "dict_set (TombstoneFile rid) raw d"
            have view: "view H ?d = (view H d)\<lparr>tombstones := (tombstones (view H d))(rid \<mapsto>
                tombstone_for ''selected_recovery'' r now)\<rparr>"
              using raw by (simp add: view_tombstone_write decode_tombstone_iff)
            have leg: "legible H ?d" using w by (simp add: justified_write_def)
            show "justified H ?d (snd (requeue H g e (queue (view H d))))"
              using requeue_justified [OF assms(1) leg, of rid r e "tombstone_for ''selected_recovery'' r now" g] r b e(1) g
              by (simp add: view tombstone_for_def)
          qed
        qed
      qed simp
    qed
  qed
qed

section \<open>When the operations succeed\<close>

lemma reserve_succeeds:
  assumes "legible H d"
  shows "\<exists>b. reserve_enqueue_sequence H d = (Inr (counter (view H d) + 1), [(SequenceFile, b)])
    \<and> decode_sequence b = Inr (counter (view H d) + 1, [1..counter (view H d) + 1])"
proof -
  have c: "0 \<le> counter (view H d)" using sched_ok_counter [OF legible_ok [OF assms]] by blast
  then have "[1..counter (view H d)] @ [counter (view H d) + 1] = [1..counter (view H d) + 1]"
    by (simp add: upto_rec2)
  with c show ?thesis
    by (simp add: reserve_enqueue_sequence_def load_queue_view load_sequence_view assms Let_def storing_def
        returning_def encode_sequence_def decode_sequence_iff)
qed

lemma snapshot_encodable:
  assumes "queue_ok H es"
  shows "\<exists>b. encode_queue_snapshot H es = Inr b \<and> decode_queue_snapshot H b = Inr es"
  using assms by (simp add: queue_ok_iff queue_snapshot_roundtrip encode_snapshot_iff list_all_iff)

lemma find_existing_fresh:
  assumes "\<forall>x \<in> set es. qe_queue_id x \<noteq> qe_queue_id e \<and> (qe_task_id x, qe_revision x) \<noteq> (qe_task_id e, qe_revision e)
    \<and> qe_enqueue_sequence x \<noteq> qe_enqueue_sequence e"
  shows "find_existing H e b es = Inr None"
  using assms by (induction es) auto

lemma create_succeeds:
  assumes "legible H d" and e: "entry_ok H e" "qe_state e = QUEUED" "qe_enqueue_sequence e \<le> counter (view H d)"
    and fresh: "\<forall>x \<in> set (queue (view H d)). qe_queue_id x \<noteq> qe_queue_id e
      \<and> (qe_task_id x, qe_revision x) \<noteq> (qe_task_id e, qe_revision e) \<and> qe_enqueue_sequence x \<noteq> qe_enqueue_sequence e"
  shows "\<exists>b. create_queue_entry H e d = (Inr e, [(QueueFile, b)])
    \<and> decode_queue_snapshot H b = Inr (sort_key qe_enqueue_sequence (queue (view H d) @ [e]))"
proof -
  obtain b where b: "encode_queue_snapshot H (sort_key qe_enqueue_sequence (queue (view H d) @ [e])) = Inr b"
    "decode_queue_snapshot H b = Inr (sort_key qe_enqueue_sequence (queue (view H d) @ [e]))"
    using snapshot_encodable [OF queue_ok_insert [OF sched_ok_queue [OF legible_ok [OF assms(1)]] e(1) fresh]] by blast
  have valid: "raise_first (validate_queue_entry_fields e) = None" "qe_content_digest e = entry_digest H e"
    "1 \<le> qe_enqueue_sequence e"
    using e(1) entry_valid_positive [of e] by (simp_all add: entry_ok_def entry_valid_def)
  then show ?thesis
    using b e find_existing_fresh [OF fresh]
    by (simp add: create_queue_entry_def load_state_view [OF assms(1)] ensure_entry_digest_def
        encode_queue_entry_def storing_def returning_def)
qed

lemma replace_entry_succeeds:
  assumes "entry_ok H e" and "hexdigest H" and "1 \<le> g"
  shows "replace_entry H (e\<lparr>qe_state := p, qe_selection_generation := g\<rparr>) =
    Inr (sealed H (e\<lparr>qe_state := p, qe_selection_generation := g\<rparr>))"
proof -
  let ?c = "e\<lparr>qe_state := p, qe_selection_generation := g\<rparr>"
  have "raise_first (validate_queue_entry_fields ?c) = None"
  proof -
    from assms(1) have "raise_first (validate_queue_entry_fields e) = None" by (simp add: entry_ok_def entry_valid_def)
    then show ?thesis using assms(3) by (simp add: validate_queue_entry_fields_def)
  qed
  moreover have "raise_first (validate_queue_entry_fields (sealed H ?c)) = None"
    using entry_ok_sealed [OF assms] by (simp add: entry_ok_def entry_valid_def)
  ultimately show ?thesis by (simp add: replace_entry_def make_queue_entry_def sealed_def)
qed

lemma advance_queue_succeeds:
  assumes "hexdigest H" and "legible H d" and e: "e \<in> set (queue (view H d))" and p: "next_phase (qe_state e) = Some p"
    and "raise_first (event_guards event) = None" and "event \<noteq> None \<longleftrightarrow> p = DISPATCHED"
    and "raise_first (validate_id (qe_queue_id e) ''queue_id'' (Some ''Q-'')) = None"
  shows "\<exists>b. advance_queue_phase H (qe_queue_id e) (qe_selection_generation e) p event d =
      (Inr (sealed H (e\<lparr>qe_state := p\<rparr>)), [(QueueFile, b)])
    \<and> decode_queue_snapshot H b = Inr (put_entry (sealed H (e\<lparr>qe_state := p\<rparr>)) (queue (view H d)))"
proof -
  have ok: "entry_ok H e" using sched_ok_queue [OF legible_ok [OF assms(2)]] e by (simp add: queue_ok_def)
  then have g: "1 \<le> qe_selection_generation e" using entry_valid_positive by (simp add: entry_ok_def)
  have "queue_ok H (put_entry (sealed H (e\<lparr>qe_state := p\<rparr>)) (queue (view H d)))"
    using sched_ok_queue [OF sched_ok_step [OF sched_step.advance [OF e p] assms(1) legible_ok [OF assms(2)]]] by simp
  from snapshot_encodable [OF this] obtain b
    where b: "encode_queue_snapshot H (put_entry (sealed H (e\<lparr>qe_state := p\<rparr>)) (queue (view H d))) = Inr b"
      "decode_queue_snapshot H b = Inr (put_entry (sealed H (e\<lparr>qe_state := p\<rparr>)) (queue (view H d)))" by blast
  have "find_queue_entry (queue (view H d)) (qe_queue_id e) = Inr e" using e find_entry_view [OF assms(2)] by blast
  moreover have "qe_state e \<noteq> p" using p by (auto simp: next_phase_def split: QueuePhase.splits)
  moreover have "replace_entry H (e\<lparr>qe_state := p\<rparr>) = Inr (sealed H (e\<lparr>qe_state := p\<rparr>))"
    using replace_entry_succeeds [OF ok assms(1) g, of p, folded update_same_generation] .
  ultimately show ?thesis using b g p assms(5-7)
    by (auto simp: advance_queue_phase_def load_state_view [OF assms(2)] storing_def returning_def)
qed

text \<open>The state after a write.\<close>

lemma after_queue_write:
  assumes "justified H d [(QueueFile, b)]" and "decode_queue_snapshot H b = Inr es"
  shows "legible H (commit [(QueueFile, b)] d) \<and> view H (commit [(QueueFile, b)] d) = (view H d)\<lparr>queue := es\<rparr>"
  using assms by (simp add: commit_def justified_write_def view_queue_write)

lemma receipt_ok_ids:
  assumes "receipt_ok H r"
  shows "raise_first (validate_id (sr_receipt_id r) ''receipt_id'' (Some ''SR-'')) = None"
    "raise_first (validate_id (sr_queue_id r) ''queue_id'' (Some ''Q-'')) = None"
    "1 \<le> sr_selection_generation r"
  using assms by (auto simp: receipt_ok_def receipt_valid_def validate_schedule_receipt_fields_def split: prod.splits)

lemma entry_ok_id:
  "entry_ok H e \<Longrightarrow> raise_first (validate_id (qe_queue_id e) ''queue_id'' (Some ''Q-'')) = None"
  by (simp add: entry_ok_def entry_valid_def validate_queue_entry_fields_def)

lemma receipt_encodable:
  "receipt_ok H r \<Longrightarrow> \<exists>b. encode_schedule_receipt H r = Inr b \<and> decode_schedule_receipt H b = Inr r"
  by (simp add: schedule_receipt_roundtrip encode_receipt_iff receipt_ok_def)

lemma read_receipt_succeeds:
  assumes "legible H d" and "raise_first (validate_id rid ''receipt_id'' (Some ''SR-'')) = None"
  shows "read_receipt_file H d rid = Inr (receipts (view H d) rid)"
proof -
  have "decodable (decode_schedule_receipt H) d (ReceiptFile rid)" using assms(1) by (simp add: legible_def)
  with assms(2) show ?thesis
    by (auto simp: read_receipt_file_def view_def stored_def decodable_def split: option.split sum.split)
qed

lemma read_tombstone_succeeds:
  assumes "legible H d" and "raise_first (validate_id rid ''receipt_id'' (Some ''SR-'')) = None"
  shows "read_tombstone d rid = Inr (tombstones (view H d) rid)"
proof -
  have "decodable decode_tombstone d (TombstoneFile rid)" using assms(1) by (simp add: legible_def)
  with assms(2) show ?thesis
    by (auto simp: read_tombstone_def view_def stored_def decodable_def split: option.split sum.split)
qed

lemma reservation_bytes_view:
  assumes "legible H d" and "raise_first (validate_id q ''queue_id'' (Some ''Q-'')) = None" and "1 \<le> g"
  shows "\<exists>res. reservation_bytes d q g = Inr res \<and> (case res of None \<Rightarrow> reservations (view H d) (q, g) = None
    | Some b \<Rightarrow> \<exists>r. reservations (view H d) (q, g) = Some r \<and> encode_schedule_receipt H r = Inr b)"
proof -
  have "decodable (decode_schedule_receipt H) d (ReservationFile q g)" using assms(1) by (simp add: legible_def)
  with assms(2,3) show ?thesis
    by (auto simp: reservation_bytes_def view_def stored_def decodable_def schedule_receipt_roundtrip [symmetric] split: option.split)
qed

lemma create_receipt_succeeds:
  assumes "legible H d" and r: "receipt_ok H r" "sr_phase r = RECEIPT_SELECTED"
    and e: "e \<in> set (queue (view H d))" "bound r e"
    and "receipts (view H d) (sr_receipt_id r) = None" and "tombstones (view H d) (sr_receipt_id r) = None"
    and "reservations (view H d) (reserved_by r) = None"
  shows "\<exists>b. create_schedule_receipt H r d =
      (Inr r, [(ReceiptFile (sr_receipt_id r), b), (ReservationFile (sr_queue_id r) (sr_selection_generation r), b)])
    \<and> decode_schedule_receipt H b = Inr r"
proof -
  obtain b where b: "encode_schedule_receipt H r = Inr b" "decode_schedule_receipt H b = Inr r"
    using receipt_encodable [OF r(1)] by blast
  note ids = receipt_ok_ids [OF r(1)]
  have "find_queue_entry (queue (view H d)) (sr_queue_id r) = Inr e"
    using e bound_identity [OF e(2)] by (simp add: find_entry_view [OF assms(1)] same_identity_def)
  moreover have "reservation_bytes d (sr_queue_id r) (sr_selection_generation r) = Inr None"
    using reservation_bytes_view [OF assms(1) ids(2,3)] assms(8) by (auto simp: reserved_by_def split: option.splits)
  moreover have "raise_first (validate_schedule_receipt_fields r) = None" "sr_content_digest r = receipt_digest H r"
    using r(1) by (simp_all add: receipt_ok_def receipt_valid_def)
  moreover have "raise_first (validate_receipt_binding r e) = None" using e(2) by (simp add: bound_def)
  ultimately show ?thesis using b assms(6,7) r(2)
    by (simp add: create_schedule_receipt_def load_state_view [OF assms(1)] ensure_receipt_digest_def Let_def
        read_tombstone_succeeds [OF assms(1) ids(1)] read_receipt_succeeds [OF assms(1) ids(1)]
        reservation_guard_def storing_def returning_def)
qed

text \<open>
  Dispatching a selected receipt: the receipt file is replaced first, and only then is the
  reservation compared.
\<close>

lemma dispatch_outcome:
  assumes "hexdigest H" and "legible H d" and r: "receipts (view H d) rid = Some r" "sr_phase r = RECEIPT_SELECTED"
    and e: "e \<in> set (queue (view H d))" "bound r e" and t: "tombstones (view H d) rid = None"
    and ev: "raise_first (event_guards (Some ev)) = None"
  shows "\<exists>b r'. r' = sealed_receipt H (r\<lparr>sr_phase := RECEIPT_DISPATCHED, sr_dispatch_event_id := Some ev\<rparr>)
    \<and> decode_schedule_receipt H b = Inr r'
    \<and> advance_schedule_receipt H rid (sr_selection_generation r) RECEIPT_DISPATCHED (Some ev) d =
       (if reservations (view H d) (reserved_by r) \<in> {None, Some r} then Inr r'
        else Inl (PortfolioSchedulerConflictError ''reservation_divergent''), [(ReceiptFile rid, b)])"
proof -
  let ?c = "r\<lparr>sr_phase := RECEIPT_DISPATCHED, sr_dispatch_event_id := Some ev\<rparr>"
  have ok: "receipt_ok H r" "sr_receipt_id r = rid" using sched_ok_receipt [OF legible_ok [OF assms(2)] r(1)] by blast+
  note ids = receipt_ok_ids [OF ok(1), unfolded ok(2)]
  have valid: "raise_first (validate_schedule_receipt_fields ?c) = None"
    using ok(1) ev by (auto simp: receipt_ok_def receipt_valid_def validate_schedule_receipt_fields_def
        event_guards_def split: prod.splits)
  have sealed: "raise_first (validate_schedule_receipt_fields (sealed_receipt H ?c)) = None"
    using valid hexdigest_valid [OF assms(1)]
    by (auto simp: sealed_receipt_def validate_schedule_receipt_fields_def receipt_digest_def split: prod.splits)
  then have rep: "replace_receipt H ?c = Inr (sealed_receipt H ?c)"
    using valid by (simp add: replace_receipt_def make_schedule_receipt_def sealed_receipt_def)
  then have ok': "receipt_ok H (sealed_receipt H ?c)" using replace_receipt_Inr by blast
  obtain b where b: "encode_schedule_receipt H (sealed_receipt H ?c) = Inr b"
    "decode_schedule_receipt H b = Inr (sealed_receipt H ?c)" using receipt_encodable [OF ok'] by blast
  obtain old where old: "encode_schedule_receipt H r = Inr old" "decode_schedule_receipt H old = Inr r"
    using receipt_encodable [OF ok(1)] by blast
  obtain res where res: "reservation_bytes d (sr_queue_id r) (sr_selection_generation r) = Inr res"
    and res': "case res of None \<Rightarrow> reservations (view H d) (reserved_by r) = None
      | Some b \<Rightarrow> \<exists>x. reservations (view H d) (reserved_by r) = Some x \<and> encode_schedule_receipt H x = Inr b"
    using reservation_bytes_view [OF assms(2) ids(2,3)] unfolding reserved_by_def by blast
  have guard: "ensuring (reservation_guard res old) (returning (sealed_receipt H ?c)) =
      (if reservations (view H d) (reserved_by r) \<in> {None, Some r} then returning (sealed_receipt H ?c)
       else failing (PortfolioSchedulerConflictError ''reservation_divergent''))"
  proof (cases res)
    case (Some c)
    with res' obtain x where x: "reservations (view H d) (reserved_by r) = Some x" "encode_schedule_receipt H x = Inr c"
      by auto
    have "c = old \<longleftrightarrow> x = r" using x(2) old by (metis schedule_receipt_roundtrip sum.inject(2))
    with Some x(1) show ?thesis by (auto simp: reservation_guard_def ensuring_def failing_def)
  qed (use res' in \<open>simp add: reservation_guard_def\<close>)
  have "find_queue_entry (queue (view H d)) (sr_queue_id r) = Inr e"
    using e bound_identity [OF e(2)] by (simp add: find_entry_view [OF assms(2)] same_identity_def)
  moreover have "raise_first (validate_receipt_binding r e) = None" using e(2) by (simp add: bound_def)
  ultimately have "advance_schedule_receipt H rid (sr_selection_generation r) RECEIPT_DISPATCHED (Some ev) d =
      storing (ReceiptFile rid) (Inr b) (ensuring (reservation_guard res old) (returning (sealed_receipt H ?c)))"
    using ids ev r t rep b old res
    by (simp add: advance_schedule_receipt_def load_state_view [OF assms(2)] read_tombstone_succeeds [OF assms(2) ids(1)]
        read_receipt_succeeds [OF assms(2) ids(1)])
  with b(2) show ?thesis unfolding guard
    by (auto simp: storing_def returning_def failing_def)
qed

lemma recover_succeeds:
  assumes "hexdigest H" and "legible H d" and r: "receipts (view H d) rid = Some r" "sr_phase r = RECEIPT_SELECTED"
    and e: "e \<in> set (queue (view H d))" "bound r e"
    and now: "raise_first (validate_timestamp now ''tombstone_created_at'') = None"
    and t: "tombstones (view H d) rid \<in> {None, Some (tombstone_for ''selected_recovery'' r now')}"
  shows "\<exists>b ws. recover_selected_without_dispatch H now (sr_queue_id r) (sr_selection_generation r) rid d =
      (Inr (sealed H (e\<lparr>qe_state := QUEUED, qe_selection_generation := qe_selection_generation e + 1\<rparr>)), ws @ [(QueueFile, b)])
    \<and> (case tombstones (view H d) rid of Some _ \<Rightarrow> ws = [] | None \<Rightarrow> (\<exists>c. ws = [(TombstoneFile rid, c)]
        \<and> decode_tombstone c = Inr (tombstone_for ''selected_recovery'' r now)))
    \<and> decode_queue_snapshot H b = Inr (put_entry (sealed H (e\<lparr>qe_state := QUEUED,
        qe_selection_generation := qe_selection_generation e + 1\<rparr>)) (queue (view H d)))"
proof -
  let ?g = "qe_selection_generation e + 1"
  let ?e = "sealed H (e\<lparr>qe_state := QUEUED, qe_selection_generation := ?g\<rparr>)"
  note q = sched_ok_queue [OF legible_ok [OF assms(2)]]
  have ok: "receipt_ok H r" "sr_receipt_id r = rid" using sched_ok_receipt [OF legible_ok [OF assms(2)] r(1)] by blast+
  note ids = receipt_ok_ids [OF ok(1), unfolded ok(2)]
  have eok: "entry_ok H e" using q e(1) by (simp add: queue_ok_def)
  have same: "sr_queue_id r = qe_queue_id e" "sr_selection_generation r = qe_selection_generation e" "qe_state e = SELECTED"
    using bound_identity [OF e(2)] bound_selected [OF e(2) r(2)] by (simp_all add: same_identity_def)
  have g: "1 \<le> ?g" using ids(3) same(2) by simp
  note rep = replace_entry_succeeds [OF eok assms(1) g, of QUEUED]
  have "queue_ok H (put_entry ?e (queue (view H d)))"
    by (rule queue_ok_put [OF q e(1) entry_ok_sealed [OF eok assms(1) g]]) simp_all
  from snapshot_encodable [OF this] obtain b
    where b: "encode_queue_snapshot H (put_entry ?e (queue (view H d))) = Inr b"
      "decode_queue_snapshot H b = Inr (put_entry ?e (queue (view H d)))" by blast
  have requeue: "requeue H (qe_selection_generation e) e (queue (view H d)) = (Inr ?e, [(QueueFile, b)])"
    using rep b(1) by (simp add: requeue_def storing_def returning_def)
  have tomb: "\<lparr>tb_kind = ''selected_recovery'', tb_receipt_id = rid, tb_queue_id = qe_queue_id e,
      tb_selection_generation = qe_selection_generation e,
      tb_next_selection_generation = Some (qe_selection_generation e + 1),
      tb_receipt_digest = sr_content_digest r, tb_created_at = now\<rparr> = tombstone_for ''selected_recovery'' r now"
    by (simp add: tombstone_for_def ok(2) same)
  have digest: "raise_first (validate_digest (sr_content_digest r) code) = None" for code
    using ok(1) hexdigest_valid [OF assms(1)] by (simp add: receipt_ok_def receipt_digest_def)
  have "raise_first (validate_id x ''tombstone_receipt'' p) = None \<longleftrightarrow> raise_first (validate_id x ''receipt_id'' p) = None"
    "raise_first (validate_id x ''tombstone_queue'' p) = None \<longleftrightarrow> raise_first (validate_id x ''queue_id'' p) = None" for x p
    by (simp_all add: validate_id_def)
  then have "raise_first (validate_tombstone (tombstone_for ''selected_recovery'' r now)) = None"
    using ids now same digest by (simp add: validate_tombstone_def tombstone_for_def ok(2))
  then obtain c where c: "encode_tombstone (tombstone_for ''selected_recovery'' r now) = Inr c"
    "decode_tombstone c = Inr (tombstone_for ''selected_recovery'' r now)"
    by (auto simp: decode_tombstone_iff encode_tombstone_iff)
  have find: "find_queue_entry (queue (view H d)) (qe_queue_id e) = Inr e"
    using e find_entry_view [OF assms(2)] by blast
  have bind: "raise_first (validate_receipt_binding r e) = None" using e(2) by (simp add: bound_def)
  note load = load_state_view [OF assms(2)] read_tombstone_succeeds [OF assms(2) ids(1)] read_receipt_succeeds [OF assms(2) ids(1)]
  show ?thesis
  proof (cases "tombstones (view H d) rid")
    case None
    then have "recover_selected_without_dispatch H now (qe_queue_id e) (qe_selection_generation e) rid d =
        (Inr ?e, [(TombstoneFile rid, c)] @ [(QueueFile, b)])"
      using ids same r bind find g
      by (simp add: recover_selected_without_dispatch_def load tomb c requeue storing_def)
    with None b c same show ?thesis by auto
  next
    case (Some t)
    then have t: "t = tombstone_for ''selected_recovery'' r now'" using assms(8) by simp
    have "recover_selected_without_dispatch H now (qe_queue_id e) (qe_selection_generation e) rid d =
        (Inr ?e, [] @ [(QueueFile, b)])"
      using ids same r bind find g Some
      by (simp add: recover_selected_without_dispatch_def load requeue t)
        (simp add: tombstone_for_def validate_tombstone_for_receipt_def ok(2) same)
    with Some b same show ?thesis by auto
  qed
qed

end
