(* ===== verification/Scheduler_Guarantees.thy ===== *)
theory Scheduler_Guarantees
  imports Scheduler_Refinement
begin

text \<open>
  What the scheduler store guarantees to its callers, over any sequence of operations, each of
  which may crash after any of its writes.
\<close>

datatype store_op =
    ReserveSequence
  | CreateEntry QueueEntry
  | AdvanceQueue string int QueuePhase "string option"
  | CreateReceipt ScheduleReceipt
  | AdvanceReceipt string int ReceiptPhase "string option"
  | FinalizeReceipt string string
  | RecoverSelected string string int string

definition op_writes :: "(string \<Rightarrow> string) \<Rightarrow> store_op \<Rightarrow> disk \<Rightarrow> store_write list" where
  "op_writes H op d = (case op of
      ReserveSequence \<Rightarrow> snd (reserve_enqueue_sequence H d)
    | CreateEntry e \<Rightarrow> snd (create_queue_entry H e d)
    | AdvanceQueue q g p event \<Rightarrow> snd (advance_queue_phase H q g p event d)
    | CreateReceipt r \<Rightarrow> snd (create_schedule_receipt H r d)
    | AdvanceReceipt rid g p event \<Rightarrow> snd (advance_schedule_receipt H rid g p event d)
    | FinalizeReceipt now rid \<Rightarrow> snd (finalize_schedule_receipt H now rid d)
    | RecoverSelected now q g rid \<Rightarrow> snd (recover_selected_without_dispatch H now q g rid d))"

text \<open>A queue entry exists only if its constructors accepted it.\<close>

definition op_ok :: "store_op \<Rightarrow> bool" where
  "op_ok op = (case op of CreateEntry e \<Rightarrow> entry_valid e | _ \<Rightarrow> True)"

text \<open>The operation runs until it ends or crashes: some of its writes are done, in order.\<close>

inductive store_step :: "(string \<Rightarrow> string) \<Rightarrow> disk \<Rightarrow> disk \<Rightarrow> bool" for H :: "string \<Rightarrow> string" where
  run: "hexdigest H \<Longrightarrow> op_ok op \<Longrightarrow> store_step H d (commit (take k (op_writes H op d)) d)"

inductive_cases store_stepE: "store_step H d d'"

lemma op_justified:
  assumes "hexdigest H" and "legible H d" and "op_ok op"
  shows "justified H d (op_writes H op d)"
  using assms
  by (cases op) (simp_all add: op_writes_def op_ok_def reserve_justified create_justified advance_queue_justified
      create_receipt_justified advance_receipt_justified finalize_justified recover_justified)

lemma empty_view: "view H [] = empty_sched"
  by (auto simp: view_def stored_def empty_sched_def fun_eq_iff)

lemma empty_legible: "legible H []"
  by (simp add: legible_def decodable_def empty_view empty_sched_ok)

lemma store_step_view:
  assumes "store_step H d d'" and "legible H d"
  shows "legible H d' \<and> (sched_run H)\<^sup>*\<^sup>* (view H d) (view H d')"
  using assms(1)
proof cases
  case (run op k)
  from justified_commit [OF op_justified [OF run(2) assms(2) run(3)] assms(2), of k]
  have "legible H d'" and steps: "(sched_step H)\<^sup>*\<^sup>* (view H d) (view H d')" by (simp_all add: run(1))
  have "sched_step H \<le> sched_run H" using run(2) by (auto simp: sched_run_def)
  from rtranclp_mono [OF this] steps \<open>legible H d'\<close> show ?thesis by blast
qed

interpretation store_entries: tracked_system "\<lambda>d. d = []" "store_step H" "legible H"
  "\<lambda>d e. e \<in> set (queue (view H d))" entry_follows
  for H
proof unfold_locales
  show "\<exists>y. y \<in> set (queue (view H t)) \<and> entry_follows x y"
    if "legible H s" "store_step H s t" "x \<in> set (queue (view H s))" for s t x
    using sched_entries.steps_track [OF store_step_view [OF that(2,1), THEN conjunct2] legible_ok [OF that(1)]] that(3)
    by blast
  show "legible H s \<Longrightarrow> store_step H s t \<Longrightarrow> legible H t" for s t using store_step_view by blast
qed (simp_all add: empty_legible entry_follows_refl, rule entry_follows_trans)


section \<open>Properties\<close>




lemma fenced_receipt_unusable:
  assumes "legible H d" and final: "receipt_final (view H d) r" "sr_receipt_id r = rid" "sr_phase r = RECEIPT_SELECTED"
  shows "(\<exists>err. advance_schedule_receipt H rid g p event d = (Inl err, []))
    \<and> read_schedule_receipt H rid d = Inl (PortfolioSchedulerTransitionError ''receipt_recovered'')"
proof -
  from final have r: "receipts (view H d) rid = Some r" and "tombstones (view H d) rid \<noteq> None"
    by (auto simp: receipt_final_def)
  then obtain t where t: "tombstones (view H d) rid = Some t" by blast
  from sched_ok_tombstone [OF legible_ok [OF assms(1)] t] r final(3) obtain now
    where t': "t = tombstone_for ''selected_recovery'' r now" by auto
  have "receipt_ok H r" using sched_ok_receipt [OF legible_ok [OF assms(1)] r] by blast
  note ids = receipt_ok_ids [OF this, unfolded final(2)]
  note load = read_tombstone_succeeds [OF assms(1) ids(1)] read_receipt_succeeds [OF assms(1) ids(1)]
  have "\<exists>err. advance_schedule_receipt H rid g p event d = (Inl err, [])"
  proof (cases "raise_first (validate_id rid ''receipt_id'' (Some ''SR-'') @
      validate_int g ''expected_generation'' 1 @ event_guards event)")
    case None
    then show ?thesis
      by (simp add: advance_schedule_receipt_def load r t) (simp add: ensuring_def split: option.split)
  qed (simp add: advance_schedule_receipt_def)
  moreover have "raise_first (validate_tombstone_for_receipt t r @
      [(tb_kind t = ''selected_recovery'', PortfolioSchedulerTransitionError ''receipt_recovered'')]) =
      Some (PortfolioSchedulerTransitionError ''receipt_recovered'')"
    by (simp add: t' validate_tombstone_for_receipt_def tombstone_for_def)
  then have "read_schedule_receipt H rid d = Inl (PortfolioSchedulerTransitionError ''receipt_recovered'')"
    using ids by (simp add: read_schedule_receipt_def load r t)
  ultimately show ?thesis by blast
qed









section \<open>Composition with the selection policy\<close>

text \<open>
  The receipts a deployment creates come from the selection policy, so their identities are
  derived from the entry.  Operations restricted to such receipts never leave a selection
  with two receipts.
\<close>

definition policy_receipt :: "ScheduleReceipt \<Rightarrow> bool" where
  "policy_receipt r \<longleftrightarrow> (\<exists>e. same_identity r e \<and> qe_selection_generation e = sr_selection_generation r
     \<and> sr_receipt_id r = deterministic_receipt_id e)"

definition policy_op :: "store_op \<Rightarrow> bool" where
  "policy_op op = (case op of CreateReceipt r \<Rightarrow> policy_receipt r | _ \<Rightarrow> op_ok op)"

inductive policy_step :: "(string \<Rightarrow> string) \<Rightarrow> disk \<Rightarrow> disk \<Rightarrow> bool" for H :: "string \<Rightarrow> string" where
  run: "hexdigest H \<Longrightarrow> policy_op op \<Longrightarrow> policy_step H d (commit (take k (op_writes H op d)) d)"

lemma policy_op_ok: "policy_op op \<Longrightarrow> op_ok op"
  by (cases op) (simp_all add: policy_op_def op_ok_def)




text \<open>What a write list may do to receipts: replace a stored one, or add one of the policy's.\<close>

definition receipt_write_ok :: "(string \<Rightarrow> string) \<Rightarrow> disk \<Rightarrow> store_write \<Rightarrow> bool" where
  "receipt_write_ok H d w \<longleftrightarrow> (case w of
      (ReceiptFile rid, b) \<Rightarrow> receipts (view H d) rid \<noteq> None
        \<or> (\<exists>r. encode_schedule_receipt H r = Inr b \<and> policy_receipt r)
    | _ \<Rightarrow> True)"



text \<open>Which receipt files the operations write.\<close>

lemma plain_write [simp]: "receipt_write_ok H d (QueueFile, b)" "receipt_write_ok H d (SequenceFile, b)"
  "receipt_write_ok H d (TombstoneFile rid, b)" "receipt_write_ok H d (ReservationFile q g, b)"
  by (simp_all add: receipt_write_ok_def)







text \<open>
  C37. The reservation check of a dispatch comes too late.  When the selection's reservation names
  another receipt, the dispatch is refused with \<open>reservation_divergent\<close>, but the receipt file
  already says that the dispatch happened.
\<close>

theorem refused_dispatch_recorded:
  assumes "(store_step H)\<^sup>*\<^sup>* [] d" and "hexdigest H"
    and sel: "read_schedule_receipt H rid d = Inr r" "sr_phase r = RECEIPT_SELECTED"
    and res: "read_reservation H (sr_queue_id r) (sr_selection_generation r) d = Inr r'" "r' \<noteq> r"
    and ev: "raise_first (event_guards (Some ev)) = None"
  shows "\<exists>ws. advance_schedule_receipt H rid (sr_selection_generation r) RECEIPT_DISPATCHED (Some ev) d
      = (Inl (PortfolioSchedulerConflictError ''reservation_divergent''), ws)
    \<and> (\<exists>s. read_receipt_file H (commit ws d) rid = Inr (Some s) \<and> sr_phase s = RECEIPT_DISPATCHED
        \<and> sr_dispatch_event_id s = Some ev)"
proof -
  have d: "legible H d" using assms(1) empty_legible by (rule store_entries.steps_inv)
  from sel(1) have idok: "raise_first (validate_id rid ''receipt_id'' (Some ''SR-'')) = None"
    by (auto simp: read_schedule_receipt_def guarded_def split: option.split_asm)
  note load = read_receipt_succeeds [OF d idok] read_tombstone_succeeds [OF d idok]
  from sel(1) have r: "receipts (view H d) rid = Some r"
    by (auto simp: read_schedule_receipt_def idok load guarded_def and_then_def
        split: option.split_asm sum.split_asm)
  have t: "tombstones (view H d) rid = None"
  proof (cases "tombstones (view H d) rid")
    case (Some t)
    from sched_ok_tombstone [OF legible_ok [OF d] Some] r sel(2) obtain now
      where "t = tombstone_for ''selected_recovery'' r now" by auto
    then have "receipt_final (view H d) r" using r Some sched_ok_receipt [OF legible_ok [OF d] r]
      by (auto simp: receipt_final_def)
    from fenced_receipt_unusable [OF d this _ sel(2)] sched_ok_receipt [OF legible_ok [OF d] r] sel(1)
    show ?thesis by auto
  qed simp
  from sel(1) obtain e where e: "find_queue_entry (queue (view H d)) (sr_queue_id r) = Inr e" "bound r e"
    by (auto simp: read_schedule_receipt_def idok load r t load_state_view [OF d] guarded_def and_then_def bound_def
        split: option.split_asm sum.split_asm)
  then have mem: "e \<in> set (queue (view H d))" by (simp add: find_entry_view [OF d])
  from dispatch_outcome [OF assms(2) d r sel(2) mem e(2) t ev] obtain b s where
    s: "s = sealed_receipt H (r\<lparr>sr_phase := RECEIPT_DISPATCHED, sr_dispatch_event_id := Some ev\<rparr>)"
      "decode_schedule_receipt H b = Inr s"
    and adv: "advance_schedule_receipt H rid (sr_selection_generation r) RECEIPT_DISPATCHED (Some ev) d =
       (if reservations (view H d) (reserved_by r) \<in> {None, Some r} then Inr s
        else Inl (PortfolioSchedulerConflictError ''reservation_divergent''), [(ReceiptFile rid, b)])" by blast
  have "reservations (view H d) (reserved_by r) = Some r'"
    using res(1) by (auto simp: read_reservation_def guarded_def and_then_def reserved_by_def view_def stored_def
        split: option.split_asm sum.split_asm option.split)
  with adv res(2) have "advance_schedule_receipt H rid (sr_selection_generation r) RECEIPT_DISPATCHED (Some ev) d
      = (Inl (PortfolioSchedulerConflictError ''reservation_divergent''), [(ReceiptFile rid, b)])" by simp
  moreover have "read_receipt_file H (commit [(ReceiptFile rid, b)] d) rid = Inr (Some s)"
  proof -
    have "justified H d [(ReceiptFile rid, b)]"
      using advance_receipt_justified [OF assms(2) d, of rid "sr_selection_generation r" RECEIPT_DISPATCHED "Some ev"]
      by (simp add: adv)
    from justified_commit [OF this d, of 1] have "legible H (commit [(ReceiptFile rid, b)] d)" by simp
    from read_receipt_succeeds [OF this idok] show ?thesis by (simp add: commit_def view_receipt_write [OF s(2)])
  qed
  moreover have "sr_phase s = RECEIPT_DISPATCHED" "sr_dispatch_event_id s = Some ev" by (simp_all add: s(1) sealed_receipt_def)
  ultimately show ?thesis by blast
qed

section \<open>Witnesses\<close>

lemma policy_store_step: "policy_step H d d' \<Longrightarrow> store_step H d d'"
  by (induction rule: policy_step.induct) (rule store_step.run, simp_all add: policy_op_ok)

lemma policy_store_steps: "(policy_step H)\<^sup>*\<^sup>* d d' \<Longrightarrow> (store_step H)\<^sup>*\<^sup>* d d'"
  using rtranclp_mono [of "policy_step H" "store_step H"] policy_store_step by (metis predicate2I predicate2D)

text \<open>An operation that runs to its end, on the view.\<close>

lemma completed:
  assumes "hexdigest H" and "legible H d" and "policy_op op" and "op_writes H op d = ws"
  shows "policy_step H d (commit ws d) \<and> legible H (commit ws d)"
proof -
  have "policy_step H d (commit (take (length ws) (op_writes H op d)) d)" by (rule policy_step.run [OF assms(1,3)])
  then have "policy_step H d (commit ws d)" by (simp add: assms(4))
  moreover from policy_store_step [OF this] have "legible H (commit ws d)" using store_step_view assms(2) by blast
  ultimately show ?thesis by blast
qed

lemma completed_reserve:
  assumes "hexdigest H" and "legible H d"
  shows "\<exists>d'. policy_step H d d' \<and> legible H d' \<and> view H d' = (view H d)\<lparr>counter := counter (view H d) + 1\<rparr>"
proof -
  from reserve_succeeds [OF assms(2)] obtain b where
    b: "reserve_enqueue_sequence H d = (Inr (counter (view H d) + 1), [(SequenceFile, b)])"
    "decode_sequence b = Inr (counter (view H d) + 1, [1..counter (view H d) + 1])" by blast
  then have "op_writes H ReserveSequence d = [(SequenceFile, b)]" by (simp add: op_writes_def)
  from completed [OF assms _ this] show ?thesis
    by (intro exI [of _ "commit [(SequenceFile, b)] d"])
      (simp add: policy_op_def op_ok_def, simp add: commit_def view_sequence_write [OF b(2)])
qed

definition sample_selected_entry :: QueueEntry where
  "sample_selected_entry = sealed sample_hash (sample_entry\<lparr>qe_state := SELECTED\<rparr>)"

lemma sample_entry_ok: "entry_ok sample_hash sample_entry"
  using sample_entry_valid by (simp add: entry_ok_def sample_entry_def entry_digest_def entry_lines_ignores_digest)

lemma sample_receipt:
  obtains r where "receipt_ok sample_hash r" "sr_phase r = RECEIPT_SELECTED" "bound r sample_selected_entry"
    "policy_receipt r"
proof -
  from receipt_for_total [OF sample_entry_valid sample_hash_hexdigest sample_time] obtain r
    where r: "build_receipt sample_hash sample_entry (order_key sample_entry 0) (ac_evaluated_at sample_context)
      (build_selection_reason sample_entry 0 True) = Inr r" by (auto simp: receipt_for_Inr)
  show ?thesis
  proof (rule that)
    show "receipt_ok sample_hash r" using build_receipt_Inr [OF r] by (simp add: receipt_ok_def)
    show "sr_phase r = RECEIPT_SELECTED" using build_receipt_Inr [OF r] by simp
    show "policy_receipt r" using build_receipt_Inr [OF r]
      by (auto simp: policy_receipt_def same_identity_def intro!: exI [of _ sample_entry])
    show "bound r sample_selected_entry" using build_receipt_Inr [OF r]
      by (simp add: bound_def validate_receipt_binding_def sample_selected_entry_def order_key_def)
  qed
qed

lemma sample_disk:
  obtains d where "(policy_step sample_hash)\<^sup>*\<^sup>* [] d" "legible sample_hash d"
    "view sample_hash d = empty_sched\<lparr>queue := [sample_selected_entry], counter := 3\<rparr>"
proof -
  let ?H = sample_hash
  note hash = sample_hash_hexdigest
  from completed_reserve [OF hash empty_legible] obtain d1 where d1: "policy_step ?H [] d1" "legible ?H d1"
    "counter (view ?H d1) = 1" "view ?H d1 = empty_sched\<lparr>counter := 1\<rparr>" by (auto simp: empty_view) (simp add: empty_sched_def)
  from completed_reserve [OF hash d1(2)] obtain d2 where d2: "policy_step ?H d1 d2" "legible ?H d2"
    "view ?H d2 = empty_sched\<lparr>counter := 2\<rparr>" by (auto simp: d1(4))
  from completed_reserve [OF hash d2(2)] obtain d3 where d3: "policy_step ?H d2 d3" "legible ?H d3"
    "view ?H d3 = empty_sched\<lparr>counter := 3\<rparr>" by (auto simp: d2(3))
  have q3: "queue (view ?H d3) = []" "counter (view ?H d3) = 3" by (simp_all add: d3(3)) (simp add: empty_sched_def)
  have st: "qe_state sample_entry = QUEUED" "qe_enqueue_sequence sample_entry = 3"
    by (simp_all add: sample_entry_def sample_body_def)
  from create_succeeds [OF d3(2) sample_entry_ok] st q3 obtain b where
    b: "create_queue_entry ?H sample_entry d3 = (Inr sample_entry, [(QueueFile, b)])"
      "decode_queue_snapshot ?H b = Inr [sample_entry]" by auto
  let ?d4 = "commit [(QueueFile, b)] d3"
  from completed [OF hash d3(2), of "CreateEntry sample_entry" "[(QueueFile, b)]"]
  have d4: "policy_step ?H d3 ?d4" "legible ?H ?d4"
    using sample_entry_valid b(1) by (simp_all add: policy_op_def op_ok_def op_writes_def)
  have v4: "view ?H ?d4 = empty_sched\<lparr>queue := [sample_entry], counter := 3\<rparr>"
    by (simp add: commit_def view_queue_write [OF b(2)] d3(3))
  have id: "raise_first (validate_id (qe_queue_id sample_entry) ''queue_id'' (Some ''Q-'')) = None"
    by (rule entry_ok_id [OF sample_entry_ok])
  have "sealed ?H (sample_entry\<lparr>qe_state := SELECTED\<rparr>) = sample_selected_entry"
    "put_entry sample_selected_entry [sample_entry] = [sample_selected_entry]"
    by (simp_all add: sample_selected_entry_def put_entry_def)
  with advance_queue_succeeds [OF hash d4(2) _ _ _ _ id, of SELECTED None] st obtain c where
    c: "advance_queue_phase ?H (qe_queue_id sample_entry) (qe_selection_generation sample_entry) SELECTED None ?d4
        = (Inr sample_selected_entry, [(QueueFile, c)])" "decode_queue_snapshot ?H c = Inr [sample_selected_entry]"
    by (auto simp: v4 next_phase_def event_guards_def)
  let ?d5 = "commit [(QueueFile, c)] ?d4"
  from completed [OF hash d4(2), of "AdvanceQueue (qe_queue_id sample_entry) (qe_selection_generation sample_entry) SELECTED None"
      "[(QueueFile, c)]"]
  have d5: "policy_step ?H ?d4 ?d5" "legible ?H ?d5" using c(1) by (simp_all add: policy_op_def op_ok_def op_writes_def)
  have "view ?H ?d5 = empty_sched\<lparr>queue := [sample_selected_entry], counter := 3\<rparr>"
    by (simp add: commit_def [of "[(QueueFile, c)]"] view_queue_write [OF c(2)] v4)
  moreover have "(policy_step ?H)\<^sup>*\<^sup>* [] ?d5"
    using d1(1) d2(1) d3(1) d4(1) d5(1) by (meson r_into_rtranclp rtranclp.rtrancl_into_rtrancl)
  ultimately show ?thesis using d5(2) that by blast
qed









text \<open>
  A receipt whose creation crashed before its reservation, and a second receipt of the same
  selection, under another identity, that took the reservation.
\<close>

lemma other_receipt:
  assumes "receipt_ok sample_hash r" and "sr_phase r = RECEIPT_SELECTED" and "bound r e"
  defines "r' \<equiv> sealed_receipt sample_hash (r\<lparr>sr_receipt_id := ''SR-X''\<rparr>)"
  shows "receipt_ok sample_hash r' \<and> sr_phase r' = RECEIPT_SELECTED \<and> bound r' e
    \<and> sr_receipt_id r' = ''SR-X'' \<and> reserved_by r' = reserved_by r"
proof -
  have id: "raise_first (validate_id ''SR-X'' ''receipt_id'' (Some ''SR-'')) = None" by code_simp
  have "receipt_valid (r\<lparr>sr_receipt_id := ''SR-X''\<rparr>)"
    using assms(1) [unfolded receipt_ok_def, THEN conjunct1] id by (simp add: receipt_valid_def validate_schedule_receipt_fields_def split: prod.splits)
  moreover have "raise_first (validate_digest (receipt_digest sample_hash x) ''content_digest'') = None" for x
    by (simp only: receipt_digest_def hexdigest_valid [OF sample_hash_hexdigest])
  ultimately have "receipt_valid r'" unfolding r'_def sealed_receipt_def by (rule receipt_valid_digest)
  moreover have "sr_content_digest r' = receipt_digest sample_hash r'"
    by (simp add: r'_def sealed_receipt_def receipt_digest_def receipt_lines_ignores_digest)
  ultimately show ?thesis using assms(2,3)
    by (simp add: receipt_ok_def) (simp add: r'_def sealed_receipt_def bound_def validate_receipt_binding_def reserved_by_def)
qed

lemma read_receipt_bound:
  assumes "legible H d" and r: "receipts (view H d) rid = Some r" and e: "e \<in> set (queue (view H d))" "bound r e"
    and "sr_phase r = RECEIPT_SELECTED" and t: "tombstones (view H d) rid = None"
  shows "read_schedule_receipt H rid d = Inr r"
proof -
  have ok: "receipt_ok H r" "sr_receipt_id r = rid" using sched_ok_receipt [OF legible_ok [OF assms(1)] r] by blast+
  note id = receipt_ok_ids(1) [OF ok(1), unfolded ok(2)]
  have "find_queue_entry (queue (view H d)) (sr_queue_id r) = Inr e"
    using e bound_identity [OF e(2)] by (simp add: find_entry_view [OF assms(1)] same_identity_def)
  then show ?thesis using e(2) id
    by (simp add: read_schedule_receipt_def guarded_def and_then_def bound_def load_state_view [OF assms(1)] r t
        read_receipt_succeeds [OF assms(1) id] read_tombstone_succeeds [OF assms(1) id])
qed

lemma read_reservation_found:
  assumes "legible H d" and r: "reservations (view H d) (q, g) = Some r"
  shows "read_reservation H q g d = Inr r"
proof -
  from sched_ok_reservation [OF legible_ok [OF assms(1)] r] have "reserved_by r = (q, g)" "receipt_ok H r" by blast+
  with receipt_ok_ids(2,3) [OF this(2)] r show ?thesis
    by (auto simp: read_reservation_def guarded_def validate_int_def and_then_def reserved_by_def view_def stored_def
        split: option.splits sum.splits)
qed

lemma refused_dispatch_recorded_witness:
  "\<exists>d rid ws s. read_receipt_file sample_hash (commit ws d) rid = Inr (Some s) \<and> sr_phase s = RECEIPT_DISPATCHED
    \<and> advance_schedule_receipt sample_hash rid 1 RECEIPT_DISPATCHED (Some ''EVT-1'') d
      = (Inl (PortfolioSchedulerConflictError ''reservation_divergent''), ws)"
proof -
  let ?H = sample_hash
  note hash = sample_hash_hexdigest
  obtain r where r: "receipt_ok ?H r" "sr_phase r = RECEIPT_SELECTED" "bound r sample_selected_entry"
    "policy_receipt r" by (rule sample_receipt)
  define r' where "r' = sealed_receipt ?H (r\<lparr>sr_receipt_id := ''SR-X''\<rparr>)"
  from other_receipt [OF r(1-3)] have r': "receipt_ok ?H r'" "sr_phase r' = RECEIPT_SELECTED" "bound r' sample_selected_entry"
    "sr_receipt_id r' = ''SR-X''" "reserved_by r' = reserved_by r" by (simp_all add: r'_def)
  obtain d where d: "(policy_step ?H)\<^sup>*\<^sup>* [] d" "legible ?H d"
    and v: "view ?H d = empty_sched\<lparr>queue := [sample_selected_entry], counter := 3\<rparr>" by (rule sample_disk)
  have sel: "sample_selected_entry \<in> set (queue (view ?H d))" by (simp add: v)
  from create_receipt_succeeds [OF d(2) r'(1,2) sel r'(3)] obtain b where
    b: "create_schedule_receipt ?H r' d = (Inr r', [(ReceiptFile ''SR-X'', b), (ReservationFile (sr_queue_id r') (sr_selection_generation r'), b)])"
      "decode_schedule_receipt ?H b = Inr r'" by (auto simp: v empty_sched_def r'(4))
  let ?d1 = "commit [(ReceiptFile ''SR-X'', b)] d"
  have run1: "store_step ?H d (commit (take 1 (op_writes ?H (CreateReceipt r') d)) d)"
    by (rule store_step.run [OF hash]) (simp add: op_ok_def)
  then have d1: "store_step ?H d ?d1" "legible ?H ?d1" using store_step_view d(2) by (auto simp: op_writes_def b(1))
  have v1: "view ?H ?d1 = empty_sched\<lparr>queue := [sample_selected_entry], counter := 3, receipts := [''SR-X'' \<mapsto> r']\<rparr>"
    by (simp add: commit_def view_receipt_write [OF b(2)] v) (simp add: empty_sched_def)
  have "sr_receipt_id r \<noteq> ''SR-X''"
  proof -
    from r(3,4) have "\<exists>e. sr_receipt_id r = deterministic_receipt_id e \<and> qe_queue_id e = ''Q-1''"
      by (auto simp: policy_receipt_def same_identity_def dest!: bound_identity)
        (auto simp: sample_selected_entry_def sample_entry_def sample_body_def same_identity_def)
    then show ?thesis by (auto simp: deterministic_receipt_id_def)
  qed
  with create_receipt_succeeds [OF d1(2) r(1,2) _ r(3)] obtain c where
    c: "create_schedule_receipt ?H r ?d1 = (Inr r, [(ReceiptFile (sr_receipt_id r), c), (ReservationFile (sr_queue_id r) (sr_selection_generation r), c)])"
      "decode_schedule_receipt ?H c = Inr r" by (auto simp: v1 empty_sched_def)
  let ?ws = "[(ReceiptFile (sr_receipt_id r), c), (ReservationFile (sr_queue_id r) (sr_selection_generation r), c)]"
  let ?d2 = "commit ?ws ?d1"
  have d2: "policy_step ?H ?d1 ?d2" "legible ?H ?d2"
    using completed [OF hash d1(2), of "CreateReceipt r" ?ws] r(4) c(1) by (simp_all add: policy_op_def op_writes_def)
  have v2: "view ?H ?d2 = empty_sched\<lparr>queue := [sample_selected_entry], counter := 3,
      receipts := [''SR-X'' \<mapsto> r', sr_receipt_id r \<mapsto> r], reservations := [reserved_by r \<mapsto> r]\<rparr>"
    by (simp add: commit_def [of ?ws] view_receipt_write [OF c(2)] view_reservation_write [OF c(2)] v1 reserved_by_def)
      (simp add: empty_sched_def)
  have reach: "(store_step ?H)\<^sup>*\<^sup>* [] ?d2"
    using policy_store_steps [OF d(1)] d1(1) policy_store_step [OF d2(1)] by (meson rtranclp.rtrancl_into_rtrancl)
  have ids: "raise_first (validate_id ''SR-X'' ''receipt_id'' (Some ''SR-'')) = None"
    using receipt_ok_ids(1) [OF r'(1)] by (simp add: r'(4))
  have at: "receipts (view ?H ?d2) ''SR-X'' = Some r'" "tombstones (view ?H ?d2) ''SR-X'' = None"
    "reservations (view ?H ?d2) (sr_queue_id r', sr_selection_generation r') = Some r"
    using \<open>sr_receipt_id r \<noteq> ''SR-X''\<close> r'(5) by (simp_all add: v2 reserved_by_def) (simp add: empty_sched_def)
  have "sample_selected_entry \<in> set (queue (view ?H ?d2))" by (simp add: v2)
  note sel = read_receipt_bound [OF d2(2) at(1) this r'(3,2) at(2)]
  note res = read_reservation_found [OF d2(2) at(3)]
  have "r \<noteq> r'" using \<open>sr_receipt_id r \<noteq> ''SR-X''\<close> r'(4) by auto
  moreover have "raise_first (event_guards (Some ''EVT-1'')) = None" by code_simp
  moreover have "sr_selection_generation r' = 1"
    using bound_identity [OF r'(3)] by (simp add: sample_selected_entry_def sample_entry_def sample_body_def)
  ultimately show ?thesis using refused_dispatch_recorded [OF reach hash sel r'(2) res, of "''EVT-1''"] by (metis (full_types))
qed

end
