(* ===== verification/Scheduler_Recovery.thy ===== *)
theory Scheduler_Recovery
  imports Scheduler_Codec "HOL-Library.Multiset"
begin

text \<open>
  The crash-reconciliation decision (\<open>portfolio_scheduler_recovery.py\<close>): the evidence
  records and their checks, the defence rules, the replay digest, and
  \<open>decide_reconciliation\<close> with its branches in source order.  \<open>TaskEntry\<close> and
  \<open>EventEntry\<close> (of \<open>state_provider.py\<close>) hold the fields the decision reads.
\<close>

datatype RecoveryAction =
    RESUME | NO_OP | INVALIDATE_SELECTION | REQUEUE_SELECTED | ADOPT_CANONICAL_DISPATCH
  | RETIRE_QUEUE_ENTRY | WAIT_FOR_EXECUTION_OWNER | REJECT | FAIL_CLOSED

datatype RecoveryReason =
    QUEUED_NOT_SELECTED | WORKER_RUNNING | SELECTED_NO_EVENT | PARTIAL_RECEIPT | RECEIPT_DIVERGENT
  | CANONICAL_DISPATCHED | CANONICAL_ADVANCED | SCHEDULER_ORPHAN | PRE_ACK_CRASH
  | TOMBSTONE_REPLAY_OK | TOMBSTONE_DIVERGENT | LEASE_RESERVED_NO_EVENT | LEASE_IDENTITY_DIVERGENCE
  | RECEIPT_TOMBSTONE_IDENTITY_DIVERGENCE | EVIDENCE_IDENTITY_DIVERGENCE | ALIVE_REASON
  | UNKNOWN_LIVENESS | DEAD_REASON | STALE_GENERATION | ATTEMPT_FOUR | DUPLICATE_IDENTITY
  | IMPOSSIBLE_PHASE | CANONICAL_PRIORITY | CONCURRENT_REJECT | IDENTITY_MISMATCH
  | MULTIPLE_DISPATCH | RETIRED_NO_OP | FINALIZED_TOMBSTONE_REPLAY

datatype LivenessEvidence = ALIVE | UNKNOWN | DEAD

fun LivenessEvidence_value :: "LivenessEvidence \<Rightarrow> string" where
  "LivenessEvidence_value ALIVE = ''alive''"
| "LivenessEvidence_value LivenessEvidence.UNKNOWN = ''unknown''"
| "LivenessEvidence_value DEAD = ''dead''"

datatype recovery_error =
    RecoveryInputError string
  | RecoveryDefenseError string
  | RecoveryDivergenceError string

type_synonym recovery_guard = "bool \<times> recovery_error"

section \<open>Evidence\<close>

record DispatchReceiptEvidence =
  dre_task_id :: string
  dre_revision :: int
  dre_attempt :: int
  dre_dispatch_id :: string
  dre_generation_id :: string
  dre_phase :: string

record DispatchTombstoneEvidence =
  dte_task_id :: string
  dte_revision :: int
  dte_attempt :: int
  dte_dispatch_id :: string
  dte_generation_id :: string
  dte_winner :: string
  dte_worker_done :: bool
  dte_heartbeat_done :: bool
  dte_release_completed :: bool
  dte_failure_kind :: "string option"

record LeaseEvidence =
  le_lease_id :: string
  le_slot_id :: string
  le_holder_dispatch_id :: string
  le_holder_instance_id :: string

text \<open>\<open>task_current_dispatch\<close> is the dispatch identity inside \<open>current_dispatch\<close>.\<close>

record TaskEntry =
  task_id :: string
  task_revision :: int
  task_state :: string
  task_attempt :: "int option"
  task_current_dispatch :: "string option"

record EventEntry =
  ev_event_id :: string
  ev_event_type :: string
  ev_task_id :: string
  ev_revision :: int
  ev_attempt :: "int option"
  ev_dispatch_id :: "string option"

record RecoveryRequest =
  rq_queue_entry :: QueueEntry
  rq_canonical_task :: TaskEntry
  rq_canonical_events :: "EventEntry list"
  rq_schedule_receipt :: "ScheduleReceipt option"
  rq_dispatch_receipt :: "DispatchReceiptEvidence option"
  rq_dispatch_tombstone :: "DispatchTombstoneEvidence option"
  rq_lease_snapshot :: "LeaseEvidence option"
  rq_recovery_time :: string
  rq_policy_version :: string
  rq_recovery_generation :: int
  rq_liveness :: "LivenessEvidence option"

record RecoveryDecision =
  rd_queue_id :: string
  rd_receipt_id :: "string option"
  rd_task_id :: string
  rd_revision :: int
  rd_enqueue_sequence :: int
  rd_observed_queue_phase :: string
  rd_observed_receipt_phase :: "string option"
  rd_canonical_task_state :: string
  rd_canonical_dispatch_event_id :: "string option"
  rd_recovery_action :: RecoveryAction
  rd_reason :: RecoveryReason
  rd_expected_generation :: int
  rd_replay_digest :: string

definition dispatch_receipt_phases :: "string list" where
  "dispatch_receipt_phases =
     [''RESERVED'', ''SUPERVISOR_READY'', ''WORKER_STARTED'', ''FINALIZING'', ''FINALIZED'']"

definition make_dispatch_receipt :: "DispatchReceiptEvidence \<Rightarrow> recovery_error + DispatchReceiptEvidence" where
  "make_dispatch_receipt d = guarded
    [(dre_task_id d = [], RecoveryInputError ''dre_task_id''),
     (dre_revision d < 1, RecoveryInputError ''dre_revision_range''),
     (dre_attempt d < 1, RecoveryInputError ''dre_attempt_range''),
     (dre_dispatch_id d = [], RecoveryInputError ''dre_dispatch_id''),
     (dre_generation_id d = [], RecoveryInputError ''dre_generation_id''),
     (dre_phase d = [], RecoveryInputError ''dre_phase''),
     (dre_phase d \<notin> set dispatch_receipt_phases, RecoveryDefenseError ''dre_phase_unknown'')]
    (Inr d)"

definition make_dispatch_tombstone ::
  "DispatchTombstoneEvidence \<Rightarrow> recovery_error + DispatchTombstoneEvidence"
where
  "make_dispatch_tombstone d = guarded
    [(dte_task_id d = [], RecoveryInputError ''dte_task_id''),
     (dte_revision d < 1, RecoveryInputError ''dte_revision_range''),
     (dte_attempt d < 1, RecoveryInputError ''dte_attempt_range''),
     (dte_dispatch_id d = [], RecoveryInputError ''dte_dispatch_id''),
     (dte_generation_id d = [], RecoveryInputError ''dte_generation_id''),
     (dte_winner d = [], RecoveryInputError ''dte_winner''),
     (dte_failure_kind d = Some [], RecoveryInputError ''dte_failure_kind'')]
    (Inr d)"

definition make_lease_evidence :: "LeaseEvidence \<Rightarrow> recovery_error + LeaseEvidence" where
  "make_lease_evidence l = guarded
    [(le_lease_id l = [], RecoveryInputError ''le_lease_id''),
     (le_slot_id l = [], RecoveryInputError ''le_slot_id''),
     (le_holder_dispatch_id l = [], RecoveryInputError ''le_holder_dispatch_id''),
     (le_holder_instance_id l = [], RecoveryInputError ''le_holder_instance_id'')]
    (Inr l)"

definition make_recovery_request :: "RecoveryRequest \<Rightarrow> recovery_error + RecoveryRequest" where
  "make_recovery_request q = guarded
    [(rq_policy_version q = [], RecoveryInputError ''policy_version_type''),
     (rq_recovery_generation q < 1, RecoveryInputError ''generation_range''),
     (rq_policy_version q \<noteq> SCHEMA_VERSION, RecoveryInputError ''stale_policy_version''),
     (qe_retry_budget_used (rq_queue_entry q) \<ge> 3, RecoveryDefenseError ''attempt_four'')]
    (Inr q)"

section \<open>Helpers\<close>

fun find_dispatched_for_attempt ::
  "EventEntry list \<Rightarrow> string \<Rightarrow> int \<Rightarrow> int option \<Rightarrow> EventEntry option"
where
  "find_dispatched_for_attempt events t r None = None"
| "find_dispatched_for_attempt events t r (Some a) =
     find (\<lambda>e. ev_event_type e = ''TASK_DISPATCHED'' \<and> ev_task_id e = t \<and> ev_revision e = r
               \<and> ev_attempt e = Some a) events"

definition has_any_dispatched_event :: "EventEntry list \<Rightarrow> string \<Rightarrow> int \<Rightarrow> bool" where
  "has_any_dispatched_event events t r \<longleftrightarrow>
     list_ex (\<lambda>e. ev_event_type e = ''TASK_DISPATCHED'' \<and> ev_task_id e = t \<and> ev_revision e = r) events"

definition attempt_or_zero :: "int option \<Rightarrow> int" where
  "attempt_or_zero a = (case a of None \<Rightarrow> 0 | Some i \<Rightarrow> i)"

definition bit_text :: "bool \<Rightarrow> string" where
  "bit_text b = (if b then ''1'' else ''0'')"

text \<open>The bytes fed to the hash, in order; the hash sees only their concatenation.\<close>

definition replay_bytes ::
  "QueueEntry \<Rightarrow> ScheduleReceipt option \<Rightarrow> TaskEntry \<Rightarrow> EventEntry list \<Rightarrow> int \<Rightarrow>
   LivenessEvidence option \<Rightarrow> DispatchReceiptEvidence option \<Rightarrow> DispatchTombstoneEvidence option \<Rightarrow>
   LeaseEvidence option \<Rightarrow> string option \<Rightarrow> string"
where
  "replay_bytes entry receipt task events generation liveness dre dte lease canonical_event_id =
     ''entry:'' @ qe_queue_id entry @ QueuePhase_value (qe_state entry) @
     show_int (qe_enqueue_sequence entry) @ show_int (qe_selection_generation entry) @
     show_int (qe_retry_budget_used entry) @ qe_content_digest entry @
     ''|receipt:'' @ (case receipt of None \<Rightarrow> ''none'' | Some r \<Rightarrow>
        sr_receipt_id r @ ReceiptPhase_value (sr_phase r) @ show_int (sr_selection_generation r) @
        sr_content_digest r) @
     ''|dre:'' @ (case dre of None \<Rightarrow> ''none'' | Some d \<Rightarrow>
        dre_task_id d @ show_int (dre_revision d) @ show_int (dre_attempt d) @ dre_dispatch_id d @
        dre_generation_id d @ dre_phase d) @
     ''|dte:'' @ (case dte of None \<Rightarrow> ''none'' | Some d \<Rightarrow>
        dte_task_id d @ show_int (dte_revision d) @ show_int (dte_attempt d) @ dte_dispatch_id d @
        dte_generation_id d @ dte_winner d @ bit_text (dte_worker_done d) @
        bit_text (dte_heartbeat_done d) @ bit_text (dte_release_completed d) @
        (case dte_failure_kind d of None \<Rightarrow> [] | Some k \<Rightarrow> k)) @
     ''|lease:'' @ (case lease of None \<Rightarrow> ''none'' | Some l \<Rightarrow>
        le_lease_id l @ le_slot_id l @ le_holder_dispatch_id l @ le_holder_instance_id l) @
     ''|task:'' @ task_id task @ show_int (task_revision task) @ task_state task @
        show_int (attempt_or_zero (task_attempt task)) @
     ''|events:'' @ concat (map (\<lambda>e.
        ev_event_id e @ ev_event_type e @ ev_task_id e @ show_int (ev_revision e) @
        show_int (attempt_or_zero (ev_attempt e)) @
        (case ev_dispatch_id e of None \<Rightarrow> [] | Some i \<Rightarrow> i)) (sort_key ev_event_id events)) @
     ''|canonical_event:'' @ (case canonical_event_id of None \<Rightarrow> ''none'' | Some i \<Rightarrow> i) @
     ''|recovery:'' @ show_int generation @
     (case liveness of None \<Rightarrow> [] | Some l \<Rightarrow> ''|liveness:'' @ LivenessEvidence_value l)"

definition replay_digest ::
  "(string \<Rightarrow> string) \<Rightarrow> RecoveryRequest \<Rightarrow> string option \<Rightarrow> string"
where
  "replay_digest H q canonical_event_id = ''sha256:'' @ H (replay_bytes (rq_queue_entry q)
     (rq_schedule_receipt q) (rq_canonical_task q) (rq_canonical_events q)
     (rq_recovery_generation q) (rq_liveness q) (rq_dispatch_receipt q) (rq_dispatch_tombstone q)
     (rq_lease_snapshot q) canonical_event_id)"

definition make_recovery_decision :: "RecoveryDecision \<Rightarrow> recovery_error + RecoveryDecision" where
  "make_recovery_decision d = guarded
    [(rd_queue_id d = [], RecoveryInputError ''decision_queue_id''),
     (rd_receipt_id d = Some [], RecoveryInputError ''decision_receipt_id''),
     (rd_task_id d = [], RecoveryInputError ''decision_task_id'')]
    (Inr d)"

definition build_decision ::
  "QueueEntry \<Rightarrow> ScheduleReceipt option \<Rightarrow> TaskEntry \<Rightarrow> RecoveryAction \<Rightarrow> RecoveryReason \<Rightarrow> int \<Rightarrow>
   string \<Rightarrow> string option \<Rightarrow> string option \<Rightarrow> recovery_error + RecoveryDecision"
where
  "build_decision entry receipt task action reason expected_gen digest dispatch_event_id
      receipt_id_override =
     make_recovery_decision
       \<lparr>rd_queue_id = qe_queue_id entry,
        rd_receipt_id = (case receipt_id_override of Some i \<Rightarrow> Some i | None \<Rightarrow> map_option sr_receipt_id receipt),
        rd_task_id = qe_task_id entry, rd_revision = qe_revision entry,
        rd_enqueue_sequence = qe_enqueue_sequence entry,
        rd_observed_queue_phase = QueuePhase_value (qe_state entry),
        rd_observed_receipt_phase = map_option (ReceiptPhase_value \<circ> sr_phase) receipt,
        rd_canonical_task_state = task_state task,
        rd_canonical_dispatch_event_id = dispatch_event_id,
        rd_recovery_action = action, rd_reason = reason, rd_expected_generation = expected_gen,
        rd_replay_digest = digest\<rparr>"

section \<open>Defence\<close>

definition dispatch_keys :: "EventEntry list \<Rightarrow> (string \<times> int \<times> int) list" where
  "dispatch_keys events = map (\<lambda>e. (ev_task_id e, ev_revision e, attempt_or_zero (ev_attempt e)))
     (filter (\<lambda>e. ev_event_type e = ''TASK_DISPATCHED'') events)"

definition run_defense :: "RecoveryRequest \<Rightarrow> recovery_guard list" where
  "run_defense q = (
     let entry = rq_queue_entry q; task = rq_canonical_task q
     in [(qe_task_id entry \<noteq> task_id task \<or> qe_revision entry \<noteq> task_revision task,
            RecoveryDefenseError ''identity_mismatch'')] @
        (case rq_dispatch_receipt q of None \<Rightarrow> [] | Some dre \<Rightarrow>
          [(dre_task_id dre \<noteq> task_id task \<or> dre_revision dre \<noteq> task_revision task,
              RecoveryDefenseError ''dre_identity_divergence''),
           (case task_attempt task of None \<Rightarrow> False | Some a \<Rightarrow> dre_attempt dre \<noteq> a,
              RecoveryDefenseError ''dre_attempt_mismatch'')]) @
        (case rq_dispatch_tombstone q of None \<Rightarrow> [] | Some dte \<Rightarrow>
          [(dte_task_id dte \<noteq> task_id task \<or> dte_revision dte \<noteq> task_revision task,
              RecoveryDefenseError ''dte_identity_divergence''),
           (case task_attempt task of None \<Rightarrow> False | Some a \<Rightarrow> dte_attempt dte \<noteq> a,
              RecoveryDefenseError ''dte_attempt_mismatch'')]) @
        (case (rq_dispatch_receipt q, rq_dispatch_tombstone q) of
           (Some dre, Some dte) \<Rightarrow>
             [(dre_task_id dre \<noteq> dte_task_id dte \<or> dre_revision dre \<noteq> dte_revision dte,
                 RecoveryDefenseError ''dre_dte_identity_divergence''),
              (dre_attempt dre \<noteq> dte_attempt dte, RecoveryDefenseError ''dre_dte_attempt_divergence''),
              (dre_dispatch_id dre \<noteq> dte_dispatch_id dte,
                 RecoveryDefenseError ''dre_dte_dispatch_divergence''),
              (dre_generation_id dre \<noteq> dte_generation_id dte,
                 RecoveryDefenseError ''dre_dte_generation_divergence''),
              (dre_phase dre \<notin> {''WORKER_STARTED'', ''FINALIZING'', ''FINALIZED''},
                 RecoveryDefenseError ''impossible_dre_dte_phase'')]
         | _ \<Rightarrow> []) @
        (case rq_schedule_receipt q of None \<Rightarrow> [] | Some receipt \<Rightarrow>
          [(sr_phase receipt = RECEIPT_SELECTED \<and> qe_state entry \<notin> {QUEUED, SELECTED},
              RecoveryDefenseError ''impossible_phase''),
           (sr_phase receipt = RECEIPT_DISPATCHED \<and> qe_state entry \<notin> {DISPATCHED, RETIRED},
              RecoveryDefenseError ''impossible_phase''),
           (sr_queue_id receipt \<noteq> qe_queue_id entry, RecoveryDefenseError ''receipt_queue_mismatch''),
           (sr_task_id receipt \<noteq> qe_task_id entry, RecoveryDefenseError ''receipt_task_mismatch''),
           (sr_enqueue_sequence receipt \<noteq> qe_enqueue_sequence entry,
              RecoveryDefenseError ''receipt_sequence_mismatch'')]) @
        [(\<not> distinct (dispatch_keys (rq_canonical_events q)), RecoveryDefenseError ''multiple_dispatch'')])"

section \<open>The decision\<close>

definition decide ::
  "(string \<Rightarrow> string) \<Rightarrow> RecoveryRequest \<Rightarrow> RecoveryAction \<Rightarrow> RecoveryReason \<Rightarrow> string option \<Rightarrow>
   recovery_error + RecoveryDecision"
where
  "decide H q action reason dispatch_event_id =
     build_decision (rq_queue_entry q) (rq_schedule_receipt q) (rq_canonical_task q) action reason
       (qe_selection_generation (rq_queue_entry q)) (replay_digest H q None) dispatch_event_id None"

text \<open>Step 3 when the canonical \<open>TASK_DISPATCHED\<close> event of the attempt exists.\<close>

definition decide_dispatched ::
  "(string \<Rightarrow> string) \<Rightarrow> RecoveryRequest \<Rightarrow> EventEntry \<Rightarrow> recovery_error + RecoveryDecision"
where
  "decide_dispatched H q evt = (
     let entry = rq_queue_entry q; task = rq_canonical_task q;
         event_dispatch = (case ev_dispatch_id evt of None \<Rightarrow> [] | Some i \<Rightarrow> i);
         build = (\<lambda>action reason event. build_decision entry (rq_schedule_receipt q) task action reason
           (qe_selection_generation entry) (replay_digest H q (Some (ev_event_id evt))) event None)
     in if (case task_current_dispatch task of None \<Rightarrow> False | Some i \<Rightarrow> i \<noteq> event_dispatch) then
          build FAIL_CLOSED EVIDENCE_IDENTITY_DIVERGENCE None
        else if task_current_dispatch task \<noteq> None \<and> task_attempt task \<noteq> None
                \<and> ev_attempt evt \<noteq> task_attempt task then
          build FAIL_CLOSED EVIDENCE_IDENTITY_DIVERGENCE None
        else if (case rq_dispatch_receipt q of None \<Rightarrow> False | Some d \<Rightarrow> dre_dispatch_id d \<noteq> event_dispatch) then
          build FAIL_CLOSED EVIDENCE_IDENTITY_DIVERGENCE None
        else if (case rq_dispatch_tombstone q of None \<Rightarrow> False | Some d \<Rightarrow> dte_dispatch_id d \<noteq> event_dispatch) then
          build FAIL_CLOSED EVIDENCE_IDENTITY_DIVERGENCE None
        else if (case rq_lease_snapshot q of None \<Rightarrow> False | Some l \<Rightarrow> le_holder_dispatch_id l \<noteq> event_dispatch) then
          build FAIL_CLOSED EVIDENCE_IDENTITY_DIVERGENCE None
        else if qe_state entry \<in> {QUEUED, SELECTED} then
          build ADOPT_CANONICAL_DISPATCH CANONICAL_ADVANCED (Some (ev_event_id evt))
        else build RETIRE_QUEUE_ENTRY CANONICAL_DISPATCHED (Some (ev_event_id evt)))"

text \<open>From ``task state shows dispatch but no matching event'' to the end.\<close>

definition decide_without_event ::
  "(string \<Rightarrow> string) \<Rightarrow> RecoveryRequest \<Rightarrow> recovery_error + RecoveryDecision"
where
  "decide_without_event H q = (
     let entry = rq_queue_entry q; task = rq_canonical_task q;
         has_dispatch_state = (task_state task = ''dispatched'' \<or> task_state task = ''review_ready'');
         has_dispatch_info = (task_current_dispatch task \<noteq> None)
     in if has_dispatch_state \<and> has_dispatch_info then decide H q WAIT_FOR_EXECUTION_OWNER PRE_ACK_CRASH None
        else if task_state task = ''dispatched'' then decide H q WAIT_FOR_EXECUTION_OWNER PRE_ACK_CRASH None
        else if rq_lease_snapshot q \<noteq> None \<and> \<not> has_dispatch_state \<and> \<not> has_dispatch_info
                \<and> qe_state entry \<in> {QUEUED, SELECTED} then
          decide H q FAIL_CLOSED LEASE_RESERVED_NO_EVENT None
        else if qe_state entry = DISPATCHED
                \<and> \<not> has_any_dispatched_event (rq_canonical_events q) (qe_task_id entry) (qe_revision entry)
                \<and> \<not> has_dispatch_state then
          decide H q FAIL_CLOSED SCHEDULER_ORPHAN None
        else (case qe_state entry of
            QUEUED \<Rightarrow> decide H q RESUME QUEUED_NOT_SELECTED None
          | SELECTED \<Rightarrow> (case rq_schedule_receipt q of
                None \<Rightarrow> decide H q INVALIDATE_SELECTION SELECTED_NO_EVENT None
              | Some receipt \<Rightarrow> (case sr_phase receipt of
                    RECEIPT_SELECTED \<Rightarrow>
                      if sr_content_digest receipt \<noteq> receipt_digest H receipt then
                        decide H q FAIL_CLOSED PARTIAL_RECEIPT None
                      else decide H q REQUEUE_SELECTED SELECTED_NO_EVENT None
                  | RECEIPT_DISPATCHED \<Rightarrow>
                      if \<not> has_dispatch_state then decide H q FAIL_CLOSED RECEIPT_DIVERGENT None
                      else decide H q ADOPT_CANONICAL_DISPATCH CANONICAL_DISPATCHED
                             (sr_dispatch_event_id receipt)))
          | DISPATCHED \<Rightarrow> decide H q RETIRE_QUEUE_ENTRY CANONICAL_DISPATCHED None
          | RETIRED \<Rightarrow> decide H q NO_OP RETIRED_NO_OP None))"

definition tombstone_finished :: "DispatchTombstoneEvidence \<Rightarrow> bool" where
  "tombstone_finished d \<longleftrightarrow> dte_worker_done d \<and> dte_heartbeat_done d \<and> dte_release_completed d"

text \<open>Steps 2 and 3.\<close>

definition decide_dead ::
  "(string \<Rightarrow> string) \<Rightarrow> RecoveryRequest \<Rightarrow> recovery_error + RecoveryDecision"
where
  "decide_dead H q = (
     let entry = rq_queue_entry q; task = rq_canonical_task q
     in if (case rq_dispatch_tombstone q of None \<Rightarrow> False | Some d \<Rightarrow> tombstone_finished d) then
          (case rq_dispatch_receipt q of
             Some d \<Rightarrow> if dre_phase d = ''FINALIZED'' then
                          decide H q RETIRE_QUEUE_ENTRY FINALIZED_TOMBSTONE_REPLAY None
                        else decide H q FAIL_CLOSED RECEIPT_TOMBSTONE_IDENTITY_DIVERGENCE None
           | None \<Rightarrow> decide H q FAIL_CLOSED TOMBSTONE_DIVERGENT None)
        else if task_state task = ''in_progress'' then decide H q NO_OP WORKER_RUNNING None
        else (case find_dispatched_for_attempt (rq_canonical_events q) (qe_task_id entry)
                     (qe_revision entry) (task_attempt task) of
                Some evt \<Rightarrow> decide_dispatched H q evt
              | None \<Rightarrow> decide_without_event H q))"

definition decide_reconciliation ::
  "(string \<Rightarrow> string) \<Rightarrow> RecoveryRequest \<Rightarrow> recovery_error + RecoveryDecision"
where
  "decide_reconciliation H q = guarded (run_defense q)
     (case rq_liveness q of
        Some ALIVE \<Rightarrow> decide H q NO_OP ALIVE_REASON None
      | Some LivenessEvidence.UNKNOWN \<Rightarrow> decide H q FAIL_CLOSED UNKNOWN_LIVENESS None
      | _ \<Rightarrow> decide_dead H q)"

section \<open>Facts about the branches\<close>

lemma build_decision_Inr:
  assumes "build_decision entry receipt task action reason g digest event override = Inr d"
  shows "rd_recovery_action d = action \<and> rd_reason d = reason \<and> rd_replay_digest d = digest
    \<and> rd_canonical_dispatch_event_id d = event \<and> rd_expected_generation d = g
    \<and> rd_queue_id d = qe_queue_id entry"
  using assms by (auto simp: build_decision_def make_recovery_decision_def res_simps)

lemma build_decision_total:
  assumes "qe_queue_id entry \<noteq> []" and "qe_task_id entry \<noteq> []"
    and "map_option sr_receipt_id receipt \<noteq> Some []"
  shows "\<exists>d. build_decision entry receipt task action reason g digest event None = Inr d"
  using assms by (simp add: build_decision_def make_recovery_decision_def)

lemma decide_Inr:
  "decide H q action reason event = Inr d \<Longrightarrow> rd_recovery_action d = action \<and> rd_reason d = reason
     \<and> rd_canonical_dispatch_event_id d = event \<and> rd_replay_digest d = replay_digest H q None"
  by (auto simp: decide_def dest: build_decision_Inr)

lemma find_dispatched_Some:
  assumes "find_dispatched_for_attempt events t r a = Some e"
  shows "e \<in> set events \<and> ev_event_type e = ''TASK_DISPATCHED'' \<and> ev_task_id e = t
    \<and> ev_revision e = r \<and> ev_attempt e = a \<and> a \<noteq> None"
  using assms by (cases a) (auto dest: find_Some_member)


definition dispatch_of :: "EventEntry \<Rightarrow> string" where
  "dispatch_of evt = (case ev_dispatch_id evt of None \<Rightarrow> [] | Some i \<Rightarrow> i)"

text \<open>The dispatch identities named by the evidence other than the event itself.\<close>

definition named_dispatches :: "RecoveryRequest \<Rightarrow> string set" where
  "named_dispatches q = set_option (task_current_dispatch (rq_canonical_task q))
     \<union> dre_dispatch_id ` set_option (rq_dispatch_receipt q)
     \<union> dte_dispatch_id ` set_option (rq_dispatch_tombstone q)
     \<union> le_holder_dispatch_id ` set_option (rq_lease_snapshot q)"

lemma decide_dispatched_cases:
  assumes "ev_attempt evt = task_attempt (rq_canonical_task q)"
  shows "decide_dispatched H q evt =
    (let build = (\<lambda>action reason event. build_decision (rq_queue_entry q) (rq_schedule_receipt q)
           (rq_canonical_task q) action reason (qe_selection_generation (rq_queue_entry q))
           (replay_digest H q (Some (ev_event_id evt))) event None)
     in if \<not> named_dispatches q \<subseteq> {dispatch_of evt} then build FAIL_CLOSED EVIDENCE_IDENTITY_DIVERGENCE None
        else if qe_state (rq_queue_entry q) \<in> {QUEUED, SELECTED} then
          build ADOPT_CANONICAL_DISPATCH CANONICAL_ADVANCED (Some (ev_event_id evt))
        else build RETIRE_QUEUE_ENTRY CANONICAL_DISPATCHED (Some (ev_event_id evt)))"
proof -
  have "named_dispatches q \<subseteq> {dispatch_of evt} \<longleftrightarrow>
      \<not> (case task_current_dispatch (rq_canonical_task q) of None \<Rightarrow> False | Some i \<Rightarrow> i \<noteq> dispatch_of evt)
    \<and> \<not> (case rq_dispatch_receipt q of None \<Rightarrow> False | Some d \<Rightarrow> dre_dispatch_id d \<noteq> dispatch_of evt)
    \<and> \<not> (case rq_dispatch_tombstone q of None \<Rightarrow> False | Some d \<Rightarrow> dte_dispatch_id d \<noteq> dispatch_of evt)
    \<and> \<not> (case rq_lease_snapshot q of None \<Rightarrow> False | Some l \<Rightarrow> le_holder_dispatch_id l \<noteq> dispatch_of evt)"
    by (auto simp: named_dispatches_def split: option.splits)
  with assms show ?thesis
    unfolding decide_dispatched_def Let_def dispatch_of_def [symmetric] by simp
qed

lemma selected_receipt_phase:
  assumes "raise_first (run_defense q) = None" and "rq_schedule_receipt q = Some r"
    and "qe_state (rq_queue_entry q) = SELECTED"
  shows "sr_phase r = RECEIPT_SELECTED"
  using assms by (cases "sr_phase r") (auto simp: run_defense_def Let_def)

lemma decide_without_event_action:
  assumes "decide_without_event H q = Inr d" and "raise_first (run_defense q) = None"
  shows "rd_recovery_action d \<noteq> ADOPT_CANONICAL_DISPATCH"
  using assms(1) selected_receipt_phase [OF assms(2)] unfolding decide_without_event_def Let_def
  by (auto dest!: decide_Inr split: if_splits QueuePhase.splits option.splits ReceiptPhase.splits)




lemma reconciliation_cases:
  assumes "decide_reconciliation H q = Inr d"
  obtains (alive) "rq_liveness q = Some ALIVE" "decide H q NO_OP ALIVE_REASON None = Inr d"
    | (unknown) "rq_liveness q = Some LivenessEvidence.UNKNOWN"
        "decide H q FAIL_CLOSED UNKNOWN_LIVENESS None = Inr d"
    | (dead) "rq_liveness q \<in> {None, Some DEAD}" "raise_first (run_defense q) = None"
        "decide_dead H q = Inr d"
  using assms unfolding decide_reconciliation_def
  by (auto simp: res_simps split: option.splits LivenessEvidence.splits)

lemma dead_cases:
  assumes "decide_dead H q = Inr d"
  obtains (finished) t where "rq_dispatch_tombstone q = Some t" "tombstone_finished t"
        "rd_recovery_action d \<in> {RETIRE_QUEUE_ENTRY, FAIL_CLOSED}"
    | (running) "task_state (rq_canonical_task q) = ''in_progress''" "rd_recovery_action d = NO_OP"
    | (event) e where "find_dispatched_for_attempt (rq_canonical_events q) (qe_task_id (rq_queue_entry q))
          (qe_revision (rq_queue_entry q)) (task_attempt (rq_canonical_task q)) = Some e"
        "decide_dispatched H q e = Inr d"
    | (no_event) "\<not> (\<exists>t. rq_dispatch_tombstone q = Some t \<and> tombstone_finished t)"
        "task_state (rq_canonical_task q) \<noteq> ''in_progress''"
        "find_dispatched_for_attempt (rq_canonical_events q) (qe_task_id (rq_queue_entry q))
          (qe_revision (rq_queue_entry q)) (task_attempt (rq_canonical_task q)) = None"
        "decide_without_event H q = Inr d"
proof -
  let ?find = "find_dispatched_for_attempt (rq_canonical_events q) (qe_task_id (rq_queue_entry q))
          (qe_revision (rq_queue_entry q)) (task_attempt (rq_canonical_task q))"
  consider (1) t where "rq_dispatch_tombstone q = Some t" "tombstone_finished t"
    | (2) "\<not> (case rq_dispatch_tombstone q of None \<Rightarrow> False | Some t \<Rightarrow> tombstone_finished t)"
        "task_state (rq_canonical_task q) = ''in_progress''"
    | (3) "\<not> (case rq_dispatch_tombstone q of None \<Rightarrow> False | Some t \<Rightarrow> tombstone_finished t)"
        "task_state (rq_canonical_task q) \<noteq> ''in_progress''"
    by (cases "rq_dispatch_tombstone q") auto
  then show thesis
  proof cases
    case 1
    with assms show thesis unfolding decide_dead_def Let_def
      by (intro finished) (auto dest!: decide_Inr split: option.splits if_splits)
  next
    case 2
    with assms have "decide H q NO_OP WORKER_RUNNING None = Inr d"
      by (simp only: decide_dead_def Let_def simp_thms if_False if_True)
    with 2 show thesis by (intro running) (auto dest: decide_Inr)
  next
    case 3
    with assms have d: "(case ?find of Some e \<Rightarrow> decide_dispatched H q e | None \<Rightarrow> decide_without_event H q) = Inr d"
      by (simp only: decide_dead_def Let_def if_False)
    show thesis
    proof (cases ?find)
      case None
      with 3 d show thesis by (intro no_event) auto
    next
      case (Some e)
      with d show thesis by (intro event) auto
    qed
  qed
qed

lemma find_unique_set:
  assumes "set xs = set ys" and "\<And>x y. x \<in> set xs \<Longrightarrow> y \<in> set xs \<Longrightarrow> P x \<Longrightarrow> P y \<Longrightarrow> x = y"
  shows "find P xs = find P ys"
proof (cases "find P ys")
  case None
  with assms(1) have "find P xs = None" by (simp add: find_None_iff)
  with None show ?thesis by simp
next
  case (Some y)
  then have y: "y \<in> set xs" "P y" using assms(1) by (auto dest: find_Some_member)
  then obtain x where "find P xs = Some x" by (cases "find P xs") (auto simp: find_None_iff)
  moreover from this have "x \<in> set xs" "P x" by (auto dest: find_Some_member)
  ultimately show ?thesis using Some assms(2) y by simp
qed

lemma sort_key_unique:
  assumes "mset ys = mset xs" and "distinct (map f xs)"
  shows "sort_key f ys = sort_key f xs"
proof -
  have set: "set ys = set xs" using assms(1) by (rule mset_eq_setD)
  have dist: "distinct (map f ys)"
    using assms by (metis mset_map mset_eq_imp_distinct_iff)
  have "distinct (map f (sort_key f zs)) \<longleftrightarrow> distinct (map f zs)" for zs
    by (simp add: distinct_map)
  with assms(2) dist set show ?thesis
    by (intro map_sorted_distinct_set_unique [of f]) (auto simp: distinct_map)
qed

lemma replay_digest_permuted:
  assumes "mset events = mset (rq_canonical_events q)" and "distinct (map ev_event_id (rq_canonical_events q))"
  shows "replay_digest H (q\<lparr>rq_canonical_events := events\<rparr>) = replay_digest H q"
  using sort_key_unique [OF assms] by (simp add: replay_digest_def replay_bytes_def fun_eq_iff)

lemma run_defense_permuted:
  assumes "mset events = mset (rq_canonical_events q)"
  shows "raise_first (run_defense (q\<lparr>rq_canonical_events := events\<rparr>)) = raise_first (run_defense q)"
proof -
  have "mset (dispatch_keys events) = mset (dispatch_keys (rq_canonical_events q))"
    using assms by (simp add: dispatch_keys_def mset_map mset_filter)
  then have "distinct (dispatch_keys events) = distinct (dispatch_keys (rq_canonical_events q))"
    by (rule mset_eq_imp_distinct_iff)
  then show ?thesis by (simp add: run_defense_def Let_def raise_first_append cong: option.case_cong)
qed

lemma find_dispatched_permuted:
  assumes "mset events = mset events'" and "distinct (dispatch_keys events')"
  shows "find_dispatched_for_attempt events t r a = find_dispatched_for_attempt events' t r a"
proof (cases a)
  case (Some n)
  have set: "set events = set events'" using assms(1) by (rule mset_eq_setD)
  let ?D = "filter (\<lambda>e. ev_event_type e = ''TASK_DISPATCHED'') events'"
  let ?k = "\<lambda>e. (ev_task_id e, ev_revision e, attempt_or_zero (ev_attempt e))"
  have inj: "inj_on ?k (set ?D)"
    using assms(2) unfolding dispatch_keys_def distinct_map by blast
  have "x = y"
    if "x \<in> set events" "y \<in> set events"
      "ev_event_type x = ''TASK_DISPATCHED'' \<and> ev_task_id x = t \<and> ev_revision x = r \<and> ev_attempt x = Some n"
      "ev_event_type y = ''TASK_DISPATCHED'' \<and> ev_task_id y = t \<and> ev_revision y = r \<and> ev_attempt y = Some n"
    for x y
    using that set inj_onD [OF inj, of x y] by simp
  with Some set show ?thesis by (auto intro!: find_unique_set)
qed simp

section \<open>Properties\<close>


text \<open>
  Recovery adopts a dispatch only from canonical evidence: there is a \<open>TASK_DISPATCHED\<close>
  event for exactly the task, revision and attempt, the decision names that event, the entry
  lags behind it, and no other evidence names another dispatch.  In particular the branch that
  would adopt the event identity written in a schedule receipt is never taken.
\<close>

theorem recovery_adopts_canonical:
  assumes "decide_reconciliation H q = Inr d" and "rd_recovery_action d = ADOPT_CANONICAL_DISPATCH"
  shows "\<exists>e \<in> set (rq_canonical_events q). ev_event_type e = ''TASK_DISPATCHED''
    \<and> ev_task_id e = qe_task_id (rq_queue_entry q) \<and> ev_revision e = qe_revision (rq_queue_entry q)
    \<and> ev_attempt e = task_attempt (rq_canonical_task q) \<and> ev_attempt e \<noteq> None
    \<and> rd_canonical_dispatch_event_id d = Some (ev_event_id e)
    \<and> rd_replay_digest d = replay_digest H q (Some (ev_event_id e))
    \<and> qe_state (rq_queue_entry q) \<in> {QUEUED, SELECTED}
    \<and> named_dispatches q \<subseteq> {dispatch_of e}"
  using assms(1)
proof (cases rule: reconciliation_cases)
  case dead
  from dead(3) show ?thesis
  proof (cases rule: dead_cases)
    case (event e)
    note e = find_dispatched_Some [OF event(1)]
    then have att: "ev_attempt e = task_attempt (rq_canonical_task q)" by simp
    show ?thesis
      by (rule bexI [of _ e])
        (use event(2) e assms(2) decide_dispatched_cases [OF att, of H] in
          \<open>auto simp: Let_def dest!: build_decision_Inr split: if_splits\<close>)
  next
    case no_event
    with decide_without_event_action [OF no_event(4) dead(2)] assms(2) show ?thesis by simp
  qed (use assms(2) in auto)
qed (use assms(2) in \<open>auto dest!: decide_Inr\<close>)

text \<open>
  C35. The decision is total: with identities that are not empty it is returned for exactly the
  requests that pass the defence rules, so no request reaches the final ``unhandled case''.
\<close>

theorem recovery_total:
  assumes "qe_queue_id (rq_queue_entry q) \<noteq> []" and "qe_task_id (rq_queue_entry q) \<noteq> []"
    and "map_option sr_receipt_id (rq_schedule_receipt q) \<noteq> Some []"
  shows "(\<exists>d. decide_reconciliation H q = Inr d) \<longleftrightarrow> raise_first (run_defense q) = None"
proof
  assume "\<exists>d. decide_reconciliation H q = Inr d"
  then show "raise_first (run_defense q) = None" by (auto simp: decide_reconciliation_def res_simps)
next
  assume ok: "raise_first (run_defense q) = None"
  have decide: "\<exists>d. decide H q a r e = Inr d" for a r e
    unfolding decide_def by (rule build_decision_total [OF assms])
  have without: "\<exists>d. decide_without_event H q = Inr d"
    unfolding decide_without_event_def Let_def
    by (simp add: decide split: QueuePhase.split option.split ReceiptPhase.split)
  have dispatched: "\<exists>d. decide_dispatched H q e = Inr d" for e
    unfolding decide_dispatched_def Let_def by (simp add: build_decision_total [OF assms])
  have "\<exists>d. decide_dead H q = Inr d"
    unfolding decide_dead_def Let_def by (auto simp: decide without dispatched split: option.split)
  with decide ok show "\<exists>d. decide_reconciliation H q = Inr d"
    unfolding decide_reconciliation_def by (auto split: option.split LivenessEvidence.split)
qed

text \<open>
  The liveness report comes first: a worker reported alive is left alone and one in unknown
  state fails closed, whatever the rest of the evidence says.
\<close>

theorem recovery_liveness_first:
  assumes "decide_reconciliation H q = Inr d" and "rq_liveness q = Some l" and "l \<noteq> DEAD"
  shows "rd_recovery_action d = (if l = ALIVE then NO_OP else FAIL_CLOSED)
    \<and> rd_canonical_dispatch_event_id d = None"
  using assms(1) by (cases rule: reconciliation_cases) (use assms(2,3) in \<open>auto dest!: decide_Inr\<close>)

text \<open>
  The order in which the canonical events are listed does not matter, neither for the
  action nor for the replay digest, as long as their identities are distinct.
\<close>

theorem recovery_event_order:
  assumes "mset events = mset (rq_canonical_events q)"
    and "distinct (map ev_event_id (rq_canonical_events q))"
  shows "decide_reconciliation H (q\<lparr>rq_canonical_events := events\<rparr>) = decide_reconciliation H q"
proof (cases "raise_first (run_defense q)")
  case None
  then have keys: "distinct (dispatch_keys (rq_canonical_events q))" by (simp add: run_defense_def Let_def)
  note digest = replay_digest_permuted [OF assms]
  have "set events = set (rq_canonical_events q)" using assms(1) by (rule mset_eq_setD)
  then have any: "has_any_dispatched_event events t r = has_any_dispatched_event (rq_canonical_events q) t r" for t r
    by (simp add: has_any_dispatched_event_def list_ex_iff)
  let ?q = "q\<lparr>rq_canonical_events := events\<rparr>"
  have decide: "decide H ?q a r e = decide H q a r e" for a r e by (simp add: decide_def digest)
  have sel: "rq_queue_entry ?q = rq_queue_entry q" "rq_schedule_receipt ?q = rq_schedule_receipt q"
    "rq_canonical_task ?q = rq_canonical_task q" "rq_lease_snapshot ?q = rq_lease_snapshot q"
    "rq_dispatch_receipt ?q = rq_dispatch_receipt q" "rq_dispatch_tombstone ?q = rq_dispatch_tombstone q"
    "rq_canonical_events ?q = events" "rq_liveness ?q = rq_liveness q" by simp_all
  have without: "decide_without_event H ?q = decide_without_event H q"
    unfolding decide_without_event_def decide sel any ..
  have dispatched: "decide_dispatched H ?q e = decide_dispatched H q e" for e
    unfolding decide_dispatched_def digest sel ..
  have dead: "decide_dead H ?q = decide_dead H q"
    unfolding decide_dead_def decide without dispatched sel find_dispatched_permuted [OF assms(1) keys] ..
  show ?thesis
    unfolding decide_reconciliation_def decide sel guarded_def dead run_defense_permuted [OF assms(1)] ..
next
  case (Some e)
  then show ?thesis by (simp add: decide_reconciliation_def run_defense_permuted [OF assms(1)])
qed

section \<open>Witnesses and the replay digest\<close>

definition sample_task :: TaskEntry where
  "sample_task = \<lparr>task_id = ''T-7'', task_revision = 1, task_state = ''ready'', task_attempt = Some 1,
     task_current_dispatch = None\<rparr>"

definition sample_event :: EventEntry where
  "sample_event = \<lparr>ev_event_id = ''EVT-1'', ev_event_type = ''TASK_DISPATCHED'', ev_task_id = ''T-7'',
     ev_revision = 1, ev_attempt = Some 1, ev_dispatch_id = Some ''DSP-1''\<rparr>"

definition sample_recovery :: RecoveryRequest where
  "sample_recovery = \<lparr>rq_queue_entry = sample_body, rq_canonical_task = sample_task,
     rq_canonical_events = [], rq_schedule_receipt = None, rq_dispatch_receipt = None,
     rq_dispatch_tombstone = None, rq_lease_snapshot = None, rq_recovery_time = [],
     rq_policy_version = SCHEMA_VERSION, rq_recovery_generation = 1, rq_liveness = Some DEAD\<rparr>"

definition dispatched_recovery :: "string option \<Rightarrow> RecoveryRequest" where
  "dispatched_recovery current = sample_recovery
     \<lparr>rq_canonical_task := sample_task\<lparr>task_state := ''dispatched'', task_current_dispatch := current\<rparr>,
      rq_canonical_events := [sample_event]\<rparr>"

lemmas recovery_samples = sample_recovery_def dispatched_recovery_def sample_task_def sample_event_def
  sample_body_def

lemmas recovery_steps = decide_reconciliation_def decide_dead_def decide_def decide_without_event_def
  decide_dispatched_def build_decision_def make_recovery_decision_def run_defense_def dispatch_keys_def
  attempt_or_zero_def


lemma dispatched_recovery_fields:
  "rq_liveness (dispatched_recovery c) = Some DEAD"
  "rq_dispatch_tombstone (dispatched_recovery c) = None"
  "rq_dispatch_receipt (dispatched_recovery c) = None"
  "rq_lease_snapshot (dispatched_recovery c) = None"
  "rq_schedule_receipt (dispatched_recovery c) = None"
  "task_state (rq_canonical_task (dispatched_recovery c)) = ''dispatched''"
  "task_attempt (rq_canonical_task (dispatched_recovery c)) = Some 1"
  "task_current_dispatch (rq_canonical_task (dispatched_recovery c)) = c"
  "qe_queue_id (rq_queue_entry (dispatched_recovery c)) = ''Q-1''"
  "qe_task_id (rq_queue_entry (dispatched_recovery c)) = ''T-7''"
  "qe_revision (rq_queue_entry (dispatched_recovery c)) = 1"
  "qe_state (rq_queue_entry (dispatched_recovery c)) = QUEUED"
  "rq_canonical_events (dispatched_recovery c) = [sample_event]"
  by (simp_all add: recovery_samples)

lemma dispatched_recovery_defence: "raise_first (run_defense (dispatched_recovery c)) = None"
  by (simp add: run_defense_def dispatch_keys_def recovery_samples)

lemma sample_event_fields:
  "ev_event_id sample_event = ''EVT-1''" "ev_dispatch_id sample_event = Some ''DSP-1''"
  "ev_attempt sample_event = Some 1" "ev_event_type sample_event = ''TASK_DISPATCHED''"
  "ev_task_id sample_event = ''T-7''" "ev_revision sample_event = 1"
  by (simp_all add: sample_event_def)

lemma dispatched_recovery_step:
  "decide_reconciliation H (dispatched_recovery c) = decide_dispatched H (dispatched_recovery c) sample_event"
  by (simp add: decide_reconciliation_def decide_dead_def Let_def dispatched_recovery_fields
      dispatched_recovery_defence sample_event_fields)

lemma dispatched_recovery_adopts:
  "\<exists>d. decide_reconciliation H (dispatched_recovery (Some ''DSP-1'')) = Inr d
     \<and> rd_recovery_action d = ADOPT_CANONICAL_DISPATCH
     \<and> rd_replay_digest d = replay_digest H (dispatched_recovery (Some ''DSP-1'')) (Some ''EVT-1'')"
  by (simp add: dispatched_recovery_step decide_dispatched_def Let_def build_decision_def
      make_recovery_decision_def dispatched_recovery_fields sample_event_fields)

lemma diverging_recovery_fails_closed:
  "\<exists>d. decide_reconciliation H (dispatched_recovery (Some ''DSP-2'')) = Inr d
     \<and> rd_recovery_action d = FAIL_CLOSED
     \<and> rd_replay_digest d = replay_digest H (dispatched_recovery (Some ''DSP-2'')) (Some ''EVT-1'')"
  by (simp add: dispatched_recovery_step decide_dispatched_def Let_def build_decision_def
      make_recovery_decision_def dispatched_recovery_fields sample_event_fields)

text \<open>
  The replay digest does not bind all the evidence: the dispatch identity that the task
  records as current is not hashed, although it decides between adopting a dispatch and failing
  closed.  So two requests get the same digest and opposite decisions, whatever the hash.
\<close>

theorem replay_digest_incomplete:
  "\<exists>q q'. \<forall>H. \<exists>d d'. decide_reconciliation H q = Inr d \<and> decide_reconciliation H q' = Inr d'
     \<and> rd_replay_digest d = rd_replay_digest d'
     \<and> rd_recovery_action d = ADOPT_CANONICAL_DISPATCH \<and> rd_recovery_action d' = FAIL_CLOSED"
proof (rule exI [of _ "dispatched_recovery (Some ''DSP-1'')"],
    rule exI [of _ "dispatched_recovery (Some ''DSP-2'')"], rule allI)
  fix H :: "string \<Rightarrow> string"
  let ?q = "dispatched_recovery (Some ''DSP-1'')" and ?q' = "dispatched_recovery (Some ''DSP-2'')"
  have "replay_digest H ?q = replay_digest H ?q'"
    by (simp add: replay_digest_def replay_bytes_def dispatched_recovery_def fun_eq_iff)
  with dispatched_recovery_adopts [of H] diverging_recovery_fails_closed [of H]
  show "\<exists>d d'. decide_reconciliation H ?q = Inr d \<and> decide_reconciliation H ?q' = Inr d'
     \<and> rd_replay_digest d = rd_replay_digest d'
     \<and> rd_recovery_action d = ADOPT_CANONICAL_DISPATCH \<and> rd_recovery_action d' = FAIL_CLOSED"
    by metis
qed


lemma recovery_adopts_canonical_witness:
  "\<exists>d. decide_reconciliation sample_hash (dispatched_recovery (Some ''DSP-1'')) = Inr d
     \<and> rd_canonical_dispatch_event_id d = Some ''EVT-1''"
proof -
  obtain d where d: "decide_reconciliation sample_hash (dispatched_recovery (Some ''DSP-1'')) = Inr d"
    "rd_recovery_action d = ADOPT_CANONICAL_DISPATCH"
    using dispatched_recovery_adopts by blast
  with recovery_adopts_canonical [OF d] show ?thesis by (auto simp: recovery_samples)
qed

lemma recovery_total_witness: "\<exists>d. decide_reconciliation sample_hash sample_recovery = Inr d"
  using recovery_total [of sample_recovery sample_hash]
  by (simp add: recovery_samples run_defense_def dispatch_keys_def)

lemma recovery_liveness_first_witness:
  "\<exists>d. decide_reconciliation sample_hash (sample_recovery\<lparr>rq_liveness := Some ALIVE\<rparr>) = Inr d
     \<and> rd_recovery_action d = NO_OP"
proof -
  have "\<exists>d. decide_reconciliation sample_hash (sample_recovery\<lparr>rq_liveness := Some ALIVE\<rparr>) = Inr d"
    by (simp add: recovery_steps recovery_samples)
  then obtain d where d: "decide_reconciliation sample_hash (sample_recovery\<lparr>rq_liveness := Some ALIVE\<rparr>) = Inr d"
    by blast
  with recovery_liveness_first [OF d, of ALIVE] show ?thesis by (auto simp: sample_recovery_def)
qed

lemma recovery_event_order_witness:
  "decide_reconciliation sample_hash (sample_recovery\<lparr>rq_canonical_events :=
       [sample_event\<lparr>ev_event_id := ''EVT-2'', ev_attempt := None\<rparr>, sample_event]\<rparr>) =
   decide_reconciliation sample_hash (sample_recovery\<lparr>rq_canonical_events :=
       [sample_event, sample_event\<lparr>ev_event_id := ''EVT-2'', ev_attempt := None\<rparr>]\<rparr>)"
  using recovery_event_order [of "[sample_event\<lparr>ev_event_id := ''EVT-2'', ev_attempt := None\<rparr>, sample_event]"
      "sample_recovery\<lparr>rq_canonical_events := [sample_event, sample_event\<lparr>ev_event_id := ''EVT-2'', ev_attempt := None\<rparr>]\<rparr>"
      sample_hash]
  by (simp add: sample_event_def add_mset_commute)

end
