(* ===== verification/Lease_Store.thy ===== *)
theory Lease_Store
  imports Core_Types
begin

text \<open>
  The worker-slot lease store (\<open>worker_slot_lease.py\<close>): the lease value and its checks,
  the validation of a stored document, the exclusive lock, and the four operations acquire,
  release, renew and fence.  Timestamps are the parsed values, in microseconds since the epoch;
  what the store writes is truncated to whole seconds (\<open>dt_to_utc\<close>).  The sentinel
  \<open>updated_at\<close> is the value 0.  A stored lease is the typed record, since a document with a
  field of another type never passes the validation; it need not satisfy the checks of the
  lease constructor, which the validation does not run.  The workspace path is given in its
  normalised form and the random lease identities as a list of candidates.
\<close>

definition STABLE_SLOT_IDS :: "string list" where
  "STABLE_SLOT_IDS = [''basic_agent-1'', ''basic_agent-2'', ''standard_agent-1'', ''standard_agent-2'',
     ''advanced_agent-1'', ''advanced_agent-2'', ''expert_agent-1'', ''expert_agent-2'']"

definition SLOT_KIND :: "string \<Rightarrow> WorkerKind option" where
  "SLOT_KIND sid =
    (if sid \<notin> set STABLE_SLOT_IDS then None
     else if starts_with ''basic_agent-'' sid then Some BASIC_AGENT
     else if starts_with ''standard_agent-'' sid then Some STANDARD_AGENT
     else if starts_with ''advanced_agent-'' sid then Some ADVANCED_AGENT
     else Some EXPERT_AGENT)"

definition LEASE_TTL_SECONDS :: int where
  "LEASE_TTL_SECONDS = 60"

definition dt_to_utc :: "int \<Rightarrow> int" where
  "dt_to_utc us = us div 1000000 * 1000000"

record WorkerSlotLease =
  lease_id :: string
  lease_epoch :: int
  slot_id :: string
  worker_kind :: WorkerKind
  holder_dispatch_id :: string
  holder_instance_id :: string
  canonical_worktree :: string
  acquired_at :: int
  heartbeat_at :: int
  expires_at :: int

record LeaseStore =
  updated_at :: int
  slot_epochs :: "(string, int) dict"
  leases :: "(string, WorkerSlotLease) dict"

text \<open>What \<open>validate_worker_slot_store\<close> reports, one constructor per message.\<close>

datatype store_problem =
    EpochsMissing "string list"
  | EpochsUnknown "string list"
  | EpochNotInt string
  | EpochNegative string
  | LeaseBadSlot string
  | LeaseSlotMismatch string
  | LeaseIdDuplicated string
  | LeaseKindMismatch string
  | LeaseEpochMismatch string
  | AcquiredAfterHeartbeat string
  | HeartbeatNotBeforeExpiry string
  | DuplicatePair string

datatype lease_error =
    LeaseTypeError string
  | LeaseValueError string
  | WorkerSlotLeaseError string
  | WorkerSlotValidationError "store_problem list"
  | WorkerSlotCapacityError string
  | WorkerSlotContentionError
  | WorkerSlotNotHeldError string
  | WorkerSlotFencingError string

type_synonym lease_guard = "bool \<times> lease_error"

section \<open>Field checks\<close>

definition validate_holder_field :: "string \<Rightarrow> string \<Rightarrow> lease_guard list" where
  "validate_holder_field value field =
    [(value = [], LeaseTypeError field),
     (value \<noteq> py_strip value, LeaseValueError (field @ '' whitespace'')),
     (has_char nul_cr_lf value, LeaseValueError (field @ '' NUL, CR, or LF''))]"

definition is_alpha :: "char \<Rightarrow> bool" where
  "is_alpha c \<longleftrightarrow> is_alnum c \<and> \<not> is_digit c"

definition looks_absolute :: "string \<Rightarrow> bool" where
  "looks_absolute path \<longleftrightarrow>
     starts_with ''/'' path
     \<or> (case path of
          a # b # c # _ \<Rightarrow> b = CHR '':'' \<and> is_alpha a \<and> (c = CHR 0x5C \<or> c = CHR ''/'')
        | _ \<Rightarrow> False)
     \<or> starts_with [CHR 0x5C, CHR 0x5C] path \<and> length path > 2"

definition validate_worktree_string :: "string \<Rightarrow> lease_guard list" where
  "validate_worktree_string value =
     validate_holder_field value ''canonical_worktree'' @
     [(\<not> looks_absolute value, LeaseValueError ''canonical_worktree absolute'')]"

definition LEASE_ID_RE :: "string \<Rightarrow> bool" where
  "LEASE_ID_RE s \<longleftrightarrow> starts_with ''WSL-'' s \<and> length s = 36 \<and> list_all is_hex (drop 4 s)"

definition validate_lease :: "WorkerSlotLease \<Rightarrow> lease_guard list" where
  "validate_lease l =
    [(lease_id l = [], LeaseTypeError ''lease_id''),
     (\<not> LEASE_ID_RE (lease_id l), LeaseValueError ''lease_id''),
     (lease_epoch l < 1, LeaseValueError ''lease_epoch''),
     (slot_id l = [], LeaseTypeError ''slot_id''),
     (slot_id l \<notin> set STABLE_SLOT_IDS, LeaseValueError ''slot_id''),
     (case SLOT_KIND (slot_id l) of None \<Rightarrow> False | Some k \<Rightarrow> worker_kind l \<noteq> k,
        LeaseValueError ''worker_kind'')] @
    validate_holder_field (holder_dispatch_id l) ''holder_dispatch_id'' @
    validate_holder_field (holder_instance_id l) ''holder_instance_id'' @
    validate_worktree_string (canonical_worktree l) @
    [(acquired_at l > heartbeat_at l, LeaseValueError ''acquired_at''),
     (heartbeat_at l \<ge> expires_at l, LeaseValueError ''heartbeat_at'')]"

definition make_lease :: "WorkerSlotLease \<Rightarrow> lease_error + WorkerSlotLease" where
  "make_lease l = guarded (validate_lease l) (Inr l)"

section \<open>The store document\<close>

definition canonical_empty_store :: LeaseStore where
  "canonical_empty_store =
     \<lparr>updated_at = 0, slot_epochs = map (\<lambda>sid. (sid, 0)) STABLE_SLOT_IDS, leases = []\<rparr>"

definition epoch_problems :: "(string, int) dict \<Rightarrow> store_problem list" where
  "epoch_problems epochs = (
     let missing = filter (\<lambda>sid. sid \<notin> set (dict_keys epochs)) STABLE_SLOT_IDS;
         unknown = filter (\<lambda>sid. sid \<notin> set STABLE_SLOT_IDS) (dict_keys epochs)
     in (if missing = [] then [] else [EpochsMissing missing]) @
        (if unknown = [] then [] else [EpochsUnknown unknown]) @
        concat (map (\<lambda>sid. case dict_get epochs sid of
             None \<Rightarrow> [EpochNotInt sid]
           | Some v \<Rightarrow> if v < 0 then [EpochNegative sid] else []) STABLE_SLOT_IDS))"

text \<open>One stored lease, given the identities and pairs seen so far.\<close>

definition lease_problems ::
  "(string, int) dict \<Rightarrow> string list \<Rightarrow> (WorkerKind \<times> string) list \<Rightarrow> string \<Rightarrow> WorkerSlotLease \<Rightarrow>
   store_problem list"
where
  "lease_problems epochs ids pairs k l =
     (if slot_id l \<noteq> k then [LeaseSlotMismatch k] else []) @
     (if lease_id l \<noteq> [] \<and> lease_id l \<in> set ids then [LeaseIdDuplicated k] else []) @
     (case SLOT_KIND k of None \<Rightarrow> [] | Some kind \<Rightarrow>
        if worker_kind l \<noteq> kind then [LeaseKindMismatch k] else []) @
     (case dict_get epochs k of None \<Rightarrow> [] | Some e \<Rightarrow>
        if lease_epoch l \<noteq> e then [LeaseEpochMismatch k] else []) @
     (if acquired_at l > heartbeat_at l then [AcquiredAfterHeartbeat k] else []) @
     (if heartbeat_at l \<ge> expires_at l then [HeartbeatNotBeforeExpiry k] else []) @
     (if (worker_kind l, canonical_worktree l) \<in> set pairs then [DuplicatePair k] else [])"

fun leases_problems ::
  "(string, int) dict \<Rightarrow> string list \<Rightarrow> (WorkerKind \<times> string) list \<Rightarrow>
   (string \<times> WorkerSlotLease) list \<Rightarrow> store_problem list"
where
  "leases_problems epochs ids pairs [] = []"
| "leases_problems epochs ids pairs ((k, l) # rest) =
     (if k \<notin> set STABLE_SLOT_IDS then LeaseBadSlot k # leases_problems epochs ids pairs rest
      else lease_problems epochs ids pairs k l @
           leases_problems epochs (if lease_id l \<noteq> [] then lease_id l # ids else ids)
             ((worker_kind l, canonical_worktree l) # pairs) rest)"

definition validate_worker_slot_store :: "LeaseStore \<Rightarrow> store_problem list" where
  "validate_worker_slot_store st =
     epoch_problems (slot_epochs st) @ leases_problems (slot_epochs st) [] [] (leases st)"

text \<open>The file: absent or a document.  Reading validates; writing validates and replaces.\<close>

type_synonym store_file = "LeaseStore option"

definition read_store :: "store_file \<Rightarrow> lease_error + LeaseStore" where
  "read_store f = (case f of
      None \<Rightarrow> Inr canonical_empty_store
    | Some st \<Rightarrow> guarded [(validate_worker_slot_store st \<noteq> [],
                           WorkerSlotValidationError (validate_worker_slot_store st))] (Inr st))"

definition atomic_write_store :: "LeaseStore \<Rightarrow> lease_error + store_file" where
  "atomic_write_store st = guarded [(validate_worker_slot_store st \<noteq> [],
      WorkerSlotValidationError (validate_worker_slot_store st))] (Inr (Some st))"

section \<open>Operations\<close>

definition verify_lease_identity :: "WorkerSlotLease \<Rightarrow> WorkerSlotLease \<Rightarrow> lease_guard list" where
  "verify_lease_identity stored l =
    [(lease_id stored \<noteq> lease_id l, WorkerSlotFencingError ''lease_id mismatch''),
     (lease_epoch stored \<noteq> lease_epoch l, WorkerSlotFencingError ''lease_epoch mismatch''),
     (worker_kind stored \<noteq> worker_kind l, WorkerSlotFencingError ''worker_kind mismatch''),
     (holder_dispatch_id stored \<noteq> holder_dispatch_id l,
        WorkerSlotFencingError ''holder_dispatch_id mismatch''),
     (holder_instance_id stored \<noteq> holder_instance_id l,
        WorkerSlotFencingError ''holder_instance_id mismatch'')]"

definition check_now_monotonic :: "int \<Rightarrow> int \<Rightarrow> lease_guard list" where
  "check_now_monotonic now store_timestamp =
    [(store_timestamp \<noteq> 0 \<and> now < store_timestamp,
        WorkerSlotFencingError ''now must not be earlier than the store updated_at'')]"

definition generate_unique_lease_id :: "string list \<Rightarrow> string list \<Rightarrow> lease_error + string" where
  "generate_unique_lease_id candidates existing =
    (case find (\<lambda>c. ''WSL-'' @ c \<notin> set existing) (take 16 candidates) of
       None \<Rightarrow> Inl (WorkerSlotLeaseError ''failed to generate a unique lease ID after 16 attempts'')
     | Some c \<Rightarrow> Inr (''WSL-'' @ c))"

definition acquire_worker_slot ::
  "WorkerKind \<Rightarrow> string \<Rightarrow> string \<Rightarrow> string \<Rightarrow> int \<Rightarrow> string list \<Rightarrow> store_file \<Rightarrow>
   lease_error + (store_file \<times> WorkerSlotLease)"
where
  "acquire_worker_slot kind dispatch instance canonical now candidates f = guarded
    (validate_holder_field dispatch ''holder_dispatch_id'' @
     validate_holder_field instance ''holder_instance_id'')
    (and_then (read_store f) (\<lambda>store.
     guarded (check_now_monotonic now (updated_at store))
      (let existing_ids = map (lease_id \<circ> snd) (leases store);
           now_str = dt_to_utc now;
           active = filter (\<lambda>(sid, l). \<not> now \<ge> expires_at l) (leases store);
           candidate_slots = filter (\<lambda>sid. SLOT_KIND sid = Some kind \<and> dict_get active sid = None)
             STABLE_SLOT_IDS
       in guarded
          [(list_ex (\<lambda>(sid, l). worker_kind l = kind \<and> canonical_worktree l = canonical) active,
              WorkerSlotCapacityError ''duplicate active (worker_kind, worktree) pair'')]
          (case candidate_slots of
             [] \<Rightarrow> Inl (WorkerSlotCapacityError ''no free slot available'')
           | chosen_slot # _ \<Rightarrow>
              (let old_epoch = (case dict_get (slot_epochs store) chosen_slot of None \<Rightarrow> 0 | Some e \<Rightarrow> e);
                   new_epoch = old_epoch + 1
               in guarded [(new_epoch < 1, WorkerSlotLeaseError ''slot_epoch overflow'')]
                 (and_then (generate_unique_lease_id candidates existing_ids) (\<lambda>lid.
                  and_then (make_lease
                    \<lparr>lease_id = lid, lease_epoch = new_epoch, slot_id = chosen_slot,
                     worker_kind = kind, holder_dispatch_id = dispatch,
                     holder_instance_id = instance, canonical_worktree = canonical,
                     acquired_at = now_str, heartbeat_at = now_str,
                     expires_at = dt_to_utc (now + LEASE_TTL_SECONDS * 1000000)\<rparr>) (\<lambda>lease.
                  and_then (atomic_write_store
                    \<lparr>updated_at = now_str,
                     slot_epochs = dict_set chosen_slot new_epoch (slot_epochs store),
                     leases = dict_set chosen_slot lease active\<rparr>) (\<lambda>f'.
                  Inr (f', lease))))))))))"

definition release_worker_slot :: "WorkerSlotLease \<Rightarrow> int \<Rightarrow> store_file \<Rightarrow> lease_error + store_file" where
  "release_worker_slot lease now f =
     and_then (read_store f) (\<lambda>store.
     guarded (check_now_monotonic now (updated_at store))
      (case dict_get (leases store) (slot_id lease) of
         None \<Rightarrow> Inl (WorkerSlotNotHeldError (slot_id lease))
       | Some stored \<Rightarrow> guarded
          (verify_lease_identity stored lease @
           [(now < acquired_at stored, WorkerSlotFencingError ''now must be >= acquired_at'')])
          (atomic_write_store
            \<lparr>updated_at = dt_to_utc now, slot_epochs = slot_epochs store,
             leases = dict_del (slot_id lease) (leases store)\<rparr>)))"

text \<open>The checks shared by renewing and fencing, after the identity has been verified.\<close>

definition currency_guards :: "WorkerSlotLease \<Rightarrow> int \<Rightarrow> lease_guard list" where
  "currency_guards stored now =
    [(now < heartbeat_at stored, WorkerSlotFencingError ''now must be >= current heartbeat_at''),
     (now \<ge> expires_at stored, WorkerSlotFencingError ''lease is expired'')]"

definition renew_worker_slot ::
  "WorkerSlotLease \<Rightarrow> int \<Rightarrow> store_file \<Rightarrow> lease_error + (store_file \<times> WorkerSlotLease)"
where
  "renew_worker_slot lease now f =
     and_then (read_store f) (\<lambda>store.
     guarded (check_now_monotonic now (updated_at store))
      (case dict_get (leases store) (slot_id lease) of
         None \<Rightarrow> Inl (WorkerSlotNotHeldError (slot_id lease))
       | Some stored \<Rightarrow> guarded (verify_lease_identity stored lease @ currency_guards stored now)
          (and_then (make_lease
            (lease\<lparr>heartbeat_at := dt_to_utc now,
                   expires_at := dt_to_utc (now + LEASE_TTL_SECONDS * 1000000)\<rparr>)) (\<lambda>new_lease.
           and_then (atomic_write_store
            \<lparr>updated_at = dt_to_utc now, slot_epochs = slot_epochs store,
             leases = dict_set (slot_id lease) new_lease (leases store)\<rparr>) (\<lambda>f'.
           Inr (f', new_lease))))))"

text \<open>The checks of \<open>hold_worker_slot_fence\<close> before it yields; the store is not written.\<close>

definition hold_worker_slot_fence :: "WorkerSlotLease \<Rightarrow> int \<Rightarrow> store_file \<Rightarrow> lease_error + unit" where
  "hold_worker_slot_fence lease now f =
     and_then (read_store f) (\<lambda>store.
     guarded (check_now_monotonic now (updated_at store))
      (case dict_get (leases store) (slot_id lease) of
         None \<Rightarrow> Inl (WorkerSlotNotHeldError (slot_id lease))
       | Some stored \<Rightarrow> guarded (verify_lease_identity stored lease @ currency_guards stored now)
          (Inr ())))"

section \<open>What the validation means\<close>

lemma SLOT_KIND_stable: "sid \<in> set STABLE_SLOT_IDS \<Longrightarrow> \<exists>k. SLOT_KIND sid = Some k"
  by (auto simp: SLOT_KIND_def)

lemma SLOT_KIND_Some: "SLOT_KIND sid = Some k \<Longrightarrow> sid \<in> set STABLE_SLOT_IDS"
  by (simp add: SLOT_KIND_def split: if_splits)

definition epochs_ok :: "(string, int) dict \<Rightarrow> bool" where
  "epochs_ok epochs \<longleftrightarrow> set (dict_keys epochs) = set STABLE_SLOT_IDS
     \<and> (\<forall>sid \<in> set STABLE_SLOT_IDS. \<exists>e. dict_get epochs sid = Some e \<and> 0 \<le> e)"

definition lease_ok :: "(string, int) dict \<Rightarrow> string \<Rightarrow> WorkerSlotLease \<Rightarrow> bool" where
  "lease_ok epochs k l \<longleftrightarrow> slot_id l = k \<and> SLOT_KIND k = Some (worker_kind l)
     \<and> dict_get epochs k = Some (lease_epoch l)
     \<and> acquired_at l \<le> heartbeat_at l \<and> heartbeat_at l < expires_at l"

definition lease_pair :: "WorkerSlotLease \<Rightarrow> WorkerKind \<times> string" where
  "lease_pair l = (worker_kind l, canonical_worktree l)"

definition leases_ok :: "(string, int) dict \<Rightarrow> (string, WorkerSlotLease) dict \<Rightarrow> bool" where
  "leases_ok epochs d \<longleftrightarrow> (\<forall>x \<in> set d. lease_ok epochs (fst x) (snd x))
     \<and> distinct (filter (\<lambda>i. i \<noteq> []) (map (lease_id \<circ> snd) d))
     \<and> distinct (map (lease_pair \<circ> snd) d)"

definition store_ok :: "LeaseStore \<Rightarrow> bool" where
  "store_ok st \<longleftrightarrow> epochs_ok (slot_epochs st) \<and> leases_ok (slot_epochs st) (leases st)"

lemma epoch_problems_Nil: "epoch_problems epochs = [] \<longleftrightarrow> epochs_ok epochs"
proof -
  have "concat (map (\<lambda>sid. case dict_get epochs sid of None \<Rightarrow> [EpochNotInt sid]
      | Some v \<Rightarrow> if v < 0 then [EpochNegative sid] else []) STABLE_SLOT_IDS) = [] \<longleftrightarrow>
      (\<forall>sid \<in> set STABLE_SLOT_IDS. \<exists>e. dict_get epochs sid = Some e \<and> 0 \<le> e)"
    by (auto split: option.splits if_splits) force+
  then show ?thesis
    by (auto simp: epoch_problems_def epochs_ok_def Let_def filter_empty_conv)
qed

lemma lease_problems_Nil:
  assumes "epochs_ok epochs" and "k \<in> set STABLE_SLOT_IDS"
  shows "lease_problems epochs ids pairs k l = [] \<longleftrightarrow> lease_ok epochs k l
    \<and> (lease_id l = [] \<or> lease_id l \<notin> set ids) \<and> lease_pair l \<notin> set pairs"
proof -
  obtain kind where "SLOT_KIND k = Some kind" using SLOT_KIND_stable [OF assms(2)] by blast
  moreover obtain e where "dict_get epochs k = Some e" using assms by (auto simp: epochs_ok_def)
  ultimately show ?thesis by (auto simp: lease_problems_def lease_ok_def lease_pair_def)
qed

lemma leases_problems_Nil:
  assumes "epochs_ok epochs"
  shows "leases_problems epochs ids pairs d = [] \<longleftrightarrow> leases_ok epochs d
    \<and> (\<forall>x \<in> set d. lease_id (snd x) = [] \<or> lease_id (snd x) \<notin> set ids)
    \<and> (\<forall>x \<in> set d. lease_pair (snd x) \<notin> set pairs)"
proof (induction d arbitrary: ids pairs)
  case Nil
  show ?case by (simp add: leases_ok_def)
next
  case (Cons x d)
  obtain k l where x: "x = (k, l)" by (cases x)
  show ?case
  proof (cases "k \<in> set STABLE_SLOT_IDS")
    case True
    then show ?thesis
      unfolding x leases_problems.simps
      by (simp add: lease_problems_Nil [OF assms] Cons.IH)
        (auto simp: leases_ok_def lease_pair_def [symmetric] image_iff; force)
  next
    case False
    then have "\<not> lease_ok epochs k l" by (auto simp: lease_ok_def dest: SLOT_KIND_Some)
    with False show ?thesis unfolding x by (simp add: leases_ok_def)
  qed
qed

lemma validate_iff: "validate_worker_slot_store st = [] \<longleftrightarrow> store_ok st"
proof (cases "epochs_ok (slot_epochs st)")
  case True
  then show ?thesis
    by (simp add: validate_worker_slot_store_def epoch_problems_Nil leases_problems_Nil store_ok_def)
next
  case False
  then show ?thesis
    by (simp add: validate_worker_slot_store_def epoch_problems_Nil store_ok_def)
qed

lemma stable_distinct: "distinct STABLE_SLOT_IDS"
  by (simp add: STABLE_SLOT_IDS_def)

lemma dict_get_constant:
  "dict_get (map (\<lambda>k. (k, v)) ks) k = (if k \<in> set ks then Some v else None)"
  by (induction ks) (auto simp: dict_get_Cons)

lemma empty_store_ok: "store_ok canonical_empty_store"
  by (simp add: store_ok_def canonical_empty_store_def epochs_ok_def leases_ok_def dict_keys_def
      dict_get_constant comp_def)

section \<open>The file and its invariant\<close>

definition contents :: "store_file \<Rightarrow> LeaseStore" where
  "contents f = (case f of None \<Rightarrow> canonical_empty_store | Some st \<Rightarrow> st)"

text \<open>A JSON object has distinct keys.\<close>

definition file_ok :: "store_file \<Rightarrow> bool" where
  "file_ok f \<longleftrightarrow> store_ok (contents f) \<and> dict_ok (leases (contents f))"

lemma read_store_iff: "read_store f = Inr st \<longleftrightarrow> st = contents f \<and> store_ok st"
  using empty_store_ok
  by (auto simp: read_store_def contents_def res_simps validate_iff split: option.split)

lemma write_store_iff: "atomic_write_store st = Inr f \<longleftrightarrow> f = Some st \<and> store_ok st"
  by (auto simp: atomic_write_store_def res_simps validate_iff)

lemma contents_Some [simp]: "contents (Some st) = st"
  by (simp add: contents_def)

lemma dict_ok_filter: "dict_ok d \<Longrightarrow> dict_ok (filter P d)"
  by (auto simp: dict_ok_def dict_keys_def distinct_map intro: inj_on_subset)

lemma dict_get_filter:
  "dict_ok d \<Longrightarrow> dict_get (filter P d) k = (case dict_get d k of None \<Rightarrow> None
     | Some v \<Rightarrow> if P (k, v) then Some v else None)"
proof -
  assume ok: "dict_ok d"
  have "dict_get (filter P d) k = Some v \<longleftrightarrow> dict_get d k = Some v \<and> P (k, v)" for v
    using dict_get_eq_Some_iff [OF ok] dict_get_eq_Some_iff [OF dict_ok_filter [OF ok]] by auto
  then show ?thesis
    by (cases "dict_get d k"; cases "dict_get (filter P d) k") (simp_all, metis option.distinct(1), metis option.distinct(1) option.inject)
qed

definition epoch_of :: "store_file \<Rightarrow> string \<Rightarrow> int" where
  "epoch_of f sid = (case dict_get (slot_epochs (contents f)) sid of None \<Rightarrow> 0 | Some e \<Rightarrow> e)"

definition active_leases :: "int \<Rightarrow> LeaseStore \<Rightarrow> (string, WorkerSlotLease) dict" where
  "active_leases now st = filter (\<lambda>(sid, l). \<not> now \<ge> expires_at l) (leases st)"

definition free_slots :: "WorkerKind \<Rightarrow> int \<Rightarrow> LeaseStore \<Rightarrow> string list" where
  "free_slots kind now st =
     filter (\<lambda>sid. SLOT_KIND sid = Some kind \<and> dict_get (active_leases now st) sid = None) STABLE_SLOT_IDS"

definition new_lease ::
  "WorkerKind \<Rightarrow> string \<Rightarrow> string \<Rightarrow> string \<Rightarrow> int \<Rightarrow> string \<Rightarrow> string \<Rightarrow> int \<Rightarrow> WorkerSlotLease"
where
  "new_lease kind dispatch instance canonical now lid slot epoch =
     \<lparr>lease_id = lid, lease_epoch = epoch, slot_id = slot, worker_kind = kind,
      holder_dispatch_id = dispatch, holder_instance_id = instance, canonical_worktree = canonical,
      acquired_at = dt_to_utc now, heartbeat_at = dt_to_utc now,
      expires_at = dt_to_utc (now + LEASE_TTL_SECONDS * 1000000)\<rparr>"

definition acquired_store :: "int \<Rightarrow> WorkerSlotLease \<Rightarrow> LeaseStore \<Rightarrow> LeaseStore" where
  "acquired_store now l st =
     \<lparr>updated_at = dt_to_utc now, slot_epochs = dict_set (slot_id l) (lease_epoch l) (slot_epochs st),
      leases = dict_set (slot_id l) l (active_leases now st)\<rparr>"

text \<open>Every condition under which acquiring succeeds, and its result.\<close>

lemma acquire_iff:
  "acquire_worker_slot kind dispatch instance canonical now candidates f = Inr (f', l) \<longleftrightarrow>
    raise_first (validate_holder_field dispatch ''holder_dispatch_id'') = None
    \<and> raise_first (validate_holder_field instance ''holder_instance_id'') = None
    \<and> store_ok (contents f)
    \<and> raise_first (check_now_monotonic now (updated_at (contents f))) = None
    \<and> \<not> list_ex (\<lambda>(sid, l). worker_kind l = kind \<and> canonical_worktree l = canonical) (active_leases now (contents f))
    \<and> (\<exists>slot rest lid. free_slots kind now (contents f) = slot # rest \<and> 1 \<le> epoch_of f slot + 1
         \<and> generate_unique_lease_id candidates (map (lease_id \<circ> snd) (leases (contents f))) = Inr lid
         \<and> l = new_lease kind dispatch instance canonical now lid slot (epoch_of f slot + 1)
         \<and> raise_first (validate_lease l) = None
         \<and> f' = Some (acquired_store now l (contents f)) \<and> store_ok (acquired_store now l (contents f)))"
  (is "_ \<longleftrightarrow> ?rhs")
proof -
  let ?st = "contents f"
  let ?ids = "map (lease_id \<circ> snd) (leases ?st)"
  have "acquire_worker_slot kind dispatch instance canonical now candidates f = Inr (f', l) \<longleftrightarrow>
    raise_first (validate_holder_field dispatch ''holder_dispatch_id'') = None
    \<and> raise_first (validate_holder_field instance ''holder_instance_id'') = None
    \<and> store_ok ?st \<and> raise_first (check_now_monotonic now (updated_at ?st)) = None
    \<and> \<not> list_ex (\<lambda>(sid, l). worker_kind l = kind \<and> canonical_worktree l = canonical) (active_leases now ?st)
    \<and> (case free_slots kind now ?st of
          [] \<Rightarrow> Inl (WorkerSlotCapacityError ''no free slot available'')
        | slot # _ \<Rightarrow> guarded [(epoch_of f slot + 1 < 1, WorkerSlotLeaseError ''slot_epoch overflow'')]
            (and_then (generate_unique_lease_id candidates ?ids) (\<lambda>lid.
             and_then (make_lease (new_lease kind dispatch instance canonical now lid slot (epoch_of f slot + 1)))
               (\<lambda>lease. and_then (atomic_write_store
                  \<lparr>updated_at = dt_to_utc now,
                   slot_epochs = dict_set slot (epoch_of f slot + 1) (slot_epochs ?st),
                   leases = dict_set slot lease (active_leases now ?st)\<rparr>) (\<lambda>f'. Inr (f', lease)))))) = Inr (f', l)"
    unfolding acquire_worker_slot_def Let_def active_leases_def [symmetric] free_slots_def [symmetric]
      new_lease_def [symmetric] guarded_Inr_iff and_then_Inr_iff [of "read_store f"] read_store_iff
      epoch_of_def
    by auto
  also have "\<dots> \<longleftrightarrow> ?rhs"
  proof (cases "free_slots kind now ?st")
    case (Cons slot rest)
    have "raise_first [(epoch_of f slot + 1 < 1, WorkerSlotLeaseError ''slot_epoch overflow'')] = None
        \<longleftrightarrow> 1 \<le> epoch_of f slot + 1" by auto
    then show ?thesis
      unfolding Cons list.case guarded_Inr_iff and_then_Inr_iff make_lease_def write_store_iff
      by (auto simp: acquired_store_def new_lease_def)
  qed simp
  finally show ?thesis .
qed

lemma release_iff: "release_worker_slot l now f = Inr f' \<longleftrightarrow>
    store_ok (contents f) \<and> raise_first (check_now_monotonic now (updated_at (contents f))) = None
    \<and> (\<exists>stored. dict_get (leases (contents f)) (slot_id l) = Some stored
         \<and> raise_first (verify_lease_identity stored l) = None \<and> acquired_at stored \<le> now
         \<and> f' = Some \<lparr>updated_at = dt_to_utc now, slot_epochs = slot_epochs (contents f),
                      leases = dict_del (slot_id l) (leases (contents f))\<rparr>
         \<and> store_ok (the f'))"
  unfolding release_worker_slot_def
  by (auto simp: res_simps read_store_iff write_store_iff split: option.splits)

lemma renew_iff: "renew_worker_slot l now f = Inr (f', l') \<longleftrightarrow>
    store_ok (contents f) \<and> raise_first (check_now_monotonic now (updated_at (contents f))) = None
    \<and> (\<exists>stored. dict_get (leases (contents f)) (slot_id l) = Some stored
         \<and> raise_first (verify_lease_identity stored l) = None
         \<and> raise_first (currency_guards stored now) = None)
    \<and> l' = l\<lparr>heartbeat_at := dt_to_utc now, expires_at := dt_to_utc (now + LEASE_TTL_SECONDS * 1000000)\<rparr>
    \<and> raise_first (validate_lease l') = None
    \<and> f' = Some \<lparr>updated_at = dt_to_utc now, slot_epochs = slot_epochs (contents f),
                 leases = dict_set (slot_id l) l' (leases (contents f))\<rparr>
    \<and> store_ok (the f')"
  unfolding renew_worker_slot_def
  by (auto simp: res_simps read_store_iff write_store_iff make_lease_def split: option.splits)

lemma fence_iff: "hold_worker_slot_fence l now f = Inr () \<longleftrightarrow>
    store_ok (contents f) \<and> raise_first (check_now_monotonic now (updated_at (contents f))) = None
    \<and> (\<exists>stored. dict_get (leases (contents f)) (slot_id l) = Some stored
         \<and> raise_first (verify_lease_identity stored l) = None
         \<and> raise_first (currency_guards stored now) = None)"
  unfolding hold_worker_slot_fence_def
  by (auto simp: res_simps read_store_iff split: option.splits)

section \<open>Steps of the store\<close>

lemma dict_set_absent: "dict_get d k = None \<Longrightarrow> dict_set k v d = d @ [(k, v)]"
  by (induction d) (auto simp: dict_set_def dict_get_def split: if_splits)

lemma dict_keys_set: "set (dict_keys (dict_set k v d)) = insert k (set (dict_keys d))"
  by (induction d) (auto simp: dict_set_def dict_keys_def)

inductive lease_step :: "store_file \<Rightarrow> store_file \<Rightarrow> bool" where
  acquire_step: "acquire_worker_slot kind dispatch instance canonical now candidates f = Inr (f', l) \<Longrightarrow> lease_step f f'"
| release_step: "release_worker_slot l now f = Inr f' \<Longrightarrow> lease_step f f'"
| renew_step: "renew_worker_slot l now f = Inr (f', l') \<Longrightarrow> lease_step f f'"

inductive_cases lease_stepE: "lease_step f f'"

lemma active_ok: "file_ok f \<Longrightarrow> dict_ok (active_leases now (contents f))"
  by (simp add: file_ok_def active_leases_def dict_ok_filter)

lemma acquire_file_ok:
  "file_ok f \<Longrightarrow> acquire_worker_slot kind dispatch instance canonical now candidates f = Inr (f', l) \<Longrightarrow> file_ok f'"
  using active_ok [of f now] by (auto simp: acquire_iff file_ok_def acquired_store_def)

lemma lease_step_ok: "file_ok f \<Longrightarrow> lease_step f f' \<Longrightarrow> file_ok f'"
  by (erule lease_stepE)
    (auto simp: release_iff renew_iff intro: acquire_file_ok, auto simp: file_ok_def)

lemma acquire_epochs:
  assumes "acquire_worker_slot kind dispatch instance canonical now candidates f = Inr (f', l)"
  shows "lease_epoch l = epoch_of f (slot_id l) + 1"
    and "epoch_of f' sid = (if sid = slot_id l then lease_epoch l else epoch_of f sid)"
  using assms by (auto simp: acquire_iff new_lease_def epoch_of_def acquired_store_def dict_simps)

lemma lease_step_epochs: "lease_step f f' \<Longrightarrow> epoch_of f \<le> epoch_of f'"
proof (erule lease_stepE)
  fix kind dispatch inst canonical now candidates l
  assume "acquire_worker_slot kind dispatch inst canonical now candidates f = Inr (f', l)"
  from acquire_epochs [OF this] show ?thesis by (auto simp: le_fun_def)
qed (auto simp: release_iff renew_iff epoch_of_def le_fun_def)

text \<open>The store as a system: its file is well formed in every reachable state, and no step lowers an epoch.\<close>

interpretation lease_system: monotone_system "\<lambda>f. f = None" lease_step file_ok epoch_of
proof
  show "file_ok f" if "f = None" for f
    using that empty_store_ok by (simp add: file_ok_def contents_def canonical_empty_store_def)
qed (auto intro: lease_step_ok lease_step_epochs)

lemma stored_lease_ok:
  assumes "file_ok f" and "dict_get (leases (contents f)) k = Some l"
  shows "slot_id l = k" "SLOT_KIND k = Some (worker_kind l)" "lease_epoch l = epoch_of f k"
    "heartbeat_at l < expires_at l"
  using assms dict_get_member [OF assms(2)]
  by (auto simp: file_ok_def store_ok_def leases_ok_def lease_ok_def epoch_of_def)

lemma identity_epoch:
  "raise_first (verify_lease_identity stored l) = None \<Longrightarrow>
     lease_epoch stored = lease_epoch l \<and> lease_id stored = lease_id l
     \<and> holder_dispatch_id stored = holder_dispatch_id l \<and> holder_instance_id stored = holder_instance_id l"
  by (simp add: verify_lease_identity_def)

text \<open>Every operation on a held lease requires the current epoch of its slot.\<close>

lemma held_epoch:
  assumes "file_ok f"
  shows "release_worker_slot l now f = Inr f' \<Longrightarrow> lease_epoch l = epoch_of f (slot_id l)"
    and "renew_worker_slot l now f = Inr (f', l') \<Longrightarrow> lease_epoch l = epoch_of f (slot_id l)"
    and "hold_worker_slot_fence l now f = Inr u \<Longrightarrow> lease_epoch l = epoch_of f (slot_id l)"
  using stored_lease_ok(3) [OF assms]
  by (auto simp: release_iff renew_iff fence_iff dest!: identity_epoch)

lemma filter_nonempty_map: "filter (\<lambda>i. i \<noteq> []) (map f xs) = map f (filter (\<lambda>x. f x \<noteq> []) xs)"
  by (simp add: filter_map comp_def)

lemma distinct_nonempty_filter:
  assumes "distinct (filter (\<lambda>i. i \<noteq> []) (map f xs))"
  shows "distinct (filter (\<lambda>i. i \<noteq> []) (map f (filter P xs)))"
proof -
  have "filter (\<lambda>x. f x \<noteq> []) (filter P xs) = filter P (filter (\<lambda>x. f x \<noteq> []) xs)"
    by (simp add: conj_commute)
  with assms show ?thesis unfolding filter_nonempty_map by (metis distinct_map_filter)
qed

lemma acquired_store_ok:
  assumes ok: "file_ok f" and free: "dict_get (active_leases now (contents f)) slot = None"
    and slot: "SLOT_KIND slot = Some kind"
    and pair: "\<not> list_ex (\<lambda>(sid, l). worker_kind l = kind \<and> canonical_worktree l = canonical)
        (active_leases now (contents f))"
    and fresh: "lid \<notin> set (map (lease_id \<circ> snd) (leases (contents f)))"
  shows "store_ok (acquired_store now
    (new_lease kind dispatch instance canonical now lid slot (epoch_of f slot + 1)) (contents f))"
proof -
  let ?l = "new_lease kind dispatch instance canonical now lid slot (epoch_of f slot + 1)"
  let ?epochs = "slot_epochs (contents f)" and ?active = "active_leases now (contents f)"
  let ?epochs' = "dict_set slot (epoch_of f slot + 1) ?epochs"
  from ok have epochs: "epochs_ok ?epochs" and lok: "leases_ok ?epochs (leases (contents f))"
    by (simp_all add: file_ok_def store_ok_def)
  have stable: "slot \<in> set STABLE_SLOT_IDS" using slot by (rule SLOT_KIND_Some)
  then have e0: "0 \<le> epoch_of f slot" using epochs by (auto simp: epochs_ok_def epoch_of_def)
  have "epochs_ok ?epochs'"
    using epochs stable e0 by (auto simp: epochs_ok_def dict_keys_set dict_simps)
  moreover have "leases_ok ?epochs' (dict_set slot ?l ?active)"
  proof -
    have "dict_get ?epochs' (fst x) = dict_get ?epochs (fst x)" if "x \<in> set ?active" for x
    proof -
      have "fst x \<noteq> slot" using that free by (auto simp: dict_get_None_iff dict_keys_def)
      then show ?thesis by (simp add: dict_simps)
    qed
    then have "\<forall>x \<in> set ?active. lease_ok ?epochs' (fst x) (snd x)"
      using lok by (auto simp: leases_ok_def lease_ok_def active_leases_def)
    moreover have "lease_ok ?epochs' slot ?l"
      using slot by (simp add: lease_ok_def new_lease_def dict_simps dt_to_utc_def LEASE_TTL_SECONDS_def)
    moreover have "distinct (filter (\<lambda>i. i \<noteq> []) (map (lease_id \<circ> snd) ?active))"
      using lok by (simp add: leases_ok_def active_leases_def distinct_nonempty_filter)
    moreover have "distinct (map (lease_pair \<circ> snd) ?active)"
      using lok by (simp add: leases_ok_def active_leases_def distinct_map_filter)
    moreover have "lid \<notin> (lease_id \<circ> snd) ` set ?active" using fresh by (auto simp: active_leases_def)
    moreover have "lease_pair ?l \<notin> (lease_pair \<circ> snd) ` set ?active"
      using pair by (force simp: list_ex_iff lease_pair_def new_lease_def)
    ultimately show ?thesis
      using dict_set_absent [OF free] by (simp add: leases_ok_def new_lease_def)
  qed
  ultimately show ?thesis by (simp add: store_ok_def acquired_store_def new_lease_def)
qed

lemma slot_kinds: "map SLOT_KIND STABLE_SLOT_IDS =
    [Some BASIC_AGENT, Some BASIC_AGENT, Some STANDARD_AGENT, Some STANDARD_AGENT,
     Some ADVANCED_AGENT, Some ADVANCED_AGENT, Some EXPERT_AGENT, Some EXPERT_AGENT]"
  by code_simp

lemma two_slots: "card {k \<in> set STABLE_SLOT_IDS. SLOT_KIND k = Some kind} \<le> 2"
proof -
  have "length (filter (\<lambda>k. SLOT_KIND k = Some kind) STABLE_SLOT_IDS) \<le> 2"
  proof -
    have "length (filter (\<lambda>k. SLOT_KIND k = Some kind) STABLE_SLOT_IDS) =
        length (filter (\<lambda>v. v = Some kind) (map SLOT_KIND STABLE_SLOT_IDS))"
      by (simp add: filter_map comp_def)
    also have "\<dots> \<le> 2" unfolding slot_kinds by (cases kind) simp_all
    finally show ?thesis .
  qed
  moreover have "{k \<in> set STABLE_SLOT_IDS. SLOT_KIND k = Some kind} =
      set (filter (\<lambda>k. SLOT_KIND k = Some kind) STABLE_SLOT_IDS)" by simp
  ultimately show ?thesis by (metis card_length le_trans)
qed

lemma distinct_map_eqD: "distinct (map f xs) \<Longrightarrow> x \<in> set xs \<Longrightarrow> y \<in> set xs \<Longrightarrow> f x = f y \<Longrightarrow> x = y"
  by (auto simp: distinct_map dest: inj_onD)

lemma leases_ok_inject:
  assumes lok: "leases_ok epochs d" and keys: "dict_ok d"
    and x: "x \<in> set d" and y: "y \<in> set d" and "x \<noteq> y"
  shows "fst x \<noteq> fst y" "lease_pair (snd x) \<noteq> lease_pair (snd y)"
    "lease_id (snd x) = lease_id (snd y) \<Longrightarrow> lease_id (snd x) = []"
proof -
  show "fst x \<noteq> fst y"
    using distinct_map_eqD [of fst d x y] assms by (auto simp: dict_ok_def dict_keys_def)
  show "lease_pair (snd x) \<noteq> lease_pair (snd y)"
    using distinct_map_eqD [of "lease_pair \<circ> snd" d x y] assms by (auto simp: leases_ok_def)
  assume same: "lease_id (snd x) = lease_id (snd y)"
  show "lease_id (snd x) = []"
  proof (rule ccontr)
    assume "lease_id (snd x) \<noteq> []"
    moreover have "distinct (map (lease_id \<circ> snd) (filter (\<lambda>x. (lease_id \<circ> snd) x \<noteq> []) d))"
      using lok unfolding leases_ok_def filter_nonempty_map by blast
    ultimately show False
      using distinct_map_eqD [of "lease_id \<circ> snd" "filter (\<lambda>x. (lease_id \<circ> snd) x \<noteq> []) d" x y] same x y \<open>x \<noteq> y\<close>
      by simp
  qed
qed

lemma acquire_intro:
  assumes "raise_first (validate_holder_field dispatch ''holder_dispatch_id'') = None"
    and "raise_first (validate_holder_field inst ''holder_instance_id'') = None"
    and "store_ok (contents f)"
    and "raise_first (check_now_monotonic now (updated_at (contents f))) = None"
    and "\<not> list_ex (\<lambda>(sid, l). worker_kind l = kind \<and> canonical_worktree l = canonical)
       (active_leases now (contents f))"
    and "free_slots kind now (contents f) = slot # rest" and "1 \<le> epoch_of f slot + 1"
    and "generate_unique_lease_id candidates (map (lease_id \<circ> snd) (leases (contents f))) = Inr lid"
    and "l = new_lease kind dispatch inst canonical now lid slot (epoch_of f slot + 1)"
    and "raise_first (validate_lease l) = None" and "store_ok (acquired_store now l (contents f))"
  shows "acquire_worker_slot kind dispatch inst canonical now candidates f =
    Inr (Some (acquired_store now l (contents f)), l)"
  unfolding acquire_iff using assms by blast

lemma card_subset_le: "finite B \<Longrightarrow> A \<subseteq> B \<Longrightarrow> card B \<le> n \<Longrightarrow> card A \<le> n"
  by (meson card_mono le_trans)

section \<open>Properties\<close>


text \<open>
  C21. Acquiring is safe: the lease takes a slot of its kind that was free or whose lease had
  expired, with the next epoch of that slot; every other unexpired lease is kept as it was and
  the expired ones are dropped; no other lease has the same kind and worktree; and the store
  that is written is well formed.
\<close>

theorem acquire_sound:
  assumes "file_ok f"
    and "acquire_worker_slot kind dispatch inst canonical now candidates f = Inr (f', l)"
  shows "file_ok f' \<and> SLOT_KIND (slot_id l) = Some kind
    \<and> dict_get (leases (contents f')) (slot_id l) = Some l
    \<and> lease_epoch l = epoch_of f (slot_id l) + 1 \<and> epoch_of f' (slot_id l) = lease_epoch l
    \<and> (\<forall>k. k \<noteq> slot_id l \<longrightarrow> dict_get (leases (contents f')) k =
         (case dict_get (leases (contents f)) k of
            None \<Rightarrow> None | Some l' \<Rightarrow> if now < expires_at l' then Some l' else None))
    \<and> (\<forall>l'. dict_get (leases (contents f)) (slot_id l) = Some l' \<longrightarrow> expires_at l' \<le> now)
    \<and> (\<forall>k l'. dict_get (leases (contents f')) k = Some l' \<and> lease_pair l' = lease_pair l \<longrightarrow> k = slot_id l)"
proof -
  have ok: "dict_ok (leases (contents f))" using assms(1) by (simp add: file_ok_def)
  have active: "dict_get (active_leases now (contents f)) k = (case dict_get (leases (contents f)) k of
      None \<Rightarrow> None | Some l' \<Rightarrow> if now < expires_at l' then Some l' else None)" for k
    using dict_get_filter [OF ok] by (simp add: active_leases_def not_le split: option.split)
  from assms(2) obtain slot rest lid where free: "free_slots kind now (contents f) = slot # rest"
    and l: "l = new_lease kind dispatch inst canonical now lid slot (epoch_of f slot + 1)"
    and f': "f' = Some (acquired_store now l (contents f))"
    by (auto simp: acquire_iff)
  have slot: "slot_id l = slot" by (simp add: l new_lease_def)
  have "slot \<in> set (free_slots kind now (contents f))" by (simp add: free)
  then have none: "SLOT_KIND slot = Some kind" "dict_get (active_leases now (contents f)) slot = None"
    by (simp_all add: free_slots_def)
  have stored: "leases (contents f') = dict_set slot l (active_leases now (contents f))"
    by (simp add: f' acquired_store_def slot)
  have other: "dict_get (leases (contents f')) k = (case dict_get (leases (contents f)) k of
      None \<Rightarrow> None | Some l' \<Rightarrow> if now < expires_at l' then Some l' else None)" if "k \<noteq> slot" for k
    using that by (simp add: stored dict_simps active)
  have old: "expires_at l' \<le> now" if "dict_get (leases (contents f)) slot = Some l'" for l'
    using none(2) that by (simp add: active split: if_splits)
  have same: "k = slot" if "dict_get (leases (contents f')) k = Some l'" "lease_pair l' = lease_pair l" for k l'
  proof (rule ccontr)
    assume "k \<noteq> slot"
    with that(1) have "(k, l') \<in> set (active_leases now (contents f))"
      by (auto simp: stored dict_simps dest: dict_get_member)
    with that(2) assms(2) show False
      by (force simp: acquire_iff list_ex_iff lease_pair_def l new_lease_def)
  qed
  have "file_ok f'" by (rule acquire_file_ok [OF assms])
  moreover have "dict_get (leases (contents f')) slot = Some l" by (simp add: stored dict_simps)
  moreover have "lease_epoch l = epoch_of f slot + 1" "epoch_of f' slot = lease_epoch l"
    using acquire_epochs [OF assms(2)] by (simp_all add: slot)
  ultimately show ?thesis unfolding slot using none(1) other old same by blast
qed

text \<open>
  Acquiring is complete: with valid arguments, a time that is not before the last write, no
  active lease of the same kind and worktree, a free slot and a usable fresh identity, it
  always succeeds; the validation never refuses the store it builds.
\<close>

theorem acquire_complete:
  assumes "file_ok f"
    and "raise_first (validate_holder_field dispatch ''holder_dispatch_id'') = None"
    and "raise_first (validate_holder_field inst ''holder_instance_id'') = None"
    and "raise_first (validate_worktree_string canonical) = None"
    and "raise_first (check_now_monotonic now (updated_at (contents f))) = None"
    and "\<not> list_ex (\<lambda>(sid, l). worker_kind l = kind \<and> canonical_worktree l = canonical)
       (active_leases now (contents f))"
    and "free_slots kind now (contents f) = slot # rest"
    and "LEASE_ID_RE (''WSL-'' @ token)"
    and "''WSL-'' @ token \<notin> set (map (lease_id \<circ> snd) (leases (contents f)))"
  shows "\<exists>f' l. acquire_worker_slot kind dispatch inst canonical now (token # tokens) f = Inr (f', l)
    \<and> slot_id l = slot"
proof -
  let ?l = "new_lease kind dispatch inst canonical now (''WSL-'' @ token) slot (epoch_of f slot + 1)"
  have "slot \<in> set (free_slots kind now (contents f))" by (simp add: assms(7))
  then have free: "SLOT_KIND slot = Some kind" "dict_get (active_leases now (contents f)) slot = None"
    by (simp_all add: free_slots_def)
  have stable: "slot \<in> set STABLE_SLOT_IDS" using free(1) by (rule SLOT_KIND_Some)
  have e0: "0 \<le> epoch_of f slot"
    using assms(1) stable by (auto simp: file_ok_def store_ok_def epochs_ok_def epoch_of_def)
  have "slot \<noteq> []" using stable by (auto simp: STABLE_SLOT_IDS_def)
  then have "raise_first (validate_lease ?l) = None"
    using e0 assms(2-4,8) free(1) stable
    by (simp add: validate_lease_def new_lease_def dt_to_utc_def LEASE_TTL_SECONDS_def)
  moreover have "generate_unique_lease_id (token # tokens) (map (lease_id \<circ> snd) (leases (contents f)))
      = Inr (''WSL-'' @ token)"
    using assms(9) by (simp add: generate_unique_lease_id_def)
  moreover have "store_ok (acquired_store now ?l (contents f))"
    by (rule acquired_store_ok [OF assms(1) free(2,1) assms(6,9)])
  ultimately have "acquire_worker_slot kind dispatch inst canonical now (token # tokens) f =
      Inr (Some (acquired_store now ?l (contents f)), ?l)"
    using assms(1) e0
    by (intro acquire_intro [OF assms(2,3) _ assms(5,6,7)]) (simp_all add: file_ok_def)
  then show ?thesis by (auto simp: new_lease_def)
qed

text \<open>
  C19. Fencing: once a slot has been acquired again, the earlier holder is shut out for good.
  Whatever operations run in between and afterwards, in any order, the earlier lease can be
  neither released nor renewed nor used as a fence.
\<close>

theorem stale_lease_fenced:
  assumes "file_ok f"
    and "acquire_worker_slot kind dispatch inst canonical now candidates f = Inr (f1, old)"
    and "lease_step\<^sup>*\<^sup>* f1 f2"
    and "acquire_worker_slot kind' dispatch' inst' canonical' now' candidates' f2 = Inr (f3, new)"
    and "slot_id new = slot_id old" and "lease_step\<^sup>*\<^sup>* f3 f4"
  shows "(\<forall>f'. release_worker_slot old t f4 \<noteq> Inr f') \<and> (\<forall>r. renew_worker_slot old t f4 \<noteq> Inr r)
    \<and> (\<forall>u. hold_worker_slot_fence old t f4 \<noteq> Inr u)"
proof -
  have ok1: "file_ok f1" by (rule acquire_file_ok [OF assms(1,2)])
  have ok2: "file_ok f2" by (rule lease_system.steps_inv [OF assms(3) ok1])
  have ok3: "file_ok f3" by (rule acquire_file_ok [OF ok2 assms(4)])
  have ok4: "file_ok f4" by (rule lease_system.steps_inv [OF assms(6) ok3])
  have "lease_epoch old = epoch_of f1 (slot_id old)" using acquire_epochs(2) [OF assms(2)] by simp
  also have "\<dots> \<le> epoch_of f2 (slot_id old)"
    using lease_system.steps_level [OF assms(3) ok1] by (simp add: le_fun_def)
  also have "\<dots> < epoch_of f3 (slot_id old)" using acquire_epochs [OF assms(4)] assms(5) by simp
  also have "\<dots> \<le> epoch_of f4 (slot_id old)"
    using lease_system.steps_level [OF assms(6) ok3] by (simp add: le_fun_def)
  finally have "lease_epoch old \<noteq> epoch_of f4 (slot_id old)" by simp
  with held_epoch [OF ok4, of old t] show ?thesis by (metis surj_pair)
qed

text \<open>
  C30. Capacity: in every reachable state of the store a worker kind holds at most two leases,
  and two different leases never share a slot, an identity, or both kind and worktree.
\<close>

theorem lease_capacity:
  assumes "reachable_from (\<lambda>f. f = None) lease_step f"
  shows "card {k. \<exists>l. (k, l) \<in> set (leases (contents f)) \<and> worker_kind l = kind} \<le> 2
    \<and> (\<forall>k l k' l'. (k, l) \<in> set (leases (contents f)) \<and> (k', l') \<in> set (leases (contents f))
         \<and> (k, l) \<noteq> (k', l') \<longrightarrow> k \<noteq> k' \<and> lease_pair l \<noteq> lease_pair l'
           \<and> (lease_id l = lease_id l' \<longrightarrow> lease_id l = []))"
proof -
  have ok: "file_ok f" using assms by (rule lease_system.reachable_inv)
  then have lok: "leases_ok (slot_epochs (contents f)) (leases (contents f))"
    and keys: "dict_ok (leases (contents f))" by (simp_all add: file_ok_def store_ok_def)
  have sub: "{k. \<exists>l. (k, l) \<in> set (leases (contents f)) \<and> worker_kind l = kind}
      \<subseteq> {k \<in> set STABLE_SLOT_IDS. SLOT_KIND k = Some kind}"
  proof
    fix k assume "k \<in> {k. \<exists>l. (k, l) \<in> set (leases (contents f)) \<and> worker_kind l = kind}"
    then obtain l where l: "(k, l) \<in> set (leases (contents f))" "worker_kind l = kind" by blast
    with lok have "SLOT_KIND k = Some kind" by (force simp: leases_ok_def lease_ok_def)
    then show "k \<in> {k \<in> set STABLE_SLOT_IDS. SLOT_KIND k = Some kind}" by (auto dest: SLOT_KIND_Some)
  qed
  have "card {k. \<exists>l. (k, l) \<in> set (leases (contents f)) \<and> worker_kind l = kind} \<le> 2"
    by (rule card_subset_le [OF _ sub two_slots]) simp
  moreover have "k \<noteq> k' \<and> lease_pair l \<noteq> lease_pair l' \<and> (lease_id l = lease_id l' \<longrightarrow> lease_id l = [])"
    if "(k, l) \<in> set (leases (contents f))" "(k', l') \<in> set (leases (contents f))" "(k, l) \<noteq> (k', l')"
    for k l k' l'
    using leases_ok_inject [OF lok keys that] by simp
  ultimately show ?thesis by blast
qed

text \<open>
  Renewing keeps the slot and extends the lease: the slot held an unexpired lease with the
  same identity, epoch and holder; afterwards it holds the renewed one, which expires sixty
  seconds after the current second; epochs and all other slots are unchanged, and the file
  stays well formed.
\<close>

theorem renew_sound:
  assumes "file_ok f" and "renew_worker_slot l now f = Inr (f', l')"
  shows "\<exists>stored. dict_get (leases (contents f)) (slot_id l) = Some stored
    \<and> (lease_id stored, lease_epoch stored, holder_dispatch_id stored, holder_instance_id stored) =
        (lease_id l, lease_epoch l, holder_dispatch_id l, holder_instance_id l)
    \<and> heartbeat_at stored \<le> now \<and> now < expires_at stored
    \<and> l' = l\<lparr>heartbeat_at := dt_to_utc now, expires_at := dt_to_utc now + 60000000\<rparr>
    \<and> file_ok f' \<and> epoch_of f' = epoch_of f
    \<and> (\<forall>k. dict_get (leases (contents f')) k =
          (if k = slot_id l then Some l' else dict_get (leases (contents f)) k))"
proof -
  have ttl: "dt_to_utc (now + LEASE_TTL_SECONDS * 1000000) = dt_to_utc now + 60000000"
    using div_mult_self1 [of 1000000 now 60] by (simp add: dt_to_utc_def LEASE_TTL_SECONDS_def)
  have "file_ok f'" using assms by (intro lease_step_ok [OF assms(1)]) (rule renew_step)
  with assms(2) show ?thesis
    by (auto simp: renew_iff ttl verify_lease_identity_def currency_guards_def epoch_of_def dict_simps fun_eq_iff)
qed

text \<open>
  A fence that is granted excludes other holders: while the fence's time lasts, nobody can
  acquire the slot, since its lease is stored, current and unexpired.
\<close>

theorem fence_excludes_acquire:
  assumes "file_ok f" and "hold_worker_slot_fence l now f = Inr ()"
    and "acquire_worker_slot kind dispatch inst canonical now candidates f = Inr (f', l')"
  shows "slot_id l' \<noteq> slot_id l \<and> dict_get (leases (contents f')) (slot_id l) = dict_get (leases (contents f)) (slot_id l)"
proof -
  from assms(2) obtain stored where stored: "dict_get (leases (contents f)) (slot_id l) = Some stored"
    "now < expires_at stored"
    by (auto simp: fence_iff currency_guards_def not_le)
  have ok: "dict_ok (leases (contents f))" using assms(1) by (simp add: file_ok_def)
  have active: "dict_get (active_leases now (contents f)) (slot_id l) = Some stored"
    using dict_get_filter [OF ok] stored by (simp add: active_leases_def not_le)
  from assms(3) obtain slot rest where free: "free_slots kind now (contents f) = slot # rest"
    and l': "slot_id l' = slot" and f': "f' = Some (acquired_store now l' (contents f))"
    by (auto simp: acquire_iff new_lease_def)
  have "slot \<in> set (free_slots kind now (contents f))" by (simp add: free)
  then have "slot \<noteq> slot_id l" using active by (auto simp: free_slots_def)
  then show ?thesis using l' active stored by (simp add: f' acquired_store_def dict_simps)
qed

section \<open>Witnesses\<close>

definition sample_token :: string where
  "sample_token = replicate 32 (CHR ''a'')"

definition sample_token2 :: string where
  "sample_token2 = replicate 32 (CHR ''b'')"

definition acquire_sample :: "int \<Rightarrow> string \<Rightarrow> string list \<Rightarrow> store_file \<Rightarrow> lease_error + (store_file \<times> WorkerSlotLease)" where
  "acquire_sample now dispatch tokens f =
     acquire_worker_slot BASIC_AGENT dispatch ''host-1'' ''/work/a'' now tokens f"

definition first_lease :: WorkerSlotLease where
  "first_lease = new_lease BASIC_AGENT ''DSP-1'' ''host-1'' ''/work/a'' 5500000 (''WSL-'' @ sample_token) ''basic_agent-1'' 1"

definition first_file :: store_file where
  "first_file = Some (acquired_store 5500000 first_lease canonical_empty_store)"

definition second_lease :: WorkerSlotLease where
  "second_lease = new_lease BASIC_AGENT ''DSP-2'' ''host-1'' ''/work/a'' 70000000 (''WSL-'' @ sample_token2) ''basic_agent-1'' 2"

definition second_file :: store_file where
  "second_file = Some (acquired_store 70000000 second_lease (contents first_file))"

lemma acquire_first: "acquire_sample 5500000 ''DSP-1'' [sample_token] None = Inr (first_file, first_lease)"
  by code_simp

lemma acquire_second: "acquire_sample 70000000 ''DSP-2'' [sample_token2] first_file = Inr (second_file, second_lease)"
  by code_simp

lemma empty_file_ok: "file_ok None"
  using empty_store_ok by (simp add: file_ok_def contents_def canonical_empty_store_def)

lemma first_file_ok: "file_ok first_file"
  by (rule acquire_file_ok [OF empty_file_ok acquire_first [unfolded acquire_sample_def]])

lemma acquire_sound_witness:
  "file_ok second_file \<and> SLOT_KIND (slot_id second_lease) = Some BASIC_AGENT
   \<and> lease_epoch second_lease = epoch_of first_file (slot_id second_lease) + 1"
  using acquire_sound [OF first_file_ok acquire_second [unfolded acquire_sample_def]] by fast

lemma acquire_complete_witness:
  "\<exists>f' l. acquire_worker_slot BASIC_AGENT ''DSP-1'' ''host-1'' ''/work/a'' 5500000 [sample_token] None = Inr (f', l)
     \<and> slot_id l = ''basic_agent-1''"
proof (rule acquire_complete [OF empty_file_ok])
  show "free_slots BASIC_AGENT 5500000 (contents None) = ''basic_agent-1'' # [''basic_agent-2'']"
    by code_simp
qed (code_simp+)

lemma stale_lease_fenced_witness:
  "(\<forall>f'. release_worker_slot first_lease 71000000 second_file \<noteq> Inr f')
   \<and> (\<forall>r. renew_worker_slot first_lease 71000000 second_file \<noteq> Inr r)"
  using stale_lease_fenced [OF empty_file_ok acquire_first [unfolded acquire_sample_def] rtranclp.rtrancl_refl
      acquire_second [unfolded acquire_sample_def] _ rtranclp.rtrancl_refl]
  by (simp add: first_lease_def second_lease_def new_lease_def)

lemma lease_capacity_witness:
  "card {k. \<exists>l. (k, l) \<in> set (leases (contents first_file)) \<and> worker_kind l = BASIC_AGENT} \<le> 2"
proof -
  have "lease_step None first_file"
    using acquire_first unfolding acquire_sample_def by (rule acquire_step)
  then have "reachable_from (\<lambda>f. f = None) lease_step first_file"
    by (blast intro: reachable_from.intros)
  from lease_capacity [OF this, of BASIC_AGENT] show ?thesis by simp
qed

definition renewed_lease :: WorkerSlotLease where
  "renewed_lease = first_lease\<lparr>heartbeat_at := 20000000, expires_at := 80000000\<rparr>"

definition renewed_file :: store_file where
  "renewed_file = Some \<lparr>updated_at = 20000000, slot_epochs = slot_epochs (contents first_file),
     leases = [(''basic_agent-1'', renewed_lease)]\<rparr>"

lemma renew_first: "renew_worker_slot first_lease 20300000 first_file = Inr (renewed_file, renewed_lease)"
  by code_simp

lemma renew_sound_witness: "file_ok renewed_file \<and> epoch_of renewed_file = epoch_of first_file"
  using renew_sound [OF first_file_ok renew_first] by blast

lemma fence_excludes_acquire_witness:
  "\<exists>f' l'. acquire_worker_slot BASIC_AGENT ''DSP-3'' ''host-1'' ''/work/b'' 20300000 [sample_token2] first_file = Inr (f', l')
     \<and> slot_id l' \<noteq> ''basic_agent-1''"
proof -
  have "hold_worker_slot_fence first_lease 20300000 first_file = Inr ()" by code_simp
  moreover have "case acquire_worker_slot BASIC_AGENT ''DSP-3'' ''host-1'' ''/work/b'' 20300000 [sample_token2] first_file of
      Inl e \<Rightarrow> False | Inr r \<Rightarrow> True"
    by code_simp
  then obtain f' l' where a: "acquire_worker_slot BASIC_AGENT ''DSP-3'' ''host-1'' ''/work/b'' 20300000 [sample_token2] first_file
      = Inr (f', l')"
    by (auto split: sum.splits)
  ultimately show ?thesis
    using fence_excludes_acquire [OF first_file_ok _ a, of first_lease] a
    by (auto simp: first_lease_def new_lease_def)
qed

text \<open>
  Renewing does not preserve the other fields of the stored lease: identity is checked on
  five fields only, and the caller's copy replaces the stored one, so a holder that presents a
  copy with another worktree moves the lease to it.
\<close>

theorem renew_replaces_worktree:
  "\<exists>f l now f' l' stored. file_ok f
     \<and> dict_get (leases (contents f)) (slot_id l) = Some stored
     \<and> renew_worker_slot l now f = Inr (f', l')
     \<and> dict_get (leases (contents f')) (slot_id l) = Some l'
     \<and> canonical_worktree l' \<noteq> canonical_worktree stored"
proof -
  let ?l = "first_lease\<lparr>canonical_worktree := ''/elsewhere''\<rparr>"
  let ?l' = "renewed_lease\<lparr>canonical_worktree := ''/elsewhere''\<rparr>"
  let ?f' = "Some \<lparr>updated_at = 20000000, slot_epochs = slot_epochs (contents first_file),
     leases = [(''basic_agent-1'', ?l')]\<rparr>"
  have "renew_worker_slot ?l 20300000 first_file = Inr (?f', ?l')" by code_simp
  moreover have "dict_get (leases (contents first_file)) (slot_id ?l) = Some first_lease" by code_simp
  moreover have "dict_get (leases (contents ?f')) (slot_id ?l) = Some ?l'" by code_simp
  moreover have "canonical_worktree ?l' \<noteq> canonical_worktree first_lease" by code_simp
  ultimately show ?thesis using first_file_ok by blast
qed

end
