(* ===== verification/Store_Lock.thy ===== *)
theory Store_Lock
  imports Lease_Store
begin

text \<open>
  The exclusive lock of the lease store (\<open>_exclusive_store_lock\<close> in
  \<open>worker_slot_lease.py\<close>): a file created exclusively with a random ownership token, removed
  on release only when it still holds that token.  Processes are numbered; a step is one
  process entering, one leaving, or somebody outside the program deleting the lock file.
\<close>

type_synonym lock_file = "string option"

definition lock_enter :: "string \<Rightarrow> lock_file \<Rightarrow> lease_error + lock_file" where
  "lock_enter token lock = (case lock of
      Some _ \<Rightarrow> Inl WorkerSlotContentionError
    | None \<Rightarrow> Inr (Some token))"

text \<open>The release: the new lock file, and the error of a release that found a problem.\<close>

definition lock_leave :: "string \<Rightarrow> lock_file \<Rightarrow> lock_file \<times> lease_error option" where
  "lock_leave token lock = (case lock of
      None \<Rightarrow> (None, Some (WorkerSlotLeaseError ''lock file disappeared while held''))
    | Some stored \<Rightarrow>
        if py_strip stored = token then (None, None)
        else (Some stored, Some (WorkerSlotLeaseError ''lock file token mismatch'')))"

text \<open>
  The ``with'' statement around an operation on the store: a failing body keeps its own error,
  a failing release turns success into an error.
\<close>

definition with_lock ::
  "string \<Rightarrow> lock_file \<Rightarrow> (lease_error + 'a) \<Rightarrow> (lease_error + 'a) \<times> lock_file"
where
  "with_lock token lock body = (case lock_enter token lock of
      Inl e \<Rightarrow> (Inl e, lock)
    | Inr held \<Rightarrow> (case lock_leave token held of (after, problem) \<Rightarrow>
        (case body of
           Inl e \<Rightarrow> (Inl e, after)
         | Inr x \<Rightarrow> (case problem of None \<Rightarrow> (Inr x, after) | Some e \<Rightarrow> (Inl e, after)))))"

record lock_state =
  lock :: lock_file
  held :: "nat \<Rightarrow> string option"

definition token_ok :: "string \<Rightarrow> bool" where
  "token_ok t \<longleftrightarrow> length t = 32 \<and> list_all is_hex t"

text \<open>Entering draws a token nobody holds; \<open>secrets.token_hex\<close> gives hexadecimal digits.\<close>

inductive lock_step :: "lock_state \<Rightarrow> lock_state \<Rightarrow> bool" where
  enter: "held s p = None \<Longrightarrow> token_ok t \<Longrightarrow> \<forall>q. held s q \<noteq> Some t \<Longrightarrow>
     lock_enter t (lock s) = Inr l \<Longrightarrow> lock_step s \<lparr>lock = l, held = (held s)(p := Some t)\<rparr>"
| leave: "held s p = Some t \<Longrightarrow> lock_leave t (lock s) = (l, e) \<Longrightarrow>
     lock_step s \<lparr>lock = l, held = (held s)(p := None)\<rparr>"

inductive intruded_step :: "lock_state \<Rightarrow> lock_state \<Rightarrow> bool" where
  regular: "lock_step s s' \<Longrightarrow> intruded_step s s'"
| deleted: "intruded_step s (s\<lparr>lock := None\<rparr>)"

inductive_cases lock_stepE: "lock_step s s'"
inductive_cases intruded_stepE: "intruded_step s s'"

definition lock_free :: "lock_state \<Rightarrow> bool" where
  "lock_free s \<longleftrightarrow> lock s = None \<and> (\<forall>p. held s p = None)"

definition tokens_distinct :: "lock_state \<Rightarrow> bool" where
  "tokens_distinct s \<longleftrightarrow> (\<forall>p q t. held s p = Some t \<and> held s q = Some t \<longrightarrow> p = q)
     \<and> (\<forall>p t. held s p = Some t \<longrightarrow> token_ok t)"

definition lock_inv :: "lock_state \<Rightarrow> bool" where
  "lock_inv s \<longleftrightarrow> tokens_distinct s \<and> (\<forall>p t. held s p = Some t \<longrightarrow> lock s = Some t)
     \<and> (\<forall>l. lock s = Some l \<longrightarrow> token_ok l)"

lemma hex_not_space: "is_hex c \<Longrightarrow> \<not> py_isspace c"
  by (auto simp: is_hex_def py_isspace_def Let_def)

lemma strip_token: "token_ok t \<Longrightarrow> py_strip t = t"
proof -
  assume "token_ok t"
  then have *: "\<forall>c \<in> set t. \<not> py_isspace c"
    by (auto simp: token_ok_def list_all_iff dest: hex_not_space)
  have drop: "\<forall>c \<in> set s. \<not> py_isspace c \<Longrightarrow> dropWhile py_isspace s = s" for s
    by (cases s) auto
  show ?thesis using drop [OF *] drop [of "rev t"] * by (simp add: py_strip_def)
qed

lemma lock_leave_own: "token_ok t \<Longrightarrow> lock_leave t (Some t) = (None, None)"
  by (simp add: lock_leave_def strip_token)

lemma tokens_distinct_step: "tokens_distinct s \<Longrightarrow> lock_step s s' \<Longrightarrow> tokens_distinct s'"
proof -
  assume dist: "tokens_distinct s" and step: "lock_step s s'"
  have same: "p = q" if "held s p = Some t" "held s q = Some t" for p q t
    using dist that unfolding tokens_distinct_def by blast
  have ok: "token_ok t" if "held s p = Some t" for p t
    using dist that unfolding tokens_distinct_def by blast
  from step obtain p v where held: "held s' = (held s)(p := v)"
    and v: "v = None \<or> (\<exists>t. v = Some t \<and> token_ok t \<and> (\<forall>q. held s q \<noteq> Some t))"
    by cases auto
  show "tokens_distinct s'"
    unfolding tokens_distinct_def
  proof (intro conjI allI impI)
    fix a t assume "held s' a = Some t"
    with held v ok [of a t] show "token_ok t" by (auto split: if_splits)
  next
    fix a b t assume two: "held s' a = Some t \<and> held s' b = Some t"
    show "a = b"
    proof (rule ccontr)
      assume "a \<noteq> b"
      then consider "a = p" "held s b = Some t" "v = Some t" | "b = p" "held s a = Some t" "v = Some t"
        | "held s a = Some t" "held s b = Some t"
        using two held by (metis fun_upd_apply)
      then show False
      proof cases
        case 1
        from v 1(3) have "held s b \<noteq> Some t" by simp
        with 1(2) show False by simp
      next
        case 2
        from v 2(3) have "held s a \<noteq> Some t" by simp
        with 2(2) show False by simp
      next
        case 3
        from same [OF this] \<open>a \<noteq> b\<close> show False by contradiction
      qed
    qed
  qed
qed

lemma holder_unique:
  assumes "lock_inv s" and p: "held s p = Some t"
  shows "lock s = Some t \<and> token_ok t \<and> (\<forall>q. q \<noteq> p \<longrightarrow> held s q = None)"
proof -
  have lock: "lock s = Some t" "token_ok t" using assms by (auto simp: lock_inv_def)
  have "held s q = None" if "q \<noteq> p" for q
  proof (cases "held s q")
    case (Some u)
    with assms(1) have "lock s = Some u" by (simp add: lock_inv_def)
    with lock(1) Some have "held s q = Some t" by simp
    moreover have "tokens_distinct s" using assms(1) by (simp add: lock_inv_def)
    ultimately have "q = p" using p unfolding tokens_distinct_def by blast
    with that show ?thesis by contradiction
  qed simp
  with lock show ?thesis by blast
qed

lemma lock_inv_step:
  assumes inv: "lock_inv s" and step: "lock_step s s'"
  shows "lock_inv s'"
proof -
  have tokens: "tokens_distinct s'"
    using tokens_distinct_step [OF _ step] inv by (simp add: lock_inv_def)
  from step show ?thesis
  proof cases
    case (enter p t l)
    then have free: "lock s = None" "l = Some t" by (auto simp: lock_enter_def split: option.splits)
    have "held s q = None" for q using inv free(1) by (cases "held s q") (auto simp: lock_inv_def)
    with enter free tokens show ?thesis by (simp add: lock_inv_def)
  next
    case (leave p t l e)
    note unique = holder_unique [OF inv leave(2)]
    then have "l = None" using leave(3) by (simp add: lock_leave_own)
    with unique leave(1) tokens show ?thesis by (simp add: lock_inv_def)
  qed
qed

interpretation exclusive: invariant_system lock_free lock_step lock_inv
proof
  show "lock_inv s" if "lock_free s" for s
    using that by (simp add: lock_free_def lock_inv_def tokens_distinct_def)
qed (rule lock_inv_step)

interpretation intruded: invariant_system lock_free intruded_step tokens_distinct
proof
  show "tokens_distinct s" if "lock_free s" for s
    using that by (simp add: lock_free_def tokens_distinct_def)
  show "tokens_distinct s'" if "tokens_distinct s" "intruded_step s s'" for s s'
    using that(2)
  proof cases
    case regular
    then show ?thesis by (rule tokens_distinct_step [OF that(1)])
  next
    case deleted
    with that(1) show ?thesis by (simp add: tokens_distinct_def)
  qed
qed

text \<open>
  C25. Mutual exclusion: in every state the processes can reach, at most one of them is inside,
  and the lock file holds its token.
\<close>

theorem lock_mutual_exclusion:
  assumes "reachable_from lock_free lock_step s" and "held s p = Some t"
  shows "lock s = Some t \<and> (\<forall>q. q \<noteq> p \<longrightarrow> held s q = None)"
proof -
  have "lock_inv s" using assms(1) by (rule exclusive.reachable_inv)
  from holder_unique [OF this assms(2)] show ?thesis by blast
qed

text \<open>
  Even when somebody deletes the lock file under a holder and another process then takes the
  lock, the first holder's release leaves the new lock in place and reports the problem.
\<close>

theorem lock_release_spares_successor:
  assumes "reachable_from lock_free intruded_step s" and "held s p = Some t"
    and "held s q = Some u" and "q \<noteq> p" and "lock s = Some u"
  shows "fst (lock_leave t (lock s)) = Some u \<and> snd (lock_leave t (lock s)) \<noteq> None"
proof -
  have "tokens_distinct s" using assms(1) by (rule intruded.reachable_inv)
  with assms(2-4) have "t \<noteq> u" "token_ok u" unfolding tokens_distinct_def by blast+
  with assms(5) show ?thesis by (simp add: lock_leave_def strip_token)
qed

text \<open>
  The lock never leaks and never masks an error: an operation run under a free lock returns
  exactly the body's result and frees the lock, whether the body succeeded or failed; under a
  held lock it fails at once and does not touch it.
\<close>

theorem with_lock_transparent:
  assumes "token_ok t"
  shows "with_lock t None body = (body, None)
    \<and> with_lock t (Some other) body = (Inl WorkerSlotContentionError, Some other)"
  using assms by (auto simp: with_lock_def lock_enter_def lock_leave_own split: sum.split)

definition no_locks :: lock_state where
  "no_locks = \<lparr>lock = None, held = (\<lambda>p. None)\<rparr>"

definition token_a :: string where
  "token_a = replicate 32 (CHR ''a'')"

definition token_b :: string where
  "token_b = replicate 32 (CHR ''b'')"

lemma tokens_ok: "token_ok token_a" "token_ok token_b"
  by code_simp+

definition one_inside :: lock_state where
  "one_inside = \<lparr>lock = Some token_a, held = (\<lambda>p. None)(0 := Some token_a)\<rparr>"

lemma one_inside_step: "lock_step no_locks one_inside"
  using lock_step.enter [of no_locks 0 token_a "Some token_a"] tokens_ok
  by (simp add: no_locks_def one_inside_def lock_enter_def)

lemma no_locks_free: "lock_free no_locks"
  by (simp add: no_locks_def lock_free_def)

lemma lock_mutual_exclusion_witness: "lock one_inside = Some token_a \<and> held one_inside 1 = None"
proof -
  have "reachable_from lock_free lock_step one_inside"
    by (blast intro: reachable_from.intros no_locks_free one_inside_step)
  from lock_mutual_exclusion [OF this, of 0 token_a] show ?thesis by (simp add: one_inside_def)
qed

definition two_inside :: lock_state where
  "two_inside = \<lparr>lock = Some token_b, held = (\<lambda>p. None)(0 := Some token_a, 1 := Some token_b)\<rparr>"

lemma two_inside_reachable: "reachable_from lock_free intruded_step two_inside"
proof -
  have ne: "token_a \<noteq> token_b" by code_simp
  have "intruded_step (one_inside\<lparr>lock := None\<rparr>) two_inside"
    using lock_step.enter [of "one_inside\<lparr>lock := None\<rparr>" 1 token_b "Some token_b"] tokens_ok ne
    by (auto simp: one_inside_def two_inside_def lock_enter_def intro!: intruded_step.regular)
  moreover have "reachable_from lock_free intruded_step one_inside"
    by (blast intro: reachable_from.intros intruded_step.regular no_locks_free one_inside_step)
  ultimately show ?thesis by (blast intro: reachable_from.more intruded_step.deleted)
qed

lemma lock_release_spares_successor_witness:
  "fst (lock_leave token_a (lock two_inside)) = Some token_b"
  using lock_release_spares_successor [OF two_inside_reachable, of 0 token_a 1 token_b]
  by (simp add: two_inside_def)

lemma with_lock_transparent_witness:
  "with_lock token_a None (Inr (1 :: nat)) = (Inr 1, None)"
  using with_lock_transparent [OF tokens_ok(1)] by blast

end
