(* ===== verification/Framing.thy ===== *)
theory Framing
  imports Prelude
begin

text \<open>
  Texts and digests as the Dockyard stores treat them: the check every identifying text has to
  pass, and the length-prefixed concatenation (\<open>f"{len(value)}:{value}"\<close>) they hash.
\<close>

text \<open>\<open>datetime.fromisoformat\<close>: the wall clock in microseconds and the UTC offset in seconds, or \<open>None\<close>.\<close>

type_synonym clock = "string \<Rightarrow> (int \<times> int option) option"

definition text_ok :: "nat \<Rightarrow> string \<Rightarrow> bool" where
  "text_ok maximum s \<longleftrightarrow> s \<noteq> [] \<and> length s \<le> maximum \<and> py_strip s = s
     \<and> list_all (\<lambda>c. 32 \<le> (of_char c :: nat)) s"

definition lower_hex :: "nat \<Rightarrow> string \<Rightarrow> bool" where
  "lower_hex n s \<longleftrightarrow> length s = n \<and> list_all is_hex s"

definition frame :: "string \<Rightarrow> string" where
  "frame s = show_nat (length s) @ [CHR '':''] @ s"

definition frames :: "string list \<Rightarrow> string" where
  "frames ss = concat (map frame ss)"

lemma digits_before_colon:
  assumes "ds @ CHR '':'' # s = es @ CHR '':'' # t" and "list_all is_digit ds" and "list_all is_digit es"
  shows "ds = es \<and> s = t"
proof -
  have "CHR '':'' \<notin> set ds" "CHR '':'' \<notin> set es"
    using assms(2,3) by (auto simp: list_all_iff is_digit_def)
  with assms(1) show ?thesis by (auto simp: append_eq_append_conv2 append_eq_Cons_conv Cons_eq_append_conv)
qed

lemma frame_cancel: "frame s @ x = frame t @ y \<Longrightarrow> s = t \<and> x = y"
proof -
  assume eq: "frame s @ x = frame t @ y"
  have "show_nat (length s) = show_nat (length t) \<and> s @ x = t @ y"
    by (rule digits_before_colon) (use eq in \<open>simp_all add: frame_def show_nat_digits\<close>)
  then show ?thesis by (metis append_eq_append_conv read_show_nat)
qed

text \<open>Framed texts can be told apart: no two lists of texts have the same frames.\<close>

theorem frames_inject [simp]: "frames ss = frames ts \<longleftrightarrow> ss = ts"
proof
  show "frames ss = frames ts \<Longrightarrow> ss = ts"
  proof (induction ss arbitrary: ts)
    case Nil
    then show ?case by (cases ts) (simp_all add: frames_def frame_def)
  next
    case (Cons s ss)
    then obtain t us where ts: "ts = t # us" by (cases ts) (simp_all add: frames_def frame_def)
    with Cons.prems have "s = t \<and> frames ss = frames us" by (intro frame_cancel) (simp add: frames_def)
    with Cons.IH ts show ?case by simp
  qed
qed simp

end
