(* ===== verification/Pairing.thy ===== *)
theory Pairing
  imports Framing Json Effects
begin

text \<open>
  Device pairing (\<open>dockyard_pairing.py\<close>): one-time pairing codes, device tokens, scopes and
  revocation, with canonical JSON evidence files.

  \<open>H\<close> is \<open>hashlib.sha256(...).hexdigest\<close>.  \<open>iso8601\<close> is \<open>datetime.fromisoformat\<close>, whose accepted
  formats depend on the Python version: the wall clock in microseconds and the UTC offset, or
  \<open>None\<close> when it raises.  The secrets drawn by an operation are its arguments.
\<close>

section \<open>Records\<close>

datatype pairing_error =
    DockyardPairingInputError string
  | DockyardPairingConflictError string
  | DockyardPairingAuthenticationError string
  | DockyardPairingStoreError string

type_synonym pairing_guard = "bool \<times> pairing_error"

datatype DockyardDeviceScope = READ | APPROVE | RETRY | TERMINATE

fun DockyardDeviceScope_value :: "DockyardDeviceScope \<Rightarrow> string" where
  "DockyardDeviceScope_value READ = ''READ''"
| "DockyardDeviceScope_value APPROVE = ''APPROVE''"
| "DockyardDeviceScope_value RETRY = ''RETRY''"
| "DockyardDeviceScope_value TERMINATE = ''TERMINATE''"

definition PAIRING_SCHEMA :: string where
  "PAIRING_SCHEMA = ''agentdesk.dockyard-pairing-code/v1''"

definition DEVICE_SCHEMA :: string where
  "DEVICE_SCHEMA = ''agentdesk.dockyard-device/v1''"

definition MAX_FILE_BYTES :: nat where
  "MAX_FILE_BYTES = 32 * 1024"

definition MAX_TTL_SECONDS :: int where
  "MAX_TTL_SECONDS = 600"

definition text_guard :: "string \<Rightarrow> string \<Rightarrow> nat \<Rightarrow> pairing_guard list" where
  "text_guard s code maximum = [(\<not> text_ok maximum s, DockyardPairingInputError code)]"

definition ID_RE :: "string \<Rightarrow> bool" where
  "ID_RE s \<longleftrightarrow> (case s of [] \<Rightarrow> False | c # cs \<Rightarrow>
     is_alnum c \<and> length cs \<le> 191 \<and> list_all (\<lambda>x. is_alnum x \<or> x \<in> set ''._:-'') cs)"

definition identifier_guard :: "string \<Rightarrow> string \<Rightarrow> pairing_guard list" where
  "identifier_guard s code = text_guard s code 192 @ [(\<not> ID_RE s, DockyardPairingInputError code)]"

definition integer_guard :: "int \<Rightarrow> string \<Rightarrow> int \<Rightarrow> int option \<Rightarrow> pairing_guard list" where
  "integer_guard v code minimum maximum =
     [(v < minimum \<or> (case maximum of None \<Rightarrow> False | Some m \<Rightarrow> v > m), DockyardPairingInputError code)]"

definition utc :: "clock \<Rightarrow> string \<Rightarrow> string \<Rightarrow> pairing_error + int" where
  "utc iso8601 s code = guarded
     (text_guard s code 64 @ [(last s \<noteq> CHR ''Z'', DockyardPairingInputError code)])
     (case iso8601 (butlast s @ ''+00:00'') of
        Some (wall, Some offset) \<Rightarrow> if offset = 0 then Inr wall else Inl (DockyardPairingInputError code)
      | _ \<Rightarrow> Inl (DockyardPairingInputError code))"

definition VERIFIER_RE :: "string \<Rightarrow> bool" where
  "VERIFIER_RE s \<longleftrightarrow> starts_with ''sha256:'' s \<and> lower_hex 64 (drop 7 s)"

definition verifier_guard :: "string \<Rightarrow> string \<Rightarrow> pairing_guard list" where
  "verifier_guard s code = text_guard s code 71 @ [(\<not> VERIFIER_RE s, DockyardPairingInputError code)]"

definition hash_secret :: "(string \<Rightarrow> string) \<Rightarrow> string \<Rightarrow> string" where
  "hash_secret H s = ''sha256:'' @ H s"

definition request_digest :: "(string \<Rightarrow> string) \<Rightarrow> string \<Rightarrow> string list \<Rightarrow> string" where
  "request_digest H action values = hash_secret H (frames (action # values))"

definition canonical :: "(string \<times> json) list \<Rightarrow> string" where
  "canonical pairs = dumps (JObj pairs) @ [CHR 0x0A]"

text \<open>A time to live: after the start, by at most ten minutes (in microseconds).\<close>

definition ttl_ok :: "int \<Rightarrow> int \<Rightarrow> bool" where
  "ttl_ok created expires \<longleftrightarrow> 0 < expires - created \<and> expires - created \<le> MAX_TTL_SECONDS * 1000000"

record DockyardPairingCodeRecord =
  pc_schema_version :: string
  pc_pairing_id :: string
  pc_code_verifier :: string
  pc_created_at :: string
  pc_expires_at :: string
  pc_consumed_at :: "string option"
  pc_failed_attempts :: int
  pc_max_attempts :: int
  pc_last_operation_id :: string
  pc_content_digest :: string

text \<open>An optional time that must not be before \<open>start\<close>.\<close>

definition not_before ::
  "clock \<Rightarrow> string option \<Rightarrow> string \<Rightarrow> int \<Rightarrow> string \<Rightarrow> pairing_error + unit"
where
  "not_before iso8601 t code start clock_code = (case t of
      None \<Rightarrow> Inr ()
    | Some s \<Rightarrow> and_then (utc iso8601 s code)
        (\<lambda>v. guarded [(v < start, DockyardPairingInputError clock_code)] (Inr ())))"

definition make_code :: "clock \<Rightarrow> DockyardPairingCodeRecord \<Rightarrow> pairing_error + DockyardPairingCodeRecord" where
  "make_code iso8601 r = guarded
     ([(pc_schema_version r \<noteq> PAIRING_SCHEMA, DockyardPairingInputError ''code_schema'')] @
      identifier_guard (pc_pairing_id r) ''pairing_id'' @ verifier_guard (pc_code_verifier r) ''code_verifier'')
     (and_then (utc iso8601 (pc_created_at r) ''created_at'') (\<lambda>created.
      and_then (utc iso8601 (pc_expires_at r) ''expires_at'') (\<lambda>expires.
      guarded [(\<not> ttl_ok created expires, DockyardPairingInputError ''pairing_ttl'')]
      (and_then (not_before iso8601 (pc_consumed_at r) ''consumed_at'' created ''consumed_clock'') (\<lambda>_.
       guarded
        (integer_guard (pc_failed_attempts r) ''failed_attempts'' 0 None @
         integer_guard (pc_max_attempts r) ''max_attempts'' 1 (Some 10) @
         [(pc_failed_attempts r > pc_max_attempts r, DockyardPairingInputError ''failed_attempt_limit'')] @
         identifier_guard (pc_last_operation_id r) ''last_operation_id'' @
         verifier_guard (pc_content_digest r) ''code_content_digest'')
        (Inr r))))))"

record DockyardDeviceRecord =
  dv_schema_version :: string
  dv_device_id :: string
  dv_display_name :: string
  dv_pairing_id :: string
  dv_token_verifier :: string
  dv_scopes :: "DockyardDeviceScope list"
  dv_issued_at :: string
  dv_last_used_at :: "string option"
  dv_revoked_at :: "string option"
  dv_generation :: int
  dv_last_operation_id :: string
  dv_last_request_digest :: string
  dv_content_digest :: string

definition scope_guards :: "string \<Rightarrow> DockyardDeviceScope list \<Rightarrow> pairing_guard list" where
  "scope_guards prefix scopes =
     [(scopes = [], DockyardPairingInputError (prefix @ ''scopes'')),
      (sort_key DockyardDeviceScope_value scopes \<noteq> scopes, DockyardPairingInputError (prefix @ ''scope_order'')),
      (\<not> distinct scopes, DockyardPairingInputError (prefix @ ''scope_duplicate''))]"

definition make_device :: "clock \<Rightarrow> DockyardDeviceRecord \<Rightarrow> pairing_error + DockyardDeviceRecord" where
  "make_device iso8601 r = guarded
     ([(dv_schema_version r \<noteq> DEVICE_SCHEMA, DockyardPairingInputError ''device_schema'')] @
      identifier_guard (dv_device_id r) ''device_id'' @ text_guard (dv_display_name r) ''display_name'' 128 @
      identifier_guard (dv_pairing_id r) ''device_pairing_id'' @ verifier_guard (dv_token_verifier r) ''token_verifier'' @
      scope_guards [] (dv_scopes r))
     (and_then (utc iso8601 (dv_issued_at r) ''issued_at'') (\<lambda>issued.
      and_then (not_before iso8601 (dv_last_used_at r) ''last_used_at'' issued ''last_used_clock'') (\<lambda>_.
      and_then (not_before iso8601 (dv_revoked_at r) ''revoked_at'' issued ''revoked_clock'') (\<lambda>_.
      guarded
       (integer_guard (dv_generation r) ''device_generation'' 1 None @
        identifier_guard (dv_last_operation_id r) ''device_operation_id'' @
        verifier_guard (dv_last_request_digest r) ''device_request_digest'' @
        verifier_guard (dv_content_digest r) ''device_content_digest'')
       (Inr r)))))"

section \<open>Requests\<close>

record DockyardPairingIssueRequest =
  ir_pairing_id :: string
  ir_created_at :: string
  ir_expires_at :: string
  ir_max_attempts :: int
  ir_operation_id :: string

definition make_issue_request ::
  "clock \<Rightarrow> DockyardPairingIssueRequest \<Rightarrow> pairing_error + DockyardPairingIssueRequest"
where
  "make_issue_request iso8601 q = guarded (identifier_guard (ir_pairing_id q) ''issue_pairing_id'')
     (and_then (utc iso8601 (ir_created_at q) ''issue_created_at'') (\<lambda>created.
      and_then (utc iso8601 (ir_expires_at q) ''issue_expires_at'') (\<lambda>expires.
      guarded ([(\<not> ttl_ok created expires, DockyardPairingInputError ''issue_ttl'')] @
         integer_guard (ir_max_attempts q) ''issue_max_attempts'' 1 (Some 10) @
         identifier_guard (ir_operation_id q) ''issue_operation_id'')
       (Inr q))))"

record DockyardPairingConsumeRequest =
  cr_pairing_id :: string
  cr_pairing_code :: string
  cr_device_id :: string
  cr_display_name :: string
  cr_scopes :: "DockyardDeviceScope list"
  cr_consumed_at :: string
  cr_operation_id :: string

definition make_consume_request ::
  "clock \<Rightarrow> DockyardPairingConsumeRequest \<Rightarrow> pairing_error + DockyardPairingConsumeRequest"
where
  "make_consume_request iso8601 q = guarded
     (identifier_guard (cr_pairing_id q) ''consume_pairing_id'' @ text_guard (cr_pairing_code q) ''pairing_code'' 256 @
      identifier_guard (cr_device_id q) ''consume_device_id'' @
      text_guard (cr_display_name q) ''consume_display_name'' 128 @ scope_guards ''consume_'' (cr_scopes q))
     (and_then (utc iso8601 (cr_consumed_at q) ''consume_time'') (\<lambda>_.
      guarded (identifier_guard (cr_operation_id q) ''consume_operation_id'') (Inr q)))"

record DockyardAuthenticateRequest =
  au_device_id :: string
  au_device_token :: string
  au_required_scope :: DockyardDeviceScope
  au_authenticated_at :: string
  au_operation_id :: string

definition make_authenticate_request ::
  "clock \<Rightarrow> DockyardAuthenticateRequest \<Rightarrow> pairing_error + DockyardAuthenticateRequest"
where
  "make_authenticate_request iso8601 q = guarded
     (identifier_guard (au_device_id q) ''auth_device_id'' @ text_guard (au_device_token q) ''device_token'' 256)
     (and_then (utc iso8601 (au_authenticated_at q) ''authenticated_at'') (\<lambda>_.
      guarded (identifier_guard (au_operation_id q) ''auth_operation_id'') (Inr q)))"

record DockyardAuthenticationResult =
  ar_device_id :: string
  ar_granted_scope :: DockyardDeviceScope
  ar_authenticated_at :: string
  ar_generation :: int
  ar_replayed :: bool

record DockyardRevokeDeviceRequest =
  rv_device_id :: string
  rv_expected_generation :: int
  rv_revoked_at :: string
  rv_operation_id :: string

definition make_revoke_request ::
  "clock \<Rightarrow> DockyardRevokeDeviceRequest \<Rightarrow> pairing_error + DockyardRevokeDeviceRequest"
where
  "make_revoke_request iso8601 q = guarded
     (identifier_guard (rv_device_id q) ''revoke_device_id'' @
      integer_guard (rv_expected_generation q) ''revoke_generation'' 1 None)
     (and_then (utc iso8601 (rv_revoked_at q) ''revoked_at'') (\<lambda>_.
      guarded (identifier_guard (rv_operation_id q) ''revoke_operation_id'') (Inr q)))"

section \<open>Evidence files\<close>

definition json_optional :: "string option \<Rightarrow> json" where
  "json_optional t = (case t of None \<Rightarrow> JNull | Some s \<Rightarrow> JStr s)"

definition code_pairs :: "DockyardPairingCodeRecord \<Rightarrow> bool \<Rightarrow> (string \<times> json) list" where
  "code_pairs r include_digest =
    [(''schema_version'', JStr (pc_schema_version r)), (''pairing_id'', JStr (pc_pairing_id r)),
     (''code_verifier'', JStr (pc_code_verifier r)), (''created_at'', JStr (pc_created_at r)),
     (''expires_at'', JStr (pc_expires_at r)), (''consumed_at'', json_optional (pc_consumed_at r)),
     (''failed_attempts'', JInt (pc_failed_attempts r)), (''max_attempts'', JInt (pc_max_attempts r)),
     (''last_operation_id'', JStr (pc_last_operation_id r))] @
    (if include_digest then [(''content_digest'', JStr (pc_content_digest r))] else [])"

definition device_pairs :: "DockyardDeviceRecord \<Rightarrow> bool \<Rightarrow> (string \<times> json) list" where
  "device_pairs r include_digest =
    [(''schema_version'', JStr (dv_schema_version r)), (''device_id'', JStr (dv_device_id r)),
     (''display_name'', JStr (dv_display_name r)), (''pairing_id'', JStr (dv_pairing_id r)),
     (''token_verifier'', JStr (dv_token_verifier r)),
     (''scopes'', JArr (map (JStr \<circ> DockyardDeviceScope_value) (dv_scopes r))),
     (''issued_at'', JStr (dv_issued_at r)), (''last_used_at'', json_optional (dv_last_used_at r)),
     (''revoked_at'', json_optional (dv_revoked_at r)), (''generation'', JInt (dv_generation r)),
     (''last_operation_id'', JStr (dv_last_operation_id r)),
     (''last_request_digest'', JStr (dv_last_request_digest r))] @
    (if include_digest then [(''content_digest'', JStr (dv_content_digest r))] else [])"

definition CODE_FIELDS :: "string list" where
  "CODE_FIELDS = [''schema_version'', ''pairing_id'', ''code_verifier'', ''created_at'', ''expires_at'',
     ''consumed_at'', ''failed_attempts'', ''max_attempts'', ''last_operation_id'', ''content_digest'']"

definition DEVICE_FIELDS :: "string list" where
  "DEVICE_FIELDS = [''schema_version'', ''device_id'', ''display_name'', ''pairing_id'', ''token_verifier'',
     ''scopes'', ''issued_at'', ''last_used_at'', ''revoked_at'', ''generation'', ''last_operation_id'',
     ''last_request_digest'', ''content_digest'']"

text \<open>\<open>replace\<close> runs the constructor again.\<close>

definition with_code_digest ::
  "clock \<Rightarrow> (string \<Rightarrow> string) \<Rightarrow> DockyardPairingCodeRecord \<Rightarrow> pairing_error + DockyardPairingCodeRecord"
where
  "with_code_digest iso8601 H r =
     make_code iso8601 (r\<lparr>pc_content_digest := hash_secret H (canonical (code_pairs r False))\<rparr>)"

definition with_device_digest ::
  "clock \<Rightarrow> (string \<Rightarrow> string) \<Rightarrow> DockyardDeviceRecord \<Rightarrow> pairing_error + DockyardDeviceRecord"
where
  "with_device_digest iso8601 H r =
     make_device iso8601 (r\<lparr>dv_content_digest := hash_secret H (canonical (device_pairs r False))\<rparr>)"

definition encode_pairing_code_record ::
  "clock \<Rightarrow> (string \<Rightarrow> string) \<Rightarrow> DockyardPairingCodeRecord \<Rightarrow> pairing_error + string"
where
  "encode_pairing_code_record iso8601 H r = and_then (with_code_digest iso8601 H r) (\<lambda>sealed. guarded
     [(pc_content_digest sealed \<noteq> pc_content_digest r, DockyardPairingConflictError ''code_digest'')]
     (Inr (canonical (code_pairs r True))))"

definition encode_device_record ::
  "clock \<Rightarrow> (string \<Rightarrow> string) \<Rightarrow> DockyardDeviceRecord \<Rightarrow> pairing_error + string"
where
  "encode_device_record iso8601 H r = and_then (with_device_digest iso8601 H r) (\<lambda>sealed. guarded
     [(dv_content_digest sealed \<noteq> dv_content_digest r, DockyardPairingConflictError ''device_digest'')]
     (Inr (canonical (device_pairs r True))))"

text \<open>
  Some object of the document repeats a key.  (In a document that is not JSON either, the code
  may report the repeated key and the model reports the syntax.)
\<close>

fun repeats_key :: "json \<Rightarrow> bool" where
  "repeats_key (JArr xs) = list_ex repeats_key xs"
| "repeats_key (JObj ps) = (\<not> distinct (map fst ps) \<or> list_ex (\<lambda>(k, v). repeats_key v) ps)"
| "repeats_key _ = False"

definition decode_json :: "string \<Rightarrow> string list \<Rightarrow> pairing_error + (string \<times> json) list" where
  "decode_json data names = guarded
     [(data = [] \<or> length data > MAX_FILE_BYTES, DockyardPairingStoreError ''record_bytes'')]
     (case loads data of
        None \<Rightarrow> Inl (DockyardPairingStoreError ''record_json'')
      | Some v \<Rightarrow> guarded [(repeats_key v, DockyardPairingStoreError ''duplicate_key'')]
          (case v of
             JObj raw \<Rightarrow> guarded [(map fst raw \<noteq> names, DockyardPairingStoreError ''record_fields'')] (Inr raw)
           | _ \<Rightarrow> Inl (DockyardPairingStoreError ''record_fields'')))"

text \<open>The fields of the parsed object at the types the constructors require.\<close>

definition str_field :: "(string \<times> json) list \<Rightarrow> string \<Rightarrow> string option" where
  "str_field raw k = (case dict_get raw k of Some (JStr s) \<Rightarrow> Some s | _ \<Rightarrow> None)"

definition int_field :: "(string \<times> json) list \<Rightarrow> string \<Rightarrow> int option" where
  "int_field raw k = (case dict_get raw k of Some (JInt i) \<Rightarrow> Some i | _ \<Rightarrow> None)"

definition optional_field :: "(string \<times> json) list \<Rightarrow> string \<Rightarrow> string option option" where
  "optional_field raw k = (case dict_get raw k of Some JNull \<Rightarrow> Some None | Some (JStr s) \<Rightarrow> Some (Some s) | _ \<Rightarrow> None)"

definition scope_of :: "json \<Rightarrow> DockyardDeviceScope option" where
  "scope_of v = find (\<lambda>s. v = JStr (DockyardDeviceScope_value s)) [READ, APPROVE, RETRY, TERMINATE]"

definition scopes_field :: "(string \<times> json) list \<Rightarrow> DockyardDeviceScope list option" where
  "scopes_field raw = (case dict_get raw ''scopes'' of
      Some (JArr xs) \<Rightarrow> those (map scope_of xs)
    | _ \<Rightarrow> None)"

definition code_of_json :: "(string \<times> json) list \<Rightarrow> DockyardPairingCodeRecord option" where
  "code_of_json raw =
     Option.bind (str_field raw ''schema_version'') (\<lambda>schema. Option.bind (str_field raw ''pairing_id'') (\<lambda>pairing.
     Option.bind (str_field raw ''code_verifier'') (\<lambda>ver. Option.bind (str_field raw ''created_at'') (\<lambda>created.
     Option.bind (str_field raw ''expires_at'') (\<lambda>expires. Option.bind (optional_field raw ''consumed_at'') (\<lambda>consumed.
     Option.bind (int_field raw ''failed_attempts'') (\<lambda>failed. Option.bind (int_field raw ''max_attempts'') (\<lambda>maximum.
     Option.bind (str_field raw ''last_operation_id'') (\<lambda>operation. Option.bind (str_field raw ''content_digest'') (\<lambda>digest.
     Some \<lparr>pc_schema_version = schema, pc_pairing_id = pairing, pc_code_verifier = ver, pc_created_at = created,
       pc_expires_at = expires, pc_consumed_at = consumed, pc_failed_attempts = failed, pc_max_attempts = maximum,
       pc_last_operation_id = operation, pc_content_digest = digest\<rparr>))))))))))"

definition device_of_json :: "(string \<times> json) list \<Rightarrow> DockyardDeviceRecord option" where
  "device_of_json raw =
     Option.bind (scopes_field raw) (\<lambda>scopes. Option.bind (str_field raw ''schema_version'') (\<lambda>schema.
     Option.bind (str_field raw ''device_id'') (\<lambda>device. Option.bind (str_field raw ''display_name'') (\<lambda>display.
     Option.bind (str_field raw ''pairing_id'') (\<lambda>pairing. Option.bind (str_field raw ''token_verifier'') (\<lambda>ver.
     Option.bind (str_field raw ''issued_at'') (\<lambda>issued. Option.bind (optional_field raw ''last_used_at'') (\<lambda>used.
     Option.bind (optional_field raw ''revoked_at'') (\<lambda>revoked. Option.bind (int_field raw ''generation'') (\<lambda>generation.
     Option.bind (str_field raw ''last_operation_id'') (\<lambda>operation.
     Option.bind (str_field raw ''last_request_digest'') (\<lambda>request. Option.bind (str_field raw ''content_digest'') (\<lambda>digest.
     Some \<lparr>dv_schema_version = schema, dv_device_id = device, dv_display_name = display, dv_pairing_id = pairing,
       dv_token_verifier = ver, dv_scopes = scopes, dv_issued_at = issued, dv_last_used_at = used,
       dv_revoked_at = revoked, dv_generation = generation, dv_last_operation_id = operation,
       dv_last_request_digest = request, dv_content_digest = digest\<rparr>)))))))))))))"

text \<open>Whatever goes wrong between the parsed object and its canonical text is one store error.\<close>

definition rebuilt :: "string \<Rightarrow> pairing_error + 'a \<Rightarrow> pairing_error + 'a" where
  "rebuilt code r = (case r of Inl _ \<Rightarrow> Inl (DockyardPairingStoreError code) | Inr x \<Rightarrow> Inr x)"

definition typed :: "'a option \<Rightarrow> pairing_error + 'a" where
  "typed r = (case r of None \<Rightarrow> Inl (DockyardPairingInputError ''type'') | Some x \<Rightarrow> Inr x)"

definition decode_pairing_code_record ::
  "clock \<Rightarrow> (string \<Rightarrow> string) \<Rightarrow> string \<Rightarrow> pairing_error + DockyardPairingCodeRecord"
where
  "decode_pairing_code_record iso8601 H data = and_then (decode_json data CODE_FIELDS) (\<lambda>raw.
     and_then (rebuilt ''code_schema'' (and_then (typed (code_of_json raw)) (\<lambda>r.
        and_then (make_code iso8601 r) (\<lambda>r. and_then (encode_pairing_code_record iso8601 H r) (\<lambda>text. Inr (r, text))))))
     (\<lambda>(r, text). guarded [(text \<noteq> data, DockyardPairingStoreError ''code_noncanonical'')] (Inr r)))"

definition decode_device_record ::
  "clock \<Rightarrow> (string \<Rightarrow> string) \<Rightarrow> string \<Rightarrow> pairing_error + DockyardDeviceRecord"
where
  "decode_device_record iso8601 H data = and_then (decode_json data DEVICE_FIELDS) (\<lambda>raw.
     and_then (rebuilt ''device_schema'' (and_then (typed (device_of_json raw)) (\<lambda>r.
        and_then (make_device iso8601 r) (\<lambda>r. and_then (encode_device_record iso8601 H r) (\<lambda>text. Inr (r, text))))))
     (\<lambda>(r, text). guarded [(text \<noteq> data, DockyardPairingStoreError ''device_noncanonical'')] (Inr r)))"

section \<open>The store\<close>

datatype pairing_path = CodeFile string | DeviceFile string

type_synonym pairing_disk = "(pairing_path, string) dict"

type_synonym pairing_write = "pairing_path \<times> string"

type_synonym 'a pairing_outcome = "(pairing_error + 'a) \<times> pairing_write list"

definition read_code ::
  "clock \<Rightarrow> (string \<Rightarrow> string) \<Rightarrow> pairing_disk \<Rightarrow> string \<Rightarrow> pairing_error + DockyardPairingCodeRecord option"
where
  "read_code iso8601 H d pairing_id = guarded (identifier_guard pairing_id ''pairing_id'')
     (case dict_get d (CodeFile pairing_id) of
        None \<Rightarrow> Inr None
      | Some data \<Rightarrow> and_then (decode_pairing_code_record iso8601 H data) (\<lambda>r. Inr (Some r)))"

definition read_device ::
  "clock \<Rightarrow> (string \<Rightarrow> string) \<Rightarrow> pairing_disk \<Rightarrow> string \<Rightarrow> pairing_error + DockyardDeviceRecord option"
where
  "read_device iso8601 H d device_id = guarded (identifier_guard device_id ''device_id'')
     (case dict_get d (DeviceFile device_id) of
        None \<Rightarrow> Inr None
      | Some data \<Rightarrow> and_then (decode_device_record iso8601 H data) (\<lambda>r. Inr (Some r)))"

definition verify_device_token ::
  "clock \<Rightarrow> (string \<Rightarrow> string) \<Rightarrow> string \<Rightarrow> string \<Rightarrow> DockyardDeviceScope \<Rightarrow> pairing_disk \<Rightarrow>
   pairing_error + DockyardDeviceRecord"
where
  "verify_device_token iso8601 H device_id device_token required_scope d = guarded
     (identifier_guard device_id ''device_id'' @ text_guard device_token ''device_token'' 256)
     (and_then (read_device iso8601 H d device_id) (\<lambda>found. case found of
        None \<Rightarrow> Inl (DockyardPairingAuthenticationError ''device_missing'')
      | Some device \<Rightarrow> guarded
         [(dv_revoked_at device \<noteq> None, DockyardPairingAuthenticationError ''device_revoked''),
          (hash_secret H device_token \<noteq> dv_token_verifier device, DockyardPairingAuthenticationError ''device_token''),
          (required_scope \<notin> set (dv_scopes device), DockyardPairingAuthenticationError ''device_scope'')]
         (Inr device)))"

definition EMPTY_DIGEST :: string where
  "EMPTY_DIGEST = ''sha256:'' @ replicate 64 (CHR ''0'')"

text \<open>The result is the code shown to the user.\<close>

definition issue ::
  "clock \<Rightarrow> (string \<Rightarrow> string) \<Rightarrow> string \<Rightarrow> DockyardPairingIssueRequest \<Rightarrow> pairing_disk \<Rightarrow> string pairing_outcome"
where
  "issue iso8601 H code q d =
     reading (read_code iso8601 H d (ir_pairing_id q)) (\<lambda>found.
     ensuring [(found \<noteq> None, DockyardPairingConflictError ''pairing_exists'')]
     (reading (and_then (make_code iso8601
         \<lparr>pc_schema_version = PAIRING_SCHEMA, pc_pairing_id = ir_pairing_id q,
          pc_code_verifier = hash_secret H code, pc_created_at = ir_created_at q,
          pc_expires_at = ir_expires_at q, pc_consumed_at = None, pc_failed_attempts = 0,
          pc_max_attempts = ir_max_attempts q, pc_last_operation_id = ir_operation_id q,
          pc_content_digest = EMPTY_DIGEST\<rparr>) (with_code_digest iso8601 H)) (\<lambda>r.
      storing (CodeFile (ir_pairing_id q)) (encode_pairing_code_record iso8601 H r) (returning code))))"

definition new_device ::
  "(string \<Rightarrow> string) \<Rightarrow> string \<Rightarrow> DockyardPairingConsumeRequest \<Rightarrow> DockyardDeviceRecord"
where
  "new_device H token q = (let scopes = sort_key DockyardDeviceScope_value (cr_scopes q) in
     \<lparr>dv_schema_version = DEVICE_SCHEMA, dv_device_id = cr_device_id q, dv_display_name = cr_display_name q,
      dv_pairing_id = cr_pairing_id q, dv_token_verifier = hash_secret H token, dv_scopes = scopes,
      dv_issued_at = cr_consumed_at q, dv_last_used_at = None, dv_revoked_at = None, dv_generation = 1,
      dv_last_operation_id = cr_operation_id q,
      dv_last_request_digest = request_digest H ''consume''
        ([cr_pairing_id q, cr_device_id q, cr_display_name q] @ map DockyardDeviceScope_value scopes @ [cr_consumed_at q]),
      dv_content_digest = EMPTY_DIGEST\<rparr>)"

definition consume ::
  "clock \<Rightarrow> (string \<Rightarrow> string) \<Rightarrow> string \<Rightarrow> DockyardPairingConsumeRequest \<Rightarrow> pairing_disk \<Rightarrow>
   (DockyardDeviceRecord \<times> string) pairing_outcome"
where
  "consume iso8601 H token q d =
     reading (read_code iso8601 H d (cr_pairing_id q)) (\<lambda>found. case found of
       None \<Rightarrow> failing (DockyardPairingAuthenticationError ''pairing_missing'')
     | Some code \<Rightarrow>
        ensuring [(pc_consumed_at code \<noteq> None, DockyardPairingConflictError ''pairing_consumed'')]
        (reading (utc iso8601 (cr_consumed_at q) ''consume_time'') (\<lambda>consumed.
         reading (utc iso8601 (pc_created_at code) ''created_at'') (\<lambda>created.
         reading (utc iso8601 (pc_expires_at code) ''expires_at'') (\<lambda>expires.
         ensuring
          [(consumed < created, DockyardPairingAuthenticationError ''clock_rollback''),
           (consumed > expires, DockyardPairingAuthenticationError ''pairing_expired''),
           (pc_failed_attempts code \<ge> pc_max_attempts code, DockyardPairingAuthenticationError ''pairing_exhausted'')]
          (if hash_secret H (cr_pairing_code q) \<noteq> pc_code_verifier code then
             reading (and_then (make_code iso8601 (code\<lparr>pc_failed_attempts := pc_failed_attempts code + 1,
                 pc_last_operation_id := cr_operation_id q\<rparr>)) (with_code_digest iso8601 H)) (\<lambda>failed.
             storing (CodeFile (pc_pairing_id code)) (encode_pairing_code_record iso8601 H failed)
               (failing (DockyardPairingAuthenticationError ''pairing_code'')))
           else
             reading (read_device iso8601 H d (cr_device_id q)) (\<lambda>existing.
             ensuring [(existing \<noteq> None, DockyardPairingConflictError ''device_exists'')]
             (reading (and_then (make_device iso8601 (new_device H token q)) (with_device_digest iso8601 H)) (\<lambda>device.
              reading (and_then (make_code iso8601 (code\<lparr>pc_consumed_at := Some (cr_consumed_at q),
                  pc_last_operation_id := cr_operation_id q\<rparr>)) (with_code_digest iso8601 H)) (\<lambda>consumed_code.
              storing (DeviceFile (dv_device_id device)) (encode_device_record iso8601 H device)
              (storing (CodeFile (pc_pairing_id code)) (encode_pairing_code_record iso8601 H consumed_code)
                (returning (device, token)))))))))))))"

text \<open>An update of a device: the next generation, by an operation and its request.\<close>

definition update_device ::
  "clock \<Rightarrow> (string \<Rightarrow> string) \<Rightarrow> string \<Rightarrow> string \<Rightarrow> DockyardDeviceRecord \<Rightarrow> pairing_error + DockyardDeviceRecord"
where
  "update_device iso8601 H operation_id digest device = and_then
     (make_device iso8601 (device\<lparr>dv_generation := dv_generation device + 1,
        dv_last_operation_id := operation_id, dv_last_request_digest := digest\<rparr>))
     (with_device_digest iso8601 H)"

definition authenticate ::
  "clock \<Rightarrow> (string \<Rightarrow> string) \<Rightarrow> DockyardAuthenticateRequest \<Rightarrow> pairing_disk \<Rightarrow>
   DockyardAuthenticationResult pairing_outcome"
where
  "authenticate iso8601 H q d =
    (let digest = request_digest H ''authenticate''
           [au_device_id q, DockyardDeviceScope_value (au_required_scope q), au_authenticated_at q];
         granted = (\<lambda>device replayed. \<lparr>ar_device_id = dv_device_id device, ar_granted_scope = au_required_scope q,
            ar_authenticated_at = au_authenticated_at q, ar_generation = dv_generation device, ar_replayed = replayed\<rparr>)
     in reading (read_device iso8601 H d (au_device_id q)) (\<lambda>found. case found of
          None \<Rightarrow> failing (DockyardPairingAuthenticationError ''device_missing'')
        | Some device \<Rightarrow> ensuring
           [(dv_revoked_at device \<noteq> None, DockyardPairingAuthenticationError ''device_revoked''),
            (hash_secret H (au_device_token q) \<noteq> dv_token_verifier device,
               DockyardPairingAuthenticationError ''device_token''),
            (au_required_scope q \<notin> set (dv_scopes device), DockyardPairingAuthenticationError ''device_scope'')]
           (if dv_last_operation_id device = au_operation_id q then ensuring
              [(dv_last_request_digest device \<noteq> digest, DockyardPairingConflictError ''divergent_auth_replay'')]
              (returning (granted device True))
            else
              reading (utc iso8601 (au_authenticated_at q) ''authenticated_at'') (\<lambda>authenticated.
              reading (utc iso8601 (dv_issued_at device) ''issued_at'') (\<lambda>issued.
              ensuring [(authenticated < issued, DockyardPairingAuthenticationError ''clock_rollback'')]
              (reading (case dv_last_used_at device of None \<Rightarrow> Inr () | Some t \<Rightarrow>
                   and_then (utc iso8601 t ''last_used_at'') (\<lambda>last_used. guarded
                     [(authenticated < last_used, DockyardPairingAuthenticationError ''clock_rollback'')] (Inr ()))) (\<lambda>_.
               reading (update_device iso8601 H (au_operation_id q) digest
                   (device\<lparr>dv_last_used_at := Some (au_authenticated_at q)\<rparr>)) (\<lambda>updated.
               storing (DeviceFile (dv_device_id device)) (encode_device_record iso8601 H updated)
                 (returning (granted updated False)))))))))) "

definition revoke_device ::
  "clock \<Rightarrow> (string \<Rightarrow> string) \<Rightarrow> DockyardRevokeDeviceRequest \<Rightarrow> pairing_disk \<Rightarrow> DockyardDeviceRecord pairing_outcome"
where
  "revoke_device iso8601 H q d =
    (let digest = request_digest H ''revoke'' [rv_device_id q, show_int (rv_expected_generation q), rv_revoked_at q]
     in reading (read_device iso8601 H d (rv_device_id q)) (\<lambda>found. case found of
          None \<Rightarrow> failing (DockyardPairingConflictError ''device_missing'')
        | Some device \<Rightarrow>
           if dv_last_operation_id device = rv_operation_id q then ensuring
             [(dv_last_request_digest device \<noteq> digest, DockyardPairingConflictError ''divergent_revoke_replay'')]
             (returning device)
           else ensuring
             [(dv_generation device \<noteq> rv_expected_generation q, DockyardPairingConflictError ''stale_generation''),
              (dv_revoked_at device \<noteq> None, DockyardPairingConflictError ''already_revoked'')]
             (reading (utc iso8601 (rv_revoked_at q) ''revoked_at'') (\<lambda>revoked.
              reading (utc iso8601 (dv_issued_at device) ''issued_at'') (\<lambda>issued.
              ensuring [(revoked < issued, DockyardPairingAuthenticationError ''clock_rollback'')]
              (reading (update_device iso8601 H (rv_operation_id q) digest
                   (device\<lparr>dv_revoked_at := Some (rv_revoked_at q)\<rparr>)) (\<lambda>updated.
               storing (DeviceFile (dv_device_id device)) (encode_device_record iso8601 H updated)
                 (returning updated))))))))"

text \<open>The names of the device files, in the order of the directory listing.\<close>

definition device_names :: "pairing_disk \<Rightarrow> string list" where
  "device_names d = sort_key (\<lambda>device_id. device_id @ ''.json'')
     (concat (map (\<lambda>(p, _). case p of DeviceFile i \<Rightarrow> [i] | _ \<Rightarrow> []) d))"

definition prepend :: "'a \<Rightarrow> ('e + 'a list) \<times> 'w list \<Rightarrow> ('e + 'a list) \<times> 'w list" where
  "prepend x r = (and_then (fst r) (\<lambda>xs. Inr (x # xs)), snd r)"

fun revoke_each ::
  "clock \<Rightarrow> (string \<Rightarrow> string) \<Rightarrow> string \<Rightarrow> string \<Rightarrow> pairing_disk \<Rightarrow> string list \<Rightarrow>
   DockyardDeviceRecord list pairing_outcome"
where
  "revoke_each iso8601 H revoked_at operation_id d [] = returning []"
| "revoke_each iso8601 H revoked_at operation_id d (name # names) =
     reading (case dict_get d (DeviceFile name) of None \<Rightarrow> Inl (DockyardPairingStoreError ''device_entry'')
                | Some data \<Rightarrow> decode_device_record iso8601 H data) (\<lambda>device.
       if dv_revoked_at device \<noteq> None then
         prepend device (revoke_each iso8601 H revoked_at operation_id d names)
       else
         reading (update_device iso8601 H operation_id
             (request_digest H ''revoke_all'' [dv_device_id device, revoked_at, operation_id])
             (device\<lparr>dv_revoked_at := Some revoked_at\<rparr>)) (\<lambda>updated.
         storing (DeviceFile name) (encode_device_record iso8601 H updated)
           (prepend updated (revoke_each iso8601 H revoked_at operation_id d names))))"

definition revoke_all ::
  "clock \<Rightarrow> (string \<Rightarrow> string) \<Rightarrow> string \<Rightarrow> string \<Rightarrow> pairing_disk \<Rightarrow> DockyardDeviceRecord list pairing_outcome"
where
  "revoke_all iso8601 H revoked_at operation_id d =
     reading (utc iso8601 revoked_at ''revoke_all_time'') (\<lambda>_.
     ensuring (identifier_guard operation_id ''revoke_all_operation_id'' @
        [(length (device_names d) > 1024, DockyardPairingStoreError ''device_limit'')])
       (revoke_each iso8601 H revoked_at operation_id d (device_names d)))"

section \<open>Canonical documents\<close>

lemma json_pairs_ok [simp]: "json_ok (JObj (code_pairs r b))" "json_ok (JObj (device_pairs v b))"
  by (simp_all add: code_pairs_def device_pairs_def json_optional_def list_all_iff split: option.split)

lemma canonical_loads:
  "json_ok (JObj ps) \<Longrightarrow> loads (canonical ps) = Some (JObj ps)"
  unfolding canonical_def by (rule loads_dumps) (simp_all add: json_space_def)

lemma canonical_inject: "json_ok (JObj ps) \<Longrightarrow> json_ok (JObj qs) \<Longrightarrow> canonical ps = canonical qs \<longleftrightarrow> ps = qs"
  using canonical_loads [of ps] canonical_loads [of qs] by (metis json.inject(6) option.inject)

lemma canonical_nonempty [simp]: "canonical ps \<noteq> []"
  by (simp add: canonical_def)

lemma scope_value_inject [simp]: "DockyardDeviceScope_value s = DockyardDeviceScope_value t \<longleftrightarrow> s = t"
  by (cases s; cases t) simp_all

lemma scope_of_value [simp]: "scope_of (JStr (DockyardDeviceScope_value s)) = Some s"
  by (cases s) (simp_all add: scope_of_def)

lemma scope_of_Some: "scope_of v = Some s \<Longrightarrow> v = JStr (DockyardDeviceScope_value s)"
  by (auto simp: scope_of_def split: if_splits)

lemma those_scopes [simp]: "those (map (scope_of \<circ> (JStr \<circ> DockyardDeviceScope_value)) ss) = Some ss"
  by (induction ss) simp_all

lemma json_optional_inject [simp]: "json_optional s = json_optional t \<longleftrightarrow> s = t"
  by (auto simp: json_optional_def split: option.splits)

lemma code_pairs_inject [simp]:
  "code_pairs r True = code_pairs s True \<longleftrightarrow> (r :: DockyardPairingCodeRecord) = s"
  by (auto simp: code_pairs_def)

lemma device_pairs_inject [simp]:
  "device_pairs r True = device_pairs s True \<longleftrightarrow> (r :: DockyardDeviceRecord) = s"
proof -
  have "map (JStr \<circ> DockyardDeviceScope_value) xs = map (JStr \<circ> DockyardDeviceScope_value) ys \<longleftrightarrow> xs = ys" for xs ys
    by (rule inj_map_eq_map) (simp add: inj_def)
  then show ?thesis by (auto simp: device_pairs_def)
qed

lemma fields_of_pairs:
  "map fst (code_pairs r True) = CODE_FIELDS" "map fst (device_pairs v True) = DEVICE_FIELDS"
  by (simp_all add: code_pairs_def device_pairs_def CODE_FIELDS_def DEVICE_FIELDS_def)

lemma pairs_no_repeat: "\<not> repeats_key (JObj (code_pairs r True))" "\<not> repeats_key (JObj (device_pairs v True))"
  by (simp_all add: fields_of_pairs)
    (simp_all add: CODE_FIELDS_def DEVICE_FIELDS_def code_pairs_def device_pairs_def json_optional_def list_ex_iff split: option.split)

lemma optional_field_get: "dict_get raw k = Some (json_optional t) \<Longrightarrow> optional_field raw k = Some t"
  by (simp add: optional_field_def json_optional_def split: option.split)

lemma code_of_pairs [simp]: "code_of_json (code_pairs r True) = Some (r :: DockyardPairingCodeRecord)"
proof -
  have "optional_field (code_pairs r True) ''consumed_at'' = Some (pc_consumed_at r)"
    by (rule optional_field_get) (simp add: code_pairs_def dict_get_Cons)
  then show ?thesis
    by (simp add: code_of_json_def) (simp add: code_pairs_def str_field_def int_field_def dict_get_Cons)
qed

lemma device_of_pairs [simp]: "device_of_json (device_pairs r True) = Some (r :: DockyardDeviceRecord)"
proof -
  have "optional_field (device_pairs r True) ''last_used_at'' = Some (dv_last_used_at r)"
    "optional_field (device_pairs r True) ''revoked_at'' = Some (dv_revoked_at r)"
    by (rule optional_field_get, simp add: device_pairs_def dict_get_Cons)+
  moreover have "scopes_field (device_pairs r True) = Some (dv_scopes r)"
    by (simp add: scopes_field_def device_pairs_def dict_get_Cons)
  ultimately show ?thesis
    by (simp add: device_of_json_def) (simp add: device_pairs_def str_field_def int_field_def dict_get_Cons)
qed

lemma make_code_Inr: "make_code iso8601 r = Inr s \<Longrightarrow> s = r \<and> 0 \<le> pc_failed_attempts r
    \<and> pc_failed_attempts r \<le> pc_max_attempts r \<and> pc_max_attempts r \<le> 10"
  by (auto simp: make_code_def res_simps integer_guard_def)

lemma make_device_Inr: "make_device iso8601 r = Inr s \<Longrightarrow> s = r"
  by (auto simp: make_device_def res_simps)

lemma with_code_digest_Inr: "with_code_digest iso8601 H r = Inr s \<Longrightarrow>
    s = r\<lparr>pc_content_digest := hash_secret H (canonical (code_pairs r False))\<rparr>"
  by (auto simp: with_code_digest_def dest: make_code_Inr)

lemma with_device_digest_Inr: "with_device_digest iso8601 H r = Inr s \<Longrightarrow>
    s = r\<lparr>dv_content_digest := hash_secret H (canonical (device_pairs r False))\<rparr>"
  by (auto simp: with_device_digest_def dest: make_device_Inr)

lemma pairs_ignore_digest [simp]:
  "code_pairs (r\<lparr>pc_content_digest := x\<rparr>) False = code_pairs r False"
  "device_pairs (v\<lparr>dv_content_digest := x\<rparr>) False = device_pairs v False"
  by (simp_all add: code_pairs_def device_pairs_def)

lemma encode_code_iff: "encode_pairing_code_record iso8601 H r = Inr b \<longleftrightarrow>
    make_code iso8601 r = Inr r \<and> pc_content_digest r = hash_secret H (canonical (code_pairs r False))
    \<and> b = canonical (code_pairs r True)"
proof
  assume "encode_pairing_code_record iso8601 H r = Inr b"
  then obtain s where s: "with_code_digest iso8601 H r = Inr s" "pc_content_digest s = pc_content_digest r"
    "b = canonical (code_pairs r True)" by (auto simp: encode_pairing_code_record_def res_simps)
  from with_code_digest_Inr [OF s(1)] s(2) have "s = r" by simp
  with s with_code_digest_Inr [OF s(1)] show "make_code iso8601 r = Inr r \<and>
      pc_content_digest r = hash_secret H (canonical (code_pairs r False)) \<and> b = canonical (code_pairs r True)"
    by (auto simp: with_code_digest_def)
next
  assume "make_code iso8601 r = Inr r \<and> pc_content_digest r = hash_secret H (canonical (code_pairs r False))
    \<and> b = canonical (code_pairs r True)"
  note r = this
  then have same: "r\<lparr>pc_content_digest := hash_secret H (canonical (code_pairs r False))\<rparr> = r" by simp
  from r show "encode_pairing_code_record iso8601 H r = Inr b" unfolding encode_pairing_code_record_def with_code_digest_def same by simp
qed

lemma encode_device_iff: "encode_device_record iso8601 H r = Inr b \<longleftrightarrow>
    make_device iso8601 r = Inr r \<and> dv_content_digest r = hash_secret H (canonical (device_pairs r False))
    \<and> b = canonical (device_pairs r True)"
proof
  assume "encode_device_record iso8601 H r = Inr b"
  then obtain s where s: "with_device_digest iso8601 H r = Inr s" "dv_content_digest s = dv_content_digest r"
    "b = canonical (device_pairs r True)" by (auto simp: encode_device_record_def res_simps)
  from with_device_digest_Inr [OF s(1)] s(2) have "s = r" by simp
  with s with_device_digest_Inr [OF s(1)] show "make_device iso8601 r = Inr r \<and>
      dv_content_digest r = hash_secret H (canonical (device_pairs r False)) \<and> b = canonical (device_pairs r True)"
    by (auto simp: with_device_digest_def)
next
  assume "make_device iso8601 r = Inr r \<and> dv_content_digest r = hash_secret H (canonical (device_pairs r False))
    \<and> b = canonical (device_pairs r True)"
  note r = this
  then have same: "r\<lparr>dv_content_digest := hash_secret H (canonical (device_pairs r False))\<rparr> = r" by simp
  from r show "encode_device_record iso8601 H r = Inr b" unfolding encode_device_record_def with_device_digest_def same by simp
qed

lemma rebuilt_Inr_iff [res_simps]: "rebuilt code r = Inr x \<longleftrightarrow> r = Inr x"
  by (cases r) (simp_all add: rebuilt_def)

lemma typed_Inr_iff [res_simps]: "typed r = Inr x \<longleftrightarrow> r = Some x"
  by (cases r) (simp_all add: typed_def)

lemma decode_json_canonical:
  assumes "json_ok (JObj ps)" and "\<not> repeats_key (JObj ps)" and "length (canonical ps) \<le> MAX_FILE_BYTES"
  shows "decode_json (canonical ps) (map fst ps) = Inr ps"
  using assms by (simp add: decode_json_def canonical_loads)


lemma decode_code_iff: "decode_pairing_code_record iso8601 H b = Inr r \<longleftrightarrow>
    encode_pairing_code_record iso8601 H r = Inr b \<and> length b \<le> MAX_FILE_BYTES"
proof
  assume "decode_pairing_code_record iso8601 H b = Inr r"
  then show "encode_pairing_code_record iso8601 H r = Inr b \<and> length b \<le> MAX_FILE_BYTES"
    by (auto simp: decode_pairing_code_record_def decode_json_def res_simps dest: make_code_Inr)
next
  assume r: "encode_pairing_code_record iso8601 H r = Inr b \<and> length b \<le> MAX_FILE_BYTES"
  then have b: "b = canonical (code_pairs r True)" and ok: "make_code iso8601 r = Inr r" by (simp_all add: encode_code_iff)
  have "decode_json b CODE_FIELDS = Inr (code_pairs r True)"
    unfolding b fields_of_pairs(1) [of r, symmetric]
    by (rule decode_json_canonical [OF json_pairs_ok(1) pairs_no_repeat(1)]) (use r b in simp)
  with r ok show "decode_pairing_code_record iso8601 H b = Inr r"
    by (simp add: decode_pairing_code_record_def typed_def rebuilt_def)
qed

lemma decode_device_iff: "decode_device_record iso8601 H b = Inr r \<longleftrightarrow>
    encode_device_record iso8601 H r = Inr b \<and> length b \<le> MAX_FILE_BYTES"
proof
  assume "decode_device_record iso8601 H b = Inr r"
  then show "encode_device_record iso8601 H r = Inr b \<and> length b \<le> MAX_FILE_BYTES"
    by (auto simp: decode_device_record_def decode_json_def res_simps dest: make_device_Inr)
next
  assume r: "encode_device_record iso8601 H r = Inr b \<and> length b \<le> MAX_FILE_BYTES"
  then have b: "b = canonical (device_pairs r True)" and ok: "make_device iso8601 r = Inr r" by (simp_all add: encode_device_iff)
  have "decode_json b DEVICE_FIELDS = Inr (device_pairs r True)"
    unfolding b fields_of_pairs(2) [of r, symmetric]
    by (rule decode_json_canonical [OF json_pairs_ok(2) pairs_no_repeat(2)]) (use r b in simp)
  with r ok show "decode_device_record iso8601 H b = Inr r"
    by (simp add: decode_device_record_def typed_def rebuilt_def)
qed

end
