(* ===== verification/Pairing_Runs.thy ===== *)
theory Pairing_Runs
  imports Pairing
begin

text \<open>
  Runs of the pairing store: every operation, cut short by a crash after any of its writes, and
  how pairing codes and devices develop along them.
\<close>

section \<open>Runs of the store\<close>

datatype pairing_op =
    Issue string DockyardPairingIssueRequest
  | Consume string DockyardPairingConsumeRequest
  | Authenticate DockyardAuthenticateRequest
  | RevokeDevice DockyardRevokeDeviceRequest
  | RevokeAll string string

definition pairing_writes :: "clock \<Rightarrow> (string \<Rightarrow> string) \<Rightarrow> pairing_op \<Rightarrow> pairing_disk \<Rightarrow> pairing_write list" where
  "pairing_writes iso8601 H op d = (case op of
      Issue code q \<Rightarrow> snd (issue iso8601 H code q d)
    | Consume token q \<Rightarrow> snd (consume iso8601 H token q d)
    | Authenticate q \<Rightarrow> snd (authenticate iso8601 H q d)
    | RevokeDevice q \<Rightarrow> snd (revoke_device iso8601 H q d)
    | RevokeAll t operation \<Rightarrow> snd (revoke_all iso8601 H t operation d))"

abbreviation pairing_step :: "clock \<Rightarrow> (string \<Rightarrow> string) \<Rightarrow> pairing_disk \<Rightarrow> pairing_disk \<Rightarrow> bool" where
  "pairing_step iso8601 H \<equiv> crash_step (pairing_writes iso8601 H) (\<lambda>_. True)"

definition holds_code :: "pairing_disk \<Rightarrow> string \<Rightarrow> DockyardPairingCodeRecord \<Rightarrow> bool" where
  "holds_code d i c \<longleftrightarrow> dict_get d (CodeFile i) = Some (canonical (code_pairs c True))"

definition holds_device :: "pairing_disk \<Rightarrow> string \<Rightarrow> DockyardDeviceRecord \<Rightarrow> bool" where
  "holds_device d i v \<longleftrightarrow> dict_get d (DeviceFile i) = Some (canonical (device_pairs v True))"

lemma holds_unique: "holds_code d i c \<Longrightarrow> holds_code d i c' \<Longrightarrow> c = c'"
  "holds_device d i v \<Longrightarrow> holds_device d i v' \<Longrightarrow> v = v'"
  by (simp_all add: holds_code_def holds_device_def canonical_inject del: json_ok.simps)

lemma read_code_Inr: "read_code iso8601 H d i = Inr (Some c) \<longleftrightarrow>
    raise_first (identifier_guard i ''pairing_id'') = None \<and> holds_code d i c
    \<and> encode_pairing_code_record iso8601 H c = Inr (canonical (code_pairs c True))
    \<and> length (canonical (code_pairs c True)) \<le> MAX_FILE_BYTES"
  by (auto simp: read_code_def res_simps decode_code_iff holds_code_def encode_code_iff split: option.split)

lemma read_code_None: "read_code iso8601 H d i = Inr None \<Longrightarrow> dict_get d (CodeFile i) = None"
  by (auto simp: read_code_def res_simps split: option.split_asm)

lemma read_device_Inr: "read_device iso8601 H d i = Inr (Some v) \<longleftrightarrow>
    raise_first (identifier_guard i ''device_id'') = None \<and> holds_device d i v
    \<and> encode_device_record iso8601 H v = Inr (canonical (device_pairs v True))
    \<and> length (canonical (device_pairs v True)) \<le> MAX_FILE_BYTES"
  by (auto simp: read_device_def res_simps decode_device_iff holds_device_def encode_device_iff split: option.split)

lemma read_device_None: "read_device iso8601 H d i = Inr None \<Longrightarrow> dict_get d (DeviceFile i) = None"
  by (auto simp: read_device_def res_simps split: option.split_asm)

text \<open>How records develop: a revoked device and a consumed code are final.\<close>

definition device_follows :: "DockyardDeviceRecord \<Rightarrow> DockyardDeviceRecord \<Rightarrow> bool" where
  "device_follows v w \<longleftrightarrow> dv_device_id w = dv_device_id v \<and> dv_pairing_id w = dv_pairing_id v
     \<and> dv_token_verifier w = dv_token_verifier v \<and> dv_scopes w = dv_scopes v \<and> dv_issued_at w = dv_issued_at v
     \<and> dv_generation v \<le> dv_generation w \<and> (dv_revoked_at v \<noteq> None \<longrightarrow> w = v)"

definition code_follows :: "DockyardPairingCodeRecord \<Rightarrow> DockyardPairingCodeRecord \<Rightarrow> bool" where
  "code_follows c e \<longleftrightarrow> pc_pairing_id e = pc_pairing_id c \<and> pc_code_verifier e = pc_code_verifier c
     \<and> pc_created_at e = pc_created_at c \<and> pc_expires_at e = pc_expires_at c \<and> pc_max_attempts e = pc_max_attempts c
     \<and> pc_failed_attempts c \<le> pc_failed_attempts e \<and> (pc_consumed_at c \<noteq> None \<longrightarrow> e = c)"

lemma device_follows_refl: "device_follows v v"
  by (simp add: device_follows_def)

lemma device_follows_trans: "device_follows v w \<Longrightarrow> device_follows w x \<Longrightarrow> device_follows v x"
  by (auto simp: device_follows_def)

lemma code_follows_refl: "code_follows c c"
  by (simp add: code_follows_def)

lemma code_follows_trans: "code_follows c e \<Longrightarrow> code_follows e f \<Longrightarrow> code_follows c f"
  by (auto simp: code_follows_def)

text \<open>A write puts a new record under its identity, or one that follows the stored record.\<close>

definition pairing_write_ok :: "pairing_disk \<Rightarrow> pairing_write \<Rightarrow> bool" where
  "pairing_write_ok d w \<longleftrightarrow> (case w of
      (DeviceFile i, b) \<Rightarrow> \<exists>v. b = canonical (device_pairs v True) \<and> dv_device_id v = i
        \<and> (dict_get d (DeviceFile i) = None \<or> (\<exists>u. holds_device d i u \<and> device_follows u v))
    | (CodeFile i, b) \<Rightarrow> \<exists>c. b = canonical (code_pairs c True) \<and> pc_pairing_id c = i
        \<and> (dict_get d (CodeFile i) = None \<or> (\<exists>e. holds_code d i e \<and> code_follows e c)))"

definition pairing_inv :: "pairing_disk \<Rightarrow> bool" where
  "pairing_inv d \<longleftrightarrow> dict_ok d \<and> (\<forall>i c. holds_code d i c \<longrightarrow> pc_pairing_id c = i)
     \<and> (\<forall>i v. holds_device d i v \<longrightarrow> dv_device_id v = i)"

lemma made_code: "and_then (make_code iso8601 r) (with_code_digest iso8601 H) = Inr s \<Longrightarrow>
    s = r\<lparr>pc_content_digest := hash_secret H (canonical (code_pairs r False))\<rparr>"
  by (auto simp: res_simps dest: make_code_Inr with_code_digest_Inr)

lemma made_device: "and_then (make_device iso8601 r) (with_device_digest iso8601 H) = Inr s \<Longrightarrow>
    s = r\<lparr>dv_content_digest := hash_secret H (canonical (device_pairs r False))\<rparr>"
  by (auto simp: res_simps dest: make_device_Inr with_device_digest_Inr)

lemma update_device_Inr:
  assumes "update_device iso8601 H operation digest v = Inr w"
  shows "w = v\<lparr>dv_generation := dv_generation v + 1, dv_last_operation_id := operation,
    dv_last_request_digest := digest, dv_content_digest := dv_content_digest w\<rparr>"
  using made_device [OF assms [unfolded update_device_def]] by simp

lemma code_write_ok:
  assumes "encode_pairing_code_record iso8601 H c = Inr b" and "pc_pairing_id c = i"
    and "dict_get d (CodeFile i) = None \<or> (\<exists>e. holds_code d i e \<and> code_follows e c)"
  shows "pairing_write_ok d (CodeFile i, b)"
  using assms unfolding pairing_write_ok_def encode_code_iff by auto

lemma device_write_ok:
  assumes "encode_device_record iso8601 H v = Inr b" and "dv_device_id v = i"
    and "dict_get d (DeviceFile i) = None \<or> (\<exists>u. holds_device d i u \<and> device_follows u v)"
  shows "pairing_write_ok d (DeviceFile i, b)"
  using assms unfolding pairing_write_ok_def encode_device_iff by auto

lemma issue_writes:
  assumes "w \<in> set (snd (issue iso8601 H code q d))"
  shows "pairing_write_ok d w"
proof -
  from assms obtain r b where r: "read_code iso8601 H d (ir_pairing_id q) = Inr None"
    "and_then (make_code iso8601
         \<lparr>pc_schema_version = PAIRING_SCHEMA, pc_pairing_id = ir_pairing_id q,
          pc_code_verifier = hash_secret H code, pc_created_at = ir_created_at q,
          pc_expires_at = ir_expires_at q, pc_consumed_at = None, pc_failed_attempts = 0,
          pc_max_attempts = ir_max_attempts q, pc_last_operation_id = ir_operation_id q,
          pc_content_digest = EMPTY_DIGEST\<rparr>) (with_code_digest iso8601 H) = Inr r"
    "encode_pairing_code_record iso8601 H r = Inr b" "w = (CodeFile (ir_pairing_id q), b)"
    unfolding issue_def by (auto dest!: writes_dest)
  have "pc_pairing_id r = ir_pairing_id q" by (simp add: made_code [OF r(2)])
  from code_write_ok [OF r(3) this] read_code_None [OF r(1)] show ?thesis by (simp add: r(4))
qed

lemma consume_writes:
  assumes "pairing_inv d" and w: "w \<in> set (snd (consume iso8601 H token q d))"
  shows "pairing_write_ok d w"
proof -
  from w obtain c where c: "read_code iso8601 H d (cr_pairing_id q) = Inr (Some c)" "pc_consumed_at c = None"
    unfolding consume_def by (auto dest!: writes_dest split: option.split_asm)
  then have holds: "holds_code d (cr_pairing_id q) c" by (simp add: read_code_Inr)
  with assms(1) have id: "pc_pairing_id c = cr_pairing_id q" by (simp add: pairing_inv_def)
  consider (failed) r b where "and_then (make_code iso8601 (c\<lparr>pc_failed_attempts := pc_failed_attempts c + 1,
        pc_last_operation_id := cr_operation_id q\<rparr>)) (with_code_digest iso8601 H) = Inr r"
      "encode_pairing_code_record iso8601 H r = Inr b" "w = (CodeFile (pc_pairing_id c), b)"
    | (device) v b where "read_device iso8601 H d (cr_device_id q) = Inr None"
      "and_then (make_device iso8601 (new_device H token q)) (with_device_digest iso8601 H) = Inr v"
      "encode_device_record iso8601 H v = Inr b" "w = (DeviceFile (dv_device_id v), b)"
    | (code) r b where "and_then (make_code iso8601 (c\<lparr>pc_consumed_at := Some (cr_consumed_at q),
        pc_last_operation_id := cr_operation_id q\<rparr>)) (with_code_digest iso8601 H) = Inr r"
      "encode_pairing_code_record iso8601 H r = Inr b" "w = (CodeFile (pc_pairing_id c), b)"
    using w c unfolding consume_def by (auto dest!: writes_dest split: if_split_asm)
  then show ?thesis
  proof cases
    case failed
    have "code_follows c r \<and> pc_pairing_id r = pc_pairing_id c" by (simp add: made_code [OF failed(1)] code_follows_def c(2))
    with code_write_ok [OF failed(2)] holds id show ?thesis by (auto simp: failed(3))
  next
    case device
    have "dv_device_id v = cr_device_id q" by (simp add: made_device [OF device(2)] new_device_def Let_def)
    with device_write_ok [OF device(3)] read_device_None [OF device(1)] show ?thesis by (simp add: device(4))
  next
    case code
    have "code_follows c r \<and> pc_pairing_id r = pc_pairing_id c" by (simp add: made_code [OF code(1)] code_follows_def c(2))
    with code_write_ok [OF code(2)] holds id show ?thesis by (auto simp: code(3))
  qed
qed

lemma authenticate_writes:
  assumes "pairing_inv d" and "w \<in> set (snd (authenticate iso8601 H q d))"
  shows "pairing_write_ok d w"
proof -
  from assms(2) obtain v where v: "read_device iso8601 H d (au_device_id q) = Inr (Some v)" "dv_revoked_at v = None"
    unfolding authenticate_def Let_def by (auto dest!: writes_dest split: option.split_asm)
  then have holds: "holds_device d (au_device_id q) v" by (simp add: read_device_Inr)
  with assms(1) have id: "dv_device_id v = au_device_id q" by (simp add: pairing_inv_def)
  from assms(2) v obtain u b where u: "update_device iso8601 H (au_operation_id q) (request_digest H ''authenticate''
      [au_device_id q, DockyardDeviceScope_value (au_required_scope q), au_authenticated_at q])
      (v\<lparr>dv_last_used_at := Some (au_authenticated_at q)\<rparr>) = Inr u"
    "encode_device_record iso8601 H u = Inr b" "w = (DeviceFile (dv_device_id v), b)"
    unfolding authenticate_def Let_def by (auto dest!: writes_dest split: if_split_asm)
  have "device_follows v u \<and> dv_device_id u = dv_device_id v"
    by (subst (1 2) update_device_Inr [OF u(1)]) (simp add: device_follows_def v(2))
  with device_write_ok [OF u(2)] holds id show ?thesis by (auto simp: u(3))
qed

lemma revoke_writes:
  assumes "pairing_inv d" and "w \<in> set (snd (revoke_device iso8601 H q d))"
  shows "pairing_write_ok d w"
proof -
  from assms(2) obtain v where v: "read_device iso8601 H d (rv_device_id q) = Inr (Some v)" "dv_revoked_at v = None"
    unfolding revoke_device_def Let_def by (auto dest!: writes_dest split: option.split_asm if_split_asm)
  then have holds: "holds_device d (rv_device_id q) v" by (simp add: read_device_Inr)
  with assms(1) have id: "dv_device_id v = rv_device_id q" by (simp add: pairing_inv_def)
  from assms(2) v obtain u b where u: "update_device iso8601 H (rv_operation_id q) (request_digest H ''revoke''
      [rv_device_id q, show_int (rv_expected_generation q), rv_revoked_at q])
      (v\<lparr>dv_revoked_at := Some (rv_revoked_at q)\<rparr>) = Inr u"
    "encode_device_record iso8601 H u = Inr b" "w = (DeviceFile (dv_device_id v), b)"
    unfolding revoke_device_def Let_def by (auto dest!: writes_dest split: if_split_asm)
  have "device_follows v u \<and> dv_device_id u = dv_device_id v"
    by (subst (1 2) update_device_Inr [OF u(1)]) (simp add: device_follows_def v(2))
  with device_write_ok [OF u(2)] holds id show ?thesis by (auto simp: u(3))
qed

lemma snd_prepend [simp]: "snd (prepend x r) = snd r"
  by (simp add: prepend_def)

lemma revoke_each_writes:
  assumes "pairing_inv d" and "w \<in> set (snd (revoke_each iso8601 H t operation d names))"
  shows "pairing_write_ok d w \<and> fst w \<in> DeviceFile ` set names"
  using assms(2)
proof (induction names)
  case (Cons name names)
  from Cons.prems obtain b v where b: "dict_get d (DeviceFile name) = Some b" "decode_device_record iso8601 H b = Inr v"
    by (auto dest!: writes_dest split: option.split_asm)
  then have holds: "holds_device d name v" by (simp add: decode_device_iff encode_device_iff holds_device_def)
  with assms(1) have id: "dv_device_id v = name" by (simp add: pairing_inv_def)
  show ?case
  proof (cases "w \<in> set (snd (revoke_each iso8601 H t operation d names))")
    case True
    with Cons.IH show ?thesis by auto
  next
    case False
    with Cons.prems b obtain u c where u: "update_device iso8601 H operation
        (request_digest H ''revoke_all'' [dv_device_id v, t, operation]) (v\<lparr>dv_revoked_at := Some t\<rparr>) = Inr u"
      "encode_device_record iso8601 H u = Inr c" "w = (DeviceFile name, c)" "dv_revoked_at v = None"
      by (auto dest!: writes_dest split: if_split_asm)
    have "device_follows v u \<and> dv_device_id u = dv_device_id v"
      by (subst (1 2) update_device_Inr [OF u(1)]) (simp add: device_follows_def u(4))
    with device_write_ok [OF u(2)] holds id show ?thesis by (auto simp: u(3))
  qed
qed simp

lemma device_names_distinct: "dict_ok d \<Longrightarrow> distinct (device_names d)"
proof -
  assume "dict_ok d"
  moreover have "distinct (concat (map (\<lambda>(p, _). case p of DeviceFile i \<Rightarrow> [i] | _ \<Rightarrow> []) d)) \<and>
      (\<forall>i. i \<in> set (concat (map (\<lambda>(p, _). case p of DeviceFile i \<Rightarrow> [i] | _ \<Rightarrow> []) d)) \<longrightarrow> DeviceFile i \<in> fst ` set d)"
    if "distinct (map fst d)"
    using that
  proof (induction d)
    case (Cons a d)
    then show ?case by (cases a; cases "fst a") force+
  qed simp
  ultimately show ?thesis unfolding device_names_def dict_ok_def dict_keys_def by simp
qed

lemma revoke_each_distinct:
  assumes "pairing_inv d" and "distinct names"
  shows "distinct (map fst (snd (revoke_each iso8601 H t operation d names)))"
  using assms(2)
proof (induction names)
  case (Cons name names)
  have "DeviceFile name \<notin> fst ` set (snd (revoke_each iso8601 H t operation d names))"
    using revoke_each_writes [OF assms(1)] Cons.prems by fastforce
  with Cons show ?case
    by (auto simp: reading_def storing_def split: sum.split option.split)
qed simp

lemma pairing_writes_ok:
  assumes "pairing_inv d" and "w \<in> set (pairing_writes iso8601 H op d)"
  shows "pairing_write_ok d w"
proof (cases op)
  case (RevokeAll t operation)
  with assms(2) have "w \<in> set (snd (revoke_each iso8601 H t operation d (device_names d)))"
    by (auto simp: pairing_writes_def revoke_all_def dest!: writes_dest)
  from revoke_each_writes [OF assms(1) this] show ?thesis ..
qed (use assms in \<open>auto simp: pairing_writes_def dest: issue_writes consume_writes authenticate_writes revoke_writes\<close>)

lemma pairing_writes_distinct:
  assumes "pairing_inv d"
  shows "distinct (map fst (pairing_writes iso8601 H op d))"
proof (cases op)
  case (RevokeAll t operation)
  have "dict_ok d" using assms by (simp add: pairing_inv_def)
  with revoke_each_distinct [OF assms device_names_distinct] show ?thesis
    by (simp add: RevokeAll pairing_writes_def revoke_all_def reading_def ensuring_def split: sum.split option.split)
qed (auto simp: pairing_writes_def issue_def consume_def authenticate_def revoke_device_def Let_def reading_def ensuring_def
    storing_def returning_def failing_def split: sum.split option.split)

lemma pairing_step_get:
  assumes "pairing_step iso8601 H d d'" and "pairing_inv d"
  obtains "dict_get d' p = dict_get d p" | b where "dict_get d' p = Some b" "pairing_write_ok d (p, b)"
  by (rule crash_step_get [OF assms(1) pairing_writes_distinct [OF assms(2)], of p])
    (use that pairing_writes_ok [OF assms(2)] in blast)+

lemma pairing_step_inv:
  assumes "pairing_step iso8601 H d d'" and "pairing_inv d"
  shows "pairing_inv d'"
proof -
  have "dict_ok d'" using assms commit_ok by (auto simp: pairing_inv_def elim!: crash_stepE)
  moreover have "pc_pairing_id c = i" if "holds_code d' i c" for i c
  proof (rule pairing_step_get [OF assms, of "CodeFile i"])
    assume "dict_get d' (CodeFile i) = dict_get d (CodeFile i)"
    with that assms(2) show ?thesis by (simp add: pairing_inv_def holds_code_def)
  next
    fix b assume "dict_get d' (CodeFile i) = Some b" "pairing_write_ok d (CodeFile i, b)"
    with that show ?thesis
      by (auto simp: pairing_write_ok_def holds_code_def canonical_inject simp del: json_ok.simps)
  qed
  moreover have "dv_device_id v = i" if "holds_device d' i v" for i v
  proof (rule pairing_step_get [OF assms, of "DeviceFile i"])
    assume "dict_get d' (DeviceFile i) = dict_get d (DeviceFile i)"
    with that assms(2) show ?thesis by (simp add: pairing_inv_def holds_device_def)
  next
    fix b assume "dict_get d' (DeviceFile i) = Some b" "pairing_write_ok d (DeviceFile i, b)"
    with that show ?thesis
      by (auto simp: pairing_write_ok_def holds_device_def canonical_inject simp del: json_ok.simps)
  qed
  ultimately show ?thesis by (simp add: pairing_inv_def)
qed

lemma pairing_inv_empty: "pairing_inv []"
  by (simp add: pairing_inv_def holds_code_def holds_device_def)

interpretation paired_devices: tracked_system "\<lambda>d. d = []" "pairing_step iso8601 H" pairing_inv
  "\<lambda>d (i, v). holds_device d i v" "\<lambda>(i, v) (j, w). i = j \<and> device_follows v w"
  for iso8601 H
proof unfold_locales
  show "\<exists>y. (case y of (i, v) \<Rightarrow> holds_device t i v) \<and> (case x of (i, v) \<Rightarrow> \<lambda>(j, w). i = j \<and> device_follows v w) y"
    if s: "pairing_inv s" "pairing_step iso8601 H s t" and x: "case x of (i, v) \<Rightarrow> holds_device s i v" for s t x
  proof -
    obtain i v where iv: "x = (i, v)" "holds_device s i v" using x by (cases x) auto
    have "\<exists>w. holds_device t i w \<and> device_follows v w"
    proof (rule pairing_step_get [OF s(2,1), of "DeviceFile i"])
      assume "dict_get t (DeviceFile i) = dict_get s (DeviceFile i)"
      with iv(2) device_follows_refl show ?thesis by (auto simp: holds_device_def)
    next
      fix b assume "dict_get t (DeviceFile i) = Some b" "pairing_write_ok s (DeviceFile i, b)"
      with iv(2) holds_unique(2) [OF iv(2)] show ?thesis by (auto simp: pairing_write_ok_def holds_device_def)
    qed
    then show ?thesis by (auto simp: iv(1))
  qed
qed (auto simp: pairing_inv_empty device_follows_refl intro: pairing_step_inv device_follows_trans)

interpretation pairing_codes: tracked_system "\<lambda>d. d = []" "pairing_step iso8601 H" pairing_inv
  "\<lambda>d (i, c). holds_code d i c" "\<lambda>(i, c) (j, e). i = j \<and> code_follows c e"
  for iso8601 H
proof unfold_locales
  show "\<exists>y. (case y of (i, c) \<Rightarrow> holds_code t i c) \<and> (case x of (i, c) \<Rightarrow> \<lambda>(j, e). i = j \<and> code_follows c e) y"
    if s: "pairing_inv s" "pairing_step iso8601 H s t" and x: "case x of (i, c) \<Rightarrow> holds_code s i c" for s t x
  proof -
    obtain i c where ic: "x = (i, c)" "holds_code s i c" using x by (cases x) auto
    have "\<exists>e. holds_code t i e \<and> code_follows c e"
    proof (rule pairing_step_get [OF s(2,1), of "CodeFile i"])
      assume "dict_get t (CodeFile i) = dict_get s (CodeFile i)"
      with ic(2) code_follows_refl show ?thesis by (auto simp: holds_code_def)
    next
      fix b assume "dict_get t (CodeFile i) = Some b" "pairing_write_ok s (CodeFile i, b)"
      with ic(2) holds_unique(1) [OF ic(2)] show ?thesis by (auto simp: pairing_write_ok_def holds_code_def)
    qed
    then show ?thesis by (auto simp: ic(1))
  qed
qed (auto simp: pairing_inv_empty code_follows_refl intro: pairing_step_inv code_follows_trans)

end
