(* ===== verification/Pairing_Sample.thy ===== *)
theory Pairing_Sample
  imports Pairing_Runs
begin

text \<open>A pairing that was issued and consumed, for the witnesses.\<close>

text \<open>A clock that knows two instants, five minutes apart, and a hash.\<close>

definition sample_clock :: clock where
  "sample_clock s = (if s = ''2026-01-01T00:00:00+00:00'' then Some (0, Some 0)
     else if s = ''2026-01-01T00:05:00+00:00'' then Some (300000000, Some 0) else None)"

definition pairing_hash :: "string \<Rightarrow> string" where
  "pairing_hash s = (if s = ''code'' then replicate 64 (CHR ''c'') else replicate 64 (CHR ''a''))"

definition sample_issue :: DockyardPairingIssueRequest where
  "sample_issue = \<lparr>ir_pairing_id = ''P-1'', ir_created_at = ''2026-01-01T00:00:00Z'',
     ir_expires_at = ''2026-01-01T00:05:00Z'', ir_max_attempts = 3, ir_operation_id = ''OP-1''\<rparr>"

definition sample_consume :: DockyardPairingConsumeRequest where
  "sample_consume = \<lparr>cr_pairing_id = ''P-1'', cr_pairing_code = ''code'', cr_device_id = ''D-1'',
     cr_display_name = ''Phone'', cr_scopes = [APPROVE, READ], cr_consumed_at = ''2026-01-01T00:05:00Z'',
     cr_operation_id = ''OP-2''\<rparr>"

definition sample_code :: "string \<Rightarrow> DockyardPairingCodeRecord" where
  "sample_code digest = \<lparr>pc_schema_version = PAIRING_SCHEMA, pc_pairing_id = ''P-1'',
     pc_code_verifier = hash_secret pairing_hash ''code'', pc_created_at = ''2026-01-01T00:00:00Z'',
     pc_expires_at = ''2026-01-01T00:05:00Z'', pc_consumed_at = None, pc_failed_attempts = 0, pc_max_attempts = 3,
     pc_last_operation_id = ''OP-1'', pc_content_digest = digest\<rparr>"

lemma hash_verifier: "raise_first (verifier_guard (hash_secret pairing_hash s) code) = None"
proof -
  have "raise_first (verifier_guard (hash_secret pairing_hash ''code'') []) = None"
    "raise_first (verifier_guard (hash_secret pairing_hash []) []) = None" by code_simp+
  moreover have "hash_secret pairing_hash s \<in> {hash_secret pairing_hash ''code'', hash_secret pairing_hash []}"
    by (simp add: hash_secret_def pairing_hash_def)
  ultimately show ?thesis by (auto simp: verifier_guard_def text_guard_def)
qed

lemma sample_times: "utc sample_clock ''2026-01-01T00:00:00Z'' code = Inr 0"
  "utc sample_clock ''2026-01-01T00:05:00Z'' code = Inr 300000000"
  by (simp_all add: utc_def text_guard_def sample_clock_def) code_simp+

lemma sample_ids:
  "raise_first (identifier_guard ''P-1'' code) = None" "raise_first (identifier_guard ''D-1'' code) = None"
  "raise_first (identifier_guard ''OP-1'' code) = None" "raise_first (identifier_guard ''OP-2'' code) = None"
  "raise_first (identifier_guard ''OP-3'' code) = None" "raise_first (text_guard ''Phone'' code 128) = None"
proof -
  have "text_ok 192 ''P-1'' \<and> ID_RE ''P-1''" "text_ok 192 ''D-1'' \<and> ID_RE ''D-1''" "text_ok 192 ''OP-1'' \<and> ID_RE ''OP-1''"
    "text_ok 192 ''OP-2'' \<and> ID_RE ''OP-2''" "text_ok 192 ''OP-3'' \<and> ID_RE ''OP-3''" "text_ok 128 ''Phone''" by code_simp+
  then show "raise_first (identifier_guard ''P-1'' code) = None" "raise_first (identifier_guard ''D-1'' code) = None"
    "raise_first (identifier_guard ''OP-1'' code) = None" "raise_first (identifier_guard ''OP-2'' code) = None"
    "raise_first (identifier_guard ''OP-3'' code) = None" "raise_first (text_guard ''Phone'' code 128) = None"
    by (simp_all add: identifier_guard_def text_guard_def)
qed

lemma empty_verifier: "raise_first (verifier_guard EMPTY_DIGEST code) = None"
proof -
  have "raise_first (verifier_guard EMPTY_DIGEST []) = None" by code_simp
  then show ?thesis by (simp add: verifier_guard_def text_guard_def)
qed

lemma sealed_code:
  assumes "\<And>x. raise_first (verifier_guard x ''code_content_digest'') = None \<Longrightarrow>
      make_code iso8601 (r\<lparr>pc_content_digest := x\<rparr>) = Inr (r\<lparr>pc_content_digest := x\<rparr>)"
  defines "s \<equiv> r\<lparr>pc_content_digest := hash_secret pairing_hash (canonical (code_pairs r False))\<rparr>"
  shows "with_code_digest iso8601 pairing_hash r = Inr s
    \<and> encode_pairing_code_record iso8601 pairing_hash s = Inr (canonical (code_pairs s True))"
  using assms(1) [OF hash_verifier] by (simp add: s_def with_code_digest_def encode_code_iff)

lemma sealed_device:
  assumes "\<And>x. raise_first (verifier_guard x ''device_content_digest'') = None \<Longrightarrow>
      make_device iso8601 (v\<lparr>dv_content_digest := x\<rparr>) = Inr (v\<lparr>dv_content_digest := x\<rparr>)"
  defines "w \<equiv> v\<lparr>dv_content_digest := hash_secret pairing_hash (canonical (device_pairs v False))\<rparr>"
  shows "with_device_digest iso8601 pairing_hash v = Inr w
    \<and> encode_device_record iso8601 pairing_hash w = Inr (canonical (device_pairs w True))"
  using assms(1) [OF hash_verifier] by (simp add: w_def with_device_digest_def encode_device_iff)

lemma sample_code_made:
  assumes "raise_first (verifier_guard x ''code_content_digest'') = None"
  shows "make_code sample_clock ((sample_code y)\<lparr>pc_content_digest := x\<rparr>) = Inr ((sample_code y)\<lparr>pc_content_digest := x\<rparr>)"
  using assms by (simp add: make_code_def sample_code_def sample_times sample_ids hash_verifier not_before_def ttl_ok_def
      MAX_TTL_SECONDS_def integer_guard_def)

text \<open>A quoted text without control characters at most doubles.\<close>

lemma json_quote_length: "length (json_quote s) \<le> 6 * length s + 2"
proof -
  have "length (json_escape c) \<le> 6" for c by (simp add: json_escape_def)
  then have "length (concat (map json_escape s)) \<le> 6 * length s"
    by (induction s) (auto intro: add_mono)
  then show ?thesis by (simp add: json_quote_def)
qed

lemma sample_issued:
  "\<exists>c. issue sample_clock pairing_hash ''code'' sample_issue [] =
      (Inr ''code'', [(CodeFile ''P-1'', canonical (code_pairs c True))])
    \<and> c = sample_code (pc_content_digest c)"
proof -
  have made: "make_code sample_clock (sample_code EMPTY_DIGEST) = Inr (sample_code EMPTY_DIGEST)"
    using sample_code_made [of EMPTY_DIGEST EMPTY_DIGEST] by (simp add: empty_verifier sample_code_def)
  from sealed_code [OF sample_code_made, of EMPTY_DIGEST] obtain c where
    c: "with_code_digest sample_clock pairing_hash (sample_code EMPTY_DIGEST) = Inr c"
      "encode_pairing_code_record sample_clock pairing_hash c = Inr (canonical (code_pairs c True))"
      "c = sample_code (pc_content_digest c)" by (auto simp: sample_code_def)
  have new: "\<lparr>pc_schema_version = PAIRING_SCHEMA, pc_pairing_id = ir_pairing_id sample_issue,
          pc_code_verifier = hash_secret pairing_hash ''code'', pc_created_at = ir_created_at sample_issue,
          pc_expires_at = ir_expires_at sample_issue, pc_consumed_at = None, pc_failed_attempts = 0,
          pc_max_attempts = ir_max_attempts sample_issue, pc_last_operation_id = ir_operation_id sample_issue,
          pc_content_digest = EMPTY_DIGEST\<rparr> = sample_code EMPTY_DIGEST"
    by (simp add: sample_code_def sample_issue_def)
  have "issue sample_clock pairing_hash ''code'' sample_issue [] =
      (Inr ''code'', [(CodeFile ''P-1'', canonical (code_pairs c True))])"
    unfolding issue_def new using made c
    by (simp add: read_code_def sample_ids) (simp add: sample_issue_def sample_ids returning_def)
  with c(3) show ?thesis by blast
qed

text \<open>How long the canonical text of flat members can be.\<close>

fun member_bound :: "string \<times> json \<Rightarrow> nat" where
  "member_bound (k, JStr s) = 6 * length k + 6 * length s + 6"
| "member_bound (k, JNull) = 6 * length k + 8"
| "member_bound (k, JArr xs) = 6 * length k + length (dumps (JArr xs)) + 4"
| "member_bound (k, JInt i) = 6 * length k + length (show_int i) + 4"
| "member_bound (k, v) = 6 * length k + length (dumps v) + 4"

lemma member_bound: "length (member_text p) + 1 \<le> member_bound p"
proof -
  obtain k v where p: "p = (k, v)" by (cases p)
  show ?thesis
  proof (cases v)
    case (JStr s)
    with json_quote_length [of k] json_quote_length [of s] show ?thesis by (simp add: p member_text_def)
  qed (use json_quote_length [of k] in \<open>simp_all add: p member_text_def\<close>)
qed

lemma joined_length: "length (joined ss) \<le> sum_list (map (\<lambda>s. length s + 1) ss)"
  by (induction ss rule: joined.induct) simp_all

lemma canonical_length: "length (canonical ps) \<le> sum_list (map member_bound ps) + 3"
proof -
  have "length (joined (map member_text ps)) \<le> sum_list (map (\<lambda>p. length (member_text p) + 1) ps)"
    using joined_length [of "map member_text ps"] by (simp add: comp_def)
  also have "\<dots> \<le> sum_list (map member_bound ps)" by (rule sum_list_mono) (rule member_bound)
  finally show ?thesis by (simp add: canonical_def dumps_JObj del: dumps.simps(7))
qed

lemma hash_length: "length (hash_secret pairing_hash s) = 71"
  by (simp add: hash_secret_def pairing_hash_def)

lemma sample_code_short:
  "length (pc_content_digest c) = 71 \<Longrightarrow> c = sample_code (pc_content_digest c) \<Longrightarrow>
    length (canonical (code_pairs c True)) \<le> MAX_FILE_BYTES"
proof -
  assume digest: "length (pc_content_digest c) = 71" and c: "c = sample_code (pc_content_digest c)"
  have "sum_list (map member_bound (code_pairs (sample_code (pc_content_digest c)) True)) + 3 \<le> MAX_FILE_BYTES"
    using digest by (simp add: code_pairs_def sample_code_def PAIRING_SCHEMA_def hash_length json_optional_def MAX_FILE_BYTES_def
        show_int_def show_nat.simps)
  with c canonical_length [of "code_pairs c True"] show ?thesis by simp
qed

definition sample_device :: "string \<Rightarrow> DockyardDeviceRecord" where
  "sample_device digest = \<lparr>dv_schema_version = DEVICE_SCHEMA, dv_device_id = ''D-1'', dv_display_name = ''Phone'',
     dv_pairing_id = ''P-1'', dv_token_verifier = hash_secret pairing_hash ''token'', dv_scopes = [APPROVE, READ],
     dv_issued_at = ''2026-01-01T00:05:00Z'', dv_last_used_at = None, dv_revoked_at = None, dv_generation = 1,
     dv_last_operation_id = ''OP-2'',
     dv_last_request_digest = request_digest pairing_hash ''consume''
        [''P-1'', ''D-1'', ''Phone'', ''APPROVE'', ''READ'', ''2026-01-01T00:05:00Z''],
     dv_content_digest = digest\<rparr>"

lemma sample_scopes: "sort_key DockyardDeviceScope_value [APPROVE, READ] = [APPROVE, READ]"
  by code_simp

lemma sample_new_device: "new_device pairing_hash ''token'' sample_consume = sample_device EMPTY_DIGEST"
  by (simp add: new_device_def sample_consume_def sample_device_def sample_scopes Let_def)

lemma sample_device_made:
  assumes "raise_first (verifier_guard x ''device_content_digest'') = None"
  shows "make_device sample_clock ((sample_device y)\<lparr>dv_content_digest := x\<rparr>) = Inr ((sample_device y)\<lparr>dv_content_digest := x\<rparr>)"
  using assms sample_scopes hash_verifier [of _ "''device_request_digest''"]
  by (simp add: make_device_def sample_device_def sample_times sample_ids hash_verifier not_before_def
      integer_guard_def scope_guards_def request_digest_def)

text \<open>The sample pairing: issued, then consumed.\<close>

lemma sample_paired:
  obtains d v where "(pairing_step sample_clock pairing_hash)\<^sup>*\<^sup>* [] d"
    "\<exists>ws. consume sample_clock pairing_hash ''token'' sample_consume d = (Inr (v, ''token''), ws)"
    "v = sample_device (dv_content_digest v)"
    "length (dv_content_digest v) = 71"
    "\<exists>ws. issue sample_clock pairing_hash ''code'' sample_issue [] = (Inr ''code'', ws) \<and> commit ws [] = d"
    "encode_device_record sample_clock pairing_hash v = Inr (canonical (device_pairs v True))"
proof -
  let ?H = pairing_hash and ?clock = sample_clock
  from sample_issued obtain c where issued: "issue ?clock ?H ''code'' sample_issue [] =
      (Inr ''code'', [(CodeFile ''P-1'', canonical (code_pairs c True))])" and c: "c = sample_code (pc_content_digest c)" by blast
  let ?d = "commit [(CodeFile ''P-1'', canonical (code_pairs c True))] []"
  from issued have enc: "encode_pairing_code_record ?clock ?H c = Inr (canonical (code_pairs c True))"
    "pc_content_digest c = hash_secret ?H (canonical (code_pairs c False))"
    by (auto simp: issue_def res_simps encode_code_iff canonical_inject simp del: json_ok.simps)
  have "length (pc_content_digest c) = 71" by (subst enc(2)) (rule hash_length)
  from sample_code_short [OF this c] have read: "read_code ?clock ?H ?d (cr_pairing_id sample_consume) = Inr (Some c)"
    by (simp add: read_code_Inr sample_consume_def sample_ids holds_code_def commit_simps dict_get_set enc(1))
  have fields: "pc_consumed_at c = None" "pc_created_at c = ''2026-01-01T00:00:00Z''" "pc_expires_at c = ''2026-01-01T00:05:00Z''"
    "pc_failed_attempts c = 0" "pc_max_attempts c = 3" "pc_code_verifier c = hash_secret ?H ''code''" "pc_pairing_id c = ''P-1''"
    by (subst c, simp add: sample_code_def)+
  have none: "read_device ?clock ?H ?d (cr_device_id sample_consume) = Inr None"
    by (simp add: read_device_def sample_consume_def sample_ids commit_simps dict_get_set)
  from sealed_device [OF sample_device_made, of EMPTY_DIGEST] obtain v where
    v: "with_device_digest ?clock ?H (sample_device EMPTY_DIGEST) = Inr v"
      "encode_device_record ?clock ?H v = Inr (canonical (device_pairs v True))"
      "v = sample_device (dv_content_digest v)" "length (dv_content_digest v) = 71"
    by (auto simp: sample_device_def hash_length)
  have made: "make_device ?clock (sample_device EMPTY_DIGEST) = Inr (sample_device EMPTY_DIGEST)"
    using sample_device_made [of EMPTY_DIGEST EMPTY_DIGEST] by (simp add: empty_verifier sample_device_def)
  let ?used = "c\<lparr>pc_consumed_at := Some (cr_consumed_at sample_consume), pc_last_operation_id := cr_operation_id sample_consume\<rparr>"
  have used: "make_code ?clock (?used\<lparr>pc_content_digest := x\<rparr>) = Inr (?used\<lparr>pc_content_digest := x\<rparr>)"
    if "raise_first (verifier_guard x ''code_content_digest'') = None" for x
    using that by (subst (1 2) c) (simp add: make_code_def sample_code_def sample_consume_def sample_times sample_ids hash_verifier
      not_before_def ttl_ok_def MAX_TTL_SECONDS_def integer_guard_def)
  have self: "?used\<lparr>pc_content_digest := pc_content_digest c\<rparr> = ?used" by simp
  have made': "make_code ?clock ?used = Inr ?used"
    using used [of "pc_content_digest c"] hash_verifier [of "canonical (code_pairs c False)" "''code_content_digest''"]
    unfolding self enc(2) [symmetric] by blast
  from sealed_code [OF used] obtain e where
    e: "with_code_digest ?clock ?H ?used = Inr e" "encode_pairing_code_record ?clock ?H e = Inr (canonical (code_pairs e True))" by blast
  have times: "utc ?clock (cr_consumed_at sample_consume) ''consume_time'' = Inr 300000000"
    by (simp add: sample_consume_def sample_times)
  have code: "cr_pairing_code sample_consume = ''code''" by (simp add: sample_consume_def)
  have con: "\<exists>ws. consume ?clock ?H ''token'' sample_consume ?d = (Inr (v, ''token''), ws)"
    by (simp add: consume_def read fields times sample_times code none sample_new_device made v(1,2) made' e returning_def
        del: and_then_Inr_iff)
  show ?thesis
  proof (rule that [OF _ con])
    show "(pairing_step ?clock ?H)\<^sup>*\<^sup>* [] ?d"
      using crash_step_whole [of "\<lambda>_. True" "Issue ''code'' sample_issue" "pairing_writes ?clock ?H" "[]"]
      by (intro r_into_rtranclp) (simp add: pairing_writes_def issued)
  next
    show "v = sample_device (dv_content_digest v)" by (rule v(3))
    show "\<exists>ws. issue ?clock ?H ''code'' sample_issue [] = (Inr ''code'', ws) \<and> commit ws [] = ?d"
      using issued by blast
  qed (rule v(4), rule v(2))
qed


text \<open>The store after the pairing.\<close>

lemma sample_device_short:
  assumes "length (dv_content_digest v) = 71" and v: "v = sample_device (dv_content_digest v)"
  shows "length (canonical (device_pairs v True)) \<le> MAX_FILE_BYTES"
proof -
  have "sum_list (map member_bound (device_pairs (sample_device (dv_content_digest v)) True)) + 3 \<le> MAX_FILE_BYTES"
    using assms(1) by (simp add: device_pairs_def sample_device_def DEVICE_SCHEMA_def hash_length request_digest_def
        json_optional_def json_quote_def json_escape_def MAX_FILE_BYTES_def show_int_def show_nat.simps)
  with v canonical_length [of "device_pairs v True"] show ?thesis by simp
qed

lemma sample_device_updated:
  assumes "v = sample_device g" and digest: "raise_first (verifier_guard (dv_content_digest v) ''device_content_digest'') = None"
    and "used \<in> {None, Some ''2026-01-01T00:05:00Z''}" and "revoked \<in> {None, Some ''2026-01-01T00:05:00Z''}"
  shows "\<exists>w. update_device sample_clock pairing_hash ''OP-3'' (request_digest pairing_hash action values)
        (v\<lparr>dv_last_used_at := used, dv_revoked_at := revoked\<rparr>) = Inr w
      \<and> encode_device_record sample_clock pairing_hash w = Inr (canonical (device_pairs w True)) \<and> dv_revoked_at w = revoked"
proof -
  let ?w = "(v\<lparr>dv_last_used_at := used, dv_revoked_at := revoked\<rparr>)
    \<lparr>dv_generation := dv_generation v + 1, dv_last_operation_id := ''OP-3'',
     dv_last_request_digest := request_digest pairing_hash action values\<rparr>"
  have made: "make_device sample_clock (?w\<lparr>dv_content_digest := x\<rparr>) = Inr (?w\<lparr>dv_content_digest := x\<rparr>)"
    if "raise_first (verifier_guard x ''device_content_digest'') = None" for x
    using that assms(3,4) sample_scopes hash_verifier [of _ "''device_request_digest''"]
    by (auto simp: assms(1) make_device_def sample_device_def sample_times sample_ids hash_verifier not_before_def
      integer_guard_def scope_guards_def request_digest_def)
  have g: "make_device sample_clock ?w = Inr ?w"
    using made [of "dv_content_digest v"] digest by simp
  have "update_device sample_clock pairing_hash ''OP-3'' (request_digest pairing_hash action values)
      (v\<lparr>dv_last_used_at := used, dv_revoked_at := revoked\<rparr>) = with_device_digest sample_clock pairing_hash ?w"
    using g by (simp add: update_device_def)
  with sealed_device [OF made] show ?thesis by auto
qed

end
