(* ===== verification/Pairing_Guarantees.thy ===== *)
theory Pairing_Guarantees
  imports Pairing_Sample
begin

text \<open>What the pairing store promises: final revocation, single use, bounded guessing, confined scopes.\<close>

lemma revoked_locked:
  assumes "holds_device d i v" and "dv_revoked_at v \<noteq> None"
  shows "(\<exists>e. verify_device_token iso8601 H i token scope d = Inl e)
    \<and> (\<exists>e. authenticate iso8601 H (a\<lparr>au_device_id := i\<rparr>) d = (Inl e, []))"
proof (cases "read_device iso8601 H d i")
  case (Inl e)
  then show ?thesis
    by (auto simp: verify_device_token_def authenticate_def Let_def guarded_def split: option.split)
next
  case (Inr found)
  show ?thesis
  proof (cases found)
    case None
    with Inr read_device_None have "dict_get d (DeviceFile i) = None" by blast
    with assms(1) show ?thesis by (simp add: holds_device_def)
  next
    case (Some w)
    with Inr have "holds_device d i w" by (simp add: read_device_Inr)
    with assms holds_unique(2) have w: "dv_revoked_at w \<noteq> None" by blast
    have "raise_first ((dv_revoked_at w \<noteq> None, DockyardPairingAuthenticationError ''device_revoked'') # gs)
        = Some (DockyardPairingAuthenticationError ''device_revoked'')" for gs using w by simp
    with Inr Some show ?thesis
      by (auto simp: verify_device_token_def authenticate_def Let_def guarded_def split: option.split)
  qed
qed

lemma holds_commit_device:
  assumes "pairing_inv d" and "revoke_device iso8601 H q d = (Inr v, ws)"
  shows "holds_device (commit ws d) (rv_device_id q) v"
proof -
  from assms(2) obtain u where u: "read_device iso8601 H d (rv_device_id q) = Inr (Some u)"
    by (auto simp: revoke_device_def Let_def res_simps split: option.split_asm)
  then have holds: "holds_device d (rv_device_id q) u" by (simp add: read_device_Inr)
  with assms(1) have id: "dv_device_id u = rv_device_id q" by (simp add: pairing_inv_def)
  from assms(2) u consider "v = u" "ws = []" | b where "encode_device_record iso8601 H v = Inr b" "ws = [(DeviceFile (dv_device_id u), b)]"
    by (auto simp: revoke_device_def Let_def res_simps split: if_split_asm)
  then show ?thesis
  proof cases
    case 1
    with holds show ?thesis by (simp add: commit_simps)
  next
    case 2
    then show ?thesis by (simp add: commit_simps holds_device_def dict_get_set id encode_device_iff)
  qed
qed

lemma revoke_step: "pairing_step iso8601 H d (commit (snd (revoke_device iso8601 H q d)) d)"
  using crash_step_whole [of "\<lambda>_. True" "RevokeDevice q" "pairing_writes iso8601 H" d] by (simp add: pairing_writes_def)

section \<open>Properties\<close>

text \<open>
  A pairing code file decodes to a record exactly when it is that record's canonical
  encoding, with its digest, within the size limit; likewise a device file.
\<close>

theorem pairing_evidence_roundtrip:
  "(decode_pairing_code_record iso8601 H b = Inr c \<longleftrightarrow>
      encode_pairing_code_record iso8601 H c = Inr b \<and> length b \<le> MAX_FILE_BYTES)
   \<and> (decode_device_record iso8601 H b = Inr v \<longleftrightarrow>
      encode_device_record iso8601 H v = Inr b \<and> length b \<le> MAX_FILE_BYTES)"
  by (simp add: decode_code_iff decode_device_iff)

text \<open>
  C10. Revocation is final.  After a device was revoked, whatever operations run or crash, no
  token and no scope gets its identity through the runtime check or an authentication, and the
  refused attempts write nothing.
\<close>

theorem revoked_device_locked_out:
  assumes "(pairing_step iso8601 H)\<^sup>*\<^sup>* [] d"
    and rev: "revoke_device iso8601 H q d = (Inr v, ws)" and "dv_revoked_at v \<noteq> None"
    and "(pairing_step iso8601 H)\<^sup>*\<^sup>* (commit ws d) d'"
  shows "(\<exists>e. verify_device_token iso8601 H (rv_device_id q) token scope d' = Inl e)
    \<and> (\<exists>e. authenticate iso8601 H (a\<lparr>au_device_id := rv_device_id q\<rparr>) d' = (Inl e, []))"
proof -
  have d: "pairing_inv d" using assms(1) by (rule paired_devices.steps_inv) (rule pairing_inv_empty)
  have "pairing_inv (commit ws d)" using pairing_step_inv [OF revoke_step d, of iso8601 H q] by (simp add: rev)
  from paired_devices.steps_track [OF assms(4) this, of "(rv_device_id q, v)"] holds_commit_device [OF d rev]
  obtain w where "holds_device d' (rv_device_id q) w" "device_follows v w" by auto
  with assms(3) have "holds_device d' (rv_device_id q) v" by (auto simp: device_follows_def)
  from revoked_locked [OF this assms(3)] show ?thesis .
qed

lemma revoke_each_all:
  assumes "revoke_each iso8601 H t operation d names = (Inr vs, ws)" and "pairing_inv d" and "distinct names"
    and "i \<in> set names"
  shows "\<exists>v. dv_revoked_at v \<noteq> None \<and> (case map_of ws (DeviceFile i) of
      None \<Rightarrow> holds_device d i v | Some b \<Rightarrow> b = canonical (device_pairs v True))"
  using assms(1,3,4)
proof (induction names arbitrary: vs ws)
  case (Cons name names)
  from Cons.prems(1) obtain b u where u: "dict_get d (DeviceFile name) = Some b" "decode_device_record iso8601 H b = Inr u"
    by (auto simp: res_simps split: option.split_asm)
  then have holds: "holds_device d name u" by (simp add: decode_device_iff encode_device_iff holds_device_def)
  have rest: "\<exists>ys us. revoke_each iso8601 H t operation d names = (Inr ys, us) \<and>
      (if dv_revoked_at u \<noteq> None then ws = us
       else \<exists>w c. update_device iso8601 H operation (request_digest H ''revoke_all'' [dv_device_id u, t, operation])
             (u\<lparr>dv_revoked_at := Some t\<rparr>) = Inr w \<and> encode_device_record iso8601 H w = Inr c
           \<and> ws = (DeviceFile name, c) # us)"
    using Cons.prems(1) u by (cases "revoke_each iso8601 H t operation d names")
      (auto simp: res_simps prepend_def split: if_split_asm)
  then obtain ys us where us: "revoke_each iso8601 H t operation d names = (Inr ys, us)"
    and ws: "if dv_revoked_at u \<noteq> None then ws = us
       else \<exists>w c. update_device iso8601 H operation (request_digest H ''revoke_all'' [dv_device_id u, t, operation])
             (u\<lparr>dv_revoked_at := Some t\<rparr>) = Inr w \<and> encode_device_record iso8601 H w = Inr c
           \<and> ws = (DeviceFile name, c) # us" by blast
  have absent: "map_of us (DeviceFile name) = None"
    using revoke_each_writes [OF assms(2), of _ iso8601 H t operation names] us Cons.prems(2)
    by (fastforce simp: map_of_eq_None_iff)
  show ?case
  proof (cases "i = name")
    case True
    show ?thesis
    proof (cases "dv_revoked_at u")
      case None
      with ws obtain w c where w: "update_device iso8601 H operation (request_digest H ''revoke_all''
          [dv_device_id u, t, operation]) (u\<lparr>dv_revoked_at := Some t\<rparr>) = Inr w"
        "encode_device_record iso8601 H w = Inr c" "ws = (DeviceFile name, c) # us" by auto
      have "dv_revoked_at w = Some t" by (subst update_device_Inr [OF w(1)]) simp
      with w show ?thesis by (auto simp: True encode_device_iff)
    next
      case (Some r)
      with ws absent holds show ?thesis by (auto simp: True)
    qed
  next
    case False
    with Cons.IH [OF us] Cons.prems(2,3) ws show ?thesis by (auto split: if_split_asm)
  qed
qed simp

lemma device_names_iff: "i \<in> set (device_names d) \<longleftrightarrow> dict_get d (DeviceFile i) \<noteq> None"
  by (force simp: device_names_def dict_get_None_iff dict_keys_def split: pairing_path.splits)

text \<open>
  The emergency revocation is complete: when it reports success, every device file in the
  store, before or after it, is revoked, and locked out for good as in the previous property.
\<close>

theorem revoke_all_complete:
  assumes "(pairing_step iso8601 H)\<^sup>*\<^sup>* [] d"
    and rev: "revoke_all iso8601 H t operation d = (Inr vs, ws)"
    and i: "dict_get (commit ws d) (DeviceFile i) \<noteq> None"
    and "(pairing_step iso8601 H)\<^sup>*\<^sup>* (commit ws d) d'"
  shows "(\<exists>e. verify_device_token iso8601 H i token scope d' = Inl e)
    \<and> (\<exists>e. authenticate iso8601 H (a\<lparr>au_device_id := i\<rparr>) d' = (Inl e, []))"
proof -
  have d: "pairing_inv d" using assms(1) by (rule paired_devices.steps_inv) (rule pairing_inv_empty)
  then have distinct: "distinct (device_names d)" by (simp add: pairing_inv_def device_names_distinct)
  from rev have each: "revoke_each iso8601 H t operation d (device_names d) = (Inr vs, ws)"
    by (simp add: revoke_all_def res_simps)
  have "distinct (map fst ws)" using revoke_each_distinct [OF d distinct, of iso8601 H t operation] each by simp
  note get = commit_get [OF this, of d "DeviceFile i"]
  have "i \<in> set (device_names d)"
  proof (cases "map_of ws (DeviceFile i)")
    case None
    with get i show ?thesis by (simp add: device_names_iff)
  next
    case (Some b)
    then have "(DeviceFile i, b) \<in> set ws" by (rule map_of_SomeD)
    with revoke_each_writes [OF d, of "(DeviceFile i, b)" iso8601 H t operation "device_names d"] each show ?thesis by auto
  qed
  from revoke_each_all [OF each d distinct this] obtain v where v: "dv_revoked_at v \<noteq> None"
    "holds_device (commit ws d) i v" using get by (auto simp: holds_device_def split: option.split_asm)
  have "pairing_step iso8601 H d (commit ws d)"
    using crash_step_whole [of "\<lambda>_. True" "RevokeAll t operation" "pairing_writes iso8601 H" d]
    by (simp add: pairing_writes_def rev)
  from paired_devices.steps_track [OF assms(4) pairing_step_inv [OF this d], of "(i, v)"] v(2)
  obtain w where "holds_device d' i w" "device_follows v w" by auto
  with v(1) have "holds_device d' i v" by (auto simp: device_follows_def)
  from revoked_locked [OF this v(1)] show ?thesis .
qed

lemma consume_Inr:
  assumes "consume iso8601 H token q d = (Inr x, ws)"
  obtains c v b e f where "read_code iso8601 H d (cr_pairing_id q) = Inr (Some c)" "pc_consumed_at c = None"
    "read_device iso8601 H d (cr_device_id q) = Inr None" "pc_failed_attempts c < pc_max_attempts c"
    "hash_secret H (cr_pairing_code q) = pc_code_verifier c" "x = (v, token)"
    "and_then (make_device iso8601 (new_device H token q)) (with_device_digest iso8601 H) = Inr v"
    "encode_device_record iso8601 H v = Inr b"
    "and_then (make_code iso8601 (c\<lparr>pc_consumed_at := Some (cr_consumed_at q),
        pc_last_operation_id := cr_operation_id q\<rparr>)) (with_code_digest iso8601 H) = Inr e"
    "encode_pairing_code_record iso8601 H e = Inr f"
    "ws = [(DeviceFile (dv_device_id v), b), (CodeFile (pc_pairing_id c), f)]"
  using assms unfolding consume_def
  by (auto simp: res_simps simp del: and_then_Inr_iff split: option.split_asm if_split_asm)

lemma consume_commit:
  assumes "pairing_inv d" and "consume iso8601 H token q d = (Inr (v, x), ws)"
  shows "x = token \<and> holds_device (commit ws d) (cr_device_id q) v \<and> dv_scopes v = sort_key DockyardDeviceScope_value (cr_scopes q)
    \<and> dv_token_verifier v = hash_secret H token
    \<and> (\<exists>e. holds_code (commit ws d) (cr_pairing_id q) e \<and> pc_consumed_at e \<noteq> None)"
proof (rule consume_Inr [OF assms(2)])
  fix c v' b e f
  assume c: "read_code iso8601 H d (cr_pairing_id q) = Inr (Some c)"
    and x: "(v, x) = (v', token)"
    and v: "and_then (make_device iso8601 (new_device H token q)) (with_device_digest iso8601 H) = Inr v'"
    and b: "encode_device_record iso8601 H v' = Inr b"
    and e: "and_then (make_code iso8601 (c\<lparr>pc_consumed_at := Some (cr_consumed_at q),
        pc_last_operation_id := cr_operation_id q\<rparr>)) (with_code_digest iso8601 H) = Inr e"
    and f: "encode_pairing_code_record iso8601 H e = Inr f"
    and ws: "ws = [(DeviceFile (dv_device_id v'), b), (CodeFile (pc_pairing_id c), f)]"
  have "holds_code d (cr_pairing_id q) c" using c by (simp add: read_code_Inr)
  with assms(1) have id: "pc_pairing_id c = cr_pairing_id q" by (simp add: pairing_inv_def)
  have dev: "dv_device_id v' = cr_device_id q" "dv_scopes v' = sort_key DockyardDeviceScope_value (cr_scopes q)"
    "dv_token_verifier v' = hash_secret H token" by (simp_all add: made_device [OF v] new_device_def Let_def)
  have "pc_consumed_at e \<noteq> None" by (simp add: made_code [OF e])
  with x b f dev show ?thesis
    by (auto simp: ws commit_simps holds_device_def holds_code_def dict_get_set id encode_device_iff encode_code_iff)
qed

lemma consume_step: "pairing_step iso8601 H d (commit (snd (consume iso8601 H token q d)) d)"
  using crash_step_whole [of "\<lambda>_. True" "Consume token q" "pairing_writes iso8601 H" d] by (simp add: pairing_writes_def)


text \<open>
  The answers ``wrong code'' an attacker gets about a pairing, over operations of which each may
  crash after \<open>k\<close> of its writes (and then answers nothing).
\<close>

fun wrong_answers ::
  "clock \<Rightarrow> (string \<Rightarrow> string) \<Rightarrow> string \<Rightarrow> (pairing_op \<times> nat) list \<Rightarrow> pairing_disk \<Rightarrow> nat"
where
  "wrong_answers iso8601 H i [] d = 0"
| "wrong_answers iso8601 H i ((op, k) # ops) d =
     (case op of
        Consume token q \<Rightarrow>
          if cr_pairing_id q = i \<and> length (pairing_writes iso8601 H op d) \<le> k
             \<and> fst (consume iso8601 H token q d) = Inl (DockyardPairingAuthenticationError ''pairing_code'')
          then 1 else 0
      | _ \<Rightarrow> 0)
     + wrong_answers iso8601 H i ops (commit (take k (pairing_writes iso8601 H op d)) d)"


text \<open>Reading and rebuilding records never raises an authentication error.\<close>

definition no_auth :: "pairing_error + 'a \<Rightarrow> bool" where
  "no_auth r \<longleftrightarrow> (\<forall>code. r \<noteq> Inl (DockyardPairingAuthenticationError code))"

lemma no_auth_simps [simp]: "no_auth (Inr x)" "no_auth (Inl (DockyardPairingInputError s))"
  "no_auth (Inl (DockyardPairingStoreError s))" "no_auth (Inl (DockyardPairingConflictError s))"
  by (simp_all add: no_auth_def)

lemma no_auth_guarded [intro]:
  "\<forall>g \<in> set gs. no_auth (Inl (snd g) :: pairing_error + 'a) \<Longrightarrow> no_auth r \<Longrightarrow> no_auth (guarded gs r :: pairing_error + 'a)"
  using raise_first_Some_member [of gs] by (fastforce simp: guarded_def no_auth_def split: option.split)

lemma no_auth_and_then [intro]: "no_auth r \<Longrightarrow> (\<And>x. no_auth (f x)) \<Longrightarrow> no_auth (and_then r f)"
  by (cases r) (simp_all add: no_auth_def)

lemma no_auth_read:
  "no_auth (utc iso8601 s code)" "no_auth (make_code iso8601 c)" "no_auth (make_device iso8601 v)"
  "no_auth (not_before iso8601 t code start clock_code)"
proof -
  show utc: "no_auth (utc iso8601 s code)" for s code
    unfolding utc_def by (rule no_auth_guarded) (auto simp: text_guard_def split: option.split prod.split)
  show before: "no_auth (not_before iso8601 t code start clock_code)" for t code start clock_code
    by (cases t) (auto simp: not_before_def intro!: no_auth_and_then no_auth_guarded utc)
  note guards = text_guard_def identifier_guard_def verifier_guard_def integer_guard_def scope_guards_def
  show "no_auth (make_code iso8601 c)"
    unfolding make_code_def by (intro no_auth_guarded no_auth_and_then utc before) (simp_all add: guards)
  show "no_auth (make_device iso8601 v)"
    unfolding make_device_def by (intro no_auth_guarded no_auth_and_then utc before) (simp_all add: guards)
qed

lemma no_auth_rebuilt: "no_auth (rebuilt code r)"
  by (cases r) (simp_all add: rebuilt_def)

lemma no_auth_files:
  "no_auth (with_code_digest iso8601 H c)" "no_auth (encode_pairing_code_record iso8601 H c)"
  "no_auth (read_code iso8601 H d i)"
proof -
  show digest: "no_auth (with_code_digest iso8601 H c)" for c
    unfolding with_code_digest_def by (rule no_auth_read)
  show "no_auth (encode_pairing_code_record iso8601 H c)"
    unfolding encode_pairing_code_record_def by (intro no_auth_and_then no_auth_guarded digest) simp_all
  have json: "no_auth (decode_json b names)" for b names
    unfolding decode_json_def by (auto intro!: no_auth_guarded split: option.split json.split)
  have "no_auth (decode_pairing_code_record iso8601 H b)" for b
    unfolding decode_pairing_code_record_def by (intro no_auth_and_then json no_auth_rebuilt) auto
  then show "no_auth (read_code iso8601 H d i)"
    unfolding read_code_def
    by (intro no_auth_guarded) (auto simp: text_guard_def identifier_guard_def split: option.split)
qed

lemma auth_reading: "fst (reading v f) = Inl (DockyardPairingAuthenticationError s) \<Longrightarrow> no_auth v \<Longrightarrow>
    \<exists>x. v = Inr x \<and> fst (f x) = Inl (DockyardPairingAuthenticationError s)"
  by (cases v) (auto simp: reading_def no_auth_def)

lemma auth_storing: "fst (storing p v r) = Inl (DockyardPairingAuthenticationError s) \<Longrightarrow> no_auth v \<Longrightarrow> \<exists>b. v = Inr b"
  by (cases v) (auto simp: storing_def no_auth_def)

lemma no_auth_made: "no_auth (and_then (make_code iso8601 c) (with_code_digest iso8601 H))"
  by (intro no_auth_and_then no_auth_read no_auth_files)

lemma no_auth_device: "no_auth (and_then (make_device iso8601 v) (with_device_digest iso8601 H))"
  "no_auth (encode_device_record iso8601 H v)" "no_auth (read_device iso8601 H d i)"
proof -
  have digest: "no_auth (with_device_digest iso8601 H v)" for v
    unfolding with_device_digest_def by (rule no_auth_read)
  show "no_auth (and_then (make_device iso8601 v) (with_device_digest iso8601 H))"
    by (intro no_auth_and_then no_auth_read digest)
  show "no_auth (encode_device_record iso8601 H v)"
    unfolding encode_device_record_def by (intro no_auth_and_then no_auth_guarded digest) simp_all
  have json: "no_auth (decode_json b names)" for b names
    unfolding decode_json_def by (auto intro!: no_auth_guarded split: option.split json.split)
  have "no_auth (decode_device_record iso8601 H b)" for b
    unfolding decode_device_record_def by (intro no_auth_and_then json no_auth_rebuilt) auto
  then show "no_auth (read_device iso8601 H d i)"
    unfolding read_device_def
    by (intro no_auth_guarded) (auto simp: text_guard_def identifier_guard_def split: option.split)
qed

lemma no_auth_reading: "no_auth v \<Longrightarrow> (\<And>x. v = Inr x \<Longrightarrow> no_auth (fst (f x))) \<Longrightarrow> no_auth (fst (reading v f))"
  by (cases v) (simp_all add: no_auth_def reading_def)

lemma no_auth_storing: "no_auth v \<Longrightarrow> no_auth (fst r) \<Longrightarrow> no_auth (fst (storing p v r))"
  by (cases v) (simp_all add: no_auth_def storing_def)

lemma no_auth_ensuring:
  "\<forall>g \<in> set gs. no_auth (Inl (snd g) :: pairing_error + 'a) \<Longrightarrow> no_auth (fst r) \<Longrightarrow>
    no_auth (fst (ensuring gs (r :: 'a pairing_outcome)))"
  using raise_first_Some_member [of gs] by (fastforce simp: ensuring_def no_auth_def split: option.split)

lemmas no_auth_outcome = no_auth_reading no_auth_storing no_auth_ensuring

lemma wrong_answer_counted:
  assumes "pairing_inv d" and holds: "holds_code d (cr_pairing_id q) c"
    and wrong: "fst (consume iso8601 H token q d) = Inl (DockyardPairingAuthenticationError ''pairing_code'')"
  shows "\<exists>e. holds_code (commit (snd (consume iso8601 H token q d)) d) (cr_pairing_id q) e
    \<and> pc_failed_attempts e = pc_failed_attempts c + 1 \<and> pc_max_attempts e = pc_max_attempts c
    \<and> pc_failed_attempts e \<le> pc_max_attempts e"
proof -
  from auth_reading [OF wrong [unfolded consume_def] no_auth_files(3)] obtain found
    where found: "read_code iso8601 H d (cr_pairing_id q) = Inr found" by blast
  have "found = Some c"
  proof (cases found)
    case None
    with found read_code_None holds show ?thesis by (force simp: holds_code_def)
  next
    case (Some g)
    with found have "holds_code d (cr_pairing_id q) g" by (simp add: read_code_Inr)
    with holds holds_unique(1) Some show ?thesis by blast
  qed
  note c = found [unfolded this]
  have id: "pc_pairing_id c = cr_pairing_id q" using assms(1) holds by (simp add: pairing_inv_def)
  have open_code: "pc_consumed_at c = None" using wrong by (cases "pc_consumed_at c") (simp_all add: consume_def c)
  obtain now where now: "utc iso8601 (cr_consumed_at q) ''consume_time'' = Inr now"
    using auth_reading [OF _ no_auth_read(1)] wrong by (fastforce simp: consume_def c open_code)
  obtain created where created: "utc iso8601 (pc_created_at c) ''created_at'' = Inr created"
    using auth_reading [OF _ no_auth_read(1)] wrong by (fastforce simp: consume_def c open_code now)
  obtain expires where expires: "utc iso8601 (pc_expires_at c) ''expires_at'' = Inr expires"
    using auth_reading [OF _ no_auth_read(1)] wrong by (fastforce simp: consume_def c open_code now created)
  have pass: "raise_first
      [(now < created, DockyardPairingAuthenticationError ''clock_rollback''),
       (now > expires, DockyardPairingAuthenticationError ''pairing_expired''),
       (pc_failed_attempts c \<ge> pc_max_attempts c, DockyardPairingAuthenticationError ''pairing_exhausted'')] = None"
    using wrong by (auto simp: consume_def c open_code now created expires ensuring_def raise_first_Cons_Some split: option.split_asm)
  show ?thesis
  proof (cases "hash_secret H (cr_pairing_code q) = pc_code_verifier c")
    case True
    have "no_auth (fst (consume iso8601 H token q d))"
      unfolding consume_def c reading_Inr option.case now created expires
      using pass open_code True
      by (auto simp: no_auth_files intro!: no_auth_outcome no_auth_device no_auth_made)
    with wrong show ?thesis by (simp add: no_auth_def)
  next
    case False
    note eq = consume_def c open_code now created expires ensuring_pass [OF pass] False
    obtain e where e: "and_then (make_code iso8601 (c\<lparr>pc_failed_attempts := pc_failed_attempts c + 1,
        pc_last_operation_id := cr_operation_id q\<rparr>)) (with_code_digest iso8601 H) = Inr e"
      using auth_reading [OF _ no_auth_made] wrong by (fastforce simp: eq)
    obtain b where b: "encode_pairing_code_record iso8601 H e = Inr b"
      using auth_storing [OF _ no_auth_files(2)] wrong by (fastforce simp: eq e)
    have "snd (consume iso8601 H token q d) = [(CodeFile (cr_pairing_id q), b)]" by (simp add: eq e b id)
    moreover have "pc_failed_attempts e = pc_failed_attempts c + 1" "pc_max_attempts e = pc_max_attempts c"
      by (simp_all add: made_code [OF e])
    moreover have "pc_failed_attempts e \<le> pc_max_attempts e" using b make_code_Inr by (auto simp: encode_code_iff)
    ultimately show ?thesis using b
      by (auto simp: commit_simps holds_code_def dict_get_set encode_code_iff)
  qed
qed

text \<open>
  C17. Guessing is bounded.  However many consumptions, other operations and crashes follow the
  issue of a code, at most \<open>max_attempts\<close>, and never more than ten, wrong guesses at it are
  answered.
\<close>

theorem pairing_guesses_bounded:
  assumes "(pairing_step iso8601 H)\<^sup>*\<^sup>* [] d" and issued: "issue iso8601 H code q d = (Inr shown, ws)"
  shows "int (wrong_answers iso8601 H (ir_pairing_id q) ops (commit ws d)) \<le> ir_max_attempts q
    \<and> ir_max_attempts q \<le> 10"
proof -
  have bound: "int (wrong_answers iso8601 H i ops d) \<le> max 0 (pc_max_attempts c - pc_failed_attempts c)"
    if "pairing_inv d" "holds_code d i c" for i c d
    using that
  proof (induction ops arbitrary: d c)
    case (Cons step ops)
    obtain op k where step: "step = (op, k)" by (cases step)
    let ?d = "commit (take k (pairing_writes iso8601 H op d)) d"
    have run: "pairing_step iso8601 H d ?d" by (rule crash_step.run) simp
    then have inv: "pairing_inv ?d" using Cons.prems(1) by (rule pairing_step_inv)
    from pairing_codes.step_tracks [OF Cons.prems(1) run, of "(i, c)"] Cons.prems(2) obtain e
      where e: "holds_code ?d i e" "code_follows c e" by auto
    note rest = Cons.IH [OF inv e(1)]
    have le: "pc_max_attempts e - pc_failed_attempts e \<le> pc_max_attempts c - pc_failed_attempts c"
      using e(2) by (simp add: code_follows_def)
    show ?case
    proof (cases "\<exists>token r. op = Consume token r \<and> cr_pairing_id r = i \<and> length (pairing_writes iso8601 H op d) \<le> k
        \<and> fst (consume iso8601 H token r d) = Inl (DockyardPairingAuthenticationError ''pairing_code'')")
      case True
      then obtain token r where r: "op = Consume token r" "cr_pairing_id r = i" "length (pairing_writes iso8601 H op d) \<le> k"
        "fst (consume iso8601 H token r d) = Inl (DockyardPairingAuthenticationError ''pairing_code'')" by blast
      have whole: "?d = commit (snd (consume iso8601 H token r d)) d" using r(3) by (simp add: r(1) pairing_writes_def)
      from wrong_answer_counted [OF Cons.prems(1) Cons.prems(2) [folded r(2)] r(4)] obtain f where f: "holds_code ?d i f"
        "pc_failed_attempts f = pc_failed_attempts c + 1" "pc_max_attempts f = pc_max_attempts c"
        "pc_failed_attempts f \<le> pc_max_attempts f" unfolding whole r(2) by blast
      with holds_unique(1) [OF e(1)] have "e = f" by blast
      with rest f r show ?thesis by (simp add: step)
    next
      case False
      then have "wrong_answers iso8601 H i (step # ops) d = wrong_answers iso8601 H i ops ?d"
        by (auto simp: step split: pairing_op.split)
      with rest le show ?thesis by linarith
    qed
  qed simp
  have d: "pairing_inv d" using assms(1) by (rule paired_devices.steps_inv) (rule pairing_inv_empty)
  from issued obtain r b where r: "and_then (make_code iso8601
         \<lparr>pc_schema_version = PAIRING_SCHEMA, pc_pairing_id = ir_pairing_id q,
          pc_code_verifier = hash_secret H code, pc_created_at = ir_created_at q,
          pc_expires_at = ir_expires_at q, pc_consumed_at = None, pc_failed_attempts = 0,
          pc_max_attempts = ir_max_attempts q, pc_last_operation_id = ir_operation_id q,
          pc_content_digest = EMPTY_DIGEST\<rparr>) (with_code_digest iso8601 H) = Inr r"
    "encode_pairing_code_record iso8601 H r = Inr b" "ws = [(CodeFile (ir_pairing_id q), b)]"
    by (auto simp: issue_def res_simps simp del: and_then_Inr_iff)
  have holds: "holds_code (commit ws d) (ir_pairing_id q) r"
    using r(2,3) by (simp add: commit_simps holds_code_def dict_get_set encode_code_iff)
  have "pairing_step iso8601 H d (commit ws d)"
    using crash_step_whole [of "\<lambda>_. True" "Issue code q" "pairing_writes iso8601 H" d]
    by (simp add: pairing_writes_def issued)
  from bound [OF pairing_step_inv [OF this d] holds]
  have "int (wrong_answers iso8601 H (ir_pairing_id q) ops (commit ws d)) \<le> max 0 (ir_max_attempts q)"
    by (simp add: made_code [OF r(1)])
  moreover have "make_code iso8601 r = Inr r" using r(2) by (simp add: encode_code_iff)
  from make_code_Inr [OF this] have "0 \<le> ir_max_attempts q \<and> ir_max_attempts q \<le> 10"
    by (simp add: made_code [OF r(1)])
  ultimately show ?thesis by simp
qed

lemma authenticate_Inr:
  assumes "authenticate iso8601 H a d = (Inr res, ws)"
  obtains v where "read_device iso8601 H d (au_device_id a) = Inr (Some v)" "dv_revoked_at v = None"
    "hash_secret H (au_device_token a) = dv_token_verifier v" "au_required_scope a \<in> set (dv_scopes v)"
    "ar_granted_scope res = au_required_scope a"
    "(ar_replayed res \<and> ws = [] \<and> dv_last_operation_id v = au_operation_id a)
     \<or> (\<exists>now issued w b. \<not> ar_replayed res \<and> utc iso8601 (au_authenticated_at a) ''authenticated_at'' = Inr now
        \<and> utc iso8601 (dv_issued_at v) ''issued_at'' = Inr issued \<and> issued \<le> now
        \<and> update_device iso8601 H (au_operation_id a) (request_digest H ''authenticate''
              [au_device_id a, DockyardDeviceScope_value (au_required_scope a), au_authenticated_at a])
            (v\<lparr>dv_last_used_at := Some (au_authenticated_at a)\<rparr>) = Inr w
        \<and> encode_device_record iso8601 H w = Inr b \<and> ws = [(DeviceFile (dv_device_id v), b)]
        \<and> ar_generation res = dv_generation w)"
proof -
  from assms obtain v where v: "read_device iso8601 H d (au_device_id a) = Inr (Some v)"
    by (auto simp: authenticate_def Let_def res_simps split: option.split_asm)
  note auth = assms [unfolded authenticate_def Let_def v reading_Inr option.case ensuring_Inr_iff]
  show ?thesis
  proof (cases "dv_last_operation_id v = au_operation_id a")
    case True
    with auth v show ?thesis by (intro that [of v]) (auto simp: res_simps)
  next
    case False
    with auth v show ?thesis by (intro that [of v]) (auto simp: res_simps not_less)
  qed
qed

text \<open>
  Scopes and tokens are confined to the pairing.  Whenever a device authenticates, at any
  later time, the scope it is granted is among those its pairing request named, and the token it
  presented hashes like the one handed out then.
\<close>

theorem paired_scopes_confined:
  assumes "(pairing_step iso8601 H)\<^sup>*\<^sup>* [] d"
    and con: "consume iso8601 H token q d = (Inr x, ws)"
    and "(pairing_step iso8601 H)\<^sup>*\<^sup>* (commit ws d) d'"
    and auth: "authenticate iso8601 H a d' = (Inr res, us)" and "au_device_id a = cr_device_id q"
  shows "ar_granted_scope res \<in> set (cr_scopes q) \<and> H (au_device_token a) = H token"
proof -
  have d: "pairing_inv d" using assms(1) by (rule paired_devices.steps_inv) (rule pairing_inv_empty)
  obtain v tok where x: "x = (v, tok)" by (cases x)
  note paired = consume_commit [OF d con [unfolded x]]
  have "pairing_inv (commit ws d)" using pairing_step_inv [OF consume_step d, of iso8601 H token q] by (simp add: con)
  from paired_devices.steps_track [OF assms(3) this, of "(cr_device_id q, v)"] paired
  obtain w where w: "holds_device d' (cr_device_id q) w" "device_follows v w" by auto
  from auth obtain u where u: "read_device iso8601 H d' (cr_device_id q) = Inr (Some u)"
    "hash_secret H (au_device_token a) = dv_token_verifier u" "au_required_scope a \<in> set (dv_scopes u)"
    "ar_granted_scope res = au_required_scope a"
    by (rule authenticate_Inr) (simp add: assms(5))
  from u(1) have "holds_device d' (cr_device_id q) u" by (simp add: read_device_Inr)
  with w(1) holds_unique(2) have "u = w" by blast
  with u w(2) paired show ?thesis by (simp add: device_follows_def hash_secret_def)
qed

text \<open>
  What an authentication checks and records: the device is known and not revoked, the token
  and the scope are right; a repeated operation is answered from the record, any other must not
  be earlier than the pairing, and advances the generation by one.
\<close>

theorem authenticate_sound:
  assumes "pairing_inv d" and auth: "authenticate iso8601 H a d = (Inr res, ws)"
  shows "\<exists>v. read_device iso8601 H d (au_device_id a) = Inr (Some v) \<and> dv_revoked_at v = None
    \<and> hash_secret H (au_device_token a) = dv_token_verifier v \<and> au_required_scope a \<in> set (dv_scopes v)
    \<and> (if ar_replayed res then ws = [] \<and> dv_last_operation_id v = au_operation_id a
       else \<exists>w now issued. holds_device (commit ws d) (au_device_id a) w
         \<and> dv_generation w = dv_generation v + 1 \<and> ar_generation res = dv_generation w
         \<and> dv_last_used_at w = Some (au_authenticated_at a) \<and> dv_last_operation_id w = au_operation_id a
         \<and> utc iso8601 (au_authenticated_at a) ''authenticated_at'' = Inr now
         \<and> utc iso8601 (dv_issued_at v) ''issued_at'' = Inr issued \<and> issued \<le> now)"
proof (rule authenticate_Inr [OF auth])
  fix v assume v: "read_device iso8601 H d (au_device_id a) = Inr (Some v)" "dv_revoked_at v = None"
    "hash_secret H (au_device_token a) = dv_token_verifier v" "au_required_scope a \<in> set (dv_scopes v)"
    and alt: "(ar_replayed res \<and> ws = [] \<and> dv_last_operation_id v = au_operation_id a)
     \<or> (\<exists>now issued w b. \<not> ar_replayed res \<and> utc iso8601 (au_authenticated_at a) ''authenticated_at'' = Inr now
        \<and> utc iso8601 (dv_issued_at v) ''issued_at'' = Inr issued \<and> issued \<le> now
        \<and> update_device iso8601 H (au_operation_id a) (request_digest H ''authenticate''
              [au_device_id a, DockyardDeviceScope_value (au_required_scope a), au_authenticated_at a])
            (v\<lparr>dv_last_used_at := Some (au_authenticated_at a)\<rparr>) = Inr w
        \<and> encode_device_record iso8601 H w = Inr b \<and> ws = [(DeviceFile (dv_device_id v), b)]
        \<and> ar_generation res = dv_generation w)"
  have "holds_device d (au_device_id a) v" using v(1) by (simp add: read_device_Inr)
  with assms(1) have id: "dv_device_id v = au_device_id a" by (simp add: pairing_inv_def)
  have updated: "dv_generation w = dv_generation v + 1 \<and> dv_last_used_at w = Some (au_authenticated_at a)
      \<and> dv_last_operation_id w = au_operation_id a"
    if "update_device iso8601 H (au_operation_id a) g (v\<lparr>dv_last_used_at := Some (au_authenticated_at a)\<rparr>) = Inr w" for g w
    by (subst (1 2 3) update_device_Inr [OF that]) simp
  from alt show ?thesis
  proof
    assume "ar_replayed res \<and> ws = [] \<and> dv_last_operation_id v = au_operation_id a"
    with v show ?thesis by auto
  next
    assume "\<exists>now issued w b. \<not> ar_replayed res \<and> utc iso8601 (au_authenticated_at a) ''authenticated_at'' = Inr now
        \<and> utc iso8601 (dv_issued_at v) ''issued_at'' = Inr issued \<and> issued \<le> now
        \<and> update_device iso8601 H (au_operation_id a) (request_digest H ''authenticate''
              [au_device_id a, DockyardDeviceScope_value (au_required_scope a), au_authenticated_at a])
            (v\<lparr>dv_last_used_at := Some (au_authenticated_at a)\<rparr>) = Inr w
        \<and> encode_device_record iso8601 H w = Inr b \<and> ws = [(DeviceFile (dv_device_id v), b)]
        \<and> ar_generation res = dv_generation w"
    then obtain now issued w b where fresh: "\<not> ar_replayed res"
      "utc iso8601 (au_authenticated_at a) ''authenticated_at'' = Inr now"
      "utc iso8601 (dv_issued_at v) ''issued_at'' = Inr issued" "issued \<le> now"
      "encode_device_record iso8601 H w = Inr b" "ws = [(DeviceFile (dv_device_id v), b)]" "ar_generation res = dv_generation w"
      and w: "dv_generation w = dv_generation v + 1" "dv_last_used_at w = Some (au_authenticated_at a)"
        "dv_last_operation_id w = au_operation_id a" using updated by blast
    have "holds_device (commit ws d) (au_device_id a) w"
      using fresh(5,6) by (simp add: commit_simps holds_device_def dict_get_set id encode_device_iff)
    with v fresh w show ?thesis by auto
  qed
qed

section \<open>Witnesses\<close>

lemma distinct_singleton: "distinct xs \<Longrightarrow> set xs = {x} \<Longrightarrow> xs = [x]"
  by (cases xs rule: remdups_adj.cases) auto

lemma sample_store:
  obtains d ws v where "(pairing_step sample_clock pairing_hash)\<^sup>*\<^sup>* [] d"
    "consume sample_clock pairing_hash ''token'' sample_consume d = (Inr (v, ''token''), ws)"
    "(pairing_step sample_clock pairing_hash)\<^sup>*\<^sup>* [] (commit ws d)"
    "read_device sample_clock pairing_hash (commit ws d) ''D-1'' = Inr (Some v)" "v = sample_device (dv_content_digest v)"
    "raise_first (verifier_guard (dv_content_digest v) ''device_content_digest'') = None"
    "device_names (commit ws d) = [''D-1'']"
proof -
  from sample_paired obtain d v ws us where d: "(pairing_step sample_clock pairing_hash)\<^sup>*\<^sup>* [] d"
    and con: "consume sample_clock pairing_hash ''token'' sample_consume d = (Inr (v, ''token''), ws)"
    and v: "v = sample_device (dv_content_digest v)" "length (dv_content_digest v) = 71"
    and enc: "encode_device_record sample_clock pairing_hash v = Inr (canonical (device_pairs v True))"
    and us: "issue sample_clock pairing_hash ''code'' sample_issue [] = (Inr ''code'', us)" "commit us [] = d"
    by metis
  have inv: "pairing_inv d" using d by (rule paired_devices.steps_inv) (rule pairing_inv_empty)
  have step: "pairing_step sample_clock pairing_hash d (commit ws d)"
    using consume_step [of sample_clock pairing_hash d "''token''" sample_consume] by (simp add: con)
  with d have reach: "(pairing_step sample_clock pairing_hash)\<^sup>*\<^sup>* [] (commit ws d)" by (rule rtranclp.rtrancl_into_rtrancl)
  from consume_commit [OF inv con] have holds: "holds_device (commit ws d) ''D-1'' v" by (simp add: sample_consume_def)
  then have read: "read_device sample_clock pairing_hash (commit ws d) ''D-1'' = Inr (Some v)"
    by (simp add: read_device_Inr sample_ids enc sample_device_short [OF v(2,1)])
  have digest: "raise_first (verifier_guard (dv_content_digest v) ''device_content_digest'') = None"
    using enc hash_verifier by (simp add: encode_device_iff)
  have one: "dict_get (commit ws d) (DeviceFile i) \<noteq> None \<longleftrightarrow> i = ''D-1''" for i
  proof -
    have "dict_get d (DeviceFile i) = None"
      using sample_issued us by (auto simp: commit_simps dict_get_set)
    moreover have "dv_device_id v = ''D-1''" by (subst v(1)) (simp add: sample_device_def)
    moreover have "\<exists>b c f. ws = [(DeviceFile (dv_device_id v), b), (CodeFile c, f)]"
      by (rule consume_Inr [OF con]) (simp del: and_then_Inr_iff)
    ultimately show ?thesis by (auto simp: commit_simps dict_get_set split: if_split_asm)
  qed
  have "set (device_names (commit ws d)) = {''D-1''}"
    by (intro set_eqI) (simp only: device_names_iff one singleton_iff)
  moreover have "distinct (device_names (commit ws d))"
    using pairing_step_inv [OF step inv] by (simp add: pairing_inv_def device_names_distinct)
  ultimately have "device_names (commit ws d) = [''D-1'']"
    by (metis distinct_singleton)
  from that [OF d con reach read v(1) digest this] show ?thesis .
qed

lemma sample_update:
  assumes v: "v = sample_device (dv_content_digest v)"
    and "raise_first (verifier_guard (dv_content_digest v) ''device_content_digest'') = None"
  obtains w x where "update_device sample_clock pairing_hash ''OP-3'' (request_digest pairing_hash action values)
      (v\<lparr>dv_revoked_at := Some ''2026-01-01T00:05:00Z''\<rparr>) = Inr w" "dv_revoked_at w \<noteq> None"
    "encode_device_record sample_clock pairing_hash w = Inr (canonical (device_pairs w True))"
    "update_device sample_clock pairing_hash ''OP-3'' (request_digest pairing_hash action values)
      (v\<lparr>dv_last_used_at := Some ''2026-01-01T00:05:00Z''\<rparr>) = Inr x"
    "encode_device_record sample_clock pairing_hash x = Inr (canonical (device_pairs x True))"
proof -
  have none: "dv_last_used_at v = None" "dv_revoked_at v = None" by (subst v, simp add: sample_device_def)+
  have "v\<lparr>dv_last_used_at := None, dv_revoked_at := r\<rparr> = v\<lparr>dv_revoked_at := r\<rparr>"
    "v\<lparr>dv_last_used_at := r, dv_revoked_at := None\<rparr> = v\<lparr>dv_last_used_at := r\<rparr>" for r
    using none by (cases v; simp)+
  with that sample_device_updated [OF v assms(2), of None "Some ''2026-01-01T00:05:00Z''"]
    sample_device_updated [OF v assms(2), of "Some ''2026-01-01T00:05:00Z''" None] show ?thesis by (metis insertCI option.discI)
qed

definition sample_revoke :: DockyardRevokeDeviceRequest where
  "sample_revoke = \<lparr>rv_device_id = ''D-1'', rv_expected_generation = 1, rv_revoked_at = ''2026-01-01T00:05:00Z'',
     rv_operation_id = ''OP-3''\<rparr>"

definition sample_authenticate :: DockyardAuthenticateRequest where
  "sample_authenticate = \<lparr>au_device_id = ''D-1'', au_device_token = ''token'', au_required_scope = READ,
     au_authenticated_at = ''2026-01-01T00:05:00Z'', au_operation_id = ''OP-3''\<rparr>"

lemma sample_device_fields:
  assumes "v = sample_device (dv_content_digest v)"
  shows "dv_device_id v = ''D-1''" "dv_revoked_at v = None" "dv_last_used_at v = None" "dv_generation v = 1"
    "dv_last_operation_id v = ''OP-2''" "dv_issued_at v = ''2026-01-01T00:05:00Z''" "dv_scopes v = [APPROVE, READ]"
    "dv_token_verifier v = hash_secret pairing_hash ''token''"
  by (subst assms, simp add: sample_device_def)+

lemma sample_operations:
  assumes read: "read_device sample_clock pairing_hash d ''D-1'' = Inr (Some v)"
    and v: "v = sample_device (dv_content_digest v)"
    and digest: "raise_first (verifier_guard (dv_content_digest v) ''device_content_digest'') = None"
    and names: "device_names d = [''D-1'']"
  shows "\<exists>w ws. revoke_device sample_clock pairing_hash sample_revoke d = (Inr w, ws) \<and> dv_revoked_at w \<noteq> None"
    and "\<exists>ws us. revoke_all sample_clock pairing_hash ''2026-01-01T00:05:00Z'' ''OP-3'' d = (Inr us, ws)"
    and "\<exists>res ws. authenticate sample_clock pairing_hash sample_authenticate d = (Inr res, ws)"
proof -
  note fields = sample_device_fields [OF v]
  note ops = read fields sample_times sample_ids prepend_def returning_def
  show "\<exists>w ws. revoke_device sample_clock pairing_hash sample_revoke d = (Inr w, ws) \<and> dv_revoked_at w \<noteq> None"
    by (rule sample_update [OF v digest, of "''revoke''" "[''D-1'', show_int 1, ''2026-01-01T00:05:00Z'']"])
      (simp add: revoke_device_def sample_revoke_def ops del: and_then_Inr_iff)
  have stored: "dict_get d (DeviceFile ''D-1'') = Some (canonical (device_pairs v True))"
    "decode_device_record sample_clock pairing_hash (canonical (device_pairs v True)) = Inr v"
    using read by (simp_all add: read_device_Inr holds_device_def decode_device_iff)
  show "\<exists>ws us. revoke_all sample_clock pairing_hash ''2026-01-01T00:05:00Z'' ''OP-3'' d = (Inr us, ws)"
    by (rule sample_update [OF v digest, of "''revoke_all''" "[''D-1'', ''2026-01-01T00:05:00Z'', ''OP-3'']"])
      (simp add: revoke_all_def names stored ops del: and_then_Inr_iff)
  show "\<exists>res ws. authenticate sample_clock pairing_hash sample_authenticate d = (Inr res, ws)"
    by (rule sample_update [OF v digest, of "''authenticate''" "[''D-1'', ''READ'', ''2026-01-01T00:05:00Z'']"])
      (simp add: authenticate_def sample_authenticate_def Let_def ops del: and_then_Inr_iff)
qed


theorem revoked_device_locked_out_witness:
  "\<exists>d v ws e. revoke_device sample_clock pairing_hash sample_revoke d = (Inr v, ws)
    \<and> authenticate sample_clock pairing_hash (sample_authenticate\<lparr>au_device_id := rv_device_id sample_revoke\<rparr>)
        (commit ws d) = (Inl e, [])"
proof -
  from sample_store obtain d v where d: "(pairing_step sample_clock pairing_hash)\<^sup>*\<^sup>* [] d"
    and v: "read_device sample_clock pairing_hash d ''D-1'' = Inr (Some v)" "v = sample_device (dv_content_digest v)"
      "raise_first (verifier_guard (dv_content_digest v) ''device_content_digest'') = None"
      "device_names d = [''D-1'']" by metis
  from sample_operations(1) [OF v] obtain w ws where
    "revoke_device sample_clock pairing_hash sample_revoke d = (Inr w, ws)" "dv_revoked_at w \<noteq> None" by blast
  with revoked_device_locked_out [OF d this rtranclp.rtrancl_refl] show ?thesis by blast
qed

theorem revoke_all_complete_witness:
  "\<exists>d vs ws e. revoke_all sample_clock pairing_hash ''2026-01-01T00:05:00Z'' ''OP-3'' d = (Inr vs, ws)
    \<and> authenticate sample_clock pairing_hash (sample_authenticate\<lparr>au_device_id := ''D-1''\<rparr>) (commit ws d) = (Inl e, [])"
proof -
  from sample_store obtain d v where d: "(pairing_step sample_clock pairing_hash)\<^sup>*\<^sup>* [] d"
    and v: "read_device sample_clock pairing_hash d ''D-1'' = Inr (Some v)" "v = sample_device (dv_content_digest v)"
      "raise_first (verifier_guard (dv_content_digest v) ''device_content_digest'') = None"
      "device_names d = [''D-1'']" by metis
  from sample_operations(2) [OF v] obtain vs ws where
    rev: "revoke_all sample_clock pairing_hash ''2026-01-01T00:05:00Z'' ''OP-3'' d = (Inr vs, ws)" by blast
  have "dict_get d (DeviceFile ''D-1'') \<noteq> None" using v(1) by (simp add: read_device_Inr holds_device_def)
  then have "dict_get (commit ws d) (DeviceFile ''D-1'') \<noteq> None"
    by (induction ws arbitrary: d) (auto simp: commit_simps dict_get_set split: if_splits)
  with rev revoke_all_complete [OF d rev this rtranclp.rtrancl_refl] show ?thesis by blast
qed

theorem pairing_guesses_bounded_witness:
  "\<exists>ws. issue sample_clock pairing_hash ''code'' sample_issue [] = (Inr ''code'', ws)
    \<and> wrong_answers sample_clock pairing_hash ''P-1''
        (replicate 5 (Consume ''token'' (sample_consume\<lparr>cr_pairing_code := ''guess''\<rparr>), 9)) (commit ws []) \<le> 3"
proof -
  from sample_issued obtain ws where ws: "issue sample_clock pairing_hash ''code'' sample_issue [] = (Inr ''code'', ws)" by blast
  from pairing_guesses_bounded [OF rtranclp.rtrancl_refl ws] have
    "int (wrong_answers sample_clock pairing_hash ''P-1''
        (replicate 5 (Consume ''token'' (sample_consume\<lparr>cr_pairing_code := ''guess''\<rparr>), 9)) (commit ws [])) \<le> 3"
    by (simp only: sample_issue_def DockyardPairingIssueRequest.simps)
  with ws show ?thesis by auto
qed

theorem paired_scopes_confined_witness:
  "\<exists>d d' res us v ws. consume sample_clock pairing_hash ''token'' sample_consume d = (Inr v, ws)
    \<and> authenticate sample_clock pairing_hash sample_authenticate d' = (Inr res, us)
    \<and> ar_granted_scope res \<in> {APPROVE, READ}"
proof -
  from sample_store obtain d ws v where d: "(pairing_step sample_clock pairing_hash)\<^sup>*\<^sup>* [] d"
    "consume sample_clock pairing_hash ''token'' sample_consume d = (Inr (v, ''token''), ws)"
    and v: "read_device sample_clock pairing_hash (commit ws d) ''D-1'' = Inr (Some v)" "v = sample_device (dv_content_digest v)"
      "raise_first (verifier_guard (dv_content_digest v) ''device_content_digest'') = None"
      "device_names (commit ws d) = [''D-1'']" by metis
  from sample_operations(3) [OF v] obtain res us where
    auth: "authenticate sample_clock pairing_hash sample_authenticate (commit ws d) = (Inr res, us)" by blast
  have "au_device_id sample_authenticate = cr_device_id sample_consume" by (simp add: sample_authenticate_def sample_consume_def)
  from paired_scopes_confined [OF d rtranclp.rtrancl_refl auth this] have "ar_granted_scope res \<in> {APPROVE, READ}"
    by (simp add: sample_consume_def)
  with d(2) auth show ?thesis by blast
qed

theorem authenticate_sound_witness:
  "\<exists>d res ws v. authenticate sample_clock pairing_hash sample_authenticate d = (Inr res, ws)
    \<and> read_device sample_clock pairing_hash d (au_device_id sample_authenticate) = Inr (Some v) \<and> dv_revoked_at v = None"
proof -
  from sample_store obtain d v where d: "(pairing_step sample_clock pairing_hash)\<^sup>*\<^sup>* [] d"
    and v: "read_device sample_clock pairing_hash d ''D-1'' = Inr (Some v)" "v = sample_device (dv_content_digest v)"
      "raise_first (verifier_guard (dv_content_digest v) ''device_content_digest'') = None"
      "device_names d = [''D-1'']" by metis
  from sample_operations(3) [OF v] obtain res ws where
    auth: "authenticate sample_clock pairing_hash sample_authenticate d = (Inr res, ws)" by blast
  have "pairing_inv d" using d by (rule paired_devices.steps_inv) (rule pairing_inv_empty)
  from authenticate_sound [OF this auth] auth show ?thesis by blast
qed

end
