(* ===== verification/Event_Stream.thy ===== *)
theory Event_Stream
  imports Framing Json
begin

text \<open>
  The event stream of the local control plane (\<open>dockyard_sse.py\<close>): a bounded backlog of numbered
  events for each project, replayed from a cursor, and a bounded number of open streams; and the
  request handler that opens a stream (\<open>_events\<close> of \<open>dockyard_control_api.py\<close>).

  The hub's lock makes \<open>publish\<close> and \<open>replay\<close> atomic.  The semaphore is the number of its
  free permits.  \<open>H\<close> is \<open>hashlib.sha256(...).hexdigest\<close>, \<open>iso8601\<close> is
  \<open>datetime.fromisoformat\<close>.
\<close>

section \<open>Events\<close>

datatype sse_error =
    DockyardSseInputError string
  | DockyardSseCursorError string
  | DockyardSseCapacityError string

definition EVENT_TYPES :: "string list" where
  "EVENT_TYPES = [''snapshot.changed'', ''task.changed'', ''run.changed'', ''approval.changed'', ''review.changed'',
     ''provider.changed'', ''project.changed'', ''health.changed'']"

definition sse_text :: "string \<Rightarrow> string \<Rightarrow> (bool \<times> sse_error) list" where
  "sse_text s field =
    [(s = [] \<or> s \<noteq> py_strip s, DockyardSseInputError (field @ '' must be a non-empty trimmed str'')),
     (list_ex (\<lambda>c. (of_char c :: nat) < 32) s, DockyardSseInputError (field @ '' contains a control character''))]"

definition sse_timestamp :: "clock \<Rightarrow> string \<Rightarrow> (bool \<times> sse_error) list" where
  "sse_timestamp iso8601 s = sse_text s ''occurred_at'' @
    (let candidate = if s \<noteq> [] \<and> last s = CHR ''Z'' then butlast s @ ''+00:00'' else s;
         bad = DockyardSseInputError ''occurred_at must be RFC3339 UTC''
     in [(case iso8601 candidate of Some (_, Some offset) \<Rightarrow> offset \<noteq> 0 | _ \<Rightarrow> True, bad)])"

definition sse_sha :: "string \<Rightarrow> nat \<Rightarrow> string \<Rightarrow> (bool \<times> sse_error) list" where
  "sse_sha s n field = [(\<not> lower_hex n s, DockyardSseInputError (field @ '' has an invalid digest''))]"

record DockyardSseEvent =
  ev_schema_version :: string
  ev_cursor :: int
  ev_project_id :: string
  ev_type :: string
  ev_snapshot_commit :: string
  ev_resource_id :: string
  ev_occurred_at :: string
  ev_content_digest :: string

definition EVENT_SCHEMA :: string where
  "EVENT_SCHEMA = ''dockyard.sse-event/v1''"

definition make_event :: "clock \<Rightarrow> DockyardSseEvent \<Rightarrow> sse_error + DockyardSseEvent" where
  "make_event iso8601 e = guarded
     ([(ev_schema_version e \<noteq> EVENT_SCHEMA, DockyardSseInputError ''schema_version is invalid''),
       (ev_cursor e < 1, DockyardSseInputError ''event_cursor must be a positive int'')] @
      sse_text (ev_project_id e) ''project_id'' @
      [(ev_type e \<notin> set EVENT_TYPES, DockyardSseInputError ''event_type is invalid'')] @
      sse_sha (ev_snapshot_commit e) 40 ''snapshot_commit'' @ sse_text (ev_resource_id e) ''resource_id'' @
      sse_timestamp iso8601 (ev_occurred_at e) @ sse_sha (ev_content_digest e) 64 ''content_digest'')
     (Inr e)"

fun unit_separated :: "string list \<Rightarrow> string" where
  "unit_separated [] = []"
| "unit_separated [s] = s"
| "unit_separated (s # ss) = s @ [CHR 0x1F] @ unit_separated ss"

definition event_digest :: "(string \<Rightarrow> string) \<Rightarrow> int \<Rightarrow> string \<Rightarrow> string \<Rightarrow> string \<Rightarrow> string \<Rightarrow> string \<Rightarrow> string" where
  "event_digest H cursor project_id event_type snapshot_commit resource_id occurred_at =
     H (unit_separated [show_int cursor, project_id, event_type, snapshot_commit, resource_id, occurred_at])"

definition event_pairs :: "DockyardSseEvent \<Rightarrow> (string \<times> json) list" where
  "event_pairs e =
    [(''schema_version'', JStr (ev_schema_version e)), (''event_cursor'', JInt (ev_cursor e)),
     (''project_id'', JStr (ev_project_id e)), (''event_type'', JStr (ev_type e)),
     (''snapshot_commit'', JStr (ev_snapshot_commit e)), (''resource_id'', JStr (ev_resource_id e)),
     (''occurred_at'', JStr (ev_occurred_at e)), (''content_digest'', JStr (ev_content_digest e))]"

definition encode_sse_event :: "DockyardSseEvent \<Rightarrow> string" where
  "encode_sse_event e =
     ''id: '' @ show_int (ev_cursor e) @ [CHR 0x0A] @ ''event: '' @ ev_type e @ [CHR 0x0A] @
     ''data: '' @ dumps (JObj (event_pairs e)) @ [CHR 0x0A, CHR 0x0A]"

section \<open>The hub\<close>

record DockyardSseHub =
  max_backlog :: nat
  max_streams :: nat
  backlog :: "(string, DockyardSseEvent list) dict"
  free_streams :: nat

definition new_hub :: "int \<Rightarrow> int \<Rightarrow> sse_error + DockyardSseHub" where
  "new_hub n m = guarded
     [(n < 1, DockyardSseInputError ''max_backlog must be positive''),
      (m < 1, DockyardSseInputError ''max_streams must be positive'')]
     (Inr \<lparr>max_backlog = nat n, max_streams = nat m, backlog = [], free_streams = nat m\<rparr>)"

text \<open>\<open>self._events.get(project_id, ())\<close>, and \<open>xs[-n:]\<close>.\<close>

definition project_events :: "DockyardSseHub \<Rightarrow> string \<Rightarrow> DockyardSseEvent list" where
  "project_events hub p = (case dict_get (backlog hub) p of None \<Rightarrow> [] | Some es \<Rightarrow> es)"

definition last_n :: "nat \<Rightarrow> 'a list \<Rightarrow> 'a list" where
  "last_n n xs = drop (length xs - n) xs"

record sse_publication =
  sp_project_id :: string
  sp_event_type :: string
  sp_snapshot_commit :: string
  sp_resource_id :: string
  sp_occurred_at :: string

definition publication_guards :: "clock \<Rightarrow> sse_publication \<Rightarrow> (bool \<times> sse_error) list" where
  "publication_guards iso8601 q = sse_text (sp_project_id q) ''project_id'' @
     [(sp_event_type q \<notin> set EVENT_TYPES, DockyardSseInputError ''event_type is invalid'')] @
     sse_sha (sp_snapshot_commit q) 40 ''snapshot_commit'' @ sse_text (sp_resource_id q) ''resource_id'' @
     sse_timestamp iso8601 (sp_occurred_at q)"

definition new_event :: "(string \<Rightarrow> string) \<Rightarrow> int \<Rightarrow> sse_publication \<Rightarrow> DockyardSseEvent" where
  "new_event H cursor q =
    \<lparr>ev_schema_version = EVENT_SCHEMA, ev_cursor = cursor, ev_project_id = sp_project_id q, ev_type = sp_event_type q,
     ev_snapshot_commit = sp_snapshot_commit q, ev_resource_id = sp_resource_id q, ev_occurred_at = sp_occurred_at q,
     ev_content_digest = event_digest H cursor (sp_project_id q) (sp_event_type q) (sp_snapshot_commit q)
       (sp_resource_id q) (sp_occurred_at q)\<rparr>"

definition publish ::
  "clock \<Rightarrow> (string \<Rightarrow> string) \<Rightarrow> sse_publication \<Rightarrow> DockyardSseHub \<Rightarrow> sse_error + DockyardSseEvent \<times> DockyardSseHub"
where
  "publish iso8601 H q hub = guarded (publication_guards iso8601 q)
    (let previous = project_events hub (sp_project_id q);
         cursor = (if previous = [] then 1 else ev_cursor (last previous) + 1)
     in and_then (make_event iso8601 (new_event H cursor q)) (\<lambda>event.
          Inr (event, hub\<lparr>backlog := dict_set (sp_project_id q)
             (last_n (max_backlog hub) (previous @ [event])) (backlog hub)\<rparr>)))"

definition replay :: "DockyardSseHub \<Rightarrow> string \<Rightarrow> int \<Rightarrow> sse_error + DockyardSseEvent list" where
  "replay hub p after = guarded
    (sse_text p ''project_id'' @ [(after < 0, DockyardSseInputError ''after_cursor must be a non-negative int'')])
    (let events = project_events hub p
     in if events = [] then guarded [(after \<noteq> 0, DockyardSseCursorError ''cursor is ahead of the stream'')] (Inr [])
        else guarded
          [(after > ev_cursor (last events), DockyardSseCursorError ''cursor is ahead of the stream''),
           (after < ev_cursor (hd events) - 1, DockyardSseCursorError ''cursor fell behind the bounded backlog'')]
          (Inr (filter (\<lambda>e. ev_cursor e > after) events)))"

text \<open>
  The loop of \<open>wait_for_events\<close>: each time round it looks at the hub of that moment, and then at
  the monotonic clock.  The moments are an argument; \<open>None\<close> when the loop is still waiting after them.
\<close>

fun wait_loop :: "string \<Rightarrow> int \<Rightarrow> int \<Rightarrow> (DockyardSseHub \<times> int) list \<Rightarrow> (sse_error + DockyardSseEvent list) option" where
  "wait_loop p after deadline [] = None"
| "wait_loop p after deadline ((hub, now) # moments) = (case replay hub p after of
      Inl e \<Rightarrow> Some (Inl e)
    | Inr events \<Rightarrow> if events \<noteq> [] then Some (Inr events)
        else if deadline - now \<le> 0 then Some (Inr [])
        else wait_loop p after deadline moments)"

definition wait_for_events ::
  "string \<Rightarrow> int \<Rightarrow> int \<Rightarrow> int \<Rightarrow> (DockyardSseHub \<times> int) list \<Rightarrow> (sse_error + DockyardSseEvent list) option"
where
  "wait_for_events p after timeout start moments =
     (if timeout \<le> 0 then Some (Inl (DockyardSseInputError ''timeout_seconds must be positive''))
      else wait_loop p after (start + timeout) moments)"

definition acquire_stream :: "DockyardSseHub \<Rightarrow> sse_error + DockyardSseHub" where
  "acquire_stream hub = guarded [(free_streams hub = 0, DockyardSseCapacityError ''stream capacity is exhausted'')]
     (Inr (hub\<lparr>free_streams := free_streams hub - 1\<rparr>))"

text \<open>A bounded semaphore raises \<open>ValueError\<close> when it is released too often: \<open>None\<close>.\<close>

definition release_stream :: "DockyardSseHub \<Rightarrow> DockyardSseHub option" where
  "release_stream hub = (if free_streams hub \<ge> max_streams hub then None
     else Some (hub\<lparr>free_streams := free_streams hub + 1\<rparr>))"

section \<open>Opening a stream\<close>

datatype api_error = ApiError nat string | ApiInternal sse_error

text \<open>\<open>int(text)\<close> on ASCII text: blanks around, a sign, digits with single underscores between them.\<close>

fun underscored :: "bool \<Rightarrow> string \<Rightarrow> string option" where
  "underscored digit [] = (if digit then Some [] else None)"
| "underscored digit (c # s) =
     (if is_digit c then map_option ((#) c) (underscored True s)
      else if c = CHR ''_'' \<and> digit then underscored False s
      else None)"

definition py_int :: "string \<Rightarrow> int option" where
  "py_int s = (case py_strip s of
      [] \<Rightarrow> None
    | c # t \<Rightarrow>
        if c = CHR ''-'' then map_option (\<lambda>ds. - int (read_digits ds)) (underscored False t)
        else if c = CHR ''+'' then map_option (\<lambda>ds. int (read_digits ds)) (underscored False t)
        else map_option (\<lambda>ds. int (read_digits ds)) (underscored False (c # t)))"

text \<open>
  The handler up to the response line: what the client asked for is the value of the
  \<open>Accept\<close> header's test, its \<open>Last-Event-ID\<close> and the parsed query.  The result comes with
  the hub afterwards; a granted stream holds its permit until \<open>release_stream\<close>.
\<close>

definition requested_cursor ::
  "bool \<Rightarrow> string option \<Rightarrow> (string, string list) dict \<Rightarrow> api_error + int"
where
  "requested_cursor accepts header query =
    (let query_cursor = (case dict_get query ''after'' of Some (v # _) \<Rightarrow> Some v | _ \<Rightarrow> None);
         cursor_text = (case header of Some h \<Rightarrow> Some h | None \<Rightarrow> query_cursor)
     in guarded
       [(\<not> accepts, ApiError 406 ''SSE_ACCEPT_REQUIRED''),
        (list_ex (\<lambda>k. k \<noteq> ''after'') (dict_keys query), ApiError 400 ''SSE_QUERY_INVALID''),
        (header \<noteq> None \<and> query_cursor \<noteq> None \<and> header \<noteq> query_cursor, ApiError 409 ''SSE_CURSOR_DIVERGENT'')]
       (case cursor_text of None \<Rightarrow> Inr 0
        | Some text \<Rightarrow> (case py_int text of None \<Rightarrow> Inl (ApiError 400 ''SSE_CURSOR_INVALID'') | Some c \<Rightarrow> Inr c)))"

definition open_stream ::
  "bool \<Rightarrow> string option \<Rightarrow> (string, string list) dict \<Rightarrow> string \<Rightarrow> DockyardSseHub \<Rightarrow>
   (api_error + int \<times> DockyardSseEvent list) \<times> DockyardSseHub"
where
  "open_stream accepts header query p hub = (case requested_cursor accepts header query of
      Inl e \<Rightarrow> (Inl e, hub)
    | Inr cursor \<Rightarrow> (case acquire_stream hub of
        Inl _ \<Rightarrow> (Inl (ApiError 503 ''SSE_CAPACITY''), hub)
      | Inr held \<Rightarrow> (case replay held p cursor of
          Inl (DockyardSseCursorError _) \<Rightarrow> (Inl (ApiError 409 ''SSE_CURSOR_STALE''), held)
        | Inl e \<Rightarrow> (Inl (ApiInternal e), held)
        | Inr events \<Rightarrow> (Inr (cursor, events), held))))"

text \<open>What is written to the client: the events, or a comment line when there are none.\<close>

definition stream_bytes :: "DockyardSseEvent list \<Rightarrow> string" where
  "stream_bytes events = concat (map encode_sse_event events) @
     (if events = [] then '': idle'' @ [CHR 0x0A, CHR 0x0A] else [])"

section \<open>Runs\<close>

text \<open>
  A run of the hub, with the events published so far and the number of streams that were granted
  and are not closed yet.
\<close>

inductive sse_step ::
  "clock \<Rightarrow> (string \<Rightarrow> string) \<Rightarrow> DockyardSseHub \<times> DockyardSseEvent list \<times> nat \<Rightarrow> DockyardSseHub \<times> DockyardSseEvent list \<times> nat \<Rightarrow> bool"
  for iso8601 H
where
  published: "publish iso8601 H q hub = Inr (e, hub') \<Longrightarrow> sse_step iso8601 H (hub, log, n) (hub', log @ [e], n)"
| granted: "open_stream a header query p hub = (Inr r, hub') \<Longrightarrow> sse_step iso8601 H (hub, log, n) (hub', log, Suc n)"
| refused: "open_stream a header query p hub = (Inl e, hub') \<Longrightarrow> sse_step iso8601 H (hub, log, n) (hub', log, n)"
| closed: "release_stream hub = Some hub' \<Longrightarrow> sse_step iso8601 H (hub, log, Suc n) (hub', log, n)"

inductive_cases sse_stepE: "sse_step iso8601 H s t"

definition history :: "DockyardSseEvent list \<Rightarrow> string \<Rightarrow> DockyardSseEvent list" where
  "history log p = filter (\<lambda>e. ev_project_id e = p) log"

definition sse_initial :: "DockyardSseHub \<times> DockyardSseEvent list \<times> nat \<Rightarrow> bool" where
  "sse_initial s \<longleftrightarrow> (\<exists>k m hub. s = (hub, [], 0) \<and> new_hub k m = Inr hub)"

definition sse_inv :: "DockyardSseHub \<times> DockyardSseEvent list \<times> nat \<Rightarrow> bool" where
  "sse_inv s = (case s of (hub, log, n) \<Rightarrow>
     0 < max_backlog hub \<and> free_streams hub + n \<le> max_streams hub
     \<and> (\<forall>p. project_events hub p = last_n (max_backlog hub) (history log p)
            \<and> map ev_cursor (history log p) = map int [1..<length (history log p) + 1]))"

lemma last_n_snoc: "0 < n \<Longrightarrow> last_n n (last_n n xs @ [x]) = last_n n (xs @ [x])"
  by (cases "length xs < n") (auto simp: last_n_def Suc_diff_le not_less)

lemma last_n_Nil: "0 < n \<Longrightarrow> last_n n xs = [] \<longleftrightarrow> xs = []"
  by (cases xs) (auto simp: last_n_def)

lemma last_last_n: "0 < n \<Longrightarrow> xs \<noteq> [] \<Longrightarrow> last (last_n n xs) = last xs"
  by (simp add: last_n_def last_drop)

lemma history_snoc: "history (log @ [e]) p = (if ev_project_id e = p then history log p @ [e] else history log p)"
  by (simp add: history_def)

lemma last_cursor:
  assumes "map ev_cursor h = map int [1..<length h + 1]" and "h \<noteq> []"
  shows "ev_cursor (last h) = int (length h)"
proof -
  have "ev_cursor (last h) = last (map ev_cursor h)" using assms(2) by (simp add: last_map)
  also have "\<dots> = int (length h)" unfolding assms(1) using assms(2) by (cases h) (simp_all add: last_map)
  finally show ?thesis .
qed

lemma make_event_Inr: "make_event iso8601 e = Inr f \<Longrightarrow> f = e"
  by (auto simp: make_event_def res_simps)

lemma publish_Inr:
  assumes "publish iso8601 H q hub = Inr (e, hub')"
  obtains "e = new_event H (if project_events hub (sp_project_id q) = [] then 1
       else ev_cursor (last (project_events hub (sp_project_id q))) + 1) q"
    "hub' = hub\<lparr>backlog := dict_set (sp_project_id q)
       (last_n (max_backlog hub) (project_events hub (sp_project_id q) @ [e])) (backlog hub)\<rparr>"
  using assms by (auto simp: publish_def res_simps Let_def dest: make_event_Inr)

lemma publish_events:
  "project_events (hub\<lparr>backlog := dict_set k es (backlog hub)\<rparr>) p = (if p = k then es else project_events hub p)"
  by (simp add: project_events_def dict_get_set)

lemma project_events_streams [simp]: "project_events (hub\<lparr>free_streams := n\<rparr>) p = project_events hub p"
  by (simp add: project_events_def)

lemma replay_streams [simp]: "replay (hub\<lparr>free_streams := n\<rparr>) p c = replay hub p c"
  by (simp add: replay_def)

lemma open_stream_cases:
  assumes "open_stream a header query p hub = (r, hub')"
  obtains e where "r = Inl e" "hub' = hub"
  | cursor where "requested_cursor a header query = Inr cursor" "free_streams hub > 0"
      "hub' = hub\<lparr>free_streams := free_streams hub - 1\<rparr>"
      "\<And>e. r = Inl e \<Longrightarrow> \<exists>x. replay hub p cursor = Inl x"
      "\<And>x. r = Inr x \<Longrightarrow> \<exists>es. x = (cursor, es) \<and> replay hub p cursor = Inr es"
proof (cases "requested_cursor a header query")
  case (Inl e)
  with assms that(1) show ?thesis by (auto simp: open_stream_def)
next
  case (Inr cursor)
  show ?thesis
  proof (cases "free_streams hub = 0")
    case True
    with assms Inr that(1) show ?thesis by (auto simp: open_stream_def acquire_stream_def)
  next
    case False
    note held = assms [unfolded open_stream_def Inr sum.case acquire_stream_def]
    show ?thesis
    proof (rule that(2) [OF Inr])
      show "hub' = hub\<lparr>free_streams := free_streams hub - 1\<rparr>"
        using held False by (auto split: sum.split_asm sse_error.split_asm)
      show "\<exists>x. replay hub p cursor = Inl x" if "r = Inl e" for e
        using held False that by (auto split: sum.split_asm)
      show "\<exists>es. x = (cursor, es) \<and> replay hub p cursor = Inr es" if "r = Inr x" for x
        using held False that by (auto split: sum.split_asm sse_error.split_asm)
    qed (use False in simp)
  qed
qed

lemma sse_step_inv:
  assumes "sse_inv s" and "sse_step iso8601 H s t"
  shows "sse_inv t"
  using assms(2)
proof (cases rule: sse_step.cases)
  case (published q hub e hub' log n)
  from published(3) show ?thesis
  proof (rule publish_Inr)
    let ?p = "sp_project_id q" and ?h = "history log (sp_project_id q)"
    assume e: "e = new_event H (if project_events hub ?p = [] then 1 else ev_cursor (last (project_events hub ?p)) + 1) q"
      and hub': "hub' = hub\<lparr>backlog := dict_set ?p (last_n (max_backlog hub) (project_events hub ?p @ [e])) (backlog hub)\<rparr>"
    from assms(1) have pos: "0 < max_backlog hub" "free_streams hub + n \<le> max_streams hub"
      and h: "\<And>p. project_events hub p = last_n (max_backlog hub) (history log p)"
        "\<And>p. map ev_cursor (history log p) = map int [1..<length (history log p) + 1]"
      by (simp_all add: published(1) sse_inv_def)
    have id: "ev_project_id e = ?p" by (simp add: e new_event_def)
    have "ev_cursor e = int (length ?h) + 1"
      using last_cursor [OF h(2)] by (simp add: e new_event_def h(1) last_n_Nil pos last_last_n)
    then have "map ev_cursor (history (log @ [e]) p) = map int [1..<length (history (log @ [e]) p) + 1]" for p
      using h(2) [of p] by (auto simp: history_snoc id)
    moreover have "project_events hub' p = last_n (max_backlog hub) (history (log @ [e]) p)" for p
      by (simp add: hub' publish_events history_snoc id h(1) last_n_snoc pos(1))
    ultimately show ?thesis using pos by (simp add: published(2) sse_inv_def hub')
  qed
next
  case (granted a header query p hub r hub' log n)
  from granted(3) show ?thesis
    by (rule open_stream_cases) (use assms(1) in \<open>auto simp: granted sse_inv_def\<close>)
next
  case (refused a header query p hub e hub' log n)
  from refused(3) show ?thesis
    by (rule open_stream_cases) (use assms(1) in \<open>auto simp: refused sse_inv_def\<close>)
next
  case (closed hub hub' log n)
  with assms(1) show ?thesis by (auto simp: sse_inv_def release_stream_def split: if_split_asm)
qed

interpretation sse: invariant_system sse_initial "sse_step iso8601 H" sse_inv for iso8601 H
proof unfold_locales
  show "sse_inv s" if "sse_initial s" for s
    using that by (auto simp: sse_initial_def sse_inv_def new_hub_def res_simps project_events_def history_def last_n_def)
qed (rule sse_step_inv)

section \<open>Replay\<close>

text \<open>What a subscriber may rely on, over everything ever published in the project.\<close>

definition replay_spec :: "nat \<Rightarrow> DockyardSseEvent list \<Rightarrow> int \<Rightarrow> sse_error + DockyardSseEvent list" where
  "replay_spec n h c =
    (if c > int (length h) then Inl (DockyardSseCursorError ''cursor is ahead of the stream'')
     else if c < int (length h) - int n then Inl (DockyardSseCursorError ''cursor fell behind the bounded backlog'')
     else Inr (drop (nat c) h))"

lemma cursor_nth:
  assumes "map ev_cursor h = map int [1..<length h + 1]" and "i < length h"
  shows "ev_cursor (h ! i) = int i + 1"
proof -
  have "ev_cursor (h ! i) = map ev_cursor h ! i" using assms(2) by simp
  also have "\<dots> = int i + 1" unfolding assms(1) using assms(2) by (simp del: upt_Suc)
  finally show ?thesis .
qed

lemma filter_after:
  assumes h: "map ev_cursor h = map int [1..<length h + 1]" and "k \<le> c" and "c \<le> length h"
  shows "filter (\<lambda>e. ev_cursor e > int c) (drop k h) = drop c h"
proof -
  have split: "drop k h = take (c - k) (drop k h) @ drop c h"
    using append_take_drop_id [of "c - k" "drop k h"] assms(2) by simp
  have "filter (\<lambda>e. ev_cursor e > int c) (take (c - k) (drop k h)) = []"
    using assms(2,3) by (auto simp: filter_empty_conv in_set_conv_nth cursor_nth [OF h])
  moreover have "filter (\<lambda>e. ev_cursor e > int c) (drop c h) = drop c h"
    using assms(3) by (auto simp: filter_id_conv in_set_conv_nth cursor_nth [OF h])
  ultimately show ?thesis by (subst split) simp
qed

text \<open>
  C14. A replay is exact.  Whatever was published and however many streams were opened before,
  replaying a project from a cursor returns precisely the events published in it after that
  cursor, in order and without a gap, unless the cursor is ahead of the stream or so old that the
  bounded backlog has dropped an event after it, and then it says so.
\<close>

theorem sse_replay_exact:
  assumes "reachable_from sse_initial (sse_step iso8601 H) (hub, log, n)"
    and p: "raise_first (sse_text p ''project_id'') = None" and c: "0 \<le> c"
  shows "replay hub p c = replay_spec (max_backlog hub) (history log p) c"
proof -
  let ?h = "history log p" and ?m = "max_backlog hub"
  from sse.reachable_inv [OF assms(1)] have m: "0 < ?m"
    and es: "project_events hub p = last_n ?m ?h" and h: "map ev_cursor ?h = map int [1..<length ?h + 1]"
    by (simp_all add: sse_inv_def)
  have pass: "raise_first (sse_text p ''project_id'' @
      [(c < 0, DockyardSseInputError ''after_cursor must be a non-negative int'')]) = None" using p c by simp
  show ?thesis
  proof (cases "?h = []")
    case True
    then have none: "project_events hub p = []" by (simp add: es last_n_Nil m)
    have "replay hub p c = guarded [(c \<noteq> 0, DockyardSseCursorError ''cursor is ahead of the stream'')] (Inr [])"
      unfolding replay_def guarded_pass [OF pass] by (simp add: none)
    with c True show ?thesis by (cases "c = 0") (simp_all add: replay_spec_def)
  next
    case False
    have "last (last_n ?m ?h) = last ?h" using m False by (rule last_last_n)
    then have last: "ev_cursor (last (last_n ?m ?h)) = int (length ?h)" by (simp add: last_cursor [OF h False])
    have "hd (last_n ?m ?h) = ?h ! (length ?h - ?m)"
      using m False by (simp add: last_n_def hd_drop_conv_nth)
    then have hd: "ev_cursor (hd (last_n ?m ?h)) = int (length ?h - ?m) + 1"
      using m False by (simp add: cursor_nth [OF h])
    have "replay hub p c = guarded
          [(c > int (length ?h), DockyardSseCursorError ''cursor is ahead of the stream''),
           (c < int (length ?h - ?m), DockyardSseCursorError ''cursor fell behind the bounded backlog'')]
          (Inr (filter (\<lambda>e. ev_cursor e > c) (last_n ?m ?h)))"
      by (simp add: replay_def guarded_pass [OF pass] es last_n_Nil m False last hd)
    also have "\<dots> = replay_spec ?m ?h c"
    proof (cases "int (length ?h - ?m) \<le> c \<and> c \<le> int (length ?h)")
      case True
      then have "length ?h - ?m \<le> nat c" "nat c \<le> length ?h" by (simp_all only: le_nat_iff [OF c] nat_le_iff)
      then have "filter (\<lambda>e. ev_cursor e > c) (last_n ?m ?h) = drop (nat c) ?h"
        using filter_after [OF h, of "length ?h - ?m" "nat c"] c by (simp add: last_n_def)
      with True show ?thesis by (auto simp: replay_spec_def guarded_def)
    next
      case False
      with c show ?thesis by (auto simp: replay_spec_def guarded_def raise_first.simps)
    qed
    finally show ?thesis .
  qed
qed

text \<open>
  Streams are bounded: never more are open than the hub allows, and closing a granted stream
  always gives its permit back.
\<close>

theorem sse_streams_bounded:
  assumes "reachable_from sse_initial (sse_step iso8601 H) (hub, log, n)"
  shows "n \<le> max_streams hub
    \<and> (0 < n \<longrightarrow> release_stream hub = Some (hub\<lparr>free_streams := free_streams hub + 1\<rparr>))"
  using sse.reachable_inv [OF assms] by (auto simp: sse_inv_def release_stream_def)

lemma stale_open:
  assumes "requested_cursor a header query = Inr c" and "replay hub p c = Inl (DockyardSseCursorError m)" and "0 < free_streams hub"
  shows "open_stream a header query p hub = (Inl (ApiError 409 ''SSE_CURSOR_STALE''), hub\<lparr>free_streams := free_streams hub - 1\<rparr>)"
  using assms by (simp add: open_stream_def acquire_stream_def)

lemma stale_opens:
  assumes "requested_cursor a header query = Inr c" and "replay hub p c = Inl (DockyardSseCursorError m)" and "k \<le> free_streams hub"
  shows "((\<lambda>hub. snd (open_stream a header query p hub)) ^^ k) hub = hub\<lparr>free_streams := free_streams hub - k\<rparr>"
  using assms(3)
proof (induction k)
  case (Suc k)
  then have "((\<lambda>hub. snd (open_stream a header query p hub)) ^^ k) hub = hub\<lparr>free_streams := free_streams hub - k\<rparr>" by simp
  with stale_open [OF assms(1), of "hub\<lparr>free_streams := free_streams hub - k\<rparr>"] assms(2) Suc.prems show ?case by simp
qed simp

lemma no_permit_step:
  assumes "sse_step iso8601 H s t" and "free_streams (fst s) = 0" and "snd (snd s) = 0"
  shows "free_streams (fst t) = 0 \<and> snd (snd t) = 0"
  using assms
  by (cases rule: sse_step.cases) (auto elim!: publish_Inr open_stream_cases)

text \<open>
  A permit is lost with every stale cursor: the handler acquires the stream before it replays
  and leaves without releasing it.  After as many such requests as streams were free, while
  nothing is open, no request is ever served again.
\<close>

theorem stale_cursors_exhaust_streams:
  assumes stale: "requested_cursor a header query = Inr c" "replay hub p c = Inl (DockyardSseCursorError m)"
    and later: "(sse_step iso8601 H)\<^sup>*\<^sup>*
        (((\<lambda>hub. snd (open_stream a header query p hub)) ^^ free_streams hub) hub, log, 0) (hub', log', n)"
    and "requested_cursor a' header' query' = Inr c'"
  shows "open_stream a' header' query' p' hub' = (Inl (ApiError 503 ''SSE_CAPACITY''), hub')"
proof -
  have "free_streams (fst t) = 0 \<and> snd (snd t) = 0"
    if "(sse_step iso8601 H)\<^sup>*\<^sup>* s t" "free_streams (fst s) = 0" "snd (snd s) = 0" for s t
    using that by (induction rule: rtranclp_induct) (auto dest: no_permit_step)
  from this [OF later] have "free_streams hub' = 0" by (simp add: stale_opens [OF stale])
  with assms(4) show ?thesis by (simp add: open_stream_def acquire_stream_def)
qed

section \<open>The wire format\<close>

lemma line_cancel: "x @ c # s = y @ c # t \<Longrightarrow> c \<notin> set x \<Longrightarrow> c \<notin> set y \<Longrightarrow> x = y \<and> s = t"
  by (auto simp: append_eq_append_conv2 append_eq_Cons_conv Cons_eq_append_conv)

lemma show_int_no_newline: "CHR 0x0A \<notin> set (show_int i)"
proof -
  have "CHR 0x0A \<notin> set (show_nat n)" for n
    using show_nat_digits [of n] by (auto simp: list_all_iff is_digit_def)
  then show ?thesis by (simp add: show_int_def)
qed

lemma quote_no_newline: "CHR 0x0A \<notin> set (json_quote s)"
proof -
  have hex: "CHR 0x0A \<noteq> hex_digit n" if "n < 16" for n
  proof
    assume eq: "CHR 0x0A = hex_digit n"
    have "of_char (hex_digit n) = (10 :: nat)" by (simp flip: eq)
    with that show False by (auto simp: hex_digit_def split: if_split_asm)
  qed
  have "CHR 0x0A \<notin> set (json_escape c)" for c
    by (auto simp: json_escape_def hex)
  then show ?thesis by (auto simp: json_quote_def)
qed

lemma joined_set: "set (joined ss) \<subseteq> {CHR '',''} \<union> \<Union> (set ` set ss)"
  by (induction ss rule: joined.induct) auto

lemma event_line: "CHR 0x0A \<notin> set (dumps (JObj (event_pairs e)))"
  using joined_set show_int_no_newline quote_no_newline
  by (fastforce simp: event_pairs_def)

lemma encode_cancel:
  assumes "make_event iso8601 e = Inr e" and "make_event iso8601 f = Inr f"
    and eq: "encode_sse_event e @ s = encode_sse_event f @ t"
  shows "e = f \<and> s = t"
proof -
  have type: "CHR 0x0A \<notin> set (ev_type g)" if "make_event iso8601 g = Inr g" for g
    using that by (auto simp: make_event_def res_simps EVENT_TYPES_def)
  have id: "show_int (ev_cursor e) @ CHR 0x0A # ''event: '' @ ev_type e @ CHR 0x0A # ''data: '' @
        dumps (JObj (event_pairs e)) @ CHR 0x0A # CHR 0x0A # s =
      show_int (ev_cursor f) @ CHR 0x0A # ''event: '' @ ev_type f @ CHR 0x0A # ''data: '' @
        dumps (JObj (event_pairs f)) @ CHR 0x0A # CHR 0x0A # t"
    using eq by (simp add: encode_sse_event_def)
  from line_cancel [OF this show_int_no_newline show_int_no_newline]
  have "ev_type e @ CHR 0x0A # ''data: '' @ dumps (JObj (event_pairs e)) @ CHR 0x0A # CHR 0x0A # s =
      ev_type f @ CHR 0x0A # ''data: '' @ dumps (JObj (event_pairs f)) @ CHR 0x0A # CHR 0x0A # t" by simp
  from line_cancel [OF this type type] assms(1,2)
  have "dumps (JObj (event_pairs e)) @ CHR 0x0A # CHR 0x0A # s = dumps (JObj (event_pairs f)) @ CHR 0x0A # CHR 0x0A # t" by simp
  from line_cancel [OF this event_line event_line]
  have "dumps (JObj (event_pairs e)) = dumps (JObj (event_pairs f)) \<and> s = t" by simp
  moreover have "json_ok (JObj (event_pairs g))" for g by (simp add: event_pairs_def)
  ultimately have "event_pairs e = event_pairs f \<and> s = t" using dumps_inject by blast
  then show ?thesis by (simp add: event_pairs_def)
qed

text \<open>
  What is written to a client can be read back only one way: no text inside an event, however
  it is chosen, can end the event, start another or change one.
\<close>

theorem sse_wire_unambiguous:
  assumes "\<forall>e \<in> set es. make_event iso8601 e = Inr e" and "\<forall>e \<in> set fs. make_event iso8601 e = Inr e"
    and "stream_bytes es = stream_bytes fs"
  shows "es = fs"
proof -
  have idle: "encode_sse_event e @ s \<noteq> CHR '':'' # t" for e s t by (simp add: encode_sse_event_def)
  have "es = fs" if "concat (map encode_sse_event es) = concat (map encode_sse_event fs)"
    using assms(1,2) that
  proof (induction es arbitrary: fs)
    case Nil
    then show ?case by (cases fs) (simp_all add: encode_sse_event_def)
  next
    case (Cons e es)
    then obtain f gs where fs: "fs = f # gs" by (cases fs) (simp_all add: encode_sse_event_def)
    with Cons.prems have "e = f \<and> concat (map encode_sse_event es) = concat (map encode_sse_event gs)"
      by (intro encode_cancel) auto
    with Cons.IH [of gs] Cons.prems fs show ?case by simp
  qed
  with assms(3) idle show ?thesis
    by (cases es; cases fs) (auto simp: stream_bytes_def dest: sym)
qed

section \<open>Witnesses\<close>

definition sse_clock :: clock where
  "sse_clock s = (if s = ''2026-01-01T00:00:00+00:00'' then Some (0, Some 0) else None)"

definition sse_hash :: "string \<Rightarrow> string" where
  "sse_hash s = replicate 64 (CHR ''a'')"

definition sample_publication :: sse_publication where
  "sample_publication = \<lparr>sp_project_id = ''P'', sp_event_type = ''task.changed'', sp_snapshot_commit = replicate 40 (CHR ''b''),
     sp_resource_id = ''TC-1'', sp_occurred_at = ''2026-01-01T00:00:00Z''\<rparr>"

definition sample_event :: "int \<Rightarrow> DockyardSseEvent" where
  "sample_event c = new_event sse_hash c sample_publication"

text \<open>A hub with room for one event and one stream, after the latest event.\<close>

definition sample_hub :: "DockyardSseEvent list \<Rightarrow> DockyardSseHub" where
  "sample_hub es = \<lparr>max_backlog = 1, max_streams = 1, backlog = (if es = [] then [] else [(''P'', es)]), free_streams = 1\<rparr>"

lemma sample_publish:
  "publish sse_clock sse_hash sample_publication (sample_hub []) = Inr (sample_event 1, sample_hub [sample_event 1])"
  "publish sse_clock sse_hash sample_publication (sample_hub [sample_event 1]) = Inr (sample_event 2, sample_hub [sample_event 2])"
  by code_simp+

lemma sample_hub_reachable:
  "reachable_from sse_initial (sse_step sse_clock sse_hash) (sample_hub [sample_event 2], [sample_event 1, sample_event 2], 0)"
proof -
  have "sse_initial (sample_hub [], [], 0)"
    unfolding sse_initial_def by (intro exI [of _ 1] exI [of _ "sample_hub []"]) (simp add: new_hub_def sample_hub_def)
  then have "reachable_from sse_initial (sse_step sse_clock sse_hash) (sample_hub [], [], 0)" by (rule reachable_from.intros)
  from reachable_from.intros(2) [OF this sse_step.published [OF sample_publish(1)]]
  have "reachable_from sse_initial (sse_step sse_clock sse_hash) (sample_hub [sample_event 1], [sample_event 1], 0)" by simp
  from reachable_from.intros(2) [OF this sse_step.published [OF sample_publish(2)]] show ?thesis by simp
qed

lemma sample_stale:
  "requested_cursor True (Some ''0'') [] = Inr 0"
  "replay (sample_hub [sample_event 2]) ''P'' 0 = Inl (DockyardSseCursorError ''cursor fell behind the bounded backlog'')"
  by code_simp+

theorem sse_replay_exact_witness:
  "replay (sample_hub [sample_event 2]) ''P'' 1 = Inr [sample_event 2]"
proof -
  have "raise_first (sse_text ''P'' ''project_id'') = None" by code_simp
  from sse_replay_exact [OF sample_hub_reachable this, of 1]
  have "replay (sample_hub [sample_event 2]) ''P'' 1 =
    replay_spec (max_backlog (sample_hub [sample_event 2])) (history [sample_event 1, sample_event 2] ''P'') 1" by simp
  also have "\<dots> = Inr [sample_event 2]" by code_simp
  finally show ?thesis .
qed

theorem sse_streams_bounded_witness:
  "\<exists>hub. open_stream True (Some ''1'') [] ''P'' (sample_hub [sample_event 2]) = (Inr (1, [sample_event 2]), hub)
    \<and> release_stream hub = Some (sample_hub [sample_event 2])"
proof -
  let ?hub = "(sample_hub [sample_event 2])\<lparr>free_streams := 0\<rparr>"
  have opened: "open_stream True (Some ''1'') [] ''P'' (sample_hub [sample_event 2]) = (Inr (1, [sample_event 2]), ?hub)"
    by code_simp
  have "?hub\<lparr>free_streams := free_streams ?hub + 1\<rparr> = sample_hub [sample_event 2]" by (simp add: sample_hub_def)
  with sse_streams_bounded [OF reachable_from.intros(2) [OF sample_hub_reachable sse_step.granted [OF opened]]] opened
  show ?thesis by auto
qed

theorem stale_cursors_exhaust_streams_witness:
  "\<exists>hub. hub = snd (open_stream True (Some ''0'') [] ''P'' (sample_hub [sample_event 2]))
    \<and> open_stream True None [] ''P'' hub = (Inl (ApiError 503 ''SSE_CAPACITY''), hub)"
proof -
  have one: "free_streams (sample_hub [sample_event 2]) = Suc 0" by (simp add: sample_hub_def)
  have "requested_cursor True None [] = Inr 0" by code_simp
  from stale_cursors_exhaust_streams [OF sample_stale rtranclp.rtrancl_refl this] show ?thesis
    by (simp add: one)
qed

theorem sse_wire_unambiguous_witness:
  "\<exists>es. stream_bytes es = stream_bytes [sample_event 1, sample_event 2] \<and> es = [sample_event 1, sample_event 2]"
proof -
  have "make_event sse_clock (sample_event 1) = Inr (sample_event 1)" "make_event sse_clock (sample_event 2) = Inr (sample_event 2)"
    by code_simp+
  then have "\<forall>e \<in> set [sample_event 1, sample_event 2]. make_event sse_clock e = Inr e" by simp
  from sse_wire_unambiguous [OF this this refl] show ?thesis by blast
qed

end
