(* ===== verification/Active_Execution.thy ===== *)
theory Active_Execution
  imports Framing
begin

text \<open>
  The in-process registry of running dispatches (\<open>dockyard_active_execution.py\<close>): who runs, and
  who may cancel it.  A registration object is a reference into the list of all registrations
  ever made, so that ``the same object is still registered'' can be said.  A cancellation takes
  the lock twice, before and after its callback; what the callback returns, or \<open>None\<close> when it
  raises, is an argument of the second part.  \<open>H\<close> is \<open>hashlib.sha256(...).hexdigest\<close>.
\<close>

section \<open>Records\<close>

datatype active_error =
    DockyardActiveExecutionInputError string
  | DockyardActiveExecutionConflictError string
  | DockyardActiveExecutionNotFoundError string
  | DockyardActiveExecutionCallbackError string

definition ACTIVE_SCHEMA :: string where
  "ACTIVE_SCHEMA = ''dockyard.active-execution/v1''"

definition active_text :: "string \<Rightarrow> string \<Rightarrow> nat \<Rightarrow> (bool \<times> active_error) list" where
  "active_text s field maximum =
     [(\<not> text_ok maximum s, DockyardActiveExecutionInputError (''active_execution:'' @ field))]"

definition active_positive :: "int \<Rightarrow> string \<Rightarrow> (bool \<times> active_error) list" where
  "active_positive v field = [(v < 1, DockyardActiveExecutionInputError (''active_execution:'' @ field))]"

definition active_sha :: "string \<Rightarrow> string \<Rightarrow> (bool \<times> active_error) list" where
  "active_sha s field = active_text s field 64 @
     [(\<not> lower_hex 64 s, DockyardActiveExecutionInputError (''active_execution:'' @ field))]"

definition identity_digest :: "(string \<Rightarrow> string) \<Rightarrow> string list \<Rightarrow> string" where
  "identity_digest H values = H (frames values)"

record DockyardActiveExecutionIdentity =
  ai_schema_version :: string
  ai_task_id :: string
  ai_revision :: int
  ai_attempt :: int
  ai_dispatch_id :: string
  ai_generation_id :: string
  ai_registered_at :: string
  ai_content_digest :: string

definition identity_values :: "DockyardActiveExecutionIdentity \<Rightarrow> string list" where
  "identity_values i = [ai_schema_version i, ai_task_id i, show_int (ai_revision i), show_int (ai_attempt i),
     ai_dispatch_id i, ai_generation_id i, ai_registered_at i]"

definition make_identity ::
  "(string \<Rightarrow> string) \<Rightarrow> DockyardActiveExecutionIdentity \<Rightarrow> active_error + DockyardActiveExecutionIdentity"
where
  "make_identity H i = guarded
     ([(ai_schema_version i \<noteq> ACTIVE_SCHEMA, DockyardActiveExecutionInputError ''active_execution:schema'')] @
      active_text (ai_task_id i) ''task_id'' 256 @ active_positive (ai_revision i) ''revision'' @
      active_positive (ai_attempt i) ''attempt'' @ active_text (ai_dispatch_id i) ''dispatch_id'' 256 @
      active_text (ai_generation_id i) ''generation_id'' 256 @ active_text (ai_registered_at i) ''registered_at'' 256 @
      active_sha (ai_content_digest i) ''content_digest'' @
      [(ai_content_digest i \<noteq> identity_digest H (identity_values i), DockyardActiveExecutionInputError ''active_execution:digest'')])
     (Inr i)"

definition make_active_execution_identity ::
  "(string \<Rightarrow> string) \<Rightarrow> string \<Rightarrow> int \<Rightarrow> int \<Rightarrow> string \<Rightarrow> string \<Rightarrow> string \<Rightarrow>
   active_error + DockyardActiveExecutionIdentity"
where
  "make_active_execution_identity H task_id revision attempt dispatch_id generation_id registered_at =
    (let i = \<lparr>ai_schema_version = ACTIVE_SCHEMA, ai_task_id = task_id, ai_revision = revision, ai_attempt = attempt,
       ai_dispatch_id = dispatch_id, ai_generation_id = generation_id, ai_registered_at = registered_at,
       ai_content_digest = []\<rparr>
     in make_identity H (i\<lparr>ai_content_digest := identity_digest H (identity_values i)\<rparr>))"

record DockyardActiveCancellationCommand =
  ac_operation_id :: string
  ac_task_id :: string
  ac_revision :: int
  ac_attempt :: int
  ac_dispatch_id :: string
  ac_generation_id :: string
  ac_expected_snapshot_commit :: string
  ac_event_id :: string
  ac_requested_at :: string

definition make_command ::
  "DockyardActiveCancellationCommand \<Rightarrow> active_error + DockyardActiveCancellationCommand"
where
  "make_command c = guarded
     (active_text (ac_operation_id c) ''operation_id'' 256 @ active_text (ac_task_id c) ''task_id'' 256 @
      active_text (ac_dispatch_id c) ''dispatch_id'' 256 @ active_text (ac_generation_id c) ''generation_id'' 256 @
      active_text (ac_event_id c) ''event_id'' 256 @ active_text (ac_requested_at c) ''requested_at'' 256 @
      active_positive (ac_revision c) ''revision'' @ active_positive (ac_attempt c) ''attempt'' @
      active_text (ac_expected_snapshot_commit c) ''expected_snapshot_commit'' 40 @
      [(\<not> lower_hex 40 (ac_expected_snapshot_commit c),
        DockyardActiveExecutionInputError ''active_execution:expected_snapshot_commit'')])
     (Inr c)"

record DockyardActiveCancellationOutcome =
  ao_task_id :: string
  ao_dispatch_id :: string
  ao_event_id :: string
  ao_completed_at :: string

definition make_outcome ::
  "DockyardActiveCancellationOutcome \<Rightarrow> active_error + DockyardActiveCancellationOutcome"
where
  "make_outcome r = guarded
     (active_text (ao_task_id r) ''task_id'' 256 @ active_text (ao_dispatch_id r) ''dispatch_id'' 256 @
      active_text (ao_event_id r) ''event_id'' 256 @ active_text (ao_completed_at r) ''completed_at'' 256)
     (Inr r)"

section \<open>The registry\<close>

datatype DockyardActiveExecutionState = ACTIVE | CANCELLING

record 'c registration =
  rg_identity :: DockyardActiveExecutionIdentity
  rg_callback :: 'c
  rg_state :: DockyardActiveExecutionState

text \<open>\<open>entries\<close> is the dictionary of the registry; \<open>registrations\<close> are all objects ever made.\<close>

record 'c registry =
  entries :: "(string, nat) dict"
  registrations :: "'c registration list"

definition empty_registry :: "'c registry" where
  "empty_registry = \<lparr>entries = [], registrations = []\<rparr>"

definition register ::
  "DockyardActiveExecutionIdentity \<Rightarrow> 'c \<Rightarrow> 'c registry \<Rightarrow>
   active_error + (DockyardActiveExecutionIdentity \<times> bool) \<times> 'c registry"
where
  "register i callback r = (case dict_get (entries r) (ai_dispatch_id i) of
      Some ref \<Rightarrow> (let existing = rg_identity (registrations r ! ref) in guarded
        [(existing \<noteq> i, DockyardActiveExecutionConflictError ''active_execution:divergent_registration'')]
        (Inr ((existing, True), r)))
    | None \<Rightarrow> Inr ((i, False), r
        \<lparr>entries := dict_set (ai_dispatch_id i) (length (registrations r)) (entries r),
         registrations := registrations r @ [\<lparr>rg_identity = i, rg_callback = callback, rg_state = ACTIVE\<rparr>]\<rparr>))"

definition snapshot :: "'c registry \<Rightarrow> DockyardActiveExecutionIdentity list" where
  "snapshot r = map (\<lambda>key. rg_identity (registrations r ! the (dict_get (entries r) key))) (sort (dict_keys (entries r)))"

definition complete ::
  "string \<Rightarrow> string \<Rightarrow> 'c registry \<Rightarrow> active_error + bool \<times> 'c registry"
where
  "complete dispatch_id generation_id r = guarded
     (active_text dispatch_id ''dispatch_id'' 256 @ active_text generation_id ''generation_id'' 256)
     (case dict_get (entries r) dispatch_id of
        None \<Rightarrow> Inr (False, r)
      | Some ref \<Rightarrow>
          if ai_generation_id (rg_identity (registrations r ! ref)) \<noteq> generation_id then Inr (False, r)
          else Inr (True, r\<lparr>entries := dict_del dispatch_id (entries r)\<rparr>))"

text \<open>The command names exactly the registered execution.\<close>

definition same_execution :: "DockyardActiveCancellationCommand \<Rightarrow> DockyardActiveExecutionIdentity \<Rightarrow> bool" where
  "same_execution c i \<longleftrightarrow> ac_task_id c = ai_task_id i \<and> ac_revision c = ai_revision i
     \<and> ac_attempt c = ai_attempt i \<and> ac_generation_id c = ai_generation_id i"

definition set_state :: "nat \<Rightarrow> DockyardActiveExecutionState \<Rightarrow> 'c registry \<Rightarrow> 'c registry" where
  "set_state ref state r = r\<lparr>registrations := (registrations r)[ref := (registrations r ! ref)\<lparr>rg_state := state\<rparr>]\<rparr>"

text \<open>\<open>cancel\<close> up to its callback: the registration to cancel, now \<open>CANCELLING\<close>.\<close>

definition cancel_begin :: "DockyardActiveCancellationCommand \<Rightarrow> 'c registry \<Rightarrow> active_error + nat \<times> 'c registry" where
  "cancel_begin c r = (case dict_get (entries r) (ac_dispatch_id c) of
      None \<Rightarrow> Inl (DockyardActiveExecutionNotFoundError ''active_execution:not_found'')
    | Some ref \<Rightarrow> guarded
        [(\<not> same_execution c (rg_identity (registrations r ! ref)),
            DockyardActiveExecutionConflictError ''active_execution:identity_divergence''),
         (rg_state (registrations r ! ref) \<noteq> ACTIVE,
            DockyardActiveExecutionConflictError ''active_execution:cancellation_in_progress'')]
        (Inr (ref, set_state ref CANCELLING r)))"

text \<open>\<open>cancel\<close> after its callback, which returned \<open>result\<close> or raised.\<close>

definition cancel_end ::
  "DockyardActiveCancellationCommand \<Rightarrow> nat \<Rightarrow> DockyardActiveCancellationOutcome option \<Rightarrow> 'c registry \<Rightarrow>
   (active_error + DockyardActiveCancellationOutcome) \<times> 'c registry"
where
  "cancel_end c ref result r =
    (let i = rg_identity (registrations r ! ref);
         current = dict_get (entries r) (ac_dispatch_id c);
         accepted = (case result of None \<Rightarrow> None
           | Some outcome \<Rightarrow> if ao_task_id outcome \<noteq> ai_task_id i \<or> ao_dispatch_id outcome \<noteq> ai_dispatch_id i
               then None else Some outcome)
     in case accepted of
          None \<Rightarrow> (Inl (DockyardActiveExecutionCallbackError ''active_execution:callback_failed''),
            if current = Some ref then set_state ref ACTIVE r else r)
        | Some outcome \<Rightarrow>
            if current \<noteq> Some ref
            then (Inl (DockyardActiveExecutionConflictError ''active_execution:registration_replaced''), r)
            else (Inr outcome, r\<lparr>entries := dict_del (ac_dispatch_id c) (entries r)\<rparr>))"

section \<open>Runs\<close>

text \<open>
  Threads interleave at the lock.  A cancellation whose callback runs is pending; a registration
  has ended when a completion or a cancellation took it out of the registry.
\<close>

record 'c active_system =
  sys_registry :: "'c registry"
  sys_pending :: "(DockyardActiveCancellationCommand \<times> nat) list"
  sys_ended :: "nat list"

definition active_initial :: "'c active_system \<Rightarrow> bool" where
  "active_initial s \<longleftrightarrow> s = \<lparr>sys_registry = empty_registry, sys_pending = [], sys_ended = []\<rparr>"

inductive active_step :: "'c active_system \<Rightarrow> 'c active_system \<Rightarrow> bool" where
  registered: "register i callback (sys_registry s) = Inr (x, r) \<Longrightarrow> active_step s (s\<lparr>sys_registry := r\<rparr>)"
| completed: "complete d g (sys_registry s) = Inr (True, r) \<Longrightarrow> dict_get (entries (sys_registry s)) d = Some ref \<Longrightarrow>
    active_step s (s\<lparr>sys_registry := r, sys_ended := sys_ended s @ [ref]\<rparr>)"
| begun: "cancel_begin c (sys_registry s) = Inr (ref, r) \<Longrightarrow>
    active_step s (s\<lparr>sys_registry := r, sys_pending := (c, ref) # sys_pending s\<rparr>)"
| cancelled: "(c, ref) \<in> set (sys_pending s) \<Longrightarrow> cancel_end c ref result (sys_registry s) = (Inr outcome, r) \<Longrightarrow>
    active_step s (s\<lparr>sys_registry := r, sys_pending := remove1 (c, ref) (sys_pending s), sys_ended := sys_ended s @ [ref]\<rparr>)"
| failed: "(c, ref) \<in> set (sys_pending s) \<Longrightarrow> cancel_end c ref result (sys_registry s) = (Inl e, r) \<Longrightarrow>
    active_step s (s\<lparr>sys_registry := r, sys_pending := remove1 (c, ref) (sys_pending s)\<rparr>)"

inductive_cases active_stepE: "active_step s t"

text \<open>What holds of the registry between any two steps.\<close>

definition entry_ok :: "'c active_system \<Rightarrow> string \<Rightarrow> nat \<Rightarrow> bool" where
  "entry_ok s d ref \<longleftrightarrow> ref < length (registrations (sys_registry s))
     \<and> ai_dispatch_id (rg_identity (registrations (sys_registry s) ! ref)) = d \<and> ref \<notin> set (sys_ended s)
     \<and> (rg_state (registrations (sys_registry s) ! ref) = CANCELLING \<longrightarrow> ref \<in> snd ` set (sys_pending s))"

definition pending_ok :: "'c active_system \<Rightarrow> DockyardActiveCancellationCommand \<Rightarrow> nat \<Rightarrow> bool" where
  "pending_ok s c ref \<longleftrightarrow> ref < length (registrations (sys_registry s))
     \<and> rg_state (registrations (sys_registry s) ! ref) = CANCELLING
     \<and> same_execution c (rg_identity (registrations (sys_registry s) ! ref))
     \<and> ac_dispatch_id c = ai_dispatch_id (rg_identity (registrations (sys_registry s) ! ref))"

definition active_inv :: "'c active_system \<Rightarrow> bool" where
  "active_inv s \<longleftrightarrow> (\<forall>d ref. dict_get (entries (sys_registry s)) d = Some ref \<longrightarrow> entry_ok s d ref)
     \<and> (\<forall>c ref. (c, ref) \<in> set (sys_pending s) \<longrightarrow> pending_ok s c ref)
     \<and> distinct (map snd (sys_pending s)) \<and> distinct (sys_ended s)
     \<and> (\<forall>ref \<in> set (sys_ended s). ref < length (registrations (sys_registry s)))"

lemma active_invD:
  assumes "active_inv s"
  shows "dict_get (entries (sys_registry s)) d = Some ref \<Longrightarrow> entry_ok s d ref"
    and "(c, ref) \<in> set (sys_pending s) \<Longrightarrow> pending_ok s c ref"
    and "distinct (map snd (sys_pending s))" and "distinct (sys_ended s)"
    and "j \<in> set (sys_ended s) \<Longrightarrow> j < length (registrations (sys_registry s))"
  using assms by (auto simp: active_inv_def)

lemma active_invI:
  assumes "\<And>d ref. dict_get (entries (sys_registry s)) d = Some ref \<Longrightarrow> entry_ok s d ref"
    and "\<And>c ref. (c, ref) \<in> set (sys_pending s) \<Longrightarrow> pending_ok s c ref"
    and "distinct (map snd (sys_pending s))" and "distinct (sys_ended s)"
    and "\<And>j. j \<in> set (sys_ended s) \<Longrightarrow> j < length (registrations (sys_registry s))"
  shows "active_inv s"
  using assms by (auto simp: active_inv_def)

lemma set_state_simps [simp]:
  "entries (set_state ref st r) = entries r" "length (registrations (set_state ref st r)) = length (registrations r)"
  by (simp_all add: set_state_def)

lemma set_state_nth: "j < length (registrations r) \<Longrightarrow>
    registrations (set_state ref st r) ! j = (if j = ref then (registrations r ! j)\<lparr>rg_state := st\<rparr> else registrations r ! j)"
  by (simp add: set_state_def nth_list_update)

lemma cancel_begin_Inr: "cancel_begin c r = Inr (ref, r') \<longleftrightarrow>
    dict_get (entries r) (ac_dispatch_id c) = Some ref \<and> same_execution c (rg_identity (registrations r ! ref))
    \<and> rg_state (registrations r ! ref) = ACTIVE \<and> r' = set_state ref CANCELLING r"
  by (auto simp: cancel_begin_def res_simps split: option.split)

lemma cancel_end_Inr:
  assumes "cancel_end c ref result r = (Inr outcome, r')"
  shows "result = Some outcome \<and> ao_task_id outcome = ai_task_id (rg_identity (registrations r ! ref))
    \<and> ao_dispatch_id outcome = ai_dispatch_id (rg_identity (registrations r ! ref))
    \<and> dict_get (entries r) (ac_dispatch_id c) = Some ref \<and> r' = r\<lparr>entries := dict_del (ac_dispatch_id c) (entries r)\<rparr>"
  using assms by (auto simp: cancel_end_def Let_def split: option.split_asm if_split_asm)

lemma cancel_end_Inl:
  assumes "cancel_end c ref result r = (Inl e, r')"
  shows "(r' = r \<and> dict_get (entries r) (ac_dispatch_id c) \<noteq> Some ref)
    \<or> (dict_get (entries r) (ac_dispatch_id c) = Some ref \<and> r' = set_state ref ACTIVE r
        \<and> e = DockyardActiveExecutionCallbackError ''active_execution:callback_failed'')"
  using assms by (cases "dict_get (entries r) (ac_dispatch_id c) = Some ref")
    (simp_all add: cancel_end_def Let_def split: option.split_asm if_split_asm)

lemma complete_True: "complete d g r = Inr (True, r') \<Longrightarrow> \<exists>ref. dict_get (entries r) d = Some ref
    \<and> ai_generation_id (rg_identity (registrations r ! ref)) = g \<and> r' = r\<lparr>entries := dict_del d (entries r)\<rparr>"
  by (auto simp: complete_def res_simps split: option.split_asm if_split_asm)

text \<open>Taking a registration out of the registry: it ends.\<close>

lemma removal_inv:
  assumes inv: "active_inv s" and get: "dict_get (entries (sys_registry s)) d = Some ref"
    and sub: "set pending' \<subseteq> set (sys_pending s)" and "distinct (map snd pending')"
    and cover: "snd ` set (sys_pending s) \<subseteq> insert ref (snd ` set pending')"
  shows "active_inv (s\<lparr>sys_registry := (sys_registry s)\<lparr>entries := dict_del d (entries (sys_registry s))\<rparr>,
    sys_pending := pending', sys_ended := sys_ended s @ [ref]\<rparr>)" (is "active_inv ?t")
proof (rule active_invI)
  have reg: "entry_ok s d ref" using active_invD(1) [OF inv get] .
  fix k j
  assume "dict_get (entries (sys_registry ?t)) k = Some j"
  then have j: "dict_get (entries (sys_registry s)) k = Some j" "k \<noteq> d" by (auto simp: dict_get_del split: if_split_asm)
  from active_invD(1) [OF inv j(1)] have ok: "entry_ok s k j" .
  have "j \<noteq> ref" using ok reg j(2) by (auto simp: entry_ok_def)
  with cover have "j \<in> snd ` set (sys_pending s) \<Longrightarrow> j \<in> snd ` set pending'" by blast
  with ok \<open>j \<noteq> ref\<close> show "entry_ok ?t k j" by (simp add: entry_ok_def)
next
  fix c j assume "(c, j) \<in> set (sys_pending ?t)"
  with sub active_invD(2) [OF inv, of c j] show "pending_ok ?t c j" by (auto simp: pending_ok_def)
next
  show "distinct (sys_ended ?t)" "\<And>j. j \<in> set (sys_ended ?t) \<Longrightarrow> j < length (registrations (sys_registry ?t))"
    using active_invD(1) [OF inv get] active_invD(4,5) [OF inv] by (auto simp: entry_ok_def)
qed (use assms(4) in simp)

lemma distinct_others:
  assumes "distinct (map snd xs)" and "(c, j) \<in> set xs"
  shows "distinct (map snd (remove1 (c, j) xs))" "snd ` set xs \<subseteq> insert j (snd ` set (remove1 (c, j) xs))"
    "j \<notin> snd ` set (remove1 (c, j) xs)"
proof -
  have rem: "set (remove1 (c, j) xs) = set xs - {(c, j)}" using assms(1) by (simp add: distinct_map)
  show "distinct (map snd (remove1 (c, j) xs))" using assms(1) by (simp add: distinct_map rem) (meson Diff_subset inj_on_subset)
  show "snd ` set xs \<subseteq> insert j (snd ` set (remove1 (c, j) xs))" unfolding rem by force
  show "j \<notin> snd ` set (remove1 (c, j) xs)" unfolding rem using assms by (fastforce simp: distinct_map inj_on_def)
qed

lemma register_inv:
  assumes inv: "active_inv s" and new: "dict_get (entries (sys_registry s)) (ai_dispatch_id i) = None"
    and reg: "register i callback (sys_registry s) = Inr (x, r)"
  shows "active_inv (s\<lparr>sys_registry := r\<rparr>)" (is "active_inv ?t")
proof (rule active_invI)
  let ?n = "length (registrations (sys_registry s))"
  have r: "r = (sys_registry s)\<lparr>entries := dict_set (ai_dispatch_id i) ?n (entries (sys_registry s)),
      registrations := registrations (sys_registry s) @ [\<lparr>rg_identity = i, rg_callback = callback, rg_state = ACTIVE\<rparr>]\<rparr>"
    using reg new by (simp add: register_def)
  show "entry_ok ?t d ref" if "dict_get (entries (sys_registry ?t)) d = Some ref" for d ref
    using that active_invD(1) [OF inv, of d ref] active_invD(5) [OF inv, of ?n]
    by (auto simp: r dict_get_set entry_ok_def nth_append split: if_split_asm)
  show "pending_ok ?t c ref" if "(c, ref) \<in> set (sys_pending ?t)" for c ref
    using that active_invD(2) [OF inv, of c ref] by (auto simp: r pending_ok_def nth_append)
  show "j < length (registrations (sys_registry ?t))" if "j \<in> set (sys_ended ?t)" for j
    using that active_invD(5) [OF inv, of j] by (simp add: r)
qed (use active_invD(3,4) [OF inv] in simp_all)

lemma begin_inv:
  assumes inv: "active_inv s" and beg: "cancel_begin c (sys_registry s) = Inr (ref, r)"
  shows "active_inv (s\<lparr>sys_registry := r, sys_pending := (c, ref) # sys_pending s\<rparr>)" (is "active_inv ?t")
proof (rule active_invI)
  note b = beg [unfolded cancel_begin_Inr]
  have ref: "entry_ok s (ac_dispatch_id c) ref" using active_invD(1) [OF inv] b by blast
  have idle: "ref \<notin> snd ` set (sys_pending s)" using active_invD(2) [OF inv] b by (force simp: pending_ok_def)
  show "entry_ok ?t d j" if "dict_get (entries (sys_registry ?t)) d = Some j" for d j
    using that active_invD(1) [OF inv, of d j] b by (auto simp: entry_ok_def set_state_nth)
  show "pending_ok ?t e j" if "(e, j) \<in> set (sys_pending ?t)" for e j
  proof (cases "(e, j) = (c, ref)")
    case True
    with b ref show ?thesis by (simp add: pending_ok_def entry_ok_def set_state_nth)
  next
    case False
    with that have "(e, j) \<in> set (sys_pending s)" by auto
    with active_invD(2) [OF inv this] idle b show ?thesis by (auto simp: pending_ok_def set_state_nth)
  qed
  show "distinct (map snd (sys_pending ?t))" using active_invD(3) [OF inv] idle by simp
qed (use active_invD(4,5) [OF inv] beg in \<open>auto simp: cancel_begin_Inr\<close>)

lemma failed_inv:
  assumes inv: "active_inv s" and pending: "(c, ref) \<in> set (sys_pending s)"
    and r: "r = sys_registry s \<and> dict_get (entries (sys_registry s)) (ac_dispatch_id c) \<noteq> Some ref
      \<or> r = set_state ref ACTIVE (sys_registry s)"
  shows "active_inv (s\<lparr>sys_registry := r, sys_pending := remove1 (c, ref) (sys_pending s)\<rparr>)" (is "active_inv ?t")
proof (rule active_invI)
  have ref: "pending_ok s c ref" using active_invD(2) [OF inv pending] .
  note others = distinct_others [OF active_invD(3) [OF inv] pending]
  show "entry_ok ?t d j" if "dict_get (entries (sys_registry ?t)) d = Some j" for d j
  proof -
    have get: "dict_get (entries (sys_registry s)) d = Some j" using that r by auto
    from active_invD(1) [OF inv this] have ok: "entry_ok s d j" .
    have "j \<noteq> ref \<or> r = set_state ref ACTIVE (sys_registry s)" using get ok ref r by (auto simp: entry_ok_def pending_ok_def)
    show ?thesis
    proof (cases "j = ref")
      case True
      with \<open>j \<noteq> ref \<or> _\<close> ok show ?thesis by (simp add: entry_ok_def set_state_nth)
    next
      case False
      with others(2) have "j \<in> snd ` set (sys_pending s) \<Longrightarrow> j \<in> snd ` set (remove1 (c, ref) (sys_pending s))" by blast
      with False ok r show ?thesis by (auto simp: entry_ok_def set_state_nth)
    qed
  qed
  show "pending_ok ?t e j" if "(e, j) \<in> set (sys_pending ?t)" for e j
  proof -
    from that have "(e, j) \<in> set (sys_pending s)" using set_remove1_subset by fastforce
    moreover have "j \<noteq> ref" using that others(3) by force
    ultimately show ?thesis using active_invD(2) [OF inv, of e j] r by (auto simp: pending_ok_def set_state_nth)
  qed
  show "distinct (map snd (sys_pending ?t))" using others(1) by simp
qed (use active_invD(4,5) [OF inv] r in auto)

lemma active_step_inv:
  assumes "active_inv s" and "active_step s t"
  shows "active_inv t"
  using assms(2)
proof cases
  case (registered i callback x r)
  show ?thesis
  proof (cases "dict_get (entries (sys_registry s)) (ai_dispatch_id i)")
    case None
    with register_inv [OF assms(1)] registered show ?thesis by blast
  next
    case (Some ref)
    with registered have "r = sys_registry s" by (auto simp: register_def Let_def res_simps)
    with assms(1) registered(1) show ?thesis by simp
  qed
next
  case (completed d g r ref)
  from complete_True [OF completed(2)] have r: "r = (sys_registry s)\<lparr>entries := dict_del d (entries (sys_registry s))\<rparr>" by auto
  have "active_inv (s\<lparr>sys_registry := r, sys_pending := sys_pending s, sys_ended := sys_ended s @ [ref]\<rparr>)"
    unfolding r by (rule removal_inv [OF assms(1) completed(3)]) (use active_invD(3) [OF assms(1)] in auto)
  then show ?thesis by (simp add: completed(1))
next
  case (begun c ref r)
  with begin_inv [OF assms(1)] show ?thesis by blast
next
  case (cancelled c ref result outcome r)
  note end_ok = cancel_end_Inr [OF cancelled(3)]
  have r: "r = (sys_registry s)\<lparr>entries := dict_del (ac_dispatch_id c) (entries (sys_registry s))\<rparr>" using end_ok by blast
  note others = distinct_others [OF active_invD(3) [OF assms(1)] cancelled(2)]
  show ?thesis unfolding cancelled(1) r
    by (rule removal_inv [OF assms(1)]) (use end_ok others set_remove1_subset in auto)
next
  case (failed c ref result e r)
  show ?thesis unfolding failed(1)
    by (rule failed_inv [OF assms(1) failed(2)]) (use cancel_end_Inl [OF failed(3)] in blast)
qed

interpretation active: invariant_system active_initial active_step active_inv
proof unfold_locales
  show "active_inv s" if "active_initial s" for s :: "'c active_system"
    using that by (simp add: active_initial_def active_inv_def empty_registry_def)
qed (rule active_step_inv)

section \<open>Properties\<close>

text \<open>
  C15. One winner.  However registrations, completions and cancellations interleave, no
  registration ends twice, at most one cancellation callback runs for a registration at a time,
  and a registration is marked as being cancelled only while its callback runs.
\<close>

theorem active_one_winner:
  assumes "reachable_from active_initial active_step s"
  shows "distinct (sys_ended s) \<and> distinct (map snd (sys_pending s))
    \<and> (\<forall>d ref. dict_get (entries (sys_registry s)) d = Some ref \<longrightarrow>
         ref \<notin> set (sys_ended s)
         \<and> (rg_state (registrations (sys_registry s) ! ref) = CANCELLING \<longleftrightarrow> ref \<in> snd ` set (sys_pending s)))"
proof -
  have inv: "active_inv s" by (rule active.reachable_inv [OF assms])
  show ?thesis
    using active_invD(1,2,3,4) [OF inv] by (fastforce simp: entry_ok_def pending_ok_def)
qed

text \<open>
  How a cancellation ends, whatever its callback did.  When its registration was taken out or
  replaced in the meantime it changes nothing and reports an error.  Otherwise a success reports
  the outcome of the callback for exactly the execution the command names and removes that
  registration alone, and a failure leaves the execution registered and open to be cancelled again.
\<close>

theorem active_cancellation_outcome:
  assumes "reachable_from active_initial active_step s" and pending: "(c, ref) \<in> set (sys_pending s)"
    and ends: "cancel_end c ref result (sys_registry s) = (answer, r)"
  shows "if dict_get (entries (sys_registry s)) (ac_dispatch_id c) \<noteq> Some ref
    then r = sys_registry s \<and> (\<exists>e. answer = Inl e)
    else case answer of
        Inr outcome \<Rightarrow> result = Some outcome \<and> ao_dispatch_id outcome = ac_dispatch_id c \<and> ao_task_id outcome = ac_task_id c
          \<and> (\<forall>d. dict_get (entries r) d =
                (if d = ac_dispatch_id c then None else dict_get (entries (sys_registry s)) d))
      | Inl e \<Rightarrow> entries r = entries (sys_registry s) \<and> (\<exists>r'. cancel_begin c r = Inr (ref, r'))"
proof -
  have inv: "active_inv s" by (rule active.reachable_inv [OF assms(1)])
  have ref: "pending_ok s c ref" using active_invD(2) [OF inv pending] .
  show ?thesis
  proof (cases answer)
    case (Inl e)
    with cancel_end_Inl [of c ref result "sys_registry s" e r] ends ref show ?thesis
      by (auto simp: cancel_begin_Inr pending_ok_def set_state_nth same_execution_def)
  next
    case (Inr outcome)
    with cancel_end_Inr [of c ref result "sys_registry s" outcome r] ends ref show ?thesis
      by (auto simp: pending_ok_def same_execution_def dict_get_del)
  qed
qed

text \<open>
  An identity's digest stands for all of it: two valid identities with the same digest are
  equal, or the hash function collides.
\<close>

theorem active_identity_digest:
  assumes "make_identity H i = Inr i" and "make_identity H j = Inr j" and "ai_content_digest i = ai_content_digest j"
  shows "i = j \<or> (\<exists>x y. x \<noteq> y \<and> H x = H y)"
proof -
  from assms have eq: "H (frames (identity_values i)) = H (frames (identity_values j))"
    by (auto simp: make_identity_def res_simps identity_digest_def)
  show ?thesis
  proof (cases "identity_values i = identity_values j")
    case True
    have positive: "0 \<le> ai_revision k \<and> 0 \<le> ai_attempt k" if "make_identity H k = Inr k" for k :: DockyardActiveExecutionIdentity
      using that by (auto simp: make_identity_def res_simps active_positive_def)
    from True positive [OF assms(1)] positive [OF assms(2)] assms(3) show ?thesis
      by (intro disjI1 DockyardActiveExecutionIdentity.equality)
        (simp_all add: identity_values_def show_int_def eq_nat_nat_iff)
  next
    case False
    with eq show ?thesis using frames_inject by blast
  qed
qed

section \<open>Witnesses\<close>

definition active_hash :: "string \<Rightarrow> string" where
  "active_hash s = replicate 64 (CHR ''a'')"

definition sample_identity :: DockyardActiveExecutionIdentity where
  "sample_identity = \<lparr>ai_schema_version = ACTIVE_SCHEMA, ai_task_id = ''TC-1'', ai_revision = 1, ai_attempt = 1,
     ai_dispatch_id = ''DSP-1'', ai_generation_id = ''G-1'', ai_registered_at = ''T'',
     ai_content_digest = replicate 64 (CHR ''a'')\<rparr>"

definition sample_command :: DockyardActiveCancellationCommand where
  "sample_command = \<lparr>ac_operation_id = ''OP-1'', ac_task_id = ''TC-1'', ac_revision = 1, ac_attempt = 1,
     ac_dispatch_id = ''DSP-1'', ac_generation_id = ''G-1'', ac_expected_snapshot_commit = replicate 40 (CHR ''b''),
     ac_event_id = ''E-1'', ac_requested_at = ''T''\<rparr>"

definition sample_outcome :: DockyardActiveCancellationOutcome where
  "sample_outcome = \<lparr>ao_task_id = ''TC-1'', ao_dispatch_id = ''DSP-1'', ao_event_id = ''E-1'', ao_completed_at = ''T''\<rparr>"

text \<open>The sample execution is registered and its cancellation runs.\<close>

definition sample_cancelling :: "unit active_system" where
  "sample_cancelling =
    \<lparr>sys_registry = \<lparr>entries = [(''DSP-1'', 0)],
       registrations = [\<lparr>rg_identity = sample_identity, rg_callback = (), rg_state = CANCELLING\<rparr>]\<rparr>,
     sys_pending = [(sample_command, 0)], sys_ended = []\<rparr>"

lemma sample_cancelling_reachable: "reachable_from active_initial active_step sample_cancelling"
proof -
  let ?s = "\<lparr>sys_registry = empty_registry, sys_pending = [], sys_ended = []\<rparr> :: unit active_system"
  let ?r = "\<lparr>entries = [(''DSP-1'', 0)],
     registrations = [\<lparr>rg_identity = sample_identity, rg_callback = (), rg_state = ACTIVE\<rparr>]\<rparr>"
  have "reachable_from active_initial active_step ?s" by (rule reachable_from.start) (simp add: active_initial_def)
  moreover have "active_step ?s (?s\<lparr>sys_registry := ?r\<rparr>)"
    by (rule active_step.registered [of sample_identity "()" _ "(sample_identity, False)"])
      (simp add: register_def empty_registry_def sample_identity_def dict_set_def)
  moreover have "active_step (?s\<lparr>sys_registry := ?r\<rparr>) sample_cancelling"
    using active_step.begun [of sample_command "?s\<lparr>sys_registry := ?r\<rparr>" 0 "set_state 0 CANCELLING ?r"]
    by (simp add: cancel_begin_Inr sample_cancelling_def set_state_def sample_command_def sample_identity_def
        same_execution_def dict_get_Cons)
  ultimately show ?thesis by (meson reachable_from.more)
qed

theorem active_one_winner_witness:
  "distinct (sys_ended sample_cancelling) \<and> rg_state (registrations (sys_registry sample_cancelling) ! 0) = CANCELLING"
  using active_one_winner [OF sample_cancelling_reachable] by (simp add: sample_cancelling_def)

theorem active_cancellation_outcome_witness:
  "\<exists>r. cancel_end sample_command 0 (Some sample_outcome) (sys_registry sample_cancelling) = (Inr sample_outcome, r)
    \<and> dict_get (entries r) ''DSP-1'' = None"
proof -
  have pending: "(sample_command, 0) \<in> set (sys_pending sample_cancelling)" by (simp add: sample_cancelling_def)
  obtain answer r where ends: "cancel_end sample_command 0 (Some sample_outcome) (sys_registry sample_cancelling) = (answer, r)"
    by (cases "cancel_end sample_command 0 (Some sample_outcome) (sys_registry sample_cancelling)")
  have answer: "answer = Inr sample_outcome"
    using ends by (simp add: cancel_end_def sample_cancelling_def sample_outcome_def sample_identity_def sample_command_def
        dict_get_Cons)
  from active_cancellation_outcome [OF sample_cancelling_reachable pending ends] ends answer show ?thesis
    by (auto simp: sample_cancelling_def sample_command_def dict_get_Cons)
qed

theorem active_identity_digest_witness:
  "make_identity active_hash sample_identity = Inr sample_identity \<and> (sample_identity = sample_identity \<or> (\<exists>x y. x \<noteq> y \<and> active_hash x = active_hash y))"
proof -
  have made: "make_identity active_hash sample_identity = Inr sample_identity" by code_simp
  with active_identity_digest [OF this this refl] show ?thesis by blast
qed

end
