(* ===== verification/Model_Selection.thy ===== *)
theory Model_Selection
  imports Framing Json
begin

text \<open>
  Selection of a model binding for a dispatch (\<open>select_model.py\<close>): the requirements of a role
  policy, the validation of the local bindings document, and the choice among the eligible
  bindings.

  Both documents are the values \<open>json.loads\<close> returned; an object is a dictionary, so its keys are
  distinct.  The messages of a \<open>SelectionError\<close> are abbreviated to their fixed words: the
  rejected values they quote are not modelled.  A risk outside \<open>RISKS\<close> is the \<open>KeyError\<close> of
  the table lookup.  \<open>iso8601\<close> is \<open>datetime.fromisoformat\<close>.
\<close>

section \<open>Vocabulary\<close>

datatype selection_error = SelectionError string | KeyError string

type_synonym json_object = "(string, json) dict"

definition MODEL_TIERS :: "string list" where
  "MODEL_TIERS = [''basic'', ''standard'', ''advanced'', ''expert'']"

definition DELIBERATION_TIERS :: "string list" where
  "DELIBERATION_TIERS = [''efficient'', ''balanced'', ''deep'']"

definition RISKS :: "string list" where
  "RISKS = [''L0'', ''L1'', ''L2'', ''L3'', ''L4'']"

definition DEGRADATION_POLICIES :: "string list" where
  "DEGRADATION_POLICIES = [''block'', ''require_pm_approval'', ''allow_to_minimum'']"

definition BINDING_REQUIRED_KEYS :: "string list" where
  "BINDING_REQUIRED_KEYS = [''provider'', ''model_id'', ''tier'', ''deliberation_tier'', ''context_window_tokens'',
     ''capabilities'', ''enabled'']"

text \<open>\<open>{tier: index for index, tier in enumerate(tiers)}[t]\<close>\<close>

definition position :: "string list \<Rightarrow> string \<Rightarrow> nat" where
  "position xs t = length (takeWhile (\<lambda>x. x \<noteq> t) xs)"

definition MODEL_TIER_INDEX :: "string \<Rightarrow> nat" where
  "MODEL_TIER_INDEX = position MODEL_TIERS"

definition DELIBERATION_TIER_INDEX :: "string \<Rightarrow> nat" where
  "DELIBERATION_TIER_INDEX = position DELIBERATION_TIERS"

definition APPROVAL_ID_RE :: "string \<Rightarrow> bool" where
  "APPROVAL_ID_RE s \<longleftrightarrow> starts_with ''APR-'' s \<and> length s > 4 \<and> CHR 0x0A \<notin> set (drop 4 s)"

definition nonempty_string :: "string \<Rightarrow> bool" where
  "nonempty_string s \<longleftrightarrow> py_strip s \<noteq> []"

definition is_rfc3339_utc :: "clock \<Rightarrow> string \<Rightarrow> bool" where
  "is_rfc3339_utc iso8601 s \<longleftrightarrow> CHR ''T'' \<in> set s
     \<and> (case iso8601 (if last s = CHR ''Z'' then butlast s @ ''+00:00'' else s) of
          Some (_, Some offset) \<Rightarrow> offset = 0
        | _ \<Rightarrow> False)"

section \<open>Field checks\<close>

definition selection_fail :: "string \<Rightarrow> string \<Rightarrow> selection_error + 'a" where
  "selection_fail context problem = Inl (SelectionError (context @ problem))"

definition require_schema :: "json_object \<Rightarrow> string \<Rightarrow> string \<Rightarrow> (bool \<times> selection_error) list" where
  "require_schema v expected label =
     [(dict_get v ''schema_version'' \<noteq> Some (JStr expected), SelectionError (label @ ''.schema_version must be '' @ expected))]"

definition require_exact_order :: "json option \<Rightarrow> string list \<Rightarrow> string \<Rightarrow> (bool \<times> selection_error) list" where
  "require_exact_order v expected context =
     [(v \<noteq> Some (JArr (map JStr expected)), SelectionError (context @ '' must be exact''))]"

definition required_value :: "json_object \<Rightarrow> string \<Rightarrow> string \<Rightarrow> selection_error + json" where
  "required_value v key context = (case dict_get v key of
      None \<Rightarrow> selection_fail context ('' is missing required field '' @ key)
    | Some x \<Rightarrow> Inr x)"

definition require_one_of :: "string list \<Rightarrow> json option \<Rightarrow> string \<Rightarrow> selection_error + string" where
  "require_one_of allowed v context = (case v of
      Some (JStr s) \<Rightarrow> if s \<in> set allowed then Inr s else selection_fail context '' must be one of the tiers''
    | _ \<Rightarrow> selection_fail context '' must be one of the tiers'')"

definition require_tier :: "json option \<Rightarrow> string \<Rightarrow> selection_error + string" where
  "require_tier = require_one_of MODEL_TIERS"

definition require_deliberation_tier :: "json option \<Rightarrow> string \<Rightarrow> selection_error + string" where
  "require_deliberation_tier = require_one_of DELIBERATION_TIERS"

fun collect_capabilities :: "string \<Rightarrow> json list \<Rightarrow> string list \<Rightarrow> selection_error + string list" where
  "collect_capabilities context [] seen = Inr seen"
| "collect_capabilities context (v # vs) seen = (case v of
      JStr s \<Rightarrow>
        if \<not> nonempty_string s then selection_fail context '' must be a non-empty string''
        else if py_strip s \<in> set seen then selection_fail context '' contains duplicate capability''
        else collect_capabilities context vs (seen @ [py_strip s])
    | _ \<Rightarrow> selection_fail context '' must be a non-empty string'')"

definition require_capabilities :: "json option \<Rightarrow> string \<Rightarrow> selection_error + string list" where
  "require_capabilities v context = (case v of
      Some (JArr vs) \<Rightarrow> collect_capabilities context vs []
    | _ \<Rightarrow> selection_fail context '' must be an array of non-empty strings'')"

text \<open>\<open>max(tiers, key=MODEL_TIER_INDEX.__getitem__)\<close>: the first of the highest.\<close>

fun max_tier :: "string \<Rightarrow> string list \<Rightarrow> string" where
  "max_tier best [] = best"
| "max_tier best (t # ts) = max_tier (if MODEL_TIER_INDEX t > MODEL_TIER_INDEX best then t else best) ts"

section \<open>Role policy\<close>

record requirements =
  rq_tier :: string
  rq_preferred :: string
  rq_deliberation :: string
  rq_capabilities :: "string list"
  rq_degradation :: string

fun validate_floors :: "json_object \<Rightarrow> string list \<Rightarrow> selection_error + string list" where
  "validate_floors floors [] = Inr []"
| "validate_floors floors (r # rs) =
     and_then (require_tier (dict_get floors r) (''role policy.risk_floors.'' @ r)) (\<lambda>t.
     and_then (validate_floors floors rs) (\<lambda>ts. Inr (t # ts)))"

definition json_str :: "json option \<Rightarrow> string option" where
  "json_str v = (case v of Some (JStr s) \<Rightarrow> Some s | _ \<Rightarrow> None)"

definition risk_floor_of :: "json_object \<Rightarrow> string \<Rightarrow> selection_error + string" where
  "risk_floor_of policy risk = (case dict_get policy ''risk_floors'' of
      Some (JObj floors) \<Rightarrow> guarded
        [(list_ex (\<lambda>r. dict_get floors r = None) RISKS, SelectionError ''role policy.risk_floors is missing'')]
        (and_then (validate_floors floors RISKS) (\<lambda>ts. guarded
           [(list_ex (\<lambda>(low, high). MODEL_TIER_INDEX high < MODEL_TIER_INDEX low) (zip ts (tl ts)),
             SelectionError ''role policy.risk_floors must not decrease'')]
           (case map_of (zip RISKS ts) risk of None \<Rightarrow> Inl (KeyError risk) | Some t \<Rightarrow> Inr t)))
    | _ \<Rightarrow> Inl (SelectionError ''role policy.risk_floors must be an object''))"

text \<open>The union \<open>role_capabilities | task_capabilities\<close> as a list without repetitions.\<close>

definition set_union :: "string list \<Rightarrow> string list \<Rightarrow> string list" where
  "set_union xs ys = xs @ filter (\<lambda>y. y \<notin> set xs) ys"

definition role_requirements ::
  "json_object \<Rightarrow> string \<Rightarrow> string \<Rightarrow> string \<Rightarrow> string list \<Rightarrow> selection_error + requirements"
where
  "role_requirements role context risk_floor task_min_tier task_capabilities =
     and_then (require_tier (dict_get role ''minimum_tier'') (context @ ''.minimum_tier'')) (\<lambda>minimum_tier.
     and_then (require_tier (dict_get role ''default_tier'') (context @ ''.default_tier'')) (\<lambda>default_tier. guarded
       [(MODEL_TIER_INDEX default_tier < MODEL_TIER_INDEX minimum_tier,
         SelectionError (context @ ''.default_tier must not be below minimum_tier''))]
       (and_then (required_value role ''deliberation_tier'' context) (\<lambda>v.
        and_then (require_deliberation_tier (Some v) (context @ ''.deliberation_tier'')) (\<lambda>deliberation.
        and_then (require_capabilities (dict_get role ''required_capabilities'') (context @ ''.required_capabilities''))
          (\<lambda>role_capabilities.
        case json_str (dict_get role ''degradation_policy'') of
          None \<Rightarrow> selection_fail context ''.degradation_policy must be one of the policies''
        | Some degradation \<Rightarrow> guarded
            [(degradation \<notin> set DEGRADATION_POLICIES,
              SelectionError (context @ ''.degradation_policy must be one of the policies''))]
            (and_then (if task_min_tier = ''inherit'' then Inr minimum_tier
                else require_tier (Some (JStr task_min_tier)) ''--task-min-tier'') (\<lambda>task_floor.
              let required_tier = max_tier minimum_tier [task_floor, risk_floor]
              in Inr \<lparr>rq_tier = required_tier, rq_preferred = max_tier default_tier [required_tier],
                   rq_deliberation = deliberation, rq_capabilities = set_union role_capabilities task_capabilities,
                   rq_degradation = degradation\<rparr>))))))))"

definition policy_requirements ::
  "json_object \<Rightarrow> string \<Rightarrow> string \<Rightarrow> string \<Rightarrow> string list \<Rightarrow> selection_error + requirements"
where
  "policy_requirements policy role_id risk task_min_tier task_capabilities = guarded
     (require_schema policy ''agentdesk.role-policies/v1'' ''role policy'' @
      require_exact_order (dict_get policy ''tier_order'') MODEL_TIERS ''role policy.tier_order'')
     (and_then (required_value policy ''deliberation_tier_order'' ''role policy'') (\<lambda>order. guarded
        (require_exact_order (Some order) DELIBERATION_TIERS ''role policy.deliberation_tier_order'')
        (and_then (risk_floor_of policy risk) (\<lambda>risk_floor.
         case dict_get policy ''roles'' of
           Some (JObj roles) \<Rightarrow> (case dict_get roles role_id of
               Some (JObj role) \<Rightarrow>
                 role_requirements role (''role policy.roles.'' @ role_id) risk_floor task_min_tier task_capabilities
             | _ \<Rightarrow> Inl (SelectionError (''role '' @ role_id @ '' has no policy'')))
         | _ \<Rightarrow> Inl (SelectionError ''role policy.roles must be an object'')))))"

section \<open>Local bindings\<close>

record binding =
  bd_id :: string
  bd_provider :: string
  bd_model_id :: string
  bd_tier :: string
  bd_deliberation :: string
  bd_context_window_tokens :: int
  bd_capabilities :: "string list"
  bd_enabled :: bool

text \<open>A text field, or the empty text when it is absent or of another type: both are refused alike.\<close>

definition text_value :: "json option \<Rightarrow> string" where
  "text_value v = (case v of Some (JStr s) \<Rightarrow> s | _ \<Rightarrow> [])"

definition validated_binding :: "string \<Rightarrow> json_object \<Rightarrow> selection_error + binding" where
  "validated_binding binding_id raw =
    (let context = ''model bindings.bindings.'' @ binding_id;
         provider = text_value (dict_get raw ''provider''); model_id = text_value (dict_get raw ''model_id'')
     in guarded
       [(\<not> nonempty_string provider, SelectionError (context @ ''.provider must be a non-empty string'')),
        (\<not> nonempty_string model_id, SelectionError (context @ ''.model_id must be a non-empty string'')),
        (provider \<noteq> py_strip provider, SelectionError (context @ ''.provider must not contain outer whitespace'')),
        (model_id \<noteq> py_strip model_id, SelectionError (context @ ''.model_id must not contain outer whitespace''))]
       (and_then (require_tier (dict_get raw ''tier'') (context @ ''.tier'')) (\<lambda>tier.
        and_then (required_value raw ''deliberation_tier'' context) (\<lambda>v.
        and_then (require_deliberation_tier (Some v) (context @ ''.deliberation_tier'')) (\<lambda>deliberation.
        and_then (require_capabilities (dict_get raw ''capabilities'') (context @ ''.capabilities'')) (\<lambda>capabilities.
        case dict_get raw ''enabled'' of
          Some (JBool enabled) \<Rightarrow> guarded
            [(list_ex (\<lambda>k. k \<notin> set (dict_keys raw)) BINDING_REQUIRED_KEYS
              \<or> list_ex (\<lambda>k. k \<notin> set BINDING_REQUIRED_KEYS) (dict_keys raw),
              SelectionError (context @ '' must contain exactly the 7 binding fields''))]
            (case dict_get raw ''context_window_tokens'' of
               Some (JInt tokens) \<Rightarrow> guarded
                 [(tokens < 1, SelectionError (context @ ''.context_window_tokens must be >= 1''))]
                 (Inr \<lparr>bd_id = py_strip binding_id, bd_provider = provider, bd_model_id = model_id, bd_tier = tier,
                    bd_deliberation = deliberation, bd_context_window_tokens = tokens, bd_capabilities = capabilities,
                    bd_enabled = enabled\<rparr>)
             | _ \<Rightarrow> selection_fail context ''.context_window_tokens must be a positive integer'')
        | _ \<Rightarrow> selection_fail context ''.enabled must be true or false''))))))"

fun validate_each :: "json_object \<Rightarrow> string list \<Rightarrow> selection_error + binding list" where
  "validate_each raw [] = Inr []"
| "validate_each raw (i # ids) = guarded
     [(\<not> nonempty_string i, SelectionError ''model binding IDs must be non-empty strings''),
      (i \<noteq> py_strip i, SelectionError (''model binding ID '' @ i @ '' must not contain outer whitespace''))]
     (and_then (case dict_get raw i of
          Some (JObj members) \<Rightarrow> validated_binding i members
        | _ \<Rightarrow> selection_fail (''model bindings.bindings.'' @ i) '' must be an object'') (\<lambda>b.
      and_then (validate_each raw ids) (\<lambda>bs. Inr (b # bs))))"

definition validated_bindings :: "clock \<Rightarrow> json_object \<Rightarrow> selection_error + binding list" where
  "validated_bindings iso8601 document = guarded
     (require_schema document ''agentdesk.model-bindings/v2'' ''model bindings'' @
      [(case dict_get document ''updated_at'' of
          None \<Rightarrow> True
        | Some JNull \<Rightarrow> False
        | Some (JStr t) \<Rightarrow> \<not> is_rfc3339_utc iso8601 t
        | _ \<Rightarrow> True, SelectionError ''model bindings.updated_at'')])
     (case dict_get document ''bindings'' of
        Some (JObj raw) \<Rightarrow> validate_each raw (sort (dict_keys raw))
      | _ \<Rightarrow> Inl (SelectionError ''model bindings.bindings must be an object''))"

section \<open>Selection\<close>

text \<open>Whether \<open>_rejection_reasons\<close> is empty.\<close>

definition acceptable :: "requirements \<Rightarrow> binding \<Rightarrow> bool" where
  "acceptable rq b \<longleftrightarrow> bd_enabled b \<and> MODEL_TIER_INDEX (bd_tier b) \<ge> MODEL_TIER_INDEX (rq_tier rq)
     \<and> DELIBERATION_TIER_INDEX (bd_deliberation b) \<ge> DELIBERATION_TIER_INDEX (rq_deliberation rq)
     \<and> set (rq_capabilities rq) \<subseteq> set (bd_capabilities b)"

text \<open>The provider and model a PM plan names, when there is one.\<close>

definition planned :: "(string \<times> string) option \<Rightarrow> binding \<Rightarrow> bool" where
  "planned fence b \<longleftrightarrow> (case fence of None \<Rightarrow> True | Some (p, m) \<Rightarrow> bd_provider b = p \<and> bd_model_id b = m)"

definition eligible_bindings :: "requirements \<Rightarrow> (string \<times> string) option \<Rightarrow> binding list \<Rightarrow> binding list" where
  "eligible_bindings rq fence bs = filter (\<lambda>b. planned fence b \<and> acceptable rq b) bs"

text \<open>\<open>min(xs, key=f)\<close> of a non-empty list: the first of the least.\<close>

fun first_min :: "('a \<Rightarrow> 'k::linorder) \<Rightarrow> 'a \<Rightarrow> 'a list \<Rightarrow> 'a" where
  "first_min f best [] = best"
| "first_min f best (x # xs) = first_min f (if f x < f best then x else best) xs"

definition nearest_key :: "binding \<Rightarrow> int \<times> string" where
  "nearest_key b = (int (MODEL_TIER_INDEX (bd_tier b)), bd_id b)"

definition highest_key :: "binding \<Rightarrow> int \<times> string" where
  "highest_key b = (- int (MODEL_TIER_INDEX (bd_tier b)), bd_id b)"

record selection =
  sl_required_tier :: string
  sl_required_capabilities :: "string list"
  sl_binding_id :: string
  sl_provider :: string
  sl_model_id :: string
  sl_tier :: string
  sl_deliberation :: string
  sl_context_window_tokens :: int
  sl_capabilities :: "string list"
  sl_degradation_approval_id :: "string option"

definition approval_guards :: "string option \<Rightarrow> (bool \<times> selection_error) list" where
  "approval_guards approval = (let given = (case approval of None \<Rightarrow> [] | Some a \<Rightarrow> py_strip a) in
     [(given = [], SelectionError ''role requires --degradation-approval-id''),
      (\<not> APPROVAL_ID_RE given, SelectionError ''--degradation-approval-id must use the APR-* namespace'')])"

definition choose_binding ::
  "requirements \<Rightarrow> string option \<Rightarrow> binding list \<Rightarrow> selection_error + binding \<times> bool"
where
  "choose_binding rq approval eligible =
    (case filter (\<lambda>b. MODEL_TIER_INDEX (bd_tier b) \<ge> MODEL_TIER_INDEX (rq_preferred rq)) eligible of
       b # bs \<Rightarrow> Inr (first_min nearest_key b bs, False)
     | [] \<Rightarrow> (case eligible of
         [] \<Rightarrow> Inl (SelectionError ''no enabled model binding satisfies hard requirements'')
       | b # bs \<Rightarrow> guarded
          ([(rq_degradation rq = ''block'', SelectionError ''degradation_policy=block forbids lower-tier bindings'')] @
           (if rq_degradation rq = ''require_pm_approval'' then approval_guards approval else []))
          (Inr (first_min highest_key b bs, True))))"

definition fence_of :: "string option \<Rightarrow> string option \<Rightarrow> selection_error + (string \<times> string) option" where
  "fence_of provider_id model_id = (case (provider_id, model_id) of
      (None, None) \<Rightarrow> Inr None
    | (Some p, Some m) \<Rightarrow> guarded
        [(\<not> nonempty_string p \<or> \<not> nonempty_string m, SelectionError ''planned provider and model must be non-empty strings'')]
        (Inr (Some (py_strip p, py_strip m)))
    | _ \<Rightarrow> Inl (SelectionError ''planned provider and model must be supplied together''))"

definition select_binding ::
  "clock \<Rightarrow> json_object \<Rightarrow> json_object \<Rightarrow> string \<Rightarrow> string \<Rightarrow> string \<Rightarrow> string list \<Rightarrow> string option \<Rightarrow>
   string option \<Rightarrow> string option \<Rightarrow> selection_error + selection"
where
  "select_binding iso8601 policy bindings_document role_id risk task_min_tier task_capabilities approval
     required_provider_id required_model_id =
     and_then (fence_of required_provider_id required_model_id) (\<lambda>fence.
     and_then (policy_requirements policy role_id risk task_min_tier task_capabilities) (\<lambda>rq.
     and_then (validated_bindings iso8601 bindings_document) (\<lambda>bindings.
     and_then (choose_binding rq approval (eligible_bindings rq fence bindings)) (\<lambda>(b, degraded).
     let given = (case approval of None \<Rightarrow> [] | Some a \<Rightarrow> py_strip a)
     in Inr \<lparr>sl_required_tier = rq_tier rq, sl_required_capabilities = sort (rq_capabilities rq),
       sl_binding_id = bd_id b, sl_provider = bd_provider b, sl_model_id = bd_model_id b, sl_tier = bd_tier b,
       sl_deliberation = bd_deliberation b, sl_context_window_tokens = bd_context_window_tokens b,
       sl_capabilities = sort (bd_capabilities b),
       sl_degradation_approval_id = (if degraded \<and> given \<noteq> [] then Some given else None)\<rparr>))))"

section \<open>Facts about the checks\<close>

lemma require_one_of_Inr: "require_one_of allowed v context = Inr t \<longleftrightarrow> v = Some (JStr t) \<and> t \<in> set allowed"
  by (auto simp: require_one_of_def selection_fail_def split: option.split json.split)

lemma require_tier_Inr [res_simps]: "require_tier v context = Inr t \<longleftrightarrow> v = Some (JStr t) \<and> t \<in> set MODEL_TIERS"
  by (simp add: require_tier_def require_one_of_Inr)

lemma require_deliberation_Inr [res_simps]:
  "require_deliberation_tier v context = Inr t \<longleftrightarrow> v = Some (JStr t) \<and> t \<in> set DELIBERATION_TIERS"
  by (simp add: require_deliberation_tier_def require_one_of_Inr)

lemma required_value_Inr [res_simps]: "required_value v key context = Inr x \<longleftrightarrow> dict_get v key = Some x"
  by (auto simp: required_value_def selection_fail_def split: option.split)

lemma collect_capabilities_Inr:
  "collect_capabilities context vs seen = Inr cs \<Longrightarrow> distinct seen \<Longrightarrow>
    distinct cs \<and> set cs = set seen \<union> {py_strip s | s. JStr s \<in> set vs} \<and> (\<forall>v \<in> set vs. \<exists>s. v = JStr s \<and> nonempty_string s)"
proof (induction vs arbitrary: seen)
  case (Cons v vs)
  then obtain s where s: "v = JStr s" "nonempty_string s" "py_strip s \<notin> set seen"
    "collect_capabilities context vs (seen @ [py_strip s]) = Inr cs"
    by (auto simp: selection_fail_def split: json.split_asm if_split_asm)
  from Cons.IH [OF s(4)] s Cons.prems(2) show ?case by auto
qed simp

lemma require_capabilities_Inr:
  assumes "require_capabilities v context = Inr cs"
  obtains vs where "v = Some (JArr vs)" "distinct cs" "set cs = {py_strip s | s. JStr s \<in> set vs}"
    "\<forall>x \<in> set vs. \<exists>s. x = JStr s \<and> nonempty_string s"
  using assms collect_capabilities_Inr [of _ _ "[]" cs]
  by (auto simp: require_capabilities_def selection_fail_def split: option.split_asm json.split_asm)

lemma max_tier:
  "max_tier best ts \<in> set (best # ts) \<and> (\<forall>t \<in> set (best # ts). MODEL_TIER_INDEX t \<le> MODEL_TIER_INDEX (max_tier best ts))"
proof (induction ts arbitrary: best)
  case (Cons t ts)
  let ?b = "if MODEL_TIER_INDEX t > MODEL_TIER_INDEX best then t else best"
  have "MODEL_TIER_INDEX t \<le> MODEL_TIER_INDEX ?b \<and> MODEL_TIER_INDEX best \<le> MODEL_TIER_INDEX ?b \<and> ?b \<in> {t, best}" by simp
  with Cons.IH [of ?b] show ?case by (auto simp del: if_split intro: order_trans)
qed simp

lemma set_set_union [simp]: "set (set_union xs ys) = set xs \<union> set ys"
  by (auto simp: set_union_def)

lemma first_min: "first_min f best xs \<in> set (best # xs) \<and> (\<forall>x \<in> set (best # xs). f (first_min f best xs) \<le> f x)"
proof (induction xs arbitrary: best)
  case (Cons x xs)
  let ?b = "if f x < f best then x else best"
  have "f ?b \<le> f x \<and> f ?b \<le> f best \<and> ?b \<in> {x, best}" by auto
  with Cons.IH [of ?b] show ?case by (auto simp del: if_split intro: order_trans)
qed simp

text \<open>What the requirements are, in terms of the policy document.\<close>

lemma validate_floors_Inr: "validate_floors floors rs = Inr ts \<Longrightarrow>
    length ts = length rs \<and> (\<forall>i < length rs. dict_get floors (rs ! i) = Some (JStr (ts ! i)) \<and> ts ! i \<in> set MODEL_TIERS)"
proof (induction rs arbitrary: ts)
  case (Cons r rs)
  then obtain t us where t: "dict_get floors r = Some (JStr t)" "t \<in> set MODEL_TIERS" "validate_floors floors rs = Inr us" "ts = t # us"
    by (auto simp: res_simps)
  from Cons.IH [OF t(3)] t show ?case by (auto simp: nth_Cons split: nat.split)
qed simp

lemma risk_floor_Inr:
  assumes "risk_floor_of policy risk = Inr t"
  obtains floors ts where "dict_get policy ''risk_floors'' = Some (JObj floors)" "validate_floors floors RISKS = Inr ts"
    "sorted (map MODEL_TIER_INDEX ts)" "map_of (zip RISKS ts) risk = Some t" "dict_get floors risk = Some (JStr t)"
    "t \<in> set MODEL_TIERS"
proof -
  from assms obtain floors ts where f: "dict_get policy ''risk_floors'' = Some (JObj floors)" "validate_floors floors RISKS = Inr ts"
    "\<not> list_ex (\<lambda>(low, high). MODEL_TIER_INDEX high < MODEL_TIER_INDEX low) (zip ts (tl ts))" "map_of (zip RISKS ts) risk = Some t"
    by (auto simp: risk_floor_of_def res_simps split: option.split_asm json.split_asm)
  have "sorted (map MODEL_TIER_INDEX xs)"
    if "\<not> list_ex (\<lambda>(low, high). MODEL_TIER_INDEX high < MODEL_TIER_INDEX low) (zip xs (tl xs))" for xs
    using that by (induction xs rule: induct_list012) auto
  from this [OF f(3)] have sorted: "sorted (map MODEL_TIER_INDEX ts)" .
  note floors = validate_floors_Inr [OF f(2)]
  from map_of_SomeD [OF f(4)] obtain i where "i < length RISKS" "risk = RISKS ! i" "t = ts ! i"
    using floors by (auto simp: set_zip)
  with floors that [OF f(1,2) sorted f(4)] show ?thesis by auto
qed

lemma policy_requirements_Inr:
  assumes "policy_requirements policy role_id risk task_min_tier task_capabilities = Inr rq"
  obtains risk_floor roles role minimum_tier default_tier role_capabilities task_floor where
    "risk_floor_of policy risk = Inr risk_floor" "dict_get policy ''roles'' = Some (JObj roles)"
    "dict_get roles role_id = Some (JObj role)" "dict_get role ''minimum_tier'' = Some (JStr minimum_tier)"
    "dict_get role ''default_tier'' = Some (JStr default_tier)"
    "dict_get role ''deliberation_tier'' = Some (JStr (rq_deliberation rq))" "rq_deliberation rq \<in> set DELIBERATION_TIERS"
    "require_capabilities (dict_get role ''required_capabilities'')
       (''role policy.roles.'' @ role_id @ ''.required_capabilities'') = Inr role_capabilities"
    "dict_get role ''degradation_policy'' = Some (JStr (rq_degradation rq))" "rq_degradation rq \<in> set DEGRADATION_POLICIES"
    "task_floor = (if task_min_tier = ''inherit'' then minimum_tier else task_min_tier)"
    "minimum_tier \<in> set MODEL_TIERS" "default_tier \<in> set MODEL_TIERS" "task_floor \<in> set MODEL_TIERS"
    "rq_tier rq = max_tier minimum_tier [task_floor, risk_floor]" "rq_preferred rq = max_tier default_tier [rq_tier rq]"
    "rq_capabilities rq = set_union role_capabilities task_capabilities"
proof -
  from assms obtain risk_floor where floor: "risk_floor_of policy risk = Inr risk_floor"
    and rest: "(case dict_get policy ''roles'' of
           Some (JObj roles) \<Rightarrow> (case dict_get roles role_id of
               Some (JObj role) \<Rightarrow>
                 role_requirements role (''role policy.roles.'' @ role_id) risk_floor task_min_tier task_capabilities
             | _ \<Rightarrow> Inl (SelectionError (''role '' @ role_id @ '' has no policy'')))
         | _ \<Rightarrow> Inl (SelectionError ''role policy.roles must be an object'')) = Inr rq"
    unfolding policy_requirements_def guarded_Inr_iff and_then_Inr_iff by blast
  from rest obtain roles role where "dict_get policy ''roles'' = Some (JObj roles)" "dict_get roles role_id = Some (JObj role)"
    "role_requirements role (''role policy.roles.'' @ role_id) risk_floor task_min_tier task_capabilities = Inr rq"
    by (simp split: option.split_asm json.split_asm)
  with floor obtain roles role where r: "risk_floor_of policy risk = Inr risk_floor"
    "dict_get policy ''roles'' = Some (JObj roles)" "dict_get roles role_id = Some (JObj role)"
    and role: "role_requirements role (''role policy.roles.'' @ role_id) risk_floor task_min_tier task_capabilities = Inr rq"
    by blast
  let ?ctx = "''role policy.roles.'' @ role_id"
  from role obtain minimum_tier default_tier where t: "dict_get role ''minimum_tier'' = Some (JStr minimum_tier)"
    "minimum_tier \<in> set MODEL_TIERS" "dict_get role ''default_tier'' = Some (JStr default_tier)" "default_tier \<in> set MODEL_TIERS"
    unfolding role_requirements_def by (auto simp: res_simps)
  from role obtain role_capabilities where c:
    "require_capabilities (dict_get role ''required_capabilities'') (?ctx @ ''.required_capabilities'') = Inr role_capabilities"
    unfolding role_requirements_def by (auto simp: res_simps)
  let ?floor = "if task_min_tier = ''inherit'' then minimum_tier else task_min_tier"
  from role t c have d: "dict_get role ''deliberation_tier'' = Some (JStr (rq_deliberation rq)) \<and> rq_deliberation rq \<in> set DELIBERATION_TIERS
    \<and> dict_get role ''degradation_policy'' = Some (JStr (rq_degradation rq)) \<and> rq_degradation rq \<in> set DEGRADATION_POLICIES
    \<and> ?floor \<in> set MODEL_TIERS \<and> rq_tier rq = max_tier minimum_tier [?floor, risk_floor]
    \<and> rq_preferred rq = max_tier default_tier [rq_tier rq] \<and> rq_capabilities rq = set_union role_capabilities task_capabilities"
    unfolding role_requirements_def
    by (auto simp: res_simps Let_def json_str_def selection_fail_def simp del: max_tier.simps
        split: option.split_asm json.split_asm if_split_asm)
  show ?thesis by (rule that [OF r t(1,3) _ _ c [unfolded append_assoc] _ _ refl]) (use d t in simp_all)
qed

text \<open>A binding with every field in its range, as the validation promises.\<close>

definition trimmed :: "string \<Rightarrow> bool" where
  "trimmed s \<longleftrightarrow> s \<noteq> [] \<and> py_strip s = s"

definition well_typed_binding :: "binding \<Rightarrow> bool" where
  "well_typed_binding b \<longleftrightarrow> trimmed (bd_id b) \<and> trimmed (bd_provider b) \<and> trimmed (bd_model_id b)
     \<and> bd_tier b \<in> set MODEL_TIERS \<and> bd_deliberation b \<in> set DELIBERATION_TIERS \<and> 1 \<le> bd_context_window_tokens b
     \<and> distinct (bd_capabilities b) \<and> [] \<notin> set (bd_capabilities b)"

text \<open>The fields of the binding are those of its entry in the document.\<close>

definition describes :: "json_object \<Rightarrow> binding \<Rightarrow> bool" where
  "describes raw b \<longleftrightarrow> dict_get raw ''provider'' = Some (JStr (bd_provider b)) \<and> dict_get raw ''model_id'' = Some (JStr (bd_model_id b))
     \<and> dict_get raw ''tier'' = Some (JStr (bd_tier b)) \<and> dict_get raw ''deliberation_tier'' = Some (JStr (bd_deliberation b))
     \<and> dict_get raw ''context_window_tokens'' = Some (JInt (bd_context_window_tokens b))
     \<and> dict_get raw ''enabled'' = Some (JBool (bd_enabled b))
     \<and> (\<exists>vs. dict_get raw ''capabilities'' = Some (JArr vs) \<and> set (bd_capabilities b) = {py_strip s | s. JStr s \<in> set vs})"

lemma nonempty_trimmed: "nonempty_string s \<Longrightarrow> s = py_strip s \<Longrightarrow> trimmed s"
  by (auto simp: nonempty_string_def trimmed_def)

lemma text_value_nonempty: "text_value v \<noteq> [] \<Longrightarrow> v = Some (JStr (text_value v))"
  by (auto simp: text_value_def split: option.splits json.splits)

lemma validated_binding_Inr:
  assumes "validated_binding i raw = Inr b"
  shows "bd_id b = py_strip i \<and> describes raw b \<and> (trimmed i \<longrightarrow> well_typed_binding b)"
proof -
  let ?provider = "text_value (dict_get raw ''provider'')" and ?model = "text_value (dict_get raw ''model_id'')"
  from assms have texts: "nonempty_string ?provider" "nonempty_string ?model" "?provider = py_strip ?provider" "?model = py_strip ?model"
    unfolding validated_binding_def Let_def guarded_Inr_iff by simp_all
  from assms obtain tier deliberation capabilities where
    t: "dict_get raw ''tier'' = Some (JStr tier)" "tier \<in> set MODEL_TIERS"
      "dict_get raw ''deliberation_tier'' = Some (JStr deliberation)" "deliberation \<in> set DELIBERATION_TIERS"
    and c: "require_capabilities (dict_get raw ''capabilities'') (''model bindings.bindings.'' @ i @ ''.capabilities'') = Inr capabilities"
    and rest: "(case dict_get raw ''enabled'' of
          Some (JBool enabled) \<Rightarrow> guarded
            [(list_ex (\<lambda>k. k \<notin> set (dict_keys raw)) BINDING_REQUIRED_KEYS
              \<or> list_ex (\<lambda>k. k \<notin> set BINDING_REQUIRED_KEYS) (dict_keys raw),
              SelectionError ((''model bindings.bindings.'' @ i) @ '' must contain exactly the 7 binding fields''))]
            (case dict_get raw ''context_window_tokens'' of
               Some (JInt tokens) \<Rightarrow> guarded
                 [(tokens < 1, SelectionError ((''model bindings.bindings.'' @ i) @ ''.context_window_tokens must be >= 1''))]
                 (Inr \<lparr>bd_id = py_strip i, bd_provider = ?provider, bd_model_id = ?model, bd_tier = tier,
                    bd_deliberation = deliberation, bd_context_window_tokens = tokens, bd_capabilities = capabilities,
                    bd_enabled = enabled\<rparr>)
             | _ \<Rightarrow> selection_fail (''model bindings.bindings.'' @ i) ''.context_window_tokens must be a positive integer'')
        | _ \<Rightarrow> selection_fail (''model bindings.bindings.'' @ i) ''.enabled must be true or false'') = Inr b"
    unfolding validated_binding_def Let_def guarded_Inr_iff and_then_Inr_iff require_tier_Inr require_deliberation_Inr
      required_value_Inr append_assoc by auto
  from rest obtain enabled tokens where e: "dict_get raw ''enabled'' = Some (JBool enabled)"
    "dict_get raw ''context_window_tokens'' = Some (JInt tokens)" "1 \<le> tokens"
    "b = \<lparr>bd_id = py_strip i, bd_provider = ?provider, bd_model_id = ?model, bd_tier = tier,
       bd_deliberation = deliberation, bd_context_window_tokens = tokens, bd_capabilities = capabilities, bd_enabled = enabled\<rparr>"
    by (simp add: selection_fail_def guarded_Inr_iff split: option.split_asm json.split_asm)
  from c show ?thesis
  proof (rule require_capabilities_Inr)
    fix vs assume vs: "dict_get raw ''capabilities'' = Some (JArr vs)" "distinct capabilities"
      "set capabilities = {py_strip s | s. JStr s \<in> set vs}" "\<forall>x \<in> set vs. \<exists>s. x = JStr s \<and> nonempty_string s"
    have "[] \<notin> set capabilities" using vs(3,4) by (auto simp: nonempty_string_def)
    moreover have "trimmed ?provider" "trimmed ?model" using texts by (auto intro: nonempty_trimmed)
    moreover have "dict_get raw ''provider'' = Some (JStr ?provider)" "dict_get raw ''model_id'' = Some (JStr ?model)"
      using calculation by (auto simp: trimmed_def intro: text_value_nonempty)
    ultimately show ?thesis using t e vs by (auto simp: describes_def well_typed_binding_def trimmed_def)
  qed
qed

lemma validate_each_Inr:
  assumes "validate_each raw ids = Inr bs"
  shows "map bd_id bs = ids \<and> (\<forall>b \<in> set bs. well_typed_binding b
    \<and> (\<exists>members. dict_get raw (bd_id b) = Some (JObj members) \<and> describes members b))"
  using assms
proof (induction ids arbitrary: bs)
  case (Cons i ids)
  from Cons.prems obtain b us where i: "nonempty_string i" "i = py_strip i"
    and b: "(case dict_get raw i of Some (JObj members) \<Rightarrow> validated_binding i members
        | _ \<Rightarrow> selection_fail (''model bindings.bindings.'' @ i) '' must be an object'') = Inr b"
    and us: "validate_each raw ids = Inr us" "bs = b # us"
    by (simp add: guarded_Inr_iff and_then_Inr_iff) blast
  from b obtain members where "dict_get raw i = Some (JObj members)" "validated_binding i members = Inr b"
    by (simp add: selection_fail_def split: option.split_asm json.split_asm)
  with validated_binding_Inr i nonempty_trimmed [OF i] Cons.IH [OF us(1)] us(2) show ?case by fastforce
qed simp

lemma validated_bindings_entries:
  assumes "validated_bindings iso8601 document = Inr bs"
  shows "\<exists>raw. dict_get document ''bindings'' = Some (JObj raw) \<and> map bd_id bs = sort (dict_keys raw)
    \<and> (\<forall>b \<in> set bs. well_typed_binding b
         \<and> (\<exists>members. dict_get raw (bd_id b) = Some (JObj members) \<and> describes members b))"
proof -
  from assms obtain raw where "dict_get document ''bindings'' = Some (JObj raw)" "validate_each raw (sort (dict_keys raw)) = Inr bs"
    unfolding validated_bindings_def guarded_Inr_iff by (simp split: option.split_asm json.split_asm)
  with validate_each_Inr show ?thesis by blast
qed

section \<open>Properties\<close>

text \<open>
  Validation gives types: whatever JSON the bindings document holds, when it is accepted it
  yields one binding for each of its entries, in the order of the identities, every field in its
  range and equal to the entry's; so no later step meets a value of another type.
\<close>

theorem validated_bindings_typed:
  assumes "validated_bindings iso8601 document = Inr bs"
  shows "\<exists>raw. dict_get document ''bindings'' = Some (JObj raw) \<and> map bd_id bs = sort (dict_keys raw)
    \<and> (\<forall>b \<in> set bs. well_typed_binding b
         \<and> (\<exists>members. dict_get raw (bd_id b) = Some (JObj members) \<and> describes members b))"
  using assms by (rule validated_bindings_entries)

lemma choose_binding_Inr:
  assumes "choose_binding rq approval eligible = Inr (b, degraded)"
  shows "b \<in> set eligible \<and>
    (if degraded then (\<forall>x \<in> set eligible. MODEL_TIER_INDEX (bd_tier x) < MODEL_TIER_INDEX (rq_preferred rq) \<and> highest_key b \<le> highest_key x)
        \<and> rq_degradation rq \<noteq> ''block'' \<and> (rq_degradation rq = ''require_pm_approval'' \<longrightarrow> raise_first (approval_guards approval) = None)
     else MODEL_TIER_INDEX (rq_preferred rq) \<le> MODEL_TIER_INDEX (bd_tier b)
        \<and> (\<forall>x \<in> set eligible. MODEL_TIER_INDEX (rq_preferred rq) \<le> MODEL_TIER_INDEX (bd_tier x) \<longrightarrow> nearest_key b \<le> nearest_key x))"
proof (cases "filter (\<lambda>b. MODEL_TIER_INDEX (bd_tier b) \<ge> MODEL_TIER_INDEX (rq_preferred rq)) eligible")
  case (Cons x xs)
  have all: "set (x # xs) = {b \<in> set eligible. MODEL_TIER_INDEX (bd_tier b) \<ge> MODEL_TIER_INDEX (rq_preferred rq)}"
    by (metis Cons set_filter)
  from assms Cons have "b = first_min nearest_key x xs" "\<not> degraded" by (auto simp: choose_binding_def)
  with first_min [of nearest_key x xs] show ?thesis unfolding all by auto
next
  case Nil
  then have low: "\<forall>x \<in> set eligible. MODEL_TIER_INDEX (bd_tier x) < MODEL_TIER_INDEX (rq_preferred rq)"
    by (auto simp: filter_empty_conv not_le)
  from assms Nil obtain x xs where e: "eligible = x # xs" by (cases eligible) (auto simp: choose_binding_def)
  with assms Nil have b: "raise_first ([(rq_degradation rq = ''block'', SelectionError ''degradation_policy=block forbids lower-tier bindings'')] @
           (if rq_degradation rq = ''require_pm_approval'' then approval_guards approval else [])) = None"
    "b = first_min highest_key x xs" "degraded"
    by (simp_all add: choose_binding_def guarded_Inr_iff)
  with first_min [of highest_key x xs] e low show ?thesis by (auto split: if_split_asm)
qed

lemma select_binding_Inr:
  assumes "select_binding iso8601 policy document role_id risk task_min_tier task_capabilities approval p m = Inr s"
  obtains fence rq bs b degraded where "fence_of p m = Inr fence"
    "policy_requirements policy role_id risk task_min_tier task_capabilities = Inr rq"
    "validated_bindings iso8601 document = Inr bs" "choose_binding rq approval (eligible_bindings rq fence bs) = Inr (b, degraded)"
    "s = \<lparr>sl_required_tier = rq_tier rq, sl_required_capabilities = sort (rq_capabilities rq),
       sl_binding_id = bd_id b, sl_provider = bd_provider b, sl_model_id = bd_model_id b, sl_tier = bd_tier b,
       sl_deliberation = bd_deliberation b, sl_context_window_tokens = bd_context_window_tokens b,
       sl_capabilities = sort (bd_capabilities b),
       sl_degradation_approval_id = (let given = (case approval of None \<Rightarrow> [] | Some a \<Rightarrow> py_strip a)
          in if degraded \<and> given \<noteq> [] then Some given else None)\<rparr>"
  using assms unfolding select_binding_def and_then_Inr_iff Let_def by (auto split: prod.split_asm)

text \<open>
  C16. A selection meets every hard requirement of the documents: the binding exists and is
  enabled, its tier is at least the role's minimum, the floor of the risk and the task's own
  minimum, its deliberation tier at least the role's, it has every capability of the role and of
  the task, and it is the provider and model of the plan when there is one.
\<close>

theorem selection_meets_requirements:
  assumes sel: "select_binding iso8601 policy document role_id risk task_min_tier task_capabilities approval p m = Inr s"
    and "dict_get policy ''roles'' = Some (JObj roles)" and "dict_get roles role_id = Some (JObj role)"
    and "dict_get role ''minimum_tier'' = Some (JStr minimum_tier)" and "risk_floor_of policy risk = Inr risk_floor"
    and "dict_get role ''deliberation_tier'' = Some (JStr deliberation)"
    and "dict_get role ''required_capabilities'' = Some (JArr capabilities)"
  shows "(\<exists>raw members. dict_get document ''bindings'' = Some (JObj raw) \<and> dict_get raw (sl_binding_id s) = Some (JObj members)
      \<and> dict_get members ''enabled'' = Some (JBool True) \<and> dict_get members ''provider'' = Some (JStr (sl_provider s))
      \<and> dict_get members ''model_id'' = Some (JStr (sl_model_id s)) \<and> dict_get members ''tier'' = Some (JStr (sl_tier s)))
    \<and> MODEL_TIER_INDEX minimum_tier \<le> MODEL_TIER_INDEX (sl_tier s)
    \<and> MODEL_TIER_INDEX risk_floor \<le> MODEL_TIER_INDEX (sl_tier s)
    \<and> (task_min_tier \<noteq> ''inherit'' \<longrightarrow> MODEL_TIER_INDEX task_min_tier \<le> MODEL_TIER_INDEX (sl_tier s))
    \<and> DELIBERATION_TIER_INDEX deliberation \<le> DELIBERATION_TIER_INDEX (sl_deliberation s)
    \<and> {py_strip c | c. JStr c \<in> set capabilities} \<union> set task_capabilities \<subseteq> set (sl_capabilities s)
    \<and> (\<forall>x. p = Some x \<longrightarrow> sl_provider s = py_strip x) \<and> (\<forall>x. m = Some x \<longrightarrow> sl_model_id s = py_strip x)"
proof (rule select_binding_Inr [OF sel])
  fix fence rq bs b degraded
  assume fence: "fence_of p m = Inr fence"
    and rq: "policy_requirements policy role_id risk task_min_tier task_capabilities = Inr rq"
    and bs: "validated_bindings iso8601 document = Inr bs"
    and choice: "choose_binding rq approval (eligible_bindings rq fence bs) = Inr (b, degraded)"
    and s: "s = \<lparr>sl_required_tier = rq_tier rq, sl_required_capabilities = sort (rq_capabilities rq),
       sl_binding_id = bd_id b, sl_provider = bd_provider b, sl_model_id = bd_model_id b, sl_tier = bd_tier b,
       sl_deliberation = bd_deliberation b, sl_context_window_tokens = bd_context_window_tokens b,
       sl_capabilities = sort (bd_capabilities b),
       sl_degradation_approval_id = (let given = (case approval of None \<Rightarrow> [] | Some a \<Rightarrow> py_strip a)
          in if degraded \<and> given \<noteq> [] then Some given else None)\<rparr>"
  from choose_binding_Inr [OF choice] have b: "b \<in> set bs" "planned fence b" "acceptable rq b"
    by (auto simp: eligible_bindings_def)
  from validated_bindings_entries [OF bs] b(1) obtain raw members where doc: "dict_get document ''bindings'' = Some (JObj raw)"
    "dict_get raw (bd_id b) = Some (JObj members)" "describes members b" by blast
  have fenced: "(\<forall>x. p = Some x \<longrightarrow> bd_provider b = py_strip x) \<and> (\<forall>x. m = Some x \<longrightarrow> bd_model_id b = py_strip x)"
    using fence b(2) by (auto simp: fence_of_def planned_def guarded_Inr_iff split: option.split_asm)
  from rq obtain role_capabilities task_floor where
    r: "rq_tier rq = max_tier minimum_tier [task_floor, risk_floor]" "rq_deliberation rq = deliberation"
      "task_floor = (if task_min_tier = ''inherit'' then minimum_tier else task_min_tier)"
      "rq_capabilities rq = set_union role_capabilities task_capabilities"
      "set role_capabilities = {py_strip c | c. JStr c \<in> set capabilities}"
    by (rule policy_requirements_Inr) (use assms(2-7) in \<open>auto elim!: require_capabilities_Inr\<close>)
  from max_tier [of minimum_tier "[task_floor, risk_floor]"] b(3)
  have tiers: "\<forall>t \<in> {minimum_tier, task_floor, risk_floor}. MODEL_TIER_INDEX t \<le> MODEL_TIER_INDEX (bd_tier b)"
    by (auto simp: acceptable_def r(1) simp del: max_tier.simps intro: order_trans)
  show ?thesis
    using doc b(3) tiers fenced r(2-5) by (auto simp: s describes_def acceptable_def split: if_split_asm)
qed

lemma approval_guards_None: "raise_first (approval_guards approval) = None \<longleftrightarrow>
    (\<exists>a. approval = Some a \<and> py_strip a \<noteq> [] \<and> APPROVAL_ID_RE (py_strip a))"
  by (cases approval) (auto simp: approval_guards_def Let_def)

text \<open>
  A binding below the preferred tier is chosen only when no acceptable binding reaches it and
  the role does not forbid it; then it is the highest available, and where the role demands an
  approval one in the APR namespace was given and is recorded.  Any other selection records no
  approval and is the nearest tier at or above the preferred one.
\<close>

theorem selection_degradation_controlled:
  assumes sel: "select_binding iso8601 policy document role_id risk task_min_tier task_capabilities approval p m = Inr s"
    and rq: "policy_requirements policy role_id risk task_min_tier task_capabilities = Inr rq"
    and bs: "validated_bindings iso8601 document = Inr bs" and fence: "fence_of p m = Inr fence"
  shows "if MODEL_TIER_INDEX (sl_tier s) < MODEL_TIER_INDEX (rq_preferred rq)
    then rq_degradation rq \<noteq> ''block''
      \<and> (rq_degradation rq = ''require_pm_approval'' \<longrightarrow>
          (\<exists>a. approval = Some a \<and> APPROVAL_ID_RE (py_strip a) \<and> sl_degradation_approval_id s = Some (py_strip a)))
      \<and> (\<forall>b \<in> set bs. planned fence b \<and> acceptable rq b \<longrightarrow> MODEL_TIER_INDEX (bd_tier b) \<le> MODEL_TIER_INDEX (sl_tier s))
    else sl_degradation_approval_id s = None
      \<and> (\<forall>b \<in> set bs. planned fence b \<and> acceptable rq b \<and> MODEL_TIER_INDEX (rq_preferred rq) \<le> MODEL_TIER_INDEX (bd_tier b) \<longrightarrow>
           MODEL_TIER_INDEX (sl_tier s) \<le> MODEL_TIER_INDEX (bd_tier b))"
proof (rule select_binding_Inr [OF sel])
  fix fence' rq' bs' b degraded
  assume "fence_of p m = Inr fence'" "policy_requirements policy role_id risk task_min_tier task_capabilities = Inr rq'"
    "validated_bindings iso8601 document = Inr bs'" and c: "choose_binding rq' approval (eligible_bindings rq' fence' bs') = Inr (b, degraded)"
    and s: "s = \<lparr>sl_required_tier = rq_tier rq', sl_required_capabilities = sort (rq_capabilities rq'),
       sl_binding_id = bd_id b, sl_provider = bd_provider b, sl_model_id = bd_model_id b, sl_tier = bd_tier b,
       sl_deliberation = bd_deliberation b, sl_context_window_tokens = bd_context_window_tokens b,
       sl_capabilities = sort (bd_capabilities b),
       sl_degradation_approval_id = (let given = (case approval of None \<Rightarrow> [] | Some a \<Rightarrow> py_strip a)
          in if degraded \<and> given \<noteq> [] then Some given else None)\<rparr>"
  with rq bs fence have c: "choose_binding rq approval (eligible_bindings rq fence bs) = Inr (b, degraded)" by simp
  note choice = choose_binding_Inr [OF c]
  show ?thesis
  proof (cases degraded)
    case True
    have approved: "\<exists>a. approval = Some a \<and> APPROVAL_ID_RE (py_strip a) \<and> sl_degradation_approval_id s = Some (py_strip a)"
      if "raise_first (approval_guards approval) = None"
      using that True by (auto simp: approval_guards_None s Let_def)
    from choice True have low: "MODEL_TIER_INDEX (bd_tier b) < MODEL_TIER_INDEX (rq_preferred rq)"
      "\<forall>x \<in> set bs. planned fence x \<and> acceptable rq x \<longrightarrow> MODEL_TIER_INDEX (bd_tier x) \<le> MODEL_TIER_INDEX (bd_tier b)"
      "rq_degradation rq \<noteq> ''block''" "rq_degradation rq = ''require_pm_approval'' \<longrightarrow> raise_first (approval_guards approval) = None"
      by (auto simp: eligible_bindings_def highest_key_def)
    moreover have "sl_tier s = bd_tier b" by (simp add: s)
    ultimately show ?thesis using approved by simp
  next
    case False
    with choice have "MODEL_TIER_INDEX (rq_preferred rq) \<le> MODEL_TIER_INDEX (bd_tier b)"
      "\<forall>x \<in> set bs. planned fence x \<and> acceptable rq x \<and> MODEL_TIER_INDEX (rq_preferred rq) \<le> MODEL_TIER_INDEX (bd_tier x) \<longrightarrow>
         MODEL_TIER_INDEX (bd_tier b) \<le> MODEL_TIER_INDEX (bd_tier x)"
      by (auto simp: eligible_bindings_def nearest_key_def)
    with False show ?thesis by (simp add: s not_less [symmetric])
  qed
qed

text \<open>
  Selection is complete: with valid documents it fails only when no acceptable binding exists,
  or none at the preferred tier and the role's policy refuses a lower one.
\<close>

theorem selection_complete:
  assumes rq: "policy_requirements policy role_id risk task_min_tier task_capabilities = Inr rq"
    and bs: "validated_bindings iso8601 document = Inr bs" and fence: "fence_of p m = Inr fence"
  shows "(\<exists>s. select_binding iso8601 policy document role_id risk task_min_tier task_capabilities approval p m = Inr s) \<longleftrightarrow>
    (\<exists>b \<in> set bs. planned fence b \<and> acceptable rq b \<and>
       (MODEL_TIER_INDEX (rq_preferred rq) \<le> MODEL_TIER_INDEX (bd_tier b)
        \<or> (rq_degradation rq \<noteq> ''block''
           \<and> (rq_degradation rq = ''require_pm_approval'' \<longrightarrow> (\<exists>a. approval = Some a \<and> APPROVAL_ID_RE (py_strip a))))))"
    (is "_ \<longleftrightarrow> ?available")
proof
  assume "\<exists>s. select_binding iso8601 policy document role_id risk task_min_tier task_capabilities approval p m = Inr s"
  then obtain b degraded where "choose_binding rq approval (eligible_bindings rq fence bs) = Inr (b, degraded)"
    using rq bs fence by (auto elim!: select_binding_Inr)
  from choose_binding_Inr [OF this] have b: "b \<in> set bs" "planned fence b" "acceptable rq b"
    "\<not> degraded \<Longrightarrow> MODEL_TIER_INDEX (rq_preferred rq) \<le> MODEL_TIER_INDEX (bd_tier b)"
    "degraded \<Longrightarrow> rq_degradation rq \<noteq> ''block''
      \<and> (rq_degradation rq = ''require_pm_approval'' \<longrightarrow> raise_first (approval_guards approval) = None)"
    by (auto simp: eligible_bindings_def split: if_split_asm)
  have approved: "raise_first (approval_guards approval) = None \<Longrightarrow> \<exists>a. approval = Some a \<and> APPROVAL_ID_RE (py_strip a)"
    by (auto simp: approval_guards_None)
  show ?available by (rule bexI [OF _ b(1)]) (use b(2-5) approved in blast)
next
  assume ?available
  then obtain b where b: "b \<in> set (eligible_bindings rq fence bs)"
    "MODEL_TIER_INDEX (rq_preferred rq) \<le> MODEL_TIER_INDEX (bd_tier b) \<or> (rq_degradation rq \<noteq> ''block''
       \<and> (rq_degradation rq = ''require_pm_approval'' \<longrightarrow> (\<exists>a. approval = Some a \<and> APPROVAL_ID_RE (py_strip a))))"
    by (auto simp: eligible_bindings_def)
  have "\<exists>c. choose_binding rq approval (eligible_bindings rq fence bs) = Inr c"
  proof (cases "filter (\<lambda>b. MODEL_TIER_INDEX (bd_tier b) \<ge> MODEL_TIER_INDEX (rq_preferred rq)) (eligible_bindings rq fence bs)")
    case Nil
    with b(1) have "\<not> MODEL_TIER_INDEX (rq_preferred rq) \<le> MODEL_TIER_INDEX (bd_tier b)" by (auto simp: filter_empty_conv)
    with b(2) have open_policy: "rq_degradation rq \<noteq> ''block''"
      "rq_degradation rq = ''require_pm_approval'' \<longrightarrow> raise_first (approval_guards approval) = None"
      by (auto simp: approval_guards_None APPROVAL_ID_RE_def)
    from b(1) obtain x xs where "eligible_bindings rq fence bs = x # xs" by (cases "eligible_bindings rq fence bs") auto
    with Nil open_policy show ?thesis by (auto simp: choose_binding_def)
  qed (simp add: choose_binding_def del: split_paired_Ex)
  with rq bs fence show "\<exists>s. select_binding iso8601 policy document role_id risk task_min_tier task_capabilities approval p m = Inr s"
    by (auto simp: select_binding_def Let_def)
qed

text \<open>
  Risk is monotone: under the same policy a higher risk never requires a lower tier.
\<close>

theorem higher_risk_higher_tier:
  assumes "policy_requirements policy role_id low task_min_tier task_capabilities = Inr rq"
    and "policy_requirements policy role_id high task_min_tier task_capabilities = Inr rq'"
    and "position RISKS low \<le> position RISKS high"
  shows "MODEL_TIER_INDEX (rq_tier rq) \<le> MODEL_TIER_INDEX (rq_tier rq')
    \<and> MODEL_TIER_INDEX (rq_preferred rq) \<le> MODEL_TIER_INDEX (rq_preferred rq')"
proof (rule policy_requirements_Inr [OF assms(1)])
  fix floor roles role minimum_tier default_tier role_capabilities task_floor
  assume l: "risk_floor_of policy low = Inr floor" "dict_get policy ''roles'' = Some (JObj roles)" "dict_get roles role_id = Some (JObj role)"
    "dict_get role ''minimum_tier'' = Some (JStr minimum_tier)" "dict_get role ''default_tier'' = Some (JStr default_tier)"
    "task_floor = (if task_min_tier = ''inherit'' then minimum_tier else task_min_tier)"
    "rq_tier rq = max_tier minimum_tier [task_floor, floor]" "rq_preferred rq = max_tier default_tier [rq_tier rq]"
  obtain floor' where h: "risk_floor_of policy high = Inr floor'" "rq_tier rq' = max_tier minimum_tier [task_floor, floor']"
    "rq_preferred rq' = max_tier default_tier [rq_tier rq']"
    by (rule policy_requirements_Inr [OF assms(2)]) (use l in auto)
  have "MODEL_TIER_INDEX floor \<le> MODEL_TIER_INDEX floor'"
  proof (rule risk_floor_Inr [OF l(1)], rule risk_floor_Inr [OF h(1)])
    fix floors ts floors' ts'
    assume f: "dict_get policy ''risk_floors'' = Some (JObj floors)" "validate_floors floors RISKS = Inr ts"
      "sorted (map MODEL_TIER_INDEX ts)" "map_of (zip RISKS ts) low = Some floor"
      "dict_get policy ''risk_floors'' = Some (JObj floors')" "validate_floors floors' RISKS = Inr ts'" "map_of (zip RISKS ts') high = Some floor'"
    then have same: "ts' = ts" by simp
    have len: "length ts = length RISKS" using validate_floors_Inr [OF f(2)] by simp
    have at: "position RISKS r < length ts \<and> ts ! position RISKS r = t" if "map_of (zip RISKS ts) r = Some t" for r t
      using that len
      by (auto simp: RISKS_def position_def length_Suc_conv eval_nat_numeral split: if_split_asm)
    from sorted_nth_mono [OF f(3), of "position RISKS low" "position RISKS high"] at [OF f(4)] at [OF f(7) [unfolded same]] assms(3)
    show ?thesis by simp
  qed
  then show ?thesis
    using max_tier [of minimum_tier "[task_floor, floor]"] max_tier [of minimum_tier "[task_floor, floor']"]
      max_tier [of default_tier "[rq_tier rq]"] max_tier [of default_tier "[rq_tier rq']"]
    unfolding l(7,8) h(2,3) by (auto simp del: max_tier.simps)
qed

section \<open>Witnesses\<close>

definition sample_policy :: json_object where
  "sample_policy =
    [(''schema_version'', JStr ''agentdesk.role-policies/v1''), (''tier_order'', JArr (map JStr MODEL_TIERS)),
     (''deliberation_tier_order'', JArr (map JStr DELIBERATION_TIERS)),
     (''risk_floors'', JObj [(''L0'', JStr ''basic''), (''L1'', JStr ''basic''), (''L2'', JStr ''standard''),
        (''L3'', JStr ''standard''), (''L4'', JStr ''expert'')]),
     (''roles'', JObj [(''worker'', JObj [(''minimum_tier'', JStr ''basic''), (''default_tier'', JStr ''advanced''),
        (''deliberation_tier'', JStr ''balanced''), (''required_capabilities'', JArr [JStr ''coding'']),
        (''degradation_policy'', JStr ''require_pm_approval'')])])]"

definition sample_bindings :: json_object where
  "sample_bindings =
    [(''schema_version'', JStr ''agentdesk.model-bindings/v2''), (''updated_at'', JNull),
     (''bindings'', JObj [(''m1'', JObj [(''provider'', JStr ''codex''), (''model_id'', JStr ''c-1''), (''tier'', JStr ''standard''),
        (''deliberation_tier'', JStr ''deep''), (''context_window_tokens'', JInt 1000),
        (''capabilities'', JArr [JStr ''coding'', JStr ''review'']), (''enabled'', JBool True)])])]"

definition no_clock :: clock where
  "no_clock s = None"

definition sample_requirements :: requirements where
  "sample_requirements = \<lparr>rq_tier = ''standard'', rq_preferred = ''advanced'', rq_deliberation = ''balanced'',
     rq_capabilities = [''coding'', ''review''], rq_degradation = ''require_pm_approval''\<rparr>"

definition sample_binding :: binding where
  "sample_binding = \<lparr>bd_id = ''m1'', bd_provider = ''codex'', bd_model_id = ''c-1'', bd_tier = ''standard'',
     bd_deliberation = ''deep'', bd_context_window_tokens = 1000, bd_capabilities = [''coding'', ''review''], bd_enabled = True\<rparr>"

definition sample_selection :: selection where
  "sample_selection = \<lparr>sl_required_tier = ''standard'', sl_required_capabilities = [''coding'', ''review''], sl_binding_id = ''m1'',
     sl_provider = ''codex'', sl_model_id = ''c-1'', sl_tier = ''standard'', sl_deliberation = ''deep'',
     sl_context_window_tokens = 1000, sl_capabilities = [''coding'', ''review''], sl_degradation_approval_id = Some ''APR-1''\<rparr>"

lemma sample_steps:
  "policy_requirements sample_policy ''worker'' ''L2'' ''inherit'' [''review''] = Inr sample_requirements"
  "validated_bindings no_clock sample_bindings = Inr [sample_binding]"
  "fence_of (Some ''codex'') (Some ''c-1'') = Inr (Some (''codex'', ''c-1''))"
  by code_simp+

lemma sample_binding_selected:
  "select_binding no_clock sample_policy sample_bindings ''worker'' ''L2'' ''inherit'' [''review''] (Some ''APR-1'')
     (Some ''codex'') (Some ''c-1'') = Inr sample_selection"
  by code_simp

theorem validated_bindings_typed_witness:
  "\<exists>raw. dict_get sample_bindings ''bindings'' = Some (JObj raw) \<and> map bd_id [sample_binding] = sort (dict_keys raw)"
  using validated_bindings_typed [OF sample_steps(2)] by blast

theorem selection_meets_requirements_witness:
  "MODEL_TIER_INDEX ''standard'' \<le> MODEL_TIER_INDEX (sl_tier sample_selection)
    \<and> set [''review''] \<subseteq> set (sl_capabilities sample_selection) \<and> sl_provider sample_selection = py_strip ''codex''"
proof -
  have floor: "risk_floor_of sample_policy ''L2'' = Inr ''standard''" by code_simp
  obtain roles role where r: "dict_get sample_policy ''roles'' = Some (JObj roles)" "dict_get roles ''worker'' = Some (JObj role)"
    "dict_get role ''minimum_tier'' = Some (JStr ''basic'')" "dict_get role ''deliberation_tier'' = Some (JStr ''balanced'')"
    "dict_get role ''required_capabilities'' = Some (JArr [JStr ''coding''])"
    by (simp add: sample_policy_def dict_get_Cons)
  from selection_meets_requirements [OF sample_binding_selected r(1,2,3) floor r(4,5)] show ?thesis by blast
qed

theorem selection_degradation_controlled_witness:
  "MODEL_TIER_INDEX (sl_tier sample_selection) < MODEL_TIER_INDEX (rq_preferred sample_requirements)
    \<and> sl_degradation_approval_id sample_selection = Some (py_strip ''APR-1'')"
proof -
  have low: "MODEL_TIER_INDEX (sl_tier sample_selection) < MODEL_TIER_INDEX (rq_preferred sample_requirements)"
    "rq_degradation sample_requirements = ''require_pm_approval''" by code_simp+
  with selection_degradation_controlled [OF sample_binding_selected sample_steps] show ?thesis by simp
qed

theorem selection_complete_witness:
  "\<not> (\<exists>s. select_binding no_clock sample_policy sample_bindings ''worker'' ''L2'' ''inherit'' [''review''] None
        (Some ''codex'') (Some ''c-1'') = Inr s)"
proof -
  have low: "\<not> MODEL_TIER_INDEX (rq_preferred sample_requirements) \<le> MODEL_TIER_INDEX (bd_tier sample_binding)"
    "rq_degradation sample_requirements = ''require_pm_approval''" by code_simp+
  show ?thesis unfolding selection_complete [OF sample_steps] using low by simp
qed

theorem higher_risk_higher_tier_witness:
  "\<exists>rq. policy_requirements sample_policy ''worker'' ''L4'' ''inherit'' [''review''] = Inr rq
    \<and> MODEL_TIER_INDEX (rq_tier sample_requirements) \<le> MODEL_TIER_INDEX (rq_tier rq)"
proof -
  have high: "policy_requirements sample_policy ''worker'' ''L4'' ''inherit'' [''review''] =
      Inr (sample_requirements\<lparr>rq_tier := ''expert'', rq_preferred := ''expert''\<rparr>)"
    "position RISKS ''L2'' \<le> position RISKS ''L4''" by code_simp+
  with higher_risk_higher_tier [OF sample_steps(1) high] show ?thesis by blast
qed

end
