(* ===== verification/Agent_Routing.thy ===== *)
theory Agent_Routing
  imports Core_Types Model_Selection "HOL-Library.Multiset"
begin

text \<open>
  Routing of planned tasks to agents (\<open>agent_capability_registry.py\<close>): the declared capabilities,
  the route of a task, and the registry that a project's model bindings give.
\<close>

section \<open>Capabilities\<close>

datatype routing_error = AgentRoutingInputError string | AgentRoutingUnavailableError string

definition DIFFICULTIES :: "TaskDifficulty list" where
  "DIFFICULTIES = [BASIC, STANDARD, ADVANCED, EXPERT]"

fun difficulty_index :: "TaskDifficulty \<Rightarrow> nat" where
  "difficulty_index BASIC = 0"
| "difficulty_index STANDARD = 1"
| "difficulty_index ADVANCED = 2"
| "difficulty_index EXPERT = 3"

definition DELIBERATION :: "string list" where
  "DELIBERATION = [''efficient'', ''balanced'', ''deep'']"

fun PROVIDER_ORDER :: "TaskDifficulty \<Rightarrow> (string, nat) dict" where
  "PROVIDER_ORDER BASIC = [(''reasonix'', 0), (''claude'', 1), (''codex'', 2)]"
| "PROVIDER_ORDER STANDARD = [(''claude'', 0), (''codex'', 1), (''reasonix'', 2)]"
| "PROVIDER_ORDER ADVANCED = [(''codex'', 0), (''claude'', 1), (''reasonix'', 2)]"
| "PROVIDER_ORDER EXPERT = [(''codex'', 0), (''claude'', 1), (''reasonix'', 2)]"

definition clean_text :: "string \<Rightarrow> string \<Rightarrow> nat \<Rightarrow> (bool \<times> routing_error) list" where
  "clean_text s field maximum =
    [(s = [] \<or> s \<noteq> py_strip s \<or> length s > maximum, AgentRoutingInputError (field @ '' is invalid'')),
     (list_ex (\<lambda>c. (of_char c :: nat) < 32) s, AgentRoutingInputError (field @ '' contains control characters''))]"

record AgentCapability =
  cp_schema_version :: string
  cp_agent_id :: string
  cp_provider_id :: string
  cp_model_id :: string
  cp_supported :: "TaskDifficulty list"
  cp_capabilities :: "string list"
  cp_deliberation_tier :: string
  cp_max_concurrency :: int
  cp_can_review :: bool
  cp_enabled :: bool

definition make_capability :: "AgentCapability \<Rightarrow> routing_error + AgentCapability" where
  "make_capability c = guarded
     ([(cp_schema_version c \<noteq> ''agentdesk.agent-capability/v1'', AgentRoutingInputError ''schema_version is invalid'')] @
      clean_text (cp_agent_id c) ''agent_id'' 256 @ clean_text (cp_provider_id c) ''provider_id'' 64 @
      clean_text (cp_model_id c) ''model_id'' 256 @
      [(cp_supported c = [], AgentRoutingInputError ''supported_difficulties is invalid''),
       (\<not> distinct (cp_supported c), AgentRoutingInputError ''supported_difficulties contains duplicates'')] @
      concat (map (\<lambda>s. clean_text s ''capability'' 128) (cp_capabilities c)) @
      [(\<not> distinct (cp_capabilities c), AgentRoutingInputError ''capabilities contains duplicates''),
       (cp_deliberation_tier c \<notin> set DELIBERATION, AgentRoutingInputError ''deliberation_tier is invalid''),
       (cp_max_concurrency c < 1 \<or> cp_max_concurrency c > 64, AgentRoutingInputError ''max_concurrency is out of range'')])
     (Inr c)"

record AgentRoute =
  rt_schema_version :: string
  rt_agent_id :: string
  rt_provider_id :: string
  rt_model_id :: string
  rt_difficulty :: TaskDifficulty
  rt_deliberation_tier :: string
  rt_max_concurrency :: int
  rt_selection_source :: string
  rt_rationale :: string

definition make_route :: "AgentRoute \<Rightarrow> routing_error + AgentRoute" where
  "make_route r = guarded
     ([(rt_schema_version r \<noteq> ''agentdesk.agent-route/v1'', AgentRoutingInputError ''schema_version is invalid'')] @
      clean_text (rt_agent_id r) ''agent_id'' 256 @ clean_text (rt_provider_id r) ''provider_id'' 64 @
      clean_text (rt_model_id r) ''model_id'' 256 @
      [(rt_deliberation_tier r \<notin> set DELIBERATION, AgentRoutingInputError ''deliberation_tier is invalid''),
       (rt_max_concurrency r < 1, AgentRoutingInputError ''max_concurrency is invalid''),
       (rt_selection_source r \<notin> {''automatic'', ''preferred'', ''forced''},
          AgentRoutingInputError ''selection_source is invalid'')] @
      clean_text (rt_rationale r) ''rationale'' 512)
     (Inr r)"

record AgentCapabilityRegistry =
  ag_capabilities :: "AgentCapability list"
  ag_max_concurrency :: int

definition make_registry :: "AgentCapability list \<Rightarrow> int \<Rightarrow> routing_error + AgentCapabilityRegistry" where
  "make_registry capabilities max_concurrency = guarded
     [(\<not> distinct (map cp_agent_id capabilities), AgentRoutingInputError ''agent_id values must be unique''),
      (max_concurrency < 1, AgentRoutingInputError ''max_concurrency is invalid'')]
     (Inr \<lparr>ag_capabilities = capabilities, ag_max_concurrency = max_concurrency\<rparr>)"

section \<open>Routing\<close>

definition eligible :: "TaskDifficulty \<Rightarrow> string list \<Rightarrow> string list \<Rightarrow> AgentCapability \<Rightarrow> bool" where
  "eligible difficulty required forbidden c \<longleftrightarrow> cp_enabled c \<and> cp_agent_id c \<notin> set forbidden
     \<and> difficulty \<in> set (cp_supported c)
     \<and> list_all (\<lambda>r. r \<in> set (cp_capabilities c) \<or> r = ''implementation'' \<and> ''coding'' \<in> set (cp_capabilities c)) required"

definition route_key :: "TaskDifficulty \<Rightarrow> AgentCapability \<Rightarrow> nat \<times> int \<times> string" where
  "route_key difficulty c =
    ((case dict_get (PROVIDER_ORDER difficulty) (cp_provider_id c) of Some n \<Rightarrow> n | None \<Rightarrow> 99),
     \<bar>int (difficulty_index difficulty) - int (Max (difficulty_index ` set (cp_supported c)))\<bar>,
     cp_agent_id c)"

definition route_guards ::
  "string list \<Rightarrow> string option \<Rightarrow> string option \<Rightarrow> string list \<Rightarrow> (bool \<times> routing_error) list"
where
  "route_guards required forced preferred forbidden =
     concat (map (\<lambda>s. clean_text s ''required_capability'' 128) required) @
     [(\<not> distinct required, AgentRoutingInputError ''required_capabilities contain duplicates'')] @
     concat (map (\<lambda>s. clean_text s ''forbidden_agent'' 256) forbidden) @
     [(\<not> distinct forbidden, AgentRoutingInputError ''forbidden_agents contain duplicates'')] @
     (case forced of None \<Rightarrow> [] | Some a \<Rightarrow> clean_text a ''forced_agent'' 256) @
     (case preferred of None \<Rightarrow> [] | Some a \<Rightarrow> clean_text a ''preferred_agent'' 256) @
     [(case forced of None \<Rightarrow> False | Some a \<Rightarrow> a \<in> set forbidden,
       AgentRoutingUnavailableError ''forced agent is forbidden'')]"

definition select_agent ::
  "AgentCapability list \<Rightarrow> TaskDifficulty \<Rightarrow> string list \<Rightarrow> string option \<Rightarrow> string option \<Rightarrow> string list \<Rightarrow>
   routing_error + AgentCapability \<times> string"
where
  "select_agent capabilities difficulty required forced preferred forbidden = (case forced of
      Some a \<Rightarrow> (case find (\<lambda>c. cp_agent_id c = a) capabilities of
          Some c \<Rightarrow> guarded [(\<not> eligible difficulty required forbidden c,
              AgentRoutingUnavailableError ''forced agent is unavailable'')] (Inr (c, ''forced''))
        | None \<Rightarrow> Inl (AgentRoutingUnavailableError ''forced agent is unavailable''))
    | None \<Rightarrow> (let candidates = filter (eligible difficulty required forbidden) capabilities in guarded
        [(candidates = [], AgentRoutingUnavailableError ''no capable agent is available'')]
        (case find (\<lambda>c. Some (cp_agent_id c) = preferred) candidates of
           Some c \<Rightarrow> Inr (c, ''preferred'')
         | None \<Rightarrow> Inr (hd (sort_key (route_key difficulty) candidates), ''automatic''))))"

definition route ::
  "TaskDifficulty \<Rightarrow> string list \<Rightarrow> string option \<Rightarrow> string option \<Rightarrow> string list \<Rightarrow> AgentCapabilityRegistry \<Rightarrow>
   routing_error + AgentRoute"
where
  "route difficulty required forced preferred forbidden registry = guarded
     (route_guards required forced preferred forbidden)
     (and_then (select_agent (ag_capabilities registry) difficulty required forced preferred forbidden) (\<lambda>(c, source).
      make_route \<lparr>rt_schema_version = ''agentdesk.agent-route/v1'', rt_agent_id = cp_agent_id c, rt_provider_id = cp_provider_id c,
        rt_model_id = cp_model_id c, rt_difficulty = difficulty, rt_deliberation_tier = cp_deliberation_tier c,
        rt_max_concurrency = min (cp_max_concurrency c) (ag_max_concurrency registry), rt_selection_source = source,
        rt_rationale = source @ '' route for '' @ TaskDifficulty_value difficulty @ '' task''\<rparr>))"

section \<open>The registry of a project\<close>

text \<open>\<open>TaskDifficulty(tier)\<close>\<close>

definition difficulty_of :: "string \<Rightarrow> TaskDifficulty option" where
  "difficulty_of s = find (\<lambda>d. TaskDifficulty_value d = s) DIFFICULTIES"

definition binding_capability :: "int \<Rightarrow> binding \<Rightarrow> TaskDifficulty \<Rightarrow> AgentCapability" where
  "binding_capability max_concurrency b tier =
    \<lparr>cp_schema_version = ''agentdesk.agent-capability/v1'', cp_agent_id = bd_id b, cp_provider_id = bd_provider b,
     cp_model_id = bd_model_id b, cp_supported = take (difficulty_index tier + 1) DIFFICULTIES,
     cp_capabilities = sort (bd_capabilities b), cp_deliberation_tier = bd_deliberation b,
     cp_max_concurrency = max_concurrency, cp_can_review = (bd_provider b = ''codex''), cp_enabled = bd_enabled b\<rparr>"

fun capabilities_of :: "string list \<Rightarrow> int \<Rightarrow> binding list \<Rightarrow> routing_error + AgentCapability list" where
  "capabilities_of allowed max_concurrency [] = Inr []"
| "capabilities_of allowed max_concurrency (b # bs) =
    (if bd_provider b \<notin> {''claude'', ''codex'', ''reasonix''} \<or> allowed \<noteq> [] \<and> bd_provider b \<notin> set allowed
     then capabilities_of allowed max_concurrency bs
     else case difficulty_of (bd_tier b) of
        None \<Rightarrow> capabilities_of allowed max_concurrency bs
      | Some tier \<Rightarrow> and_then (make_capability (binding_capability max_concurrency b tier)) (\<lambda>c.
          and_then (capabilities_of allowed max_concurrency bs) (\<lambda>cs. Inr (c # cs))))"

text \<open>
  What the project's bindings file is: absent, or its parsed document, or something that cannot
  be read as a regular JSON file.
\<close>

datatype bindings_file = NoBindings | UnreadableBindings string | BindingsDocument json_object

definition from_project ::
  "clock \<Rightarrow> bindings_file \<Rightarrow> string list \<Rightarrow> int \<Rightarrow> routing_error + AgentCapabilityRegistry option"
where
  "from_project iso8601 file provider_ids max_concurrency = (case file of
      NoBindings \<Rightarrow> Inr None
    | UnreadableBindings problem \<Rightarrow> Inl (AgentRoutingInputError problem)
    | BindingsDocument document \<Rightarrow> (case validated_bindings iso8601 document of
        Inl _ \<Rightarrow> Inl (AgentRoutingInputError ''model bindings are invalid'')
      | Inr bindings \<Rightarrow> and_then (capabilities_of provider_ids max_concurrency bindings) (\<lambda>capabilities.
          and_then (make_registry capabilities max_concurrency) (\<lambda>registry. Inr (Some registry)))))"

section \<open>Facts\<close>

lemma clean_text_None [simp]: "raise_first (clean_text s field maximum) = None \<longleftrightarrow> text_ok maximum s"
  by (auto simp: clean_text_def text_ok_def list_ex_iff list_all_iff not_less not_le)

lemma select_agent_Inr:
  assumes "select_agent capabilities difficulty required forced preferred forbidden = Inr (c, source)"
  shows "c \<in> set capabilities \<and> eligible difficulty required forbidden c \<and> (\<forall>a. forced = Some a \<longrightarrow> cp_agent_id c = a)
    \<and> (forced = None \<longrightarrow> (\<forall>x \<in> set capabilities. eligible difficulty required forbidden x \<longrightarrow>
          preferred = Some (cp_agent_id x) \<longrightarrow> cp_agent_id c = cp_agent_id x))
    \<and> source \<in> {''forced'', ''preferred'', ''automatic''}"
proof (cases forced)
  case (Some a)
  with assms show ?thesis
    by (auto simp: select_agent_def res_simps dest: find_Some_member split: option.split_asm)
next
  case None
  let ?cs = "filter (eligible difficulty required forbidden) capabilities"
  show ?thesis
  proof (cases "find (\<lambda>c. Some (cp_agent_id c) = preferred) ?cs")
    case (Some x)
    with assms None find_Some_member [OF Some] show ?thesis by (auto simp: select_agent_def res_simps)
  next
    case find: None
    with assms \<open>forced = None\<close> have c: "?cs \<noteq> []" "c = hd (sort_key (route_key difficulty) ?cs)" "source = ''automatic''"
      by (auto simp: select_agent_def res_simps Let_def)
    from c(1) have "c \<in> set ?cs" unfolding c(2) by (metis hd_in_set set_empty set_sort)
    with find c(3) None show ?thesis by (auto simp: find_None_none)
  qed
qed

lemma route_Inr:
  assumes "route difficulty required forced preferred forbidden registry = Inr r"
  obtains c source where "raise_first (route_guards required forced preferred forbidden) = None"
    "select_agent (ag_capabilities registry) difficulty required forced preferred forbidden = Inr (c, source)"
    "rt_agent_id r = cp_agent_id c" "rt_provider_id r = cp_provider_id c" "rt_model_id r = cp_model_id c" "rt_difficulty r = difficulty"
    "rt_deliberation_tier r = cp_deliberation_tier c" "rt_max_concurrency r = min (cp_max_concurrency c) (ag_max_concurrency registry)"
    "rt_selection_source r = source"
  using assms by (auto simp: route_def make_route_def res_simps split: prod.split_asm)

lemma find_unique:
  assumes "distinct (map f xs)" and "x \<in> set xs" and "P x" and "\<And>y. y \<in> set xs \<Longrightarrow> P y \<Longrightarrow> f y = f x"
  shows "find P xs = Some x"
proof (cases "find P xs")
  case None
  with assms(2,3) show ?thesis by (simp add: find_None_none)
next
  case (Some y)
  from find_Some_member [OF this] assms(4) have "y \<in> set xs" "f y = f x" by auto
  with assms(1,2) Some show ?thesis by (auto simp: distinct_map inj_on_def)
qed

lemma select_agent_None:
  assumes "distinct (map cp_agent_id capabilities)" and "select_agent capabilities difficulty required forced preferred forbidden = Inl e"
    and "c \<in> set capabilities" and "eligible difficulty required forbidden c"
  shows "\<exists>a. forced = Some a \<and> cp_agent_id c \<noteq> a"
proof (cases forced)
  case None
  have "filter (eligible difficulty required forbidden) capabilities \<noteq> []" using assms(3,4) by (auto simp: filter_empty_conv)
  with assms(2) None show ?thesis by (auto simp: select_agent_def Let_def split: option.split_asm)
next
  case (Some a)
  show ?thesis
  proof (cases "cp_agent_id c = a")
    case True
    have "find (\<lambda>c. cp_agent_id c = a) capabilities = Some c"
      using assms(1,3) True by (intro find_unique [where f = cp_agent_id]) auto
    with assms(2,4) Some show ?thesis by (auto simp: select_agent_def)
  qed (use Some in simp)
qed

section \<open>Properties\<close>

text \<open>
  A route is honest: it names a declared agent that is enabled, not forbidden, supports
  exactly the difficulty asked for and has every required capability (``coding'' standing for
  ``implementation''); it carries that agent's provider, model and deliberation tier, and no more
  concurrency than agent and registry allow.  A forced agent is the one routed to, and a
  preferred agent whenever it is eligible.
\<close>

theorem route_sound:
  assumes "route difficulty required forced preferred forbidden registry = Inr r"
  shows "(\<exists>c \<in> set (ag_capabilities registry).
      cp_enabled c \<and> cp_agent_id c \<notin> set forbidden \<and> difficulty \<in> set (cp_supported c)
      \<and> (\<forall>x \<in> set required. x \<in> set (cp_capabilities c) \<or> x = ''implementation'' \<and> ''coding'' \<in> set (cp_capabilities c))
      \<and> rt_agent_id r = cp_agent_id c \<and> rt_provider_id r = cp_provider_id c \<and> rt_model_id r = cp_model_id c
      \<and> rt_deliberation_tier r = cp_deliberation_tier c \<and> rt_max_concurrency r \<le> cp_max_concurrency c)
    \<and> rt_difficulty r = difficulty \<and> rt_max_concurrency r \<le> ag_max_concurrency registry
    \<and> (\<forall>a. forced = Some a \<longrightarrow> rt_agent_id r = a)
    \<and> (\<forall>c \<in> set (ag_capabilities registry). forced = None \<and> preferred = Some (cp_agent_id c)
         \<and> eligible difficulty required forbidden c \<longrightarrow> rt_agent_id r = cp_agent_id c)"
proof (rule route_Inr [OF assms])
  fix c source
  assume sel: "select_agent (ag_capabilities registry) difficulty required forced preferred forbidden = Inr (c, source)"
    and r: "rt_agent_id r = cp_agent_id c" "rt_provider_id r = cp_provider_id c" "rt_model_id r = cp_model_id c" "rt_difficulty r = difficulty"
      "rt_deliberation_tier r = cp_deliberation_tier c" "rt_max_concurrency r = min (cp_max_concurrency c) (ag_max_concurrency registry)"
  from select_agent_Inr [OF sel] show ?thesis
    by (intro conjI bexI [of _ c]) (auto simp: r eligible_def list_all_iff)
qed

text \<open>
  Routing is complete: in a registry of valid, distinct agents, a well-formed request is
  routed exactly when some agent is eligible for it, the forced one if an agent is forced.
\<close>

theorem route_complete:
  assumes "make_registry capabilities n = Inr registry" and valid: "\<forall>c \<in> set capabilities. make_capability c = Inr c"
    and pass: "raise_first (route_guards required forced preferred forbidden) = None"
  shows "(\<exists>r. route difficulty required forced preferred forbidden registry = Inr r) \<longleftrightarrow>
    (\<exists>c \<in> set capabilities. eligible difficulty required forbidden c \<and> (\<forall>a. forced = Some a \<longrightarrow> cp_agent_id c = a))"
proof
  have reg: "ag_capabilities registry = capabilities" "distinct (map cp_agent_id capabilities)" "1 \<le> ag_max_concurrency registry"
    using assms(1) by (auto simp: make_registry_def res_simps)
  show "\<exists>c \<in> set capabilities. eligible difficulty required forbidden c \<and> (\<forall>a. forced = Some a \<longrightarrow> cp_agent_id c = a)"
    if "\<exists>r. route difficulty required forced preferred forbidden registry = Inr r"
  proof -
    from that obtain r where "route difficulty required forced preferred forbidden registry = Inr r" by blast
    then obtain c source where "select_agent capabilities difficulty required forced preferred forbidden = Inr (c, source)"
      by (rule route_Inr) (auto simp: reg)
    from select_agent_Inr [OF this] show ?thesis by blast
  qed
  show "\<exists>r. route difficulty required forced preferred forbidden registry = Inr r"
    if "\<exists>c \<in> set capabilities. eligible difficulty required forbidden c \<and> (\<forall>a. forced = Some a \<longrightarrow> cp_agent_id c = a)"
  proof (cases "select_agent capabilities difficulty required forced preferred forbidden")
    case (Inl e)
    with that select_agent_None [OF reg(2) Inl] show ?thesis by blast
  next
    case (Inr x)
    obtain c source where x: "x = (c, source)" by (cases x)
    from select_agent_Inr [OF Inr [unfolded x]] have c: "c \<in> set capabilities" "source \<in> {''forced'', ''preferred'', ''automatic''}" by auto
    have "text_ok 512 (s @ '' route for '' @ TaskDifficulty_value difficulty @ '' task'')"
      if "s \<in> {''forced'', ''preferred'', ''automatic''}" for s
      using that by (cases difficulty) (simp_all, (elim disjE; simp; code_simp)+)
    with c(2) have "text_ok 512 (source @ '' route for '' @ TaskDifficulty_value difficulty @ '' task'')" by blast
    moreover have "make_capability c = Inr c" using valid c(1) by blast
    ultimately show ?thesis
      using pass Inr c(2) reg(3) by (auto simp: route_def reg(1) x make_route_def make_capability_def res_simps)
  qed
qed

text \<open>
  Declaration order does not matter: two registries of the same agents in another order route
  every request to the same agent, or refuse it with the same error.
\<close>

theorem route_order_independent:
  assumes ids: "distinct (map cp_agent_id capabilities)" and mset: "mset capabilities' = mset capabilities"
  shows "route difficulty required forced preferred forbidden (registry\<lparr>ag_capabilities := capabilities'\<rparr>)
    = route difficulty required forced preferred forbidden (registry\<lparr>ag_capabilities := capabilities\<rparr>)"
proof -
  have ids': "distinct (map cp_agent_id capabilities')" using ids mset by (metis mset_map mset_eq_imp_distinct_iff)
  have set_eq: "set capabilities' = set capabilities" using mset by (rule mset_eq_setD)
  have find_eq: "find P xs' = find P xs"
    if "mset xs' = mset xs" "distinct (map cp_agent_id xs)" "\<And>x y. P x \<Longrightarrow> P y \<Longrightarrow> cp_agent_id x = cp_agent_id y"
    for P and xs xs' :: "AgentCapability list"
  proof (cases "find P xs")
    case None
    with mset_eq_setD [OF that(1)] have "find P xs' = None" by (simp add: find_None_none)
    with None show ?thesis by simp
  next
    case (Some x)
    have "distinct (map cp_agent_id xs')" using that(1,2) by (metis mset_map mset_eq_imp_distinct_iff)
    with find_Some_member [OF Some] mset_eq_setD [OF that(1)] that(3) Some show ?thesis
      by (auto intro: find_unique [where f = cp_agent_id])
  qed
  let ?e = "eligible difficulty required forbidden"
  have f: "mset (filter ?e capabilities') = mset (filter ?e capabilities)" by (simp add: mset)
  have df: "distinct (map cp_agent_id (filter ?e capabilities))" using ids by (simp add: distinct_map inj_on_def)
  have "inj_on (route_key difficulty) (set (filter ?e capabilities'))"
    using ids set_eq by (auto simp: inj_on_def route_key_def distinct_map)
  then have sorts: "sort_key (route_key difficulty) (filter ?e capabilities') = sort_key (route_key difficulty) (filter ?e capabilities)"
    using f by (intro sort_key_eq_sort_key)
  have "select_agent capabilities' difficulty required forced preferred forbidden
      = select_agent capabilities difficulty required forced preferred forbidden"
  proof (cases forced)
    case (Some a)
    have "find (\<lambda>c. cp_agent_id c = a) capabilities' = find (\<lambda>c. cp_agent_id c = a) capabilities"
      by (rule find_eq [OF mset ids]) simp
    with Some show ?thesis by (simp add: select_agent_def)
  next
    case None
    have found: "find (\<lambda>c. Some (cp_agent_id c) = preferred) (filter ?e capabilities')
        = find (\<lambda>c. Some (cp_agent_id c) = preferred) (filter ?e capabilities)"
      by (rule find_eq [OF f df]) auto
    have empty: "filter ?e capabilities' = [] \<longleftrightarrow> filter ?e capabilities = []" using f by (metis mset_zero_iff)
    show ?thesis unfolding select_agent_def None option.case Let_def found empty sorts by (rule refl)
  qed
  then show ?thesis by (simp add: route_def)
qed

lemma difficulty_of_Some: "difficulty_of t = Some d \<Longrightarrow> t = TaskDifficulty_value d \<and> difficulty_index d = MODEL_TIER_INDEX t"
  by (cases d) (auto simp: difficulty_of_def DIFFICULTIES_def MODEL_TIER_INDEX_def position_def MODEL_TIERS_def split: if_split_asm)

lemma capabilities_of_member:
  "capabilities_of allowed n bs = Inr cs \<Longrightarrow> c \<in> set cs \<Longrightarrow>
    \<exists>b tier. b \<in> set bs \<and> bd_provider b \<in> {''claude'', ''codex'', ''reasonix''} \<and> (allowed \<noteq> [] \<longrightarrow> bd_provider b \<in> set allowed)
      \<and> difficulty_of (bd_tier b) = Some tier \<and> c = binding_capability n b tier"
proof (induction bs arbitrary: cs)
  case (Cons b bs)
  show ?case
  proof (cases "capabilities_of allowed n bs = Inr cs")
    case True
    with Cons.IH [OF True] Cons.prems(2) show ?thesis by auto
  next
    case False
    with Cons.prems obtain tier us where "difficulty_of (bd_tier b) = Some tier" "capabilities_of allowed n bs = Inr us"
      "cs = binding_capability n b tier # us" "bd_provider b \<in> {''claude'', ''codex'', ''reasonix''}"
      "allowed \<noteq> [] \<longrightarrow> bd_provider b \<in> set allowed"
      by (auto simp: make_capability_def res_simps split: if_split_asm option.split_asm)
    with Cons.IH [of us] Cons.prems(2) show ?thesis by auto
  qed
qed simp

lemma supported_index: "d \<in> set (take (difficulty_index tier + 1) DIFFICULTIES) \<longleftrightarrow> difficulty_index d \<le> difficulty_index tier"
  by (cases d; cases tier) (simp_all add: DIFFICULTIES_def)

text \<open>
  C38. No silent downgrade, from the bindings document to the route: the agent routed to is an
  enabled entry of the document whose model tier is at least the difficulty of the task, whose
  capabilities cover the required ones, whose provider is a known and allowed one, and whose
  provider and model are those of the route.
\<close>

theorem project_routes_never_downgrade:
  assumes project: "from_project iso8601 (BindingsDocument document) provider_ids n = Inr (Some registry)"
    and routed: "route difficulty required forced preferred forbidden registry = Inr r"
  shows "\<exists>raw members tier capabilities. dict_get document ''bindings'' = Some (JObj raw)
    \<and> dict_get raw (rt_agent_id r) = Some (JObj members) \<and> dict_get members ''enabled'' = Some (JBool True)
    \<and> dict_get members ''tier'' = Some (JStr tier) \<and> difficulty_index difficulty \<le> MODEL_TIER_INDEX tier
    \<and> dict_get members ''provider'' = Some (JStr (rt_provider_id r)) \<and> dict_get members ''model_id'' = Some (JStr (rt_model_id r))
    \<and> dict_get members ''capabilities'' = Some (JArr capabilities)
    \<and> (\<forall>x \<in> set required. (\<exists>s. JStr s \<in> set capabilities \<and> (py_strip s = x \<or> x = ''implementation'' \<and> py_strip s = ''coding'')))
    \<and> rt_provider_id r \<in> {''claude'', ''codex'', ''reasonix''} \<and> (provider_ids \<noteq> [] \<longrightarrow> rt_provider_id r \<in> set provider_ids)
    \<and> rt_max_concurrency r \<le> n"
proof -
  from project obtain bindings capabilities where bs: "validated_bindings iso8601 document = Inr bindings"
    and cs: "capabilities_of provider_ids n bindings = Inr capabilities" and reg: "make_registry capabilities n = Inr registry"
    by (auto simp: from_project_def res_simps split: sum.split_asm)
  from reg have registry: "ag_capabilities registry = capabilities" by (auto simp: make_registry_def res_simps)
  from routed obtain c source where sel: "select_agent capabilities difficulty required forced preferred forbidden = Inr (c, source)"
    and r: "rt_agent_id r = cp_agent_id c" "rt_provider_id r = cp_provider_id c" "rt_model_id r = cp_model_id c"
      "rt_max_concurrency r = min (cp_max_concurrency c) (ag_max_concurrency registry)"
    by (rule route_Inr) (simp add: registry)
  from select_agent_Inr [OF sel] have c: "c \<in> set capabilities" "eligible difficulty required forbidden c" by auto
  from capabilities_of_member [OF cs c(1)] obtain b tier where b: "b \<in> set bindings" "bd_provider b \<in> {''claude'', ''codex'', ''reasonix''}"
    "provider_ids \<noteq> [] \<longrightarrow> bd_provider b \<in> set provider_ids" "difficulty_of (bd_tier b) = Some tier" "c = binding_capability n b tier"
    by blast
  from validated_bindings_entries [OF bs] b(1) obtain raw members where doc: "dict_get document ''bindings'' = Some (JObj raw)"
    "dict_get raw (bd_id b) = Some (JObj members)" "describes members b" by blast
  then obtain vs where vs: "dict_get members ''capabilities'' = Some (JArr vs)" "set (bd_capabilities b) = {py_strip s | s. JStr s \<in> set vs}"
    by (auto simp: describes_def)
  have tier: "difficulty_index difficulty \<le> MODEL_TIER_INDEX (bd_tier b)"
    using c(2) difficulty_of_Some [OF b(4)] supported_index [of difficulty tier] by (simp add: eligible_def b(5) binding_capability_def)
  have required: "\<forall>x \<in> set required. (\<exists>s. JStr s \<in> set vs \<and> (py_strip s = x \<or> x = ''implementation'' \<and> py_strip s = ''coding''))"
  proof
    fix x assume "x \<in> set required"
    with c(2) have "x \<in> set (bd_capabilities b) \<or> x = ''implementation'' \<and> ''coding'' \<in> set (bd_capabilities b)"
      by (simp add: eligible_def b(5) binding_capability_def list_all_iff)
    moreover have "\<exists>s. JStr s \<in> set vs \<and> py_strip s = y" if "y \<in> set (bd_capabilities b)" for y
      using that by (auto simp: vs(2))
    ultimately show "\<exists>s. JStr s \<in> set vs \<and> (py_strip s = x \<or> x = ''implementation'' \<and> py_strip s = ''coding'')"
      by metis
  qed
  show ?thesis
    by (intro exI [of _ raw] exI [of _ members] exI [of _ "bd_tier b"] exI [of _ vs])
      (use doc vs tier required b(2,3) c(2) in \<open>simp add: describes_def r b(5) binding_capability_def eligible_def\<close>)
qed

section \<open>Witnesses\<close>

definition sample_agent :: AgentCapability where
  "sample_agent = binding_capability 4 sample_binding STANDARD"

definition other_agent :: AgentCapability where
  "other_agent = sample_agent\<lparr>cp_agent_id := ''m2'', cp_provider_id := ''claude''\<rparr>"

definition sample_registry :: AgentCapabilityRegistry where
  "sample_registry = \<lparr>ag_capabilities = [sample_agent], ag_max_concurrency = 4\<rparr>"

definition sample_route :: AgentRoute where
  "sample_route = \<lparr>rt_schema_version = ''agentdesk.agent-route/v1'', rt_agent_id = ''m1'', rt_provider_id = ''codex'',
     rt_model_id = ''c-1'', rt_difficulty = STANDARD, rt_deliberation_tier = ''deep'', rt_max_concurrency = 4,
     rt_selection_source = ''automatic'', rt_rationale = ''automatic route for standard task''\<rparr>"

lemma sample_project:
  "from_project no_clock (BindingsDocument sample_bindings) [] 4 = Inr (Some sample_registry)"
  "make_registry [sample_agent] 4 = Inr sample_registry" "make_capability sample_agent = Inr sample_agent"
  "raise_first (route_guards [''implementation''] None None []) = None"
  by code_simp+

lemma sample_routed: "route STANDARD [''implementation''] None None [] sample_registry = Inr sample_route"
  unfolding route_def and_then_def by code_simp

theorem route_sound_witness:
  "\<exists>c \<in> set (ag_capabilities sample_registry). rt_agent_id sample_route = cp_agent_id c \<and> STANDARD \<in> set (cp_supported c)"
  using route_sound [OF sample_routed] by blast

theorem route_complete_witness:
  "\<not> (\<exists>r. route EXPERT [''implementation''] None None [] sample_registry = Inr r)"
proof -
  have "\<forall>c \<in> set [sample_agent]. make_capability c = Inr c" using sample_project(3) by simp
  moreover have "\<not> eligible EXPERT [''implementation''] [] sample_agent" by code_simp
  ultimately show ?thesis using route_complete [OF sample_project(2) _ sample_project(4)] by simp
qed

theorem route_order_independent_witness:
  "route STANDARD [] None None [] (sample_registry\<lparr>ag_capabilities := [other_agent, sample_agent]\<rparr>)
    = route STANDARD [] None None [] (sample_registry\<lparr>ag_capabilities := [sample_agent, other_agent]\<rparr>)"
proof -
  have "distinct (map cp_agent_id [sample_agent, other_agent])"
    by (simp add: sample_agent_def other_agent_def binding_capability_def sample_binding_def)
  from route_order_independent [OF this, of "[other_agent, sample_agent]"] show ?thesis by simp
qed

theorem project_routes_never_downgrade_witness:
  "\<exists>raw members tier. dict_get sample_bindings ''bindings'' = Some (JObj raw) \<and> dict_get raw ''m1'' = Some (JObj members)
    \<and> dict_get members ''tier'' = Some (JStr tier) \<and> difficulty_index STANDARD \<le> MODEL_TIER_INDEX tier"
proof -
  have "rt_agent_id sample_route = ''m1''" by (simp add: sample_route_def)
  with project_routes_never_downgrade [OF sample_project(1) sample_routed] show ?thesis by auto
qed

end
