(* ===== verification/Flat_Document.thy ===== *)
theory Flat_Document
  imports Scheduler_Codec
begin

text \<open>
  Evidence files of one field per line, as the worktree and the worker handoff stores write
  them: \<open>name: scalar\<close> for each field of a record in a fixed order, the last of them the digest
  of the lines before it.  The functions are the ones both modules repeat, with their error
  codes as arguments; the locale states once what makes such a file readable.
\<close>

section \<open>Writing\<close>

definition flat_lines :: "string list \<Rightarrow> scalar list \<Rightarrow> string list" where
  "flat_lines names vals = map (\<lambda>(k, v). k @ '': '' @ scalar_text v) (zip names vals)"

definition flat_text :: "string list \<Rightarrow> scalar list \<Rightarrow> string" where
  "flat_text names vals = finish (flat_lines names vals)"

definition flat_digest :: "(string \<Rightarrow> string) \<Rightarrow> string list \<Rightarrow> scalar list \<Rightarrow> string" where
  "flat_digest H names vals = ''sha256:'' @ H (flat_text (butlast names) (butlast vals))"

definition flat_encode ::
  "(string \<Rightarrow> string) \<Rightarrow> string list \<Rightarrow> 'e \<Rightarrow> scalar list \<Rightarrow> 'e + string"
where
  "flat_encode H names digest_error vals = guarded
     [(last vals \<noteq> SStr (flat_digest H names vals), digest_error)] (Inr (flat_text names vals))"

section \<open>Reading\<close>

datatype token_error = BadEscape | BadQuote | NonCanonical | NotScalar

text \<open>The loop over the characters between the quotes; \<open>bad\<close> are the control characters refused.\<close>

fun unquote :: "(char \<Rightarrow> bool) \<Rightarrow> string \<Rightarrow> token_error + string" where
  "unquote bad [] = Inr []"
| "unquote bad (c # cs) =
     (if c = CHR 0x5C then
        (case cs of
           [] \<Rightarrow> Inl BadEscape
         | d # ds \<Rightarrow> if d \<in> {CHR 0x22, CHR 0x5C} then and_then (unquote bad ds) (\<lambda>r. Inr (d # r)) else Inl BadEscape)
      else if c = CHR 0x22 \<or> bad c then Inl BadQuote
      else and_then (unquote bad cs) (\<lambda>r. Inr (c # r)))"

definition parse_token :: "bool \<Rightarrow> (char \<Rightarrow> bool) \<Rightarrow> string \<Rightarrow> token_error + scalar" where
  "parse_token booleans bad token =
    (if token = ''null'' then Inr SNull
     else if booleans \<and> token = ''true'' then Inr (SBool True)
     else if booleans \<and> token = ''false'' then Inr (SBool False)
     else if decimal token then Inr (SInt (int (read_digits token)))
     else if token = [] \<or> hd token \<noteq> CHR 0x22 \<or> last token \<noteq> CHR 0x22 then Inl NotScalar
     else and_then (unquote bad (butlast (tl token))) (\<lambda>s. guarded [(quote s \<noteq> token, NonCanonical)] (Inr (SStr s))))"

fun read_fields ::
  "(string \<Rightarrow> string \<Rightarrow> 'e + scalar) \<Rightarrow> 'e \<Rightarrow> string list \<Rightarrow> string list \<Rightarrow> 'e + scalar list"
where
  "read_fields parse order_error (line # lines) (name # names) = guarded
     [(\<not> starts_with (name @ '': '') line, order_error)]
     (and_then (parse name (drop (length name + 2) line)) (\<lambda>v.
      and_then (read_fields parse order_error lines names) (\<lambda>vs. Inr (v # vs))))"
| "read_fields parse order_error lines names = Inr []"

definition flat_read ::
  "(string \<Rightarrow> (bool \<times> 'e) list) \<Rightarrow> (string list \<Rightarrow> (bool \<times> 'e) list) \<Rightarrow> (string \<Rightarrow> string \<Rightarrow> 'e + scalar) \<Rightarrow> 'e \<Rightarrow>
   string list \<Rightarrow> string \<Rightarrow> 'e + scalar list"
where
  "flat_read document_guards line_guards parse order_error names data = guarded (document_guards data)
     (let lines = split_lines (butlast data) in guarded (line_guards lines) (read_fields parse order_error lines names))"

text \<open>Read the fields, construct the record, and refuse a text that is not the record's own.\<close>

definition flat_decode ::
  "(string \<Rightarrow> 'e + scalar list) \<Rightarrow> (scalar list \<Rightarrow> 'e + 'r) \<Rightarrow> ('r \<Rightarrow> 'e + string) \<Rightarrow> 'e \<Rightarrow> string \<Rightarrow> 'e + 'r"
where
  "flat_decode read_values construct encode noncanonical data =
     and_then (read_values data) (\<lambda>vals. and_then (construct vals) (\<lambda>r. and_then (encode r) (\<lambda>text.
       guarded [(text \<noteq> data, noncanonical)] (Inr r))))"

section \<open>Facts\<close>

lemma unquote_escaped: "list_all (\<lambda>c. \<not> bad c) s \<Longrightarrow> unquote bad (concat (map quote_char s)) = Inr s"
  by (induction s) (auto simp: quote_char_def)

lemma parse_token_text:
  assumes "scalar_ok v" and bad: "\<And>c. bad c \<Longrightarrow> is_control c" and "case v of SBool _ \<Rightarrow> booleans | _ \<Rightarrow> True"
  shows "parse_token booleans bad (scalar_text v) = Inr v"
proof (cases v)
  case (SInt i)
  with assms(1) have "scalar_text v = show_nat (nat i)" and "0 \<le> i" by (simp_all add: show_int_def)
  with SInt show ?thesis
    using digit_string_not_keyword [OF show_nat_digits [of "nat i"]] show_nat_decimal [of "nat i"]
    by (simp add: parse_token_def)
next
  case (SStr s)
  with assms(1) have "list_all (\<lambda>c. \<not> bad c) s" using bad by (auto simp: plain_def list_all_iff)
  moreover have "butlast (tl (quote s)) = concat (map quote_char s)" by (simp add: quote_def)
  ultimately show ?thesis
    using SStr by (simp add: parse_token_def unquote_escaped) (simp add: quote_def decimal_def is_digit_def)
qed (use assms(3) in \<open>simp_all add: parse_token_def\<close>)

lemma flat_lines_Cons: "flat_lines (k # ks) (v # vs) = (k @ '': '' @ scalar_text v) # flat_lines ks vs"
  by (simp add: flat_lines_def)

lemma flat_lines_length: "length names = length vals \<Longrightarrow> length (flat_lines names vals) = length names"
  by (simp add: flat_lines_def)

lemma read_flat_lines:
  assumes "length names = length vals"
    and "\<And>k v. v \<in> set vals \<Longrightarrow> parse k (scalar_text v) = Inr v"
  shows "read_fields parse order_error (flat_lines names vals) names = Inr vals"
  using assms
proof (induction names vals rule: list_induct2)
  case (Cons k ks v vs)
  then show ?case by (simp add: flat_lines_Cons)
qed (simp add: flat_lines_def)

lemma read_fields_length:
  "read_fields parse order_error lines names = Inr vs \<Longrightarrow> length lines = length names \<Longrightarrow> length vs = length names"
proof (induction lines arbitrary: names vs)
  case (Cons l ls)
  then obtain k ks where "names = k # ks" by (cases names) auto
  with Cons show ?case by (auto simp: res_simps)
qed simp

lemma flat_lines_plain:
  assumes "list_all plain names" and "list_all scalar_ok vals"
  shows "\<forall>l \<in> set (flat_lines names vals). plain l \<and> l \<noteq> []"
proof
  fix l assume "l \<in> set (flat_lines names vals)"
  then obtain k v where "k \<in> set names" "v \<in> set vals" "l = k @ '': '' @ scalar_text v"
    by (auto simp: flat_lines_def dest: set_zip_leftD set_zip_rightD)
  with assms show "plain l \<and> l \<noteq> []" by (auto simp: list_all_iff plain_literal_text is_control_def)
qed

text \<open>What every flat document passes, whatever its reader checks among these.\<close>

definition flat_shape :: "string \<Rightarrow> bool" where
  "flat_shape data \<longleftrightarrow> data \<noteq> [] \<and> \<not> starts_with [CHR 0xEF, CHR 0xBB, CHR 0xBF] data \<and> ends_with [CHR 0x0A] data
     \<and> \<not> ends_with [CHR 0x0A, CHR 0x0A] data \<and> \<not> list_ex document_control data"

lemma flat_text_shape:
  assumes "list_all plain names" and "list_all scalar_ok vals" and "length names = length vals"
    and first: "names = (''schema_version'') # names'"
  shows "flat_shape (flat_text names vals)" and "split_lines (butlast (flat_text names vals)) = flat_lines names vals"
proof -
  let ?lines = "flat_lines names vals"
  have plain: "\<forall>l \<in> set ?lines. plain l \<and> l \<noteq> []" using flat_lines_plain assms(1,2) by blast
  obtain v vs where "vals = v # vs" using assms(3) first by (cases vals) auto
  then have cons: "?lines = (''schema_version'' @ '': '' @ scalar_text v) # flat_lines names' vs" by (simp add: first flat_lines_Cons)
  then have "?lines \<noteq> []" by simp
  from join_lines_last [OF this plain] obtain s c where join: "join_lines ?lines = s @ [c]" "c \<noteq> CHR 0x0A"
    by (cases "join_lines ?lines" rule: rev_cases) auto
  have "\<not> starts_with [CHR 0xEF, CHR 0xBB, CHR 0xBF] (finish ?lines)"
    unfolding cons by (simp, subst finish_first) simp
  moreover have "\<not> list_ex document_control (finish ?lines)"
    using join_lines_chars [of ?lines] plain by (auto simp: finish_def list_ex_iff document_control_def)
  ultimately show "flat_shape (flat_text names vals)"
    using join by (simp add: flat_shape_def flat_text_def ends_with_def finish_def)
  show "split_lines (butlast (flat_text names vals)) = ?lines"
    using split_join_lines [OF \<open>?lines \<noteq> []\<close>] plain by (simp add: flat_text_def finish_def)
qed

section \<open>The contract of a record's evidence\<close>

text \<open>
  A record type with its fields, the constructor that checks their vals, and its reader.  The
  provider promises that the constructor accepts exactly the vals of valid records, that those
  are scalars the format can carry, and that the reader accepts the shape the writer gives; the
  client gets the round trip and that digests bind.
\<close>

locale flat_evidence =
  fixes names :: "string list"
    and fields_of :: "'r \<Rightarrow> scalar list"
    and valid :: "'r \<Rightarrow> bool"
    and construct :: "scalar list \<Rightarrow> 'e + 'r"
    and document_guards :: "string \<Rightarrow> (bool \<times> 'e) list"
    and line_guards :: "string list \<Rightarrow> (bool \<times> 'e) list"
    and parse :: "string \<Rightarrow> string \<Rightarrow> 'e + scalar"
    and order_error digest_error noncanonical :: 'e
  assumes construct_valid: "construct vs = Inr r \<Longrightarrow> length vs = length names \<Longrightarrow> valid r \<and> fields_of r = vs"
    and construct_values: "valid r \<Longrightarrow> construct (fields_of r) = Inr r"
    and values_length: "length (fields_of r) = length names"
    and values_ok: "valid r \<Longrightarrow> list_all scalar_ok (fields_of r)"
    and parse_value: "valid r \<Longrightarrow> v \<in> set (fields_of r) \<Longrightarrow> parse k (scalar_text v) = Inr v"
    and names_plain: "list_all plain names"
    and names_first: "\<exists>names'. names = ''schema_version'' # names'"
    and document_shape: "flat_shape data \<Longrightarrow> raise_first (document_guards data) = None"
    and line_shape: "length lines = length names \<Longrightarrow> \<forall>l \<in> set lines. l \<noteq> [] \<Longrightarrow> raise_first (line_guards lines) = None"
    and line_count: "raise_first (line_guards lines) = None \<Longrightarrow> length lines = length names"
begin

lemma values_inject: "valid r \<Longrightarrow> valid s \<Longrightarrow> fields_of r = fields_of s \<Longrightarrow> r = s"
  using construct_values by (metis sum.inject(2))

lemma read_length:
  assumes "flat_read document_guards line_guards parse order_error names data = Inr vs"
  shows "length vs = length names"
  using assms read_fields_length [of parse order_error "split_lines (butlast data)" names vs] line_count [of "split_lines (butlast data)"]
  by (auto simp: flat_read_def res_simps Let_def)

lemma read_written:
  assumes "valid r"
  shows "flat_read document_guards line_guards parse order_error names (flat_text names (fields_of r)) = Inr (fields_of r)"
proof -
  from names_first obtain names' where "names = ''schema_version'' # names'" by blast
  note shape = flat_text_shape [OF names_plain values_ok [OF assms] values_length [symmetric] this]
  let ?lines = "flat_lines names (fields_of r)"
  have "length ?lines = length names" by (simp add: flat_lines_length values_length)
  moreover have "\<forall>l \<in> set ?lines. l \<noteq> []" using flat_lines_plain [OF names_plain values_ok [OF assms]] by blast
  ultimately have "raise_first (line_guards ?lines) = None" by (rule line_shape)
  moreover have "read_fields parse order_error ?lines names = Inr (fields_of r)"
    by (rule read_flat_lines) (simp_all add: values_length parse_value [OF assms])
  ultimately show ?thesis by (simp add: flat_read_def shape document_shape)
qed

text \<open>The reader accepts exactly what the writer writes for a valid record.\<close>

lemma decode_iff:
  "flat_decode (flat_read document_guards line_guards parse order_error names) construct
     (\<lambda>r. flat_encode H names digest_error (fields_of r)) noncanonical data = Inr r
   \<longleftrightarrow> valid r \<and> flat_encode H names digest_error (fields_of r) = Inr data"
proof
  assume "flat_decode (flat_read document_guards line_guards parse order_error names) construct
     (\<lambda>r. flat_encode H names digest_error (fields_of r)) noncanonical data = Inr r"
  then obtain vs where vs: "flat_read document_guards line_guards parse order_error names data = Inr vs" "construct vs = Inr r"
    and encoded: "flat_encode H names digest_error (fields_of r) = Inr data" by (auto simp: flat_decode_def res_simps)
  with construct_valid [OF vs(2) read_length [OF vs(1)]]
  show "valid r \<and> flat_encode H names digest_error (fields_of r) = Inr data" by simp
next
  assume ok: "valid r \<and> flat_encode H names digest_error (fields_of r) = Inr data"
  with ok have "data = flat_text names (fields_of r)" by (simp add: flat_encode_def res_simps)
  with ok show "flat_decode (flat_read document_guards line_guards parse order_error names) construct
     (\<lambda>r. flat_encode H names digest_error (fields_of r)) noncanonical data = Inr r"
    by (simp add: flat_decode_def read_written construct_values)
qed

text \<open>Texts of valid records tell all their fields; so do digests, except for the digest itself.\<close>

lemma text_inject:
  assumes "valid r" and "valid s" and "flat_text names (fields_of r) = flat_text names (fields_of s)"
  shows "r = s"
  using assms read_written [of r] read_written [of s] values_inject by (metis sum.inject(2))

end

end
