(* ===== verification/Posix_Path.thy ===== *)
theory Posix_Path
  imports Prelude
begin

text \<open>
  What the program uses of \<open>str.split\<close>, \<open>pathlib.Path\<close> and \<open>os.path\<close> on a POSIX host, where
  \<open>normcase\<close> is the identity.
\<close>

fun split_on :: "char \<Rightarrow> string \<Rightarrow> string list" where
  "split_on c [] = [[]]"
| "split_on c (x # s) = (if x = c then [] # split_on c s
     else case split_on c s of [] \<Rightarrow> [[x]] | p # ps \<Rightarrow> (x # p) # ps)"

fun join_with :: "char \<Rightarrow> string list \<Rightarrow> string" where
  "join_with c [] = []"
| "join_with c [p] = p"
| "join_with c (p # ps) = p @ c # join_with c ps"

text \<open>\<open>Path(s).parts\<close> without the root, of a path that starts with one slash.\<close>

definition path_parts :: "string \<Rightarrow> string list" where
  "path_parts s = filter (\<lambda>p. p \<noteq> [] \<and> p \<noteq> ''.'') (split_on CHR ''/'' s)"

definition posix_path :: "string list \<Rightarrow> string" where
  "posix_path parts = CHR ''/'' # join_with CHR ''/'' parts"

fun norm_parts :: "bool \<Rightarrow> string list \<Rightarrow> string list \<Rightarrow> string list" where
  "norm_parts rooted done_parts [] = rev done_parts"
| "norm_parts rooted done_parts (p # ps) =
     (if p = [] \<or> p = ''.'' then norm_parts rooted done_parts ps
      else if p \<noteq> ''..'' \<or> \<not> rooted \<and> done_parts = [] \<or> done_parts \<noteq> [] \<and> hd done_parts = ''..''
      then norm_parts rooted (p # done_parts) ps
      else norm_parts rooted (tl done_parts) ps)"

definition normpath :: "string \<Rightarrow> string" where
  "normpath s = (if s = [] then ''.'' else
     let slashes = (if starts_with ''//'' s \<and> \<not> starts_with ''///'' s then 2 else if starts_with ''/'' s then 1 else 0);
         path = replicate slashes CHR ''/'' @ join_with CHR ''/'' (norm_parts (slashes \<noteq> 0) [] (split_on CHR ''/'' s))
     in if path = [] then ''.'' else path)"

definition rstrip_chars :: "char list \<Rightarrow> string \<Rightarrow> string" where
  "rstrip_chars cs s = rev (dropWhile (\<lambda>c. c \<in> set cs) (rev s))"

section \<open>Facts\<close>

lemma split_on_nonempty [simp]: "split_on c s \<noteq> []"
  by (induction s) (auto split: list.split)

lemma join_split [simp]: "join_with c (split_on c s) = s"
proof (induction s)
  case (Cons x s)
  obtain p ps where "split_on c s = p # ps" using split_on_nonempty [of c s] by (cases "split_on c s") auto
  with Cons show ?case by (cases ps) auto
qed simp

lemma split_on_append: "c \<notin> set p \<Longrightarrow> split_on c (p @ c # s) = p # split_on c s"
  by (induction p) auto

lemma split_on_plain: "c \<notin> set p \<Longrightarrow> split_on c p = [p]"
  by (induction p) auto

lemma split_join: "ps \<noteq> [] \<Longrightarrow> \<forall>p \<in> set ps. c \<notin> set p \<Longrightarrow> split_on c (join_with c ps) = ps"
  by (induction c ps rule: join_with.induct) (auto simp: split_on_append split_on_plain)

lemma split_on_parts: "p \<in> set (split_on c s) \<Longrightarrow> c \<notin> set p"
proof (induction s arbitrary: p)
  case (Cons x s)
  obtain q qs where "split_on c s = q # qs" using split_on_nonempty [of c s] by (cases "split_on c s") auto
  with Cons show ?case by (auto split: if_splits)
qed simp

lemma set_join_with: "set (join_with c ps) \<subseteq> insert c (\<Union> (set ` set ps))"
  by (induction c ps rule: join_with.induct) auto

text \<open>Texts ended each by a terminator that none of them contains can be told apart.\<close>

definition terminated :: "char \<Rightarrow> string list \<Rightarrow> string" where
  "terminated c ps = concat (map (\<lambda>p. p @ [c]) ps)"

lemma terminated_simps [simp]: "terminated c [] = []" "terminated c (p # ps) = p @ c # terminated c ps"
  by (simp_all add: terminated_def)

lemma terminated_append [simp]: "terminated c (ps @ qs) = terminated c ps @ terminated c qs"
  by (simp add: terminated_def)

lemma until_terminator:
  assumes "p @ c # s = q @ c # t" and "c \<notin> set p" and "c \<notin> set q"
  shows "p = q \<and> s = t"
  using assms by (auto simp: append_eq_append_conv2 append_eq_Cons_conv Cons_eq_append_conv)

lemma terminated_inject:
  assumes "terminated c ps = terminated c qs" and "\<forall>p \<in> set ps. c \<notin> set p" and "\<forall>q \<in> set qs. c \<notin> set q"
  shows "ps = qs"
  using assms
proof (induction ps arbitrary: qs)
  case Nil
  then show ?case by (cases qs) auto
next
  case (Cons p ps)
  then obtain q qs' where qs: "qs = q # qs'" by (cases qs) auto
  with Cons.prems have "p @ c # terminated c ps = q @ c # terminated c qs'" by simp
  then have "p = q \<and> terminated c ps = terminated c qs'"
    by (rule until_terminator) (use Cons.prems qs in auto)
  with Cons qs show ?case by auto
qed

end
