(* ===== verification/Worktree_Evidence.thy ===== *)
theory Worktree_Evidence
  imports Flat_Document Posix_Path
begin

text \<open>
  The evidence of managed worktrees (\<open>worktree_lifecycle_store.py\<close>, lines 20 to 730): the
  validators, the reservation, the record and the decision with their constructors, and their
  canonical documents.  A constructor checks the values of its fields as scalars, since that is
  what a document gives it; the record that results is typed.  The code prefixes the text of an
  error with \<open>worktree_lifecycle:\<close>.
\<close>

section \<open>Validators\<close>

datatype worktree_error =
    WorktreeLifecycleInputError string
  | WorktreeLifecycleSchemaError string
  | WorktreeLifecycleSecurityError string
  | WorktreeLifecycleConflictError string
  | WorktreeLifecycleTransitionError string
  | WorktreeLifecycleNotFoundError string

type_synonym worktree_guard = "bool \<times> worktree_error"

definition WORKTREE_SCHEMA :: string where
  "WORKTREE_SCHEMA = ''agentdesk.worktree-lifecycle/v1''"

datatype WorktreePhase = RESERVED | CREATING | READY | RELEASING | RELEASED

fun WorktreePhase_value :: "WorktreePhase \<Rightarrow> string" where
  "WorktreePhase_value RESERVED = ''RESERVED''"
| "WorktreePhase_value CREATING = ''CREATING''"
| "WorktreePhase_value READY = ''READY''"
| "WorktreePhase_value RELEASING = ''RELEASING''"
| "WorktreePhase_value RELEASED = ''RELEASED''"

definition worktree_phases :: "WorktreePhase list" where
  "worktree_phases = [RESERVED, CREATING, READY, RELEASING, RELEASED]"

fun phase_position :: "WorktreePhase \<Rightarrow> nat" where
  "phase_position RESERVED = 0"
| "phase_position CREATING = 1"
| "phase_position READY = 2"
| "phase_position RELEASING = 3"
| "phase_position RELEASED = 4"

datatype WorktreeReconciliationAction = NO_OP | RESUME_CREATE | ADOPT_READY | RESUME_RELEASE | REJECT | FAIL_CLOSED

fun WorktreeReconciliationAction_value :: "WorktreeReconciliationAction \<Rightarrow> string" where
  "WorktreeReconciliationAction_value NO_OP = ''NO_OP''"
| "WorktreeReconciliationAction_value RESUME_CREATE = ''RESUME_CREATE''"
| "WorktreeReconciliationAction_value ADOPT_READY = ''ADOPT_READY''"
| "WorktreeReconciliationAction_value RESUME_RELEASE = ''RESUME_RELEASE''"
| "WorktreeReconciliationAction_value REJECT = ''REJECT''"
| "WorktreeReconciliationAction_value FAIL_CLOSED = ''FAIL_CLOSED''"

definition reconciliation_actions :: "WorktreeReconciliationAction list" where
  "reconciliation_actions = [NO_OP, RESUME_CREATE, ADOPT_READY, RESUME_RELEASE, REJECT, FAIL_CLOSED]"

text \<open>The value of a scalar at the type its field has once it is validated.\<close>

definition text_of :: "scalar \<Rightarrow> string" where
  "text_of v = (case v of SStr s \<Rightarrow> s | _ \<Rightarrow> [])"

definition int_of :: "scalar \<Rightarrow> int" where
  "int_of v = (case v of SInt i \<Rightarrow> i | _ \<Rightarrow> 0)"

definition bool_of :: "scalar \<Rightarrow> bool" where
  "bool_of v = (case v of SBool b \<Rightarrow> b | _ \<Rightarrow> False)"

definition opt_text_of :: "scalar \<Rightarrow> string option" where
  "opt_text_of v = (case v of SStr s \<Rightarrow> Some s | _ \<Rightarrow> None)"

definition opt_bool_of :: "scalar \<Rightarrow> bool option" where
  "opt_bool_of v = (case v of SBool b \<Rightarrow> Some b | _ \<Rightarrow> None)"

definition opt_bool_scalar :: "bool option \<Rightarrow> scalar" where
  "opt_bool_scalar v = (case v of None \<Rightarrow> SNull | Some b \<Rightarrow> SBool b)"

text \<open>\<open>WorktreePhase(value)\<close> and \<open>WorktreeReconciliationAction(value)\<close>\<close>

definition phase_of :: "scalar \<Rightarrow> WorktreePhase option" where
  "phase_of v = find (\<lambda>p. v = SStr (WorktreePhase_value p)) worktree_phases"

definition action_of :: "scalar \<Rightarrow> WorktreeReconciliationAction option" where
  "action_of v = find (\<lambda>a. v = SStr (WorktreeReconciliationAction_value a)) reconciliation_actions"

definition wt_text :: "scalar \<Rightarrow> string \<Rightarrow> worktree_guard list" where
  "wt_text v code = (case v of
      SStr s \<Rightarrow> [(s = [] \<or> s \<noteq> py_strip s \<or> list_ex is_control s, WorktreeLifecycleInputError (code @ ''_unsafe''))]
    | _ \<Rightarrow> [(True, WorktreeLifecycleInputError (code @ ''_type''))])"

definition name_stem :: "string \<Rightarrow> string" where
  "name_stem s = takeWhile (\<lambda>c. c \<noteq> CHR ''.'') (casefold s)"

definition wt_safe_id :: "scalar \<Rightarrow> string \<Rightarrow> string \<Rightarrow> worktree_guard list" where
  "wt_safe_id v code prefix = wt_text v code @
     [(\<not> SAFE_ID_RE (text_of v) \<or> has_char [CHR ''/'', CHR 0x5C] (text_of v), WorktreeLifecycleInputError (code @ ''_format'')),
      (\<not> starts_with prefix (text_of v), WorktreeLifecycleInputError (code @ ''_prefix'')),
      (name_stem (text_of v) \<in> set RESERVED_WINDOWS_NAMES, WorktreeLifecycleSecurityError (code @ ''_reserved''))]"

definition wt_positive :: "scalar \<Rightarrow> string \<Rightarrow> int option \<Rightarrow> worktree_guard list" where
  "wt_positive v code maximum = [(case v of
      SInt i \<Rightarrow> i < 1 \<or> (case maximum of None \<Rightarrow> False | Some m \<Rightarrow> i > m)
    | _ \<Rightarrow> True, WorktreeLifecycleInputError (code @ ''_range''))]"

definition formatted :: "(string \<Rightarrow> bool) \<Rightarrow> scalar \<Rightarrow> string \<Rightarrow> worktree_guard list" where
  "formatted re v code =
     [(case v of SStr s \<Rightarrow> \<not> re s | _ \<Rightarrow> True, WorktreeLifecycleInputError (code @ ''_format''))]"

definition wt_sha40 :: "scalar \<Rightarrow> string \<Rightarrow> worktree_guard list" where
  "wt_sha40 = formatted (\<lambda>s. length s = 40 \<and> list_all is_hex s)"

definition wt_digest :: "scalar \<Rightarrow> string \<Rightarrow> worktree_guard list" where
  "wt_digest = formatted SHA256_RE"

definition wt_timestamp :: "scalar \<Rightarrow> string \<Rightarrow> bool \<Rightarrow> worktree_guard list" where
  "wt_timestamp v code optional = (if optional \<and> v = SNull then [] else formatted TIMESTAMP_RE v code)"

definition TASK_RE :: "string \<Rightarrow> bool" where
  "TASK_RE s \<longleftrightarrow> starts_with ''TC-'' s \<and> length s \<ge> 6 \<and> list_all is_digit (drop 3 s)"

definition wt_task :: "scalar \<Rightarrow> string \<Rightarrow> worktree_guard list" where
  "wt_task v code = [(case v of SStr s \<Rightarrow> \<not> TASK_RE s | _ \<Rightarrow> True, WorktreeLifecycleInputError code)]"

definition wt_path :: "scalar \<Rightarrow> string \<Rightarrow> worktree_guard list" where
  "wt_path v code = wt_text v code @
     (let s = text_of v; parts = path_parts s in
      [(starts_with [CHR 0x5C, CHR 0x5C] s \<or> starts_with ''//'' s, WorktreeLifecycleSecurityError (code @ ''_unc'')),
       (\<not> starts_with ''/'' s \<or> ''..'' \<in> set parts, WorktreeLifecycleSecurityError (code @ ''_absolute''))] @
      concat (map (\<lambda>p.
        [(name_stem p \<in> set RESERVED_WINDOWS_NAMES, WorktreeLifecycleSecurityError (code @ ''_reserved'')),
         (has_char [CHR '':''] p, WorktreeLifecycleSecurityError (code @ ''_ads''))]) parts) @
      [(normpath s \<noteq> rstrip_chars [CHR 0x5C, CHR ''/''] s, WorktreeLifecycleSecurityError (code @ ''_canonical''))])"

definition wt_branch :: "scalar \<Rightarrow> worktree_guard list" where
  "wt_branch v = wt_text v ''branch'' @
     [(\<not> starts_with ''agentdesk/'' (text_of v) \<or> ''..'' \<in> set (split_on CHR ''/'' (text_of v))
         \<or> has_char [CHR 0x5C] (text_of v), WorktreeLifecycleInputError ''branch_format'')]"

definition wt_schema :: "scalar \<Rightarrow> string \<Rightarrow> worktree_guard list" where
  "wt_schema v code = [(v \<noteq> SStr WORKTREE_SCHEMA, WorktreeLifecycleInputError code)]"

section \<open>Reservations\<close>

record WorktreeReservation =
  wr_schema_version :: string
  wr_reservation_id :: string
  wr_worktree_id :: string
  wr_repository_common_dir :: string
  wr_repository_root :: string
  wr_worktree_path :: string
  wr_branch :: string
  wr_base_commit :: string
  wr_task_id :: string
  wr_revision :: int
  wr_attempt :: int
  wr_dispatch_id :: string
  wr_phase :: WorktreePhase
  wr_reserved_at :: string
  wr_content_digest :: string

definition RESERVATION_FIELDS :: "string list" where
  "RESERVATION_FIELDS =
    [''schema_version'', ''reservation_id'', ''worktree_id'', ''repository_common_dir'',
     ''repository_root'', ''worktree_path'', ''branch'', ''base_commit'', ''task_id'',
     ''revision'', ''attempt'', ''dispatch_id'', ''phase'', ''reserved_at'', ''content_digest'']"

definition reservation_values :: "WorktreeReservation \<Rightarrow> scalar list" where
  "reservation_values r =
    [SStr (wr_schema_version r), SStr (wr_reservation_id r), SStr (wr_worktree_id r),
     SStr (wr_repository_common_dir r), SStr (wr_repository_root r), SStr (wr_worktree_path r),
     SStr (wr_branch r), SStr (wr_base_commit r), SStr (wr_task_id r), SInt (wr_revision r),
     SInt (wr_attempt r), SStr (wr_dispatch_id r), SStr (WorktreePhase_value (wr_phase r)),
     SStr (wr_reserved_at r), SStr (wr_content_digest r)]"

definition reservation_guards :: "scalar list \<Rightarrow> worktree_guard list" where
  "reservation_guards vs =
    wt_schema (vs ! 0) ''reservation_schema'' @
    wt_safe_id (vs ! 1) ''reservation_id'' ''WTR-'' @
    wt_safe_id (vs ! 2) ''worktree_id'' ''WT-'' @
    wt_path (vs ! 3) ''repository_common_dir'' @
    wt_path (vs ! 4) ''repository_root'' @
    wt_path (vs ! 5) ''worktree_path'' @
    wt_branch (vs ! 6) @
    wt_sha40 (vs ! 7) ''base_commit'' @
    wt_task (vs ! 8) ''task_id'' @
    wt_positive (vs ! 9) ''revision'' None @
    wt_positive (vs ! 10) ''attempt'' (Some 3) @
    wt_safe_id (vs ! 11) ''dispatch_id'' ''DSP-'' @
    [(vs ! 12 \<noteq> SStr ''RESERVED'', WorktreeLifecycleInputError ''reservation_phase'')] @
    wt_timestamp (vs ! 13) ''reserved_at'' False @
    wt_digest (vs ! 14) ''reservation_digest''"

definition reservation_of :: "scalar list \<Rightarrow> WorktreePhase \<Rightarrow> WorktreeReservation" where
  "reservation_of vs phase =
    \<lparr>wr_schema_version = text_of (vs ! 0), wr_reservation_id = text_of (vs ! 1), wr_worktree_id = text_of (vs ! 2),
     wr_repository_common_dir = text_of (vs ! 3), wr_repository_root = text_of (vs ! 4),
     wr_worktree_path = text_of (vs ! 5), wr_branch = text_of (vs ! 6), wr_base_commit = text_of (vs ! 7),
     wr_task_id = text_of (vs ! 8), wr_revision = int_of (vs ! 9), wr_attempt = int_of (vs ! 10),
     wr_dispatch_id = text_of (vs ! 11), wr_phase = phase, wr_reserved_at = text_of (vs ! 13),
     wr_content_digest = text_of (vs ! 14)\<rparr>"

definition construct_reservation :: "scalar list \<Rightarrow> worktree_error + WorktreeReservation" where
  "construct_reservation vs = (case phase_of (vs ! 12) of
      None \<Rightarrow> Inl (WorktreeLifecycleSchemaError ''reservation_fields'')
    | Some p \<Rightarrow> guarded (reservation_guards vs) (Inr (reservation_of vs p)))"

text \<open>The constructor on typed values.\<close>

definition new_reservation :: "WorktreeReservation \<Rightarrow> worktree_error + WorktreeReservation" where
  "new_reservation r = guarded (reservation_guards (reservation_values r)) (Inr r)"


section \<open>Records\<close>

record WorktreeRecord =
  wc_schema_version :: string
  wc_worktree_id :: string
  wc_reservation_id :: string
  wc_repository_common_dir :: string
  wc_repository_root :: string
  wc_worktree_path :: string
  wc_branch :: string
  wc_base_commit :: string
  wc_head_commit :: string
  wc_task_id :: string
  wc_revision :: int
  wc_attempt :: int
  wc_dispatch_id :: string
  wc_phase :: WorktreePhase
  wc_created_at :: "string option"
  wc_release_requested_at :: "string option"
  wc_released_at :: "string option"
  wc_inventory_digest :: string
  wc_content_digest :: string

definition RECORD_FIELDS :: "string list" where
  "RECORD_FIELDS =
    [''schema_version'', ''worktree_id'', ''reservation_id'', ''repository_common_dir'',
     ''repository_root'', ''worktree_path'', ''branch'', ''base_commit'', ''head_commit'',
     ''task_id'', ''revision'', ''attempt'', ''dispatch_id'', ''phase'', ''created_at'',
     ''release_requested_at'', ''released_at'', ''inventory_digest'', ''content_digest'']"

definition record_values :: "WorktreeRecord \<Rightarrow> scalar list" where
  "record_values r =
    [SStr (wc_schema_version r), SStr (wc_worktree_id r), SStr (wc_reservation_id r),
     SStr (wc_repository_common_dir r), SStr (wc_repository_root r), SStr (wc_worktree_path r),
     SStr (wc_branch r), SStr (wc_base_commit r), SStr (wc_head_commit r), SStr (wc_task_id r),
     SInt (wc_revision r), SInt (wc_attempt r), SStr (wc_dispatch_id r),
     SStr (WorktreePhase_value (wc_phase r)), opt_scalar (wc_created_at r),
     opt_scalar (wc_release_requested_at r), opt_scalar (wc_released_at r),
     SStr (wc_inventory_digest r), SStr (wc_content_digest r)]"

text \<open>A time that a phase is too early to have, or has reached.\<close>

definition phase_time :: "nat \<Rightarrow> nat \<Rightarrow> scalar \<Rightarrow> string \<Rightarrow> string \<Rightarrow> worktree_guard list" where
  "phase_time position first v premature missing =
    [(position < first \<and> v \<noteq> SNull, WorktreeLifecycleInputError premature),
     (position \<ge> first \<and> v = SNull, WorktreeLifecycleInputError missing)]"

definition record_guards :: "scalar list \<Rightarrow> WorktreePhase \<Rightarrow> worktree_guard list" where
  "record_guards vs phase =
    wt_schema (vs ! 0) ''record_schema'' @
    wt_safe_id (vs ! 1) ''record_worktree_id'' ''WT-'' @
    wt_safe_id (vs ! 2) ''record_reservation_id'' ''WTR-'' @
    wt_path (vs ! 3) ''record_common_dir'' @
    wt_path (vs ! 4) ''record_root'' @
    wt_path (vs ! 5) ''record_path'' @
    wt_branch (vs ! 6) @
    wt_sha40 (vs ! 7) ''record_base'' @
    wt_sha40 (vs ! 8) ''record_head'' @
    wt_task (vs ! 9) ''record_task_id'' @
    wt_positive (vs ! 10) ''record_revision'' None @
    wt_positive (vs ! 11) ''record_attempt'' (Some 3) @
    wt_safe_id (vs ! 12) ''record_dispatch_id'' ''DSP-'' @
    wt_timestamp (vs ! 14) ''created_at'' True @
    wt_timestamp (vs ! 15) ''release_requested_at'' True @
    wt_timestamp (vs ! 16) ''released_at'' True @
    wt_digest (vs ! 17) ''inventory_digest'' @
    wt_digest (vs ! 18) ''record_digest'' @
    phase_time (phase_position phase) 2 (vs ! 14) ''created_at_premature'' ''created_at_missing'' @
    phase_time (phase_position phase) 3 (vs ! 15) ''release_requested_premature'' ''release_requested_missing'' @
    phase_time (phase_position phase) 4 (vs ! 16) ''released_at_premature'' ''released_at_missing''"

definition record_of :: "scalar list \<Rightarrow> WorktreePhase \<Rightarrow> WorktreeRecord" where
  "record_of vs phase =
    \<lparr>wc_schema_version = text_of (vs ! 0), wc_worktree_id = text_of (vs ! 1), wc_reservation_id = text_of (vs ! 2),
     wc_repository_common_dir = text_of (vs ! 3), wc_repository_root = text_of (vs ! 4),
     wc_worktree_path = text_of (vs ! 5), wc_branch = text_of (vs ! 6), wc_base_commit = text_of (vs ! 7),
     wc_head_commit = text_of (vs ! 8), wc_task_id = text_of (vs ! 9), wc_revision = int_of (vs ! 10),
     wc_attempt = int_of (vs ! 11), wc_dispatch_id = text_of (vs ! 12), wc_phase = phase,
     wc_created_at = opt_text_of (vs ! 14), wc_release_requested_at = opt_text_of (vs ! 15),
     wc_released_at = opt_text_of (vs ! 16), wc_inventory_digest = text_of (vs ! 17),
     wc_content_digest = text_of (vs ! 18)\<rparr>"

definition construct_record :: "scalar list \<Rightarrow> worktree_error + WorktreeRecord" where
  "construct_record vs = (case phase_of (vs ! 13) of
      None \<Rightarrow> Inl (WorktreeLifecycleSchemaError ''record_fields'')
    | Some p \<Rightarrow> guarded (record_guards vs p) (Inr (record_of vs p)))"

definition new_record :: "WorktreeRecord \<Rightarrow> worktree_error + WorktreeRecord" where
  "new_record r = guarded (record_guards (record_values r) (wc_phase r)) (Inr r)"

section \<open>Decisions\<close>

record WorktreeReconciliationDecision =
  wd_schema_version :: string
  wd_worktree_id :: string
  wd_action :: WorktreeReconciliationAction
  wd_reason :: string
  wd_expected_phase :: WorktreePhase
  wd_observed_present :: bool
  wd_observed_head :: "string option"
  wd_observed_branch :: "string option"
  wd_observed_clean :: "bool option"
  wd_content_digest :: string

definition DECISION_FIELDS :: "string list" where
  "DECISION_FIELDS =
    [''schema_version'', ''worktree_id'', ''action'', ''reason'', ''expected_phase'',
     ''observed_present'', ''observed_head'', ''observed_branch'', ''observed_clean'',
     ''content_digest'']"

definition RECONCILIATION_REASONS :: "string list" where
  "RECONCILIATION_REASONS =
    [''reservation_missing'', ''resume_create'', ''adopt_ready'', ''ready_exact'',
     ''resume_release'', ''released_exact'', ''identity_divergent'',
     ''inventory_missing'', ''dirty_or_unknown'', ''phase_unsupported'']"

definition decision_values :: "WorktreeReconciliationDecision \<Rightarrow> scalar list" where
  "decision_values d =
    [SStr (wd_schema_version d), SStr (wd_worktree_id d), SStr (WorktreeReconciliationAction_value (wd_action d)),
     SStr (wd_reason d), SStr (WorktreePhase_value (wd_expected_phase d)), SBool (wd_observed_present d),
     opt_scalar (wd_observed_head d), opt_scalar (wd_observed_branch d), opt_bool_scalar (wd_observed_clean d),
     SStr (wd_content_digest d)]"

definition decision_guards :: "scalar list \<Rightarrow> worktree_guard list" where
  "decision_guards vs =
    wt_schema (vs ! 0) ''decision_schema'' @
    wt_safe_id (vs ! 1) ''decision_worktree_id'' ''WT-'' @
    [(case vs ! 3 of SStr s \<Rightarrow> s \<notin> set RECONCILIATION_REASONS | _ \<Rightarrow> True, WorktreeLifecycleInputError ''decision_reason''),
     (case vs ! 5 of SBool _ \<Rightarrow> False | _ \<Rightarrow> True, WorktreeLifecycleInputError ''observed_present'')] @
    (if vs ! 6 = SNull then [] else wt_sha40 (vs ! 6) ''observed_head'') @
    (if vs ! 7 = SNull then [] else wt_text (vs ! 7) ''observed_branch'') @
    [(case vs ! 8 of SNull \<Rightarrow> False | SBool _ \<Rightarrow> False | _ \<Rightarrow> True, WorktreeLifecycleInputError ''observed_clean'')] @
    wt_digest (vs ! 9) ''decision_digest''"

definition decision_of ::
  "scalar list \<Rightarrow> WorktreeReconciliationAction \<Rightarrow> WorktreePhase \<Rightarrow> WorktreeReconciliationDecision"
where
  "decision_of vs action phase =
    \<lparr>wd_schema_version = text_of (vs ! 0), wd_worktree_id = text_of (vs ! 1), wd_action = action,
     wd_reason = text_of (vs ! 3), wd_expected_phase = phase, wd_observed_present = bool_of (vs ! 5),
     wd_observed_head = opt_text_of (vs ! 6), wd_observed_branch = opt_text_of (vs ! 7),
     wd_observed_clean = opt_bool_of (vs ! 8), wd_content_digest = text_of (vs ! 9)\<rparr>"

definition construct_decision :: "scalar list \<Rightarrow> worktree_error + WorktreeReconciliationDecision" where
  "construct_decision vs = (case (action_of (vs ! 2), phase_of (vs ! 4)) of
      (Some a, Some p) \<Rightarrow> guarded (decision_guards vs) (Inr (decision_of vs a p))
    | _ \<Rightarrow> Inl (WorktreeLifecycleSchemaError ''decision_fields''))"

definition new_decision :: "WorktreeReconciliationDecision \<Rightarrow> worktree_error + WorktreeReconciliationDecision" where
  "new_decision d = guarded (decision_guards (decision_values d)) (Inr d)"

section \<open>Documents\<close>

definition parse_field :: "string \<Rightarrow> string \<Rightarrow> worktree_error + scalar" where
  "parse_field code token = (case parse_token True (\<lambda>c. (of_char c :: nat) < 32) token of
      Inr v \<Rightarrow> Inr v
    | Inl BadEscape \<Rightarrow> Inl (WorktreeLifecycleSchemaError (code @ ''_escape''))
    | Inl BadQuote \<Rightarrow> Inl (WorktreeLifecycleSchemaError (code @ ''_quoted''))
    | Inl NonCanonical \<Rightarrow> Inl (WorktreeLifecycleSchemaError (code @ ''_noncanonical''))
    | Inl NotScalar \<Rightarrow> Inl (WorktreeLifecycleSchemaError (code @ ''_scalar'')))"

definition worktree_document_guards :: "string \<Rightarrow> string \<Rightarrow> worktree_guard list" where
  "worktree_document_guards code data =
    [(data = [] \<or> starts_with [CHR 0xEF, CHR 0xBB, CHR 0xBF] data, WorktreeLifecycleSchemaError (code @ ''_bytes'')),
     (\<not> ends_with [CHR 0x0A] data \<or> ends_with [CHR 0x0A, CHR 0x0A] data \<or> has_char [CHR 0x0D, CHR 0x09] data,
        WorktreeLifecycleSchemaError (code @ ''_newline''))]"

definition worktree_line_guards :: "string list \<Rightarrow> string \<Rightarrow> string list \<Rightarrow> worktree_guard list" where
  "worktree_line_guards names code lines =
    [(length lines \<noteq> length names \<or> list_ex (\<lambda>l. l = []) lines, WorktreeLifecycleSchemaError (code @ ''_field_count''))]"

definition worktree_document :: "string list \<Rightarrow> string \<Rightarrow> string \<Rightarrow> worktree_error + scalar list" where
  "worktree_document names code = flat_read (worktree_document_guards code) (worktree_line_guards names code) parse_field
     (WorktreeLifecycleSchemaError (code @ ''_field_order'')) names"

definition encode_reservation :: "(string \<Rightarrow> string) \<Rightarrow> WorktreeReservation \<Rightarrow> worktree_error + string" where
  "encode_reservation H r =
     flat_encode H RESERVATION_FIELDS (WorktreeLifecycleSchemaError ''reservation_digest'') (reservation_values r)"

definition encode_record :: "(string \<Rightarrow> string) \<Rightarrow> WorktreeRecord \<Rightarrow> worktree_error + string" where
  "encode_record H r = flat_encode H RECORD_FIELDS (WorktreeLifecycleSchemaError ''record_digest'') (record_values r)"

definition encode_decision :: "(string \<Rightarrow> string) \<Rightarrow> WorktreeReconciliationDecision \<Rightarrow> worktree_error + string" where
  "encode_decision H d = flat_encode H DECISION_FIELDS (WorktreeLifecycleSchemaError ''decision_digest'') (decision_values d)"

definition decode_reservation :: "(string \<Rightarrow> string) \<Rightarrow> string \<Rightarrow> worktree_error + WorktreeReservation" where
  "decode_reservation H = flat_decode (worktree_document RESERVATION_FIELDS ''reservation'') construct_reservation
     (encode_reservation H) (WorktreeLifecycleSchemaError ''reservation_noncanonical'')"

definition decode_record :: "(string \<Rightarrow> string) \<Rightarrow> string \<Rightarrow> worktree_error + WorktreeRecord" where
  "decode_record H = flat_decode (worktree_document RECORD_FIELDS ''record'') construct_record
     (encode_record H) (WorktreeLifecycleSchemaError ''record_noncanonical'')"

definition decode_decision :: "(string \<Rightarrow> string) \<Rightarrow> string \<Rightarrow> worktree_error + WorktreeReconciliationDecision" where
  "decode_decision H = flat_decode (worktree_document DECISION_FIELDS ''decision'') construct_decision
     (encode_decision H) (WorktreeLifecycleSchemaError ''decision_noncanonical'')"

definition NO_DIGEST :: string where
  "NO_DIGEST = ''sha256:'' @ replicate 64 (CHR ''0'')"

text \<open>\<open>_with_..._digest\<close>: the digest of the other fields; each replacement runs the constructor.\<close>

definition with_reservation_digest ::
  "(string \<Rightarrow> string) \<Rightarrow> WorktreeReservation \<Rightarrow> worktree_error + WorktreeReservation"
where
  "with_reservation_digest H r = and_then (new_reservation (r\<lparr>wr_content_digest := NO_DIGEST\<rparr>)) (\<lambda>r.
     new_reservation (r\<lparr>wr_content_digest := flat_digest H RESERVATION_FIELDS (reservation_values r)\<rparr>))"

definition with_record_digest :: "(string \<Rightarrow> string) \<Rightarrow> WorktreeRecord \<Rightarrow> worktree_error + WorktreeRecord" where
  "with_record_digest H r = and_then (new_record (r\<lparr>wc_content_digest := NO_DIGEST\<rparr>)) (\<lambda>r.
     new_record (r\<lparr>wc_content_digest := flat_digest H RECORD_FIELDS (record_values r)\<rparr>))"

definition with_decision_digest ::
  "(string \<Rightarrow> string) \<Rightarrow> WorktreeReconciliationDecision \<Rightarrow> worktree_error + WorktreeReconciliationDecision"
where
  "with_decision_digest H d = and_then (new_decision (d\<lparr>wd_content_digest := NO_DIGEST\<rparr>)) (\<lambda>d.
     new_decision (d\<lparr>wd_content_digest := flat_digest H DECISION_FIELDS (decision_values d)\<rparr>))"

section \<open>Facts about validated values\<close>

lemma scalar_views [simp]:
  "text_of (SStr s) = s" "int_of (SInt i) = i" "bool_of (SBool b) = b" "opt_text_of (opt_scalar t) = t"
  "opt_bool_of (opt_bool_scalar c) = c"
  by (simp_all add: text_of_def int_of_def bool_of_def opt_text_of_def opt_scalar_def opt_bool_of_def opt_bool_scalar_def
      split: option.split)

lemma phase_of_value [simp]: "phase_of (SStr (WorktreePhase_value p)) = Some p"
  by (cases p) (simp_all add: phase_of_def worktree_phases_def)

lemma phase_of_Some: "phase_of v = Some p \<Longrightarrow> v = SStr (WorktreePhase_value p)"
  using find_Some_member [of _ worktree_phases p] by (auto simp: phase_of_def)

lemma action_of_value [simp]: "action_of (SStr (WorktreeReconciliationAction_value a)) = Some a"
  by (cases a) (simp_all add: action_of_def reconciliation_actions_def)

lemma action_of_Some: "action_of v = Some a \<Longrightarrow> v = SStr (WorktreeReconciliationAction_value a)"
  using find_Some_member [of _ reconciliation_actions a] by (auto simp: action_of_def)

lemma enum_values_plain: "plain (WorktreePhase_value p)" "plain (WorktreeReconciliationAction_value a)"
  by (cases p; simp add: is_control_def; fail) (cases a; simp add: is_control_def)

text \<open>A validated text is a string without control characters.\<close>

definition plain_text :: "scalar \<Rightarrow> bool" where
  "plain_text v \<longleftrightarrow> v = SStr (text_of v) \<and> plain (text_of v)"

definition plain_optional :: "scalar \<Rightarrow> bool" where
  "plain_optional v \<longleftrightarrow> v = opt_scalar (opt_text_of v) \<and> scalar_ok v"

lemma plain_text_optional: "plain_text v \<Longrightarrow> plain_optional v"
  by (cases v) (simp_all add: plain_text_def plain_optional_def opt_scalar_def opt_text_of_def)

lemma plain_null [simp]: "plain_optional SNull"
  by (simp add: plain_optional_def opt_scalar_def opt_text_of_def)

lemma wt_text_passed: "raise_first (wt_text v code) = None \<Longrightarrow> plain_text v"
  by (cases v) (simp_all add: wt_text_def plain_text_def plain_def list_all_iff list_ex_iff)

lemma formatted_passed:
  assumes "raise_first (formatted re v code) = None" and "\<And>s. re s \<Longrightarrow> plain s"
  shows "plain_text v"
  using assms by (cases v) (simp_all add: formatted_def plain_text_def)

lemma hex_plain: "list_all is_hex s \<Longrightarrow> plain s"
  by (auto simp: plain_def list_all_iff is_hex_def is_control_def Let_def)

lemma prefixed_plain: "starts_with p s \<Longrightarrow> plain p \<Longrightarrow> plain (drop (length p) s) \<Longrightarrow> plain s"
  by (metis plain_simps(3) starts_with_drop)

lemma sha256_plain: "SHA256_RE s \<Longrightarrow> plain s"
  by (rule prefixed_plain [of "''sha256:''"]) (simp_all add: SHA256_RE_def hex_plain is_control_def numeral_eq_Suc)

lemma template_plain: "fits_template t s \<Longrightarrow> plain t \<Longrightarrow> plain s"
  by (induction t s rule: fits_template.induct) (auto simp: is_digit_def is_control_def Let_def split: if_splits)

lemma timestamp_plain: "TIMESTAMP_RE s \<Longrightarrow> plain s"
  unfolding TIMESTAMP_RE_def by (erule template_plain) (simp add: is_control_def)

lemma task_plain: "TASK_RE s \<Longrightarrow> plain s"
  by (rule prefixed_plain [of "''TC-''"]) (simp_all add: TASK_RE_def digits_not_control is_control_def numeral_eq_Suc)

lemma wt_passed:
  "raise_first (wt_safe_id v code prefix) = None \<Longrightarrow> plain_text v"
  "raise_first (wt_sha40 v code) = None \<Longrightarrow> plain_text v"
  "raise_first (wt_digest v code) = None \<Longrightarrow> plain_text v"
  "raise_first (wt_timestamp v code False) = None \<Longrightarrow> plain_text v"
  "raise_first (wt_timestamp v code True) = None \<Longrightarrow> plain_optional v"
  "raise_first (wt_task v code) = None \<Longrightarrow> plain_text v"
  "raise_first (wt_path v code) = None \<Longrightarrow> plain_text v"
  "raise_first (wt_branch v) = None \<Longrightarrow> plain_text v"
  "raise_first (wt_schema v code) = None \<Longrightarrow> plain_text v"
proof -
  show "raise_first (wt_timestamp v code True) = None \<Longrightarrow> plain_optional v"
    using formatted_passed [of TIMESTAMP_RE v code] timestamp_plain plain_text_optional
    by (auto simp: wt_timestamp_def split: if_splits)
  show "raise_first (wt_task v code) = None \<Longrightarrow> plain_text v"
    using task_plain by (cases v) (simp_all add: wt_task_def plain_text_def)
  show "raise_first (wt_schema v code) = None \<Longrightarrow> plain_text v"
    by (simp add: wt_schema_def plain_text_def WORKTREE_SCHEMA_def is_control_def)
qed (auto simp: wt_safe_id_def wt_path_def wt_branch_def wt_sha40_def wt_digest_def wt_timestamp_def Let_def
    intro: wt_text_passed formatted_passed hex_plain sha256_plain timestamp_plain)

lemma wt_positive_passed: "raise_first (wt_positive v code m) = None \<Longrightarrow> v = SInt (int_of v) \<and> 0 \<le> int_of v"
  by (cases v) (simp_all add: wt_positive_def)

lemma plain_text_ok: "plain_text v \<Longrightarrow> scalar_ok v" "plain_text v \<Longrightarrow> SStr (text_of v) = v"
  "plain_optional v \<Longrightarrow> scalar_ok v" "plain_optional v \<Longrightarrow> opt_scalar (opt_text_of v) = v"
  by (simp_all add: plain_text_def plain_optional_def) (metis scalar_ok.simps(2))

section \<open>The documents\<close>

lemma parse_field_text: "scalar_ok v \<Longrightarrow> parse_field k (scalar_text v) = Inr v"
proof -
  assume "scalar_ok v"
  then have "parse_token True (\<lambda>c. (of_char c :: nat) < 32) (scalar_text v) = Inr v"
    by (rule parse_token_text) (auto simp: is_control_def Let_def split: scalar.split)
  then show ?thesis by (simp add: parse_field_def)
qed

lemma worktree_shape: "flat_shape data \<Longrightarrow> raise_first (worktree_document_guards code data) = None"
  by (auto simp: flat_shape_def worktree_document_guards_def has_char_def list_ex_iff document_control_def)

lemma worktree_lines_iff:
  "raise_first (worktree_line_guards names code ls) = None \<longleftrightarrow> length ls = length names \<and> (\<forall>l \<in> set ls. l \<noteq> [])"
  by (auto simp: worktree_line_guards_def list_ex_iff)

definition reservation_valid :: "WorktreeReservation \<Rightarrow> bool" where
  "reservation_valid r \<longleftrightarrow> raise_first (reservation_guards (reservation_values r)) = None"

definition record_valid :: "WorktreeRecord \<Rightarrow> bool" where
  "record_valid r \<longleftrightarrow> raise_first (record_guards (record_values r) (wc_phase r)) = None"

definition decision_valid :: "WorktreeReconciliationDecision \<Rightarrow> bool" where
  "decision_valid d \<longleftrightarrow> raise_first (decision_guards (decision_values d)) = None"

lemma length_Suc_obtain: "length vs = Suc n \<Longrightarrow> \<exists>w ws. vs = w # ws \<and> length ws = n"
  by (cases vs) auto

lemma reservation_values_of:
  assumes "length vs = length RESERVATION_FIELDS" and "raise_first (reservation_guards vs) = None" and "phase_of (vs ! 12) = Some p"
  shows "reservation_values (reservation_of vs p) = vs \<and> list_all scalar_ok vs"
proof -
  from assms(1) obtain a b c d e f g h i j k l m n t where vs: "vs = [a, b, c, d, e, f, g, h, i, j, k, l, m, n, t]"
    by (auto simp: RESERVATION_FIELDS_def length_Suc_conv dest!: length_Suc_obtain)
  have "plain_text a" "plain_text b" "plain_text c" "plain_text d" "plain_text e" "plain_text f" "plain_text g" "plain_text h"
    "plain_text i" "plain_text l" "plain_text n" "plain_text t" and "j = SInt (int_of j) \<and> 0 \<le> int_of j"
    "k = SInt (int_of k) \<and> 0 \<le> int_of k"
    using assms(2) by (auto simp: vs reservation_guards_def dest: wt_passed wt_positive_passed)
  moreover have "m = SStr (WorktreePhase_value p)" using phase_of_Some [OF assms(3)] by (simp add: vs)
  ultimately show ?thesis
    by (simp add: vs reservation_values_def reservation_of_def plain_text_ok enum_values_plain) (metis scalar_ok.simps(1))
qed

lemma record_values_of:
  assumes "length vs = length RECORD_FIELDS" and "raise_first (record_guards vs p) = None" and "phase_of (vs ! 13) = Some p"
  shows "record_values (record_of vs p) = vs \<and> list_all scalar_ok vs"
proof -
  from assms(1) obtain a b c d e f g h i j k l m n t u v w x
    where vs: "vs = [a, b, c, d, e, f, g, h, i, j, k, l, m, n, t, u, v, w, x]"
    by (auto simp: RECORD_FIELDS_def length_Suc_conv dest!: length_Suc_obtain)
  have "plain_text a" "plain_text b" "plain_text c" "plain_text d" "plain_text e" "plain_text f" "plain_text g" "plain_text h"
    "plain_text i" "plain_text j" "plain_text m" "plain_optional t" "plain_optional u" "plain_optional v" "plain_text w" "plain_text x"
    and "k = SInt (int_of k) \<and> 0 \<le> int_of k" "l = SInt (int_of l) \<and> 0 \<le> int_of l"
    using assms(2) by (auto simp: vs record_guards_def dest: wt_passed wt_positive_passed)
  moreover have "n = SStr (WorktreePhase_value p)" using phase_of_Some [OF assms(3)] by (simp add: vs)
  ultimately show ?thesis
    by (simp add: vs record_values_def record_of_def plain_text_ok enum_values_plain) (metis scalar_ok.simps(1))
qed

lemma decision_values_of:
  assumes "length vs = length DECISION_FIELDS" and "raise_first (decision_guards vs) = None"
    and "action_of (vs ! 2) = Some q" and "phase_of (vs ! 4) = Some p"
  shows "decision_values (decision_of vs q p) = vs \<and> list_all scalar_ok vs"
proof -
  from assms(1) obtain a b c d e f g h i j where vs: "vs = [a, b, c, d, e, f, g, h, i, j]"
    by (auto simp: DECISION_FIELDS_def length_Suc_conv dest!: length_Suc_obtain)
  have "plain_text a" "plain_text b" "plain_text j" and "d = SStr (text_of d) \<and> text_of d \<in> set RECONCILIATION_REASONS"
    "f = SBool (bool_of f)" "plain_optional g" "plain_optional h" "i = opt_bool_scalar (opt_bool_of i)"
    using assms(2) plain_text_optional [of g] plain_text_optional [of h]
    by (auto simp: vs decision_guards_def opt_bool_scalar_def opt_bool_of_def dest: wt_passed wt_text_passed
        split: scalar.splits if_splits)
  moreover from this have "plain (text_of d)" by (auto simp: RECONCILIATION_REASONS_def is_control_def)
  moreover have "c = SStr (WorktreeReconciliationAction_value q)" "e = SStr (WorktreePhase_value p)"
    using action_of_Some [OF assms(3)] phase_of_Some [OF assms(4)] by (simp_all add: vs)
  moreover have "scalar_ok (opt_bool_scalar (opt_bool_of i))" "scalar_ok (SBool (bool_of f))"
    by (simp_all add: opt_bool_scalar_def split: option.split)
  ultimately show ?thesis
    by (simp add: vs decision_values_def decision_of_def plain_text_ok enum_values_plain) (metis scalar_ok.simps(2,3))
qed

lemma reservation_of_values: "reservation_of (reservation_values r) (wr_phase r) = r"
  by (simp add: reservation_of_def reservation_values_def)

lemma record_of_values: "record_of (record_values r) (wc_phase r) = r"
  by (simp add: record_of_def record_values_def)

lemma decision_of_values: "decision_of (decision_values d) (wd_action d) (wd_expected_phase d) = d"
  by (simp add: decision_of_def decision_values_def)

lemma values_length [simp]:
  "length (reservation_values r) = length RESERVATION_FIELDS" "length (record_values w) = length RECORD_FIELDS"
  "length (decision_values d) = length DECISION_FIELDS"
  by (simp_all add: reservation_values_def RESERVATION_FIELDS_def record_values_def RECORD_FIELDS_def
      decision_values_def DECISION_FIELDS_def)

lemma values_phase [simp]:
  "phase_of (reservation_values r ! 12) = Some (wr_phase r)" "phase_of (record_values w ! 13) = Some (wc_phase w)"
  "action_of (decision_values d ! 2) = Some (wd_action d)" "phase_of (decision_values d ! 4) = Some (wd_expected_phase d)"
  by (simp_all add: reservation_values_def record_values_def decision_values_def)

lemma construct_reservation_iff:
  assumes "length vs = length RESERVATION_FIELDS"
  shows "construct_reservation vs = Inr r \<longleftrightarrow> reservation_valid r \<and> reservation_values r = vs"
proof
  assume "construct_reservation vs = Inr r"
  then obtain p where "phase_of (vs ! 12) = Some p" "raise_first (reservation_guards vs) = None" "r = reservation_of vs p"
    by (auto simp: construct_reservation_def res_simps split: option.splits)
  with reservation_values_of [OF assms, of p] show "reservation_valid r \<and> reservation_values r = vs"
    by (simp add: reservation_valid_def)
qed (auto simp: construct_reservation_def reservation_valid_def reservation_of_values)

lemma construct_record_iff:
  assumes "length vs = length RECORD_FIELDS"
  shows "construct_record vs = Inr r \<longleftrightarrow> record_valid r \<and> record_values r = vs"
proof
  assume "construct_record vs = Inr r"
  then obtain p where p: "phase_of (vs ! 13) = Some p" "raise_first (record_guards vs p) = None" "r = record_of vs p"
    by (auto simp: construct_record_def res_simps split: option.splits)
  then have "wc_phase r = p" by (simp add: record_of_def)
  with p record_values_of [OF assms, of p] show "record_valid r \<and> record_values r = vs" by (simp add: record_valid_def)
qed (auto simp: construct_record_def record_valid_def record_of_values)

lemma construct_decision_iff:
  assumes "length vs = length DECISION_FIELDS"
  shows "construct_decision vs = Inr d \<longleftrightarrow> decision_valid d \<and> decision_values d = vs"
proof
  assume "construct_decision vs = Inr d"
  then obtain q p where "action_of (vs ! 2) = Some q" "phase_of (vs ! 4) = Some p"
    "raise_first (decision_guards vs) = None" "d = decision_of vs q p"
    by (auto simp: construct_decision_def res_simps split: option.splits)
  with decision_values_of [OF assms, of q p] show "decision_valid d \<and> decision_values d = vs"
    by (simp add: decision_valid_def)
qed (auto simp: construct_decision_def decision_valid_def decision_of_values)

lemma valid_values_ok:
  "reservation_valid r \<Longrightarrow> list_all scalar_ok (reservation_values r)"
  "record_valid w \<Longrightarrow> list_all scalar_ok (record_values w)"
  "decision_valid d \<Longrightarrow> list_all scalar_ok (decision_values d)"
  using reservation_values_of [OF values_length(1), of r] record_values_of [OF values_length(2), of w]
    decision_values_of [OF values_length(3), of d]
  by (simp_all add: reservation_valid_def record_valid_def decision_valid_def)

lemma field_names_plain: "list_all plain RESERVATION_FIELDS" "list_all plain RECORD_FIELDS" "list_all plain DECISION_FIELDS"
  by (simp_all add: RESERVATION_FIELDS_def RECORD_FIELDS_def DECISION_FIELDS_def is_control_def)

lemma field_names_first: "\<exists>ns. RESERVATION_FIELDS = ''schema_version'' # ns" "\<exists>ns. RECORD_FIELDS = ''schema_version'' # ns"
  "\<exists>ns. DECISION_FIELDS = ''schema_version'' # ns"
  by (simp_all add: RESERVATION_FIELDS_def RECORD_FIELDS_def DECISION_FIELDS_def)

lemma parse_valid:
  "reservation_valid r \<Longrightarrow> v \<in> set (reservation_values r) \<Longrightarrow> parse_field k (scalar_text v) = Inr v"
  "record_valid w \<Longrightarrow> v \<in> set (record_values w) \<Longrightarrow> parse_field k (scalar_text v) = Inr v"
  "decision_valid d \<Longrightarrow> v \<in> set (decision_values d) \<Longrightarrow> parse_field k (scalar_text v) = Inr v"
  using valid_values_ok parse_field_text by (meson list_all_iff)+

lemmas evidence_laws = parse_valid worktree_shape worktree_lines_iff field_names_plain field_names_first valid_values_ok

interpretation reservation_evidence: flat_evidence RESERVATION_FIELDS reservation_values reservation_valid construct_reservation
    "worktree_document_guards ''reservation''" "worktree_line_guards RESERVATION_FIELDS ''reservation''" parse_field
    "WorktreeLifecycleSchemaError ''reservation_field_order''" "WorktreeLifecycleSchemaError ''reservation_digest''"
    "WorktreeLifecycleSchemaError ''reservation_noncanonical''"
  by unfold_locales (simp_all add: evidence_laws construct_reservation_iff)

interpretation record_evidence: flat_evidence RECORD_FIELDS record_values record_valid construct_record
    "worktree_document_guards ''record''" "worktree_line_guards RECORD_FIELDS ''record''" parse_field
    "WorktreeLifecycleSchemaError ''record_field_order''" "WorktreeLifecycleSchemaError ''record_digest''"
    "WorktreeLifecycleSchemaError ''record_noncanonical''"
  by unfold_locales (simp_all add: evidence_laws construct_record_iff)

interpretation decision_evidence: flat_evidence DECISION_FIELDS decision_values decision_valid construct_decision
    "worktree_document_guards ''decision''" "worktree_line_guards DECISION_FIELDS ''decision''" parse_field
    "WorktreeLifecycleSchemaError ''decision_field_order''" "WorktreeLifecycleSchemaError ''decision_digest''"
    "WorktreeLifecycleSchemaError ''decision_noncanonical''"
  by unfold_locales (simp_all add: evidence_laws construct_decision_iff)

lemma worktree_evidence_read:
  "reservation_valid r \<Longrightarrow> encode_reservation H r = Inr b \<Longrightarrow> decode_reservation H b = Inr r"
  "record_valid w \<Longrightarrow> encode_record H w = Inr b \<Longrightarrow> decode_record H b = Inr w"
  "decision_valid d \<Longrightarrow> encode_decision H d = Inr b \<Longrightarrow> decode_decision H b = Inr d"
  unfolding decode_reservation_def decode_record_def decode_decision_def encode_reservation_def encode_record_def
    encode_decision_def worktree_document_def append.simps
  using reservation_evidence.decode_iff record_evidence.decode_iff decision_evidence.decode_iff by blast+

lemma worktree_evidence_decoded:
  "decode_reservation H b = Inr r \<Longrightarrow> reservation_valid r \<and> encode_reservation H r = Inr b"
  "decode_record H b = Inr w \<Longrightarrow> record_valid w \<and> encode_record H w = Inr b"
  "decode_decision H b = Inr d \<Longrightarrow> decision_valid d \<and> encode_decision H d = Inr b"
  unfolding decode_reservation_def decode_record_def decode_decision_def encode_reservation_def encode_record_def
    encode_decision_def worktree_document_def append.simps
  using reservation_evidence.decode_iff record_evidence.decode_iff decision_evidence.decode_iff by blast+

text \<open>
  Every evidence document is read exactly as it is written: a document decodes to a
  reservation, a record or a decision if and only if that is one its constructor accepts and the
  document is its own encoding, digest included.
\<close>

theorem worktree_evidence_roundtrip:
  "(decode_reservation H b = Inr r \<longleftrightarrow> reservation_valid r \<and> encode_reservation H r = Inr b)
   \<and> (decode_record H b = Inr w \<longleftrightarrow> record_valid w \<and> encode_record H w = Inr b)
   \<and> (decode_decision H b = Inr d \<longleftrightarrow> decision_valid d \<and> encode_decision H d = Inr b)"
  using worktree_evidence_read worktree_evidence_decoded by blast

end
