(* ===== verification/Worktree_Reconcile.thy ===== *)
theory Worktree_Reconcile
  imports Worktree_Evidence "HOL-Library.Multiset"
begin

text \<open>
  Identities of managed worktrees, the inventory that \<open>git worktree list --porcelain -z\<close> prints,
  and the reconciliation of evidence with it (\<open>worktree_lifecycle_store.py\<close>, lines 295 to 525
  and 735 to 935).
\<close>

section \<open>Requests and identities\<close>

datatype WorktreeLifecycleAction = CREATE | RELEASE | RECONCILE

record WorktreeLifecycleRequest =
  wq_schema_version :: string
  wq_operation_id :: string
  wq_action :: WorktreeLifecycleAction
  wq_repository_common_dir :: string
  wq_repository_root :: string
  wq_worktree_path :: string
  wq_branch :: string
  wq_base_commit :: string
  wq_task_id :: string
  wq_revision :: int
  wq_attempt :: int
  wq_dispatch_id :: string
  wq_expected_worktree_id :: string
  wq_requested_at :: string

definition request_guards :: "WorktreeLifecycleRequest \<Rightarrow> worktree_guard list" where
  "request_guards q =
    wt_schema (SStr (wq_schema_version q)) ''request_schema'' @
    wt_safe_id (SStr (wq_operation_id q)) ''operation_id'' ''OP-'' @
    wt_path (SStr (wq_repository_common_dir q)) ''request_common_dir'' @
    wt_path (SStr (wq_repository_root q)) ''request_root'' @
    wt_path (SStr (wq_worktree_path q)) ''request_path'' @
    wt_branch (SStr (wq_branch q)) @
    wt_sha40 (SStr (wq_base_commit q)) ''request_base'' @
    wt_task (SStr (wq_task_id q)) ''request_task_id'' @
    wt_positive (SInt (wq_revision q)) ''request_revision'' None @
    wt_positive (SInt (wq_attempt q)) ''request_attempt'' (Some 3) @
    wt_safe_id (SStr (wq_dispatch_id q)) ''request_dispatch_id'' ''DSP-'' @
    wt_safe_id (SStr (wq_expected_worktree_id q)) ''expected_worktree_id'' ''WT-'' @
    wt_timestamp (SStr (wq_requested_at q)) ''requested_at'' False"

definition new_request :: "WorktreeLifecycleRequest \<Rightarrow> worktree_error + WorktreeLifecycleRequest" where
  "new_request q = guarded (request_guards q) (Inr q)"

definition binding_guards ::
  "string \<Rightarrow> string \<Rightarrow> string \<Rightarrow> string \<Rightarrow> string \<Rightarrow> int \<Rightarrow> int \<Rightarrow> string \<Rightarrow> worktree_guard list"
where
  "binding_guards common_dir root branch base task revision attempt dispatch =
    wt_path (SStr common_dir) ''binding_common_dir'' @ wt_path (SStr root) ''binding_root'' @
    wt_branch (SStr branch) @ wt_sha40 (SStr base) ''binding_base'' @ wt_text (SStr task) ''binding_task'' @
    wt_positive (SInt revision) ''binding_revision'' None @ wt_positive (SInt attempt) ''binding_attempt'' (Some 3) @
    wt_safe_id (SStr dispatch) ''binding_dispatch'' ''DSP-''"

definition binding_parts ::
  "string \<Rightarrow> string \<Rightarrow> string \<Rightarrow> string \<Rightarrow> string \<Rightarrow> int \<Rightarrow> int \<Rightarrow> string \<Rightarrow> worktree_error + string list"
where
  "binding_parts common_dir root branch base task revision attempt dispatch = guarded
    (binding_guards common_dir root branch base task revision attempt dispatch)
    (Inr [common_dir, root, branch, base, task, show_int revision, show_int attempt, dispatch])"

definition binding_bytes :: "string list \<Rightarrow> string" where
  "binding_bytes parts = join_with (CHR 0x00) parts @ [CHR 0x00]"

definition derive_worktree_id ::
  "(string \<Rightarrow> string) \<Rightarrow> string \<Rightarrow> string \<Rightarrow> string \<Rightarrow> string \<Rightarrow> string \<Rightarrow> int \<Rightarrow> int \<Rightarrow> string \<Rightarrow> worktree_error + string"
where
  "derive_worktree_id H common_dir root branch base task revision attempt dispatch =
    and_then (binding_parts common_dir root branch base task revision attempt dispatch) (\<lambda>parts.
      Inr (''WT-'' @ H (binding_bytes parts)))"

definition request_parts :: "WorktreeLifecycleRequest \<Rightarrow> worktree_error + string list" where
  "request_parts q = binding_parts (wq_repository_common_dir q) (wq_repository_root q) (wq_branch q) (wq_base_commit q)
     (wq_task_id q) (wq_revision q) (wq_attempt q) (wq_dispatch_id q)"

definition derive_reservation_id ::
  "(string \<Rightarrow> string) \<Rightarrow> string \<Rightarrow> WorktreeLifecycleRequest \<Rightarrow> worktree_error + string"
where
  "derive_reservation_id H worktree_id q = guarded (wt_safe_id (SStr worktree_id) ''derive_worktree_id'' ''WT-'')
     (and_then (request_parts q) (\<lambda>parts. Inr (''WTR-'' @ H (worktree_id @ CHR 0x00 # binding_bytes parts))))"

definition expected_branch :: "string \<Rightarrow> int \<Rightarrow> int \<Rightarrow> string \<Rightarrow> worktree_error + string" where
  "expected_branch task revision attempt dispatch = guarded
    (wt_task (SStr task) ''expected_branch_task'' @ wt_positive (SInt revision) ''expected_branch_revision'' None @
     wt_positive (SInt attempt) ''expected_branch_attempt'' (Some 3) @
     wt_safe_id (SStr dispatch) ''expected_branch_dispatch'' ''DSP-'')
    (Inr (''agentdesk/'' @ task @ ''/r'' @ show_int revision @ ''/a'' @ show_int attempt @ ''/'' @ dispatch))"

definition expected_worktree_path :: "string \<Rightarrow> string \<Rightarrow> worktree_error + string" where
  "expected_worktree_path root worktree_id = guarded
    (wt_path (SStr root) ''expected_path_root'' @ wt_safe_id (SStr worktree_id) ''expected_path_id'' ''WT-'')
    (let parts = path_parts root
     in Inr (posix_path (butlast parts @ [last parts @ ''-agentdesk-worktrees'', worktree_id])))"

definition validate_request_identity :: "(string \<Rightarrow> string) \<Rightarrow> WorktreeLifecycleRequest \<Rightarrow> worktree_error + unit" where
  "validate_request_identity H q =
    and_then (expected_branch (wq_task_id q) (wq_revision q) (wq_attempt q) (wq_dispatch_id q)) (\<lambda>branch. guarded
      [(wq_branch q \<noteq> branch, WorktreeLifecycleConflictError ''branch_identity'')]
      (and_then (derive_worktree_id H (wq_repository_common_dir q) (wq_repository_root q) (wq_branch q) (wq_base_commit q)
          (wq_task_id q) (wq_revision q) (wq_attempt q) (wq_dispatch_id q)) (\<lambda>worktree_id. guarded
        [(wq_expected_worktree_id q \<noteq> worktree_id, WorktreeLifecycleConflictError ''worktree_identity'')]
        (and_then (expected_worktree_path (wq_repository_root q) worktree_id) (\<lambda>path. guarded
          [(wq_worktree_path q \<noteq> path, WorktreeLifecycleConflictError ''worktree_path_identity'')]
          (Inr ()))))))"

definition make_reservation :: "(string \<Rightarrow> string) \<Rightarrow> WorktreeLifecycleRequest \<Rightarrow> worktree_error + WorktreeReservation" where
  "make_reservation H q = and_then (validate_request_identity H q) (\<lambda>_.
     and_then (derive_reservation_id H (wq_expected_worktree_id q) q) (\<lambda>reservation_id.
     with_reservation_digest H
       \<lparr>wr_schema_version = WORKTREE_SCHEMA, wr_reservation_id = reservation_id,
        wr_worktree_id = wq_expected_worktree_id q, wr_repository_common_dir = wq_repository_common_dir q,
        wr_repository_root = wq_repository_root q, wr_worktree_path = wq_worktree_path q, wr_branch = wq_branch q,
        wr_base_commit = wq_base_commit q, wr_task_id = wq_task_id q, wr_revision = wq_revision q,
        wr_attempt = wq_attempt q, wr_dispatch_id = wq_dispatch_id q, wr_phase = RESERVED,
        wr_reserved_at = wq_requested_at q, wr_content_digest = NO_DIGEST\<rparr>))"

definition make_record ::
  "(string \<Rightarrow> string) \<Rightarrow> WorktreeReservation \<Rightarrow> WorktreePhase \<Rightarrow> string \<Rightarrow> string option \<Rightarrow> string option \<Rightarrow>
   string option \<Rightarrow> string option \<Rightarrow> worktree_error + WorktreeRecord"
where
  "make_record H r phase inventory head created release_requested released = with_record_digest H
     \<lparr>wc_schema_version = WORKTREE_SCHEMA, wc_worktree_id = wr_worktree_id r, wc_reservation_id = wr_reservation_id r,
      wc_repository_common_dir = wr_repository_common_dir r, wc_repository_root = wr_repository_root r,
      wc_worktree_path = wr_worktree_path r, wc_branch = wr_branch r, wc_base_commit = wr_base_commit r,
      wc_head_commit = (case head of None \<Rightarrow> wr_base_commit r | Some h \<Rightarrow> h), wc_task_id = wr_task_id r,
      wc_revision = wr_revision r, wc_attempt = wr_attempt r, wc_dispatch_id = wr_dispatch_id r, wc_phase = phase,
      wc_created_at = created, wc_release_requested_at = release_requested, wc_released_at = released,
      wc_inventory_digest = inventory, wc_content_digest = NO_DIGEST\<rparr>"

section \<open>The inventory\<close>

record WorktreeInventoryEntry =
  wi_repository_common_dir :: string
  wi_worktree_path :: string
  wi_head_commit :: string
  wi_branch :: "string option"
  wi_is_bare :: bool
  wi_is_detached :: bool
  wi_is_locked :: bool
  wi_is_prunable :: bool

definition entry_guards :: "WorktreeInventoryEntry \<Rightarrow> worktree_guard list" where
  "entry_guards e =
    wt_path (SStr (wi_repository_common_dir e)) ''inventory_common_dir'' @
    wt_path (SStr (wi_worktree_path e)) ''inventory_worktree_path'' @
    wt_sha40 (SStr (wi_head_commit e)) ''inventory_head'' @
    (case wi_branch e of None \<Rightarrow> [] | Some b \<Rightarrow> wt_text (SStr b) ''inventory_branch'') @
    [(wi_is_bare e \<and> (wi_branch e \<noteq> None \<or> wi_is_detached e), WorktreeLifecycleSchemaError ''inventory_bare_state''),
     (\<not> wi_is_bare e \<and> (wi_is_detached e \<longleftrightarrow> wi_branch e \<noteq> None), WorktreeLifecycleSchemaError ''inventory_branch_state'')]"

definition new_entry :: "WorktreeInventoryEntry \<Rightarrow> worktree_error + WorktreeInventoryEntry" where
  "new_entry e = guarded (entry_guards e) (Inr e)"

text \<open>The records of the listing: runs of tokens between empty ones.\<close>

fun group_tokens :: "string list \<Rightarrow> string list \<Rightarrow> worktree_error + string list list" where
  "group_tokens current [] = Inr (if current = [] then [] else [current])"
| "group_tokens current (t # ts) =
     (if t \<noteq> [] then group_tokens (current @ [t]) ts
      else guarded [(current = [], WorktreeLifecycleSchemaError ''inventory_empty_record'')]
        (and_then (group_tokens [] ts) (\<lambda>gs. Inr (current # gs))))"

record inventory_fields =
  if_path :: "string option"
  if_head :: "string option"
  if_branch :: "string option"
  if_flags :: "string list"
  if_seen :: "string list"

text \<open>One token; \<open>str.partition\<close> at the first blank gives key, separator and value.\<close>

definition inventory_token :: "inventory_fields \<Rightarrow> string \<Rightarrow> worktree_error + inventory_fields" where
  "inventory_token f token =
    (let key = takeWhile (\<lambda>c. c \<noteq> CHR '' '') token; separator = (CHR '' '' \<in> set token);
         val = drop (Suc (length key)) token; f' = f\<lparr>if_seen := key # if_seen f\<rparr>
     in guarded [(key \<in> set (if_seen f), WorktreeLifecycleSchemaError ''inventory_duplicate_field'')]
       (if key = ''worktree'' \<and> separator then Inr (f'\<lparr>if_path := Some val\<rparr>)
        else if key = ''HEAD'' \<and> separator then Inr (f'\<lparr>if_head := Some val\<rparr>)
        else if key = ''branch'' \<and> separator \<and> starts_with ''refs/heads/'' val
          then Inr (f'\<lparr>if_branch := Some (drop (length ''refs/heads/'') val)\<rparr>)
        else if key \<in> {''bare'', ''detached''} \<and> \<not> separator then Inr (f'\<lparr>if_flags := key # if_flags f\<rparr>)
        else if key \<in> {''locked'', ''prunable''} then Inr (f'\<lparr>if_flags := key # if_flags f\<rparr>)
        else Inl (WorktreeLifecycleSchemaError ''inventory_unknown_field'')))"

fun inventory_tokens :: "inventory_fields \<Rightarrow> string list \<Rightarrow> worktree_error + inventory_fields" where
  "inventory_tokens f [] = Inr f"
| "inventory_tokens f (t # ts) = and_then (inventory_token f t) (\<lambda>f. inventory_tokens f ts)"

fun inventory_entries :: "string \<Rightarrow> string list \<Rightarrow> string list list \<Rightarrow> worktree_error + WorktreeInventoryEntry list" where
  "inventory_entries common_dir seen [] = Inr []"
| "inventory_entries common_dir seen (g # gs) =
     and_then (inventory_tokens \<lparr>if_path = None, if_head = None, if_branch = None, if_flags = [], if_seen = []\<rparr> g) (\<lambda>f.
     case (if_path f, if_head f) of
       (Some path, Some head) \<Rightarrow>
         (let canonical = normpath path in guarded
            (wt_path (SStr canonical) ''inventory_path'' @
             [(canonical \<in> set seen, WorktreeLifecycleConflictError ''inventory_duplicate_path'')])
            (and_then (new_entry \<lparr>wi_repository_common_dir = common_dir, wi_worktree_path = canonical,
                wi_head_commit = head, wi_branch = if_branch f, wi_is_bare = ''bare'' \<in> set (if_flags f),
                wi_is_detached = ''detached'' \<in> set (if_flags f), wi_is_locked = ''locked'' \<in> set (if_flags f),
                wi_is_prunable = ''prunable'' \<in> set (if_flags f)\<rparr>) (\<lambda>e.
             and_then (inventory_entries common_dir (canonical # seen) gs) (\<lambda>es. Inr (e # es)))))
     | _ \<Rightarrow> Inl (WorktreeLifecycleSchemaError ''inventory_missing_field''))"

definition entry_key :: "WorktreeInventoryEntry \<Rightarrow> string \<times> string \<times> string" where
  "entry_key e = (wi_worktree_path e, (case wi_branch e of None \<Rightarrow> [] | Some b \<Rightarrow> b), wi_head_commit e)"

definition parse_worktree_inventory :: "string \<Rightarrow> string \<Rightarrow> worktree_error + WorktreeInventoryEntry list" where
  "parse_worktree_inventory data common_dir = guarded
    ([(data = [] \<or> last data \<noteq> CHR 0x00, WorktreeLifecycleSchemaError ''inventory_bytes'')] @
     wt_path (SStr common_dir) ''inventory_common_dir'')
    (and_then (group_tokens [] (butlast (split_on (CHR 0x00) data))) (\<lambda>groups.
     and_then (inventory_entries common_dir [] groups) (\<lambda>es. Inr (sort_key entry_key es))))"

definition flag_text :: "bool \<Rightarrow> string" where
  "flag_text b = (if b then ''1'' else ''0'')"

definition entry_values :: "WorktreeInventoryEntry \<Rightarrow> string list" where
  "entry_values e = [wi_repository_common_dir e, wi_worktree_path e, wi_head_commit e,
     (case wi_branch e of None \<Rightarrow> [] | Some b \<Rightarrow> b), flag_text (wi_is_bare e), flag_text (wi_is_detached e),
     flag_text (wi_is_locked e), flag_text (wi_is_prunable e)]"

definition inventory_digest :: "(string \<Rightarrow> string) \<Rightarrow> WorktreeInventoryEntry list \<Rightarrow> string" where
  "inventory_digest H es = ''sha256:'' @ H (concat (map (\<lambda>e. binding_bytes (entry_values e)) (sort_key entry_key es)))"

section \<open>Reconciliation\<close>

definition decision ::
  "(string \<Rightarrow> string) \<Rightarrow> string \<Rightarrow> WorktreeReconciliationAction \<Rightarrow> string \<Rightarrow> WorktreePhase \<Rightarrow>
   WorktreeInventoryEntry option \<Rightarrow> bool option \<Rightarrow> worktree_error + WorktreeReconciliationDecision"
where
  "decision H worktree_id action reason phase entry clean = with_decision_digest H
     \<lparr>wd_schema_version = WORKTREE_SCHEMA, wd_worktree_id = worktree_id, wd_action = action, wd_reason = reason,
      wd_expected_phase = phase, wd_observed_present = (entry \<noteq> None),
      wd_observed_head = map_option wi_head_commit entry, wd_observed_branch = Option.bind entry wi_branch,
      wd_observed_clean = clean, wd_content_digest = NO_DIGEST\<rparr>"

definition record_divergent :: "WorktreeReservation \<Rightarrow> WorktreeRecord option \<Rightarrow> bool" where
  "record_divergent r record = (case record of None \<Rightarrow> False | Some w \<Rightarrow>
     wc_worktree_id w \<noteq> wr_worktree_id r \<or> wc_reservation_id w \<noteq> wr_reservation_id r
     \<or> wc_worktree_path w \<noteq> wr_worktree_path r \<or> wc_branch w \<noteq> wr_branch r \<or> wc_base_commit w \<noteq> wr_base_commit r)"

definition exact_entry :: "WorktreeReservation \<Rightarrow> WorktreeRecord option \<Rightarrow> WorktreeInventoryEntry \<Rightarrow> bool" where
  "exact_entry r record e \<longleftrightarrow> wi_branch e = Some (wr_branch r)
     \<and> wi_head_commit e = (case record of None \<Rightarrow> wr_base_commit r | Some w \<Rightarrow> wc_head_commit w)
     \<and> \<not> wi_is_bare e \<and> \<not> wi_is_detached e \<and> \<not> wi_is_prunable e"

definition reconcile_worktree ::
  "(string \<Rightarrow> string) \<Rightarrow> string \<Rightarrow> WorktreeReservation option \<Rightarrow> WorktreeRecord option \<Rightarrow>
   WorktreeInventoryEntry list \<Rightarrow> bool option \<Rightarrow> worktree_error + WorktreeReconciliationDecision"
where
  "reconcile_worktree H worktree_id reservation record inventory clean = guarded
     (wt_safe_id (SStr worktree_id) ''reconcile_worktree_id'' ''WT-'')
     (case reservation of
        None \<Rightarrow> decision H worktree_id NO_OP ''reservation_missing'' RESERVED None clean
      | Some r \<Rightarrow>
         (let matching = filter (\<lambda>e. wi_worktree_path e = wr_worktree_path r) inventory;
              entry = (case matching of [] \<Rightarrow> None | e # _ \<Rightarrow> Some e);
              phase = (case record of None \<Rightarrow> RESERVED | Some w \<Rightarrow> wc_phase w);
              exact = (case entry of None \<Rightarrow> False | Some e \<Rightarrow> exact_entry r record e);
              locked = (case entry of None \<Rightarrow> False | Some e \<Rightarrow> wi_is_locked e)
          in guarded
            [(length matching > 1, WorktreeLifecycleConflictError ''reconcile_duplicate''),
             (wr_worktree_id r \<noteq> worktree_id, WorktreeLifecycleConflictError ''reconcile_reservation_identity'')]
            (if record_divergent r record
             then decision H worktree_id FAIL_CLOSED ''identity_divergent'' phase entry clean
             else if phase \<in> {RESERVED, CREATING} then
               (if entry = None then decision H worktree_id RESUME_CREATE ''resume_create'' phase None clean
                else if exact then decision H worktree_id ADOPT_READY ''adopt_ready'' phase entry clean
                else decision H worktree_id FAIL_CLOSED ''identity_divergent'' phase entry clean)
             else if phase = READY then
               (if exact \<and> clean = Some True then decision H worktree_id NO_OP ''ready_exact'' phase entry (Some True)
                else decision H worktree_id FAIL_CLOSED
                  (if entry = None then ''inventory_missing'' else ''dirty_or_unknown'') phase entry clean)
             else if phase = RELEASING then
               (if entry = None then decision H worktree_id NO_OP ''released_exact'' phase None clean
                else if exact \<and> clean = Some True \<and> \<not> locked
                then decision H worktree_id RESUME_RELEASE ''resume_release'' phase entry (Some True)
                else decision H worktree_id FAIL_CLOSED ''dirty_or_unknown'' phase entry clean)
             else if phase = RELEASED \<and> entry = None
             then decision H worktree_id NO_OP ''released_exact'' phase None clean
             else decision H worktree_id FAIL_CLOSED ''phase_unsupported'' phase entry clean)))"


section \<open>Digests of evidence\<close>

lemma butlast_values:
  "butlast (reservation_values (r\<lparr>wr_content_digest := x\<rparr>)) = butlast (reservation_values r)"
  "butlast (record_values (w\<lparr>wc_content_digest := x\<rparr>)) = butlast (record_values w)"
  "butlast (decision_values (d\<lparr>wd_content_digest := x\<rparr>)) = butlast (decision_values d)"
  by (simp_all add: reservation_values_def record_values_def decision_values_def)

lemma flat_digest_ignores:
  "flat_digest H RESERVATION_FIELDS (reservation_values (r\<lparr>wr_content_digest := x\<rparr>)) =
   flat_digest H RESERVATION_FIELDS (reservation_values r)"
  "flat_digest H RECORD_FIELDS (record_values (w\<lparr>wc_content_digest := x\<rparr>)) = flat_digest H RECORD_FIELDS (record_values w)"
  "flat_digest H DECISION_FIELDS (decision_values (d\<lparr>wd_content_digest := x\<rparr>)) = flat_digest H DECISION_FIELDS (decision_values d)"
  by (simp_all only: flat_digest_def butlast_values)

text \<open>Evidence encodes exactly with its own digest set.\<close>

lemma encode_iff:
  "encode_reservation H r = Inr b \<longleftrightarrow> wr_content_digest r = flat_digest H RESERVATION_FIELDS (reservation_values r)
     \<and> b = flat_text RESERVATION_FIELDS (reservation_values r)"
  "encode_record H w = Inr b \<longleftrightarrow> wc_content_digest w = flat_digest H RECORD_FIELDS (record_values w)
     \<and> b = flat_text RECORD_FIELDS (record_values w)"
  "encode_decision H d = Inr b \<longleftrightarrow> wd_content_digest d = flat_digest H DECISION_FIELDS (decision_values d)
     \<and> b = flat_text DECISION_FIELDS (decision_values d)"
proof -
  have "last (reservation_values r) = SStr (wr_content_digest r)" "last (record_values w) = SStr (wc_content_digest w)"
    "last (decision_values d) = SStr (wd_content_digest d)"
    by (simp_all add: reservation_values_def record_values_def decision_values_def)
  then show
    "encode_reservation H r = Inr b \<longleftrightarrow> wr_content_digest r = flat_digest H RESERVATION_FIELDS (reservation_values r)
       \<and> b = flat_text RESERVATION_FIELDS (reservation_values r)"
    "encode_record H w = Inr b \<longleftrightarrow> wc_content_digest w = flat_digest H RECORD_FIELDS (record_values w)
       \<and> b = flat_text RECORD_FIELDS (record_values w)"
    "encode_decision H d = Inr b \<longleftrightarrow> wd_content_digest d = flat_digest H DECISION_FIELDS (decision_values d)
       \<and> b = flat_text DECISION_FIELDS (decision_values d)"
    by (auto simp: encode_reservation_def encode_record_def encode_decision_def flat_encode_def res_simps)
qed

lemma with_reservation_digest_Inr:
  assumes "with_reservation_digest H r = Inr s"
  shows "s = r\<lparr>wr_content_digest := flat_digest H RESERVATION_FIELDS (reservation_values r)\<rparr> \<and> reservation_valid s
    \<and> encode_reservation H s = Inr (flat_text RESERVATION_FIELDS (reservation_values s))"
  using assms by (auto simp: with_reservation_digest_def new_reservation_def reservation_valid_def flat_digest_ignores encode_iff res_simps)

lemma with_record_digest_Inr:
  assumes "with_record_digest H w = Inr s"
  shows "s = w\<lparr>wc_content_digest := flat_digest H RECORD_FIELDS (record_values w)\<rparr> \<and> record_valid s
    \<and> encode_record H s = Inr (flat_text RECORD_FIELDS (record_values s))"
  using assms by (auto simp: with_record_digest_def new_record_def record_valid_def flat_digest_ignores encode_iff res_simps)

lemma with_decision_digest_Inr:
  assumes "with_decision_digest H d = Inr s"
  shows "s = d\<lparr>wd_content_digest := flat_digest H DECISION_FIELDS (decision_values d)\<rparr> \<and> decision_valid s
    \<and> encode_decision H s = Inr (flat_text DECISION_FIELDS (decision_values s))"
  using assms by (auto simp: with_decision_digest_def new_decision_def decision_valid_def flat_digest_ignores encode_iff res_simps)

lemma digest_format: "hexdigest H \<Longrightarrow> raise_first (wt_digest (SStr (flat_digest H names vs)) code) = None"
  by (simp add: wt_digest_def formatted_def flat_digest_def SHA256_RE_def hexdigest_def)

lemma no_digest_format: "raise_first (wt_digest (SStr NO_DIGEST) code) = None"
  by (simp add: wt_digest_def formatted_def NO_DIGEST_def SHA256_RE_def list_all_iff is_hex_def)

section \<open>What reconciliation decides\<close>

definition record_phase :: "WorktreeRecord option \<Rightarrow> WorktreePhase" where
  "record_phase record = (case record of None \<Rightarrow> RESERVED | Some w \<Rightarrow> wc_phase w)"

lemma decision_fields:
  assumes "decision H i a reason p entry clean = Inr d"
  shows "wd_action d = a" "wd_worktree_id d = i" "wd_reason d = reason" "wd_expected_phase d = p"
    "wd_observed_present d \<longleftrightarrow> entry \<noteq> None" "wd_observed_clean d = clean" "decision_valid d"
    "encode_decision H d = Inr (flat_text DECISION_FIELDS (decision_values d))"
proof -
  note d = with_decision_digest_Inr [OF assms [unfolded decision_def]]
  show "decision_valid d" "encode_decision H d = Inr (flat_text DECISION_FIELDS (decision_values d))" using d by blast+
qed (use with_decision_digest_Inr [OF assms [unfolded decision_def]] in simp_all)

text \<open>The entry at the reservation's path is the only one there.\<close>

lemma matching_entry:
  assumes "\<not> length (filter P xs) > 1" and "filter P xs = e # es"
  shows "es = []" and "x \<in> set xs \<Longrightarrow> P x \<Longrightarrow> x = e"
proof -
  show "es = []" using assms by (cases es) auto
  then have "set (filter P xs) = {e}" using assms(2) by simp
  then show "x \<in> set xs \<Longrightarrow> P x \<Longrightarrow> x = e" by auto
qed

text \<open>
  C7. What reconciliation resumes, it resumes on evidence.  Creation is resumed exactly when a
  bound reservation has not got past \<open>CREATING\<close> and no worktree is at its path; an existing worktree
  is adopted exactly when it is the reserved one; a worktree is removed only when its release was
  begun, it is the recorded one, is reported clean and is not locked.  Nothing is ever rejected.
\<close>

theorem reconcile_acts_on_evidence:
  assumes "reconcile_worktree H i (Some r) record inventory clean = Inr d"
  shows "(wd_action d = RESUME_CREATE \<longleftrightarrow> \<not> record_divergent r record \<and> record_phase record \<in> {RESERVED, CREATING}
       \<and> (\<forall>e \<in> set inventory. wi_worktree_path e \<noteq> wr_worktree_path r))
    \<and> (wd_action d = ADOPT_READY \<longleftrightarrow> \<not> record_divergent r record \<and> record_phase record \<in> {RESERVED, CREATING}
       \<and> (\<exists>e \<in> set inventory. wi_worktree_path e = wr_worktree_path r \<and> exact_entry r record e))
    \<and> (wd_action d = RESUME_RELEASE \<longleftrightarrow> \<not> record_divergent r record \<and> record_phase record = RELEASING \<and> clean = Some True
       \<and> (\<exists>e \<in> set inventory. wi_worktree_path e = wr_worktree_path r \<and> exact_entry r record e \<and> \<not> wi_is_locked e))
    \<and> wd_action d \<noteq> REJECT"
proof -
  let ?P = "\<lambda>e. wi_worktree_path e = wr_worktree_path r"
  have "\<not> length (filter ?P inventory) > 1"
    using assms by (auto simp: reconcile_worktree_def res_simps Let_def)
  note one = matching_entry [OF this]
  note d = assms [unfolded reconcile_worktree_def option.case Let_def guarded_Inr_iff record_phase_def [symmetric]]
  show ?thesis
  proof (cases "filter ?P inventory")
    case Nil
    then have none: "\<forall>e \<in> set inventory. \<not> ?P e" by (simp add: filter_empty_conv)
    show ?thesis using d none
      by (cases "record_divergent r record"; cases "record_phase record") (auto simp: Nil dest!: decision_fields(1))
  next
    case (Cons e es)
    then have "e \<in> set (filter ?P inventory)" by simp
    then have e: "e \<in> set inventory" "?P e" by simp_all
    with one(2) [OF Cons] have ex: "(\<exists>x \<in> set inventory. ?P x \<and> Q x) \<longleftrightarrow> Q e" for Q by blast
    have all: "\<not> (\<forall>x \<in> set inventory. \<not> ?P x)" using e by blast
    show ?thesis unfolding ex using d all
      by (cases "record_phase record") (auto simp: Cons split: if_splits dest!: decision_fields(1))
  qed
qed

text \<open>Whether a value passes does not depend on the code that would name its error.\<close>

lemma any_code:
  "raise_first (wt_text v c) = None \<Longrightarrow> raise_first (wt_text v c') = None"
  "raise_first (wt_safe_id v c p) = None \<Longrightarrow> raise_first (wt_safe_id v c' p) = None"
  "raise_first (wt_path v c) = None \<Longrightarrow> raise_first (wt_path v c') = None"
  "raise_first (wt_sha40 v c) = None \<Longrightarrow> raise_first (wt_sha40 v c') = None"
  "raise_first (wt_digest v c) = None \<Longrightarrow> raise_first (wt_digest v c') = None"
  "raise_first (wt_task v c) = None \<Longrightarrow> raise_first (wt_task v c') = None"
  "raise_first (wt_positive v c m) = None \<Longrightarrow> raise_first (wt_positive v c' m) = None"
  "raise_first (wt_timestamp v c b) = None \<Longrightarrow> raise_first (wt_timestamp v c' b) = None"
  by (simp_all add: wt_safe_id_def wt_path_def wt_text_def wt_sha40_def wt_digest_def wt_task_def wt_positive_def
      wt_timestamp_def formatted_def Let_def split: scalar.split_asm if_splits)

definition inventory_entry_ok :: "WorktreeInventoryEntry \<Rightarrow> bool" where
  "inventory_entry_ok e \<longleftrightarrow> raise_first (entry_guards e) = None"

definition worktree_id_ok :: "string \<Rightarrow> bool" where
  "worktree_id_ok i \<longleftrightarrow> raise_first (wt_safe_id (SStr i) ''worktree_id'' ''WT-'') = None"

lemma decision_total:
  assumes "hexdigest H" and "worktree_id_ok i" and "reason \<in> set RECONCILIATION_REASONS"
    and "case entry of None \<Rightarrow> True | Some e \<Rightarrow> inventory_entry_ok e"
  shows "\<exists>d. decision H i a reason p entry clean = Inr d"
proof -
  define d where "d = \<lparr>wd_schema_version = WORKTREE_SCHEMA, wd_worktree_id = i, wd_action = a, wd_reason = reason,
      wd_expected_phase = p, wd_observed_present = (entry \<noteq> None),
      wd_observed_head = map_option wi_head_commit entry, wd_observed_branch = Option.bind entry wi_branch,
      wd_observed_clean = clean, wd_content_digest = NO_DIGEST\<rparr>"
  have head: "opt_scalar (map_option wi_head_commit entry) \<noteq> SNull \<Longrightarrow>
      raise_first (wt_sha40 (opt_scalar (map_option wi_head_commit entry)) ''observed_head'') = None"
    using assms(4) any_code(4) by (auto simp: inventory_entry_ok_def entry_guards_def opt_scalar_def split: option.splits)
  have branch: "opt_scalar (Option.bind entry wi_branch) \<noteq> SNull \<Longrightarrow>
      raise_first (wt_text (opt_scalar (Option.bind entry wi_branch)) ''observed_branch'') = None"
    using assms(4) any_code(1) by (auto simp: inventory_entry_ok_def entry_guards_def opt_scalar_def split: option.splits)
  have safe: "raise_first (wt_safe_id (SStr i) ''decision_worktree_id'' ''WT-'') = None"
    using assms(2) any_code(2) by (simp add: worktree_id_ok_def)
  have valid: "raise_first (decision_guards (decision_values (d\<lparr>wd_content_digest := x\<rparr>))) = None"
    if "raise_first (wt_digest (SStr x) ''decision_digest'') = None" for x
    using assms(3) head branch safe that
    by (simp add: d_def decision_guards_def decision_values_def wt_schema_def opt_bool_scalar_def split: option.split)
  have same: "d\<lparr>wd_content_digest := NO_DIGEST\<rparr> = d" by (simp add: d_def)
  with valid [OF no_digest_format] have "new_decision d = Inr d" by (simp add: new_decision_def)
  with valid [OF digest_format [OF assms(1)]] show ?thesis
    unfolding decision_def d_def [symmetric] with_decision_digest_def same by (simp add: new_decision_def)
qed

lemma reconcile_total:
  assumes "hexdigest H" and "worktree_id_ok i" and "list_all inventory_entry_ok inventory"
    and "distinct (map wi_worktree_path inventory)"
    and "\<And>r. reservation = Some r \<Longrightarrow> wr_worktree_id r = i"
  shows "\<exists>d. reconcile_worktree H i reservation record inventory clean = Inr d"
proof -
  have safe: "raise_first (wt_safe_id (SStr i) ''reconcile_worktree_id'' ''WT-'') = None"
    using assms(2) any_code(2) by (simp add: worktree_id_ok_def)
  have few: "length (filter (\<lambda>e. wi_worktree_path e = p) inventory) \<le> 1" for p
    using assms(4)
  proof (induction inventory)
    case (Cons e es)
    then have "wi_worktree_path e = p \<Longrightarrow> filter (\<lambda>e. wi_worktree_path e = p) es = []"
      by (metis (mono_tags, lifting) distinct.simps(2) filter_empty_conv imageI list.set_map list.simps(9))
    with Cons show ?case by auto
  qed simp
  note total = decision_total [OF assms(1,2)]
  have reasons: "list_all (\<lambda>r. r \<in> set RECONCILIATION_REASONS) [''reservation_missing'', ''resume_create'', ''adopt_ready'',
      ''ready_exact'', ''resume_release'', ''released_exact'', ''identity_divergent'', ''inventory_missing'',
      ''dirty_or_unknown'', ''phase_unsupported'']" by (simp add: RECONCILIATION_REASONS_def)
  show ?thesis
  proof (cases reservation)
    case None
    with safe total reasons show ?thesis by (simp add: reconcile_worktree_def)
  next
    case (Some r)
    let ?matching = "filter (\<lambda>e. wi_worktree_path e = wr_worktree_path r) inventory"
    define entry where "entry = (case ?matching of [] \<Rightarrow> None | e # _ \<Rightarrow> Some e)"
    have "case entry of None \<Rightarrow> True | Some e \<Rightarrow> inventory_entry_ok e"
    proof (cases ?matching)
      case (Cons e es)
      then have "e \<in> set ?matching" by simp
      then have "e \<in> set inventory" by simp
      with assms(3) Cons show ?thesis by (simp add: entry_def list_all_iff)
    qed (simp add: entry_def)
    with total have "reason \<in> set RECONCILIATION_REASONS \<Longrightarrow> \<exists>d. decision H i a reason p entry clean' = Inr d"
      "reason \<in> set RECONCILIATION_REASONS \<Longrightarrow> \<exists>d. decision H i a reason p None clean' = Inr d" for reason a p clean'
      by simp_all
    with reasons few [of "wr_worktree_path r"] assms(5) [OF Some] safe show ?thesis
      unfolding Some reconcile_worktree_def option.case Let_def entry_def [symmetric] by simp
  qed
qed

text \<open>
  Reconciliation always decides.  For evidence that could be stored and an inventory that could
  be read, whatever they say, there is a decision; and that decision is itself evidence that can be
  written and read back.
\<close>

theorem reconcile_decides:
  assumes "hexdigest H" and "worktree_id_ok i" and "list_all inventory_entry_ok inventory"
    and "distinct (map wi_worktree_path inventory)"
    and "\<And>r. reservation = Some r \<Longrightarrow> wr_worktree_id r = i"
  shows "\<exists>d b. reconcile_worktree H i reservation record inventory clean = Inr d
    \<and> encode_decision H d = Inr b \<and> decode_decision H b = Inr d"
proof -
  obtain d where d: "reconcile_worktree H i reservation record inventory clean = Inr d"
    using reconcile_total [OF assms] by blast
  have "decision_valid d \<and> encode_decision H d = Inr (flat_text DECISION_FIELDS (decision_values d))"
    using d by (auto simp: reconcile_worktree_def guarded_Inr_iff Let_def dest: decision_fields(7,8)
        split: option.split_asm if_split_asm)
  then show ?thesis using d worktree_evidence_read(3) by blast
qed

section \<open>Inventories\<close>

lemma new_entry_Inr: "new_entry e = Inr e' \<longleftrightarrow> e' = e \<and> inventory_entry_ok e"
  by (auto simp: new_entry_def inventory_entry_ok_def res_simps)

lemma inventory_entries_sound:
  assumes "inventory_entries common_dir seen gs = Inr es"
  shows "list_all inventory_entry_ok es \<and> distinct (map wi_worktree_path es) \<and> set (map wi_worktree_path es) \<inter> set seen = {}
    \<and> list_all (\<lambda>e. wi_repository_common_dir e = common_dir) es"
  using assms
proof (induction gs arbitrary: seen es)
  case (Cons g gs)
  then obtain f path head where f: "inventory_tokens \<lparr>if_path = None, if_head = None, if_branch = None, if_flags = [], if_seen = []\<rparr> g = Inr f"
    "if_path f = Some path" "if_head f = Some head" by (auto simp: res_simps split: option.split_asm)
  let ?e = "\<lparr>wi_repository_common_dir = common_dir, wi_worktree_path = normpath path, wi_head_commit = head,
      wi_branch = if_branch f, wi_is_bare = ''bare'' \<in> set (if_flags f), wi_is_detached = ''detached'' \<in> set (if_flags f),
      wi_is_locked = ''locked'' \<in> set (if_flags f), wi_is_prunable = ''prunable'' \<in> set (if_flags f)\<rparr>"
  from Cons.prems f obtain es' where e: "normpath path \<notin> set seen" "inventory_entry_ok ?e"
    "inventory_entries common_dir (normpath path # seen) gs = Inr es'" "es = ?e # es'"
    by (auto simp: res_simps Let_def new_entry_Inr)
  from Cons.IH [OF e(3)] have "list_all inventory_entry_ok es' \<and> distinct (map wi_worktree_path es')
    \<and> set (map wi_worktree_path es') \<inter> set (normpath path # seen) = {}
    \<and> list_all (\<lambda>e. wi_repository_common_dir e = common_dir) es'" by blast
  with e show ?case by auto
qed simp

text \<open>
  What the inventory parser returns is well formed: every entry passes the entry's constructor
  and belongs to the repository asked about, no path occurs twice, and the entries are in the
  order of their keys.
\<close>

theorem inventory_well_formed:
  assumes "parse_worktree_inventory data common_dir = Inr es"
  shows "list_all inventory_entry_ok es \<and> distinct (map wi_worktree_path es) \<and> sorted (map entry_key es)
    \<and> list_all (\<lambda>e. wi_repository_common_dir e = common_dir) es"
proof -
  from assms obtain gs us where "inventory_entries common_dir [] gs = Inr us" "es = sort_key entry_key us"
    by (auto simp: parse_worktree_inventory_def res_simps)
  with inventory_entries_sound [OF this(1)] show ?thesis
    by (simp add: list_all_iff distinct_map)
qed

lemma binding_bytes_terminated: "parts \<noteq> [] \<Longrightarrow> binding_bytes parts = terminated (CHR 0x00) parts"
  unfolding binding_bytes_def by (induction "CHR 0x00 :: char" parts rule: join_with.induct) auto

lemma plain_no_nul: "plain s \<Longrightarrow> CHR 0x00 \<notin> set s"
  by (auto simp: plain_def list_all_iff is_control_def)

lemma chunks_inject:
  assumes "concat (map f xs) = concat (map f ys)" and "\<And>x. length (f x) = n" and "0 < n" and "\<And>x y. x \<in> set xs \<Longrightarrow> y \<in> set ys \<Longrightarrow> f x = f y \<Longrightarrow> x = y"
  shows "xs = ys"
  using assms(1,4)
proof (induction xs arbitrary: ys)
  case Nil
  have "f y \<noteq> []" for y using assms(2) [of y] assms(3) by auto
  with Nil show ?case by (cases ys) auto
next
  case (Cons x xs)
  have "f x \<noteq> []" using assms(2) [of x] assms(3) by auto
  with Cons.prems obtain y ys' where ys: "ys = y # ys'" by (cases ys) auto
  with Cons.prems(1) have "f x @ concat (map f xs) = f y @ concat (map f ys')" by simp
  then have "f x = f y \<and> concat (map f xs) = concat (map f ys')" using assms(2) by (metis append_eq_append_conv)
  with Cons.IH [of ys'] Cons.prems(2) ys show ?case by auto
qed

lemma entry_values_plain: "inventory_entry_ok e \<Longrightarrow> \<forall>v \<in> set (entry_values e). CHR 0x00 \<notin> set v"
  by (auto simp: inventory_entry_ok_def entry_guards_def entry_values_def flag_text_def plain_text_def
      dest!: wt_passed wt_text_passed plain_no_nul split: option.splits)

lemma entry_values_inject:
  assumes "inventory_entry_ok e" and "inventory_entry_ok e'" and "entry_values e = entry_values e'"
  shows "e = e'"
proof -
  have flags: "flag_text a = flag_text b \<longleftrightarrow> a = b" for a b by (simp add: flag_text_def)
  have "wi_branch e \<noteq> Some []" "wi_branch e' \<noteq> Some []"
    using assms(1,2) by (auto simp: inventory_entry_ok_def entry_guards_def wt_text_def)
  with assms(3) show ?thesis
    by (auto simp: entry_values_def flags split: option.splits intro!: WorktreeInventoryEntry.equality)
qed

lemma payload_terminated:
  "concat (map (\<lambda>e. binding_bytes (entry_values e)) es) = terminated (CHR 0x00) (concat (map entry_values es))"
proof (induction es)
  case (Cons e es)
  have "binding_bytes (entry_values e) = terminated (CHR 0x00) (entry_values e)"
    by (rule binding_bytes_terminated) (simp add: entry_values_def)
  with Cons show ?case by simp
qed simp

text \<open>
  The inventory digest stands for the inventory: it does not depend on the order of the entries,
  and two inventories with the same digest hold the same worktrees in the same state, or the hash
  has collided.
\<close>

theorem inventory_digest_exact:
  assumes "list_all inventory_entry_ok xs" and "list_all inventory_entry_ok ys"
    and "distinct (map wi_worktree_path xs)" and "distinct (map wi_worktree_path ys)"
  shows "(set xs = set ys \<longrightarrow> inventory_digest H xs = inventory_digest H ys)
    \<and> (inventory_digest H xs = inventory_digest H ys \<longrightarrow> set xs = set ys \<or> (\<exists>s t. s \<noteq> t \<and> H s = H t))"
proof -
  let ?payload = "\<lambda>es. concat (map (\<lambda>e. binding_bytes (entry_values e)) (sort_key entry_key es))"
  note payload = payload_terminated [of "sort_key entry_key es" for es]
  have "sort_key entry_key xs = sort_key entry_key ys" if same: "set xs = set ys"
  proof (rule sort_key_inj_key_eq)
    show "mset xs = mset (sort_key entry_key ys)" using same assms(3,4) by (simp add: distinct_map set_eq_iff_mset_eq_distinct)
    show "inj_on entry_key (set xs)" using assms(3) by (auto simp: distinct_map inj_on_def entry_key_def)
  qed simp
  moreover have "set xs = set ys" if "?payload xs = ?payload ys"
  proof -
    have nul: "\<forall>v \<in> set (concat (map entry_values (sort_key entry_key es))). CHR 0x00 \<notin> set v" if "list_all inventory_entry_ok es" for es
      using that entry_values_plain by (fastforce simp: list_all_iff)
    have "concat (map entry_values (sort_key entry_key xs)) = concat (map entry_values (sort_key entry_key ys))"
      using that terminated_inject nul assms(1,2) unfolding payload by metis
    then have "sort_key entry_key xs = sort_key entry_key ys"
      by (rule chunks_inject [where n = 8])
        (use assms(1,2) entry_values_inject in \<open>auto simp: entry_values_def list_all_iff\<close>)
    then show ?thesis by (metis set_sort)
  qed
  ultimately show ?thesis by (auto simp: inventory_digest_def)
qed

section \<open>One worktree per dispatch\<close>

lemma binding_parts_Inr:
  assumes "binding_parts c r b s t v a i = Inr parts"
  shows "parts = [c, r, b, s, t, show_int v, show_int a, i] \<and> 0 < v \<and> 0 < a \<and> (\<forall>p \<in> set parts. CHR 0x00 \<notin> set p)"
proof -
  from assms have parts: "parts = [c, r, b, s, t, show_int v, show_int a, i]"
    and ok: "raise_first (binding_guards c r b s t v a i) = None" by (auto simp: binding_parts_def res_simps)
  from ok have pos: "0 < v" "0 < a" by (simp_all add: binding_guards_def wt_positive_def)
  from ok have "list_all plain [c, r, b, s, t, i]"
    by (auto simp: binding_guards_def plain_text_def dest!: wt_passed wt_text_passed)
  moreover have "plain (show_int v)" "plain (show_int a)"
    using pos digits_not_control [OF show_nat_digits] by (simp_all add: show_int_def)
  ultimately have "\<forall>p \<in> set parts. plain p" by (simp add: parts)
  with pos parts plain_no_nul show ?thesis by blast
qed

lemma show_positive_inject: "0 < i \<Longrightarrow> 0 < j \<Longrightarrow> show_int i = show_int j \<longleftrightarrow> i = j"
  by (simp add: show_int_def eq_nat_nat_iff)

text \<open>The last component of a path, when it has no slash, is determined by the path.\<close>

lemma posix_path_snoc: "\<exists>x. posix_path (ps @ [w]) = x @ CHR ''/'' # w"
proof (induction ps)
  case (Cons p ps)
  obtain q qs where "ps @ [w] = q # qs" by (cases "ps @ [w]") auto
  with Cons obtain x where "CHR ''/'' # join_with CHR ''/'' (q # qs) = x @ CHR ''/'' # w" by (auto simp: posix_path_def)
  then have "posix_path (p # q # qs) = (CHR ''/'' # p @ x) @ CHR ''/'' # w" by (simp add: posix_path_def)
  with \<open>ps @ [w] = q # qs\<close> show ?case by (metis append_Cons)
qed (simp add: posix_path_def)

lemma last_component_inject:
  assumes "posix_path (ps @ [v]) = posix_path (qs @ [w])" and "CHR ''/'' \<notin> set v" and "CHR ''/'' \<notin> set w"
  shows "v = w"
proof -
  obtain x y where "x @ CHR ''/'' # v = y @ CHR ''/'' # w" using posix_path_snoc [of ps v] posix_path_snoc [of qs w] assms(1) by metis
  then have "rev v @ CHR ''/'' # rev x = rev w @ CHR ''/'' # rev y" by (metis rev_append rev.simps(2) append_assoc append_Cons append_Nil rev_rev_ident)
  from until_terminator [OF this] assms(2,3) show ?thesis by simp
qed

lemma make_reservation_Inr:
  assumes "make_reservation H q = Inr r"
  obtains parts ps where "request_parts q = Inr parts" "wr_worktree_id r = ''WT-'' @ H (binding_bytes parts)"
    "wr_worktree_path r = posix_path (ps @ [wr_worktree_id r])" "CHR ''/'' \<notin> set (wr_worktree_id r)"
    "wr_repository_common_dir r = wq_repository_common_dir q" "wr_repository_root r = wq_repository_root q"
    "wr_branch r = wq_branch q" "wr_base_commit r = wq_base_commit q" "wr_task_id r = wq_task_id q"
    "wr_revision r = wq_revision q" "wr_attempt r = wq_attempt q" "wr_dispatch_id r = wq_dispatch_id q"
    "wr_phase r = RESERVED" "reservation_valid r"
    "encode_reservation H r = Inr (flat_text RESERVATION_FIELDS (reservation_values r))"
proof -
  from assms obtain parts i where parts: "request_parts q = Inr parts" "wq_expected_worktree_id q = ''WT-'' @ H (binding_bytes parts)"
    and path: "expected_worktree_path (wq_repository_root q) (wq_expected_worktree_id q) = Inr (wq_worktree_path q)"
    and r: "with_reservation_digest H
       \<lparr>wr_schema_version = WORKTREE_SCHEMA, wr_reservation_id = i,
        wr_worktree_id = wq_expected_worktree_id q, wr_repository_common_dir = wq_repository_common_dir q,
        wr_repository_root = wq_repository_root q, wr_worktree_path = wq_worktree_path q, wr_branch = wq_branch q,
        wr_base_commit = wq_base_commit q, wr_task_id = wq_task_id q, wr_revision = wq_revision q,
        wr_attempt = wq_attempt q, wr_dispatch_id = wq_dispatch_id q, wr_phase = RESERVED,
        wr_reserved_at = wq_requested_at q, wr_content_digest = NO_DIGEST\<rparr> = Inr r"
    by (auto simp: make_reservation_def validate_request_identity_def derive_worktree_id_def derive_reservation_id_def
        request_parts_def res_simps)
  note sound = with_reservation_digest_Inr [OF r]
  note fields = sound [THEN conjunct1]
  from path have safe: "raise_first (wt_safe_id (SStr (wq_expected_worktree_id q)) ''expected_path_id'' ''WT-'') = None"
    and ps: "wq_worktree_path q = posix_path ((butlast (path_parts (wq_repository_root q))
        @ [last (path_parts (wq_repository_root q)) @ ''-agentdesk-worktrees'']) @ [wq_expected_worktree_id q])"
    by (auto simp: expected_worktree_path_def res_simps Let_def)
  from safe have slash: "CHR ''/'' \<notin> set (wq_expected_worktree_id q)"
    by (auto simp: wt_safe_id_def has_char_def list_ex_iff)
  show thesis
    by (rule that [OF parts(1), where ps = "butlast (path_parts (wq_repository_root q))
          @ [last (path_parts (wq_repository_root q)) @ ''-agentdesk-worktrees'']"])
      (use parts(2) ps slash sound [THEN conjunct2] in \<open>simp_all add: fields\<close>)
qed

text \<open>
  One worktree per dispatch.  Two reservations with the same worktree identity or at the same
  path are for the same repository, branch and commit and for the same attempt of the same
  revision of the same task in the same dispatch, or the hash has collided.
\<close>

theorem worktree_isolation:
  assumes q: "make_reservation H q = Inr r" and q': "make_reservation H q' = Inr r'"
    and "wr_worktree_id r = wr_worktree_id r' \<or> wr_worktree_path r = wr_worktree_path r'"
  shows "wr_repository_common_dir r = wr_repository_common_dir r' \<and> wr_repository_root r = wr_repository_root r'
      \<and> wr_branch r = wr_branch r' \<and> wr_base_commit r = wr_base_commit r' \<and> wr_task_id r = wr_task_id r'
      \<and> wr_revision r = wr_revision r' \<and> wr_attempt r = wr_attempt r' \<and> wr_dispatch_id r = wr_dispatch_id r'
    \<or> (\<exists>s t. s \<noteq> t \<and> H s = H t)"
proof -
  obtain parts ps where p: "request_parts q = Inr parts" "wr_worktree_id r = ''WT-'' @ H (binding_bytes parts)"
    "wr_worktree_path r = posix_path (ps @ [wr_worktree_id r])" "CHR ''/'' \<notin> set (wr_worktree_id r)"
    and f: "wr_repository_common_dir r = wq_repository_common_dir q" "wr_repository_root r = wq_repository_root q"
    "wr_branch r = wq_branch q" "wr_base_commit r = wq_base_commit q" "wr_task_id r = wq_task_id q"
    "wr_revision r = wq_revision q" "wr_attempt r = wq_attempt q" "wr_dispatch_id r = wq_dispatch_id q"
    by (rule make_reservation_Inr [OF q])
  obtain parts' ps' where p': "request_parts q' = Inr parts'" "wr_worktree_id r' = ''WT-'' @ H (binding_bytes parts')"
    "wr_worktree_path r' = posix_path (ps' @ [wr_worktree_id r'])" "CHR ''/'' \<notin> set (wr_worktree_id r')"
    and f': "wr_repository_common_dir r' = wq_repository_common_dir q'" "wr_repository_root r' = wq_repository_root q'"
    "wr_branch r' = wq_branch q'" "wr_base_commit r' = wq_base_commit q'" "wr_task_id r' = wq_task_id q'"
    "wr_revision r' = wq_revision q'" "wr_attempt r' = wq_attempt q'" "wr_dispatch_id r' = wq_dispatch_id q'"
    by (rule make_reservation_Inr [OF q'])
  have "wr_worktree_id r = wr_worktree_id r'"
    using assms(3) last_component_inject [OF _ p(4) p'(4)] p(3) p'(3) by metis
  then have hash: "H (binding_bytes parts) = H (binding_bytes parts')" by (simp add: p(2) p'(2))
  note b = binding_parts_Inr [OF p(1) [unfolded request_parts_def]]
  note b' = binding_parts_Inr [OF p'(1) [unfolded request_parts_def]]
  show ?thesis
  proof (cases "binding_bytes parts = binding_bytes parts'")
    case True
    have "parts \<noteq> []" "parts' \<noteq> []" using b b' by auto
    with True have "terminated (CHR 0x00) parts = terminated (CHR 0x00) parts'" by (simp add: binding_bytes_terminated)
    then have "parts = parts'" by (rule terminated_inject) (use b b' in blast)+
    have "[wq_repository_common_dir q, wq_repository_root q, wq_branch q, wq_base_commit q, wq_task_id q,
        show_int (wq_revision q), show_int (wq_attempt q), wq_dispatch_id q] = parts'"
      using b \<open>parts = parts'\<close> by blast
    also have "parts' = [wq_repository_common_dir q', wq_repository_root q', wq_branch q', wq_base_commit q', wq_task_id q',
        show_int (wq_revision q'), show_int (wq_attempt q'), wq_dispatch_id q']" using b' by blast
    finally have same: "wq_repository_common_dir q = wq_repository_common_dir q'" "wq_repository_root q = wq_repository_root q'"
      "wq_branch q = wq_branch q'" "wq_base_commit q = wq_base_commit q'" "wq_task_id q = wq_task_id q'"
      "show_int (wq_revision q) = show_int (wq_revision q')" "show_int (wq_attempt q) = show_int (wq_attempt q')"
      "wq_dispatch_id q = wq_dispatch_id q'" by simp_all
    with b b' have "wq_revision q = wq_revision q'" "wq_attempt q = wq_attempt q'"
      using show_positive_inject by blast+
    with same show ?thesis by (simp add: f f')
  qed (use hash in blast)
qed

section \<open>Every dispatch can have a worktree\<close>

lemma starts_with_nth: "starts_with p s \<Longrightarrow> p \<noteq> [] \<Longrightarrow> s \<noteq> [] \<and> hd s = hd p"
  by (cases p; cases s) simp_all

lemma hex_char: "is_hex c \<Longrightarrow> is_alnum c \<and> \<not> is_control c \<and> \<not> py_isspace c \<and> c \<noteq> CHR ''/'' \<and> c \<noteq> CHR 0x5C \<and> c \<noteq> CHR '':''"
  by (auto simp: is_hex_def is_alnum_def is_control_def py_isspace_def Let_def)

lemma strip_id: "s \<noteq> [] \<Longrightarrow> \<not> py_isspace (hd s) \<Longrightarrow> \<not> py_isspace (last s) \<Longrightarrow> py_strip s = s"
proof -
  assume "s \<noteq> []" "\<not> py_isspace (hd s)" "\<not> py_isspace (last s)"
  then have "dropWhile py_isspace s = s" "dropWhile py_isspace (rev s) = rev s"
    by (simp_all add: dropWhile_eq_self_iff hd_rev)
  then show ?thesis by (simp add: py_strip_def)
qed

lemma lower_letters: "py_lower CHR ''W'' = CHR ''w''"
  by code_simp

text \<open>The identities derived from a hash are well formed.\<close>

lemma derived_id_ok:
  assumes "list_all is_hex h" and "h \<noteq> []" and "prefix = ''WT-'' \<or> prefix = ''WTR-''"
  shows "raise_first (wt_safe_id (SStr (prefix @ h)) code prefix) = None"
proof -
  have hex: "\<forall>c \<in> set h. is_hex c" using assms(1) by (simp add: list_all_iff)
  have "list_all (\<lambda>c. is_alnum c \<or> c \<in> set ''._-'') h" "\<not> list_ex is_control h" "\<not> has_char [CHR ''/'', CHR 0x5C] h"
    using hex hex_char by (auto simp: list_all_iff list_ex_iff has_char_def)
  moreover have "py_strip (prefix @ h) = prefix @ h"
    by (rule strip_id) (use assms hex hex_char [of "last h"] last_in_set [OF assms(2)] in \<open>auto simp: py_isspace_def\<close>)
  moreover have "name_stem (prefix @ h) \<noteq> [] \<and> hd (name_stem (prefix @ h)) = CHR ''w''"
    using assms(3) by (auto simp: name_stem_def casefold_def lower_letters)
  then have "name_stem (prefix @ h) \<notin> set RESERVED_WINDOWS_NAMES" by (auto simp: RESERVED_WINDOWS_NAMES_code)
  ultimately show ?thesis using assms(3)
    by (auto simp: wt_safe_id_def wt_text_def SAFE_ID_RE_def is_alnum_def is_control_def has_char_def)
qed

lemma norm_parts_plain:
  "\<forall>p \<in> set ps. p \<noteq> [] \<and> p \<noteq> ''.'' \<and> p \<noteq> ''..'' \<Longrightarrow> norm_parts True ds ps = rev ds @ ps"
  by (induction ps arbitrary: ds) auto

definition proper_parts :: "string list \<Rightarrow> bool" where
  "proper_parts ps \<longleftrightarrow> ps \<noteq> [] \<and> (\<forall>p \<in> set ps. p \<noteq> [] \<and> p \<noteq> ''.'' \<and> p \<noteq> ''..'' \<and> CHR ''/'' \<notin> set p)"

lemma posix_path_split: "proper_parts ps \<Longrightarrow> split_on CHR ''/'' (posix_path ps) = [] # ps"
  by (simp add: posix_path_def proper_parts_def split_join)

lemma path_parts_posix: "proper_parts ps \<Longrightarrow> path_parts (posix_path ps) = ps"
  by (simp add: path_parts_def posix_path_split) (auto simp: proper_parts_def filter_id_conv)

lemma posix_path_hd:
  assumes "proper_parts ps"
  shows "\<not> starts_with ''//'' (posix_path ps)"
proof -
  obtain p qs where ps: "ps = p # qs" using assms by (cases ps) (auto simp: proper_parts_def)
  with assms obtain c p' where "p = c # p'" "c \<noteq> CHR ''/''" by (cases p) (auto simp: proper_parts_def)
  with ps show ?thesis by (cases qs) (simp_all add: posix_path_def)
qed

lemma normpath_posix: "proper_parts ps \<Longrightarrow> normpath (posix_path ps) = posix_path ps"
  using posix_path_hd [of ps] norm_parts_plain [of ps "[]"]
  by (simp add: normpath_def Let_def posix_path_split) (simp add: posix_path_def proper_parts_def)

lemma split_on_chars: "p \<in> set (split_on c s) \<Longrightarrow> set p \<subseteq> set s"
proof (induction s arbitrary: p)
  case (Cons x s)
  obtain q qs where "split_on c s = q # qs" using split_on_nonempty [of c s] by (cases "split_on c s") auto
  with Cons show ?case by (fastforce split: if_splits)
qed simp

lemma wt_path_posix:
  assumes "proper_parts ps" and "\<forall>p \<in> set ps. name_stem p \<notin> set RESERVED_WINDOWS_NAMES \<and> CHR '':'' \<notin> set p \<and> plain p"
    and "\<not> py_isspace (last (last ps))" and "last (last ps) \<noteq> CHR 0x5C"
  shows "raise_first (wt_path (SStr (posix_path ps)) code) = None"
proof -
  have ps: "ps \<noteq> []" "last ps \<in> set ps" using assms(1) by (auto simp: proper_parts_def)
  with assms(1) have l: "last ps \<noteq> []" "CHR ''/'' \<notin> set (last ps)" by (auto simp: proper_parts_def)
  obtain x where x: "posix_path ps = x @ CHR ''/'' # last ps"
    using posix_path_snoc [of "butlast ps" "last ps"] ps(1) by auto
  with l have last: "last (posix_path ps) = last (last ps)" by simp
  with l last_in_set [OF l(1)] have slash: "last (posix_path ps) \<noteq> CHR ''/''" by metis
  have hd: "posix_path ps \<noteq> []" "hd (posix_path ps) = CHR ''/''" by (simp_all add: posix_path_def)
  have "plain (posix_path ps)"
    using assms(2) set_join_with [of "CHR ''/''" ps] by (auto simp: posix_path_def plain_def list_all_iff is_control_def)
  then have control: "\<not> list_ex is_control (posix_path ps)" by (simp add: plain_def list_ex_iff list_all_iff)
  have strip: "py_strip (posix_path ps) = posix_path ps"
    by (rule strip_id) (use hd last assms(3) in \<open>simp_all add: py_isspace_def\<close>)
  have rstrip: "rstrip_chars [CHR 0x5C, CHR ''/''] (posix_path ps) = posix_path ps"
  proof -
    have "dropWhile (\<lambda>c. c \<in> set [CHR 0x5C, CHR ''/'']) (rev (posix_path ps)) = rev (posix_path ps)"
      using hd(1) last slash assms(4) by (simp add: dropWhile_eq_self_iff hd_rev)
    then show ?thesis by (simp add: rstrip_chars_def)
  qed
  have start: "starts_with ''/'' (posix_path ps)" "\<not> starts_with [CHR 0x5C, CHR 0x5C] (posix_path ps)"
    by (simp_all add: posix_path_def)
  show ?thesis unfolding wt_path_def wt_text_def scalar.case scalar_views
    using hd(1) strip control start posix_path_hd [OF assms(1)] normpath_posix [OF assms(1)] rstrip path_parts_posix [OF assms(1)] assms(1,2)
    by (auto simp: proper_parts_def has_char_def list_ex_iff)
qed

lemma norm_parts_empty: "\<forall>p \<in> set ps. p = [] \<or> p = ''.'' \<Longrightarrow> norm_parts rooted ds ps = rev ds"
  by (induction ps) auto

lemma valid_path_parts:
  assumes "raise_first (wt_path (SStr s) code) = None"
  shows "proper_parts (path_parts s)"
    and "\<forall>p \<in> set (path_parts s). name_stem p \<notin> set RESERVED_WINDOWS_NAMES \<and> CHR '':'' \<notin> set p \<and> plain p"
proof -
  from assms have s: "plain s" "starts_with ''/'' s" "\<not> starts_with ''//'' s" "''..'' \<notin> set (path_parts s)"
    "normpath s = rstrip_chars [CHR 0x5C, CHR ''/''] s"
    "\<forall>p \<in> set (path_parts s). name_stem p \<notin> set RESERVED_WINDOWS_NAMES \<and> CHR '':'' \<notin> set p"
    by (auto simp: wt_path_def wt_text_def plain_def list_ex_iff list_all_iff Let_def has_char_def)
  have parts: "p \<in> set (path_parts s) \<Longrightarrow> p \<noteq> [] \<and> p \<noteq> ''.'' \<and> CHR ''/'' \<notin> set p \<and> set p \<subseteq> set s" for p
    using split_on_parts [of p "CHR ''/''" s] split_on_chars [of p "CHR ''/''" s] by (auto simp: path_parts_def)
  show "\<forall>p \<in> set (path_parts s). name_stem p \<notin> set RESERVED_WINDOWS_NAMES \<and> CHR '':'' \<notin> set p \<and> plain p"
    using s(1,6) parts by (fastforce simp: plain_def list_all_iff)
  have "path_parts s \<noteq> []"
  proof
    assume "path_parts s = []"
    then have "\<forall>p \<in> set (split_on CHR ''/'' s). p = [] \<or> p = ''.''" by (simp add: path_parts_def filter_empty_conv)
    then have "norm_parts True [] (split_on CHR ''/'' s) = []" by (simp add: norm_parts_empty)
    with s(2,3) have "normpath s = ''/''" by (auto simp: normpath_def Let_def)
    with s(5) have "rev (dropWhile (\<lambda>c. c \<in> set [CHR 0x5C, CHR ''/'']) (rev s)) = ''/''" unfolding rstrip_chars_def by metis
    then have "dropWhile (\<lambda>c. c \<in> set [CHR 0x5C, CHR ''/'']) (rev s) = ''/''" by (metis rev_swap rev_singleton_conv)
    then show False by (metis dropWhile_eq_Cons_conv list.set_intros(1) list.set_intros(2))
  qed
  with parts s(4) show "proper_parts (path_parts s)" by (auto simp: proper_parts_def)
qed

lemma stem_dot: "py_lower c = CHR ''.'' \<longleftrightarrow> c = CHR ''.''"
proof (cases "65 \<le> (of_char c :: nat) \<and> of_char c \<le> (90 :: nat)")
  case True
  then have "(of_char (py_lower c) :: nat) = of_char c + 32" by (simp add: py_lower_def)
  then have "(of_char (py_lower c) :: nat) \<noteq> of_char (CHR ''.'')" "(of_char c :: nat) \<noteq> of_char (CHR ''.'')" using True by auto
  then show ?thesis by metis
qed (auto simp: py_lower_def Let_def)

lemma name_stem_append:
  "name_stem (p @ x) = (if CHR ''.'' \<in> set p then name_stem p else casefold p @ name_stem x)"
proof (induction p)
  case (Cons c p)
  then show ?case using stem_dot [of c] by (auto simp: name_stem_def casefold_def)
qed (simp add: name_stem_def casefold_def)

lemma sibling_stem:
  assumes "name_stem p \<notin> set RESERVED_WINDOWS_NAMES"
  shows "name_stem (p @ ''-agentdesk-worktrees'') \<notin> set RESERVED_WINDOWS_NAMES"
proof -
  have "length (name_stem ''-agentdesk-worktrees'') = 20" by code_simp
  moreover have "\<forall>n \<in> set RESERVED_WINDOWS_NAMES. length n < 20" by (simp add: RESERVED_WINDOWS_NAMES_code)
  ultimately have "casefold p @ name_stem ''-agentdesk-worktrees'' \<notin> set RESERVED_WINDOWS_NAMES"
    by (metis length_append not_add_less2)
  with assms show ?thesis unfolding name_stem_append by presburger
qed

lemma task_text: "TASK_RE s \<Longrightarrow> raise_first (wt_text (SStr s) code) = None"
proof -
  assume s: "TASK_RE s"
  then have eq: "''TC-'' @ drop 3 s = s" using starts_with_drop [of "''TC-''" s] by (simp add: TASK_RE_def numeral_eq_Suc)
  have d: "drop 3 s \<noteq> []" "list_all is_digit (drop 3 s)" using s by (auto simp: TASK_RE_def)
  have "is_digit (last (drop 3 s))" using d last_in_set [OF d(1)] by (simp add: list_all_iff)
  moreover have "last s = last (drop 3 s)" using d(1) by simp
  ultimately have "\<not> py_isspace (last s)" by (auto simp: is_digit_def py_isspace_def Let_def)
  moreover have "hd s = CHR ''T''" "s \<noteq> []" using eq d by (metis append_Cons list.sel(1), auto)
  ultimately have "py_strip s = s" by (intro strip_id) (simp_all add: py_isspace_def)
  with task_plain [OF s] \<open>s \<noteq> []\<close> show ?thesis by (simp add: wt_text_def plain_def list_ex_iff list_all_iff)
qed

lemma derived_stem: "prefix = ''WT-'' \<or> prefix = ''WTR-'' \<Longrightarrow> name_stem (prefix @ h) \<notin> set RESERVED_WINDOWS_NAMES"
  by (auto simp: name_stem_def casefold_def lower_letters RESERVED_WINDOWS_NAMES_code)

lemma expected_path_ok:
  assumes "raise_first (wt_path (SStr root) code) = None" and "list_all is_hex h" and "h \<noteq> []"
  shows "expected_worktree_path root (''WT-'' @ h) =
      Inr (posix_path (butlast (path_parts root) @ [last (path_parts root) @ ''-agentdesk-worktrees'', ''WT-'' @ h]))"
    and "raise_first (wt_path (SStr (posix_path (butlast (path_parts root)
      @ [last (path_parts root) @ ''-agentdesk-worktrees'', ''WT-'' @ h]))) code') = None"
proof -
  let ?ps = "path_parts root"
  have "raise_first (wt_safe_id (SStr (''WT-'' @ h)) ''expected_path_id'' ''WT-'') = None"
    using derived_id_ok [OF assms(2,3)] by blast
  with any_code(3) [OF assms(1)] show "expected_worktree_path root (''WT-'' @ h) =
      Inr (posix_path (butlast ?ps @ [last ?ps @ ''-agentdesk-worktrees'', ''WT-'' @ h]))"
    unfolding expected_worktree_path_def Let_def by (simp only: guarded_pass raise_first_append_None)
  note ps = valid_path_parts [OF assms(1)]
  have hex: "c \<in> set h \<Longrightarrow> is_hex c" for c using assms(2) by (simp add: list_all_iff)
  then have h: "CHR ''/'' \<notin> set (''WT-'' @ h)" "CHR '':'' \<notin> set (''WT-'' @ h)" "plain (''WT-'' @ h)"
    "\<not> py_isspace (last (''WT-'' @ h))" "last (''WT-'' @ h) \<noteq> CHR 0x5C"
    using hex_char last_in_set [OF assms(3)] hex_plain [OF assms(2)] assms(3) by (auto simp: is_control_def)
  have ne: "?ps \<noteq> []" "last ?ps \<in> set ?ps" using ps(1) by (auto simp: proper_parts_def)
  have sub: "set (butlast ?ps) \<subseteq> set ?ps" by (auto dest: in_set_butlastD)
  have "proper_parts (butlast ?ps @ [last ?ps @ ''-agentdesk-worktrees'', ''WT-'' @ h])"
    using ps(1) ne sub h(1) by (auto simp: proper_parts_def)
  moreover have "\<forall>p \<in> set (butlast ?ps @ [last ?ps @ ''-agentdesk-worktrees'', ''WT-'' @ h]).
      name_stem p \<notin> set RESERVED_WINDOWS_NAMES \<and> CHR '':'' \<notin> set p \<and> plain p"
    using ps(2) ne(2) sub h(2,3) sibling_stem [of "last ?ps"] derived_stem [of "''WT-''" h] by (auto simp: is_control_def)
  ultimately show "raise_first (wt_path (SStr (posix_path (butlast ?ps
      @ [last ?ps @ ''-agentdesk-worktrees'', ''WT-'' @ h]))) code') = None"
    by (rule wt_path_posix) (use h(4,5) in simp_all)
qed

lemma reservation_exists:
  assumes "hexdigest H" and "raise_first (request_guards q) = None"
    and "expected_branch (wq_task_id q) (wq_revision q) (wq_attempt q) (wq_dispatch_id q) = Inr (wq_branch q)"
  obtains i p r where "new_request (q\<lparr>wq_expected_worktree_id := i, wq_worktree_path := p\<rparr>) =
      Inr (q\<lparr>wq_expected_worktree_id := i, wq_worktree_path := p\<rparr>)"
    "make_reservation H (q\<lparr>wq_expected_worktree_id := i, wq_worktree_path := p\<rparr>) = Inr r"
proof -
  let ?parts = "[wq_repository_common_dir q, wq_repository_root q, wq_branch q, wq_base_commit q, wq_task_id q,
      show_int (wq_revision q), show_int (wq_attempt q), wq_dispatch_id q]"
  let ?h = "H (binding_bytes ?parts)" and ?g = "H (''WT-'' @ H (binding_bytes ?parts) @ CHR 0x00 # binding_bytes ?parts)"
  have H: "list_all is_hex (H s)" "H s \<noteq> []" for s
    using assms(1) by (auto simp: hexdigest_def) (metis list.size(3) zero_neq_numeral)
  note g = assms(2) [unfolded request_guards_def]
  from g have root: "raise_first (wt_path (SStr (wq_repository_root q)) ''request_root'') = None" by simp
  note path = expected_path_ok [OF root H [of "binding_bytes ?parts"]]
  let ?p = "posix_path (butlast (path_parts (wq_repository_root q))
      @ [last (path_parts (wq_repository_root q)) @ ''-agentdesk-worktrees'', ''WT-'' @ ?h])"
  define q' where "q' = q\<lparr>wq_expected_worktree_id := ''WT-'' @ ?h, wq_worktree_path := ?p\<rparr>"
  have id_ok: "raise_first (wt_safe_id (SStr (''WT-'' @ ?h)) code ''WT-'') = None"
    "raise_first (wt_safe_id (SStr (''WTR-'' @ ?g)) code ''WTR-'') = None" for code
    using derived_id_ok [OF H] by blast+
  have task: "raise_first (wt_text (SStr (wq_task_id q)) ''binding_task'') = None"
    using g by (auto simp: wt_task_def intro: task_text)
  have parts: "request_parts q' = Inr ?parts"
    using g task any_code by (auto simp: request_parts_def q'_def binding_parts_def binding_guards_def)
  have new: "new_request q' = Inr q'"
    using g id_ok(1) path(2) by (simp add: new_request_def request_guards_def q'_def)
  have "validate_request_identity H q' = Inr ()"
    using assms(3) parts path(1)
    by (simp add: validate_request_identity_def derive_worktree_id_def request_parts_def q'_def)
  moreover have "derive_reservation_id H (wq_expected_worktree_id q') q' = Inr (''WTR-'' @ ?g)"
    using parts id_ok(1) by (simp add: derive_reservation_id_def q'_def)
  ultimately have make: "make_reservation H q' = with_reservation_digest H
      \<lparr>wr_schema_version = WORKTREE_SCHEMA, wr_reservation_id = ''WTR-'' @ ?g, wr_worktree_id = ''WT-'' @ ?h,
       wr_repository_common_dir = wq_repository_common_dir q, wr_repository_root = wq_repository_root q,
       wr_worktree_path = ?p, wr_branch = wq_branch q, wr_base_commit = wq_base_commit q, wr_task_id = wq_task_id q,
       wr_revision = wq_revision q, wr_attempt = wq_attempt q, wr_dispatch_id = wq_dispatch_id q, wr_phase = RESERVED,
       wr_reserved_at = wq_requested_at q, wr_content_digest = NO_DIGEST\<rparr>" (is "_ = with_reservation_digest H ?r")
    by (simp add: make_reservation_def q'_def)
  from g have a: "raise_first (wt_path (SStr (wq_repository_common_dir q)) ''request_common_dir'') = None"
    "raise_first (wt_branch (SStr (wq_branch q))) = None" "raise_first (wt_sha40 (SStr (wq_base_commit q)) ''request_base'') = None"
    "raise_first (wt_task (SStr (wq_task_id q)) ''request_task_id'') = None"
    "raise_first (wt_positive (SInt (wq_revision q)) ''request_revision'' None) = None"
    "raise_first (wt_positive (SInt (wq_attempt q)) ''request_attempt'' (Some 3)) = None"
    "raise_first (wt_safe_id (SStr (wq_dispatch_id q)) ''request_dispatch_id'' ''DSP-'') = None"
    "raise_first (wt_timestamp (SStr (wq_requested_at q)) ''requested_at'' False) = None" by simp_all
  note b = any_code(3) [OF a(1)] any_code(3) [OF root] a(2) any_code(4) [OF a(3)] any_code(6) [OF a(4)] any_code(7) [OF a(5)]
    any_code(7) [OF a(6)] any_code(2) [OF a(7)] any_code(8) [OF a(8)]
  have ok: "raise_first (reservation_guards (reservation_values (?r\<lparr>wr_content_digest := x\<rparr>))) = None"
    if "raise_first (wt_digest (SStr x) ''reservation_digest'') = None" for x
    using that by (simp add: reservation_guards_def reservation_values_def wt_schema_def b id_ok path(2) del: append_Cons append.simps)
  have "\<exists>r. with_reservation_digest H ?r = Inr r"
    using ok [OF no_digest_format] ok [OF digest_format [OF assms(1)]]
    by (simp add: with_reservation_digest_def new_reservation_def)
  then obtain r where r: "make_reservation H q' = Inr r" using make by auto
  with new show thesis by (intro that) (simp_all add: q'_def)
qed

text \<open>
  Every dispatch can have its worktree.  Whatever the repository, the commit and the dispatch of
  a request that its constructor accepts, on the branch the dispatch prescribes there are an
  identity and a path with which the request is accepted and reserved, and the reservation can be
  written and read back.
\<close>

theorem every_dispatch_reservable:
  assumes "hexdigest H" and "raise_first (request_guards q) = None"
    and "expected_branch (wq_task_id q) (wq_revision q) (wq_attempt q) (wq_dispatch_id q) = Inr (wq_branch q)"
  shows "\<exists>i p q' r b. q' = q\<lparr>wq_expected_worktree_id := i, wq_worktree_path := p\<rparr> \<and> new_request q' = Inr q'
    \<and> make_reservation H q' = Inr r \<and> encode_reservation H r = Inr b \<and> decode_reservation H b = Inr r"
proof -
  obtain i p r where r: "new_request (q\<lparr>wq_expected_worktree_id := i, wq_worktree_path := p\<rparr>) =
      Inr (q\<lparr>wq_expected_worktree_id := i, wq_worktree_path := p\<rparr>)"
    "make_reservation H (q\<lparr>wq_expected_worktree_id := i, wq_worktree_path := p\<rparr>) = Inr r"
    by (rule reservation_exists [OF assms])
  have "reservation_valid r" "encode_reservation H r = Inr (flat_text RESERVATION_FIELDS (reservation_values r))"
    by (rule make_reservation_Inr [OF r(2)]; blast)+
  with r worktree_evidence_read(1) show ?thesis by blast
qed

section \<open>Witnesses\<close>

definition sample_request :: WorktreeLifecycleRequest where
  "sample_request = \<lparr>wq_schema_version = WORKTREE_SCHEMA, wq_operation_id = ''OP-1'', wq_action = CREATE,
     wq_repository_common_dir = ''/srv/r/.git'', wq_repository_root = ''/srv/r'', wq_worktree_path = ''/srv/w'',
     wq_branch = ''agentdesk/TC-101/r1/a1/DSP-7'', wq_base_commit = replicate 40 (CHR ''a''), wq_task_id = ''TC-101'',
     wq_revision = 1, wq_attempt = 1, wq_dispatch_id = ''DSP-7'', wq_expected_worktree_id = ''WT-1'',
     wq_requested_at = ''2026-01-01T00:00:00.000000Z''\<rparr>"

definition main_entry :: WorktreeInventoryEntry where
  "main_entry = \<lparr>wi_repository_common_dir = ''/srv/r/.git'', wi_worktree_path = ''/srv/r'',
     wi_head_commit = replicate 40 (CHR ''a''), wi_branch = Some ''main'', wi_is_bare = False, wi_is_detached = False,
     wi_is_locked = False, wi_is_prunable = False\<rparr>"

definition other_entry :: WorktreeInventoryEntry where
  "other_entry = main_entry\<lparr>wi_worktree_path := ''/srv/x'', wi_branch := None, wi_is_detached := True\<rparr>"

definition sample_listing :: string where
  "sample_listing = terminated (CHR 0x00) [''worktree /srv/r'', ''HEAD '' @ replicate 40 (CHR ''a''), ''branch refs/heads/main'', []]"

lemma sample_request_ok: "raise_first (request_guards sample_request) = None"
  by code_simp

lemma sample_branch:
  "expected_branch (wq_task_id sample_request) (wq_revision sample_request) (wq_attempt sample_request)
     (wq_dispatch_id sample_request) = Inr (wq_branch sample_request)"
  by code_simp

lemma main_entry_ok: "inventory_entry_ok main_entry"
  by code_simp

lemma other_entry_ok: "inventory_entry_ok other_entry"
  by code_simp

lemma sample_inventory: "parse_worktree_inventory sample_listing ''/srv/r/.git'' = Inr [main_entry]"
  by code_simp

theorem every_dispatch_reservable_witness:
  "\<exists>q r. wq_dispatch_id q = ''DSP-7'' \<and> make_reservation sample_hash q = Inr r"
proof -
  have "wq_dispatch_id (sample_request\<lparr>wq_expected_worktree_id := i, wq_worktree_path := p\<rparr>) = ''DSP-7''" for i p
    by (simp add: sample_request_def)
  then show ?thesis
    using every_dispatch_reservable [OF sample_hash_hexdigest sample_request_ok sample_branch] by blast
qed

lemma sample_reservation: "\<exists>q r. make_reservation sample_hash q = Inr r \<and> worktree_id_ok (wr_worktree_id r)"
proof (rule reservation_exists [OF sample_hash_hexdigest sample_request_ok sample_branch])
  fix i p r assume r: "make_reservation sample_hash (sample_request\<lparr>wq_expected_worktree_id := i, wq_worktree_path := p\<rparr>) = Inr r"
  then have "reservation_valid r" by (rule make_reservation_Inr)
  then have "worktree_id_ok (wr_worktree_id r)"
    by (simp add: reservation_valid_def reservation_guards_def reservation_values_def worktree_id_ok_def)
  with r show ?thesis by blast
qed

theorem worktree_isolation_witness:
  "\<exists>q r. make_reservation sample_hash q = Inr r \<and>
     (wr_dispatch_id r = wr_dispatch_id r \<or> (\<exists>s t. s \<noteq> t \<and> sample_hash s = sample_hash t))"
  using sample_reservation worktree_isolation by blast

theorem reconcile_decides_witness:
  "\<exists>(r :: WorktreeReservation) d. reconcile_worktree sample_hash (wr_worktree_id r) (Some r) None [main_entry] None = Inr d"
proof -
  obtain r :: WorktreeReservation where r: "worktree_id_ok (wr_worktree_id r)" using sample_reservation by blast
  have "list_all inventory_entry_ok [main_entry]" "distinct (map wi_worktree_path [main_entry])"
    by (simp_all add: main_entry_ok)
  from reconcile_decides [OF sample_hash_hexdigest r this, of "Some r" None None] show ?thesis by auto
qed

theorem reconcile_acts_on_evidence_witness:
  "\<exists>(r :: WorktreeReservation) d. reconcile_worktree sample_hash (wr_worktree_id r) (Some r) None [] None = Inr d \<and> wd_action d = RESUME_CREATE"
proof -
  obtain r :: WorktreeReservation where r: "worktree_id_ok (wr_worktree_id r)" using sample_reservation by blast
  from reconcile_total [OF sample_hash_hexdigest r, of "[]" "Some r" None None] obtain d
    where d: "reconcile_worktree sample_hash (wr_worktree_id r) (Some r) None [] None = Inr d" by auto
  with reconcile_acts_on_evidence [OF this] show ?thesis by (auto simp: record_divergent_def record_phase_def)
qed

theorem inventory_well_formed_witness: "sorted (map entry_key [main_entry])"
  using inventory_well_formed [OF sample_inventory] by blast

theorem inventory_digest_exact_witness:
  "inventory_digest sample_hash [main_entry, other_entry] = inventory_digest sample_hash [other_entry, main_entry]"
proof -
  have "list_all inventory_entry_ok [main_entry, other_entry]" "list_all inventory_entry_ok [other_entry, main_entry]"
    "distinct (map wi_worktree_path [main_entry, other_entry])" "distinct (map wi_worktree_path [other_entry, main_entry])"
    using main_entry_ok other_entry_ok by (simp_all add: main_entry_def other_entry_def)
  from inventory_digest_exact [OF this, of sample_hash] show ?thesis by (simp add: insert_commute)
qed

end
