(* ===== verification/Worktree_Store.thy ===== *)
theory Worktree_Store
  imports Worktree_Reconcile Effects
begin

text \<open>
  The store of worktree evidence (\<open>worktree_lifecycle_store.py\<close>, class \<open>WorktreeLifecycleStore\<close>):
  its operations as atomic writes that may not happen, and what evidence goes through along their
  runs.  The directories exist and hold no links; the lock makes an operation see one disk.
\<close>

section \<open>Operations\<close>

datatype worktree_file = ReservationFile string | RecordFile string

type_synonym worktree_disk = "(worktree_file, string) dict"

type_synonym 'a worktree_outcome = "(worktree_error + 'a) \<times> (worktree_file \<times> string) list"

text \<open>The names \<open>_reject_extra_files\<close> allows: \<open>WT-[0-9a-f]{64}\<close>.\<close>

definition evidence_name :: "string \<Rightarrow> bool" where
  "evidence_name i \<longleftrightarrow> starts_with ''WT-'' i \<and> length i = 67 \<and> list_all is_hex (drop 3 i)"

definition reject_extra_files :: "(worktree_file \<Rightarrow> string option) \<Rightarrow> worktree_disk \<Rightarrow> worktree_guard list" where
  "reject_extra_files name_in d =
    [(list_ex (\<lambda>(p, _). case name_in p of None \<Rightarrow> False | Some i \<Rightarrow> \<not> evidence_name i) d,
      WorktreeLifecycleSecurityError ''extra_file'')]"

definition in_reservations :: "worktree_file \<Rightarrow> string option" where
  "in_reservations p = (case p of ReservationFile i \<Rightarrow> Some i | RecordFile _ \<Rightarrow> None)"

definition in_records :: "worktree_file \<Rightarrow> string option" where
  "in_records p = (case p of RecordFile i \<Rightarrow> Some i | ReservationFile _ \<Rightarrow> None)"

definition evidence_path :: "string \<Rightarrow> worktree_guard list" where
  "evidence_path i = wt_safe_id (SStr i) ''evidence_worktree_id'' ''WT-''"

definition read_worktree_reservation ::
  "(string \<Rightarrow> string) \<Rightarrow> string \<Rightarrow> worktree_disk \<Rightarrow> worktree_error + WorktreeReservation"
where
  "read_worktree_reservation H i d = guarded (reject_extra_files in_reservations d @ evidence_path i)
     (case dict_get d (ReservationFile i) of
        None \<Rightarrow> Inl (WorktreeLifecycleNotFoundError ''evidence_missing'')
      | Some b \<Rightarrow> decode_reservation H b)"

definition read_record ::
  "(string \<Rightarrow> string) \<Rightarrow> string \<Rightarrow> bool \<Rightarrow> worktree_disk \<Rightarrow> worktree_error + WorktreeRecord option"
where
  "read_record H i missing_ok d = guarded (reject_extra_files in_records d @ evidence_path i)
     (case dict_get d (RecordFile i) of
        None \<Rightarrow> if missing_ok then Inr None else Inl (WorktreeLifecycleNotFoundError ''evidence_missing'')
      | Some b \<Rightarrow> and_then (decode_record H b) (\<lambda>w. Inr (Some w)))"

text \<open>Create a file once: the same content again is a replay, another is a conflict.\<close>

definition write_once ::
  "worktree_file \<Rightarrow> string \<Rightarrow> 'a \<Rightarrow> (string \<Rightarrow> worktree_error + 'a) \<Rightarrow> worktree_error \<Rightarrow> worktree_disk \<Rightarrow> 'a worktree_outcome"
where
  "write_once p encoded v decode conflict d = (case dict_get d p of
      Some existing \<Rightarrow> ensuring [(existing \<noteq> encoded, conflict)] (reading (decode existing) returning)
    | None \<Rightarrow> storing p (Inr encoded) (returning v))"

definition reserve ::
  "(string \<Rightarrow> string) \<Rightarrow> string \<Rightarrow> WorktreeLifecycleRequest \<Rightarrow> worktree_disk \<Rightarrow> WorktreeReservation worktree_outcome"
where
  "reserve H project_root q d =
     reading (validate_request_identity H q) (\<lambda>_.
     ensuring
      [(wq_action q \<noteq> CREATE, WorktreeLifecycleInputError ''reserve_action''),
       (wq_repository_root q \<noteq> project_root, WorktreeLifecycleConflictError ''repository_root'')]
     (reading (make_reservation H q) (\<lambda>r.
      reading (encode_reservation H r) (\<lambda>encoded.
      ensuring (reject_extra_files in_reservations d @ reject_extra_files in_records d @ evidence_path (wr_worktree_id r))
        (write_once (ReservationFile (wr_worktree_id r)) encoded r (decode_reservation H)
          (WorktreeLifecycleConflictError ''reservation_replay'') d)))))"

definition create_record ::
  "(string \<Rightarrow> string) \<Rightarrow> WorktreeRecord \<Rightarrow> worktree_disk \<Rightarrow> WorktreeRecord worktree_outcome"
where
  "create_record H w d =
     ensuring [(wc_phase w \<noteq> CREATING, WorktreeLifecycleInputError ''create_record'')]
     (reading (read_worktree_reservation H (wc_worktree_id w) d) (\<lambda>r.
      ensuring [(wc_reservation_id w \<noteq> wr_reservation_id r \<or> wc_worktree_path w \<noteq> wr_worktree_path r
          \<or> wc_branch w \<noteq> wr_branch r \<or> wc_base_commit w \<noteq> wr_base_commit r, WorktreeLifecycleConflictError ''record_binding'')]
      (reading (encode_record H w) (\<lambda>encoded.
       ensuring (evidence_path (wc_worktree_id w))
         (write_once (RecordFile (wc_worktree_id w)) encoded w (decode_record H)
           (WorktreeLifecycleConflictError ''record_replay'') d)))))"

text \<open>The record in its next phase.\<close>

definition advanced ::
  "WorktreePhase \<Rightarrow> string \<Rightarrow> string \<Rightarrow> string option \<Rightarrow> WorktreeRecord \<Rightarrow> WorktreeRecord"
where
  "advanced target inventory time head w =
    (let v = w\<lparr>wc_phase := target, wc_inventory_digest := inventory,
        wc_head_commit := (case head of None \<Rightarrow> wc_head_commit w | Some h \<Rightarrow> h)\<rparr>
     in if target = READY then v\<lparr>wc_created_at := Some time\<rparr>
        else if target = RELEASING then v\<lparr>wc_release_requested_at := Some time\<rparr>
        else if target = RELEASED then v\<lparr>wc_released_at := Some time\<rparr>
        else v)"

definition advance_record ::
  "(string \<Rightarrow> string) \<Rightarrow> string \<Rightarrow> WorktreePhase \<Rightarrow> WorktreePhase \<Rightarrow> string \<Rightarrow> string \<Rightarrow> string option \<Rightarrow> worktree_disk \<Rightarrow>
   WorktreeRecord worktree_outcome"
where
  "advance_record H i expected target inventory time head d =
     ensuring (wt_safe_id (SStr i) ''advance_worktree_id'' ''WT-'' @ wt_digest (SStr inventory) ''advance_inventory_digest''
         @ wt_timestamp (SStr time) ''operation_at'' False @ evidence_path i)
     (case dict_get d (RecordFile i) of
        None \<Rightarrow> failing (WorktreeLifecycleNotFoundError ''evidence_missing'')
      | Some b \<Rightarrow> reading (decode_record H b) (\<lambda>w.
          if wc_phase w = target then returning w
          else ensuring
            ([(wc_phase w \<noteq> expected \<or> phase_position target \<noteq> phase_position expected + 1,
               WorktreeLifecycleTransitionError ''phase_transition'')] @
             (case head of None \<Rightarrow> [] | Some h \<Rightarrow> wt_sha40 (SStr h) ''advance_head''))
            (reading (with_record_digest H (advanced target inventory time head w)) (\<lambda>next.
             storing (RecordFile i) (encode_record H next) (returning next)))))"

section \<open>Runs\<close>

datatype worktree_op =
    Reserve string WorktreeLifecycleRequest
  | CreateRecord WorktreeRecord
  | AdvanceRecord string WorktreePhase WorktreePhase string string "string option"

definition worktree_writes :: "(string \<Rightarrow> string) \<Rightarrow> worktree_op \<Rightarrow> worktree_disk \<Rightarrow> (worktree_file \<times> string) list" where
  "worktree_writes H op d = (case op of
      Reserve root q \<Rightarrow> snd (reserve H root q d)
    | CreateRecord w \<Rightarrow> snd (create_record H w d)
    | AdvanceRecord i expected target inventory time head \<Rightarrow> snd (advance_record H i expected target inventory time head d))"

text \<open>The records given to \<open>create_record\<close> are objects of the class, so valid.\<close>

definition worktree_legal :: "worktree_op \<Rightarrow> bool" where
  "worktree_legal op \<longleftrightarrow> (case op of CreateRecord w \<Rightarrow> record_valid w | _ \<Rightarrow> True)"

abbreviation worktree_step :: "(string \<Rightarrow> string) \<Rightarrow> worktree_disk \<Rightarrow> worktree_disk \<Rightarrow> bool" where
  "worktree_step H \<equiv> crash_step (worktree_writes H) worktree_legal"

definition holds_reservation :: "(string \<Rightarrow> string) \<Rightarrow> worktree_disk \<Rightarrow> string \<Rightarrow> WorktreeReservation \<Rightarrow> bool" where
  "holds_reservation H d i r \<longleftrightarrow> (\<exists>b. dict_get d (ReservationFile i) = Some b \<and> decode_reservation H b = Inr r)"

definition holds_record :: "(string \<Rightarrow> string) \<Rightarrow> worktree_disk \<Rightarrow> string \<Rightarrow> WorktreeRecord \<Rightarrow> bool" where
  "holds_record H d i w \<longleftrightarrow> (\<exists>b. dict_get d (RecordFile i) = Some b \<and> decode_record H b = Inr w)"

text \<open>How a record develops: what it is for stays, its phase advances, a time once set stays.\<close>

definition record_identity :: "WorktreeRecord \<Rightarrow> string list \<times> int \<times> int" where
  "record_identity w = ([wc_worktree_id w, wc_reservation_id w, wc_repository_common_dir w, wc_repository_root w,
     wc_worktree_path w, wc_branch w, wc_base_commit w, wc_task_id w, wc_dispatch_id w], wc_revision w, wc_attempt w)"

definition time_follows :: "string option \<Rightarrow> string option \<Rightarrow> bool" where
  "time_follows t u \<longleftrightarrow> t = None \<or> u = t"

definition record_follows :: "WorktreeRecord \<Rightarrow> WorktreeRecord \<Rightarrow> bool" where
  "record_follows w x \<longleftrightarrow> record_identity x = record_identity w
     \<and> (x = w \<or> phase_position (wc_phase w) < phase_position (wc_phase x))
     \<and> time_follows (wc_created_at w) (wc_created_at x)
     \<and> time_follows (wc_release_requested_at w) (wc_release_requested_at x)
     \<and> time_follows (wc_released_at w) (wc_released_at x)"

lemma time_follows_trans: "time_follows t u \<Longrightarrow> time_follows u v \<Longrightarrow> time_follows t v"
  by (auto simp: time_follows_def)

lemma record_follows_refl: "record_follows w w"
  by (simp add: record_follows_def time_follows_def)

lemma record_follows_trans:
  assumes "record_follows w x" and "record_follows x y"
  shows "record_follows w y"
proof -
  from assms have "y = w \<or> phase_position (wc_phase w) < phase_position (wc_phase y)"
    unfolding record_follows_def by (metis order.strict_trans)
  with assms show ?thesis unfolding record_follows_def by (metis time_follows_trans)
qed

section \<open>What is written\<close>

definition worktree_write_ok :: "(string \<Rightarrow> string) \<Rightarrow> worktree_disk \<Rightarrow> worktree_file \<times> string \<Rightarrow> bool" where
  "worktree_write_ok H d = (\<lambda>(p, b). case p of
      ReservationFile i \<Rightarrow> dict_get d p = None \<and> (\<exists>r. decode_reservation H b = Inr r \<and> wr_worktree_id r = i)
        \<and> (hexdigest H \<longrightarrow> evidence_name i)
    | RecordFile i \<Rightarrow> \<exists>w. decode_record H b = Inr w \<and>
        (dict_get d p = None \<and> wc_worktree_id w = i
           \<and> (\<exists>r. holds_reservation H d i r \<and> (wr_worktree_id r = i \<longrightarrow> \<not> record_divergent r (Some w)))
         \<or> (\<exists>v. holds_record H d i v \<and> record_follows v w \<and> phase_position (wc_phase w) = phase_position (wc_phase v) + 1)))"

lemma write_once_writes: "x \<in> set (snd (write_once p b v decode e d)) \<Longrightarrow> dict_get d p = None \<and> x = (p, b)"
  by (auto simp: write_once_def split: option.split_asm dest!: writes_dest)

lemma reserved_name:
  assumes "make_reservation H q = Inr r" and "hexdigest H"
  shows "evidence_name (wr_worktree_id r)"
proof -
  obtain parts where "wr_worktree_id r = ''WT-'' @ H (binding_bytes parts)" by (rule make_reservation_Inr [OF assms(1)])
  with assms(2) show ?thesis by (simp add: evidence_name_def hexdigest_def)
qed

lemma reserve_writes:
  assumes "x \<in> set (snd (reserve H root q d))"
  shows "worktree_write_ok H d x"
proof -
  from assms obtain r b where r: "make_reservation H q = Inr r" "encode_reservation H r = Inr b"
    and x: "dict_get d (ReservationFile (wr_worktree_id r)) = None" "x = (ReservationFile (wr_worktree_id r), b)"
    by (auto simp: reserve_def dest!: writes_ensuring writes_reading write_once_writes)
  from r(1) have "reservation_valid r" by (rule make_reservation_Inr)
  from worktree_evidence_read(1) [OF this r(2)] x reserved_name [OF r(1)] show ?thesis by (simp add: worktree_write_ok_def)
qed

lemma create_record_writes:
  assumes "record_valid w" and "x \<in> set (snd (create_record H w d))"
  shows "worktree_write_ok H d x"
proof -
  from assms(2) obtain r b where r: "read_worktree_reservation H (wc_worktree_id w) d = Inr r" "encode_record H w = Inr b"
    and same: "wc_reservation_id w = wr_reservation_id r" "wc_worktree_path w = wr_worktree_path r"
      "wc_branch w = wr_branch r" "wc_base_commit w = wr_base_commit r"
    and x: "dict_get d (RecordFile (wc_worktree_id w)) = None" "x = (RecordFile (wc_worktree_id w), b)"
    by (auto simp: create_record_def dest!: writes_ensuring writes_reading write_once_writes)
  from r(1) have "holds_reservation H d (wc_worktree_id w) r"
    by (auto simp: read_worktree_reservation_def holds_reservation_def res_simps split: option.split_asm)
  with worktree_evidence_read(2) [OF assms(1) r(2)] x same show ?thesis
    by (auto simp: worktree_write_ok_def record_divergent_def)
qed

text \<open>The times a valid record has are those of its phase.\<close>

lemma record_times:
  assumes "record_valid w"
  shows "(wc_created_at w = None) = (phase_position (wc_phase w) < 2)"
    "(wc_release_requested_at w = None) = (phase_position (wc_phase w) < 3)"
    "(wc_released_at w = None) = (phase_position (wc_phase w) < 4)"
  using assms by (auto simp: record_valid_def record_guards_def record_values_def phase_time_def opt_scalar_def split: option.split_asm)

lemma advanced_fields:
  "record_identity ((advanced target inventory time head w)\<lparr>wc_content_digest := c\<rparr>) = record_identity w"
  "wc_phase ((advanced target inventory time head w)\<lparr>wc_content_digest := c\<rparr>) = target"
  "wc_created_at ((advanced target inventory time head w)\<lparr>wc_content_digest := c\<rparr>)
     = (if target = READY then Some time else wc_created_at w)"
  "wc_release_requested_at ((advanced target inventory time head w)\<lparr>wc_content_digest := c\<rparr>)
     = (if target = RELEASING then Some time else wc_release_requested_at w)"
  "wc_released_at ((advanced target inventory time head w)\<lparr>wc_content_digest := c\<rparr>)
     = (if target = RELEASED then Some time else wc_released_at w)"
  by (simp_all add: advanced_def Let_def record_identity_def)

lemma advanced_follows:
  assumes "record_valid w" and "phase_position target = phase_position (wc_phase w) + 1"
  shows "record_follows w ((advanced target inventory time head w)\<lparr>wc_content_digest := c\<rparr>)"
proof -
  from assms(2) have "(target = READY \<longrightarrow> phase_position (wc_phase w) < 2) \<and> (target = RELEASING \<longrightarrow> phase_position (wc_phase w) < 3)
    \<and> (target = RELEASED \<longrightarrow> phase_position (wc_phase w) < 4)" by auto
  with record_times [OF assms(1)] assms(2) show ?thesis unfolding record_follows_def advanced_fields time_follows_def by auto
qed

lemma advance_record_writes:
  assumes "x \<in> set (snd (advance_record H i expected target inventory time head d))"
  shows "worktree_write_ok H d x"
proof -
  from assms obtain b w n c where w: "dict_get d (RecordFile i) = Some b" "decode_record H b = Inr w"
    and phase: "wc_phase w = expected" "phase_position target = phase_position expected + 1"
    and n: "with_record_digest H (advanced target inventory time head w) = Inr n" "encode_record H n = Inr c"
    and x: "x = (RecordFile i, c)"
    by (auto simp: advance_record_def dest!: writes_dest split: option.split_asm if_splits)
  note sound = with_record_digest_Inr [OF n(1)]
  from sound n(2) have "decode_record H c = Inr n" by (blast intro: worktree_evidence_read)
  moreover have "record_follows w n \<and> wc_phase n = target"
    unfolding sound [THEN conjunct1] advanced_fields
    using advanced_follows [of w target] worktree_evidence_decoded(2) [OF w(2)] phase by simp
  ultimately show ?thesis using w phase by (auto simp: worktree_write_ok_def holds_record_def x)
qed

lemma worktree_writes_ok: "worktree_legal op \<Longrightarrow> x \<in> set (worktree_writes H op d) \<Longrightarrow> worktree_write_ok H d x"
  by (cases op) (auto simp: worktree_writes_def worktree_legal_def intro: reserve_writes create_record_writes advance_record_writes)

text \<open>Each operation writes one file at most.\<close>

definition one_write :: "'a worktree_outcome \<Rightarrow> bool" where
  "one_write r \<longleftrightarrow> length (snd r) \<le> 1"

lemma one_write_intros:
  "one_write r \<Longrightarrow> one_write (ensuring gs r)" "(\<And>y. one_write (f y)) \<Longrightarrow> one_write (reading v f)"
  "one_write (storing p u (returning x))" "one_write (returning x)" "one_write (failing e)"
  by (simp_all add: one_write_def ensuring_def reading_def storing_def returning_def failing_def split: option.split sum.split)

lemma write_once_one: "one_write (write_once p b v decode e d)"
  by (simp add: write_once_def one_write_def ensuring_def reading_def storing_def returning_def split: option.split sum.split)

lemma operations_one:
  "one_write (reserve H root q d)" "one_write (create_record H w d)"
  "one_write (advance_record H i expected target inventory time head d)"
  unfolding reserve_def create_record_def advance_record_def
  by (auto intro!: one_write_intros write_once_one split: option.split)

lemma worktree_writes_one: "distinct (map fst (worktree_writes H op d))"
proof -
  have "length (worktree_writes H op d) \<le> 1"
    by (cases op) (simp_all only: worktree_writes_def worktree_op.case operations_one [unfolded one_write_def])
  then show ?thesis by (cases "worktree_writes H op d") auto
qed

section \<open>What reachable stores hold\<close>

definition worktree_inv :: "(string \<Rightarrow> string) \<Rightarrow> worktree_disk \<Rightarrow> bool" where
  "worktree_inv H d \<longleftrightarrow> (\<forall>i b. dict_get d (ReservationFile i) = Some b \<longrightarrow>
       (\<exists>r. decode_reservation H b = Inr r \<and> wr_worktree_id r = i) \<and> (hexdigest H \<longrightarrow> evidence_name i))
   \<and> (\<forall>i b. dict_get d (RecordFile i) = Some b \<longrightarrow>
       (\<exists>w r. decode_record H b = Inr w \<and> holds_reservation H d i r \<and> \<not> record_divergent r (Some w)))"

lemma worktree_step_get:
  assumes "worktree_step H d d'"
  obtains "dict_get d' p = dict_get d p" | b where "dict_get d' p = Some b" "worktree_write_ok H d (p, b)"
  using crash_step_get [OF assms worktree_writes_one, of p] worktree_writes_ok by metis

lemma evidence_unique:
  "holds_reservation H d i r \<Longrightarrow> holds_reservation H d i s \<Longrightarrow> r = s"
  "holds_record H d i w \<Longrightarrow> holds_record H d i x \<Longrightarrow> w = x"
  by (auto simp: holds_reservation_def holds_record_def)

lemma step_keeps_reservation:
  assumes "worktree_step H d d'" and "holds_reservation H d i r"
  shows "holds_reservation H d' i r"
  by (rule worktree_step_get [OF assms(1), of "ReservationFile i"])
    (use assms(2) in \<open>auto simp: holds_reservation_def worktree_write_ok_def\<close>)

lemma step_keeps_record:
  assumes "worktree_step H d d'" and "holds_record H d i w"
  shows "\<exists>x. holds_record H d' i x \<and> record_follows w x"
proof (rule worktree_step_get [OF assms(1), of "RecordFile i"])
  assume "dict_get d' (RecordFile i) = dict_get d (RecordFile i)"
  with assms(2) record_follows_refl show ?thesis by (auto simp: holds_record_def)
next
  fix b assume "dict_get d' (RecordFile i) = Some b" "worktree_write_ok H d (RecordFile i, b)"
  moreover from assms(2) this(2) obtain v x where "decode_record H b = Inr x" "holds_record H d i v" "record_follows v x"
    unfolding worktree_write_ok_def holds_record_def by auto
  ultimately show ?thesis using evidence_unique(2) [OF assms(2)] unfolding holds_record_def by metis
qed

lemma inv_reservation: "worktree_inv H d \<Longrightarrow> holds_reservation H d i r \<Longrightarrow> wr_worktree_id r = i"
  unfolding worktree_inv_def holds_reservation_def by (metis sum.inject(2))

lemma follows_divergent: "record_follows w x \<Longrightarrow> record_divergent r (Some x) = record_divergent r (Some w)"
  by (auto simp: record_follows_def record_identity_def record_divergent_def)

lemma worktree_step_inv:
  assumes "worktree_inv H d" and "worktree_step H d d'"
  shows "worktree_inv H d'"
  unfolding worktree_inv_def
proof (rule conjI; intro allI impI)
  fix i b assume b: "dict_get d' (ReservationFile i) = Some b"
  show "(\<exists>r. decode_reservation H b = Inr r \<and> wr_worktree_id r = i) \<and> (hexdigest H \<longrightarrow> evidence_name i)"
  proof (rule worktree_step_get [OF assms(2), of "ReservationFile i"])
    assume "dict_get d' (ReservationFile i) = dict_get d (ReservationFile i)"
    with assms(1) b show ?thesis unfolding worktree_inv_def by metis
  qed (use b in \<open>auto simp: worktree_write_ok_def\<close>)
next
  fix i b assume b: "dict_get d' (RecordFile i) = Some b"
  show "\<exists>w r. decode_record H b = Inr w \<and> holds_reservation H d' i r \<and> \<not> record_divergent r (Some w)"
  proof (rule worktree_step_get [OF assms(2), of "RecordFile i"])
    assume "dict_get d' (RecordFile i) = dict_get d (RecordFile i)"
    with assms b step_keeps_reservation show ?thesis unfolding worktree_inv_def by metis
  next
    fix c assume "dict_get d' (RecordFile i) = Some c" "worktree_write_ok H d (RecordFile i, c)"
    with b consider
        w r where "decode_record H b = Inr w" "holds_reservation H d i r" "wr_worktree_id r = i \<longrightarrow> \<not> record_divergent r (Some w)"
      | v w where "decode_record H b = Inr w" "holds_record H d i v" "record_follows v w"
      by (auto simp: worktree_write_ok_def)
    then show ?thesis
    proof cases
      case 1
      with inv_reservation [OF assms(1)] 1 step_keeps_reservation [OF assms(2)] show ?thesis by blast
    next
      case 2
      then obtain r where "holds_reservation H d i r" "\<not> record_divergent r (Some v)"
        using assms(1) by (fastforce simp: worktree_inv_def holds_record_def)
      with 2 follows_divergent [OF 2(3)] step_keeps_reservation [OF assms(2)] show ?thesis by blast
    qed
  qed
qed

lemma worktree_inv_empty: "worktree_inv H []"
  by (simp add: worktree_inv_def)

interpretation worktree_reservations: tracked_system "\<lambda>d. d = []" "worktree_step H" "worktree_inv H"
  "\<lambda>d (i, r). holds_reservation H d i r" "(=)"
  for H
proof unfold_locales
  show "\<exists>y. (case y of (i, r) \<Rightarrow> holds_reservation H t i r) \<and> x = y"
    if "worktree_inv H s" "worktree_step H s t" "case x of (i, r) \<Rightarrow> holds_reservation H s i r" for s t x
    using that step_keeps_reservation by (cases x) auto
qed (simp_all add: worktree_inv_empty, rule worktree_step_inv)

interpretation worktree_records: tracked_system "\<lambda>d. d = []" "worktree_step H" "worktree_inv H"
  "\<lambda>d (i, w). holds_record H d i w" "\<lambda>(i, w) (j, x). i = j \<and> record_follows w x"
  for H
proof unfold_locales
  show "\<exists>y. (case y of (i, w) \<Rightarrow> holds_record H t i w) \<and> (case x of (i, w) \<Rightarrow> \<lambda>(j, x). i = j \<and> record_follows w x) y"
    if "worktree_inv H s" "worktree_step H s t" "case x of (i, w) \<Rightarrow> holds_record H s i w" for s t x
    using step_keeps_record [OF that(2)] that(3) by (cases x) auto
qed (auto simp: record_follows_refl intro: record_follows_trans)

lemma reject_passes:
  "raise_first (reject_extra_files name_in d) = None
   \<longleftrightarrow> (\<forall>p i. dict_get d p \<noteq> None \<and> name_in p = Some i \<longrightarrow> evidence_name i)"
  by (auto simp: reject_extra_files_def list_ex_iff dict_get_None_iff dict_keys_def split: option.splits) force


lemma reservation_id_safe: "reservation_valid r \<Longrightarrow> raise_first (wt_safe_id (SStr (wr_worktree_id r)) code ''WT-'') = None"
  using any_code by (simp add: reservation_valid_def reservation_guards_def reservation_values_def) metis

section \<open>Properties\<close>

text \<open>
  C3. Evidence of worktrees is never lost or rewritten.  Whatever operations and crashes follow, a
  reservation stays as it is, and a record stays or is followed by one of a later phase for the
  same worktree, path, branch, commit and dispatch, which keeps the times already set; a released
  record is final.
\<close>

theorem worktree_evidence_kept:
  assumes "(worktree_step H)\<^sup>*\<^sup>* [] d" and "(worktree_step H)\<^sup>*\<^sup>* d d'"
  shows "(holds_reservation H d i r \<longrightarrow> holds_reservation H d' i r)
    \<and> (holds_record H d i w \<longrightarrow> (\<exists>x. holds_record H d' i x \<and> record_follows w x \<and> (wc_phase w = RELEASED \<longrightarrow> x = w)))"
proof -
  note inv = worktree_reservations.steps_inv [OF assms(1) worktree_inv_empty]
  have "holds_reservation H d' i r" if "holds_reservation H d i r"
    using worktree_reservations.steps_track [OF assms(2) inv, of "(i, r)"] that by auto
  moreover have "\<exists>x. holds_record H d' i x \<and> record_follows w x" if "holds_record H d i w"
    using worktree_records.steps_track [OF assms(2) inv, of "(i, w)"] that by auto
  moreover have "x = w" if "record_follows w x" "wc_phase w = RELEASED" for x
    using that by (cases "wc_phase x") (auto simp: record_follows_def)
  ultimately show ?thesis by blast
qed


lemma write_once_repeats:
  assumes "write_once p b v decode e d = (Inr x, ws)" and "decode b = Inr v"
  shows "x = v \<and> (ws = [] \<and> dict_get d p = Some b \<or> ws = [(p, b)])
    \<and> write_once p b v decode e (commit ws d) = (Inr v, [])"
  using assms by (cases "dict_get d p") (auto simp: write_once_def commit_simps dict_get_set res_simps returning_def)

lemma one_write_names:
  assumes "raise_first (reject_extra_files f d) = None" and "\<And>i. f p = Some i \<Longrightarrow> evidence_name i"
  shows "raise_first (reject_extra_files f (dict_set p b d)) = None"
  unfolding reject_passes dict_get_set
proof (intro allI impI)
  fix q i assume "(if q = p then Some b else dict_get d q) \<noteq> None \<and> f q = Some i"
  with assms show "evidence_name i" unfolding reject_passes by (cases "q = p") simp_all
qed

lemma commit_one_names:
  assumes "raise_first (reject_extra_files f d) = None" and "ws = [] \<or> ws = [(p, b)]" and "\<And>i. f p = Some i \<Longrightarrow> evidence_name i"
  shows "raise_first (reject_extra_files f (commit ws d)) = None"
  using assms(2) one_write_names [OF assms(1,3)] assms(1) by (auto simp: commit_simps)

lemma reserve_repeats:
  assumes "hexdigest H" and "reserve H root q d = (Inr r, ws)"
  shows "reserve H root q (commit ws d) = (Inr r, [])"
proof -
  from assms(2) obtain s b where s: "make_reservation H q = Inr s" "encode_reservation H s = Inr b"
    and names: "raise_first (reject_extra_files in_reservations d) = None" "raise_first (reject_extra_files in_records d) = None"
    and once: "write_once (ReservationFile (wr_worktree_id s)) b s (decode_reservation H)
        (WorktreeLifecycleConflictError ''reservation_replay'') d = (Inr r, ws)"
    by (auto simp: reserve_def res_simps)
  from s(1) have "reservation_valid s" by (rule make_reservation_Inr)
  note again = write_once_repeats [OF once worktree_evidence_read(1) [OF this s(2)]]
  then have one: "ws = [] \<or> ws = [(ReservationFile (wr_worktree_id s), b)]" by blast
  from reserved_name [OF s(1) assms(1)]
  have "raise_first (reject_extra_files in_reservations (commit ws d)) = None" "raise_first (reject_extra_files in_records (commit ws d)) = None"
    using commit_one_names [OF names(1) one] commit_one_names [OF names(2) one] by (simp_all add: in_reservations_def in_records_def)
  with assms(2) s again show ?thesis by (auto simp: reserve_def res_simps)
qed

lemma read_reservation_commit:
  assumes "read_worktree_reservation H i d = Inr r"
  shows "read_worktree_reservation H i (dict_set (RecordFile j) b d) = Inr r"
proof -
  from assms have "raise_first (reject_extra_files in_reservations d) = None" by (simp add: read_worktree_reservation_def res_simps)
  then have "raise_first (reject_extra_files in_reservations (dict_set (RecordFile j) b d)) = None"
    by (rule one_write_names) (simp add: in_reservations_def)
  with assms show ?thesis by (simp add: read_worktree_reservation_def dict_get_set res_simps)
qed

lemma create_record_repeats:
  assumes "record_valid w" and "create_record H w d = (Inr x, ws)"
  shows "create_record H w (commit ws d) = (Inr x, [])"
proof -
  from assms(2) obtain b where b: "encode_record H w = Inr b"
    and once: "write_once (RecordFile (wc_worktree_id w)) b w (decode_record H)
        (WorktreeLifecycleConflictError ''record_replay'') d = (Inr x, ws)"
    by (auto simp: create_record_def res_simps)
  note again = write_once_repeats [OF once worktree_evidence_read(2) [OF assms(1) b]]
  then have "read_worktree_reservation H (wc_worktree_id w) d = Inr r \<Longrightarrow> read_worktree_reservation H (wc_worktree_id w) (commit ws d) = Inr r" for r
    by (auto simp: commit_simps read_reservation_commit)
  with assms(2) b again show ?thesis by (auto simp: create_record_def res_simps)
qed

lemma advance_record_repeats:
  assumes "advance_record H i expected target inventory time head d = (Inr w, ws)"
  shows "advance_record H i expected target inventory time head (commit ws d) = (Inr w, [])"
proof -
  from assms obtain b v where b: "dict_get d (RecordFile i) = Some b" "decode_record H b = Inr v"
    by (auto simp: advance_record_def res_simps split: option.split_asm)
  show ?thesis
  proof (cases "wc_phase v = target")
    case True
    with assms b show ?thesis by (auto simp: advance_record_def res_simps commit_simps)
  next
    case False
    with assms b obtain c where c: "with_record_digest H (advanced target inventory time head v) = Inr w" "encode_record H w = Inr c"
      and ws: "ws = [(RecordFile i, c)]" by (auto simp: advance_record_def res_simps)
    note sound = with_record_digest_Inr [OF c(1)]
    have "decode_record H c = Inr w" using sound c(2) by (blast intro: worktree_evidence_read)
    moreover have "wc_phase w = target" unfolding sound [THEN conjunct1] by (rule advanced_fields)
    ultimately show ?thesis using assms b ws by (auto simp: advance_record_def res_simps commit_simps dict_get_set)
  qed
qed

text \<open>
  Operations on worktree evidence can be repeated: when one has returned, the same operation
  on the store it left returns the same and writes nothing.
\<close>

theorem worktree_operations_repeat:
  assumes "hexdigest H" and "record_valid w"
  shows "(reserve H root q d = (Inr r, ws) \<longrightarrow> reserve H root q (commit ws d) = (Inr r, []))
    \<and> (create_record H w d = (Inr x, us) \<longrightarrow> create_record H w (commit us d) = (Inr x, []))
    \<and> (advance_record H i expected target inventory time head d = (Inr y, vs) \<longrightarrow>
        advance_record H i expected target inventory time head (commit vs d) = (Inr y, []))"
  using reserve_repeats [OF assms(1)] create_record_repeats [OF assms(2)] advance_record_repeats by blast

section \<open>The life cycle\<close>

definition identity_guards :: "WorktreeRecord \<Rightarrow> worktree_guard list" where
  "identity_guards w = 
    wt_schema (SStr (wc_schema_version w)) ''record_schema'' @
    wt_safe_id (SStr (wc_worktree_id w)) ''record_worktree_id'' ''WT-'' @
    wt_safe_id (SStr (wc_reservation_id w)) ''record_reservation_id'' ''WTR-'' @
    wt_path (SStr (wc_repository_common_dir w)) ''record_common_dir'' @
    wt_path (SStr (wc_repository_root w)) ''record_root'' @
    wt_path (SStr (wc_worktree_path w)) ''record_path'' @
    wt_branch (SStr (wc_branch w)) @
    wt_sha40 (SStr (wc_base_commit w)) ''record_base'' @
    wt_task (SStr (wc_task_id w)) ''record_task_id'' @
    wt_positive (SInt (wc_revision w)) ''record_revision'' None @
    wt_positive (SInt (wc_attempt w)) ''record_attempt'' (Some 3) @
    wt_safe_id (SStr (wc_dispatch_id w)) ''record_dispatch_id'' ''DSP-''"

abbreviation time_ok :: "string \<Rightarrow> bool" where
  "time_ok t \<equiv> raise_first (wt_timestamp (SStr t) ''operation_at'' False) = None"

abbreviation digest_ok :: "string \<Rightarrow> bool" where
  "digest_ok s \<equiv> raise_first (wt_digest (SStr s) ''advance_inventory_digest'') = None"

abbreviation commit_ok :: "string \<Rightarrow> bool" where
  "commit_ok s \<equiv> raise_first (wt_sha40 (SStr s) ''advance_head'') = None"

lemma record_valid_iff:
  "record_valid w \<longleftrightarrow> raise_first (identity_guards w) = None \<and> commit_ok (wc_head_commit w)
     \<and> (\<forall>t \<in> {wc_created_at w, wc_release_requested_at w, wc_released_at w}. \<forall>s. t = Some s \<longrightarrow> time_ok s)
     \<and> digest_ok (wc_inventory_digest w) \<and> digest_ok (wc_content_digest w)
     \<and> (wc_created_at w = None) = (phase_position (wc_phase w) < 2)
     \<and> (wc_release_requested_at w = None) = (phase_position (wc_phase w) < 3)
     \<and> (wc_released_at w = None) = (phase_position (wc_phase w) < 4)"
  by (auto simp: record_valid_def record_guards_def record_values_def identity_guards_def phase_time_def opt_scalar_def
      wt_timestamp_def wt_digest_def wt_sha40_def formatted_def split: option.splits)

lemma digest_hash: "hexdigest H \<Longrightarrow> digest_ok (flat_digest H names vs)"
  by (rule digest_format)

lemma identity_guards_same: "record_identity v = record_identity w \<Longrightarrow> wc_schema_version v = wc_schema_version w \<Longrightarrow> identity_guards v = identity_guards w"
  by (simp add: record_identity_def identity_guards_def)

lemma with_record_digest_total:
  assumes "hexdigest H" and "record_valid (w\<lparr>wc_content_digest := NO_DIGEST\<rparr>)"
  shows "\<exists>x. with_record_digest H w = Inr x"
proof -
  have "record_valid (w\<lparr>wc_content_digest := flat_digest H RECORD_FIELDS (record_values (w\<lparr>wc_content_digest := NO_DIGEST\<rparr>))\<rparr>)"
    using assms(2) digest_hash [OF assms(1)] by (simp add: record_valid_iff identity_guards_def)
  with assms(2) show ?thesis by (simp add: with_record_digest_def new_record_def record_valid_def)
qed

lemma advanced_total:
  assumes "hexdigest H" and "record_valid w" and "phase_position target = phase_position (wc_phase w) + 1"
    and "digest_ok inventory" and "time_ok time" and "\<And>h. head = Some h \<Longrightarrow> commit_ok h"
  shows "\<exists>x. with_record_digest H (advanced target inventory time head w) = Inr x"
proof (rule with_record_digest_total [OF assms(1)])
  let ?v = "(advanced target inventory time head w)\<lparr>wc_content_digest := NO_DIGEST\<rparr>"
  have other: "wc_schema_version ?v = wc_schema_version w" "wc_inventory_digest ?v = inventory" "wc_content_digest ?v = NO_DIGEST"
    "wc_head_commit ?v = (case head of None \<Rightarrow> wc_head_commit w | Some h \<Rightarrow> h)"
    by (simp_all add: advanced_def Let_def)
  have phases: "(target = READY) = (phase_position target = 2)" "(target = RELEASING) = (phase_position target = 3)"
    "(target = RELEASED) = (phase_position target = 4)" by (cases target; simp)+
  note old = assms(2) [unfolded record_valid_iff]
  have head: "commit_ok (wc_head_commit ?v)"
    unfolding other using old assms(6) by (cases head) simp_all
  show "record_valid ?v"
    unfolding record_valid_iff identity_guards_same [OF advanced_fields(1) other(1)] advanced_fields other(2,3) phases
    using old assms(3-5) head no_digest_format [of "''advance_inventory_digest''"] by auto
qed

text \<open>
  A record advances exactly to its next phase.  On a store that holds it, advancing to the phase
  it has returns it and writes nothing; from an expected phase that is not its own, or to a phase
  that is not the next, it is refused without a write; otherwise, with a digest, a time and a
  commit of the right form, it advances, keeps its identity and what it was recorded from, and its
  record is on the store.
\<close>

theorem advance_record_exact:
  assumes "hexdigest H" and "(worktree_step H)\<^sup>*\<^sup>* [] d" and "holds_record H d i w"
    and "raise_first (wt_digest (SStr inventory) ''advance_inventory_digest'') = None"
    and "raise_first (wt_timestamp (SStr time) ''operation_at'' False) = None"
    and "\<And>h. head = Some h \<Longrightarrow> raise_first (wt_sha40 (SStr h) ''advance_head'') = None"
  shows "if wc_phase w = target then advance_record H i expected target inventory time head d = (Inr w, [])
    else if wc_phase w \<noteq> expected \<or> phase_position target \<noteq> phase_position expected + 1
    then advance_record H i expected target inventory time head d = (Inl (WorktreeLifecycleTransitionError ''phase_transition''), [])
    else \<exists>x b. advance_record H i expected target inventory time head d = (Inr x, [(RecordFile i, b)])
      \<and> wc_phase x = target \<and> wc_inventory_digest x = inventory \<and> record_follows w x
      \<and> holds_record H (commit [(RecordFile i, b)] d) i x"
proof -
  from assms(3) obtain b where b: "dict_get d (RecordFile i) = Some b" "decode_record H b = Inr w"
    by (auto simp: holds_record_def)
  have inv: "worktree_inv H d" by (rule worktree_reservations.steps_inv [OF assms(2) worktree_inv_empty])
  with b(1) obtain r where r: "holds_reservation H d i r" unfolding worktree_inv_def by blast
  with worktree_evidence_decoded(1) have "reservation_valid r" unfolding holds_reservation_def by blast
  from reservation_id_safe [OF this] inv_reservation [OF inv r]
  have safe: "raise_first (wt_safe_id (SStr i) code ''WT-'') = None" for code by simp
  from worktree_evidence_decoded(2) [OF b(2)] have valid: "record_valid w" by blast
  have start: "advance_record H i expected target inventory time head d =
      (if wc_phase w = target then (Inr w, [])
       else if wc_phase w \<noteq> expected \<or> phase_position target \<noteq> phase_position expected + 1
       then (Inl (WorktreeLifecycleTransitionError ''phase_transition''), [])
       else reading (with_record_digest H (advanced target inventory time head w)) (\<lambda>x.
         storing (RecordFile i) (encode_record H x) (returning x)))"
    using assms(4-6) safe b by (auto simp: advance_record_def evidence_path_def returning_def split: option.split)
  have goes: "\<exists>x b. advance_record H i expected target inventory time head d = (Inr x, [(RecordFile i, b)])
      \<and> wc_phase x = target \<and> wc_inventory_digest x = inventory \<and> record_follows w x
      \<and> holds_record H (commit [(RecordFile i, b)] d) i x"
    if "wc_phase w \<noteq> target" "wc_phase w = expected" "phase_position target = phase_position expected + 1"
  proof -
    from that have next_phase: "phase_position target = phase_position (wc_phase w) + 1" by simp
    obtain x where x: "with_record_digest H (advanced target inventory time head w) = Inr x"
      using advanced_total [OF assms(1) valid next_phase assms(4,5,6)] by blast
    note sound = with_record_digest_Inr [OF x]
    have "wc_phase x = target" "wc_inventory_digest x = inventory" "record_follows w x"
      using advanced_follows [OF valid next_phase] advanced_fields(2) unfolding sound [THEN conjunct1]
      by (simp_all add: advanced_def Let_def)
    moreover have "decode_record H (flat_text RECORD_FIELDS (record_values x)) = Inr x"
      using sound by (blast intro: worktree_evidence_read)
    moreover have "advance_record H i expected target inventory time head d
        = (Inr x, [(RecordFile i, flat_text RECORD_FIELDS (record_values x))])"
      using that by (simp add: start x returning_def sound [THEN conjunct2, THEN conjunct2])
    ultimately show ?thesis by (simp add: holds_record_def commit_simps dict_get_set)
  qed
  show ?thesis using goes by (simp add: start)
qed

section \<open>Witnesses\<close>

lemma make_record_creating:
  assumes "hexdigest H" and "reservation_valid r" and "digest_ok inventory"
  shows "\<exists>w. make_record H r CREATING inventory None None None None = Inr w \<and> record_valid w \<and> \<not> record_divergent r (Some w)
    \<and> wc_worktree_id w = wr_worktree_id r \<and> wc_phase w = CREATING
    \<and> encode_record H w = Inr (flat_text RECORD_FIELDS (record_values w))"
proof -
  let ?w = "\<lparr>wc_schema_version = WORKTREE_SCHEMA, wc_worktree_id = wr_worktree_id r, wc_reservation_id = wr_reservation_id r,
      wc_repository_common_dir = wr_repository_common_dir r, wc_repository_root = wr_repository_root r,
      wc_worktree_path = wr_worktree_path r, wc_branch = wr_branch r, wc_base_commit = wr_base_commit r,
      wc_head_commit = wr_base_commit r, wc_task_id = wr_task_id r,
      wc_revision = wr_revision r, wc_attempt = wr_attempt r, wc_dispatch_id = wr_dispatch_id r, wc_phase = CREATING,
      wc_created_at = None, wc_release_requested_at = None, wc_released_at = None,
      wc_inventory_digest = inventory, wc_content_digest = NO_DIGEST\<rparr>"
  note g = assms(2) [unfolded reservation_valid_def reservation_guards_def reservation_values_def]
  from g have a: "raise_first (wt_safe_id (SStr (wr_reservation_id r)) ''reservation_id'' ''WTR-'') = None"
    "raise_first (wt_safe_id (SStr (wr_worktree_id r)) ''worktree_id'' ''WT-'') = None"
    "raise_first (wt_path (SStr (wr_repository_common_dir r)) ''repository_common_dir'') = None"
    "raise_first (wt_path (SStr (wr_repository_root r)) ''repository_root'') = None"
    "raise_first (wt_path (SStr (wr_worktree_path r)) ''worktree_path'') = None"
    "raise_first (wt_branch (SStr (wr_branch r))) = None" "raise_first (wt_sha40 (SStr (wr_base_commit r)) ''base_commit'') = None"
    "raise_first (wt_task (SStr (wr_task_id r)) ''task_id'') = None"
    "raise_first (wt_positive (SInt (wr_revision r)) ''revision'' None) = None"
    "raise_first (wt_positive (SInt (wr_attempt r)) ''attempt'' (Some 3)) = None"
    "raise_first (wt_safe_id (SStr (wr_dispatch_id r)) ''dispatch_id'' ''DSP-'') = None" by simp_all
  note b = any_code(2) [OF a(1)] any_code(2) [OF a(2)] any_code(3) [OF a(3)] any_code(3) [OF a(4)] any_code(3) [OF a(5)] a(6)
    any_code(4) [OF a(7)] any_code(6) [OF a(8)] any_code(7) [OF a(9)] any_code(7) [OF a(10)] any_code(2) [OF a(11)]
  have "record_valid (?w\<lparr>wc_content_digest := NO_DIGEST\<rparr>)"
    unfolding record_valid_iff using assms(3) no_digest_format
    by (simp add: identity_guards_def b wt_schema_def del: append_Cons append.simps)
  from with_record_digest_total [OF assms(1) this] obtain w where w: "with_record_digest H ?w = Inr w" by auto
  from w have "make_record H r CREATING inventory None None None None = Inr w" by (simp add: make_record_def)
  with with_record_digest_Inr [OF w] show ?thesis by (auto simp: record_divergent_def)
qed

text \<open>What reserving a worktree and recording its creation write.\<close>

lemma sample_reserving:
  obtains q r b w c where "wq_action q = CREATE" "wq_repository_root q = ''/srv/r''" "wq_repository_common_dir q = ''/srv/r/.git''"
    "validate_request_identity sample_hash q = Inr ()" "wq_expected_worktree_id q = wr_worktree_id r" "wr_worktree_path r = wq_worktree_path q"
    "reservation_valid r"
    "reserve sample_hash ''/srv/r'' q [] = (Inr r, [(ReservationFile (wr_worktree_id r), b)])"
    "read_record sample_hash (wr_worktree_id r) True [(ReservationFile (wr_worktree_id r), b)] = Inr None"
    "make_record sample_hash r CREATING (inventory_digest sample_hash [main_entry]) None None None None = Inr w"
    "create_record sample_hash w [(ReservationFile (wr_worktree_id r), b)] = (Inr w, [(RecordFile (wr_worktree_id r), c)])"
    "\<not> record_divergent r (Some w)" "wc_phase w = CREATING" "decode_record sample_hash c = Inr w"
    "decode_reservation sample_hash b = Inr r" "record_valid w"
proof (rule reservation_exists [OF sample_hash_hexdigest sample_request_ok sample_branch])
  fix i p and r :: WorktreeReservation
  let ?q = "sample_request\<lparr>wq_expected_worktree_id := i, wq_worktree_path := p\<rparr>" and ?j = "wr_worktree_id r"
  assume r: "make_reservation sample_hash ?q = Inr r"
  have valid: "reservation_valid r" and encoded: "encode_reservation sample_hash r = Inr (flat_text RESERVATION_FIELDS (reservation_values r))"
    by (rule make_reservation_Inr [OF r]; assumption)+
  let ?d = "[(ReservationFile ?j, flat_text RESERVATION_FIELDS (reservation_values r))]"
  have path: "raise_first (evidence_path ?j) = None" using reservation_id_safe [OF valid] by (simp add: evidence_path_def)
  have identity: "validate_request_identity sample_hash ?q = Inr ()" using r by (simp add: make_reservation_def res_simps)
  have same: "wr_worktree_id r = i \<and> wr_worktree_path r = p"
    using r by (auto simp: make_reservation_def res_simps dest!: with_reservation_digest_Inr)
  have request: "wq_action ?q = CREATE" "wq_repository_root ?q = ''/srv/r''" "wq_repository_common_dir ?q = ''/srv/r/.git''"
    by (simp_all add: sample_request_def)
  have "raise_first (reject_extra_files f []) = None" for f by (simp add: reject_passes)
  then have reserved: "reserve sample_hash ''/srv/r'' ?q [] = (Inr r, ?d)"
    unfolding reserve_def identity request r reading_Inr encoded by (simp add: path write_once_def returning_def)
  have names: "raise_first (reject_extra_files in_reservations ?d) = None" "raise_first (reject_extra_files in_records ?d) = None"
    using reserved_name [OF r sample_hash_hexdigest]
    by (auto simp: reject_passes dict_get_Cons in_reservations_def in_records_def split: if_split_asm)
  have none: "read_record sample_hash ?j True ?d = Inr None"
    using names path by (simp add: read_record_def dict_get_Cons)
  have digest: "digest_ok (inventory_digest sample_hash [main_entry])"
    using sample_hash_hexdigest by (simp add: inventory_digest_def wt_digest_def formatted_def SHA256_RE_def hexdigest_def)
  obtain w where w: "record_valid w" "\<not> record_divergent r (Some w)" "wc_worktree_id w = ?j" "wc_phase w = CREATING"
    and made: "make_record sample_hash r CREATING (inventory_digest sample_hash [main_entry]) None None None None = Inr w"
    and record_text: "encode_record sample_hash w = Inr (flat_text RECORD_FIELDS (record_values w))"
    using make_record_creating [OF sample_hash_hexdigest valid digest] by blast
  have "holds_reservation sample_hash ?d ?j r"
    using worktree_evidence_read(1) [OF valid encoded] by (simp add: holds_reservation_def dict_get_Cons)
  then have "read_worktree_reservation sample_hash ?j ?d = Inr r"
    using names path by (auto simp: read_worktree_reservation_def holds_reservation_def res_simps)
  then have created: "create_record sample_hash w ?d = (Inr w, [(RecordFile ?j, flat_text RECORD_FIELDS (record_values w))])"
    using w path record_text by (simp add: create_record_def record_divergent_def write_once_def dict_get_Cons returning_def)
  show ?thesis
    by (rule that [of ?q r "flat_text RESERVATION_FIELDS (reservation_values r)" w "flat_text RECORD_FIELDS (record_values w)"])
      (use request identity same valid reserved none made created w worktree_evidence_read(1) [OF valid encoded]
        worktree_evidence_read(2) [OF w(1) record_text] in simp_all)
qed

text \<open>A run that reserves a worktree and records its creation.\<close>

lemma sample_run:
  "\<exists>d i r w. (worktree_step sample_hash)\<^sup>*\<^sup>* [] d \<and> holds_reservation sample_hash d i r \<and> holds_record sample_hash d i w
     \<and> wc_phase w = CREATING \<and> record_valid w"
proof (rule sample_reserving)
  fix q and r :: WorktreeReservation and b :: string and w and c :: string
  let ?j = "wr_worktree_id r"
  let ?d = "[(ReservationFile ?j, b)]"
  assume reserved: "reserve sample_hash ''/srv/r'' q [] = (Inr r, ?d)"
    and created: "create_record sample_hash w ?d = (Inr w, [(RecordFile ?j, c)])"
    and w: "wc_phase w = CREATING" "decode_record sample_hash c = Inr w" "record_valid w" and r: "decode_reservation sample_hash b = Inr r"
  have "commit (worktree_writes sample_hash (Reserve ''/srv/r'' q) []) [] = ?d"
    using reserved by (simp add: worktree_writes_def commit_simps dict_set_def)
  then have one: "worktree_step sample_hash [] ?d"
    using crash_step_whole [of worktree_legal "Reserve ''/srv/r'' q"] by (metis worktree_legal_def worktree_op.case(1))
  have two: "worktree_step sample_hash ?d (commit [(RecordFile ?j, c)] ?d)"
    using crash_step_whole [of worktree_legal "CreateRecord w" "worktree_writes sample_hash" ?d] w(3) created
    by (simp add: worktree_legal_def worktree_writes_def)
  have "holds_reservation sample_hash ?d ?j r" using r by (simp add: holds_reservation_def dict_get_Cons)
  moreover have "holds_record sample_hash (commit [(RecordFile ?j, c)] ?d) ?j w"
    using w(2) by (simp add: holds_record_def commit_simps dict_get_set)
  ultimately show ?thesis
    using step_keeps_reservation [OF two] one two w by (meson converse_rtranclp_into_rtranclp r_into_rtranclp)
qed

theorem worktree_evidence_kept_witness:
  "\<exists>d i w. (worktree_step sample_hash)\<^sup>*\<^sup>* [] d \<and> wc_phase w = CREATING \<and> (\<exists>x. holds_record sample_hash d i x \<and> record_follows w x)"
proof -
  obtain d i w where d: "(worktree_step sample_hash)\<^sup>*\<^sup>* [] d" "holds_record sample_hash d i w" "wc_phase w = CREATING"
    using sample_run by blast
  from worktree_evidence_kept [OF d(1) rtranclp.rtrancl_refl, of i _ w] d show ?thesis by blast
qed


theorem worktree_operations_repeat_witness:
  "\<exists>w. record_valid w \<and> fst (create_record sample_hash w []) = Inl (WorktreeLifecycleNotFoundError ''evidence_missing'')
     \<and> (\<forall>q r ws. reserve sample_hash ''/srv/r'' q [] = (Inr r, ws) \<longrightarrow> reserve sample_hash ''/srv/r'' q (commit ws []) = (Inr r, []))"
proof -
  obtain w where w: "record_valid w" "wc_phase w = CREATING" using sample_run by blast
  have "raise_first (reject_extra_files f []) = None" for f by (simp add: reject_passes)
  moreover from w have "raise_first (evidence_path (wc_worktree_id w)) = None"
    using any_code(2) [of "SStr (wc_worktree_id w)" "''record_worktree_id''" "''WT-''"]
    by (simp add: record_valid_iff identity_guards_def evidence_path_def)
  ultimately have "fst (create_record sample_hash w []) = Inl (WorktreeLifecycleNotFoundError ''evidence_missing'')"
    by (simp add: create_record_def read_worktree_reservation_def w(2))
  with worktree_operations_repeat [OF sample_hash_hexdigest w(1)] w(1) show ?thesis by blast
qed

theorem advance_record_exact_witness:
  "\<exists>d i w x b. (worktree_step sample_hash)\<^sup>*\<^sup>* [] d \<and> holds_record sample_hash d i w \<and> wc_phase w = CREATING
     \<and> advance_record sample_hash i CREATING READY NO_DIGEST ''2026-01-01T00:00:00.000000Z'' None d = (Inr x, [(RecordFile i, b)])
     \<and> wc_phase x = READY"
proof -
  obtain d i w where d: "(worktree_step sample_hash)\<^sup>*\<^sup>* [] d" "holds_record sample_hash d i w" "wc_phase w = CREATING"
    using sample_run by blast
  have "raise_first (wt_timestamp (SStr ''2026-01-01T00:00:00.000000Z'') ''operation_at'' False) = None" by code_simp
  from advance_record_exact [OF sample_hash_hexdigest d(1,2) no_digest_format this, of None READY CREATING] d(3)
  obtain x b where "advance_record sample_hash i CREATING READY NO_DIGEST ''2026-01-01T00:00:00.000000Z'' None d = (Inr x, [(RecordFile i, b)])"
    "wc_phase x = READY" by auto
  with d show ?thesis by blast
qed


end
