(* ===== verification/Flat_Json.thy ===== *)
theory Flat_Json
  imports Json
begin

text \<open>
  Evidence kept as a JSON object of scalars, one member per line: the text that
  \<open>json.dumps\<close> with \<open>indent=2\<close> and \<open>sort_keys=True\<close> makes of it, and records
  read from any JSON object with exactly their fields.  A member given twice counts once, with
  its last value, as in a Python dict.
\<close>

section \<open>Indented objects\<close>

definition indented_member :: "string \<times> json \<Rightarrow> string" where
  "indented_member p = json_quote (fst p) @ '': '' @ dumps (snd p)"

fun indented_members :: "(string \<times> json) list \<Rightarrow> string" where
  "indented_members [] = [CHR 0x7D]"
| "indented_members [p] = indented_member p @ [CHR 0x0A, CHR 0x7D]"
| "indented_members (p # ps) = indented_member p @ [CHR '','', CHR 0x0A] @ ''  '' @ indented_members ps"

definition indented_object :: "(string \<times> json) list \<Rightarrow> string" where
  "indented_object ps = (if ps = [] then [CHR 0x7B] else CHR 0x7B # CHR 0x0A # ''  '') @ indented_members ps"

lemma skip_layout [simp]: "skip (CHR 0x0A # s) = skip s" "skip (CHR '' '' # s) = skip s" "skip (CHR 0x7B # s) = CHR 0x7B # s"
  by (simp_all add: skip_def json_space_def)

lemma ends_number_newline [simp]: "ends_number (CHR 0x0A # s)"
  by (simp add: ends_number_def is_digit_def)

lemma indented_first: "ps \<noteq> [] \<Longrightarrow> \<exists>t. indented_members ps = CHR 0x22 # t"
  by (induction ps rule: indented_members.induct) (auto simp: indented_member_def json_quote_def)

lemma reads_indented:
  assumes "\<forall>p \<in> set ps. json_ok (snd p)" and "ps \<noteq> []" and "2 * length (indented_members ps) + 1 \<le> n"
  shows "json_members n (indented_members ps @ rest) = Some (ps, rest)"
  using assms
proof (induction ps arbitrary: n rule: indented_members.induct)
  case (2 p)
  obtain k v where p: "p = (k, v)" by (cases p)
  from 2 obtain m where n: "n = Suc m" by (cases n) auto
  have "json_value m (dumps v @ r) = Some (v, r)" if "ends_number r" for r
    using 2 that reads_dumps [of v] by (auto simp: p n reads_value_def indented_member_def)
  moreover have "skip (dumps v @ r) = dumps v @ r" for r using 2 by (simp add: p skip_dumps)
  ultimately show ?case by (simp add: p n indented_member_def json_quote_def)
next
  case (3 p q ps)
  obtain k v where p: "p = (k, v)" by (cases p)
  from 3(4) obtain m where n: "n = Suc m" by (cases n) auto
  have "json_value m (dumps v @ r) = Some (v, r)" if "ends_number r" for r
    using 3 that reads_dumps [of v] by (auto simp: p n reads_value_def indented_member_def)
  moreover have "skip (dumps v @ r) = dumps v @ r" for r using 3 by (simp add: p skip_dumps)
  moreover obtain t where t: "indented_members (q # ps) = CHR 0x22 # t" using indented_first [of "q # ps"] by auto
  moreover have "json_members m (indented_members (q # ps) @ rest) = Some (q # ps, rest)"
    by (rule 3(1)) (use 3 in \<open>simp_all add: n\<close>)
  ultimately show ?case by (simp add: p n indented_member_def json_quote_def del: json_members.simps(2) json_value.simps)
      (simp add: json_members.simps(2))
qed simp

lemma loads_indented:
  assumes "\<forall>p \<in> set ps. json_ok (snd p)" and "ps \<noteq> []" and "list_all json_space ws"
  shows "loads (indented_object ps @ ws) = Some (JObj ps)"
proof -
  obtain t where t: "indented_members ps = CHR 0x22 # t" using indented_first [OF assms(2)] by auto
  let ?s = "indented_object ps @ ws"
  have "json_members (2 * length ?s + 1) (indented_members ps @ ws) = Some (ps, ws)"
    by (rule reads_indented [OF assms(1,2)]) (simp add: indented_object_def)
  then show ?thesis
    using assms(2) skip_spaces [OF assms(3)]
    by (simp add: loads_def indented_object_def t del: json_members.simps)
qed

section \<open>Records as objects\<close>

text \<open>The value a member has in the dict that \<open>json.loads\<close> makes: the last one given.\<close>

definition member_value :: "(string \<times> json) list \<Rightarrow> string \<Rightarrow> json" where
  "member_value ps k = (case map_of (rev ps) k of None \<Rightarrow> JNull | Some v \<Rightarrow> v)"

definition json_text :: "string list \<Rightarrow> json list \<Rightarrow> string" where
  "json_text names vs = indented_object (sort_key fst (zip names vs)) @ [CHR 0x0A]"

definition from_dict :: "'e \<Rightarrow> 'e \<Rightarrow> (json list \<Rightarrow> 'e + 'r) \<Rightarrow> string list \<Rightarrow> json \<Rightarrow> 'e + 'r" where
  "from_dict not_dict mismatch construct names j = (case j of
      JObj ps \<Rightarrow> guarded [(set (map fst ps) \<noteq> set names, mismatch)] (construct (map (member_value ps) names))
    | _ \<Rightarrow> Inl not_dict)"

definition json_decode ::
  "'e \<Rightarrow> 'e \<Rightarrow> 'e \<Rightarrow> (json list \<Rightarrow> 'e + 'r) \<Rightarrow> string list \<Rightarrow> string \<Rightarrow> 'e + 'r"
where
  "json_decode not_json not_dict mismatch construct names b = (case loads b of
      None \<Rightarrow> Inl not_json
    | Some j \<Rightarrow> from_dict not_dict mismatch construct names j)"

text \<open>A record type with its fields, the guards of its constructor and the record they make.\<close>

definition construct_with :: "(json list \<Rightarrow> (bool \<times> 'e) list) \<Rightarrow> (json list \<Rightarrow> 'r) \<Rightarrow> json list \<Rightarrow> 'e + 'r" where
  "construct_with guards of_values vs = guarded (guards vs) (Inr (of_values vs))"

lemma member_value_sorted:
  assumes "distinct names" and "length vs = length names" and "(k, v) \<in> set (zip names vs)"
  shows "member_value (sort_key fst (zip names vs)) k = v"
proof -
  have "distinct (map fst (zip names vs))" using assms(1,2) by simp
  then have "distinct (map fst (rev (sort_key fst (zip names vs))))"
    unfolding rev_map [symmetric] distinct_rev by (simp add: distinct_map del: map_fst_zip)
  from map_of_is_SomeI [OF this, of k v] assms(3) show ?thesis by (simp add: member_value_def)
qed

lemma member_values_sorted:
  assumes "distinct names" and "length vs = length names"
  shows "map (member_value (sort_key fst (zip names vs))) names = vs"
  by (rule nth_equalityI) (use assms in \<open>auto intro!: member_value_sorted simp: set_zip\<close>)

locale json_evidence =
  fixes names :: "string list"
    and values_of :: "'r \<Rightarrow> json list"
    and guards :: "json list \<Rightarrow> (bool \<times> 'e) list"
    and of_values :: "json list \<Rightarrow> 'r"
  assumes names_distinct: "distinct names" and names_nonempty: "names \<noteq> []"
    and values_length: "length (values_of r) = length names"
    and values_ok: "list_all json_ok (values_of r)"
    and of_values_of: "of_values (values_of r) = r"
    and values_of_of: "length vs = length names \<Longrightarrow> raise_first (guards vs) = None \<Longrightarrow> values_of (of_values vs) = vs"
begin

lemma decode_text:
  assumes "raise_first (guards (values_of r)) = None"
  shows "json_decode not_json not_dict mismatch (construct_with guards of_values) names (json_text names (values_of r)) = Inr r"
proof -
  let ?ps = "sort_key fst (zip names (values_of r))"
  have "\<forall>p \<in> set ?ps. json_ok (snd p)" using values_ok [of r] by (auto simp: list_all_iff dest: set_zip_rightD)
  moreover have "?ps \<noteq> []" using names_nonempty values_length [of r] by (cases names; cases "values_of r") auto
  moreover have "list_all json_space [CHR 0x0A]" by (simp add: json_space_def)
  ultimately have "loads (json_text names (values_of r)) = Some (JObj ?ps)" unfolding json_text_def by (rule loads_indented)
  moreover have "set (map fst ?ps) = set names" using map_fst_zip [OF values_length [of r, symmetric]] by (metis set_map set_sort)
  ultimately show ?thesis
    using assms member_values_sorted [OF names_distinct values_length]
    by (simp add: json_decode_def from_dict_def construct_with_def of_values_of)
qed

lemma decode_valid:
  assumes "json_decode not_json not_dict mismatch (construct_with guards of_values) names b = Inr r"
  shows "raise_first (guards (values_of r)) = None"
proof -
  from assms obtain ps where "raise_first (guards (map (member_value ps) names)) = None" "r = of_values (map (member_value ps) names)"
    by (auto simp: json_decode_def from_dict_def construct_with_def res_simps split: option.split_asm json.split_asm)
  with values_of_of [of "map (member_value ps) names"] show ?thesis by simp
qed

lemma text_inject:
  assumes "raise_first (guards (values_of r)) = None" and "raise_first (guards (values_of s)) = None"
    and "json_text names (values_of r) = json_text names (values_of s)"
  shows "r = s"
proof -
  have "(Inr r :: 'e + 'r) = Inr s"
    using decode_text [OF assms(1), where not_json = e and not_dict = e and mismatch = e for e]
      decode_text [OF assms(2), where not_json = e and not_dict = e and mismatch = e for e]
    unfolding assms(3) by (rule trans [OF sym])
  then show ?thesis by simp
qed

end

end
