(* ===== verification/Dispatch_Evidence.thy ===== *)
theory Dispatch_Evidence
  imports Flat_Json Worktree_Evidence
begin

text \<open>
  Evidence of the dispatch supervisor (\<open>dispatch_supervisor_evidence.py\<close>): receipts of dispatched
  processes, tombstones of finished dispatches and receipts of retries after an owner was lost,
  with the checks of their constructors and the JSON documents that keep them.
\<close>

section \<open>Phases and errors\<close>

datatype evidence_error =
    DispatchSupervisorValidationError string
  | DispatchSupervisorPhaseError string
  | DispatchSupervisorFencingError string
  | PythonTypeError

type_synonym evidence_guard = "bool \<times> evidence_error"

definition EVIDENCE_SCHEMA_VERSION :: string where
  "EVIDENCE_SCHEMA_VERSION = ''agentdesk.dispatch-supervisor-evidence/v1''"

definition RETRY_RECEIPT_SCHEMA_VERSION :: string where
  "RETRY_RECEIPT_SCHEMA_VERSION = ''agentdesk.owner-loss-retry-receipt/v1''"

datatype DispatchReceiptPhase = RESERVED | SUPERVISOR_READY | WORKER_STARTED | FINALIZING | FINALIZED

fun DispatchReceiptPhase_value :: "DispatchReceiptPhase \<Rightarrow> string" where
  "DispatchReceiptPhase_value RESERVED = ''RESERVED''"
| "DispatchReceiptPhase_value SUPERVISOR_READY = ''SUPERVISOR_READY''"
| "DispatchReceiptPhase_value WORKER_STARTED = ''WORKER_STARTED''"
| "DispatchReceiptPhase_value FINALIZING = ''FINALIZING''"
| "DispatchReceiptPhase_value FINALIZED = ''FINALIZED''"

definition process_receipt_phases :: "DispatchReceiptPhase list" where
  "process_receipt_phases = [RESERVED, SUPERVISOR_READY, WORKER_STARTED, FINALIZING, FINALIZED]"

fun receipt_position :: "DispatchReceiptPhase \<Rightarrow> nat" where
  "receipt_position RESERVED = 0"
| "receipt_position SUPERVISOR_READY = 1"
| "receipt_position WORKER_STARTED = 2"
| "receipt_position FINALIZING = 3"
| "receipt_position FINALIZED = 4"

fun ALLOWED_TRANSITIONS :: "DispatchReceiptPhase \<Rightarrow> DispatchReceiptPhase option" where
  "ALLOWED_TRANSITIONS RESERVED = Some SUPERVISOR_READY"
| "ALLOWED_TRANSITIONS SUPERVISOR_READY = Some WORKER_STARTED"
| "ALLOWED_TRANSITIONS WORKER_STARTED = Some FINALIZING"
| "ALLOWED_TRANSITIONS FINALIZING = Some FINALIZED"
| "ALLOWED_TRANSITIONS FINALIZED = None"

datatype OwnerLossRetryPhase =
    RECOVERY_TRANSITION_PENDING | RECOVERY_TRANSITION_COMMITTED | RETRY_RESERVED | RETRY_STARTED
  | RETRY_FINALIZING | RETRY_FINALIZED

fun OwnerLossRetryPhase_value :: "OwnerLossRetryPhase \<Rightarrow> string" where
  "OwnerLossRetryPhase_value RECOVERY_TRANSITION_PENDING = ''RECOVERY_TRANSITION_PENDING''"
| "OwnerLossRetryPhase_value RECOVERY_TRANSITION_COMMITTED = ''RECOVERY_TRANSITION_COMMITTED''"
| "OwnerLossRetryPhase_value RETRY_RESERVED = ''RETRY_RESERVED''"
| "OwnerLossRetryPhase_value RETRY_STARTED = ''RETRY_STARTED''"
| "OwnerLossRetryPhase_value RETRY_FINALIZING = ''RETRY_FINALIZING''"
| "OwnerLossRetryPhase_value RETRY_FINALIZED = ''RETRY_FINALIZED''"

definition retry_phases :: "OwnerLossRetryPhase list" where
  "retry_phases = [RECOVERY_TRANSITION_PENDING, RECOVERY_TRANSITION_COMMITTED, RETRY_RESERVED, RETRY_STARTED,
     RETRY_FINALIZING, RETRY_FINALIZED]"

fun retry_position :: "OwnerLossRetryPhase \<Rightarrow> nat" where
  "retry_position RECOVERY_TRANSITION_PENDING = 0"
| "retry_position RECOVERY_TRANSITION_COMMITTED = 1"
| "retry_position RETRY_RESERVED = 2"
| "retry_position RETRY_STARTED = 3"
| "retry_position RETRY_FINALIZING = 4"
| "retry_position RETRY_FINALIZED = 5"

fun RETRY_ALLOWED_TRANSITIONS :: "OwnerLossRetryPhase \<Rightarrow> OwnerLossRetryPhase option" where
  "RETRY_ALLOWED_TRANSITIONS RECOVERY_TRANSITION_PENDING = Some RECOVERY_TRANSITION_COMMITTED"
| "RETRY_ALLOWED_TRANSITIONS RECOVERY_TRANSITION_COMMITTED = Some RETRY_RESERVED"
| "RETRY_ALLOWED_TRANSITIONS RETRY_RESERVED = Some RETRY_STARTED"
| "RETRY_ALLOWED_TRANSITIONS RETRY_STARTED = Some RETRY_FINALIZING"
| "RETRY_ALLOWED_TRANSITIONS RETRY_FINALIZING = Some RETRY_FINALIZED"
| "RETRY_ALLOWED_TRANSITIONS RETRY_FINALIZED = None"

section \<open>Values\<close>

definition is_str :: "json \<Rightarrow> bool" where
  "is_str v = (case v of JStr _ \<Rightarrow> True | _ \<Rightarrow> False)"

definition is_int :: "json \<Rightarrow> bool" where
  "is_int v = (case v of JInt _ \<Rightarrow> True | _ \<Rightarrow> False)"

definition is_bool :: "json \<Rightarrow> bool" where
  "is_bool v = (case v of JBool _ \<Rightarrow> True | _ \<Rightarrow> False)"

definition str_in :: "json \<Rightarrow> string" where
  "str_in v = (case v of JStr s \<Rightarrow> s | _ \<Rightarrow> [])"

definition int_in :: "json \<Rightarrow> int" where
  "int_in v = (case v of JInt i \<Rightarrow> i | _ \<Rightarrow> 0)"

definition bool_in :: "json \<Rightarrow> bool" where
  "bool_in v \<longleftrightarrow> v = JBool True"

definition opt_str_in :: "json \<Rightarrow> string option" where
  "opt_str_in v = (case v of JStr s \<Rightarrow> Some s | _ \<Rightarrow> None)"

definition opt_int_in :: "json \<Rightarrow> int option" where
  "opt_int_in v = (case v of JInt i \<Rightarrow> Some i | _ \<Rightarrow> None)"

definition json_opt_str :: "string option \<Rightarrow> json" where
  "json_opt_str t = (case t of None \<Rightarrow> JNull | Some s \<Rightarrow> JStr s)"

definition json_opt_int :: "int option \<Rightarrow> json" where
  "json_opt_int t = (case t of None \<Rightarrow> JNull | Some i \<Rightarrow> JInt i)"

definition receipt_phase_in :: "json \<Rightarrow> DispatchReceiptPhase option" where
  "receipt_phase_in v = find (\<lambda>p. v = JStr (DispatchReceiptPhase_value p)) process_receipt_phases"

definition retry_phase_in :: "json \<Rightarrow> OwnerLossRetryPhase option" where
  "retry_phase_in v = find (\<lambda>p. v = JStr (OwnerLossRetryPhase_value p)) retry_phases"

section \<open>Checks\<close>

text \<open>\<open>^\d{4}-\d{2}-\d{2}T\d{2}:\d{2}:\d{2}(?:\.\d+)?(?:Z|[+-]\d{2}:\d{2})$\<close>\<close>

definition RFC3339_RE :: "string \<Rightarrow> bool" where
  "RFC3339_RE s \<longleftrightarrow> fits_template ''dddd-dd-ddTdd:dd:dd'' (take 19 s) \<and>
     (let rest = drop 19 s;
          zone = (case rest of
              c # ds \<Rightarrow> if c = CHR ''.'' \<and> takeWhile is_digit ds \<noteq> [] then dropWhile is_digit ds else rest
            | [] \<Rightarrow> rest)
      in zone = ''Z'' \<or> fits_template ''+dd:dd'' zone \<or> fits_template ''-dd:dd'' zone)"

definition DISPATCH_ID_RE :: "string \<Rightarrow> bool" where
  "DISPATCH_ID_RE s \<longleftrightarrow> SAFE_ID_RE s \<and> length s \<le> 128"

definition EVENT_ID_RE :: "string \<Rightarrow> bool" where
  "EVENT_ID_RE s \<longleftrightarrow> starts_with ''EVT-'' s \<and> length s > 4 \<and> CHR 0x0A \<notin> set (drop 4 s)"

definition ev_schema :: "json \<Rightarrow> string \<Rightarrow> evidence_guard list" where
  "ev_schema v expected = [(v \<noteq> JStr expected, DispatchSupervisorValidationError (''schema_version must be '' @ expected))]"

text \<open>The pattern is applied before the type is looked at.\<close>

definition ev_task :: "json \<Rightarrow> evidence_guard list" where
  "ev_task v =
    [(\<not> is_str v, PythonTypeError),
     (\<not> TASK_RE (str_in v), DispatchSupervisorValidationError ''task_id must match TC-NNN'')]"

definition ev_positive :: "json \<Rightarrow> string \<Rightarrow> evidence_guard list" where
  "ev_positive v name =
    [(\<not> is_int v, DispatchSupervisorValidationError (name @ '' must be a non-bool int'')),
     (int_in v < 1, DispatchSupervisorValidationError (name @ '' must be >= 1''))]"

definition ev_text :: "json \<Rightarrow> string \<Rightarrow> evidence_guard list" where
  "ev_text v message = [(\<not> is_str v \<or> str_in v = [], DispatchSupervisorValidationError message)]"

definition one_line :: "string \<Rightarrow> bool" where
  "one_line s \<longleftrightarrow> \<not> has_char [CHR 0x00, CHR 0x0D, CHR 0x0A] s"

definition validate_safe_id :: "json \<Rightarrow> string \<Rightarrow> evidence_guard list" where
  "validate_safe_id v name = ev_text v (name @ '' must be a non-empty str'') @
    [(\<not> one_line (str_in v), DispatchSupervisorValidationError (name @ '' must not contain NUL/CR/LF'')),
     (py_strip (str_in v) \<noteq> str_in v,
       DispatchSupervisorValidationError (name @ '' must not have leading or trailing whitespace'')),
     (\<not> DISPATCH_ID_RE (str_in v),
       DispatchSupervisorValidationError (name @ '' must be a safe single-segment identifier''))]"

definition validate_pid_optional :: "json \<Rightarrow> string \<Rightarrow> evidence_guard list" where
  "validate_pid_optional v name =
    [(v \<noteq> JNull \<and> \<not> is_int v, DispatchSupervisorValidationError (name @ '' must be a non-bool int or None'')),
     (is_int v \<and> int_in v < 0, DispatchSupervisorValidationError (name @ '' must be >= 0''))]"

definition validate_pid_required :: "json \<Rightarrow> string \<Rightarrow> evidence_guard list" where
  "validate_pid_required v name =
    [(\<not> is_int v, DispatchSupervisorValidationError (name @ '' must be a non-bool int'')),
     (int_in v < 0, DispatchSupervisorValidationError (name @ '' must be >= 0''))]"

definition validate_creation_optional :: "json \<Rightarrow> string \<Rightarrow> evidence_guard list" where
  "validate_creation_optional v name =
    [(v \<noteq> JNull \<and> (\<not> is_str v \<or> str_in v = []),
       DispatchSupervisorValidationError (name @ '' must be a non-empty str or None'')),
     (\<not> one_line (str_in v), DispatchSupervisorValidationError (name @ '' must not contain NUL/CR/LF''))]"

definition ev_time :: "json \<Rightarrow> string \<Rightarrow> string \<Rightarrow> evidence_guard list" where
  "ev_time v name message = ev_text v message @
     [(\<not> RFC3339_RE (str_in v), DispatchSupervisorValidationError (name @ '' must be RFC 3339 UTC''))]"

definition absent_before :: "bool \<Rightarrow> json \<Rightarrow> string \<Rightarrow> string \<Rightarrow> evidence_guard list" where
  "absent_before reached v name phase =
     [(\<not> reached \<and> v \<noteq> JNull, DispatchSupervisorValidationError (name @ '' must be None before '' @ phase))]"

definition present_at :: "bool \<Rightarrow> json \<Rightarrow> string \<Rightarrow> string \<Rightarrow> evidence_guard list" where
  "present_at reached v name phase =
     [(reached \<and> v = JNull, DispatchSupervisorValidationError (name @ '' must be set at '' @ phase))]"

section \<open>Receipts of dispatched processes\<close>

record DispatchProcessReceipt =
  dr_schema_version :: string
  dr_task_id :: string
  dr_revision :: int
  dr_attempt :: int
  dr_dispatch_id :: string
  dr_lease_epoch :: int
  dr_holder_instance_id :: string
  dr_generation_id :: string
  dr_platform :: string
  dr_boot_id :: string
  dr_phase :: DispatchReceiptPhase
  dr_creator_pid :: "int option"
  dr_creator_creation_time :: "string option"
  dr_supervisor_pid :: "int option"
  dr_supervisor_creation_time :: "string option"
  dr_worker_pid :: "int option"
  dr_worker_creation_time :: "string option"
  dr_worker_process_group :: "int option"
  dr_written_at :: string

definition RECEIPT_FIELD_NAMES :: "string list" where
  "RECEIPT_FIELD_NAMES =
    [''schema_version'', ''task_id'', ''revision'', ''attempt'', ''dispatch_id'', ''lease_epoch'',
     ''holder_instance_id'', ''generation_id'', ''platform'', ''boot_id'', ''phase'', ''creator_pid'',
     ''creator_creation_time'', ''supervisor_pid'', ''supervisor_creation_time'', ''worker_pid'',
     ''worker_creation_time'', ''worker_process_group'', ''written_at'']"

definition receipt_to_dict :: "DispatchProcessReceipt \<Rightarrow> json list" where
  "receipt_to_dict r =
    [JStr (dr_schema_version r), JStr (dr_task_id r), JInt (dr_revision r), JInt (dr_attempt r),
     JStr (dr_dispatch_id r), JInt (dr_lease_epoch r), JStr (dr_holder_instance_id r), JStr (dr_generation_id r),
     JStr (dr_platform r), JStr (dr_boot_id r), JStr (DispatchReceiptPhase_value (dr_phase r)),
     json_opt_int (dr_creator_pid r), json_opt_str (dr_creator_creation_time r), json_opt_int (dr_supervisor_pid r),
     json_opt_str (dr_supervisor_creation_time r), json_opt_int (dr_worker_pid r), json_opt_str (dr_worker_creation_time r),
     json_opt_int (dr_worker_process_group r), JStr (dr_written_at r)]"

definition receipt_phase_guards :: "json list \<Rightarrow> evidence_guard list" where
  "receipt_phase_guards vs =
    (let reached = (case receipt_phase_in (vs ! 10) of None \<Rightarrow> 0 | Some p \<Rightarrow> receipt_position p);
         supervisor = reached \<ge> 1; worker = reached \<ge> 2
     in absent_before supervisor (vs ! 13) ''supervisor_pid'' ''SUPERVISOR_READY'' @
        absent_before supervisor (vs ! 14) ''supervisor_creation_time'' ''SUPERVISOR_READY'' @
        present_at supervisor (vs ! 13) ''supervisor_pid'' ''SUPERVISOR_READY'' @
        present_at supervisor (vs ! 14) ''supervisor_creation_time'' ''SUPERVISOR_READY'' @
        absent_before worker (vs ! 15) ''worker_pid'' ''WORKER_STARTED'' @
        absent_before worker (vs ! 16) ''worker_creation_time'' ''WORKER_STARTED'' @
        absent_before worker (vs ! 17) ''worker_process_group'' ''WORKER_STARTED'' @
        present_at worker (vs ! 15) ''worker_pid'' ''WORKER_STARTED'' @
        present_at worker (vs ! 16) ''worker_creation_time'' ''WORKER_STARTED'' @
        [(vs ! 11 = JNull \<or> vs ! 12 = JNull,
          DispatchSupervisorValidationError ''creator_pid and creator_creation_time must always be set'')])"

definition receipt_guards :: "json list \<Rightarrow> evidence_guard list" where
  "receipt_guards vs =
    ev_schema (vs ! 0) EVIDENCE_SCHEMA_VERSION @
    ev_task (vs ! 1) @
    ev_positive (vs ! 2) ''revision'' @
    ev_positive (vs ! 3) ''attempt'' @
    validate_safe_id (vs ! 4) ''dispatch_id'' @
    ev_positive (vs ! 5) ''lease_epoch'' @
    validate_safe_id (vs ! 6) ''holder_instance_id'' @
    validate_safe_id (vs ! 7) ''generation_id'' @
    [(vs ! 8 \<noteq> JStr ''posix'' \<and> vs ! 8 \<noteq> JStr ''win32'',
       DispatchSupervisorValidationError ''platform must be posix or win32'')] @
    ev_text (vs ! 9) ''boot_id must be a non-empty str'' @
    [(receipt_phase_in (vs ! 10) = None, DispatchSupervisorValidationError ''phase must be a frozen receipt phase'')] @
    validate_pid_optional (vs ! 11) ''creator_pid'' @
    validate_pid_optional (vs ! 13) ''supervisor_pid'' @
    validate_pid_optional (vs ! 15) ''worker_pid'' @
    validate_creation_optional (vs ! 12) ''creator_creation_time'' @
    validate_creation_optional (vs ! 14) ''supervisor_creation_time'' @
    validate_creation_optional (vs ! 16) ''worker_creation_time'' @
    validate_pid_optional (vs ! 17) ''worker_process_group'' @
    ev_time (vs ! 18) ''written_at'' ''written_at must be non-empty str'' @
    receipt_phase_guards vs"

definition receipt_of_dict :: "json list \<Rightarrow> DispatchProcessReceipt" where
  "receipt_of_dict vs =
    \<lparr>dr_schema_version = str_in (vs ! 0), dr_task_id = str_in (vs ! 1), dr_revision = int_in (vs ! 2),
     dr_attempt = int_in (vs ! 3), dr_dispatch_id = str_in (vs ! 4), dr_lease_epoch = int_in (vs ! 5),
     dr_holder_instance_id = str_in (vs ! 6), dr_generation_id = str_in (vs ! 7), dr_platform = str_in (vs ! 8),
     dr_boot_id = str_in (vs ! 9), dr_phase = the (receipt_phase_in (vs ! 10)), dr_creator_pid = opt_int_in (vs ! 11),
     dr_creator_creation_time = opt_str_in (vs ! 12), dr_supervisor_pid = opt_int_in (vs ! 13),
     dr_supervisor_creation_time = opt_str_in (vs ! 14), dr_worker_pid = opt_int_in (vs ! 15),
     dr_worker_creation_time = opt_str_in (vs ! 16), dr_worker_process_group = opt_int_in (vs ! 17),
     dr_written_at = str_in (vs ! 18)\<rparr>"

definition receipt_from_dict :: "json \<Rightarrow> evidence_error + DispatchProcessReceipt" where
  "receipt_from_dict = from_dict (DispatchSupervisorValidationError ''receipt must be a dict'')
     (DispatchSupervisorValidationError ''receipt field set mismatch (missing/extra)'')
     (construct_with receipt_guards receipt_of_dict) RECEIPT_FIELD_NAMES"

definition decode_receipt :: "string \<Rightarrow> evidence_error + DispatchProcessReceipt" where
  "decode_receipt b = (case loads b of
      None \<Rightarrow> Inl (DispatchSupervisorValidationError ''receipt is not valid JSON'')
    | Some j \<Rightarrow> receipt_from_dict j)"

definition make_receipt :: "DispatchProcessReceipt \<Rightarrow> evidence_error + DispatchProcessReceipt" where
  "make_receipt r = guarded (receipt_guards (receipt_to_dict r)) (Inr r)"

definition receipt_bytes :: "DispatchProcessReceipt \<Rightarrow> string" where
  "receipt_bytes r = json_text RECEIPT_FIELD_NAMES (receipt_to_dict r)"

section \<open>Tombstones of finished dispatches\<close>

record DispatchFinalizerTombstone =
  ft_schema_version :: string
  ft_task_id :: string
  ft_revision :: int
  ft_attempt :: int
  ft_dispatch_id :: string
  ft_generation_id :: string
  ft_winner :: string
  ft_worker_done :: bool
  ft_heartbeat_done :: bool
  ft_release_completed :: bool
  ft_failure_kind :: "string option"
  ft_finalized_at :: string

definition TOMBSTONE_FIELD_NAMES :: "string list" where
  "TOMBSTONE_FIELD_NAMES =
    [''schema_version'', ''task_id'', ''revision'', ''attempt'', ''dispatch_id'', ''generation_id'', ''winner'',
     ''worker_done'', ''heartbeat_done'', ''release_completed'', ''failure_kind'', ''finalized_at'']"

definition DISPATCH_FAILURE_KINDS :: "string list" where
  "DISPATCH_FAILURE_KINDS =
    [''dispatch_start_failed'', ''worker_failed'', ''worker_output_failed'', ''delivery_transition_failed'']"

definition tombstone_to_dict :: "DispatchFinalizerTombstone \<Rightarrow> json list" where
  "tombstone_to_dict t =
    [JStr (ft_schema_version t), JStr (ft_task_id t), JInt (ft_revision t), JInt (ft_attempt t),
     JStr (ft_dispatch_id t), JStr (ft_generation_id t), JStr (ft_winner t), JBool (ft_worker_done t),
     JBool (ft_heartbeat_done t), JBool (ft_release_completed t), json_opt_str (ft_failure_kind t), JStr (ft_finalized_at t)]"

definition ev_bool :: "json \<Rightarrow> string \<Rightarrow> evidence_guard list" where
  "ev_bool v name = [(\<not> is_bool v, DispatchSupervisorValidationError (name @ '' must be bool''))]"

definition tombstone_guards :: "json list \<Rightarrow> evidence_guard list" where
  "tombstone_guards vs =
    ev_schema (vs ! 0) EVIDENCE_SCHEMA_VERSION @
    ev_task (vs ! 1) @
    ev_positive (vs ! 2) ''revision'' @
    ev_positive (vs ! 3) ''attempt'' @
    validate_safe_id (vs ! 4) ''dispatch_id'' @
    validate_safe_id (vs ! 5) ''generation_id'' @
    ev_text (vs ! 6) ''winner must be a non-empty str'' @
    ev_bool (vs ! 7) ''worker_done'' @
    ev_bool (vs ! 8) ''heartbeat_done'' @
    ev_bool (vs ! 9) ''release_completed'' @
    [(vs ! 10 \<noteq> JNull \<and> (\<not> is_str (vs ! 10) \<or> str_in (vs ! 10) = []),
       DispatchSupervisorValidationError ''failure_kind must be a non-empty str or None''),
     (vs ! 10 \<noteq> JNull \<and> str_in (vs ! 10) \<notin> set DISPATCH_FAILURE_KINDS,
       DispatchSupervisorValidationError ''failure_kind must be a frozen dispatch failure kind'')] @
    ev_time (vs ! 11) ''finalized_at'' ''finalized_at must be non-empty str''"

definition tombstone_of_dict :: "json list \<Rightarrow> DispatchFinalizerTombstone" where
  "tombstone_of_dict vs =
    \<lparr>ft_schema_version = str_in (vs ! 0), ft_task_id = str_in (vs ! 1), ft_revision = int_in (vs ! 2),
     ft_attempt = int_in (vs ! 3), ft_dispatch_id = str_in (vs ! 4), ft_generation_id = str_in (vs ! 5),
     ft_winner = str_in (vs ! 6), ft_worker_done = bool_in (vs ! 7), ft_heartbeat_done = bool_in (vs ! 8),
     ft_release_completed = bool_in (vs ! 9), ft_failure_kind = opt_str_in (vs ! 10), ft_finalized_at = str_in (vs ! 11)\<rparr>"

definition tombstone_from_dict :: "json \<Rightarrow> evidence_error + DispatchFinalizerTombstone" where
  "tombstone_from_dict = from_dict (DispatchSupervisorValidationError ''tombstone must be a dict'')
     (DispatchSupervisorValidationError ''tombstone field set mismatch (missing/extra)'')
     (construct_with tombstone_guards tombstone_of_dict) TOMBSTONE_FIELD_NAMES"

definition decode_finalizer_tombstone :: "string \<Rightarrow> evidence_error + DispatchFinalizerTombstone" where
  "decode_finalizer_tombstone b = (case loads b of
      None \<Rightarrow> Inl (DispatchSupervisorValidationError ''tombstone is not valid JSON'')
    | Some j \<Rightarrow> tombstone_from_dict j)"

definition make_tombstone :: "DispatchFinalizerTombstone \<Rightarrow> evidence_error + DispatchFinalizerTombstone" where
  "make_tombstone t = guarded (tombstone_guards (tombstone_to_dict t)) (Inr t)"

definition tombstone_bytes :: "DispatchFinalizerTombstone \<Rightarrow> string" where
  "tombstone_bytes t = json_text TOMBSTONE_FIELD_NAMES (tombstone_to_dict t)"

section \<open>Receipts of retries\<close>

record OwnerLossRetryReceipt =
  rr_schema_version :: string
  rr_task_id :: string
  rr_revision :: int
  rr_failed_attempt :: int
  rr_failed_dispatch_id :: string
  rr_recovery_event_id :: string
  rr_recovery_generation_id :: string
  rr_next_attempt :: int
  rr_next_dispatch_id :: string
  rr_next_dispatch_event_id :: string
  rr_phase :: OwnerLossRetryPhase
  rr_creator_pid :: int
  rr_creator_creation_time :: string
  rr_creator_boot_id :: string
  rr_supervisor_pid :: "int option"
  rr_supervisor_creation_time :: "string option"
  rr_supervisor_boot_id :: "string option"
  rr_worker_pid :: "int option"
  rr_worker_creation_time :: "string option"
  rr_worker_boot_id :: "string option"
  rr_reserved_at :: string
  rr_started_at :: "string option"
  rr_finalized_at :: "string option"
  rr_content_digest :: string

definition RETRY_RECEIPT_FIELD_NAMES :: "string list" where
  "RETRY_RECEIPT_FIELD_NAMES =
    [''schema_version'', ''task_id'', ''revision'', ''failed_attempt'', ''failed_dispatch_id'', ''recovery_event_id'',
     ''recovery_generation_id'', ''next_attempt'', ''next_dispatch_id'', ''next_dispatch_event_id'', ''phase'',
     ''creator_pid'', ''creator_creation_time'', ''creator_boot_id'', ''supervisor_pid'', ''supervisor_creation_time'',
     ''supervisor_boot_id'', ''worker_pid'', ''worker_creation_time'', ''worker_boot_id'', ''reserved_at'',
     ''started_at'', ''finalized_at'', ''content_digest'']"

definition retry_receipt_to_dict :: "OwnerLossRetryReceipt \<Rightarrow> json list" where
  "retry_receipt_to_dict r =
    [JStr (rr_schema_version r), JStr (rr_task_id r), JInt (rr_revision r), JInt (rr_failed_attempt r),
     JStr (rr_failed_dispatch_id r), JStr (rr_recovery_event_id r), JStr (rr_recovery_generation_id r),
     JInt (rr_next_attempt r), JStr (rr_next_dispatch_id r), JStr (rr_next_dispatch_event_id r),
     JStr (OwnerLossRetryPhase_value (rr_phase r)), JInt (rr_creator_pid r), JStr (rr_creator_creation_time r),
     JStr (rr_creator_boot_id r), json_opt_int (rr_supervisor_pid r), json_opt_str (rr_supervisor_creation_time r),
     json_opt_str (rr_supervisor_boot_id r), json_opt_int (rr_worker_pid r), json_opt_str (rr_worker_creation_time r),
     json_opt_str (rr_worker_boot_id r), JStr (rr_reserved_at r), json_opt_str (rr_started_at r), json_opt_str (rr_finalized_at r),
     JStr (rr_content_digest r)]"

definition ev_event :: "json \<Rightarrow> string \<Rightarrow> evidence_guard list" where
  "ev_event v name = ev_text v (name @ '' must be non-empty str'') @
     [(\<not> EVENT_ID_RE (str_in v), DispatchSupervisorValidationError (name @ '' must match EVT-*''))]"

definition validate_identity_triple_optional :: "json \<Rightarrow> json \<Rightarrow> json \<Rightarrow> string \<Rightarrow> evidence_guard list" where
  "validate_identity_triple_optional pid creation boot name =
    (if pid = JNull \<and> creation = JNull \<and> boot = JNull then []
     else [(pid = JNull \<or> creation = JNull \<or> boot = JNull,
        DispatchSupervisorValidationError (name @ '' identity fields must be all-None or all-present''))] @
       validate_pid_required pid (name @ ''_pid'') @
       ev_text creation (name @ ''_creation_time must be a non-empty str'') @
       ev_text boot (name @ ''_boot_id must be a non-empty str''))"

definition ev_optional_time :: "json \<Rightarrow> string \<Rightarrow> evidence_guard list" where
  "ev_optional_time v name = (if v = JNull then [] else ev_time v name (name @ '' must be non-empty str or None''))"

definition retry_phase_guards :: "json list \<Rightarrow> evidence_guard list" where
  "retry_phase_guards vs =
    (let reached = (case retry_phase_in (vs ! 10) of None \<Rightarrow> 0 | Some p \<Rightarrow> retry_position p);
         started = reached \<ge> 3; finalized = reached \<ge> 5
     in absent_before started (vs ! 14) ''supervisor_pid'' ''RETRY_STARTED'' @
        absent_before started (vs ! 15) ''supervisor_creation_time'' ''RETRY_STARTED'' @
        absent_before started (vs ! 16) ''supervisor_boot_id'' ''RETRY_STARTED'' @
        absent_before started (vs ! 17) ''worker_pid'' ''RETRY_STARTED'' @
        absent_before started (vs ! 18) ''worker_creation_time'' ''RETRY_STARTED'' @
        absent_before started (vs ! 19) ''worker_boot_id'' ''RETRY_STARTED'' @
        absent_before started (vs ! 21) ''started_at'' ''RETRY_STARTED'' @
        absent_before finalized (vs ! 22) ''finalized_at'' ''RETRY_FINALIZED'')"

definition retry_receipt_guards :: "json list \<Rightarrow> evidence_guard list" where
  "retry_receipt_guards vs =
    ev_schema (vs ! 0) RETRY_RECEIPT_SCHEMA_VERSION @
    ev_task (vs ! 1) @
    ev_positive (vs ! 2) ''revision'' @
    ev_positive (vs ! 3) ''failed_attempt'' @
    validate_safe_id (vs ! 4) ''failed_dispatch_id'' @
    ev_event (vs ! 5) ''recovery_event_id'' @
    validate_safe_id (vs ! 6) ''recovery_generation_id'' @
    [(\<not> is_int (vs ! 7), DispatchSupervisorValidationError ''next_attempt must be a non-bool int''),
     (int_in (vs ! 7) < 1 \<or> 3 < int_in (vs ! 7), DispatchSupervisorValidationError ''next_attempt must be 1..3''),
     (int_in (vs ! 7) \<noteq> int_in (vs ! 3) + 1,
       DispatchSupervisorValidationError ''next_attempt must equal failed_attempt + 1'')] @
    validate_safe_id (vs ! 8) ''next_dispatch_id'' @
    [(vs ! 8 = vs ! 4, DispatchSupervisorValidationError ''next_dispatch_id must differ from failed_dispatch_id'')] @
    ev_event (vs ! 9) ''next_dispatch_event_id'' @
    [(retry_phase_in (vs ! 10) = None, DispatchSupervisorValidationError ''phase must be a frozen retry phase'')] @
    validate_pid_required (vs ! 11) ''creator_pid'' @
    ev_text (vs ! 12) ''creator_creation_time must be a non-empty str'' @
    ev_text (vs ! 13) ''creator_boot_id must be a non-empty str'' @
    validate_identity_triple_optional (vs ! 14) (vs ! 15) (vs ! 16) ''supervisor'' @
    validate_identity_triple_optional (vs ! 17) (vs ! 18) (vs ! 19) ''worker'' @
    ev_time (vs ! 20) ''reserved_at'' ''reserved_at must be non-empty str'' @
    ev_optional_time (vs ! 21) ''started_at'' @
    ev_optional_time (vs ! 22) ''finalized_at'' @
    ev_text (vs ! 23) ''content_digest must be non-empty str'' @
    [(\<not> SHA256_RE (str_in (vs ! 23)), DispatchSupervisorValidationError ''content_digest must match sha256:hex'')] @
    retry_phase_guards vs"

definition retry_receipt_of_dict :: "json list \<Rightarrow> OwnerLossRetryReceipt" where
  "retry_receipt_of_dict vs =
    \<lparr>rr_schema_version = str_in (vs ! 0), rr_task_id = str_in (vs ! 1), rr_revision = int_in (vs ! 2),
     rr_failed_attempt = int_in (vs ! 3), rr_failed_dispatch_id = str_in (vs ! 4), rr_recovery_event_id = str_in (vs ! 5),
     rr_recovery_generation_id = str_in (vs ! 6), rr_next_attempt = int_in (vs ! 7), rr_next_dispatch_id = str_in (vs ! 8),
     rr_next_dispatch_event_id = str_in (vs ! 9), rr_phase = the (retry_phase_in (vs ! 10)),
     rr_creator_pid = int_in (vs ! 11), rr_creator_creation_time = str_in (vs ! 12), rr_creator_boot_id = str_in (vs ! 13),
     rr_supervisor_pid = opt_int_in (vs ! 14), rr_supervisor_creation_time = opt_str_in (vs ! 15),
     rr_supervisor_boot_id = opt_str_in (vs ! 16), rr_worker_pid = opt_int_in (vs ! 17),
     rr_worker_creation_time = opt_str_in (vs ! 18), rr_worker_boot_id = opt_str_in (vs ! 19),
     rr_reserved_at = str_in (vs ! 20), rr_started_at = opt_str_in (vs ! 21), rr_finalized_at = opt_str_in (vs ! 22),
     rr_content_digest = str_in (vs ! 23)\<rparr>"

definition retry_receipt_from_dict :: "json \<Rightarrow> evidence_error + OwnerLossRetryReceipt" where
  "retry_receipt_from_dict = from_dict (DispatchSupervisorValidationError ''retry receipt must be a dict'')
     (DispatchSupervisorValidationError ''retry receipt field set mismatch (missing/extra)'')
     (construct_with retry_receipt_guards retry_receipt_of_dict) RETRY_RECEIPT_FIELD_NAMES"

text \<open>The name is that of the document in the error: a retry receipt or a retry tombstone.\<close>

definition decode_retry_receipt :: "string \<Rightarrow> string \<Rightarrow> evidence_error + OwnerLossRetryReceipt" where
  "decode_retry_receipt name b = (case loads b of
      None \<Rightarrow> Inl (DispatchSupervisorValidationError (name @ '' is not valid JSON''))
    | Some j \<Rightarrow> retry_receipt_from_dict j)"

definition make_retry_receipt :: "OwnerLossRetryReceipt \<Rightarrow> evidence_error + OwnerLossRetryReceipt" where
  "make_retry_receipt r = guarded (retry_receipt_guards (retry_receipt_to_dict r)) (Inr r)"

definition retry_receipt_bytes :: "OwnerLossRetryReceipt \<Rightarrow> string" where
  "retry_receipt_bytes r = json_text RETRY_RECEIPT_FIELD_NAMES (retry_receipt_to_dict r)"

definition compute_retry_content_digest :: "(string \<Rightarrow> string) \<Rightarrow> OwnerLossRetryReceipt \<Rightarrow> string" where
  "compute_retry_content_digest H r = ''sha256:'' @ H (dumps (sort_keys (JObj
     [(''task_id'', JStr (rr_task_id r)), (''revision'', JInt (rr_revision r)),
      (''failed_attempt'', JInt (rr_failed_attempt r)), (''failed_dispatch_id'', JStr (rr_failed_dispatch_id r)),
      (''recovery_event_id'', JStr (rr_recovery_event_id r)),
      (''recovery_generation_id'', JStr (rr_recovery_generation_id r)), (''next_attempt'', JInt (rr_next_attempt r)),
      (''next_dispatch_id'', JStr (rr_next_dispatch_id r)),
      (''next_dispatch_event_id'', JStr (rr_next_dispatch_event_id r))])))"

section \<open>The documents\<close>

definition str_or_null :: "json \<Rightarrow> bool" where
  "str_or_null v \<longleftrightarrow> v = JNull \<or> is_str v"

definition int_or_null :: "json \<Rightarrow> bool" where
  "int_or_null v \<longleftrightarrow> v = JNull \<or> is_int v"

lemma ev_passed:
  "raise_first (ev_schema v s) = None \<Longrightarrow> is_str v"
  "raise_first (ev_task v) = None \<Longrightarrow> is_str v"
  "raise_first (ev_positive v name) = None \<Longrightarrow> is_int v"
  "raise_first (ev_text v message) = None \<Longrightarrow> is_str v"
  "raise_first (validate_safe_id v name) = None \<Longrightarrow> is_str v"
  "raise_first (validate_pid_required v name) = None \<Longrightarrow> is_int v"
  "raise_first (validate_pid_optional v name) = None \<Longrightarrow> int_or_null v"
  "raise_first (validate_creation_optional v name) = None \<Longrightarrow> str_or_null v"
  "raise_first (ev_time v name message) = None \<Longrightarrow> is_str v"
  "raise_first (ev_optional_time v name) = None \<Longrightarrow> str_or_null v"
  "raise_first (ev_bool v name) = None \<Longrightarrow> is_bool v"
  "raise_first (ev_event v name) = None \<Longrightarrow> is_str v"
  by (auto simp: ev_schema_def ev_task_def ev_positive_def ev_text_def validate_safe_id_def validate_pid_required_def
      validate_pid_optional_def validate_creation_optional_def ev_time_def ev_optional_time_def ev_bool_def ev_event_def
      is_str_def int_or_null_def str_or_null_def split: if_splits)

lemma triple_passed:
  assumes "raise_first (validate_identity_triple_optional p c b name) = None"
  shows "int_or_null p \<and> str_or_null c \<and> str_or_null b"
proof (cases "p = JNull \<and> c = JNull \<and> b = JNull")
  case False
  with assms have "is_int p" "is_str c" "is_str b"
    by (auto simp: validate_identity_triple_optional_def dest: ev_passed)
  then show ?thesis by (simp add: int_or_null_def str_or_null_def)
qed (simp add: int_or_null_def str_or_null_def)

lemma json_exact:
  "is_str v \<Longrightarrow> JStr (str_in v) = v" "is_int v \<Longrightarrow> JInt (int_in v) = v" "is_bool v \<Longrightarrow> JBool (bool_in v) = v"
  "str_or_null v \<Longrightarrow> json_opt_str (opt_str_in v) = v" "int_or_null v \<Longrightarrow> json_opt_int (opt_int_in v) = v"
  by (cases v; simp add: is_str_def is_int_def is_bool_def str_or_null_def int_or_null_def str_in_def int_in_def bool_in_def
      opt_str_in_def opt_int_in_def json_opt_str_def json_opt_int_def)+

lemma json_in [simp]:
  "str_in (JStr s) = s" "int_in (JInt i) = i" "bool_in (JBool b) = b"
  "opt_str_in (json_opt_str t) = t" "opt_int_in (json_opt_int t') = t'"
  "json_ok (json_opt_str t)" "json_ok (json_opt_int t')"
  by (auto simp: str_in_def int_in_def bool_in_def opt_str_in_def opt_int_in_def json_opt_str_def json_opt_int_def split: option.split)

lemma phase_in [simp]:
  "receipt_phase_in (JStr (DispatchReceiptPhase_value p)) = Some p"
  "retry_phase_in (JStr (OwnerLossRetryPhase_value q)) = Some q"
  by (cases p; simp add: receipt_phase_in_def process_receipt_phases_def) (cases q; simp add: retry_phase_in_def retry_phases_def)

lemma phase_in_Some:
  "receipt_phase_in v = Some p \<Longrightarrow> v = JStr (DispatchReceiptPhase_value p)"
  "retry_phase_in v = Some q \<Longrightarrow> v = JStr (OwnerLossRetryPhase_value q)"
  by (auto simp: receipt_phase_in_def retry_phase_in_def find_Some_iff)

lemma receipt_of_to [simp]: "receipt_of_dict (receipt_to_dict r) = r"
  by (simp add: receipt_of_dict_def receipt_to_dict_def)

lemma tombstone_of_to [simp]: "tombstone_of_dict (tombstone_to_dict t) = t"
  by (simp add: tombstone_of_dict_def tombstone_to_dict_def)

lemma retry_of_to [simp]: "retry_receipt_of_dict (retry_receipt_to_dict q) = q"
  by (simp add: retry_receipt_of_dict_def retry_receipt_to_dict_def)

lemma nth_numeral: "(x # xs) ! numeral k = xs ! pred_numeral k" "(x # xs) ! 1 = xs ! 0"
  by (simp_all add: numeral_eq_Suc)

lemmas at_position = nth_Cons_0 nth_numeral pred_numeral_simps BitM.simps numeral_One

lemma receipt_to_of:
  assumes "length vs = length RECEIPT_FIELD_NAMES" and "raise_first (receipt_guards vs) = None"
  shows "receipt_to_dict (receipt_of_dict vs) = vs"
proof -
  from assms(1) obtain a b c d e f g h i j k l m n t u v w x where vs: "vs = [a, b, c, d, e, f, g, h, i, j, k, l, m, n, t, u, v, w, x]"
    by (auto simp: RECEIPT_FIELD_NAMES_def length_Suc_conv dest!: length_Suc_obtain)
  from assms(2) obtain p where p: "receipt_phase_in k = Some p" by (auto simp: vs receipt_guards_def)
  have "is_str i" using assms(2) by (auto simp: vs receipt_guards_def is_str_def)
  moreover have "is_str a \<and> is_str b \<and> is_int c \<and> is_int d \<and> is_str e \<and> is_int f \<and> is_str g
      \<and> is_str h \<and> is_str j \<and> int_or_null l \<and> str_or_null m \<and> int_or_null n \<and> str_or_null t
      \<and> int_or_null u \<and> str_or_null v \<and> int_or_null w \<and> is_str x"
    using assms(2) [unfolded vs receipt_guards_def raise_first_append_None, simplified at_position]
    by (elim conjE, intro conjI) (erule ev_passed)+
  ultimately show ?thesis using phase_in_Some(1) [OF p] p
    unfolding vs receipt_to_dict_def receipt_of_dict_def by (simp add: json_exact)
qed

lemma tombstone_to_of:
  assumes "length vs = length TOMBSTONE_FIELD_NAMES" and "raise_first (tombstone_guards vs) = None"
  shows "tombstone_to_dict (tombstone_of_dict vs) = vs"
proof -
  from assms(1) obtain a b c d e f g h i j k l where vs: "vs = [a, b, c, d, e, f, g, h, i, j, k, l]"
    by (auto simp: TOMBSTONE_FIELD_NAMES_def length_Suc_conv dest!: length_Suc_obtain)
  have "str_or_null k" using assms(2) by (auto simp: vs tombstone_guards_def str_or_null_def)
  moreover have "is_str a \<and> is_str b \<and> is_int c \<and> is_int d \<and> is_str e \<and> is_str f \<and> is_str g
      \<and> is_bool h \<and> is_bool i \<and> is_bool j \<and> is_str l"
    using assms(2) [unfolded vs tombstone_guards_def raise_first_append_None, simplified at_position]
    by (elim conjE, intro conjI) (erule ev_passed)+
  ultimately show ?thesis unfolding vs tombstone_to_dict_def tombstone_of_dict_def by (simp add: json_exact)
qed

lemma retry_to_of:
  assumes "length vs = length RETRY_RECEIPT_FIELD_NAMES" and "raise_first (retry_receipt_guards vs) = None"
  shows "retry_receipt_to_dict (retry_receipt_of_dict vs) = vs"
proof -
  from assms(1) obtain a b c d e f g h i j k l m n t u v w x y z aa bb cc
    where vs: "vs = [a, b, c, d, e, f, g, h, i, j, k, l, m, n, t, u, v, w, x, y, z, aa, bb, cc]"
    by (auto simp: RETRY_RECEIPT_FIELD_NAMES_def length_Suc_conv dest!: length_Suc_obtain)
  from assms(2) obtain p where p: "retry_phase_in k = Some p" by (auto simp: vs retry_receipt_guards_def)
  have "is_int h" using assms(2) by (auto simp: vs retry_receipt_guards_def)
  moreover have "int_or_null t \<and> str_or_null u \<and> str_or_null v \<and> int_or_null w \<and> str_or_null x \<and> str_or_null y"
    using assms(2) [unfolded vs retry_receipt_guards_def raise_first_append_None, simplified at_position]
    by (elim conjE) (drule triple_passed, drule triple_passed, blast)
  moreover have "is_str a \<and> is_str b \<and> is_int c \<and> is_int d \<and> is_str e \<and> is_str f \<and> is_str g
      \<and> is_str i \<and> is_str j \<and> is_int l \<and> is_str m \<and> is_str n \<and> is_str z \<and> str_or_null aa
      \<and> str_or_null bb \<and> is_str cc"
    using assms(2) [unfolded vs retry_receipt_guards_def raise_first_append_None, simplified at_position]
    by (elim conjE, intro conjI) (erule ev_passed)+
  ultimately show ?thesis using phase_in_Some(2) [OF p] p
    unfolding vs retry_receipt_to_dict_def retry_receipt_of_dict_def by (simp add: json_exact)
qed

definition process_receipt_valid :: "DispatchProcessReceipt \<Rightarrow> bool" where
  "process_receipt_valid r \<longleftrightarrow> raise_first (receipt_guards (receipt_to_dict r)) = None"

definition tombstone_valid :: "DispatchFinalizerTombstone \<Rightarrow> bool" where
  "tombstone_valid t \<longleftrightarrow> raise_first (tombstone_guards (tombstone_to_dict t)) = None"

definition retry_valid :: "OwnerLossRetryReceipt \<Rightarrow> bool" where
  "retry_valid q \<longleftrightarrow> raise_first (retry_receipt_guards (retry_receipt_to_dict q)) = None"

interpretation receipt_json: json_evidence RECEIPT_FIELD_NAMES receipt_to_dict receipt_guards receipt_of_dict
proof unfold_locales
  show "distinct RECEIPT_FIELD_NAMES" "RECEIPT_FIELD_NAMES \<noteq> []" by (simp_all add: RECEIPT_FIELD_NAMES_def)
qed (simp_all add: receipt_to_of, simp_all add: receipt_to_dict_def RECEIPT_FIELD_NAMES_def)

interpretation tombstone_json: json_evidence TOMBSTONE_FIELD_NAMES tombstone_to_dict tombstone_guards tombstone_of_dict
proof unfold_locales
  show "distinct TOMBSTONE_FIELD_NAMES" "TOMBSTONE_FIELD_NAMES \<noteq> []" by (simp_all add: TOMBSTONE_FIELD_NAMES_def)
qed (simp_all add: tombstone_to_of, simp_all add: tombstone_to_dict_def TOMBSTONE_FIELD_NAMES_def)

interpretation retry_json: json_evidence RETRY_RECEIPT_FIELD_NAMES retry_receipt_to_dict retry_receipt_guards retry_receipt_of_dict
proof unfold_locales
  show "distinct RETRY_RECEIPT_FIELD_NAMES" "RETRY_RECEIPT_FIELD_NAMES \<noteq> []" by (simp_all add: RETRY_RECEIPT_FIELD_NAMES_def)
qed (simp_all add: retry_to_of, simp_all add: retry_receipt_to_dict_def RETRY_RECEIPT_FIELD_NAMES_def)

lemma decode_json:
  "decode_receipt = json_decode (DispatchSupervisorValidationError ''receipt is not valid JSON'')
     (DispatchSupervisorValidationError ''receipt must be a dict'')
     (DispatchSupervisorValidationError ''receipt field set mismatch (missing/extra)'')
     (construct_with receipt_guards receipt_of_dict) RECEIPT_FIELD_NAMES"
  "decode_finalizer_tombstone = json_decode (DispatchSupervisorValidationError ''tombstone is not valid JSON'')
     (DispatchSupervisorValidationError ''tombstone must be a dict'')
     (DispatchSupervisorValidationError ''tombstone field set mismatch (missing/extra)'')
     (construct_with tombstone_guards tombstone_of_dict) TOMBSTONE_FIELD_NAMES"
  "decode_retry_receipt name = json_decode (DispatchSupervisorValidationError (name @ '' is not valid JSON''))
     (DispatchSupervisorValidationError ''retry receipt must be a dict'')
     (DispatchSupervisorValidationError ''retry receipt field set mismatch (missing/extra)'')
     (construct_with retry_receipt_guards retry_receipt_of_dict) RETRY_RECEIPT_FIELD_NAMES"
  unfolding fun_eq_iff json_decode_def decode_receipt_def receipt_from_dict_def decode_finalizer_tombstone_def
    tombstone_from_dict_def decode_retry_receipt_def retry_receipt_from_dict_def by (rule allI, rule refl)+

lemma dispatch_evidence_read:
  "process_receipt_valid r \<Longrightarrow> decode_receipt (receipt_bytes r) = Inr r"
  "tombstone_valid t \<Longrightarrow> decode_finalizer_tombstone (tombstone_bytes t) = Inr t"
  "retry_valid q \<Longrightarrow> decode_retry_receipt name (retry_receipt_bytes q) = Inr q"
  unfolding process_receipt_valid_def tombstone_valid_def retry_valid_def decode_json receipt_bytes_def tombstone_bytes_def
    retry_receipt_bytes_def
  by (fact receipt_json.decode_text tombstone_json.decode_text retry_json.decode_text)+

lemma dispatch_evidence_decoded:
  "decode_receipt b = Inr r \<Longrightarrow> process_receipt_valid r"
  "decode_finalizer_tombstone b = Inr t \<Longrightarrow> tombstone_valid t"
  "decode_retry_receipt name b = Inr q \<Longrightarrow> retry_valid q"
  unfolding process_receipt_valid_def tombstone_valid_def retry_valid_def decode_json
  by (fact receipt_json.decode_valid tombstone_json.decode_valid retry_json.decode_valid)+

lemma make_evidence [res_simps]:
  "make_receipt r = Inr r' \<longleftrightarrow> process_receipt_valid r \<and> r' = r"
  "make_tombstone t = Inr t' \<longleftrightarrow> tombstone_valid t \<and> t' = t"
  "make_retry_receipt q = Inr q' \<longleftrightarrow> retry_valid q \<and> q' = q"
  by (auto simp: make_receipt_def make_tombstone_def make_retry_receipt_def process_receipt_valid_def tombstone_valid_def
      retry_valid_def res_simps)


end
