(* ===== verification/Dispatch_Store.thy ===== *)
theory Dispatch_Store
  imports Dispatch_Evidence Effects
begin

text \<open>
  The store of dispatch evidence (\<open>dispatch_supervisor_evidence.py\<close>): its operations as atomic
  writes that a crash may cut off, for receipts, tombstones and retries.  The keyword arguments
  that name a receipt or a tombstone are passed as a record, whose other fields are overwritten;
  the clock readings of a call are its arguments.  The lock makes a call see one disk.
\<close>

section \<open>Files\<close>

datatype dispatch_file =
    ReceiptFile string
  | TombstoneFile string
  | RetryReceiptFile string
  | RetryTombstoneFile string

fun file_name :: "dispatch_file \<Rightarrow> string" where
  "file_name (ReceiptFile i) = i @ ''.receipt.yaml''"
| "file_name (TombstoneFile i) = i @ ''.tombstone.yaml''"
| "file_name (RetryReceiptFile i) = i @ ''.retry-receipt.yaml''"
| "file_name (RetryTombstoneFile i) = i @ ''.retry-tombstone.yaml''"

text \<open>No two of these files share a name, whatever the identities are.\<close>

lemma file_name_inject: "file_name p = file_name q \<longleftrightarrow> p = q"
proof -
  have suffixes: "rev ''.receipt.yaml'' = ''lmay.tpiecer.''" "rev ''.tombstone.yaml'' = ''lmay.enotsbmot.''"
    "rev ''.retry-receipt.yaml'' = ''lmay.tpiecer-yrter.''" "rev ''.retry-tombstone.yaml'' = ''lmay.enotsbmot-yrter.''"
    by simp_all
  have "rev (file_name p) = rev (file_name q) \<longleftrightarrow> p = q"
    by (cases p; cases q) (simp_all only: file_name.simps rev_append suffixes, simp_all)
  then show ?thesis by simp
qed

type_synonym dispatch_disk = "(dispatch_file, string) dict"

type_synonym 'a dispatch_outcome = "(evidence_error + 'a) \<times> (dispatch_file \<times> string) list"

definition read_file ::
  "(string \<Rightarrow> dispatch_file) \<Rightarrow> (string \<Rightarrow> evidence_error + 'r) \<Rightarrow> string \<Rightarrow> string \<Rightarrow> dispatch_disk \<Rightarrow> evidence_error + 'r option"
where
  "read_file file decode name i d = guarded (validate_safe_id (JStr i) name)
     (case dict_get d (file i) of None \<Rightarrow> Inr None | Some b \<Rightarrow> and_then (decode b) (\<lambda>r. Inr (Some r)))"

definition read_dispatch_receipt :: "string \<Rightarrow> dispatch_disk \<Rightarrow> evidence_error + DispatchProcessReceipt option" where
  "read_dispatch_receipt = read_file ReceiptFile decode_receipt ''dispatch_id''"

definition read_dispatch_tombstone :: "string \<Rightarrow> dispatch_disk \<Rightarrow> evidence_error + DispatchFinalizerTombstone option" where
  "read_dispatch_tombstone = read_file TombstoneFile decode_finalizer_tombstone ''dispatch_id''"

definition read_retry_receipt :: "string \<Rightarrow> dispatch_disk \<Rightarrow> evidence_error + OwnerLossRetryReceipt option" where
  "read_retry_receipt = read_file RetryReceiptFile (decode_retry_receipt ''retry receipt'') ''next_dispatch_id''"

definition read_retry_tombstone :: "string \<Rightarrow> dispatch_disk \<Rightarrow> evidence_error + OwnerLossRetryReceipt option" where
  "read_retry_tombstone = read_file RetryTombstoneFile (decode_retry_receipt ''retry tombstone'') ''next_dispatch_id''"

section \<open>Receipts\<close>

definition write_receipt :: "DispatchProcessReceipt \<Rightarrow> 'a dispatch_outcome \<Rightarrow> 'a dispatch_outcome" where
  "write_receipt r k = ensuring (validate_safe_id (JStr (dr_dispatch_id r)) ''dispatch_id'')
     (storing (ReceiptFile (dr_dispatch_id r)) (Inr (receipt_bytes r)) k)"

definition enforce_transition :: "DispatchProcessReceipt \<Rightarrow> DispatchReceiptPhase \<Rightarrow> string \<Rightarrow> evidence_guard list" where
  "enforce_transition current target generation =
    [(dr_generation_id current \<noteq> generation, DispatchSupervisorFencingError ''generation_id mismatch''),
     (dr_phase current = target, DispatchSupervisorPhaseError ''phase already reached''),
     (ALLOWED_TRANSITIONS (dr_phase current) \<noteq> Some target, DispatchSupervisorPhaseError ''illegal phase transition'')]"

text \<open>\<open>_replace_receipt\<close> is \<open>make_receipt\<close> on the updated record.\<close>

definition reserve_receipt :: "string \<Rightarrow> DispatchProcessReceipt \<Rightarrow> dispatch_disk \<Rightarrow> DispatchProcessReceipt dispatch_outcome" where
  "reserve_receipt now r d =
     reading (read_dispatch_receipt (dr_dispatch_id r) d) (\<lambda>existing.
     ensuring [(existing \<noteq> None, DispatchSupervisorPhaseError ''receipt already exists for dispatch'')]
     (reading (make_receipt (r\<lparr>dr_schema_version := EVIDENCE_SCHEMA_VERSION, dr_platform := ''posix'', dr_phase := RESERVED,
         dr_supervisor_pid := None, dr_supervisor_creation_time := None, dr_worker_pid := None,
         dr_worker_creation_time := None, dr_worker_process_group := None, dr_written_at := now\<rparr>)) (\<lambda>receipt.
      write_receipt receipt (returning receipt))))"

text \<open>What the three advances share: read, enforce the transition, write the updated receipt.\<close>

definition advance_receipt ::
  "string \<Rightarrow> string \<Rightarrow> DispatchReceiptPhase \<Rightarrow> (DispatchProcessReceipt \<Rightarrow> DispatchProcessReceipt) \<Rightarrow> dispatch_disk \<Rightarrow>
   DispatchProcessReceipt dispatch_outcome"
where
  "advance_receipt i generation target update d =
     reading (read_dispatch_receipt i d) (\<lambda>current. case current of
         None \<Rightarrow> failing (DispatchSupervisorFencingError ''receipt not found'')
       | Some r \<Rightarrow> ensuring (enforce_transition r target generation)
           (reading (make_receipt (update r)) (\<lambda>updated. write_receipt updated (returning updated))))"

definition advance_to_supervisor_ready ::
  "string \<Rightarrow> string \<Rightarrow> string \<Rightarrow> int \<Rightarrow> string \<Rightarrow> dispatch_disk \<Rightarrow> DispatchProcessReceipt dispatch_outcome"
where
  "advance_to_supervisor_ready now i generation pid creation = advance_receipt i generation SUPERVISOR_READY
     (\<lambda>r. r\<lparr>dr_phase := SUPERVISOR_READY, dr_supervisor_pid := Some pid, dr_supervisor_creation_time := Some creation,
        dr_written_at := now\<rparr>)"

definition advance_to_worker_started ::
  "string \<Rightarrow> string \<Rightarrow> string \<Rightarrow> int \<Rightarrow> string \<Rightarrow> int option \<Rightarrow> dispatch_disk \<Rightarrow> DispatchProcessReceipt dispatch_outcome"
where
  "advance_to_worker_started now i generation pid creation process_group = advance_receipt i generation WORKER_STARTED
     (\<lambda>r. r\<lparr>dr_phase := WORKER_STARTED, dr_worker_pid := Some pid, dr_worker_creation_time := Some creation,
        dr_worker_process_group := process_group, dr_written_at := now\<rparr>)"

definition advance_to_finalizing :: "string \<Rightarrow> string \<Rightarrow> string \<Rightarrow> dispatch_disk \<Rightarrow> DispatchProcessReceipt dispatch_outcome" where
  "advance_to_finalizing now i generation = advance_receipt i generation FINALIZING
     (\<lambda>r. r\<lparr>dr_phase := FINALIZING, dr_written_at := now\<rparr>)"

definition all_done :: "DispatchFinalizerTombstone \<Rightarrow> bool" where
  "all_done t \<longleftrightarrow> ft_worker_done t \<and> ft_heartbeat_done t \<and> ft_release_completed t"

definition same_dispatch :: "DispatchProcessReceipt \<Rightarrow> DispatchFinalizerTombstone \<Rightarrow> bool" where
  "same_dispatch r t \<longleftrightarrow> dr_task_id r = ft_task_id t \<and> dr_revision r = ft_revision t \<and> dr_attempt r = ft_attempt t
     \<and> dr_dispatch_id r = ft_dispatch_id t"

text \<open>The fields of \<open>_TOMBSTONE_REPLAY_FIELDS\<close> agree.\<close>

definition same_content :: "DispatchFinalizerTombstone \<Rightarrow> DispatchFinalizerTombstone \<Rightarrow> bool" where
  "same_content s t \<longleftrightarrow> ft_task_id s = ft_task_id t \<and> ft_revision s = ft_revision t \<and> ft_attempt s = ft_attempt t
     \<and> ft_dispatch_id s = ft_dispatch_id t \<and> ft_winner s = ft_winner t \<and> ft_worker_done s = ft_worker_done t
     \<and> ft_heartbeat_done s = ft_heartbeat_done t \<and> ft_release_completed s = ft_release_completed t
     \<and> ft_failure_kind s = ft_failure_kind t"

definition finish_receipt :: "string \<Rightarrow> DispatchProcessReceipt \<Rightarrow> 'a \<Rightarrow> 'a dispatch_outcome" where
  "finish_receipt now r x = reading (make_receipt (r\<lparr>dr_phase := FINALIZED, dr_written_at := now\<rparr>)) (\<lambda>finished.
     write_receipt finished (returning x))"

definition replay_tombstone ::
  "string \<Rightarrow> DispatchProcessReceipt \<Rightarrow> DispatchFinalizerTombstone \<Rightarrow> DispatchFinalizerTombstone \<Rightarrow>
   DispatchFinalizerTombstone dispatch_outcome"
where
  "replay_tombstone later r e tombstone = ensuring
     [(ft_generation_id e \<noteq> ft_generation_id tombstone,
        DispatchSupervisorFencingError ''tombstone generation mismatch -- refusing overwrite''),
      (\<not> same_content e tombstone,
        DispatchSupervisorPhaseError ''tombstone already exists with different content'')]
     (if dr_phase r = FINALIZED then returning e
      else if dr_phase r = FINALIZING then finish_receipt later r e
      else failing (DispatchSupervisorPhaseError ''tombstone exists but receipt is not FINALIZING or FINALIZED''))"

definition first_tombstone ::
  "string \<Rightarrow> DispatchProcessReceipt \<Rightarrow> DispatchFinalizerTombstone \<Rightarrow> DispatchFinalizerTombstone dispatch_outcome"
where
  "first_tombstone later r tombstone = ensuring
     [(dr_phase r = FINALIZED, DispatchSupervisorPhaseError ''receipt FINALIZED but tombstone missing''),
      (dr_phase r \<noteq> FINALIZING, DispatchSupervisorPhaseError ''receipt must be in FINALIZING phase'')]
     (storing (TombstoneFile (ft_dispatch_id tombstone)) (Inr (tombstone_bytes tombstone))
       (finish_receipt later r tombstone))"

definition write_finalizer_tombstone ::
  "string \<Rightarrow> string \<Rightarrow> DispatchFinalizerTombstone \<Rightarrow> dispatch_disk \<Rightarrow> DispatchFinalizerTombstone dispatch_outcome"
where
  "write_finalizer_tombstone now later t d =
     ensuring [(\<not> all_done t, DispatchSupervisorPhaseError
         ''FINALIZED requires worker_done, heartbeat_done, and release_completed'')]
     (reading (make_tombstone (t\<lparr>ft_schema_version := EVIDENCE_SCHEMA_VERSION, ft_finalized_at := now\<rparr>)) (\<lambda>tombstone.
      reading (read_dispatch_tombstone (ft_dispatch_id tombstone) d) (\<lambda>existing.
      reading (read_dispatch_receipt (ft_dispatch_id tombstone) d) (\<lambda>receipt. case receipt of
          None \<Rightarrow> failing (DispatchSupervisorPhaseError ''receipt not found'')
        | Some r \<Rightarrow> ensuring
           [(dr_generation_id r \<noteq> ft_generation_id tombstone,
              DispatchSupervisorFencingError ''receipt generation mismatch -- refusing finalization''),
            (\<not> same_dispatch r tombstone,
              DispatchSupervisorPhaseError ''receipt identity mismatch -- refusing finalization'')]
           (case existing of
              Some e \<Rightarrow> replay_tombstone later r e tombstone
            | None \<Rightarrow> first_tombstone later r tombstone)))))"

section \<open>Retries\<close>

definition write_retry_receipt :: "OwnerLossRetryReceipt \<Rightarrow> 'a dispatch_outcome \<Rightarrow> 'a dispatch_outcome" where
  "write_retry_receipt q k = ensuring (validate_safe_id (JStr (rr_next_dispatch_id q)) ''next_dispatch_id'')
     (storing (RetryReceiptFile (rr_next_dispatch_id q)) (Inr (retry_receipt_bytes q)) k)"

definition enforce_retry_transition :: "OwnerLossRetryReceipt \<Rightarrow> OwnerLossRetryPhase \<Rightarrow> string \<Rightarrow> evidence_guard list" where
  "enforce_retry_transition current target generation =
    [(rr_recovery_generation_id current \<noteq> generation,
       DispatchSupervisorFencingError ''retry receipt generation_id mismatch''),
     (rr_phase current = target, DispatchSupervisorPhaseError ''retry phase already reached''),
     (RETRY_ALLOWED_TRANSITIONS (rr_phase current) \<noteq> Some target,
       DispatchSupervisorPhaseError ''illegal retry phase transition'')]"

definition reserve_retry_receipt :: "string \<Rightarrow> OwnerLossRetryReceipt \<Rightarrow> dispatch_disk \<Rightarrow> OwnerLossRetryReceipt dispatch_outcome" where
  "reserve_retry_receipt now q d =
     reading (make_retry_receipt (q\<lparr>rr_schema_version := RETRY_RECEIPT_SCHEMA_VERSION, rr_phase := RETRY_RESERVED,
         rr_supervisor_pid := None, rr_supervisor_creation_time := None, rr_supervisor_boot_id := None,
         rr_worker_pid := None, rr_worker_creation_time := None, rr_worker_boot_id := None, rr_reserved_at := now,
         rr_started_at := None, rr_finalized_at := None\<rparr>)) (\<lambda>proposed.
     reading (read_retry_receipt (rr_next_dispatch_id proposed) d) (\<lambda>existing. case existing of
         Some e \<Rightarrow> ensuring
          [(rr_content_digest e \<noteq> rr_content_digest proposed,
             DispatchSupervisorPhaseError ''retry receipt already exists with different content''),
           (rr_recovery_generation_id e \<noteq> rr_recovery_generation_id proposed,
             DispatchSupervisorFencingError ''retry receipt generation mismatch''),
           (rr_phase e \<noteq> rr_phase proposed,
             DispatchSupervisorPhaseError ''retry receipt already exists with different phase'')]
          (returning e)
       | None \<Rightarrow> write_retry_receipt proposed (returning proposed)))"

definition advance_retry ::
  "string \<Rightarrow> string \<Rightarrow> OwnerLossRetryPhase \<Rightarrow> (OwnerLossRetryReceipt \<Rightarrow> OwnerLossRetryReceipt dispatch_outcome) \<Rightarrow>
   dispatch_disk \<Rightarrow> OwnerLossRetryReceipt dispatch_outcome"
where
  "advance_retry i generation target k d =
     reading (read_retry_receipt i d) (\<lambda>current. case current of
         None \<Rightarrow> failing (DispatchSupervisorFencingError ''retry receipt not found'')
       | Some q \<Rightarrow> ensuring (enforce_retry_transition q target generation) (k q))"

definition advance_retry_to_started ::
  "string \<Rightarrow> string \<Rightarrow> string \<Rightarrow> int \<Rightarrow> string \<Rightarrow> string \<Rightarrow> int \<Rightarrow> string \<Rightarrow> string \<Rightarrow> dispatch_disk \<Rightarrow>
   OwnerLossRetryReceipt dispatch_outcome"
where
  "advance_retry_to_started now i generation spid screation sboot wpid wcreation wboot =
     advance_retry i generation RETRY_STARTED (\<lambda>q.
       reading (make_retry_receipt (q\<lparr>rr_phase := RETRY_STARTED, rr_supervisor_pid := Some spid,
           rr_supervisor_creation_time := Some screation, rr_supervisor_boot_id := Some sboot, rr_worker_pid := Some wpid,
           rr_worker_creation_time := Some wcreation, rr_worker_boot_id := Some wboot, rr_started_at := Some now\<rparr>))
         (\<lambda>updated. write_retry_receipt updated (returning updated)))"

definition advance_retry_to_finalizing :: "string \<Rightarrow> string \<Rightarrow> dispatch_disk \<Rightarrow> OwnerLossRetryReceipt dispatch_outcome" where
  "advance_retry_to_finalizing i generation = advance_retry i generation RETRY_FINALIZING (\<lambda>q.
     reading (make_retry_receipt (q\<lparr>rr_phase := RETRY_FINALIZING\<rparr>)) (\<lambda>updated.
       write_retry_receipt updated (returning updated)))"

definition finish_retry ::
  "string \<Rightarrow> string \<Rightarrow> OwnerLossRetryReceipt \<Rightarrow> OwnerLossRetryReceipt option \<Rightarrow> OwnerLossRetryReceipt \<Rightarrow>
   OwnerLossRetryReceipt dispatch_outcome"
where
  "finish_retry i generation q existing finished = (case existing of
       Some e \<Rightarrow> ensuring
         [(rr_content_digest e \<noteq> rr_content_digest finished,
            DispatchSupervisorPhaseError ''retry tombstone already exists with different content''),
          (rr_recovery_generation_id e \<noteq> generation,
            DispatchSupervisorFencingError ''retry tombstone generation mismatch'')]
         (if rr_phase q = RETRY_FINALIZED then returning e else write_retry_receipt finished (returning e))
     | None \<Rightarrow> ensuring
         [(rr_phase q = RETRY_FINALIZED, DispatchSupervisorPhaseError ''retry receipt FINALIZED but tombstone missing'')]
         (storing (RetryTombstoneFile i) (Inr (retry_receipt_bytes finished))
           (write_retry_receipt finished (returning finished))))"

definition advance_retry_to_finalized ::
  "string \<Rightarrow> string \<Rightarrow> string \<Rightarrow> dispatch_disk \<Rightarrow> OwnerLossRetryReceipt dispatch_outcome"
where
  "advance_retry_to_finalized now i generation d = advance_retry i generation RETRY_FINALIZED (\<lambda>q.
     reading (read_retry_tombstone i d) (\<lambda>existing.
     reading (make_retry_receipt (q\<lparr>rr_phase := RETRY_FINALIZED, rr_finalized_at := Some now\<rparr>)) (\<lambda>finished.
       finish_retry i generation q existing finished))) d"

end
