(* ===== verification/Dispatch_Guarantees.thy ===== *)
theory Dispatch_Guarantees
  imports Dispatch_Store
begin

text \<open>
  What the evidence of dispatches goes through: the runs of the store's operations with crashes
  refine single writes that the current evidence justifies, along which receipts only advance,
  tombstones stay and a finished receipt always has its tombstone.
\<close>

section \<open>Runs\<close>

datatype dispatch_op =
    ReserveReceipt string DispatchProcessReceipt
  | SupervisorReady string string string int string
  | WorkerStarted string string string int string "int option"
  | StartFinalizing string string string
  | WriteTombstone string string DispatchFinalizerTombstone
  | ReserveRetry string OwnerLossRetryReceipt
  | RetryStart string string string int string string int string string
  | RetryFinalize string string
  | RetryFinish string string string

fun dispatch_writes :: "dispatch_op \<Rightarrow> dispatch_disk \<Rightarrow> (dispatch_file \<times> string) list" where
  "dispatch_writes (ReserveReceipt now r) d = snd (reserve_receipt now r d)"
| "dispatch_writes (SupervisorReady now i g pid c) d = snd (advance_to_supervisor_ready now i g pid c d)"
| "dispatch_writes (WorkerStarted now i g pid c pg) d = snd (advance_to_worker_started now i g pid c pg d)"
| "dispatch_writes (StartFinalizing now i g) d = snd (advance_to_finalizing now i g d)"
| "dispatch_writes (WriteTombstone now later t) d = snd (write_finalizer_tombstone now later t d)"
| "dispatch_writes (ReserveRetry now q) d = snd (reserve_retry_receipt now q d)"
| "dispatch_writes (RetryStart now i g p c b p' c' b') d = snd (advance_retry_to_started now i g p c b p' c' b' d)"
| "dispatch_writes (RetryFinalize i g) d = snd (advance_retry_to_finalizing i g d)"
| "dispatch_writes (RetryFinish now i g) d = snd (advance_retry_to_finalized now i g d)"

abbreviation dispatch_step :: "dispatch_disk \<Rightarrow> dispatch_disk \<Rightarrow> bool" where
  "dispatch_step \<equiv> crash_step dispatch_writes (\<lambda>_. True)"

definition holds_receipt :: "dispatch_disk \<Rightarrow> string \<Rightarrow> DispatchProcessReceipt \<Rightarrow> bool" where
  "holds_receipt d i r \<longleftrightarrow> (\<exists>b. dict_get d (ReceiptFile i) = Some b \<and> decode_receipt b = Inr r)"

definition holds_tombstone :: "dispatch_disk \<Rightarrow> string \<Rightarrow> DispatchFinalizerTombstone \<Rightarrow> bool" where
  "holds_tombstone d i t \<longleftrightarrow> (\<exists>b. dict_get d (TombstoneFile i) = Some b \<and> decode_finalizer_tombstone b = Inr t)"

definition holds_retry :: "dispatch_disk \<Rightarrow> string \<Rightarrow> OwnerLossRetryReceipt \<Rightarrow> bool" where
  "holds_retry d i q \<longleftrightarrow> (\<exists>b. dict_get d (RetryReceiptFile i) = Some b \<and> decode_retry_receipt ''retry receipt'' b = Inr q)"

definition holds_retry_tombstone :: "dispatch_disk \<Rightarrow> string \<Rightarrow> OwnerLossRetryReceipt \<Rightarrow> bool" where
  "holds_retry_tombstone d i q \<longleftrightarrow>
     (\<exists>b. dict_get d (RetryTombstoneFile i) = Some b \<and> decode_retry_receipt ''retry tombstone'' b = Inr q)"

section \<open>How evidence develops\<close>

text \<open>What a receipt is about, and the processes it names once they are recorded.\<close>

definition receipt_identity :: "DispatchProcessReceipt \<Rightarrow> string list \<times> int list \<times> int option \<times> string option" where
  "receipt_identity r = ([dr_task_id r, dr_dispatch_id r, dr_holder_instance_id r, dr_generation_id r, dr_boot_id r],
     [dr_revision r, dr_attempt r, dr_lease_epoch r], dr_creator_pid r, dr_creator_creation_time r)"

definition receipt_supervisor :: "DispatchProcessReceipt \<Rightarrow> int option \<times> string option" where
  "receipt_supervisor r = (dr_supervisor_pid r, dr_supervisor_creation_time r)"

definition receipt_worker :: "DispatchProcessReceipt \<Rightarrow> int option \<times> string option \<times> int option" where
  "receipt_worker r = (dr_worker_pid r, dr_worker_creation_time r, dr_worker_process_group r)"

definition receipt_follows :: "DispatchProcessReceipt \<Rightarrow> DispatchProcessReceipt \<Rightarrow> bool" where
  "receipt_follows r s \<longleftrightarrow> receipt_identity s = receipt_identity r
     \<and> (s = r \<or> receipt_position (dr_phase r) < receipt_position (dr_phase s))
     \<and> (1 \<le> receipt_position (dr_phase r) \<longrightarrow> receipt_supervisor s = receipt_supervisor r)
     \<and> (2 \<le> receipt_position (dr_phase r) \<longrightarrow> receipt_worker s = receipt_worker r)"

definition retry_identity :: "OwnerLossRetryReceipt \<Rightarrow> string list \<times> int list" where
  "retry_identity q = ([rr_task_id q, rr_failed_dispatch_id q, rr_recovery_event_id q, rr_recovery_generation_id q,
      rr_next_dispatch_id q, rr_next_dispatch_event_id q, rr_content_digest q, rr_creator_creation_time q,
      rr_creator_boot_id q, rr_reserved_at q], [rr_revision q, rr_failed_attempt q, rr_next_attempt q, rr_creator_pid q])"

definition retry_processes ::
  "OwnerLossRetryReceipt \<Rightarrow> int option \<times> string option \<times> string option \<times> int option \<times> string option \<times> string option \<times> string option"
where
  "retry_processes q = (rr_supervisor_pid q, rr_supervisor_creation_time q, rr_supervisor_boot_id q, rr_worker_pid q,
     rr_worker_creation_time q, rr_worker_boot_id q, rr_started_at q)"

definition retry_follows :: "OwnerLossRetryReceipt \<Rightarrow> OwnerLossRetryReceipt \<Rightarrow> bool" where
  "retry_follows q s \<longleftrightarrow> retry_identity s = retry_identity q
     \<and> (s = q \<or> retry_position (rr_phase q) < retry_position (rr_phase s))
     \<and> (3 \<le> retry_position (rr_phase q) \<longrightarrow> retry_processes s = retry_processes q)"

lemma receipt_follows_refl: "receipt_follows r r"
  by (simp add: receipt_follows_def)

lemma retry_follows_refl: "retry_follows q q"
  by (simp add: retry_follows_def)

lemma receipt_follows_trans:
  assumes "receipt_follows r s" and "receipt_follows s u"
  shows "receipt_follows r u"
proof -
  have "receipt_position (dr_phase r) \<le> receipt_position (dr_phase s)" using assms(1) by (auto simp: receipt_follows_def)
  moreover have "u = r \<or> receipt_position (dr_phase r) < receipt_position (dr_phase u)"
    using assms unfolding receipt_follows_def by (metis order.strict_trans)
  ultimately show ?thesis using assms unfolding receipt_follows_def by (metis order.trans)
qed

lemma retry_follows_trans:
  assumes "retry_follows q s" and "retry_follows s u"
  shows "retry_follows q u"
proof -
  have "retry_position (rr_phase q) \<le> retry_position (rr_phase s)" using assms(1) by (auto simp: retry_follows_def)
  moreover have "u = q \<or> retry_position (rr_phase q) < retry_position (rr_phase u)"
    using assms unfolding retry_follows_def by (metis order.strict_trans)
  ultimately show ?thesis using assms unfolding retry_follows_def by (metis order.trans)
qed

section \<open>Justified writes\<close>

definition tombstone_fits :: "DispatchProcessReceipt \<Rightarrow> DispatchFinalizerTombstone \<Rightarrow> bool" where
  "tombstone_fits r t \<longleftrightarrow> same_dispatch r t \<and> dr_generation_id r = ft_generation_id t \<and> all_done t"

definition retry_fits :: "OwnerLossRetryReceipt \<Rightarrow> OwnerLossRetryReceipt \<Rightarrow> bool" where
  "retry_fits q t \<longleftrightarrow> retry_identity t = retry_identity q \<and> retry_processes t = retry_processes q
     \<and> rr_phase t = RETRY_FINALIZED"

text \<open>
  A write the evidence justifies: a new receipt is RESERVED, another follows the one it replaces
  and is FINALIZED only beside its tombstone; a tombstone is written once, for a receipt that is
  FINALIZING.
\<close>

inductive evidence_write :: "dispatch_disk \<Rightarrow> dispatch_disk \<Rightarrow> bool" where
  new_receipt: "dict_get d (ReceiptFile i) = None \<Longrightarrow> decode_receipt b = Inr r \<Longrightarrow> dr_dispatch_id r = i \<Longrightarrow>
    dr_phase r = RESERVED \<Longrightarrow> evidence_write d (dict_set (ReceiptFile i) b d)"
| next_receipt: "holds_receipt d i r \<Longrightarrow> decode_receipt b = Inr s \<Longrightarrow> receipt_follows r s \<Longrightarrow>
    (dr_phase s = FINALIZED \<Longrightarrow> \<exists>t. holds_tombstone d i t \<and> tombstone_fits s t) \<Longrightarrow>
    evidence_write d (dict_set (ReceiptFile i) b d)"
| new_tombstone: "dict_get d (TombstoneFile i) = None \<Longrightarrow> decode_finalizer_tombstone b = Inr t \<Longrightarrow> holds_receipt d i r \<Longrightarrow>
    dr_phase r = FINALIZING \<Longrightarrow> tombstone_fits r t \<Longrightarrow> evidence_write d (dict_set (TombstoneFile i) b d)"
| new_retry: "dict_get d (RetryReceiptFile i) = None \<Longrightarrow> decode_retry_receipt ''retry receipt'' b = Inr q \<Longrightarrow>
    rr_next_dispatch_id q = i \<Longrightarrow> rr_phase q = RETRY_RESERVED \<Longrightarrow> evidence_write d (dict_set (RetryReceiptFile i) b d)"
| next_retry: "holds_retry d i q \<Longrightarrow> decode_retry_receipt ''retry receipt'' b = Inr s \<Longrightarrow> retry_follows q s \<Longrightarrow>
    (rr_phase s = RETRY_FINALIZED \<Longrightarrow> \<exists>t. holds_retry_tombstone d i t \<and> retry_fits s t) \<Longrightarrow>
    evidence_write d (dict_set (RetryReceiptFile i) b d)"
| new_retry_tombstone: "dict_get d (RetryTombstoneFile i) = None \<Longrightarrow> decode_retry_receipt ''retry tombstone'' b = Inr t \<Longrightarrow>
    holds_retry d i q \<Longrightarrow> rr_phase q = RETRY_FINALIZING \<Longrightarrow> retry_fits q t \<Longrightarrow>
    evidence_write d (dict_set (RetryTombstoneFile i) b d)"

inductive_cases evidence_writeE: "evidence_write d d'"

definition receipts_ok :: "dispatch_disk \<Rightarrow> bool" where
  "receipts_ok d \<longleftrightarrow>
     (\<forall>i. dict_get d (ReceiptFile i) \<noteq> None \<longrightarrow> (\<exists>r. holds_receipt d i r \<and> dr_dispatch_id r = i
        \<and> (dr_phase r = FINALIZED \<longrightarrow> dict_get d (TombstoneFile i) \<noteq> None)))
   \<and> (\<forall>i. dict_get d (TombstoneFile i) \<noteq> None \<longrightarrow> (\<exists>t r. holds_tombstone d i t \<and> holds_receipt d i r
        \<and> tombstone_fits r t \<and> 3 \<le> receipt_position (dr_phase r)))"

definition retries_ok :: "dispatch_disk \<Rightarrow> bool" where
  "retries_ok d \<longleftrightarrow>
     (\<forall>i. dict_get d (RetryReceiptFile i) \<noteq> None \<longrightarrow> (\<exists>q. holds_retry d i q \<and> rr_next_dispatch_id q = i
        \<and> (rr_phase q = RETRY_FINALIZED \<longrightarrow> dict_get d (RetryTombstoneFile i) \<noteq> None)))
   \<and> (\<forall>i. dict_get d (RetryTombstoneFile i) \<noteq> None \<longrightarrow> (\<exists>t q. holds_retry_tombstone d i t \<and> holds_retry d i q
        \<and> retry_fits q t \<and> 4 \<le> retry_position (rr_phase q)))"

definition dispatch_inv :: "dispatch_disk \<Rightarrow> bool" where
  "dispatch_inv d \<longleftrightarrow> receipts_ok d \<and> retries_ok d"

lemmas dispatch_holds = holds_receipt_def holds_tombstone_def holds_retry_def holds_retry_tombstone_def

lemma dispatch_inv_empty: "dispatch_inv []"
  by (simp add: dispatch_inv_def receipts_ok_def retries_ok_def)

lemma dispatch_unique:
  "holds_receipt d i r \<Longrightarrow> holds_receipt d i s \<Longrightarrow> r = s"
  "holds_tombstone d i t \<Longrightarrow> holds_tombstone d i u \<Longrightarrow> t = u"
  "holds_retry d i q \<Longrightarrow> holds_retry d i q' \<Longrightarrow> q = q'"
  "holds_retry_tombstone d i q \<Longrightarrow> holds_retry_tombstone d i q' \<Longrightarrow> q = q'"
  by (auto simp: dispatch_holds)

text \<open>What a disk holds after one more write.\<close>

lemma dispatch_set:
  "holds_receipt (dict_set p b d) i r \<longleftrightarrow> (if p = ReceiptFile i then decode_receipt b = Inr r else holds_receipt d i r)"
  "holds_tombstone (dict_set p b d) i t \<longleftrightarrow> (if p = TombstoneFile i then decode_finalizer_tombstone b = Inr t else holds_tombstone d i t)"
  "holds_retry (dict_set p b d) i q \<longleftrightarrow>
     (if p = RetryReceiptFile i then decode_retry_receipt ''retry receipt'' b = Inr q else holds_retry d i q)"
  "holds_retry_tombstone (dict_set p b d) i q \<longleftrightarrow>
     (if p = RetryTombstoneFile i then decode_retry_receipt ''retry tombstone'' b = Inr q else holds_retry_tombstone d i q)"
  by (auto simp: dispatch_holds dict_get_set)

lemma dispatch_stored:
  "holds_receipt d i r \<Longrightarrow> dict_get d (ReceiptFile i) \<noteq> None"
  "holds_tombstone d i t \<Longrightarrow> dict_get d (TombstoneFile i) \<noteq> None"
  "holds_retry d i q \<Longrightarrow> dict_get d (RetryReceiptFile i) \<noteq> None"
  "holds_retry_tombstone d i q \<Longrightarrow> dict_get d (RetryTombstoneFile i) \<noteq> None"
  by (auto simp: dispatch_holds)

lemma inv_receipt:
  assumes "dispatch_inv d" and "holds_receipt d i r"
  shows "dr_dispatch_id r = i \<and> (dr_phase r = FINALIZED \<longrightarrow> (\<exists>t. holds_tombstone d i t \<and> tombstone_fits r t))"
  using assms dispatch_unique dispatch_stored(1) [OF assms(2)] unfolding dispatch_inv_def receipts_ok_def by metis

lemma inv_tombstone:
  assumes "dispatch_inv d" and "holds_tombstone d i t"
  obtains r where "holds_receipt d i r" "tombstone_fits r t" "3 \<le> receipt_position (dr_phase r)"
  using assms dispatch_unique dispatch_stored(2) [OF assms(2)] unfolding dispatch_inv_def receipts_ok_def by metis

lemma inv_retry:
  assumes "dispatch_inv d" and "holds_retry d i q"
  shows "rr_next_dispatch_id q = i \<and> (rr_phase q = RETRY_FINALIZED \<longrightarrow> (\<exists>t. holds_retry_tombstone d i t \<and> retry_fits q t))"
  using assms dispatch_unique dispatch_stored(3) [OF assms(2)] unfolding dispatch_inv_def retries_ok_def by metis

lemma inv_retry_tombstone:
  assumes "dispatch_inv d" and "holds_retry_tombstone d i t"
  obtains q where "holds_retry d i q" "retry_fits q t" "4 \<le> retry_position (rr_phase q)"
  using assms dispatch_unique dispatch_stored(4) [OF assms(2)] unfolding dispatch_inv_def retries_ok_def by metis

lemma fits_follows:
  assumes "tombstone_fits r t" and "receipt_follows r s"
  shows "tombstone_fits s t"
  using assms by (auto simp: tombstone_fits_def same_dispatch_def receipt_follows_def receipt_identity_def)

lemma retry_fits_follows:
  assumes "retry_fits q t" and "retry_follows q s" and "3 \<le> retry_position (rr_phase q)"
  shows "retry_fits s t"
  using assms by (auto simp: retry_fits_def retry_follows_def)

lemma follows_position:
  "receipt_follows r s \<Longrightarrow> receipt_position (dr_phase r) \<le> receipt_position (dr_phase s)"
  "retry_follows q u \<Longrightarrow> retry_position (rr_phase q) \<le> retry_position (rr_phase u)"
  by (auto simp: receipt_follows_def retry_follows_def)

lemma other_files:
  "p \<notin> range ReceiptFile \<Longrightarrow> p \<notin> range TombstoneFile \<Longrightarrow> receipts_ok (dict_set p b d) = receipts_ok d"
  "p \<notin> range RetryReceiptFile \<Longrightarrow> p \<notin> range RetryTombstoneFile \<Longrightarrow> retries_ok (dict_set p b d) = retries_ok d"
  unfolding receipts_ok_def retries_ok_def dispatch_set dict_get_set by (auto simp: image_iff)

lemma write_receipt_ok:
  assumes "receipts_ok d" and "decode_receipt b = Inr s" and "dr_dispatch_id s = i"
    and "dr_phase s = FINALIZED \<Longrightarrow> dict_get d (TombstoneFile i) \<noteq> None"
    and "\<And>t r. holds_tombstone d i t \<Longrightarrow> holds_receipt d i r \<Longrightarrow> tombstone_fits r t \<Longrightarrow> 3 \<le> receipt_position (dr_phase r) \<Longrightarrow>
      tombstone_fits s t \<and> 3 \<le> receipt_position (dr_phase s)"
  shows "receipts_ok (dict_set (ReceiptFile i) b d)"
  unfolding receipts_ok_def
proof (rule conjI; intro allI impI)
  fix j assume "dict_get (dict_set (ReceiptFile i) b d) (ReceiptFile j) \<noteq> None"
  with assms(1-4) show "\<exists>r. holds_receipt (dict_set (ReceiptFile i) b d) j r \<and> dr_dispatch_id r = j
      \<and> (dr_phase r = FINALIZED \<longrightarrow> dict_get (dict_set (ReceiptFile i) b d) (TombstoneFile j) \<noteq> None)"
    unfolding receipts_ok_def dispatch_set dict_get_set by (cases "j = i") auto
next
  fix j assume "dict_get (dict_set (ReceiptFile i) b d) (TombstoneFile j) \<noteq> None"
  then have "dict_get d (TombstoneFile j) \<noteq> None" by (simp add: dict_get_set)
  with assms(1) obtain t r where t: "holds_tombstone d j t" "holds_receipt d j r" "tombstone_fits r t"
    "3 \<le> receipt_position (dr_phase r)" unfolding receipts_ok_def by blast
  with assms(2,5) show "\<exists>t r. holds_tombstone (dict_set (ReceiptFile i) b d) j t \<and> holds_receipt (dict_set (ReceiptFile i) b d) j r
      \<and> tombstone_fits r t \<and> 3 \<le> receipt_position (dr_phase r)"
    unfolding dispatch_set by (cases "j = i") auto
qed

lemma write_retry_ok:
  assumes "retries_ok d" and "decode_retry_receipt ''retry receipt'' b = Inr s" and "rr_next_dispatch_id s = i"
    and "rr_phase s = RETRY_FINALIZED \<Longrightarrow> dict_get d (RetryTombstoneFile i) \<noteq> None"
    and "\<And>t q. holds_retry_tombstone d i t \<Longrightarrow> holds_retry d i q \<Longrightarrow> retry_fits q t \<Longrightarrow> 4 \<le> retry_position (rr_phase q) \<Longrightarrow>
      retry_fits s t \<and> 4 \<le> retry_position (rr_phase s)"
  shows "retries_ok (dict_set (RetryReceiptFile i) b d)"
  unfolding retries_ok_def
proof (rule conjI; intro allI impI)
  fix j assume "dict_get (dict_set (RetryReceiptFile i) b d) (RetryReceiptFile j) \<noteq> None"
  with assms(1-4) show "\<exists>q. holds_retry (dict_set (RetryReceiptFile i) b d) j q \<and> rr_next_dispatch_id q = j
      \<and> (rr_phase q = RETRY_FINALIZED \<longrightarrow> dict_get (dict_set (RetryReceiptFile i) b d) (RetryTombstoneFile j) \<noteq> None)"
    unfolding retries_ok_def dispatch_set dict_get_set by (cases "j = i") auto
next
  fix j assume "dict_get (dict_set (RetryReceiptFile i) b d) (RetryTombstoneFile j) \<noteq> None"
  then have "dict_get d (RetryTombstoneFile j) \<noteq> None" by (simp add: dict_get_set)
  with assms(1) obtain t q where t: "holds_retry_tombstone d j t" "holds_retry d j q" "retry_fits q t"
    "4 \<le> retry_position (rr_phase q)" unfolding retries_ok_def by blast
  with assms(2,5) show "\<exists>t q. holds_retry_tombstone (dict_set (RetryReceiptFile i) b d) j t
      \<and> holds_retry (dict_set (RetryReceiptFile i) b d) j q \<and> retry_fits q t \<and> 4 \<le> retry_position (rr_phase q)"
    unfolding dispatch_set by (cases "j = i") auto
qed

lemma write_tombstone_ok:
  assumes "receipts_ok d" and "decode_finalizer_tombstone b = Inr t" and "holds_receipt d i r" and "tombstone_fits r t"
    and "3 \<le> receipt_position (dr_phase r)"
  shows "receipts_ok (dict_set (TombstoneFile i) b d)"
  using assms unfolding receipts_ok_def dispatch_set dict_get_set by simp blast

lemma write_retry_tombstone_ok:
  assumes "retries_ok d" and "decode_retry_receipt ''retry tombstone'' b = Inr t" and "holds_retry d i q" and "retry_fits q t"
    and "4 \<le> retry_position (rr_phase q)"
  shows "retries_ok (dict_set (RetryTombstoneFile i) b d)"
  using assms unfolding retries_ok_def dispatch_set dict_get_set by simp blast

lemma evidence_write_inv:
  assumes "evidence_write d d'" and "dispatch_inv d"
  shows "dispatch_inv d'"
  using assms(1)
proof cases
  case (new_receipt i b r)
  have "receipts_ok d'" unfolding new_receipt(1)
    by (rule write_receipt_ok) (use assms(2) new_receipt dispatch_stored(1) in \<open>auto simp: dispatch_inv_def\<close>)
  with assms(2) show ?thesis by (simp add: dispatch_inv_def new_receipt(1) other_files image_iff)
next
  case (next_receipt i r b s)
  have i: "dr_dispatch_id s = i" using inv_receipt [OF assms(2) next_receipt(2)] next_receipt(4)
    by (simp add: receipt_follows_def receipt_identity_def)
  have "receipts_ok d'" unfolding next_receipt(1)
  proof (rule write_receipt_ok [OF _ next_receipt(3) i])
    show "receipts_ok d" using assms(2) by (simp add: dispatch_inv_def)
    show "dict_get d (TombstoneFile i) \<noteq> None" if "dr_phase s = FINALIZED"
      using next_receipt(5) [OF that] dispatch_stored(2) by blast
    show "tombstone_fits s t \<and> 3 \<le> receipt_position (dr_phase s)"
      if "holds_receipt d i q" "tombstone_fits q t" "3 \<le> receipt_position (dr_phase q)" for t q
      using that fits_follows follows_position(1) [OF next_receipt(4)] dispatch_unique(1) [OF that(1) next_receipt(2)]
        next_receipt(4) by auto
  qed
  with assms(2) show ?thesis by (simp add: dispatch_inv_def next_receipt(1) other_files image_iff)
next
  case (new_tombstone i b t r)
  have "receipts_ok d'" unfolding new_tombstone(1)
    by (rule write_tombstone_ok) (use assms(2) new_tombstone in \<open>auto simp: dispatch_inv_def\<close>)
  with assms(2) show ?thesis by (simp add: dispatch_inv_def new_tombstone(1) other_files image_iff)
next
  case (new_retry i b q)
  have "retries_ok d'" unfolding new_retry(1)
    by (rule write_retry_ok) (use assms(2) new_retry dispatch_stored(3) in \<open>auto simp: dispatch_inv_def\<close>)
  with assms(2) show ?thesis by (simp add: dispatch_inv_def new_retry(1) other_files image_iff)
next
  case (next_retry i q b s)
  have i: "rr_next_dispatch_id s = i" using inv_retry [OF assms(2) next_retry(2)] next_retry(4)
    by (simp add: retry_follows_def retry_identity_def)
  have "retries_ok d'" unfolding next_retry(1)
  proof (rule write_retry_ok [OF _ next_retry(3) i])
    show "retries_ok d" using assms(2) by (simp add: dispatch_inv_def)
    show "dict_get d (RetryTombstoneFile i) \<noteq> None" if "rr_phase s = RETRY_FINALIZED"
      using next_retry(5) [OF that] dispatch_stored(4) by blast
    show "retry_fits s t \<and> 4 \<le> retry_position (rr_phase s)"
      if "holds_retry d i v" "retry_fits v t" "4 \<le> retry_position (rr_phase v)" for t v
      using that retry_fits_follows follows_position(2) [OF next_retry(4)] dispatch_unique(3) [OF that(1) next_retry(2)]
        next_retry(4) by auto
  qed
  with assms(2) show ?thesis by (simp add: dispatch_inv_def next_retry(1) other_files image_iff)
next
  case (new_retry_tombstone i b t q)
  have "retries_ok d'" unfolding new_retry_tombstone(1)
    by (rule write_retry_tombstone_ok) (use assms(2) new_retry_tombstone in \<open>auto simp: dispatch_inv_def\<close>)
  with assms(2) show ?thesis by (simp add: dispatch_inv_def new_retry_tombstone(1) other_files image_iff)
qed

section \<open>Every operation writes what the evidence justifies\<close>

text \<open>The writes of an operation, one after the other, each on the disk the earlier ones left.\<close>

fun justified_writes :: "dispatch_disk \<Rightarrow> (dispatch_file \<times> string) list \<Rightarrow> bool" where
  "justified_writes d [] = True"
| "justified_writes d ((p, b) # ws) \<longleftrightarrow> evidence_write d (dict_set p b d) \<and> justified_writes (dict_set p b d) ws"

lemma justified_prefix: "justified_writes d ws \<Longrightarrow> evidence_write\<^sup>*\<^sup>* d (commit (take k ws) d)"
proof (induction d ws arbitrary: k rule: justified_writes.induct)
  case (2 d p b ws)
  then show ?case by (cases k) (auto simp: commit_simps intro: converse_rtranclp_into_rtranclp)
qed (simp add: commit_simps)

lemma dispatch_ensuring: "justified_writes d (snd r) \<Longrightarrow> justified_writes d (snd (ensuring gs r))"
  by (simp add: ensuring_def split: option.split)

lemma dispatch_reading: "(\<And>y. v = Inr y \<Longrightarrow> justified_writes d (snd (f y))) \<Longrightarrow> justified_writes d (snd (reading v f))"
  by (cases v) simp_all

lemma guarded_writes:
  assumes "raise_first gs = None \<Longrightarrow> justified_writes d (snd r)"
  shows "justified_writes d (snd (ensuring gs r))"
  using assms by (simp add: ensuring_def split: option.split)

lemma read_file_Some:
  assumes "read_file file decode name i d = Inr (Some r)"
  shows "\<exists>b. dict_get d (file i) = Some b \<and> decode b = Inr r"
  using assms by (auto simp: read_file_def res_simps split: option.split_asm)

lemma read_file_None: "read_file file decode name i d = Inr None \<Longrightarrow> dict_get d (file i) = None"
  by (auto simp: read_file_def res_simps split: option.split_asm)

lemma read_holds:
  "read_dispatch_receipt i d = Inr (Some r) \<Longrightarrow> holds_receipt d i r"
  "read_dispatch_tombstone i d = Inr (Some t) \<Longrightarrow> holds_tombstone d i t"
  "read_retry_receipt i d = Inr (Some q) \<Longrightarrow> holds_retry d i q"
  "read_retry_tombstone i d = Inr (Some q) \<Longrightarrow> holds_retry_tombstone d i q"
  unfolding read_dispatch_receipt_def read_dispatch_tombstone_def read_retry_receipt_def read_retry_tombstone_def dispatch_holds
  by (erule read_file_Some)+

lemma read_absent:
  "read_dispatch_receipt i d = Inr None \<Longrightarrow> dict_get d (ReceiptFile i) = None"
  "read_dispatch_tombstone i d = Inr None \<Longrightarrow> dict_get d (TombstoneFile i) = None"
  "read_retry_receipt i d = Inr None \<Longrightarrow> dict_get d (RetryReceiptFile i) = None"
  "read_retry_tombstone i d = Inr None \<Longrightarrow> dict_get d (RetryTombstoneFile i) = None"
  unfolding read_dispatch_receipt_def read_dispatch_tombstone_def read_retry_receipt_def read_retry_tombstone_def
  by (erule read_file_None)+

lemma justified_receipt:
  assumes "evidence_write d (dict_set (ReceiptFile (dr_dispatch_id r)) (receipt_bytes r) d)"
  shows "justified_writes d (snd (write_receipt r (returning x)))"
  using assms by (simp add: write_receipt_def ensuring_def returning_def split: option.split)

lemma justified_retry:
  assumes "evidence_write d (dict_set (RetryReceiptFile (rr_next_dispatch_id q)) (retry_receipt_bytes q) d)"
  shows "justified_writes d (snd (write_retry_receipt q (returning x)))"
  using assms by (simp add: write_retry_receipt_def ensuring_def returning_def split: option.split)

lemma made_read:
  "make_receipt r = Inr r' \<Longrightarrow> r' = r \<and> decode_receipt (receipt_bytes r) = Inr r"
  "make_retry_receipt q = Inr q' \<Longrightarrow> q' = q \<and> decode_retry_receipt name (retry_receipt_bytes q) = Inr q"
  "make_tombstone t = Inr t' \<Longrightarrow> t' = t \<and> decode_finalizer_tombstone (tombstone_bytes t) = Inr t"
  by (auto simp: make_evidence dispatch_evidence_read)

lemma reserve_receipt_justified: "justified_writes d (snd (reserve_receipt now r d))"
  unfolding reserve_receipt_def
proof (intro dispatch_reading guarded_writes)
  fix e s
  let ?r = "r\<lparr>dr_schema_version := EVIDENCE_SCHEMA_VERSION, dr_platform := ''posix'', dr_phase := RESERVED,
      dr_supervisor_pid := None, dr_supervisor_creation_time := None, dr_worker_pid := None,
      dr_worker_creation_time := None, dr_worker_process_group := None, dr_written_at := now\<rparr>"
  assume "read_dispatch_receipt (dr_dispatch_id r) d = Inr e"
    "raise_first [(e \<noteq> None, DispatchSupervisorPhaseError ''receipt already exists for dispatch'')] = None"
  then have absent: "dict_get d (ReceiptFile (dr_dispatch_id r)) = None" using read_absent(1) by simp
  assume "make_receipt ?r = Inr s"
  from made_read(1) [OF this] show "justified_writes d (snd (write_receipt s (returning s)))"
    using absent by (auto intro!: justified_receipt new_receipt)
qed

text \<open>An advance writes a receipt that follows the one it read.\<close>

lemma dispatch_advance_justified:
  assumes "dispatch_inv d" and "target \<noteq> FINALIZED"
    and "\<And>r. ALLOWED_TRANSITIONS (dr_phase r) = Some target \<Longrightarrow> dr_phase (update r) = target \<and> receipt_follows r (update r)"
  shows "justified_writes d (snd (advance_receipt i generation target update d))"
  unfolding advance_receipt_def
proof (intro dispatch_reading, split option.split, intro conjI allI impI guarded_writes dispatch_reading)
  fix e r s assume "read_dispatch_receipt i d = Inr e" "e = Some r"
    and ok: "raise_first (enforce_transition r target generation) = None" and s: "make_receipt (update r) = Inr s"
  then have r: "holds_receipt d i r" using read_holds(1) by simp
  from ok have next_phase: "dr_phase (update r) = target \<and> receipt_follows r (update r)"
    using assms(3) by (simp add: enforce_transition_def)
  then have "dr_dispatch_id (update r) = i"
    using inv_receipt [OF assms(1) r] by (simp add: receipt_follows_def receipt_identity_def)
  with made_read(1) [OF s] r next_phase assms(2) show "justified_writes d (snd (write_receipt s (returning s)))"
    by (auto intro!: justified_receipt next_receipt)
qed simp

lemma allowed_position: "ALLOWED_TRANSITIONS p = Some q \<Longrightarrow> receipt_position q = receipt_position p + 1"
  by (cases p) auto

lemma retry_allowed_position: "RETRY_ALLOWED_TRANSITIONS p = Some q \<Longrightarrow> retry_position q = retry_position p + 1"
  by (cases p) auto

lemma advances_justified:
  assumes "dispatch_inv d"
  shows "justified_writes d (snd (advance_to_supervisor_ready now i g pid c d))"
    "justified_writes d (snd (advance_to_worker_started now i g pid c pg d))"
    "justified_writes d (snd (advance_to_finalizing now i g d))"
  unfolding advance_to_supervisor_ready_def advance_to_worker_started_def advance_to_finalizing_def
  by (rule dispatch_advance_justified [OF assms]; auto dest: allowed_position
      simp: receipt_follows_def receipt_identity_def receipt_supervisor_def receipt_worker_def)+

text \<open>Finishing a receipt is justified once its tombstone is there.\<close>

lemma finish_justified:
  assumes "dispatch_inv d" and "holds_receipt d i r" and "dr_phase r = FINALIZING" and "holds_tombstone d i t"
    and "tombstone_fits r t"
  shows "justified_writes d (snd (finish_receipt now r x))"
  unfolding finish_receipt_def
proof (rule dispatch_reading)
  fix s assume s: "make_receipt (r\<lparr>dr_phase := FINALIZED, dr_written_at := now\<rparr>) = Inr s"
  have "receipt_follows r (r\<lparr>dr_phase := FINALIZED, dr_written_at := now\<rparr>)"
    using assms(3) by (simp add: receipt_follows_def receipt_identity_def receipt_supervisor_def receipt_worker_def)
  with made_read(1) [OF s] have follows: "receipt_follows r s" by simp
  have "dr_dispatch_id s = i" using inv_receipt [OF assms(1,2)] made_read(1) [OF s] by simp
  moreover have "evidence_write d (dict_set (ReceiptFile i) (receipt_bytes s) d)"
    using assms(2) made_read(1) [OF s] follows assms(4) fits_follows [OF assms(5) follows]
    by (intro next_receipt) auto
  ultimately show "justified_writes d (snd (write_receipt s (returning x)))" by (intro justified_receipt) simp
qed

lemma replay_justified:
  assumes "dispatch_inv d" and "holds_receipt d i r" and "holds_tombstone d i e" and "tombstone_fits r t"
  shows "justified_writes d (snd (replay_tombstone now r e t))"
  unfolding replay_tombstone_def
proof (rule guarded_writes)
  assume "raise_first
     [(ft_generation_id e \<noteq> ft_generation_id t,
        DispatchSupervisorFencingError ''tombstone generation mismatch -- refusing overwrite''),
      (\<not> same_content e t, DispatchSupervisorPhaseError ''tombstone already exists with different content'')] = None"
  with assms(4) have "tombstone_fits r e" by (simp add: tombstone_fits_def same_content_def same_dispatch_def all_done_def)
  then show "justified_writes d (snd (if dr_phase r = FINALIZED then returning e
      else if dr_phase r = FINALIZING then finish_receipt now r e
      else failing (DispatchSupervisorPhaseError ''tombstone exists but receipt is not FINALIZING or FINALIZED'')))"
    by (simp add: finish_justified [OF assms(1,2) _ assms(3)])
qed

lemma first_tombstone_justified:
  assumes "dispatch_inv d" and "holds_receipt d (ft_dispatch_id t) r" and "dict_get d (TombstoneFile (ft_dispatch_id t)) = None"
    and "tombstone_fits r t" and "decode_finalizer_tombstone (tombstone_bytes t) = Inr t"
  shows "justified_writes d (snd (first_tombstone now r t))"
  unfolding first_tombstone_def
proof (rule guarded_writes)
  let ?i = "ft_dispatch_id t"
  let ?d = "dict_set (TombstoneFile ?i) (tombstone_bytes t) d"
  assume "raise_first
     [(dr_phase r = FINALIZED, DispatchSupervisorPhaseError ''receipt FINALIZED but tombstone missing''),
      (dr_phase r \<noteq> FINALIZING, DispatchSupervisorPhaseError ''receipt must be in FINALIZING phase'')] = None"
  then have phase: "dr_phase r = FINALIZING" by simp
  have w: "evidence_write d ?d" by (rule new_tombstone [OF assms(3,5,2) phase assms(4)])
  have "justified_writes ?d (snd (finish_receipt now r t))"
    by (rule finish_justified [OF evidence_write_inv [OF w assms(1)], where i = ?i, OF _ phase _ assms(4)])
      (use assms(2,5) in \<open>simp_all add: dispatch_set\<close>)
  with w show "justified_writes d (snd (storing (TombstoneFile ?i) (Inr (tombstone_bytes t)) (finish_receipt now r t)))" by simp
qed

lemma write_finalizer_tombstone_justified:
  assumes "dispatch_inv d"
  shows "justified_writes d (snd (write_finalizer_tombstone now later t d))"
  unfolding write_finalizer_tombstone_def
proof (intro guarded_writes dispatch_reading)
  fix t' e v
  assume complete: "raise_first [(\<not> all_done t, DispatchSupervisorPhaseError
      ''FINALIZED requires worker_done, heartbeat_done, and release_completed'')] = None"
    and t: "make_tombstone (t\<lparr>ft_schema_version := EVIDENCE_SCHEMA_VERSION, ft_finalized_at := now\<rparr>) = Inr t'"
    and e: "read_dispatch_tombstone (ft_dispatch_id t') d = Inr e" and v: "read_dispatch_receipt (ft_dispatch_id t') d = Inr v"
  from made_read(3) [OF t] have t': "all_done t'" "decode_finalizer_tombstone (tombstone_bytes t') = Inr t'"
    using complete by (simp_all add: all_done_def)
  show "justified_writes d (snd (case v of None \<Rightarrow> failing (DispatchSupervisorPhaseError ''receipt not found'')
     | Some r \<Rightarrow> ensuring
        [(dr_generation_id r \<noteq> ft_generation_id t',
           DispatchSupervisorFencingError ''receipt generation mismatch -- refusing finalization''),
         (\<not> same_dispatch r t', DispatchSupervisorPhaseError ''receipt identity mismatch -- refusing finalization'')]
        (case e of Some e \<Rightarrow> replay_tombstone later r e t' | None \<Rightarrow> first_tombstone later r t')))"
  proof (cases v)
    case (Some r)
    with v read_holds(1) have r: "holds_receipt d (ft_dispatch_id t') r" by simp
    show ?thesis unfolding Some option.case
    proof (rule guarded_writes)
      assume "raise_first
        [(dr_generation_id r \<noteq> ft_generation_id t',
           DispatchSupervisorFencingError ''receipt generation mismatch -- refusing finalization''),
         (\<not> same_dispatch r t', DispatchSupervisorPhaseError ''receipt identity mismatch -- refusing finalization'')] = None"
      with t' have fits: "tombstone_fits r t'" by (simp add: tombstone_fits_def)
      with e read_holds(2) read_absent(2) t'(2) r
      show "justified_writes d (snd (case e of Some e \<Rightarrow> replay_tombstone later r e t' | None \<Rightarrow> first_tombstone later r t'))"
        by (auto split: option.split intro: replay_justified [OF assms] first_tombstone_justified [OF assms])
    qed
  qed simp
qed

lemma advance_retry_justified:
  assumes "\<And>q. holds_retry d i q \<Longrightarrow> RETRY_ALLOWED_TRANSITIONS (rr_phase q) = Some target \<Longrightarrow>
      rr_recovery_generation_id q = generation \<Longrightarrow> justified_writes d (snd (k q))"
  shows "justified_writes d (snd (advance_retry i generation target k d))"
  unfolding advance_retry_def
proof (rule dispatch_reading)
  fix e assume e: "read_retry_receipt i d = Inr e"
  show "justified_writes d (snd (case e of None \<Rightarrow> failing (DispatchSupervisorFencingError ''retry receipt not found'')
      | Some q \<Rightarrow> ensuring (enforce_retry_transition q target generation) (k q)))"
  proof (cases e)
    case (Some q)
    with e read_holds(3) have "holds_retry d i q" by simp
    show ?thesis unfolding Some option.case
    proof (rule guarded_writes)
      assume "raise_first (enforce_retry_transition q target generation) = None"
      with assms [OF \<open>holds_retry d i q\<close>] show "justified_writes d (snd (k q))" by (simp add: enforce_retry_transition_def)
    qed
  qed simp
qed

lemma next_retry_justified:
  assumes "dispatch_inv d" and "holds_retry d i q" and "retry_follows q q'" and "make_retry_receipt q' = Inr s"
    and "rr_phase q' = RETRY_FINALIZED \<Longrightarrow> \<exists>t. holds_retry_tombstone d i t \<and> retry_fits q' t"
  shows "justified_writes d (snd (write_retry_receipt s (returning x)))"
proof -
  from made_read(2) [OF assms(4)] have s: "s = q'" "decode_retry_receipt ''retry receipt'' (retry_receipt_bytes q') = Inr q'" by blast+
  have "rr_next_dispatch_id q' = i" using inv_retry [OF assms(1,2)] assms(3) by (simp add: retry_follows_def retry_identity_def)
  with next_retry [OF assms(2) s(2) assms(3,5)] show ?thesis unfolding s(1) by (intro justified_retry) simp
qed

text \<open>An advance that only updates the receipt, to a phase before the last.\<close>

lemma retry_advance_justified:
  assumes "dispatch_inv d" and "target \<noteq> RETRY_FINALIZED"
    and "\<And>q. RETRY_ALLOWED_TRANSITIONS (rr_phase q) = Some target \<Longrightarrow> rr_phase (update q) = target \<and> retry_follows q (update q)"
  shows "justified_writes d (snd (advance_retry i g target (\<lambda>q.
    reading (make_retry_receipt (update q)) (\<lambda>updated. write_retry_receipt updated (returning updated))) d))"
proof (intro advance_retry_justified dispatch_reading)
  fix q s assume q: "holds_retry d i q" "RETRY_ALLOWED_TRANSITIONS (rr_phase q) = Some target"
    and s: "make_retry_receipt (update q) = Inr s"
  from assms(2) assms(3) [OF q(2)] show "justified_writes d (snd (write_retry_receipt s (returning s)))"
    by (intro next_retry_justified [OF assms(1) q(1) _ s]) auto
qed

lemma retry_advances_justified:
  assumes "dispatch_inv d"
  shows "justified_writes d (snd (advance_retry_to_started now i g p c b p' c' b' d))"
    and "justified_writes d (snd (advance_retry_to_finalizing i g d))"
proof -
  show "justified_writes d (snd (advance_retry_to_started now i g p c b p' c' b' d))"
    unfolding advance_retry_to_started_def
    by (rule retry_advance_justified [OF assms]; auto dest: retry_allowed_position simp: retry_follows_def retry_identity_def)
  show "justified_writes d (snd (advance_retry_to_finalizing i g d))"
    unfolding advance_retry_to_finalizing_def
    by (rule retry_advance_justified [OF assms];
        auto dest: retry_allowed_position simp: retry_follows_def retry_identity_def retry_processes_def)
qed

lemma finish_retry_justified:
  assumes "dispatch_inv d" and "holds_retry d i q" and "rr_phase q = RETRY_FINALIZING"
    and "read_retry_tombstone i d = Inr e"
    and "make_retry_receipt (q\<lparr>rr_phase := RETRY_FINALIZED, rr_finalized_at := Some now\<rparr>) = Inr s"
  shows "justified_writes d (snd (finish_retry i g q e s))"
proof -
  let ?q = "q\<lparr>rr_phase := RETRY_FINALIZED, rr_finalized_at := Some now\<rparr>"
  have follows: "retry_follows q ?q" using assms(3) by (simp add: retry_follows_def retry_identity_def retry_processes_def)
  note written = next_retry_justified [OF _ _ follows assms(5)]
  show ?thesis
  proof (cases e)
    case None
    let ?d = "dict_set (RetryTombstoneFile i) (retry_receipt_bytes s) d"
    have fits: "retry_fits q s" "retry_fits ?q s" using made_read(2) [OF assms(5)]
      by (simp_all add: retry_fits_def retry_identity_def retry_processes_def)
    have w: "evidence_write d ?d"
      using new_retry_tombstone [OF _ _ assms(2,3) fits(1)] read_absent(4) assms(4) made_read(2) [OF assms(5)] None by simp
    have "justified_writes ?d (snd (write_retry_receipt s (returning s)))"
      by (rule written [OF evidence_write_inv [OF w assms(1)]])
        (use assms(2) fits(2) made_read(2) [OF assms(5)] in \<open>auto simp: dispatch_set\<close>)
    with w show ?thesis by (simp add: finish_retry_def None guarded_writes)
  next
    case (Some t)
    with assms(4) read_holds(4) have t: "holds_retry_tombstone d i t" by simp
    from inv_retry_tombstone [OF assms(1) t] dispatch_unique(3) [OF assms(2)] have "retry_fits q t" by metis
    then have "retry_fits ?q t" by (simp add: retry_fits_def retry_identity_def retry_processes_def)
    with t have "justified_writes d (snd (write_retry_receipt s (returning t)))"
      by (intro written [OF assms(1,2)]) blast
    then show ?thesis by (simp add: finish_retry_def Some guarded_writes)
  qed
qed

lemma advance_retry_to_finalized_justified:
  assumes "dispatch_inv d"
  shows "justified_writes d (snd (advance_retry_to_finalized now i g d))"
  unfolding advance_retry_to_finalized_def
proof (intro advance_retry_justified dispatch_reading)
  fix q e s assume q: "holds_retry d i q" "RETRY_ALLOWED_TRANSITIONS (rr_phase q) = Some RETRY_FINALIZED"
    and e: "read_retry_tombstone i d = Inr e"
    and s: "make_retry_receipt (q\<lparr>rr_phase := RETRY_FINALIZED, rr_finalized_at := Some now\<rparr>) = Inr s"
  from q(2) have "rr_phase q = RETRY_FINALIZING" by (cases "rr_phase q") auto
  from finish_retry_justified [OF assms q(1) this e s] show "justified_writes d (snd (finish_retry i g q e s))" .
qed

lemma reserve_retry_justified: "justified_writes d (snd (reserve_retry_receipt now q d))"
  unfolding reserve_retry_receipt_def
proof (intro dispatch_reading)
  fix s e
  let ?q = "q\<lparr>rr_schema_version := RETRY_RECEIPT_SCHEMA_VERSION, rr_phase := RETRY_RESERVED,
      rr_supervisor_pid := None, rr_supervisor_creation_time := None, rr_supervisor_boot_id := None,
      rr_worker_pid := None, rr_worker_creation_time := None, rr_worker_boot_id := None, rr_reserved_at := now,
      rr_started_at := None, rr_finalized_at := None\<rparr>"
  assume s: "make_retry_receipt ?q = Inr s" and e: "read_retry_receipt (rr_next_dispatch_id s) d = Inr e"
  have "justified_writes d (snd (write_retry_receipt s (returning s)))" if "e = None"
    using made_read(2) [OF s] read_absent(3) e that by (auto intro!: justified_retry new_retry)
  then show "justified_writes d (snd (case e of
      Some e \<Rightarrow> ensuring
          [(rr_content_digest e \<noteq> rr_content_digest s,
             DispatchSupervisorPhaseError ''retry receipt already exists with different content''),
           (rr_recovery_generation_id e \<noteq> rr_recovery_generation_id s,
             DispatchSupervisorFencingError ''retry receipt generation mismatch''),
           (rr_phase e \<noteq> rr_phase s,
             DispatchSupervisorPhaseError ''retry receipt already exists with different phase'')]
          (returning e)
    | None \<Rightarrow> write_retry_receipt s (returning s)))"
    by (cases e) (simp_all add: guarded_writes)
qed

lemma operations_justified: "dispatch_inv d \<Longrightarrow> justified_writes d (dispatch_writes op d)"
  by (cases op) (simp_all add: reserve_receipt_justified advances_justified write_finalizer_tombstone_justified
      reserve_retry_justified retry_advances_justified advance_retry_to_finalized_justified)

section \<open>Runs of the store\<close>

lemma dispatch_step_writes:
  assumes "dispatch_step d d'" and "dispatch_inv d"
  shows "evidence_write\<^sup>*\<^sup>* d d'"
  using assms(1)
proof cases
  case (run op k)
  then show ?thesis using justified_prefix operations_justified [OF assms(2)] by simp
qed

interpretation receipt_history: tracked_system "\<lambda>d. d = []" evidence_write dispatch_inv
  "\<lambda>d (i, r). holds_receipt d i r" "\<lambda>(i, r) (j, s). i = j \<and> receipt_follows r s"
proof unfold_locales
  show "\<exists>y. (case y of (i, r) \<Rightarrow> holds_receipt t i r) \<and> (case x of (i, r) \<Rightarrow> \<lambda>(j, s). i = j \<and> receipt_follows r s) y"
    if "dispatch_inv d" "evidence_write d t" "case x of (i, r) \<Rightarrow> holds_receipt d i r" for d t x
  proof -
    from that(3) obtain i r where x: "x = (i, r)" "holds_receipt d i r" by (cases x) auto
    from that(2) have "\<exists>s. holds_receipt t i s \<and> receipt_follows r s"
    proof cases
      case (next_receipt j q b s)
      show ?thesis
      proof (cases "i = j")
        case True
        with dispatch_unique(1) [OF x(2)] next_receipt(2) have "q = r" by simp
        with next_receipt(3,4) True show ?thesis unfolding next_receipt(1) dispatch_set by simp
      next
        case False
        with x(2) receipt_follows_refl show ?thesis unfolding next_receipt(1) dispatch_set by auto
      qed
    qed (use x receipt_follows_refl in \<open>auto simp: dispatch_set dest: dispatch_stored\<close>)
    then show ?thesis by (auto simp: x(1))
  qed
qed (auto simp: dispatch_inv_empty receipt_follows_refl intro: evidence_write_inv receipt_follows_trans)

interpretation tombstone_history: tracked_system "\<lambda>d. d = []" evidence_write dispatch_inv
  "\<lambda>d (i, t). holds_tombstone d i t" "(=)"
proof unfold_locales
  show "\<exists>y. (case y of (i, u) \<Rightarrow> holds_tombstone t i u) \<and> x = y"
    if "dispatch_inv d" and w: "evidence_write d t" and held: "case x of (i, u) \<Rightarrow> holds_tombstone d i u" for d t x
    using w
  proof cases
    case (new_tombstone i b u r)
    with held show ?thesis by (cases x) (auto simp: dispatch_set dest: dispatch_stored)
  qed (use held in \<open>cases x; auto simp: dispatch_set\<close>)+
qed simp_all

interpretation retry_history: tracked_system "\<lambda>d. d = []" evidence_write dispatch_inv
  "\<lambda>d (i, q). holds_retry d i q" "\<lambda>(i, q) (j, s). i = j \<and> retry_follows q s"
proof unfold_locales
  show "\<exists>y. (case y of (i, q) \<Rightarrow> holds_retry t i q) \<and> (case x of (i, q) \<Rightarrow> \<lambda>(j, s). i = j \<and> retry_follows q s) y"
    if "dispatch_inv d" "evidence_write d t" "case x of (i, q) \<Rightarrow> holds_retry d i q" for d t x
  proof -
    from that(3) obtain i r where x: "x = (i, r)" "holds_retry d i r" by (cases x) auto
    from that(2) have "\<exists>s. holds_retry t i s \<and> retry_follows r s"
    proof cases
      case (next_retry j q b s)
      show ?thesis
      proof (cases "i = j")
        case True
        with dispatch_unique(3) [OF x(2)] next_retry(2) have "q = r" by simp
        with next_retry(3,4) True show ?thesis unfolding next_retry(1) dispatch_set by simp
      next
        case False
        with x(2) retry_follows_refl show ?thesis unfolding next_retry(1) dispatch_set by auto
      qed
    qed (use x retry_follows_refl in \<open>auto simp: dispatch_set dest: dispatch_stored\<close>)
    then show ?thesis by (auto simp: x(1))
  qed
qed (auto simp: retry_follows_refl intro: retry_follows_trans)

interpretation retry_tombstone_history: tracked_system "\<lambda>d. d = []" evidence_write dispatch_inv
  "\<lambda>d (i, t). holds_retry_tombstone d i t" "(=)"
proof unfold_locales
  show "\<exists>y. (case y of (i, u) \<Rightarrow> holds_retry_tombstone t i u) \<and> x = y"
    if "dispatch_inv d" and w: "evidence_write d t" and held: "case x of (i, u) \<Rightarrow> holds_retry_tombstone d i u" for d t x
    using w
  proof cases
    case (new_retry_tombstone i b u r)
    with held show ?thesis by (cases x) (auto simp: dispatch_set dest: dispatch_stored)
  qed (use held in \<open>cases x; auto simp: dispatch_set\<close>)+
qed simp_all

lemma dispatch_run_writes:
  assumes "dispatch_step\<^sup>*\<^sup>* d d'" and "dispatch_inv d"
  shows "evidence_write\<^sup>*\<^sup>* d d' \<and> dispatch_inv d'"
  using assms(1)
proof (induction rule: rtranclp_induct)
  case (step d' d'')
  then have "evidence_write\<^sup>*\<^sup>* d' d''" using dispatch_step_writes by blast
  with step show ?case using receipt_history.steps_inv by (metis rtranclp_trans)
qed (simp add: assms(2))

lemma dispatch_reachable: "dispatch_step\<^sup>*\<^sup>* [] d \<Longrightarrow> dispatch_inv d"
  using dispatch_run_writes dispatch_inv_empty by blast

section \<open>Properties\<close>

text \<open>
  C28. Every operation on dispatch evidence, stopped by a crash after any number of its writes,
  leaves a consistent store, and what it wrote is a sequence of single writes that the evidence
  justifies.
\<close>

theorem dispatch_operations_refine:
  assumes "dispatch_step\<^sup>*\<^sup>* [] d"
  shows "evidence_write\<^sup>*\<^sup>* d (commit (take k (dispatch_writes op d)) d) \<and> dispatch_inv (commit (take k (dispatch_writes op d)) d)"
proof -
  note inv = dispatch_reachable [OF assms]
  from justified_prefix [OF operations_justified [OF inv]]
  have "evidence_write\<^sup>*\<^sup>* d (commit (take k (dispatch_writes op d)) d)" .
  with receipt_history.steps_inv inv show ?thesis by blast
qed

text \<open>
  C27. Evidence of a dispatch only develops.  Whatever operations and crashes follow, a receipt keeps
  its task, attempt, lease, holder, generation and creator, its phase never goes back, and the
  processes it names stay once recorded; a tombstone stays as it is and a finalised receipt is
  final.
\<close>

theorem dispatch_evidence_kept:
  assumes "dispatch_step\<^sup>*\<^sup>* [] d" and "dispatch_step\<^sup>*\<^sup>* d d'"
  shows "(holds_receipt d i r \<longrightarrow> (\<exists>s. holds_receipt d' i s \<and> receipt_follows r s \<and> (dr_phase r = FINALIZED \<longrightarrow> s = r)))
    \<and> (holds_tombstone d i t \<longrightarrow> holds_tombstone d' i t)"
proof -
  note inv = dispatch_reachable [OF assms(1)]
  note run = dispatch_run_writes [OF assms(2) inv, THEN conjunct1]
  have "\<exists>s. holds_receipt d' i s \<and> receipt_follows r s" if "holds_receipt d i r"
    using receipt_history.steps_track [OF run inv, of "(i, r)"] that by auto
  moreover have "s = r" if "receipt_follows r s" "dr_phase r = FINALIZED" for s
    using that by (cases "dr_phase s") (auto simp: receipt_follows_def)
  moreover have "holds_tombstone d' i t" if "holds_tombstone d i t"
    using tombstone_history.steps_track [OF run inv, of "(i, t)"] that by auto
  ultimately show ?thesis by blast
qed

text \<open>
  C5. Finished means finished.  In every reachable store a finalised receipt has its tombstone, of the
  same task, attempt, dispatch and generation, which says that the worker, its heartbeat and the
  release are done; and a tombstone is there only while its receipt is finalising or finalised.
\<close>

theorem finalized_means_done:
  assumes "dispatch_step\<^sup>*\<^sup>* [] d"
  shows "(holds_receipt d i r \<and> dr_phase r = FINALIZED \<longrightarrow> (\<exists>t. holds_tombstone d i t \<and> same_dispatch r t
        \<and> ft_generation_id t = dr_generation_id r \<and> ft_worker_done t \<and> ft_heartbeat_done t \<and> ft_release_completed t))
    \<and> (holds_tombstone d i t \<longrightarrow> (\<exists>r. holds_receipt d i r \<and> dr_phase r \<in> {FINALIZING, FINALIZED} \<and> same_dispatch r t))"
proof -
  note inv = dispatch_reachable [OF assms]
  have late: "p \<in> {FINALIZING, FINALIZED}" if "3 \<le> receipt_position p" for p using that by (cases p) auto
  have "\<exists>r. holds_receipt d i r \<and> dr_phase r \<in> {FINALIZING, FINALIZED} \<and> same_dispatch r t" if "holds_tombstone d i t"
    by (rule inv_tombstone [OF inv that]) (use late in \<open>auto simp: tombstone_fits_def\<close>)
  moreover have "\<exists>t. holds_tombstone d i t \<and> tombstone_fits r t" if "holds_receipt d i r" "dr_phase r = FINALIZED"
    using inv_receipt [OF inv that(1)] that(2) by blast
  ultimately show ?thesis unfolding tombstone_fits_def all_done_def by metis
qed

text \<open>When the finalizer goes on, and what it does.\<close>

definition finalizer_ready :: "string \<Rightarrow> string \<Rightarrow> DispatchFinalizerTombstone \<Rightarrow> DispatchProcessReceipt \<Rightarrow> dispatch_disk \<Rightarrow> bool" where
  "finalizer_ready now later t r d \<longleftrightarrow> holds_receipt d (ft_dispatch_id t) r \<and> tombstone_fits r t
     \<and> tombstone_valid (t\<lparr>ft_schema_version := EVIDENCE_SCHEMA_VERSION, ft_finalized_at := now\<rparr>)
     \<and> RFC3339_RE later \<and> dr_phase r \<in> {FINALIZING, FINALIZED}
     \<and> (dr_phase r = FINALIZED \<longrightarrow> dict_get d (TombstoneFile (ft_dispatch_id t)) \<noteq> None)
     \<and> (dict_get d (TombstoneFile (ft_dispatch_id t)) \<noteq> None \<longrightarrow> (\<exists>e. holds_tombstone d (ft_dispatch_id t) e
          \<and> ft_generation_id e = ft_generation_id t \<and> same_content e t))"

lemma time_shape: "RFC3339_RE s \<Longrightarrow> raise_first (ev_time (JStr s) name message) = None"
  by (cases s) (auto simp: ev_time_def ev_text_def is_str_def RFC3339_RE_def)

lemma finished_valid:
  assumes "process_receipt_valid r" and "dr_phase r = FINALIZING" and "RFC3339_RE later"
  shows "process_receipt_valid (r\<lparr>dr_phase := FINALIZED, dr_written_at := later\<rparr>)"
proof -
  have "receipt_phase_in (JStr ''FINALIZING'') = Some FINALIZING" "receipt_phase_in (JStr ''FINALIZED'') = Some FINALIZED"
    using phase_in(1) [of FINALIZING] phase_in(1) [of FINALIZED] by simp_all
  with assms time_shape show ?thesis
    by (simp add: process_receipt_valid_def receipt_guards_def receipt_to_dict_def receipt_phase_guards_def)
qed

lemma finish_receipt_Inr:
  assumes "process_receipt_valid r" and "dr_phase r = FINALIZING" and "RFC3339_RE later"
  shows "finish_receipt later r x = (Inr x, [(ReceiptFile (dr_dispatch_id r),
     receipt_bytes (r\<lparr>dr_phase := FINALIZED, dr_written_at := later\<rparr>))])"
proof -
  have "raise_first (validate_safe_id (JStr (dr_dispatch_id r)) ''dispatch_id'') = None"
    using assms(1) by (simp add: process_receipt_valid_def receipt_guards_def receipt_to_dict_def)
  then show ?thesis using finished_valid [OF assms]
    by (simp add: finish_receipt_def make_receipt_def process_receipt_valid_def guarded_def write_receipt_def returning_def)
qed

lemma read_safe:
  assumes "raise_first (validate_safe_id (JStr i) ''dispatch_id'') = None"
  shows "holds_receipt d i r \<Longrightarrow> read_dispatch_receipt i d = Inr (Some r)"
    and "holds_tombstone d i t \<Longrightarrow> read_dispatch_tombstone i d = Inr (Some t)"
    and "dict_get d (TombstoneFile i) = None \<Longrightarrow> read_dispatch_tombstone i d = Inr None"
  using assms by (auto simp: read_dispatch_receipt_def read_dispatch_tombstone_def read_file_def dispatch_holds res_simps)

text \<open>One statement for all the states a crash can leave.\<close>

lemma finalizer_runs:
  assumes "finalizer_ready now later t r d"
  defines "t' \<equiv> t\<lparr>ft_schema_version := EVIDENCE_SCHEMA_VERSION, ft_finalized_at := now\<rparr>"
    and "last_write \<equiv> (ReceiptFile (ft_dispatch_id t), receipt_bytes (r\<lparr>dr_phase := FINALIZED, dr_written_at := later\<rparr>))"
  shows "if dr_phase r = FINALIZED then \<exists>e. holds_tombstone d (ft_dispatch_id t) e \<and> write_finalizer_tombstone now later t d = (Inr e, [])
     else if dict_get d (TombstoneFile (ft_dispatch_id t)) = None
     then write_finalizer_tombstone now later t d = (Inr t', [(TombstoneFile (ft_dispatch_id t), tombstone_bytes t'), last_write])
     else \<exists>e. holds_tombstone d (ft_dispatch_id t) e \<and> write_finalizer_tombstone now later t d = (Inr e, [last_write])"
proof -
  note ready = assms(1) [unfolded finalizer_ready_def]
  let ?i = "ft_dispatch_id t"
  have safe: "raise_first (validate_safe_id (JStr ?i) ''dispatch_id'') = None"
    using ready by (simp add: tombstone_valid_def tombstone_guards_def tombstone_to_dict_def)
  have valid: "process_receipt_valid r" using ready dispatch_evidence_decoded(1) unfolding holds_receipt_def by blast
  have i: "dr_dispatch_id r = ?i" and fits: "all_done t" "dr_generation_id r = ft_generation_id t" "same_dispatch r t'"
    using ready by (simp_all add: tombstone_fits_def same_dispatch_def t'_def)
  have made: "make_tombstone t' = Inr t'" using ready by (simp add: make_evidence t'_def)
  have start: "write_finalizer_tombstone now later t d = reading (read_dispatch_tombstone ?i d) (\<lambda>e.
      case e of Some e \<Rightarrow> replay_tombstone later r e t' | None \<Rightarrow> first_tombstone later r t')"
    using fits i made ready read_safe(1) [OF safe, of d r]
    by (cases "read_dispatch_tombstone ?i d") (simp_all add: write_finalizer_tombstone_def t'_def [symmetric], simp_all add: t'_def)
  note finish_write = finish_receipt_Inr [OF valid _ conjunct1 [OF conjunct2 [OF conjunct2 [OF conjunct2 [OF ready]]]], unfolded i]
  show ?thesis
  proof (cases "dict_get d (TombstoneFile ?i) = None")
    case True
    then have "dr_phase r = FINALIZING" using ready by auto
    with True show ?thesis using read_safe(3) [OF safe True]
      by (simp add: start first_tombstone_def finish_write last_write_def) (simp add: t'_def)
  next
    case False
    then obtain e where e: "holds_tombstone d ?i e" "ft_generation_id e = ft_generation_id t" "same_content e t"
      using ready by blast
    then have "same_content e t'" "ft_generation_id e = ft_generation_id t'" by (simp_all add: same_content_def t'_def)
    with e(1) False ready show ?thesis
      by (auto simp: start read_safe(2) [OF safe e(1)] replay_tombstone_def finish_write last_write_def returning_def)
  qed
qed





lemma receipt_id_safe: "process_receipt_valid r \<Longrightarrow> raise_first (validate_safe_id (JStr (dr_dispatch_id r)) ''dispatch_id'') = None"
  by (simp add: process_receipt_valid_def receipt_guards_def receipt_to_dict_def)

lemma retry_id_safe: "retry_valid q \<Longrightarrow> raise_first (validate_safe_id (JStr (rr_next_dispatch_id q)) ''next_dispatch_id'') = None"
  by (simp add: retry_valid_def retry_receipt_guards_def retry_receipt_to_dict_def)

lemma read_held:
  assumes "dispatch_inv d"
  shows "holds_receipt d i r \<Longrightarrow> read_dispatch_receipt i d = Inr (Some r)"
    and "holds_retry d i q \<Longrightarrow> read_retry_receipt i d = Inr (Some q)"
proof -
  show "read_dispatch_receipt i d = Inr (Some r)" if h: "holds_receipt d i r"
  proof -
    have "process_receipt_valid r" using h dispatch_evidence_decoded(1) unfolding holds_receipt_def by blast
    moreover have "dr_dispatch_id r = i" using inv_receipt [OF assms h] by simp
    ultimately show ?thesis using receipt_id_safe [of r] read_safe(1) [OF _ h] by simp
  qed
  show "read_retry_receipt i d = Inr (Some q)" if "holds_retry d i q"
    using inv_retry [OF assms that] retry_id_safe [of q] that dispatch_evidence_decoded(3)
    by (auto simp: read_retry_receipt_def read_file_def holds_retry_def res_simps)
qed

text \<open>An operation that fails and writes nothing.\<close>

definition refused :: "'a dispatch_outcome \<Rightarrow> bool" where
  "refused r \<longleftrightarrow> (\<exists>e. r = (Inl e, []))"

lemma refused_intros:
  "refused r \<Longrightarrow> refused (ensuring gs r)" "(\<And>y. v = Inr y \<Longrightarrow> refused (f y)) \<Longrightarrow> refused (reading v f)"
  "refused (failing e)"
  by (auto simp: refused_def ensuring_def failing_def reading_def split: option.split sum.split)

lemma refused_guard: "raise_first gs \<noteq> None \<Longrightarrow> refused (ensuring gs r)"
  by (auto simp: refused_def)

text \<open>
  C1. Stale generations are fenced.  Once a dispatch has a receipt, whatever operations and crashes
  follow, no advance and no finalization under another generation succeeds or writes anything.
\<close>

theorem stale_generation_fenced:
  assumes "dispatch_step\<^sup>*\<^sup>* [] d" and "holds_receipt d i r" and "dispatch_step\<^sup>*\<^sup>* d d'" and "g \<noteq> dr_generation_id r"
  shows "advance_to_supervisor_ready now i g pid c d' = (Inl (DispatchSupervisorFencingError ''generation_id mismatch''), [])
    \<and> advance_to_worker_started now i g pid c pg d' = (Inl (DispatchSupervisorFencingError ''generation_id mismatch''), [])
    \<and> advance_to_finalizing now i g d' = (Inl (DispatchSupervisorFencingError ''generation_id mismatch''), [])
    \<and> (ft_dispatch_id t = i \<and> ft_generation_id t = g \<longrightarrow> (\<exists>e. write_finalizer_tombstone now later t d' = (Inl e, [])))"
proof -
  note inv = dispatch_reachable [OF assms(1)]
  note run = dispatch_run_writes [OF assms(3) inv]
  obtain s where s: "holds_receipt d' i s" "receipt_follows r s"
    using receipt_history.steps_track [OF conjunct1 [OF run] inv, of "(i, r)"] assms(2) by auto
  note read = read_held(1) [OF conjunct2 [OF run] s(1)]
  have gen: "dr_generation_id s \<noteq> g" using s(2) assms(4) by (simp add: receipt_follows_def receipt_identity_def)
  then have "advance_receipt i g target update d' = (Inl (DispatchSupervisorFencingError ''generation_id mismatch''), [])" for target update
    by (simp add: advance_receipt_def read enforce_transition_def)
  moreover have "refused (write_finalizer_tombstone now later t d')" if "ft_dispatch_id t = i" "ft_generation_id t = g"
    unfolding write_finalizer_tombstone_def
  proof (intro refused_intros)
    fix u v w assume "make_tombstone (t\<lparr>ft_schema_version := EVIDENCE_SCHEMA_VERSION, ft_finalized_at := now\<rparr>) = Inr u"
      and w: "read_dispatch_receipt (ft_dispatch_id u) d' = Inr w"
    with that have u: "ft_dispatch_id u = i" "ft_generation_id u = g" by (auto simp: make_evidence)
    with w read have "w = Some s" by simp
    with gen u(2) show "refused (case w of None \<Rightarrow> failing (DispatchSupervisorPhaseError ''receipt not found'')
      | Some r \<Rightarrow> ensuring
        [(dr_generation_id r \<noteq> ft_generation_id u,
           DispatchSupervisorFencingError ''receipt generation mismatch -- refusing finalization''),
         (\<not> same_dispatch r u, DispatchSupervisorPhaseError ''receipt identity mismatch -- refusing finalization'')]
        (case v of Some e \<Rightarrow> replay_tombstone later r e u | None \<Rightarrow> first_tombstone later r u))"
      by (simp add: refused_guard refused_def)
  qed
  ultimately show ?thesis
    by (simp add: advance_to_supervisor_ready_def advance_to_worker_started_def advance_to_finalizing_def refused_def)
qed

text \<open>
  Evidence of a retry only develops: whatever operations and crashes follow, its receipt keeps its
  identity, digest and creator, its phase never goes back and its processes stay once recorded; a
  retry tombstone stays as it is, is that of its receipt, and is there once the receipt is
  finalised.
\<close>

theorem retry_evidence_kept:
  assumes "dispatch_step\<^sup>*\<^sup>* [] d" and "dispatch_step\<^sup>*\<^sup>* d d'"
  shows "(holds_retry d i q \<longrightarrow> (\<exists>s. holds_retry d' i s \<and> retry_follows q s
        \<and> (rr_phase s = RETRY_FINALIZED \<longrightarrow> (\<exists>t. holds_retry_tombstone d' i t \<and> retry_fits s t))))
    \<and> (holds_retry_tombstone d i t \<longrightarrow> holds_retry_tombstone d' i t)"
proof -
  note inv = dispatch_reachable [OF assms(1)]
  note run = dispatch_run_writes [OF assms(2) inv]
  have "\<exists>s. holds_retry d' i s \<and> retry_follows q s" if "holds_retry d i q"
    using retry_history.steps_track [OF conjunct1 [OF run] inv, of "(i, q)"] that by auto
  moreover have "holds_retry_tombstone d' i t" if "holds_retry_tombstone d i t"
    using retry_tombstone_history.steps_track [OF conjunct1 [OF run] inv, of "(i, t)"] that by auto
  ultimately show ?thesis using inv_retry [OF conjunct2 [OF run]] by blast
qed

lemma write_retry_iff:
  "write_retry_receipt q (returning x) = (Inr y, ws) \<longleftrightarrow> y = x \<and> raise_first (validate_safe_id (JStr (rr_next_dispatch_id q)) ''next_dispatch_id'') = None
     \<and> ws = [(RetryReceiptFile (rr_next_dispatch_id q), retry_receipt_bytes q)]"
  by (auto simp: write_retry_receipt_def res_simps simp del: storing_Inr)

text \<open>
  C39. A completed retry finalization cannot be replayed: doing it again, at any time, is refused as a
  phase already reached, although the tombstone is there and the same.
\<close>

theorem retry_finalization_not_replayed:
  assumes "dispatch_step\<^sup>*\<^sup>* [] d" and "advance_retry_to_finalized now i g d = (Inr q, ws)"
  shows "holds_retry_tombstone (commit ws d) i q
    \<and> advance_retry_to_finalized now' i g (commit ws d) = (Inl (DispatchSupervisorPhaseError ''retry phase already reached''), [])"
proof -
  note inv = dispatch_reachable [OF assms(1)]
  from assms(2) obtain p e f where p: "holds_retry d i p" "rr_recovery_generation_id p = g"
    "RETRY_ALLOWED_TRANSITIONS (rr_phase p) = Some RETRY_FINALIZED" and e: "read_retry_tombstone i d = Inr e"
    and f: "f = p\<lparr>rr_phase := RETRY_FINALIZED, rr_finalized_at := Some now\<rparr>" "retry_valid f"
    and fin: "finish_retry i g p e f = (Inr q, ws)"
    by (auto simp: advance_retry_to_finalized_def advance_retry_def enforce_retry_transition_def make_evidence res_simps
        dest!: read_holds(3) split: option.split_asm)
  note decoded = dispatch_evidence_read(3) [OF f(2)]
  have next_id: "rr_next_dispatch_id f = i" using inv_retry [OF inv p(1)] by (simp add: f(1))
  have not_final: "rr_phase p \<noteq> RETRY_FINALIZED" using p(3) by auto
  have held: "holds_retry (commit ws d) i f \<and> holds_retry_tombstone (commit ws d) i q"
  proof (cases e)
    case None
    with fin not_final have "q = f" "ws = [(RetryTombstoneFile i, retry_receipt_bytes f), (RetryReceiptFile i, retry_receipt_bytes f)]"
      by (auto simp: finish_retry_def res_simps write_retry_iff next_id simp del: storing_Inr)
    then show ?thesis by (simp add: commit_simps dispatch_set decoded)
  next
    case (Some t)
    with e read_holds(4) have "holds_retry_tombstone d i t" by simp
    moreover from Some fin not_final have "q = t" "ws = [(RetryReceiptFile i, retry_receipt_bytes f)]"
      by (auto simp: finish_retry_def res_simps write_retry_iff next_id)
    ultimately show ?thesis by (simp add: commit_simps dispatch_set decoded)
  qed
  have "dispatch_step d (commit ws d)"
    using crash_step_whole [of "\<lambda>_. True" "RetryFinish now i g" dispatch_writes d] assms(2) by simp
  with dispatch_run_writes inv have "dispatch_inv (commit ws d)" by blast
  from read_held(2) [OF this, of i f] held p(2) show ?thesis
    by (simp add: advance_retry_to_finalized_def advance_retry_def enforce_retry_transition_def f(1))
qed

text \<open>
  Nothing but the file name keeps retries apart: a second reservation of the same failed attempt
  under another next dispatch is accepted.
\<close>

lemma retry_reserved_twice:
  assumes "dict_get d (RetryReceiptFile (rr_next_dispatch_id q)) = None"
    and "retry_valid (q\<lparr>rr_schema_version := RETRY_RECEIPT_SCHEMA_VERSION, rr_phase := RETRY_RESERVED,
      rr_supervisor_pid := None, rr_supervisor_creation_time := None, rr_supervisor_boot_id := None,
      rr_worker_pid := None, rr_worker_creation_time := None, rr_worker_boot_id := None, rr_reserved_at := now,
      rr_started_at := None, rr_finalized_at := None\<rparr>)"
  shows "\<exists>s ws. reserve_retry_receipt now q d = (Inr s, ws) \<and> ws \<noteq> []"
  using retry_id_safe [OF assms(2)] assms
  by (simp add: reserve_retry_receipt_def make_retry_receipt_def retry_valid_def guarded_def read_retry_receipt_def
      read_file_def write_retry_receipt_def returning_def)

section \<open>A concrete dispatch\<close>

definition sample_receipt :: DispatchProcessReceipt where
  "sample_receipt =
    \<lparr>dr_schema_version = EVIDENCE_SCHEMA_VERSION, dr_task_id = ''TC-001'', dr_revision = 1, dr_attempt = 1,
     dr_dispatch_id = ''D-1'', dr_lease_epoch = 1, dr_holder_instance_id = ''H-1'', dr_generation_id = ''G-1'',
     dr_platform = ''posix'', dr_boot_id = ''B-1'', dr_phase = RESERVED, dr_creator_pid = Some 10,
     dr_creator_creation_time = Some ''c10'', dr_supervisor_pid = None, dr_supervisor_creation_time = None,
     dr_worker_pid = None, dr_worker_creation_time = None, dr_worker_process_group = None,
     dr_written_at = ''2026-01-01T00:00:00Z''\<rparr>"

definition sample_ready :: DispatchProcessReceipt where
  "sample_ready = sample_receipt\<lparr>dr_phase := SUPERVISOR_READY, dr_supervisor_pid := Some 11,
     dr_supervisor_creation_time := Some ''c11'', dr_written_at := ''2026-01-01T00:00:01Z''\<rparr>"

definition sample_started :: DispatchProcessReceipt where
  "sample_started = sample_ready\<lparr>dr_phase := WORKER_STARTED, dr_worker_pid := Some 12,
     dr_worker_creation_time := Some ''c12'', dr_worker_process_group := None, dr_written_at := ''2026-01-01T00:00:02Z''\<rparr>"

definition sample_finalizing :: DispatchProcessReceipt where
  "sample_finalizing = sample_started\<lparr>dr_phase := FINALIZING, dr_written_at := ''2026-01-01T00:00:03Z''\<rparr>"

definition sample_tombstone :: DispatchFinalizerTombstone where
  "sample_tombstone =
    \<lparr>ft_schema_version = EVIDENCE_SCHEMA_VERSION, ft_task_id = ''TC-001'', ft_revision = 1, ft_attempt = 1,
     ft_dispatch_id = ''D-1'', ft_generation_id = ''G-1'', ft_winner = ''worker'', ft_worker_done = True,
     ft_heartbeat_done = True, ft_release_completed = True, ft_failure_kind = None,
     ft_finalized_at = ''2026-01-01T00:00:04Z''\<rparr>"

definition sample_retry :: OwnerLossRetryReceipt where
  "sample_retry =
    \<lparr>rr_schema_version = RETRY_RECEIPT_SCHEMA_VERSION, rr_task_id = ''TC-001'', rr_revision = 1, rr_failed_attempt = 1,
     rr_failed_dispatch_id = ''D-1'', rr_recovery_event_id = ''EVT-1'', rr_recovery_generation_id = ''R-1'',
     rr_next_attempt = 2, rr_next_dispatch_id = ''D-2'', rr_next_dispatch_event_id = ''EVT-2'', rr_phase = RETRY_RESERVED,
     rr_creator_pid = 10, rr_creator_creation_time = ''c10'', rr_creator_boot_id = ''B-1'', rr_supervisor_pid = None,
     rr_supervisor_creation_time = None, rr_supervisor_boot_id = None, rr_worker_pid = None,
     rr_worker_creation_time = None, rr_worker_boot_id = None,
     rr_reserved_at = ''2026-01-01T00:00:05Z'', rr_started_at = None, rr_finalized_at = None, rr_content_digest = ''sha256:'' @ replicate 64 CHR 0x30\<rparr>"

definition sample_retry_started :: OwnerLossRetryReceipt where
  "sample_retry_started = sample_retry\<lparr>rr_phase := RETRY_STARTED, rr_supervisor_pid := Some 21,
     rr_supervisor_creation_time := Some ''c21'', rr_supervisor_boot_id := Some ''B-1'', rr_worker_pid := Some 22,
     rr_worker_creation_time := Some ''c22'', rr_worker_boot_id := Some ''B-1'',
     rr_started_at := Some ''2026-01-01T00:00:06Z''\<rparr>"

definition sample_retry_finalizing :: OwnerLossRetryReceipt where
  "sample_retry_finalizing = sample_retry_started\<lparr>rr_phase := RETRY_FINALIZING\<rparr>"

definition sample_retry_finalized :: OwnerLossRetryReceipt where
  "sample_retry_finalized = sample_retry_finalizing\<lparr>rr_phase := RETRY_FINALIZED,
     rr_finalized_at := Some ''2026-01-01T00:00:07Z''\<rparr>"

definition sample_disk :: "DispatchProcessReceipt \<Rightarrow> dispatch_disk" where
  "sample_disk r = [(ReceiptFile ''D-1'', receipt_bytes r)]"

definition sample_retry_disk :: "OwnerLossRetryReceipt \<Rightarrow> dispatch_disk" where
  "sample_retry_disk q = [(RetryReceiptFile ''D-2'', retry_receipt_bytes q)]"

lemmas sample_defs = sample_receipt_def sample_ready_def sample_started_def sample_finalizing_def sample_tombstone_def
  sample_retry_def sample_retry_started_def sample_retry_finalizing_def sample_retry_finalized_def

lemma sample_valid:
  "process_receipt_valid sample_receipt" "process_receipt_valid sample_ready" "process_receipt_valid sample_started"
  "process_receipt_valid sample_finalizing" "tombstone_valid sample_tombstone" "retry_valid sample_retry"
  "retry_valid sample_retry_started" "retry_valid sample_retry_finalizing" "retry_valid sample_retry_finalized"
  by code_simp+

lemma sample_holds:
  "process_receipt_valid r \<Longrightarrow> holds_receipt (sample_disk r) ''D-1'' r"
  "retry_valid q \<Longrightarrow> holds_retry (sample_retry_disk q) ''D-2'' q"
  by (simp_all add: holds_receipt_def holds_retry_def sample_disk_def sample_retry_disk_def dict_get_Cons dispatch_evidence_read)

lemma sample_commit:
  "commit [(ReceiptFile ''D-1'', receipt_bytes s)] (sample_disk r) = sample_disk s"
  "commit [(RetryReceiptFile ''D-2'', retry_receipt_bytes u)] (sample_retry_disk q) = sample_retry_disk u"
  by (simp_all add: sample_disk_def sample_retry_disk_def commit_simps dict_set_def)

lemma sample_advance:
  assumes "process_receipt_valid r" and "dr_dispatch_id r = ''D-1''" and "ALLOWED_TRANSITIONS (dr_phase r) = Some target"
    and "update r = s" and "process_receipt_valid s" and "dr_dispatch_id s = ''D-1''"
  shows "advance_receipt ''D-1'' (dr_generation_id r) target update (sample_disk r) = (Inr s, [(ReceiptFile ''D-1'', receipt_bytes s)])"
proof -
  have "dr_phase r \<noteq> target" using assms(3) by (cases "dr_phase r") auto
  moreover have "read_dispatch_receipt ''D-1'' (sample_disk r) = Inr (Some r)"
    using read_safe(1) [OF _ sample_holds(1) [OF assms(1)]] receipt_id_safe [OF assms(1)] assms(2) by simp
  moreover have "make_receipt s = Inr s" using assms(5) by (simp add: make_evidence)
  ultimately show ?thesis using assms(3,4,6) receipt_id_safe [OF assms(5)]
    by (simp add: advance_receipt_def enforce_transition_def write_receipt_def returning_def)
qed

lemma sample_retry_advance:
  assumes "retry_valid q" and "rr_next_dispatch_id q = ''D-2''" and "RETRY_ALLOWED_TRANSITIONS (rr_phase q) = Some target"
  shows "advance_retry ''D-2'' (rr_recovery_generation_id q) target k (sample_retry_disk q) = k q"
proof -
  have "rr_phase q \<noteq> target" using assms(3) by (cases "rr_phase q") auto
  moreover have "read_retry_receipt ''D-2'' (sample_retry_disk q) = Inr (Some q)"
    using retry_id_safe [OF assms(1)] assms(2) sample_holds(2) [OF assms(1)]
    by (auto simp: read_retry_receipt_def read_file_def holds_retry_def res_simps)
  ultimately show ?thesis using assms(3) by (simp add: advance_retry_def enforce_retry_transition_def)
qed

text \<open>The dispatch runs to its finalization; what each call returns and writes.\<close>

lemma sample_advances:
  "advance_to_supervisor_ready ''2026-01-01T00:00:01Z'' ''D-1'' ''G-1'' 11 ''c11'' (sample_disk sample_receipt)
     = (Inr sample_ready, [(ReceiptFile ''D-1'', receipt_bytes sample_ready)])"
  "advance_to_worker_started ''2026-01-01T00:00:02Z'' ''D-1'' ''G-1'' 12 ''c12'' None (sample_disk sample_ready)
     = (Inr sample_started, [(ReceiptFile ''D-1'', receipt_bytes sample_started)])"
  "advance_to_finalizing ''2026-01-01T00:00:03Z'' ''D-1'' ''G-1'' (sample_disk sample_started)
     = (Inr sample_finalizing, [(ReceiptFile ''D-1'', receipt_bytes sample_finalizing)])"
proof -
  have "dr_generation_id sample_receipt = ''G-1''" "dr_generation_id sample_ready = ''G-1''" "dr_generation_id sample_started = ''G-1''"
    by (simp_all add: sample_defs)
  note g = this
  show "advance_to_supervisor_ready ''2026-01-01T00:00:01Z'' ''D-1'' ''G-1'' 11 ''c11'' (sample_disk sample_receipt)
     = (Inr sample_ready, [(ReceiptFile ''D-1'', receipt_bytes sample_ready)])"
    unfolding advance_to_supervisor_ready_def g(1) [symmetric]
    by (rule sample_advance) (use sample_valid in \<open>simp_all add: sample_defs\<close>)
  show "advance_to_worker_started ''2026-01-01T00:00:02Z'' ''D-1'' ''G-1'' 12 ''c12'' None (sample_disk sample_ready)
     = (Inr sample_started, [(ReceiptFile ''D-1'', receipt_bytes sample_started)])"
    unfolding advance_to_worker_started_def g(2) [symmetric]
    by (rule sample_advance) (use sample_valid in \<open>simp_all add: sample_defs\<close>)
  show "advance_to_finalizing ''2026-01-01T00:00:03Z'' ''D-1'' ''G-1'' (sample_disk sample_started)
     = (Inr sample_finalizing, [(ReceiptFile ''D-1'', receipt_bytes sample_finalizing)])"
    unfolding advance_to_finalizing_def g(3) [symmetric]
    by (rule sample_advance) (use sample_valid in \<open>simp_all add: sample_defs\<close>)
qed

lemma sample_reserve:
  "reserve_receipt ''2026-01-01T00:00:00Z'' sample_receipt [] = (Inr sample_receipt, [(ReceiptFile ''D-1'', receipt_bytes sample_receipt)])"
proof -
  have id: "dr_dispatch_id sample_receipt = ''D-1''" by (simp add: sample_defs)
  have "read_dispatch_receipt ''D-1'' [] = Inr None"
    using receipt_id_safe [OF sample_valid(1)] id by (simp add: read_dispatch_receipt_def read_file_def guarded_def)
  moreover have "make_receipt sample_receipt = Inr sample_receipt" using sample_valid(1) by (simp add: make_evidence)
  moreover have "sample_receipt\<lparr>dr_schema_version := EVIDENCE_SCHEMA_VERSION, dr_platform := ''posix'', dr_phase := RESERVED,
      dr_supervisor_pid := None, dr_supervisor_creation_time := None, dr_worker_pid := None, dr_worker_creation_time := None,
      dr_worker_process_group := None, dr_written_at := ''2026-01-01T00:00:00Z''\<rparr> = sample_receipt" by (simp add: sample_defs)
  ultimately show ?thesis using receipt_id_safe [OF sample_valid(1)]
    by (simp add: reserve_receipt_def write_receipt_def returning_def id)
qed

lemma sample_retry_reserve:
  "reserve_retry_receipt ''2026-01-01T00:00:05Z'' sample_retry [] = (Inr sample_retry, [(RetryReceiptFile ''D-2'', retry_receipt_bytes sample_retry)])"
proof -
  have id: "rr_next_dispatch_id sample_retry = ''D-2''" by (simp add: sample_defs)
  have "read_retry_receipt ''D-2'' [] = Inr None"
    using retry_id_safe [OF sample_valid(6)] id by (simp add: read_retry_receipt_def read_file_def guarded_def)
  moreover have "make_retry_receipt sample_retry = Inr sample_retry" using sample_valid(6) by (simp add: make_evidence)
  moreover have "sample_retry\<lparr>rr_schema_version := RETRY_RECEIPT_SCHEMA_VERSION, rr_phase := RETRY_RESERVED,
      rr_supervisor_pid := None, rr_supervisor_creation_time := None, rr_supervisor_boot_id := None,
      rr_worker_pid := None, rr_worker_creation_time := None, rr_worker_boot_id := None, rr_reserved_at := ''2026-01-01T00:00:05Z'',
      rr_started_at := None, rr_finalized_at := None\<rparr> = sample_retry" by (simp add: sample_defs)
  ultimately show ?thesis using retry_id_safe [OF sample_valid(6)]
    by (simp add: reserve_retry_receipt_def write_retry_receipt_def returning_def id)
qed

lemma sample_retry_advances:
  "advance_retry_to_started ''2026-01-01T00:00:06Z'' ''D-2'' ''R-1'' 21 ''c21'' ''B-1'' 22 ''c22'' ''B-1'' (sample_retry_disk sample_retry)
     = (Inr sample_retry_started, [(RetryReceiptFile ''D-2'', retry_receipt_bytes sample_retry_started)])"
  "advance_retry_to_finalizing ''D-2'' ''R-1'' (sample_retry_disk sample_retry_started)
     = (Inr sample_retry_finalizing, [(RetryReceiptFile ''D-2'', retry_receipt_bytes sample_retry_finalizing)])"
  "advance_retry_to_finalized ''2026-01-01T00:00:07Z'' ''D-2'' ''R-1'' (sample_retry_disk sample_retry_finalizing)
     = (Inr sample_retry_finalized, [(RetryTombstoneFile ''D-2'', retry_receipt_bytes sample_retry_finalized),
         (RetryReceiptFile ''D-2'', retry_receipt_bytes sample_retry_finalized)])"
proof -
  have made: "make_retry_receipt q = Inr q \<and> raise_first (validate_safe_id (JStr (rr_next_dispatch_id q)) ''next_dispatch_id'') = None"
    if "retry_valid q" for q
    using that retry_id_safe by (simp add: make_evidence)
  have g: "rr_recovery_generation_id sample_retry = ''R-1''" "rr_recovery_generation_id sample_retry_started = ''R-1''"
    "rr_recovery_generation_id sample_retry_finalizing = ''R-1''"
    and i: "rr_next_dispatch_id sample_retry = ''D-2''" "rr_next_dispatch_id sample_retry_started = ''D-2''"
    "rr_next_dispatch_id sample_retry_finalizing = ''D-2''" "rr_next_dispatch_id sample_retry_finalized = ''D-2''"
    and p: "rr_phase sample_retry = RETRY_RESERVED" "rr_phase sample_retry_started = RETRY_STARTED"
    "rr_phase sample_retry_finalizing = RETRY_FINALIZING"
    by (simp_all add: sample_defs)
  note at = sample_retry_advance [OF sample_valid(6) i(1), of RETRY_STARTED]
    sample_retry_advance [OF sample_valid(7) i(2), of RETRY_FINALIZING]
    sample_retry_advance [OF sample_valid(8) i(3), of RETRY_FINALIZED]
  have "read_retry_tombstone ''D-2'' (sample_retry_disk q) = Inr None" for q
    using retry_id_safe [OF sample_valid(6)] i(1)
    by (simp add: read_retry_tombstone_def read_file_def guarded_def sample_retry_disk_def dict_get_Cons)
  note tomb = this
  show "advance_retry_to_started ''2026-01-01T00:00:06Z'' ''D-2'' ''R-1'' 21 ''c21'' ''B-1'' 22 ''c22'' ''B-1'' (sample_retry_disk sample_retry)
     = (Inr sample_retry_started, [(RetryReceiptFile ''D-2'', retry_receipt_bytes sample_retry_started)])"
    using at(1) made [OF sample_valid(7)] i(2)
    by (simp add: advance_retry_to_started_def g p sample_retry_started_def [symmetric] write_retry_receipt_def returning_def)
  show "advance_retry_to_finalizing ''D-2'' ''R-1'' (sample_retry_disk sample_retry_started)
     = (Inr sample_retry_finalizing, [(RetryReceiptFile ''D-2'', retry_receipt_bytes sample_retry_finalizing)])"
    using at(2) made [OF sample_valid(8)] i(3)
    by (simp add: advance_retry_to_finalizing_def g p sample_retry_finalizing_def [symmetric] write_retry_receipt_def returning_def)
  show "advance_retry_to_finalized ''2026-01-01T00:00:07Z'' ''D-2'' ''R-1'' (sample_retry_disk sample_retry_finalizing)
     = (Inr sample_retry_finalized, [(RetryTombstoneFile ''D-2'', retry_receipt_bytes sample_retry_finalized),
         (RetryReceiptFile ''D-2'', retry_receipt_bytes sample_retry_finalized)])"
    using at(3) made [OF sample_valid(9)] i(4)
    by (simp add: advance_retry_to_finalized_def g p sample_retry_finalized_def [symmetric] write_retry_receipt_def returning_def
        tomb finish_retry_def)
qed

abbreviation sample_finished :: DispatchProcessReceipt where
  "sample_finished \<equiv> sample_finalizing\<lparr>dr_phase := FINALIZED, dr_written_at := ''2026-01-01T00:00:04Z''\<rparr>"

definition sample_end :: dispatch_disk where
  "sample_end = commit [(TombstoneFile ''D-1'', tombstone_bytes sample_tombstone), (ReceiptFile ''D-1'', receipt_bytes sample_finished)]
     (sample_disk sample_finalizing)"

lemma sample_finalizer:
  "write_finalizer_tombstone ''2026-01-01T00:00:04Z'' ''2026-01-01T00:00:04Z'' sample_tombstone (sample_disk sample_finalizing)
     = (Inr sample_tombstone, [(TombstoneFile ''D-1'', tombstone_bytes sample_tombstone), (ReceiptFile ''D-1'', receipt_bytes sample_finished)])"
proof -
  have i: "ft_dispatch_id sample_tombstone = ''D-1''" and p: "dr_phase sample_finalizing = FINALIZING" by (simp_all add: sample_defs)
  have same: "sample_tombstone\<lparr>ft_schema_version := EVIDENCE_SCHEMA_VERSION, ft_finalized_at := ''2026-01-01T00:00:04Z''\<rparr> = sample_tombstone"
    by (simp add: sample_defs)
  have none: "dict_get (sample_disk sample_finalizing) (TombstoneFile ''D-1'') = None" by (simp add: sample_disk_def dict_get_Cons)
  have "RFC3339_RE ''2026-01-01T00:00:04Z''" by code_simp
  moreover have "tombstone_fits sample_finalizing sample_tombstone"
    by (simp add: tombstone_fits_def same_dispatch_def all_done_def sample_defs)
  ultimately have "finalizer_ready ''2026-01-01T00:00:04Z'' ''2026-01-01T00:00:04Z'' sample_tombstone sample_finalizing (sample_disk sample_finalizing)"
    using sample_holds(1) [OF sample_valid(4)] sample_valid(5) by (simp add: finalizer_ready_def i p same none)
  from finalizer_runs [OF this] show ?thesis by (simp add: i p same none)
qed

lemma dispatch_sample_run:
  "dispatch_step\<^sup>*\<^sup>* [] (sample_disk sample_receipt)"
  "dispatch_step\<^sup>*\<^sup>* (sample_disk sample_receipt) (sample_disk sample_finalizing)"
  "dispatch_step\<^sup>*\<^sup>* (sample_disk sample_finalizing) sample_end"
proof -
  note whole = crash_step_whole [of "\<lambda>_. True" _ dispatch_writes]
  have "dispatch_step [] (sample_disk sample_receipt)"
    using whole [of "[]" "ReserveReceipt ''2026-01-01T00:00:00Z'' sample_receipt"]
    by (simp add: sample_reserve sample_disk_def commit_simps dict_set_def)
  then show "dispatch_step\<^sup>*\<^sup>* [] (sample_disk sample_receipt)" by blast
  have "dispatch_step (sample_disk sample_receipt) (sample_disk sample_ready)"
    using whole [of "sample_disk sample_receipt" "SupervisorReady ''2026-01-01T00:00:01Z'' ''D-1'' ''G-1'' 11 ''c11''"]
    by (simp add: sample_advances sample_commit)
  moreover have "dispatch_step (sample_disk sample_ready) (sample_disk sample_started)"
    using whole [of "sample_disk sample_ready" "WorkerStarted ''2026-01-01T00:00:02Z'' ''D-1'' ''G-1'' 12 ''c12'' None"]
    by (simp add: sample_advances sample_commit)
  moreover have "dispatch_step (sample_disk sample_started) (sample_disk sample_finalizing)"
    using whole [of "sample_disk sample_started" "StartFinalizing ''2026-01-01T00:00:03Z'' ''D-1'' ''G-1''"]
    by (simp add: sample_advances sample_commit)
  ultimately show "dispatch_step\<^sup>*\<^sup>* (sample_disk sample_receipt) (sample_disk sample_finalizing)" by (meson converse_rtranclp_into_rtranclp rtranclp.rtrancl_refl)
  have "dispatch_step (sample_disk sample_finalizing) sample_end"
    using whole [of "sample_disk sample_finalizing" "WriteTombstone ''2026-01-01T00:00:04Z'' ''2026-01-01T00:00:04Z'' sample_tombstone"]
    by (simp add: sample_finalizer sample_end_def)
  then show "dispatch_step\<^sup>*\<^sup>* (sample_disk sample_finalizing) sample_end" by blast
qed

lemma sample_retry_run:
  "dispatch_step\<^sup>*\<^sup>* [] (sample_retry_disk sample_retry)"
  "dispatch_step\<^sup>*\<^sup>* (sample_retry_disk sample_retry) (sample_retry_disk sample_retry_finalizing)"
proof -
  note whole = crash_step_whole [of "\<lambda>_. True" _ dispatch_writes]
  have "dispatch_step [] (sample_retry_disk sample_retry)"
    using whole [of "[]" "ReserveRetry ''2026-01-01T00:00:05Z'' sample_retry"]
    by (simp add: sample_retry_reserve sample_retry_disk_def commit_simps dict_set_def)
  then show "dispatch_step\<^sup>*\<^sup>* [] (sample_retry_disk sample_retry)" by blast
  have "dispatch_step (sample_retry_disk sample_retry) (sample_retry_disk sample_retry_started)"
    using whole [of "sample_retry_disk sample_retry" "RetryStart ''2026-01-01T00:00:06Z'' ''D-2'' ''R-1'' 21 ''c21'' ''B-1'' 22 ''c22'' ''B-1''"]
    by (simp add: sample_retry_advances sample_commit)
  moreover have "dispatch_step (sample_retry_disk sample_retry_started) (sample_retry_disk sample_retry_finalizing)"
    using whole [of "sample_retry_disk sample_retry_started" "RetryFinalize ''D-2'' ''R-1''"]
    by (simp add: sample_retry_advances sample_commit)
  ultimately show "dispatch_step\<^sup>*\<^sup>* (sample_retry_disk sample_retry) (sample_retry_disk sample_retry_finalizing)"
    by (meson converse_rtranclp_into_rtranclp rtranclp.rtrancl_refl)
qed

lemma sample_finished_valid: "process_receipt_valid sample_finished"
  by code_simp

lemma sample_end_holds: "holds_receipt sample_end ''D-1'' sample_finished" "holds_tombstone sample_end ''D-1'' sample_tombstone"
  using sample_finished_valid sample_valid(5) by (simp_all add: sample_end_def commit_simps dispatch_set dispatch_evidence_read)

lemmas sample_reachable = dispatch_sample_run(1) rtranclp_trans [OF dispatch_sample_run(1,2)] rtranclp_trans [OF rtranclp_trans [OF dispatch_sample_run(1,2)] dispatch_sample_run(3)]

theorem dispatch_operations_refine_witness:
  "evidence_write\<^sup>*\<^sup>* (sample_disk sample_finalizing) (commit (take 1 (dispatch_writes
      (WriteTombstone ''2026-01-01T00:00:04Z'' ''2026-01-01T00:00:04Z'' sample_tombstone) (sample_disk sample_finalizing)))
      (sample_disk sample_finalizing))"
  by (rule dispatch_operations_refine [OF sample_reachable(2), THEN conjunct1])

theorem dispatch_evidence_kept_witness:
  "\<exists>s. holds_receipt sample_end ''D-1'' s \<and> receipt_follows sample_receipt s"
proof -
  have "\<exists>s. holds_receipt sample_end ''D-1'' s \<and> receipt_follows sample_receipt s \<and> (dr_phase sample_receipt = FINALIZED \<longrightarrow> s = sample_receipt)"
    using dispatch_evidence_kept [OF dispatch_sample_run(1) rtranclp_trans [OF dispatch_sample_run(2,3)]] sample_holds(1) [OF sample_valid(1)] by blast
  then show ?thesis by blast
qed

theorem finalized_means_done_witness:
  "\<exists>t. holds_tombstone sample_end ''D-1'' t \<and> same_dispatch sample_finished t \<and> ft_worker_done t"
proof -
  have "dr_phase sample_finished = FINALIZED" by simp
  with finalized_means_done [OF sample_reachable(3)] sample_end_holds(1) show ?thesis by metis
qed


theorem stale_generation_fenced_witness:
  "advance_to_finalizing ''2026-01-01T00:00:09Z'' ''D-1'' ''G-0'' sample_end
     = (Inl (DispatchSupervisorFencingError ''generation_id mismatch''), [])"
proof -
  have "''G-0'' \<noteq> dr_generation_id sample_receipt" by (simp add: sample_defs)
  from stale_generation_fenced [OF dispatch_sample_run(1) sample_holds(1) [OF sample_valid(1)] rtranclp_trans [OF dispatch_sample_run(2,3)] this]
  show ?thesis by blast
qed

theorem retry_evidence_kept_witness:
  "\<exists>s. holds_retry (sample_retry_disk sample_retry_finalizing) ''D-2'' s \<and> retry_follows sample_retry s"
  using retry_evidence_kept [OF sample_retry_run, of "''D-2''" sample_retry] sample_holds(2) [OF sample_valid(6)] by blast

theorem retry_finalization_not_replayed_witness:
  "\<exists>d. holds_retry_tombstone d ''D-2'' sample_retry_finalized
    \<and> advance_retry_to_finalized ''2026-01-01T00:00:08Z'' ''D-2'' ''R-1'' d
        = (Inl (DispatchSupervisorPhaseError ''retry phase already reached''), [])"
  using retry_finalization_not_replayed [OF rtranclp_trans [OF sample_retry_run] sample_retry_advances(3)] by blast

text \<open>
  Evidence of dispatches survives being written: a receipt, a tombstone or a retry record is read
  back from its document exactly when it passes the checks of its constructor.
\<close>

theorem dispatch_evidence_roundtrip:
  "(decode_receipt (receipt_bytes r) = Inr r \<longleftrightarrow> make_receipt r = Inr r)
    \<and> (decode_finalizer_tombstone (tombstone_bytes t) = Inr t \<longleftrightarrow> make_tombstone t = Inr t)
    \<and> (decode_retry_receipt name (retry_receipt_bytes q) = Inr q \<longleftrightarrow> make_retry_receipt q = Inr q)"
  using dispatch_evidence_read dispatch_evidence_decoded make_evidence by metis

end
