(* ===== verification/Process_Probe.thy ===== *)
theory Process_Probe
  imports Dispatch_Evidence Event_Stream
begin

text \<open>
  The liveness probes of \<open>dispatch_supervisor_evidence.py\<close>.  The operating system is a record of
  what each observation would find at each time; a probe makes its observations one after the
  other, so that processes may come and go between any two of them.  The answer DEAD is shown to
  rest on what was seen.
\<close>

section \<open>What can be observed\<close>

datatype ProcessLiveness = ALIVE | DEAD | UNKNOWN

datatype pid_state = Absent | Present | Inaccessible | Terminal

text \<open>A \<open>stat\<close> file read as UTF-8: its text, a failing read, or a text that is not UTF-8.\<close>

datatype stat_read = StatText string | StatError | StatUndecodable

datatype kill_answer = KillOk | NoSuchProcess | KillDenied | KillFailed

datatype open_answer = Opened | InvalidParameter | OpenRefused

text \<open>
  The host: its kind, its boot identity, and by time the \<open>stat\<close> file of a process, signal 0 to
  it, the entries of \<open>/proc\<close> and whether one of them is still there; on Windows
  \<open>OpenProcess\<close>, the creation time of a process and the count of a named job, \<open>-1\<close> for a job
  that is gone.
\<close>

record host =
  nt :: bool
  boot :: string
  stat_of :: "nat \<Rightarrow> string \<Rightarrow> stat_read"
  kill0 :: "nat \<Rightarrow> int \<Rightarrow> kill_answer"
  proc_entries :: "nat \<Rightarrow> string list option"
  entry_there :: "nat \<Rightarrow> string \<Rightarrow> bool"
  open_process :: "nat \<Rightarrow> int \<Rightarrow> open_answer"
  creation_filetime :: "nat \<Rightarrow> int \<Rightarrow> int option"
  job_count :: "nat \<Rightarrow> string \<Rightarrow> int option"

text \<open>A probe runs from a time to a later one; the error is the exception it lets through.\<close>

datatype probe_error = UnicodeDecodeError

type_synonym 'a probe = "nat \<Rightarrow> (probe_error + 'a) \<times> nat"

definition answer :: "'a \<Rightarrow> 'a probe" where
  "answer x t = (Inr x, t)"

definition look :: "(nat \<Rightarrow> 'a) \<Rightarrow> 'a probe" where
  "look f t = (Inr (f t), Suc t)"

definition raise_decode :: "'a probe" where
  "raise_decode t = (Inl UnicodeDecodeError, t)"

definition after_look :: "'a probe \<Rightarrow> ('a \<Rightarrow> 'b probe) \<Rightarrow> 'b probe" where
  "after_look m f t = (case m t of (Inl e, u) \<Rightarrow> (Inl e, u) | (Inr x, u) \<Rightarrow> f x u)"

definition read_stat :: "host \<Rightarrow> string \<Rightarrow> string option probe" where
  "read_stat h p = after_look (look (\<lambda>t. stat_of h t p)) (\<lambda>r. case r of
      StatText s \<Rightarrow> answer (Some s) | StatError \<Rightarrow> answer None | StatUndecodable \<Rightarrow> raise_decode)"

section \<open>The text of a stat file\<close>

text \<open>\<open>str.split()\<close>: maximal runs without blanks.\<close>

fun py_words :: "string \<Rightarrow> string \<Rightarrow> string list" where
  "py_words acc [] = (if acc = [] then [] else [rev acc])"
| "py_words acc (c # cs) =
     (if py_isspace c then (if acc = [] then py_words [] cs else rev acc # py_words [] cs) else py_words (c # acc) cs)"

text \<open>The fields after the last closing parenthesis, the first one being the process state.\<close>

definition stat_fields :: "string \<Rightarrow> string list option" where
  "stat_fields s = (if CHR '')'' \<notin> set s then None
     else Some (py_words [] (drop 1 (rev (takeWhile (\<lambda>c. c \<noteq> CHR '')'') (rev s))))))"

definition terminal_states :: "string list" where
  "terminal_states = [''Z'', ''X'', ''x'']"

definition stat_terminal :: "string \<Rightarrow> bool" where
  "stat_terminal s = (case stat_fields s of None \<Rightarrow> False | Some fs \<Rightarrow> fs \<noteq> [] \<and> hd fs \<in> set terminal_states)"

text \<open>A living member of a process group.\<close>

definition stat_member :: "int \<Rightarrow> string \<Rightarrow> bool" where
  "stat_member pgid s = (case stat_fields s of None \<Rightarrow> False
     | Some fs \<Rightarrow> 4 < length fs \<and> py_int (fs ! 2) = Some pgid \<and> hd fs \<notin> set terminal_states)"

section \<open>The probes\<close>

definition probe_pid_state :: "host \<Rightarrow> int \<Rightarrow> pid_state probe" where
  "probe_pid_state h pid =
    (if pid \<le> 0 then answer Absent
     else if \<not> nt h then after_look (read_stat h (show_int pid)) (\<lambda>s.
       if (case s of None \<Rightarrow> False | Some x \<Rightarrow> stat_terminal x) then answer Terminal
       else after_look (look (\<lambda>t. kill0 h t pid)) (\<lambda>k. answer (case k of
           NoSuchProcess \<Rightarrow> Absent | KillDenied \<Rightarrow> Inaccessible | KillFailed \<Rightarrow> Inaccessible | KillOk \<Rightarrow> Present)))
     else after_look (look (\<lambda>t. open_process h t pid)) (\<lambda>k. answer (case k of
           InvalidParameter \<Rightarrow> Absent | OpenRefused \<Rightarrow> Inaccessible | Opened \<Rightarrow> Present)))"

definition get_process_creation_time :: "host \<Rightarrow> int \<Rightarrow> string option probe" where
  "get_process_creation_time h pid =
    (if pid < 0 then answer None
     else if \<not> nt h then after_look (read_stat h (show_int pid)) (\<lambda>s. answer (case s of
         None \<Rightarrow> None
       | Some x \<Rightarrow> (case stat_fields x of
             None \<Rightarrow> None
           | Some fs \<Rightarrow> if length fs \<le> 19 then None else Some (''posix-starttime:'' @ fs ! 19))))
     else after_look (look (\<lambda>t. creation_filetime h t pid)) (\<lambda>c. answer (map_option (\<lambda>n. ''win-creation:'' @ show_int n) c)))"

text \<open>The scan of \<open>/proc\<close>: whether a living member of the group was seen; what cannot be read is skipped.\<close>

fun scan_group :: "host \<Rightarrow> int \<Rightarrow> string list \<Rightarrow> bool probe" where
  "scan_group h pgid [] = answer False"
| "scan_group h pgid (p # ps) =
    (if p = [] \<or> \<not> list_all is_digit p then scan_group h pgid ps
     else after_look (look (\<lambda>t. entry_there h t p)) (\<lambda>there.
       if \<not> there then scan_group h pgid ps
       else after_look (read_stat h p) (\<lambda>s. case s of
           None \<Rightarrow> scan_group h pgid ps
         | Some x \<Rightarrow> if stat_member pgid x then answer True else scan_group h pgid ps)))"

definition scan_proc :: "host \<Rightarrow> int \<Rightarrow> bool option probe" where
  "scan_proc h pgid = after_look (look (proc_entries h)) (\<lambda>es. case es of
      None \<Rightarrow> answer None
    | Some ps \<Rightarrow> after_look (scan_group h pgid ps) (\<lambda>found. answer (Some found)))"

definition worker_tree_dead :: "host \<Rightarrow> int option \<Rightarrow> bool probe" where
  "worker_tree_dead h pgrp = (case pgrp of
      None \<Rightarrow> answer False
    | Some pgid \<Rightarrow>
        if nt h then answer False
        else after_look (scan_proc h pgid) (\<lambda>first. case first of
            None \<Rightarrow> answer False
          | Some False \<Rightarrow> answer True
          | Some True \<Rightarrow> after_look (scan_proc h pgid) (\<lambda>second. answer (second = Some False))))"

definition dead_with_tree :: "host \<Rightarrow> int option \<Rightarrow> bool \<Rightarrow> ProcessLiveness probe" where
  "dead_with_tree h pgrp tree = (if \<not> tree then answer DEAD
     else after_look (worker_tree_dead h pgrp) (\<lambda>gone. answer (if gone then DEAD else UNKNOWN)))"

text \<open>The last argument is how often the creation time may be read again.\<close>

fun probe_process_again ::
  "host \<Rightarrow> int option \<Rightarrow> string option \<Rightarrow> string option \<Rightarrow> int option \<Rightarrow> bool \<Rightarrow> nat \<Rightarrow> ProcessLiveness probe"
where
  "probe_process_again h (Some pid) (Some creation) (Some boot_id) pgrp tree n =
     after_look (probe_pid_state h pid) (\<lambda>state.
       if state = Absent then dead_with_tree h pgrp tree
       else if state = Inaccessible then answer UNKNOWN
       else after_look (get_process_creation_time h pid) (\<lambda>current. case current of
           None \<Rightarrow> (case n of
               0 \<Rightarrow> answer UNKNOWN
             | Suc m \<Rightarrow> probe_process_again h (Some pid) (Some creation) (Some boot_id) pgrp tree m)
         | Some c \<Rightarrow>
             if c \<noteq> creation then answer UNKNOWN
             else if boot h \<noteq> boot_id then answer UNKNOWN
             else if state = Terminal then dead_with_tree h pgrp tree
             else answer ALIVE))"
| "probe_process_again h _ _ _ pgrp tree n = answer UNKNOWN"

definition probe_process ::
  "host \<Rightarrow> int option \<Rightarrow> string option \<Rightarrow> string option \<Rightarrow> int option \<Rightarrow> bool \<Rightarrow> ProcessLiveness probe"
where
  "probe_process h pid creation boot_id pgrp tree = probe_process_again h pid creation boot_id pgrp tree 1"

definition probe_supervisor :: "host \<Rightarrow> DispatchProcessReceipt \<Rightarrow> ProcessLiveness probe" where
  "probe_supervisor h r =
     probe_process h (dr_supervisor_pid r) (dr_supervisor_creation_time r) (Some (dr_boot_id r)) None False"

definition probe_worker :: "host \<Rightarrow> DispatchProcessReceipt \<Rightarrow> bool \<Rightarrow> ProcessLiveness probe" where
  "probe_worker h r tree = probe_process h (dr_worker_pid r) (dr_worker_creation_time r) (Some (dr_boot_id r))
     (if tree then dr_worker_process_group r else None) tree"

definition probe_dispatch_job_windows :: "host \<Rightarrow> DispatchProcessReceipt \<Rightarrow> ProcessLiveness probe" where
  "probe_dispatch_job_windows h r =
     after_look (probe_supervisor h r) (\<lambda>supervisor.
       if supervisor = ALIVE then answer ALIVE
       else after_look (look (\<lambda>t. job_count h t (dr_generation_id r))) (\<lambda>count. case count of
           None \<Rightarrow> answer UNKNOWN
         | Some n \<Rightarrow>
             if n > 0 then answer ALIVE
             else if n \<noteq> 0 \<and> n \<noteq> -1 then answer UNKNOWN
             else if supervisor \<noteq> DEAD then answer UNKNOWN
             else if dr_worker_pid r = None then answer DEAD
             else after_look (probe_worker h r False) (\<lambda>worker. answer (if worker = DEAD then DEAD else UNKNOWN))))"

fun probe_tree_again :: "host \<Rightarrow> DispatchProcessReceipt \<Rightarrow> nat \<Rightarrow> ProcessLiveness probe" where
  "probe_tree_again h r n =
     after_look (probe_supervisor h r) (\<lambda>supervisor.
       if supervisor = UNKNOWN \<and> n > 0 then probe_tree_again h r (n - 1)
       else if supervisor = ALIVE then answer ALIVE
       else if nt h then probe_dispatch_job_windows h r
       else if dr_worker_pid r \<noteq> None then after_look (probe_worker h r True) (\<lambda>worker.
         if worker = UNKNOWN \<and> n > 0 then probe_tree_again h r (n - 1)
         else if worker = ALIVE then answer ALIVE
         else answer (if supervisor = DEAD \<and> worker = DEAD then DEAD else UNKNOWN))
       else answer (if supervisor = DEAD then DEAD else UNKNOWN))"

declare probe_process_again.simps [simp del] probe_tree_again.simps [simp del]

definition probe_dispatch_process_tree :: "host \<Rightarrow> DispatchProcessReceipt \<Rightarrow> ProcessLiveness probe" where
  "probe_dispatch_process_tree h r =
    (if receipt_position (dr_phase r) < receipt_position SUPERVISOR_READY then answer UNKNOWN
     else probe_tree_again h r 1)"

section \<open>What an answer rests on\<close>

lemma probe_steps:
  "after_look m f t = (Inr y, v) \<longleftrightarrow> (\<exists>x u. m t = (Inr x, u) \<and> f x u = (Inr y, v))"
  "answer x t = (Inr y, v) \<longleftrightarrow> y = x \<and> v = t"
  "look g t = (Inr y, v) \<longleftrightarrow> y = g t \<and> v = Suc t"
  "raise_decode t \<noteq> (Inr y, v)"
  by (auto simp: after_look_def answer_def look_def raise_decode_def split: prod.splits sum.splits)

lemma read_stat_result:
  "read_stat h p t = (Inr s, u) \<longleftrightarrow> u = Suc t \<and> (case s of None \<Rightarrow> stat_of h t p = StatError | Some x \<Rightarrow> stat_of h t p = StatText x)"
  by (auto simp: read_stat_def probe_steps split: stat_read.splits option.splits)

text \<open>What was seen between two times: a process gone, or terminal under its recorded incarnation.\<close>

definition during :: "nat \<Rightarrow> nat \<Rightarrow> (nat \<Rightarrow> bool) \<Rightarrow> bool" where
  "during t u P \<longleftrightarrow> (\<exists>s. t \<le> s \<and> s < u \<and> P s)"

lemma during_at: "P s \<Longrightarrow> t \<le> s \<Longrightarrow> s < u \<Longrightarrow> during t u P"
  unfolding during_def by blast

lemma during_within: "during t u P \<Longrightarrow> t' \<le> t \<Longrightarrow> u \<le> u' \<Longrightarrow> during t' u' P"
  unfolding during_def by (meson order.trans order.strict_trans2)

definition absent_at :: "host \<Rightarrow> int \<Rightarrow> nat \<Rightarrow> bool" where
  "absent_at h pid s \<longleftrightarrow> (if nt h then open_process h s pid = InvalidParameter else kill0 h s pid = NoSuchProcess)"

definition terminal_at :: "host \<Rightarrow> int \<Rightarrow> nat \<Rightarrow> bool" where
  "terminal_at h pid s \<longleftrightarrow> \<not> nt h \<and> (\<exists>x. stat_of h s (show_int pid) = StatText x \<and> stat_terminal x)"

definition created_at :: "host \<Rightarrow> int \<Rightarrow> string \<Rightarrow> nat \<Rightarrow> bool" where
  "created_at h pid creation s \<longleftrightarrow> (\<exists>x fs. stat_of h s (show_int pid) = StatText x \<and> stat_fields x = Some fs
     \<and> 19 < length fs \<and> creation = ''posix-starttime:'' @ fs ! 19)"

definition gone_seen :: "host \<Rightarrow> nat \<Rightarrow> nat \<Rightarrow> int \<Rightarrow> string \<Rightarrow> string \<Rightarrow> bool" where
  "gone_seen h t u pid creation boot_id \<longleftrightarrow> pid \<le> 0 \<or> during t u (absent_at h pid)
     \<or> during t u (terminal_at h pid) \<and> during t u (created_at h pid creation) \<and> boot h = boot_id"

text \<open>A scan of \<open>/proc\<close> in which no entry was read as a living member of the group.\<close>

definition no_member_at :: "host \<Rightarrow> int \<Rightarrow> string \<Rightarrow> nat \<Rightarrow> bool" where
  "no_member_at h pgid p s \<longleftrightarrow> \<not> entry_there h s p \<or> stat_of h s p = StatError
     \<or> (\<exists>x. stat_of h s p = StatText x \<and> \<not> stat_member pgid x)"

definition scanned_clear :: "host \<Rightarrow> nat \<Rightarrow> nat \<Rightarrow> int \<Rightarrow> string list \<Rightarrow> bool" where
  "scanned_clear h t u pgid ps \<longleftrightarrow> (\<forall>p\<in>set ps. p \<noteq> [] \<and> list_all is_digit p \<longrightarrow> during t u (no_member_at h pgid p))"

definition group_clear_seen :: "host \<Rightarrow> nat \<Rightarrow> nat \<Rightarrow> int \<Rightarrow> bool" where
  "group_clear_seen h t u pgid \<longleftrightarrow> (\<exists>s ps. t \<le> s \<and> s < u \<and> proc_entries h s = Some ps \<and> scanned_clear h s u pgid ps)"

lemma seen_within:
  "gone_seen h t u pid c b \<Longrightarrow> t' \<le> t \<Longrightarrow> u \<le> u' \<Longrightarrow> gone_seen h t' u' pid c b"
  "scanned_clear h t u g ps \<Longrightarrow> t' \<le> t \<Longrightarrow> u \<le> u' \<Longrightarrow> scanned_clear h t' u' g ps"
  "group_clear_seen h t u g \<Longrightarrow> t' \<le> t \<Longrightarrow> u \<le> u' \<Longrightarrow> group_clear_seen h t' u' g"
proof -
  show "gone_seen h t u pid c b \<Longrightarrow> t' \<le> t \<Longrightarrow> u \<le> u' \<Longrightarrow> gone_seen h t' u' pid c b"
    unfolding gone_seen_def using during_within by metis
  show clear: "scanned_clear h t u g ps \<Longrightarrow> t' \<le> t \<Longrightarrow> u \<le> u' \<Longrightarrow> scanned_clear h t' u' g ps" for t t' ps
    unfolding scanned_clear_def using during_within by metis
  show "group_clear_seen h t u g \<Longrightarrow> t' \<le> t \<Longrightarrow> u \<le> u' \<Longrightarrow> group_clear_seen h t' u' g"
    unfolding group_clear_seen_def using clear by (meson order.refl order.trans order.strict_trans2)
qed

lemma probe_pid_state_result:
  assumes "probe_pid_state h pid t = (Inr st, u)"
  shows "t \<le> u" and "st = Absent \<Longrightarrow> pid \<le> 0 \<or> during t u (absent_at h pid)"
    and "st = Terminal \<Longrightarrow> during t u (terminal_at h pid)"
  using assms
  by (auto simp: probe_pid_state_def probe_steps read_stat_result absent_at_def terminal_at_def
      split: if_splits option.splits kill_answer.splits open_answer.splits intro: during_at [of _ t] during_at [of _ "Suc t"])

lemma creation_time_result:
  assumes "get_process_creation_time h pid t = (Inr c, u)"
  shows "t \<le> u" and "c = Some creation \<Longrightarrow> \<not> nt h \<Longrightarrow> during t u (created_at h pid creation)"
  using assms
  by (auto simp: get_process_creation_time_def probe_steps read_stat_result created_at_def
      split: if_splits option.splits intro: during_at [of _ t])

lemma scanned_clear_Cons:
  "scanned_clear h t u g (p # ps) \<longleftrightarrow> (p \<noteq> [] \<and> list_all is_digit p \<longrightarrow> during t u (no_member_at h g p)) \<and> scanned_clear h t u g ps"
  by (auto simp: scanned_clear_def)

lemma scan_group_result:
  assumes "scan_group h g ps t = (Inr found, u)"
  shows "t \<le> u \<and> (found \<or> scanned_clear h t u g ps)"
  using assms
proof (induction ps arbitrary: t)
  case Nil
  then show ?case by (simp add: probe_steps scanned_clear_def)
next
  case (Cons p ps)
  have skip: "t \<le> u \<and> (found \<or> scanned_clear h t u g (p # ps))"
    if "scan_group h g ps t' = (Inr found, u)" "t < t'" "no_member_at h g p s" "t \<le> s" "s < t'" for t' s
    using Cons.IH [OF that(1)] that(2) seen_within(2) [of h t' u g ps t u] during_at [of "no_member_at h g p" s t u] that(3-)
    by (auto simp: scanned_clear_Cons)
  consider (other) "p = [] \<or> \<not> list_all is_digit p" | (here) "p \<noteq> []" "list_all is_digit p" "entry_there h t p"
    | (left) "p \<noteq> []" "list_all is_digit p" "\<not> entry_there h t p" by blast
  then show ?case
  proof cases
    case other
    with Cons show ?thesis by (auto simp: scanned_clear_Cons)
  next
    case here
    with Cons.prems consider (unread) "stat_of h (Suc t) p = StatError" "scan_group h g ps (Suc (Suc t)) = (Inr found, u)"
      | (member) "found" "u = Suc (Suc t)"
      | (alien) x where "stat_of h (Suc t) p = StatText x" "\<not> stat_member g x" "scan_group h g ps (Suc (Suc t)) = (Inr found, u)"
      by (auto simp: probe_steps read_stat_result split: option.splits if_splits)
    then show ?thesis
    proof cases
      case unread
      show ?thesis by (rule skip [OF unread(2), of "Suc t"]) (simp_all add: no_member_at_def unread(1))
    next
      case alien
      show ?thesis by (rule skip [OF alien(3), of "Suc t"]) (simp_all add: no_member_at_def alien(1,2))
    qed simp
  next
    case left
    with Cons.prems have "scan_group h g ps (Suc t) = (Inr found, u)" by (auto simp: probe_steps)
    then show ?thesis by (rule skip [of _ t]) (use left in \<open>simp_all add: no_member_at_def\<close>)
  qed
qed

lemma scan_proc_result:
  assumes "scan_proc h g t = (Inr found, u)"
  shows "t \<le> u \<and> (found = Some False \<longrightarrow> group_clear_seen h t u g)"
proof (cases "proc_entries h t")
  case None
  with assms show ?thesis by (simp add: scan_proc_def probe_steps)
next
  case (Some ps)
  with assms obtain x where x: "scan_group h g ps (Suc t) = (Inr x, u)" "found = Some x" by (auto simp: scan_proc_def probe_steps)
  from scan_group_result [OF x(1)] x(2) Some seen_within(2) [of h "Suc t" u g ps t u] show ?thesis
    by (auto simp: group_clear_seen_def intro!: exI [of _ t])
qed

lemma worker_tree_dead_result:
  assumes "worker_tree_dead h pgrp t = (Inr clear, u)"
  shows "t \<le> u \<and> (clear \<longrightarrow> (\<exists>g. pgrp = Some g \<and> group_clear_seen h t u g))"
proof (cases pgrp)
  case None
  with assms show ?thesis by (simp add: worker_tree_dead_def probe_steps)
next
  case (Some g)
  show ?thesis
  proof (cases "nt h")
    case True
    with assms Some show ?thesis by (simp add: worker_tree_dead_def probe_steps)
  next
    case False
    with assms Some obtain one m where one: "scan_proc h g t = (Inr one, m)"
      and rest: "(case one of None \<Rightarrow> answer False | Some False \<Rightarrow> answer True
          | Some True \<Rightarrow> after_look (scan_proc h g) (\<lambda>second. answer (second = Some False))) m = (Inr clear, u)"
      unfolding worker_tree_dead_def by (auto simp: probe_steps)
    from rest consider "clear" "one = Some False" "u = m" | two where "scan_proc h g m = (Inr two, u)" "clear \<longleftrightarrow> two = Some False"
      | "\<not> clear" "u = m"
      by (auto simp: probe_steps split: option.splits bool.splits)
    then show ?thesis
      using scan_proc_result [OF one] scan_proc_result [of h g m] seen_within(3) [of h m u g t u] Some by cases auto
  qed
qed

lemma dead_with_tree_result:
  assumes "dead_with_tree h pgrp tree t = (Inr l, u)"
  shows "t \<le> u \<and> l \<noteq> ALIVE \<and> (l = DEAD \<and> tree \<longrightarrow> (\<exists>g. pgrp = Some g \<and> group_clear_seen h t u g))"
  using assms worker_tree_dead_result [of h pgrp t]
  by (auto simp: dead_with_tree_def probe_steps split: if_splits)

text \<open>One round of the probe: it answers, or starts again where the creation time could not be read.\<close>

lemma probe_round:
  assumes "probe_process_again h (Some pid) (Some creation) (Some boot_id) pgrp tree n t = (Inr l, u)"
  shows "(\<exists>k v. n = Suc k \<and> t \<le> v \<and> probe_process_again h (Some pid) (Some creation) (Some boot_id) pgrp tree k v = (Inr l, u))
    \<or> t \<le> u \<and> (l = DEAD \<longrightarrow> gone_seen h t u pid creation boot_id \<and> (tree \<longrightarrow> (\<exists>g. pgrp = Some g \<and> group_clear_seen h t u g)))"
proof -
  from assms obtain st m where st: "probe_pid_state h pid t = (Inr st, m)"
    and rest: "(if st = Absent then dead_with_tree h pgrp tree
       else if st = Inaccessible then answer UNKNOWN
       else after_look (get_process_creation_time h pid) (\<lambda>current. case current of
           None \<Rightarrow> (case n of 0 \<Rightarrow> answer UNKNOWN
             | Suc m \<Rightarrow> probe_process_again h (Some pid) (Some creation) (Some boot_id) pgrp tree m)
         | Some c \<Rightarrow> if c \<noteq> creation then answer UNKNOWN else if boot h \<noteq> boot_id then answer UNKNOWN
             else if st = Terminal then dead_with_tree h pgrp tree else answer ALIVE)) m = (Inr l, u)"
    by (auto simp: probe_process_again.simps(1) [of h pid creation boot_id pgrp tree n] probe_steps)
  note seen = probe_pid_state_result [OF st]
  consider (absent) "st = Absent" | (shut) "st = Inaccessible" | (visible) "st \<noteq> Absent" "st \<noteq> Inaccessible" by blast
  then show ?thesis
  proof cases
    case absent
    with rest have tree: "dead_with_tree h pgrp tree m = (Inr l, u)" by simp
    from dead_with_tree_result [OF tree] seen(1) seen(2) [OF absent] show ?thesis
      using during_within [of t m "absent_at h pid" t u] seen_within(3) [of h m u _ t u] by (auto simp: gone_seen_def)
  next
    case shut
    with rest seen(1) show ?thesis by (simp add: probe_steps)
  next
    case visible
    with rest obtain cur v where cur: "get_process_creation_time h pid m = (Inr cur, v)" by (auto simp: probe_steps)
    note creation = creation_time_result [OF cur]
    show ?thesis
    proof (cases cur)
      case None
      with rest visible cur seen(1) creation(1) show ?thesis by (cases n) (auto simp: probe_steps)
    next
      case (Some c)
      show ?thesis
      proof (cases "c = creation \<and> boot h = boot_id \<and> st = Terminal")
        case True
        with rest visible cur Some have tree: "dead_with_tree h pgrp tree v = (Inr l, u)" by (simp add: probe_steps)
        from True seen(3) have on: "during t m (terminal_at h pid)" by simp
        then have "\<not> nt h" by (auto simp: during_def terminal_at_def)
        with creation(2) Some True have "during m v (created_at h pid creation)" by simp
        with during_within [OF on, of t u] during_within [of m v "created_at h pid creation" t u] creation(1) seen(1)
          dead_with_tree_result [OF tree] True seen_within(3) [of h v u _ t u] show ?thesis
          by (auto simp: gone_seen_def)
      next
        case False
        with rest visible cur Some seen(1) creation(1) show ?thesis by (auto simp: probe_steps split: if_splits)
      qed
    qed
  qed
qed

lemma probe_process_result:
  assumes "probe_process_again h p c b pgrp tree n t = (Inr l, u)"
  shows "t \<le> u \<and> (l = DEAD \<longrightarrow> (\<exists>pid creation boot_id. p = Some pid \<and> c = Some creation \<and> b = Some boot_id
     \<and> gone_seen h t u pid creation boot_id \<and> (tree \<longrightarrow> (\<exists>g. pgrp = Some g \<and> group_clear_seen h t u g))))"
proof (cases "p = None \<or> c = None \<or> b = None")
  case True
  with assms show ?thesis by (cases p; cases c) (auto simp: probe_process_again.simps probe_steps)
next
  case False
  then obtain pid creation boot_id where some: "p = Some pid" "c = Some creation" "b = Some boot_id" by auto
  have "t \<le> u \<and> (l = DEAD \<longrightarrow> gone_seen h t u pid creation boot_id \<and> (tree \<longrightarrow> (\<exists>g. pgrp = Some g \<and> group_clear_seen h t u g)))"
    using assms unfolding some
  proof (induction n arbitrary: t)
    case 0
    from probe_round [OF this] show ?case by simp
  next
    case (Suc n)
    from probe_round [OF Suc.prems] show ?case
    proof (elim disjE exE conjE)
      fix k v assume "Suc n = Suc k" "t \<le> v"
        "probe_process_again h (Some pid) (Some creation) (Some boot_id) pgrp tree k v = (Inr l, u)"
      with Suc.IH [of v] seen_within(1) [of h v u pid creation boot_id t u] seen_within(3) [of h v u _ t u] show ?thesis
        by auto
    qed simp
  qed
  with some show ?thesis by auto
qed

text \<open>What the answer DEAD of the tree probe says of a receipt's processes.\<close>

definition supervisor_gone :: "host \<Rightarrow> nat \<Rightarrow> nat \<Rightarrow> DispatchProcessReceipt \<Rightarrow> bool" where
  "supervisor_gone h t u r \<longleftrightarrow> (\<exists>pid c. dr_supervisor_pid r = Some pid \<and> dr_supervisor_creation_time r = Some c
     \<and> gone_seen h t u pid c (dr_boot_id r))"

definition worker_gone :: "host \<Rightarrow> nat \<Rightarrow> nat \<Rightarrow> DispatchProcessReceipt \<Rightarrow> bool" where
  "worker_gone h t u r \<longleftrightarrow> (\<exists>pid c. dr_worker_pid r = Some pid \<and> dr_worker_creation_time r = Some c
     \<and> gone_seen h t u pid c (dr_boot_id r))
     \<and> (nt h \<or> (\<exists>g. dr_worker_process_group r = Some g \<and> group_clear_seen h t u g))"

definition job_over :: "host \<Rightarrow> nat \<Rightarrow> nat \<Rightarrow> DispatchProcessReceipt \<Rightarrow> bool" where
  "job_over h t u r \<longleftrightarrow> \<not> nt h \<or> during t u (\<lambda>s. job_count h s (dr_generation_id r) \<in> {Some 0, Some (-1)})"

lemma gone_within:
  assumes "t' \<le> t" and "u \<le> u'"
  shows "supervisor_gone h t u r \<Longrightarrow> supervisor_gone h t' u' r" and "worker_gone h t u r \<Longrightarrow> worker_gone h t' u' r"
    and "job_over h t u r \<Longrightarrow> job_over h t' u' r"
  using assms seen_within(1,3) during_within unfolding supervisor_gone_def worker_gone_def job_over_def by metis+

lemma supervisor_result:
  assumes "probe_supervisor h r t = (Inr l, u)"
  shows "t \<le> u \<and> (l = DEAD \<longrightarrow> supervisor_gone h t u r)"
  using probe_process_result [OF assms [unfolded probe_supervisor_def probe_process_def]] by (auto simp: supervisor_gone_def)

lemma worker_result:
  assumes "probe_worker h r tree t = (Inr l, u)" and "tree = (\<not> nt h)"
  shows "t \<le> u \<and> (l = DEAD \<longrightarrow> worker_gone h t u r)"
  using probe_process_result [OF assms(1) [unfolded probe_worker_def probe_process_def]] assms(2)
  by (auto simp: worker_gone_def)

lemma job_result:
  assumes "probe_dispatch_job_windows h r t = (Inr l, u)" and "nt h"
  shows "t \<le> u \<and> (l = DEAD \<longrightarrow> supervisor_gone h t u r \<and> job_over h t u r \<and> (dr_worker_pid r = None \<or> worker_gone h t u r))"
proof -
  from assms(1) obtain sup m where sup: "probe_supervisor h r t = (Inr sup, m)" by (auto simp: probe_dispatch_job_windows_def probe_steps)
  note s = supervisor_result [OF sup]
  from assms(1) sup consider (quiet) "l \<noteq> DEAD" "m \<le> u"
    | (idle) "sup = DEAD" "job_count h m (dr_generation_id r) \<in> {Some 0, Some (-1)}" "dr_worker_pid r = None" "u = Suc m"
    | (worker) w where "sup = DEAD" "job_count h m (dr_generation_id r) \<in> {Some 0, Some (-1)}"
        "probe_worker h r False (Suc m) = (Inr w, u)" "l = DEAD \<Longrightarrow> w = DEAD"
    using worker_result [of h r False "Suc m"] assms(2)
    by (auto simp: probe_dispatch_job_windows_def probe_steps split: if_splits option.splits)
  then show ?thesis
  proof cases
    case quiet
    with s show ?thesis by simp
  next
    case idle
    with s gone_within(1) [of t t m u h r] show ?thesis by (auto simp: job_over_def intro: during_at [of _ m])
  next
    case worker
    from worker_result [OF worker(3)] assms(2) have w: "Suc m \<le> u" "w = DEAD \<Longrightarrow> worker_gone h (Suc m) u r" by auto
    with worker s gone_within(1) [of t t m u h r] gone_within(2) [of t "Suc m" u u h r] show ?thesis
      by (auto simp: job_over_def intro: during_at [of _ m])
  qed
qed

definition dispatch_over :: "host \<Rightarrow> nat \<Rightarrow> nat \<Rightarrow> DispatchProcessReceipt \<Rightarrow> bool" where
  "dispatch_over h t u r \<longleftrightarrow> supervisor_gone h t u r \<and> job_over h t u r \<and> (dr_worker_pid r = None \<or> worker_gone h t u r)"

lemma tree_step:
  assumes "probe_tree_again h r n t = (Inr l, u)"
  shows "(\<exists>k v. k < n \<and> t \<le> v \<and> probe_tree_again h r k v = (Inr l, u)) \<or> t \<le> u \<and> (l = DEAD \<longrightarrow> dispatch_over h t u r)"
proof -
  from assms obtain sup m where sup: "probe_supervisor h r t = (Inr sup, m)"
    by (auto simp: probe_tree_again.simps [of h r n] probe_steps)
  note s = supervisor_result [OF sup]
  from assms sup consider (again) "n > 0" "probe_tree_again h r (n - 1) m = (Inr l, u)" | (quiet) "l \<noteq> DEAD" "m \<le> u"
    | (windows) "nt h" "probe_dispatch_job_windows h r m = (Inr l, u)"
    | (worker) w v where "\<not> nt h" "dr_worker_pid r \<noteq> None" "probe_worker h r True m = (Inr w, v)"
        "n > 0 \<and> probe_tree_again h r (n - 1) v = (Inr l, u) \<or> u = v \<and> (l = DEAD \<longrightarrow> sup = DEAD \<and> w = DEAD)"
    | (alone) "\<not> nt h" "dr_worker_pid r = None" "u = m" "l = DEAD \<longrightarrow> sup = DEAD"
    by (auto simp: probe_tree_again.simps [of h r n] probe_steps split: if_splits)
  then show ?thesis
  proof cases
    case again
    with s show ?thesis by (intro disjI1 exI [of _ "n - 1"] exI [of _ m]) simp
  next
    case quiet
    with s show ?thesis by simp
  next
    case windows
    from job_result [OF windows(2,1)] s gone_within [of t m u u h r] show ?thesis by (auto simp: dispatch_over_def)
  next
    case worker
    from worker_result [OF worker(3)] worker(1) have w: "m \<le> v" "w = DEAD \<Longrightarrow> worker_gone h m v r" by auto
    from worker(4) show ?thesis
    proof
      assume "n > 0 \<and> probe_tree_again h r (n - 1) v = (Inr l, u)"
      with s w show ?thesis by (intro disjI1 exI [of _ "n - 1"] exI [of _ v]) simp
    next
      assume "u = v \<and> (l = DEAD \<longrightarrow> sup = DEAD \<and> w = DEAD)"
      with s w worker(1) gone_within(1) [of t t m u h r] gone_within(2) [of t m u u h r] show ?thesis
        by (auto simp: dispatch_over_def job_over_def)
    qed
  next
    case alone
    with s show ?thesis by (auto simp: dispatch_over_def job_over_def)
  qed
qed

lemma tree_result:
  assumes "probe_tree_again h r n t = (Inr l, u)"
  shows "t \<le> u \<and> (l = DEAD \<longrightarrow> dispatch_over h t u r)"
  using assms
proof (induction n arbitrary: t rule: less_induct)
  case (less n)
  from tree_step [OF less.prems] show ?case
  proof (elim disjE exE conjE)
    fix k v assume "k < n" "t \<le> v" "probe_tree_again h r k v = (Inr l, u)"
    with less.IH [of k v] gone_within [of t v u u h r] show ?thesis by (auto simp: dispatch_over_def)
  qed simp
qed

section \<open>Properties\<close>


text \<open>
  C4. What runs is never reported dead.  While the supervisor or the worker of a receipt can be seen
  running, whatever else comes and goes, no tree probe answers DEAD; nor, on POSIX, while a process
  of the worker's group does.
\<close>

theorem running_never_dead:
  assumes "(\<exists>pid > 0. (dr_supervisor_pid r = Some pid \<or> dr_worker_pid r = Some pid)
        \<and> (\<forall>s\<ge>t. \<not> absent_at h pid s \<and> \<not> terminal_at h pid s))
    \<or> (\<not> nt h \<and> dr_worker_pid r \<noteq> None \<and> (\<exists>g p. dr_worker_process_group r = Some g \<and> p \<noteq> [] \<and> list_all is_digit p
        \<and> (\<forall>s\<ge>t. (\<forall>ps. proc_entries h s = Some ps \<longrightarrow> p \<in> set ps) \<and> \<not> no_member_at h g p s)))"
  shows "fst (probe_dispatch_process_tree h r t) \<noteq> Inr DEAD"
proof
  assume "fst (probe_dispatch_process_tree h r t) = Inr DEAD"
  then obtain u where "probe_dispatch_process_tree h r t = (Inr DEAD, u)" by (metis prod.collapse)
  then have over: "dispatch_over h t u r"
    using tree_result [of h r 1 t DEAD u] by (auto simp: probe_dispatch_process_tree_def probe_steps split: if_splits)
  have gone: "\<not> gone_seen h t u pid c b" if "pid > 0" "\<forall>s\<ge>t. \<not> absent_at h pid s \<and> \<not> terminal_at h pid s" for pid c b
    using that by (auto simp: gone_seen_def during_def)
  have clear: "\<not> group_clear_seen h t u g" if "p \<noteq> []" "list_all is_digit p"
    "\<forall>s\<ge>t. (\<forall>ps. proc_entries h s = Some ps \<longrightarrow> p \<in> set ps) \<and> \<not> no_member_at h g p s" for g p
    using that unfolding group_clear_seen_def scanned_clear_def during_def by (meson order.trans)
  from assms show False
  proof (elim disjE exE conjE)
    fix pid assume "pid > 0" "\<forall>s\<ge>t. \<not> absent_at h pid s \<and> \<not> terminal_at h pid s"
      and "dr_supervisor_pid r = Some pid"
    with gone over show False by (auto simp: dispatch_over_def supervisor_gone_def)
  next
    fix pid assume "pid > 0" "\<forall>s\<ge>t. \<not> absent_at h pid s \<and> \<not> terminal_at h pid s"
      and "dr_worker_pid r = Some pid"
    with gone over show False by (auto simp: dispatch_over_def worker_gone_def)
  next
    fix g p assume "\<not> nt h" "dr_worker_pid r \<noteq> None" "dr_worker_process_group r = Some g" "p \<noteq> []" "list_all is_digit p"
      "\<forall>s\<ge>t. (\<forall>ps. proc_entries h s = Some ps \<longrightarrow> p \<in> set ps) \<and> \<not> no_member_at h g p s"
    with clear over show False by (auto simp: dispatch_over_def worker_gone_def)
  qed
qed

section \<open>Concrete hosts\<close>

definition probed_receipt :: DispatchProcessReceipt where
  "probed_receipt =
    \<lparr>dr_schema_version = EVIDENCE_SCHEMA_VERSION, dr_task_id = ''TC-001'', dr_revision = 1, dr_attempt = 1,
     dr_dispatch_id = ''D-1'', dr_lease_epoch = 1, dr_holder_instance_id = ''H-1'', dr_generation_id = ''G-1'',
     dr_platform = ''posix'', dr_boot_id = ''B-1'', dr_phase = WORKER_STARTED, dr_creator_pid = Some 10,
     dr_creator_creation_time = Some ''c10'', dr_supervisor_pid = Some 11, dr_supervisor_creation_time = Some ''c11'',
     dr_worker_pid = Some 12, dr_worker_creation_time = Some ''c12'', dr_worker_process_group = Some 12,
     dr_written_at = ''2026-01-01T00:00:00Z''\<rparr>"

text \<open>A POSIX host where neither process is there and \<open>/proc\<close> lists the given entries, none readable.\<close>

definition empty_host :: "string list \<Rightarrow> stat_read \<Rightarrow> host" where
  "empty_host ps text = \<lparr>nt = False, boot = ''B-1'', stat_of = (\<lambda>t p. if p = ''11'' \<or> p = ''12'' then StatError else text),
     kill0 = (\<lambda>t pid. NoSuchProcess), proc_entries = (\<lambda>t. Some ps), entry_there = (\<lambda>t p. True),
     open_process = (\<lambda>t pid. OpenRefused), creation_filetime = (\<lambda>t pid. None), job_count = (\<lambda>t g. None)\<rparr>"

lemma show_11_12: "show_int 11 = ''11''" "show_int 12 = ''12''"
  by code_simp+

lemmas probe_unfold = probe_dispatch_process_tree_def probe_tree_again.simps probe_process_again.simps probe_supervisor_def
  probe_worker_def probe_process_def probe_pid_state_def dead_with_tree_def worker_tree_dead_def scan_proc_def
  read_stat_def look_def answer_def after_look_def raise_decode_def probed_receipt_def empty_host_def show_11_12

text \<open>
  A member of the worker's group whose \<open>stat\<close> file cannot be read is passed over, so the tree may be
  reported dead while it lives; a \<open>stat\<close> file that is not UTF-8 lets an exception through.
\<close>

lemma unreadable_member_skipped: "fst (probe_dispatch_process_tree (empty_host [''13''] StatError) probed_receipt 0) = Inr DEAD"
  by (simp add: probe_unfold is_digit_def)

lemma undecodable_stat_raises:
  "fst (probe_dispatch_process_tree (empty_host [''13''] StatUndecodable) probed_receipt 0) = Inl UnicodeDecodeError"
  by (simp add: probe_unfold is_digit_def)



theorem running_never_dead_witness:
  "fst (probe_dispatch_process_tree (empty_host [] StatError\<lparr>kill0 := (\<lambda>t pid. if pid = 12 then KillOk else NoSuchProcess)\<rparr>) probed_receipt 0)
     \<noteq> Inr DEAD"
proof (rule running_never_dead, rule disjI1, rule exI [of _ 12], intro conjI)
  show "\<forall>s\<ge>0. \<not> absent_at (empty_host [] StatError\<lparr>kill0 := (\<lambda>t pid. if pid = 12 then KillOk else NoSuchProcess)\<rparr>) 12 s
      \<and> \<not> terminal_at (empty_host [] StatError\<lparr>kill0 := (\<lambda>t pid. if pid = 12 then KillOk else NoSuchProcess)\<rparr>) 12 s"
    by (simp add: absent_at_def terminal_at_def empty_host_def show_11_12)
qed (simp_all add: probed_receipt_def)

end
