(* ===== verification/Worktree_Manager.thy ===== *)
theory Worktree_Manager
  imports Lease_Store Worktree_Store Dispatch_Guarantees Process_Probe
begin

text \<open>
  Creation and release of managed worktrees (\<open>worktree_lifecycle_manager.py\<close>), the place where
  leases, dispatch evidence, process probes, the worktree store and Git meet.  Git, the file system
  and the evidence of other components are what a call finds at the time it looks; a call leaves a
  trail of the effects it had, in order, with the answers Git gave, so that any prefix of it is
  what a crash leaves behind.
\<close>

section \<open>The machine\<close>

datatype git_answer = GitOut string | GitNonzero | GitExecution

datatype path_kind = RealDirectory | LinkPath | OtherPath | MissingPath | UnknownPath

record machine =
  git :: "nat \<Rightarrow> string \<Rightarrow> string list \<Rightarrow> git_answer"
  path_kind_of :: "nat \<Rightarrow> string \<Rightarrow> path_kind"
  path_exists :: "nat \<Rightarrow> string \<Rightarrow> bool"
  mkdir_works :: "nat \<Rightarrow> string \<Rightarrow> bool"
  lease_file :: "nat \<Rightarrow> store_file"
  dispatch_files :: "nat \<Rightarrow> dispatch_disk"
  processes :: host

datatype effect =
    Git string "string list" git_answer
  | MakeDirectory string
  | Evidence worktree_file string

record managed =
  clock :: nat
  evidence :: worktree_disk
  trail :: "effect list"

datatype manager_error =
    StoreFailure worktree_error
  | GitFailure string
  | ReleaseRefused string
  | PermissionFailure string
  | ProbeFailure probe_error

type_synonym 'a managing = "managed \<Rightarrow> (manager_error + 'a) \<times> managed"

definition yields :: "'a \<Rightarrow> 'a managing" where
  "yields x s = (Inr x, s)"

definition fails :: "manager_error \<Rightarrow> 'a managing" where
  "fails e s = (Inl e, s)"

definition and_next :: "'a managing \<Rightarrow> ('a \<Rightarrow> 'b managing) \<Rightarrow> 'b managing" where
  "and_next m f s = (case m s of (Inl e, t) \<Rightarrow> (Inl e, t) | (Inr x, t) \<Rightarrow> f x t)"

definition refuse_if :: "(bool \<times> manager_error) list \<Rightarrow> 'a managing \<Rightarrow> 'a managing" where
  "refuse_if gs m = (case raise_first gs of None \<Rightarrow> m | Some e \<Rightarrow> fails e)"

definition observe :: "(nat \<Rightarrow> 'a) \<Rightarrow> 'a managing" where
  "observe f s = (Inr (f (clock s)), s\<lparr>clock := Suc (clock s)\<rparr>)"

definition lifted :: "worktree_error + 'a \<Rightarrow> 'a managing" where
  "lifted v = (case v of Inl e \<Rightarrow> fails (StoreFailure e) | Inr x \<Rightarrow> yields x)"

definition read_evidence :: "(worktree_disk \<Rightarrow> worktree_error + 'a) \<Rightarrow> 'a managing" where
  "read_evidence f s = lifted (f (evidence s)) s"

definition in_store :: "(worktree_disk \<Rightarrow> 'a worktree_outcome) \<Rightarrow> 'a managing" where
  "in_store f s = (case f (evidence s) of (r, ws) \<Rightarrow>
     lifted r (s\<lparr>evidence := commit ws (evidence s), trail := trail s @ map (\<lambda>(p, b). Evidence p b) ws\<rparr>))"

section \<open>Git and directories\<close>

definition run_git :: "machine \<Rightarrow> string \<Rightarrow> string list \<Rightarrow> string managing" where
  "run_git m cwd argv s =
     (let a = git m (clock s) cwd argv;
          t = s\<lparr>clock := Suc (clock s), trail := trail s @ [Git cwd argv a]\<rparr>
      in case a of
           GitOut out \<Rightarrow> (Inr out, t)
         | GitNonzero \<Rightarrow> (Inl (GitFailure ''nonzero''), t)
         | GitExecution \<Rightarrow> (Inl (GitFailure ''execution''), t))"

definition git_success :: "machine \<Rightarrow> string \<Rightarrow> string list \<Rightarrow> bool managing" where
  "git_success m cwd argv s = (case run_git m cwd argv s of
      (Inr _, t) \<Rightarrow> (Inr True, t)
    | (Inl e, t) \<Rightarrow> if e = GitFailure ''nonzero'' then (Inr False, t) else (Inl e, t))"

definition decoded_single_line :: "string \<Rightarrow> string \<Rightarrow> string managing" where
  "decoded_single_line data code =
     (let v = py_strip data
      in refuse_if [(v = [] \<or> has_char [CHR 0x0A, CHR 0x0D, CHR 0x00] v, GitFailure (code @ ''_shape''))] (yields v))"

definition safe_directory :: "machine \<Rightarrow> string \<Rightarrow> string \<Rightarrow> unit managing" where
  "safe_directory m path code = and_next (observe (\<lambda>t. path_kind_of m t path)) (\<lambda>k. case k of
      RealDirectory \<Rightarrow> yields ()
    | LinkPath \<Rightarrow> fails (StoreFailure (WorktreeLifecycleSecurityError (code @ ''_link'')))
    | MissingPath \<Rightarrow> fails (StoreFailure (WorktreeLifecycleSecurityError (code @ ''_missing'')))
    | UnknownPath \<Rightarrow> fails (PermissionFailure (code @ ''_unknown''))
    | OtherPath \<Rightarrow> fails (StoreFailure (WorktreeLifecycleSecurityError (code @ ''_not_directory''))))"

definition find_entry :: "WorktreeInventoryEntry list \<Rightarrow> string \<Rightarrow> WorktreeInventoryEntry option managing" where
  "find_entry inventory path =
     (let matches = filter (\<lambda>e. wi_worktree_path e = path) inventory
      in refuse_if [(length matches > 1, GitFailure ''inventory_duplicate'')]
           (yields (case matches of [] \<Rightarrow> None | e # _ \<Rightarrow> Some e)))"

definition list_command :: "string list" where
  "list_command = [''worktree'', ''list'', ''--porcelain'', ''-z'']"

definition status_command :: "string list" where
  "status_command = [''status'', ''--porcelain=v1'', ''-z'', ''--untracked-files=all'']"

definition add_command :: "WorktreeLifecycleRequest \<Rightarrow> string list" where
  "add_command q = [''worktree'', ''add'', ''-b'', wq_branch q, wq_worktree_path q, wq_base_commit q]"

definition remove_command :: "WorktreeLifecycleRequest \<Rightarrow> string list" where
  "remove_command q = [''worktree'', ''remove'', wq_worktree_path q]"

definition repository_identity :: "(string \<Rightarrow> string) \<Rightarrow> machine \<Rightarrow> string \<Rightarrow> WorktreeLifecycleRequest \<Rightarrow> string managing" where
  "repository_identity H m root q =
     and_next (lifted (validate_request_identity H q)) (\<lambda>_.
     and_next (run_git m root [''rev-parse'', ''--path-format=absolute'', ''--show-toplevel'']) (\<lambda>out.
     and_next (decoded_single_line out ''repository_root'') (\<lambda>top.
     and_next (run_git m root [''rev-parse'', ''--path-format=absolute'', ''--git-common-dir'']) (\<lambda>out.
     and_next (decoded_single_line out ''common_dir'') (\<lambda>common_dir.
     refuse_if
       [(normpath top \<noteq> wq_repository_root q, GitFailure ''repository_root_identity''),
        (normpath common_dir \<noteq> wq_repository_common_dir q, GitFailure ''common_dir_identity'')]
     (and_next (git_success m root [''cat-file'', ''-e'', wq_base_commit q @ ''^{commit}'']) (\<lambda>present.
      refuse_if [(\<not> present, GitFailure ''base_missing'')]
      (and_next (run_git m root [''rev-parse'', ''HEAD'']) (\<lambda>out.
       and_next (decoded_single_line out ''head'') (\<lambda>head.
       and_next (git_success m root [''merge-base'', ''--is-ancestor'', wq_base_commit q, head]) (\<lambda>ancestor.
       refuse_if [(\<not> ancestor, StoreFailure (WorktreeLifecycleConflictError ''base_ancestry''))]
         (yields head))))))))))))"

definition read_inventory :: "machine \<Rightarrow> string \<Rightarrow> string \<Rightarrow> WorktreeInventoryEntry list managing" where
  "read_inventory m root common_dir = and_next (run_git m root list_command) (\<lambda>raw. lifted (parse_worktree_inventory raw common_dir))"

definition worktree_clean :: "machine \<Rightarrow> string \<Rightarrow> bool managing" where
  "worktree_clean m path = and_next (safe_directory m path ''managed_worktree'') (\<lambda>_.
     and_next (run_git m path status_command) (\<lambda>out. yields (out = [])))"

section \<open>Who still uses a worktree\<close>

text \<open>Everything raised while the evidence is read becomes one refusal.\<close>

definition ownership :: "'e + 'a \<Rightarrow> 'a managing" where
  "ownership v = (case v of Inl e \<Rightarrow> fails (ReleaseRefused ''ownership_unknown'') | Inr x \<Rightarrow> yields x)"

definition lease_blocks :: "WorktreeLifecycleRequest \<Rightarrow> WorkerSlotLease \<Rightarrow> bool" where
  "lease_blocks q l \<longleftrightarrow> holder_dispatch_id l = wq_dispatch_id q \<or> canonical_worktree l = wq_worktree_path q"

definition receipt_of_request :: "WorktreeLifecycleRequest \<Rightarrow> DispatchProcessReceipt \<Rightarrow> bool" where
  "receipt_of_request q r \<longleftrightarrow> dr_task_id r = wq_task_id q \<and> dr_revision r = wq_revision q \<and> dr_attempt r = wq_attempt q
     \<and> dr_dispatch_id r = wq_dispatch_id q"

definition tombstone_of_request :: "WorktreeLifecycleRequest \<Rightarrow> DispatchProcessReceipt \<Rightarrow> DispatchFinalizerTombstone \<Rightarrow> bool" where
  "tombstone_of_request q r t \<longleftrightarrow> ft_task_id t = wq_task_id q \<and> ft_revision t = wq_revision q \<and> ft_attempt t = wq_attempt q
     \<and> ft_dispatch_id t = wq_dispatch_id q \<and> ft_generation_id t = dr_generation_id r \<and> all_done t"

definition probing :: "ProcessLiveness probe \<Rightarrow> ProcessLiveness managing" where
  "probing p s = (case p (clock s) of
      (Inl e, t) \<Rightarrow> (Inl (ProbeFailure e), s\<lparr>clock := t\<rparr>)
    | (Inr l, t) \<Rightarrow> (Inr l, s\<lparr>clock := t\<rparr>))"

definition verify_process ::
  "machine \<Rightarrow> WorktreeLifecycleRequest \<Rightarrow> DispatchProcessReceipt option \<Rightarrow> DispatchFinalizerTombstone option \<Rightarrow> unit managing"
where
  "verify_process m q receipt tombstone = (case receipt of
      None \<Rightarrow> fails (ReleaseRefused ''process_unknown'')
    | Some r \<Rightarrow>
        refuse_if [(\<not> receipt_of_request q r, ReleaseRefused ''process_identity'')]
        (if dr_phase r = DispatchReceiptPhase.RESERVED then yields ()
         else (case tombstone of
             Some t \<Rightarrow> refuse_if [(\<not> tombstone_of_request q r t, ReleaseRefused ''tombstone_identity'')] (yields ())
           | None \<Rightarrow> and_next (probing (probe_dispatch_process_tree (processes m) r)) (\<lambda>l.
               refuse_if [(l \<noteq> DEAD, ReleaseRefused ''process_active_or_unknown'')] (yields ())))))"

definition verify_release_ownership :: "machine \<Rightarrow> WorktreeLifecycleRequest \<Rightarrow> unit managing" where
  "verify_release_ownership m q =
     and_next (observe (\<lambda>t. read_store (lease_file m t))) (\<lambda>found.
     and_next (ownership found) (\<lambda>store.
     refuse_if [(list_ex (lease_blocks q) (dict_vals (leases store)), ReleaseRefused ''lease_active'')]
     (and_next (observe (\<lambda>t. read_dispatch_receipt (wq_dispatch_id q) (dispatch_files m t))) (\<lambda>found.
      and_next (ownership found) (\<lambda>receipt.
      and_next (observe (\<lambda>t. read_dispatch_tombstone (wq_dispatch_id q) (dispatch_files m t))) (\<lambda>found.
      and_next (ownership found) (\<lambda>tombstone. verify_process m q receipt tombstone)))))))"

section \<open>Creation and release\<close>

datatype WorktreeLifecycleOutcome = WORKTREE_READY | WORKTREE_RELEASED | WORKTREE_REPLAYED
  | WORKTREE_REFUSED | WORKTREE_RECOVERY_REQUIRED

record WorktreeLifecycleResult =
  wz_schema_version :: string
  wz_operation_id :: string
  wz_action :: WorktreeLifecycleAction
  wz_outcome :: WorktreeLifecycleOutcome
  wz_worktree_id :: string
  wz_phase :: WorktreePhase
  wz_worktree_path :: string
  wz_head_commit :: "string option"
  wz_decision :: WorktreeReconciliationAction

definition result_guards :: "WorktreeLifecycleResult \<Rightarrow> worktree_guard list" where
  "result_guards z =
    [(wz_schema_version z \<noteq> WORKTREE_SCHEMA, WorktreeLifecycleInputError ''result_schema'')] @
    wt_safe_id (SStr (wz_operation_id z)) ''result_operation_id'' ''OP-'' @
    wt_safe_id (SStr (wz_worktree_id z)) ''result_worktree_id'' ''WT-'' @
    wt_path (SStr (wz_worktree_path z)) ''result_path'' @
    (case wz_head_commit z of None \<Rightarrow> [] | Some h \<Rightarrow> wt_sha40 (SStr h) ''result_head'')"

definition result_of ::
  "WorktreeLifecycleRequest \<Rightarrow> WorktreeLifecycleOutcome \<Rightarrow> WorktreeReconciliationAction \<Rightarrow> WorktreeRecord \<Rightarrow>
   WorktreeLifecycleResult managing"
where
  "result_of q outcome action w =
    (let z = \<lparr>wz_schema_version = WORKTREE_SCHEMA, wz_operation_id = wq_operation_id q, wz_action = wq_action q,
          wz_outcome = outcome, wz_worktree_id = wc_worktree_id w, wz_phase = wc_phase w,
          wz_worktree_path = wc_worktree_path w, wz_head_commit = Some (wc_head_commit w), wz_decision = action\<rparr>
     in lifted (guarded (result_guards z) (Inr z)))"

definition managed_parent :: "string \<Rightarrow> string" where
  "managed_parent path = posix_path (butlast (path_parts path))"

definition make_directory :: "machine \<Rightarrow> string \<Rightarrow> bool managing" where
  "make_directory m path s =
     (if mkdir_works m (clock s) path
      then (Inr True, s\<lparr>clock := Suc (clock s), trail := trail s @ [MakeDirectory path]\<rparr>)
      else (Inr False, s\<lparr>clock := Suc (clock s)\<rparr>))"

definition ensure_managed_parent :: "machine \<Rightarrow> WorktreeLifecycleRequest \<Rightarrow> unit managing" where
  "ensure_managed_parent m q =
     and_next (lifted (expected_worktree_path (wq_repository_root q) (wq_expected_worktree_id q))) (\<lambda>expected.
     refuse_if [(expected \<noteq> wq_worktree_path q, StoreFailure (WorktreeLifecycleSecurityError ''managed_path''))]
     (let parent = managed_parent expected
      in and_next (observe (\<lambda>t. path_exists m t parent)) (\<lambda>there.
         if there then safe_directory m parent ''managed_root''
         else and_next (make_directory m parent) (\<lambda>made.
           refuse_if [(\<not> made, PermissionFailure ''managed_root_create'')] (safe_directory m parent ''managed_root'')))))"

text \<open>The entry \<open>create\<close> accepts: the requested branch at the base commit, checked out.\<close>

definition created_entry :: "WorktreeLifecycleRequest \<Rightarrow> WorktreeInventoryEntry \<Rightarrow> bool" where
  "created_entry q e \<longleftrightarrow> wi_branch e = Some (wq_branch q) \<and> wi_head_commit e = wq_base_commit q
     \<and> \<not> wi_is_detached e \<and> \<not> wi_is_bare e \<and> \<not> wi_is_prunable e"

text \<open>\<open>git worktree add\<close>; when it fails, a worktree that is there as requested is taken for its success.\<close>

definition add_worktree :: "machine \<Rightarrow> string \<Rightarrow> WorktreeLifecycleRequest \<Rightarrow> unit managing" where
  "add_worktree m root q s = (case run_git m root (add_command q) s of
      (Inr _, t) \<Rightarrow> (Inr (), t)
    | (Inl e, t) \<Rightarrow>
        and_next (read_inventory m root (wq_repository_common_dir q)) (\<lambda>inventory.
        and_next (find_entry inventory (wq_worktree_path q)) (\<lambda>found.
          case found of
            None \<Rightarrow> fails e
          | Some x \<Rightarrow> if wi_branch x \<noteq> Some (wq_branch q) \<or> wi_head_commit x \<noteq> wq_base_commit q then fails e else yields ())) t)"

definition resume_create :: "machine \<Rightarrow> string \<Rightarrow> WorktreeLifecycleRequest \<Rightarrow> unit managing" where
  "resume_create m root q =
     and_next (ensure_managed_parent m q) (\<lambda>_.
     and_next (observe (\<lambda>t. path_exists m t (wq_worktree_path q))) (\<lambda>there.
     refuse_if [(there, StoreFailure (WorktreeLifecycleSecurityError ''unregistered_path''))]
     (and_next (add_worktree m root q) (\<lambda>_.
      and_next (worktree_clean m (wq_worktree_path q)) (\<lambda>clean.
      refuse_if [(\<not> clean, StoreFailure (WorktreeLifecycleConflictError ''created_dirty''))] (yields ()))))))"

definition conclude_create :: "(string \<Rightarrow> string) \<Rightarrow> machine \<Rightarrow> string \<Rightarrow> WorktreeLifecycleRequest \<Rightarrow> WorktreeLifecycleResult managing" where
  "conclude_create H m root q =
     and_next (read_inventory m root (wq_repository_common_dir q)) (\<lambda>inventory.
     and_next (find_entry inventory (wq_worktree_path q)) (\<lambda>found.
     refuse_if [(case found of None \<Rightarrow> True | Some e \<Rightarrow> \<not> created_entry q e,
         StoreFailure (WorktreeLifecycleConflictError ''created_identity''))]
     (and_next (in_store (advance_record H (wq_expected_worktree_id q) CREATING READY (inventory_digest H inventory)
         (wq_requested_at q) (map_option wi_head_commit found))) (\<lambda>ready.
      result_of q WORKTREE_READY ADOPT_READY ready))))"

definition record_or_new ::
  "(string \<Rightarrow> string) \<Rightarrow> WorktreeReservation \<Rightarrow> WorktreeInventoryEntry list \<Rightarrow> WorktreeRecord option \<Rightarrow> WorktreeRecord managing"
where
  "record_or_new H r inventory existing = (case existing of
      Some w \<Rightarrow> yields w
    | None \<Rightarrow> and_next (lifted (make_record H r CREATING (inventory_digest H inventory) None None None None)) (\<lambda>w.
        in_store (create_record H w)))"

definition create_decided ::
  "(string \<Rightarrow> string) \<Rightarrow> machine \<Rightarrow> string \<Rightarrow> WorktreeLifecycleRequest \<Rightarrow> WorktreeInventoryEntry list \<Rightarrow> WorktreeRecord \<Rightarrow>
   WorktreeReconciliationAction \<Rightarrow> WorktreeLifecycleResult managing"
where
  "create_decided H m root q before w action =
     (if wc_phase w = READY then
        and_next (find_entry before (wq_worktree_path q)) (\<lambda>found.
        and_next (if found = None then yields False else worktree_clean m (wq_worktree_path q)) (\<lambda>clean.
        refuse_if [(\<not> clean, StoreFailure (WorktreeLifecycleConflictError ''ready_replay''))]
          (result_of q WORKTREE_REPLAYED NO_OP w)))
      else if action = ADOPT_READY then
        and_next (worktree_clean m (wq_worktree_path q)) (\<lambda>clean.
        refuse_if [(\<not> clean, StoreFailure (WorktreeLifecycleConflictError ''adopt_dirty''))]
          (conclude_create H m root q))
      else if action = RESUME_CREATE then
        and_next (resume_create m root q) (\<lambda>_. conclude_create H m root q)
      else fails (StoreFailure (WorktreeLifecycleConflictError ''create_reconciliation'')))"

definition create_worktree :: "(string \<Rightarrow> string) \<Rightarrow> machine \<Rightarrow> string \<Rightarrow> WorktreeLifecycleRequest \<Rightarrow> WorktreeLifecycleResult managing" where
  "create_worktree H m root q =
     refuse_if [(wq_action q \<noteq> CREATE, StoreFailure (WorktreeLifecycleInputError ''create_request''))]
     (and_next (repository_identity H m root q) (\<lambda>_.
      and_next (read_inventory m root (wq_repository_common_dir q)) (\<lambda>before.
      and_next (in_store (reserve H root q)) (\<lambda>r.
      and_next (read_evidence (read_record H (wq_expected_worktree_id q) True)) (\<lambda>existing.
      and_next (record_or_new H r before existing) (\<lambda>w.
      and_next (lifted (reconcile_worktree H (wq_expected_worktree_id q) (Some r) (Some w) before None)) (\<lambda>decided.
      create_decided H m root q before w (wd_action decided))))))))"

definition request_identity :: "WorktreeLifecycleRequest \<Rightarrow> WorktreeReservation \<Rightarrow> WorktreeRecord \<Rightarrow> bool" where
  "request_identity q r w \<longleftrightarrow> wr_worktree_id r = wc_worktree_id w \<and> wr_reservation_id r = wc_reservation_id w
     \<and> wr_worktree_path r = wq_worktree_path q \<and> wr_branch r = wq_branch q \<and> wr_base_commit r = wq_base_commit q
     \<and> wr_task_id r = wq_task_id q \<and> wr_revision r = wq_revision q \<and> wr_attempt r = wq_attempt q
     \<and> wr_dispatch_id r = wq_dispatch_id q"

text \<open>The entry a first release accepts: where the record says, and not locked.\<close>

definition releasable_entry :: "WorktreeRecord \<Rightarrow> WorktreeInventoryEntry \<Rightarrow> bool" where
  "releasable_entry w e \<longleftrightarrow> wi_branch e = Some (wc_branch w) \<and> wi_head_commit e = wc_head_commit w \<and> \<not> wi_is_bare e
     \<and> \<not> wi_is_detached e \<and> \<not> wi_is_locked e \<and> \<not> wi_is_prunable e"

definition require_clean :: "machine \<Rightarrow> WorktreeLifecycleRequest \<Rightarrow> unit managing" where
  "require_clean m q = and_next (worktree_clean m (wq_worktree_path q)) (\<lambda>clean.
     refuse_if [(\<not> clean, ReleaseRefused ''dirty'')] (yields ()))"

definition begin_release ::
  "(string \<Rightarrow> string) \<Rightarrow> machine \<Rightarrow> WorktreeLifecycleRequest \<Rightarrow> WorktreeRecord \<Rightarrow> WorktreeInventoryEntry list \<Rightarrow>
   WorktreeInventoryEntry option \<Rightarrow> unit managing"
where
  "begin_release H m q w before found =
     (if wc_phase w = READY then
        refuse_if
          [(found = None, ReleaseRefused ''inventory_missing''),
           (case found of None \<Rightarrow> False | Some e \<Rightarrow> \<not> releasable_entry w e, ReleaseRefused ''inventory_identity'')]
        (and_next (require_clean m q) (\<lambda>_.
         and_next (in_store (advance_record H (wq_expected_worktree_id q) READY RELEASING (inventory_digest H before)
           (wq_requested_at q) None)) (\<lambda>_. yields ())))
      else refuse_if [(wc_phase w \<noteq> RELEASING, ReleaseRefused ''phase'')] (yields ()))"

definition remove_worktree :: "machine \<Rightarrow> string \<Rightarrow> WorktreeLifecycleRequest \<Rightarrow> unit managing" where
  "remove_worktree m root q =
     and_next (require_clean m q) (\<lambda>_. and_next (run_git m root (remove_command q)) (\<lambda>_. yields ()))"

definition conclude_release :: "(string \<Rightarrow> string) \<Rightarrow> machine \<Rightarrow> string \<Rightarrow> WorktreeLifecycleRequest \<Rightarrow> WorktreeLifecycleResult managing" where
  "conclude_release H m root q =
     and_next (read_inventory m root (wq_repository_common_dir q)) (\<lambda>after.
     and_next (find_entry after (wq_worktree_path q)) (\<lambda>left.
     refuse_if [(left \<noteq> None, ReleaseRefused ''remove_incomplete'')]
     (and_next (in_store (advance_record H (wq_expected_worktree_id q) RELEASING RELEASED (inventory_digest H after)
         (wq_requested_at q) None)) (\<lambda>released.
      result_of q WORKTREE_RELEASED NO_OP released))))"

definition release_known :: "(string \<Rightarrow> string) \<Rightarrow> machine \<Rightarrow> string \<Rightarrow> WorktreeLifecycleRequest \<Rightarrow> WorktreeRecord \<Rightarrow> WorktreeLifecycleResult managing" where
  "release_known H m root q w =
     and_next (read_inventory m root (wq_repository_common_dir q)) (\<lambda>before.
     and_next (find_entry before (wq_worktree_path q)) (\<lambda>found.
     if wc_phase w = RELEASED then
       refuse_if [(found \<noteq> None, ReleaseRefused ''released_present'')] (result_of q WORKTREE_REPLAYED NO_OP w)
     else and_next (begin_release H m q w before found) (\<lambda>_.
       and_next (if found = None then yields () else remove_worktree m root q) (\<lambda>_.
       conclude_release H m root q))))"

definition release_worktree :: "(string \<Rightarrow> string) \<Rightarrow> machine \<Rightarrow> string \<Rightarrow> WorktreeLifecycleRequest \<Rightarrow> WorktreeLifecycleResult managing" where
  "release_worktree H m root q =
     refuse_if [(wq_action q \<noteq> RELEASE, StoreFailure (WorktreeLifecycleInputError ''release_request''))]
     (and_next (verify_release_ownership m q) (\<lambda>_.
      and_next (repository_identity H m root q) (\<lambda>_.
      and_next (read_evidence (read_worktree_reservation H (wq_expected_worktree_id q))) (\<lambda>r.
      and_next (read_evidence (read_record H (wq_expected_worktree_id q) False)) (\<lambda>existing. case existing of
          None \<Rightarrow> fails (ReleaseRefused ''record_missing'')
        | Some w \<Rightarrow> refuse_if [(\<not> request_identity q r w, ReleaseRefused ''identity'')] (release_known H m root q w))))))"

section \<open>Trails\<close>

fun effect_writes :: "effect list \<Rightarrow> (worktree_file \<times> string) list" where
  "effect_writes [] = []"
| "effect_writes (Evidence p b # es) = (p, b) # effect_writes es"
| "effect_writes (e # es) = effect_writes es"

text \<open>The evidence a trail leaves, and trails of effects that were all allowed when they happened.\<close>

definition disk_after :: "worktree_disk \<Rightarrow> effect list \<Rightarrow> worktree_disk" where
  "disk_after d es = commit (effect_writes es) d"

definition all_allowed :: "(effect list \<Rightarrow> effect \<Rightarrow> bool) \<Rightarrow> effect list \<Rightarrow> bool" where
  "all_allowed A es \<longleftrightarrow> (\<forall>xs e ys. es = xs @ e # ys \<longrightarrow> A xs e)"

definition trail_ok :: "(effect list \<Rightarrow> effect \<Rightarrow> bool) \<Rightarrow> worktree_disk \<Rightarrow> managed \<Rightarrow> bool" where
  "trail_ok A d s \<longleftrightarrow> evidence s = disk_after d (trail s) \<and> all_allowed A (trail s)"

text \<open>A step that keeps the trail allowed, with what it may assume and what it leaves for its result.\<close>

definition keeps ::
  "(effect list \<Rightarrow> effect \<Rightarrow> bool) \<Rightarrow> worktree_disk \<Rightarrow> (managed \<Rightarrow> bool) \<Rightarrow> 'a managing \<Rightarrow> ('a \<Rightarrow> managed \<Rightarrow> bool) \<Rightarrow> bool"
where
  "keeps A d P m Q \<longleftrightarrow> (\<forall>s r t. trail_ok A d s \<longrightarrow> P s \<longrightarrow> m s = (r, t) \<longrightarrow> trail_ok A d t \<and> (\<forall>x. r = Inr x \<longrightarrow> Q x t))"

lemma keepsI:
  "(\<And>s r t. trail_ok A d s \<Longrightarrow> P s \<Longrightarrow> m s = (r, t) \<Longrightarrow> trail_ok A d t \<and> (\<forall>x. r = Inr x \<longrightarrow> Q x t)) \<Longrightarrow> keeps A d P m Q"
  unfolding keeps_def by blast

lemma keepsD: "keeps A d P m Q \<Longrightarrow> trail_ok A d s \<Longrightarrow> P s \<Longrightarrow> m s = (r, t) \<Longrightarrow> trail_ok A d t \<and> (\<forall>x. r = Inr x \<longrightarrow> Q x t)"
  unfolding keeps_def by blast

lemma effect_writes_append: "effect_writes (xs @ ys) = effect_writes xs @ effect_writes ys"
  by (induction xs rule: effect_writes.induct) simp_all

lemma disk_after_snoc:
  "disk_after d [] = d"
  "disk_after d (es @ [Evidence p b]) = dict_set p b (disk_after d es)"
  "disk_after d (es @ [Git cwd argv a]) = disk_after d es"
  "disk_after d (es @ [MakeDirectory q]) = disk_after d es"
  by (simp_all add: disk_after_def effect_writes_append commit_append commit_simps)

lemma all_allowed_snoc: "all_allowed A (es @ [e]) \<longleftrightarrow> all_allowed A es \<and> A es e"
proof
  assume "all_allowed A (es @ [e])"
  then have all: "es @ [e] = xs @ f # ys \<Longrightarrow> A xs f" for xs f ys unfolding all_allowed_def by blast
  have "A xs f" if "es = xs @ f # ys" for xs f ys using all [of xs f "ys @ [e]"] that by simp
  then show "all_allowed A es \<and> A es e" using all [of es e "[]"] unfolding all_allowed_def by blast
next
  assume es: "all_allowed A es \<and> A es e"
  have "A xs f" if "es @ [e] = xs @ f # ys" for xs f ys
    using that es by (cases ys rule: rev_cases) (auto simp: all_allowed_def)
  then show "all_allowed A (es @ [e])" unfolding all_allowed_def by blast
qed

lemma all_allowed_Nil: "all_allowed A []"
  by (simp add: all_allowed_def)

lemma keeps_next:
  assumes "keeps A d P m R" and "\<And>x. keeps A d (R x) (f x) Q"
  shows "keeps A d P (and_next m f) Q"
proof (rule keepsI)
  fix s r t assume s: "trail_ok A d s" "P s" "and_next m f s = (r, t)"
  obtain v u where v: "m s = (v, u)" by (cases "m s")
  note first = keepsD [OF assms(1) s(1,2) v]
  show "trail_ok A d t \<and> (\<forall>x. r = Inr x \<longrightarrow> Q x t)"
  proof (cases v)
    case (Inl e)
    with s(3) v have "r = Inl e" "t = u" by (simp_all add: and_next_def)
    with first show ?thesis by simp
  next
    case (Inr x)
    with s(3) v have "f x u = (r, t)" by (simp add: and_next_def)
    with keepsD [OF assms(2)] first Inr show ?thesis by blast
  qed
qed

lemma keeps_yields: "(\<And>s. P s \<Longrightarrow> Q x s) \<Longrightarrow> keeps A d P (yields x) Q"
  by (simp add: keeps_def yields_def)

lemma keeps_fails: "keeps A d P (fails e) Q"
  by (simp add: keeps_def fails_def)

lemma keeps_refuse: "(raise_first gs = None \<Longrightarrow> keeps A d P m Q) \<Longrightarrow> keeps A d P (refuse_if gs m) Q"
  by (auto simp: refuse_if_def keeps_fails split: option.split)

lemma keeps_lifted: "(\<And>x s. v = Inr x \<Longrightarrow> P s \<Longrightarrow> Q x s) \<Longrightarrow> keeps A d P (lifted v) Q"
  by (cases v) (auto simp: lifted_def keeps_fails intro: keeps_yields)

lemma keeps_ownership: "(\<And>x s. v = Inr x \<Longrightarrow> P s \<Longrightarrow> Q x s) \<Longrightarrow> keeps A d P (ownership v) Q"
  by (cases v) (auto simp: ownership_def keeps_fails intro: keeps_yields)

lemma keeps_weaken: "keeps A d P m Q \<Longrightarrow> (\<And>s. P' s \<Longrightarrow> P s) \<Longrightarrow> (\<And>x s. Q x s \<Longrightarrow> Q' x s) \<Longrightarrow> keeps A d P' m Q'"
  unfolding keeps_def by blast

lemma keeps_given: "(\<And>s. P s \<Longrightarrow> a) \<Longrightarrow> (a \<Longrightarrow> keeps A d P m Q) \<Longrightarrow> keeps A d P m Q"
  unfolding keeps_def by blast

lemma trail_ok_snoc:
  assumes "trail_ok A d s" and "A (trail s) e" and "trail t = trail s @ [e]"
    and "evidence t = (case e of Evidence p b \<Rightarrow> dict_set p b (evidence s) | _ \<Rightarrow> evidence s)"
  shows "trail_ok A d t"
  using assms by (cases e) (auto simp: trail_ok_def all_allowed_snoc disk_after_snoc)

lemma keeps_observe:
  "(\<And>s t. P s \<Longrightarrow> t = s\<lparr>clock := Suc (clock s)\<rparr> \<Longrightarrow> Q (f (clock s)) t) \<Longrightarrow> keeps A d P (observe f) Q"
  by (auto simp: keeps_def observe_def trail_ok_def)

lemma keeps_read:
  "(\<And>x s. trail_ok A d s \<Longrightarrow> P s \<Longrightarrow> f (evidence s) = Inr x \<Longrightarrow> Q x s) \<Longrightarrow> keeps A d P (read_evidence f) Q"
  by (auto simp: keeps_def read_evidence_def lifted_def yields_def fails_def split: sum.split_asm)

lemma keeps_git:
  assumes "\<And>s a. trail_ok A d s \<Longrightarrow> P s \<Longrightarrow> A (trail s) (Git cwd argv a)"
    and "\<And>s t out. P s \<Longrightarrow> t = s\<lparr>clock := Suc (clock s), trail := trail s @ [Git cwd argv (GitOut out)]\<rparr> \<Longrightarrow> Q out t"
  shows "keeps A d P (run_git m cwd argv) Q"
proof (rule keepsI)
  fix s r t assume s: "trail_ok A d s" "P s" "run_git m cwd argv s = (r, t)"
  then have "t = s\<lparr>clock := Suc (clock s), trail := trail s @ [Git cwd argv (git m (clock s) cwd argv)]\<rparr>"
    by (auto simp: run_git_def Let_def split: git_answer.split_asm)
  moreover from this have "trail_ok A d t" by (intro trail_ok_snoc [OF s(1) assms(1) [OF s(1,2)]]) auto
  moreover have "Q x t" if "r = Inr x" for x
    using s(3) that by (intro assms(2) [OF s(2)]) (auto simp: run_git_def Let_def split: git_answer.split_asm)
  ultimately show "trail_ok A d t \<and> (\<forall>x. r = Inr x \<longrightarrow> Q x t)" by blast
qed

lemma keeps_store:
  assumes "\<And>s r ws. trail_ok A d s \<Longrightarrow> P s \<Longrightarrow> f (evidence s) = (r, ws) \<Longrightarrow>
      (ws = [] \<or> (\<exists>p b. ws = [(p, b)] \<and> A (trail s) (Evidence p b)))
      \<and> (\<forall>x t. r = Inr x \<longrightarrow> evidence t = commit ws (evidence s) \<longrightarrow> clock t = clock s \<longrightarrow> Q x t)"
  shows "keeps A d P (in_store f) Q"
proof (rule keepsI)
  fix s r t assume s: "trail_ok A d s" "P s" "in_store f s = (r, t)"
  obtain v ws where f: "f (evidence s) = (v, ws)" by (cases "f (evidence s)")
  note now = assms [OF s(1,2) f]
  from s(3) f have t: "t = s\<lparr>evidence := commit ws (evidence s), trail := trail s @ map (\<lambda>(p, b). Evidence p b) ws\<rparr>"
    and r: "r = (case v of Inl e \<Rightarrow> Inl (StoreFailure e) | Inr x \<Rightarrow> Inr x)"
    by (auto simp: in_store_def lifted_def yields_def fails_def split: sum.split_asm)
  have "trail_ok A d t"
  proof (cases "ws = []")
    case True
    with t s(1) show ?thesis by (simp add: commit_simps trail_ok_def)
  next
    case False
    with now obtain p b where "ws = [(p, b)]" "A (trail s) (Evidence p b)" by blast
    then show ?thesis using t by (intro trail_ok_snoc [OF s(1)]) (auto simp: commit_simps)
  qed
  moreover have "Q x t" if "r = Inr x" for x
    using now that r t by (auto split: sum.split_asm)
  ultimately show "trail_ok A d t \<and> (\<forall>x. r = Inr x \<longrightarrow> Q x t)" by blast
qed

text \<open>What an operation of the store leaves when it returns.\<close>

lemma write_once_result:
  assumes "write_once p b v decode conflict d = (Inr y, ws)"
  shows "dict_get d p = Some b \<and> decode b = Inr y \<and> ws = [] \<or> dict_get d p = None \<and> y = v \<and> ws = [(p, b)]"
  using assms by (auto simp: write_once_def res_simps split: option.split_asm simp del: storing_Inr)

lemma reserve_result:
  assumes "reserve H root q d = (Inr r, ws)"
  shows "holds_reservation H (commit ws d) (wq_expected_worktree_id q) r \<and> wr_worktree_id r = wq_expected_worktree_id q
    \<and> (ws = [] \<or> (\<exists>b. ws = [(ReservationFile (wq_expected_worktree_id q), b)]))"
proof -
  from assms obtain v b where v: "make_reservation H q = Inr v" "encode_reservation H v = Inr b"
    and w: "write_once (ReservationFile (wr_worktree_id v)) b v (decode_reservation H) (WorktreeLifecycleConflictError ''reservation_replay'') d
      = (Inr r, ws)"
    by (auto simp: reserve_def res_simps)
  from v(1) have "reservation_valid v \<and> wr_worktree_id v = wq_expected_worktree_id q"
    by (auto simp: make_reservation_def res_simps dest!: with_reservation_digest_Inr)
  with write_once_result [OF w] worktree_evidence_read(1) [OF _ v(2)] show ?thesis
    by (auto simp: holds_reservation_def commit_simps dict_get_set)
qed

lemma create_record_result:
  assumes "create_record H w d = (Inr v, ws)" and "record_valid w"
  shows "holds_record H (commit ws d) (wc_worktree_id w) v"
proof -
  from assms obtain b where b: "encode_record H w = Inr b"
    and w: "write_once (RecordFile (wc_worktree_id w)) b w (decode_record H) (WorktreeLifecycleConflictError ''record_replay'') d = (Inr v, ws)"
    by (auto simp: create_record_def res_simps)
  from write_once_result [OF w] worktree_evidence_read(2) [OF assms(2) b] show ?thesis
    by (auto simp: holds_record_def commit_simps dict_get_set)
qed

section \<open>What is allowed\<close>

definition reading_command :: "string list \<Rightarrow> bool" where
  "reading_command argv \<longleftrightarrow> argv = list_command \<or> argv = status_command
     \<or> argv \<noteq> [] \<and> hd argv \<in> {''rev-parse'', ''cat-file'', ''merge-base''}"

text \<open>When a release starts, nobody uses the worktree any more.\<close>

definition ownership_clear :: "machine \<Rightarrow> WorktreeLifecycleRequest \<Rightarrow> nat \<Rightarrow> bool" where
  "ownership_clear m q t \<longleftrightarrow>
     (\<exists>st. read_store (lease_file m t) = Inr st
        \<and> (\<forall>l\<in>set (dict_vals (leases st)). holder_dispatch_id l \<noteq> wq_dispatch_id q \<and> canonical_worktree l \<noteq> wq_worktree_path q))
   \<and> (\<exists>r. read_dispatch_receipt (wq_dispatch_id q) (dispatch_files m (Suc t)) = Inr (Some r) \<and> dr_task_id r = wq_task_id q
        \<and> dr_revision r = wq_revision q \<and> dr_attempt r = wq_attempt q \<and> dr_dispatch_id r = wq_dispatch_id q
        \<and> (dr_phase r = DispatchReceiptPhase.RESERVED
         \<or> (\<exists>e. read_dispatch_tombstone (wq_dispatch_id q) (dispatch_files m (Suc (Suc t))) = Inr (Some e) 
             \<and> ft_task_id e = wq_task_id q \<and> ft_revision e = wq_revision q \<and> ft_attempt e = wq_attempt q
             \<and> ft_dispatch_id e = wq_dispatch_id q \<and> ft_generation_id e = dr_generation_id r
             \<and> ft_worker_done e \<and> ft_heartbeat_done e \<and> ft_release_completed e)
         \<or> (\<exists>u. probe_dispatch_process_tree (processes m) r (Suc (Suc (Suc t))) = (Inr DEAD, u))))"

lemma ownership_clear_iff:
  "ownership_clear m q t \<longleftrightarrow>
     (\<exists>st. read_store (lease_file m t) = Inr st
        \<and> (\<forall>l\<in>set (dict_vals (leases st)). holder_dispatch_id l \<noteq> wq_dispatch_id q \<and> canonical_worktree l \<noteq> wq_worktree_path q))
   \<and> (\<exists>r. read_dispatch_receipt (wq_dispatch_id q) (dispatch_files m (Suc t)) = Inr (Some r) \<and> receipt_of_request q r
        \<and> (dr_phase r = DispatchReceiptPhase.RESERVED
         \<or> (\<exists>e. read_dispatch_tombstone (wq_dispatch_id q) (dispatch_files m (Suc (Suc t))) = Inr (Some e) \<and> tombstone_of_request q r e)
         \<or> (\<exists>u. probe_dispatch_process_tree (processes m) r (Suc (Suc (Suc t))) = (Inr DEAD, u))))"
  by (simp add: ownership_clear_def receipt_of_request_def tombstone_of_request_def all_done_def conj_assoc)

definition seen_clean :: "WorktreeLifecycleRequest \<Rightarrow> effect list \<Rightarrow> bool" where
  "seen_clean q es \<longleftrightarrow> (\<exists>xs. es = xs @ [Git (wq_worktree_path q) status_command (GitOut [])])"

definition seen_inventory :: "string \<Rightarrow> WorktreeLifecycleRequest \<Rightarrow> effect list \<Rightarrow> WorktreeInventoryEntry list \<Rightarrow> bool" where
  "seen_inventory root q es inventory \<longleftrightarrow> (\<exists>xs out. es = xs @ [Git root list_command (GitOut out)]
     \<and> parse_worktree_inventory out (wq_repository_common_dir q) = Inr inventory)"

definition creating_held :: "(string \<Rightarrow> string) \<Rightarrow> WorktreeLifecycleRequest \<Rightarrow> worktree_disk \<Rightarrow> bool" where
  "creating_held H q d \<longleftrightarrow> (\<exists>r w. holds_reservation H d (wq_expected_worktree_id q) r
     \<and> holds_record H d (wq_expected_worktree_id q) w \<and> \<not> record_divergent r (Some w) \<and> wc_phase w \<in> {WorktreePhase.RESERVED, CREATING})"

definition releasing_held :: "(string \<Rightarrow> string) \<Rightarrow> WorktreeLifecycleRequest \<Rightarrow> worktree_disk \<Rightarrow> bool" where
  "releasing_held H q d \<longleftrightarrow> (\<exists>r w. holds_reservation H d (wq_expected_worktree_id q) r
     \<and> holds_record H d (wq_expected_worktree_id q) w \<and> wc_phase w = RELEASING
     \<and> wr_worktree_id r = wc_worktree_id w \<and> wr_reservation_id r = wc_reservation_id w
     \<and> wr_worktree_path r = wq_worktree_path q \<and> wr_branch r = wq_branch q \<and> wr_base_commit r = wq_base_commit q
     \<and> wr_task_id r = wq_task_id q \<and> wr_revision r = wq_revision q \<and> wr_attempt r = wq_attempt q
     \<and> wr_dispatch_id r = wq_dispatch_id q)"

lemma releasing_held_iff:
  "releasing_held H q d \<longleftrightarrow> (\<exists>r w. holds_reservation H d (wq_expected_worktree_id q) r
     \<and> holds_record H d (wq_expected_worktree_id q) w \<and> request_identity q r w \<and> wc_phase w = RELEASING)"
  by (auto simp: releasing_held_def request_identity_def)

text \<open>What justifies the record of a phase when it is written.\<close>

definition phase_justified :: "string \<Rightarrow> WorktreeLifecycleRequest \<Rightarrow> effect list \<Rightarrow> WorktreePhase \<Rightarrow> bool" where
  "phase_justified root q es p \<longleftrightarrow>
     (p = READY \<longrightarrow> wq_action q = CREATE \<and> (\<exists>inventory e. seen_inventory root q es inventory \<and> e \<in> set inventory
        \<and> wi_worktree_path e = wq_worktree_path q \<and> created_entry q e))
   \<and> (p = RELEASING \<longrightarrow> wq_action q = RELEASE \<and> seen_clean q es)
   \<and> (p = RELEASED \<longrightarrow> wq_action q = RELEASE \<and> (\<exists>inventory. seen_inventory root q es inventory
        \<and> (\<forall>e\<in>set inventory. wi_worktree_path e \<noteq> wq_worktree_path q)))"

definition allowed ::
  "(string \<Rightarrow> string) \<Rightarrow> machine \<Rightarrow> string \<Rightarrow> WorktreeLifecycleRequest \<Rightarrow> nat \<Rightarrow> worktree_disk \<Rightarrow> effect list \<Rightarrow> effect \<Rightarrow> bool"
where
  "allowed H m root q t d es e \<longleftrightarrow> (wq_action q = RELEASE \<longrightarrow> ownership_clear m q t) \<and>
     (case e of
        Git cwd argv a \<Rightarrow> reading_command argv
          \<or> argv = add_command q \<and> cwd = root \<and> wq_action q = CREATE \<and> creating_held H q (disk_after d es)
          \<or> argv = remove_command q \<and> cwd = root \<and> wq_action q = RELEASE \<and> releasing_held H q (disk_after d es) \<and> seen_clean q es
      | MakeDirectory p \<Rightarrow> wq_action q = CREATE \<and> p = managed_parent (wq_worktree_path q)
      | Evidence p b \<Rightarrow> worktree_step H (disk_after d es) (dict_set p b (disk_after d es))
          \<and> (p = ReservationFile (wq_expected_worktree_id q)
             \<or> p = RecordFile (wq_expected_worktree_id q) \<and> (\<exists>w. decode_record H b = Inr w \<and> phase_justified root q es (wc_phase w))))"

section \<open>Steps without effects on evidence\<close>

definition quiet :: "(effect list \<Rightarrow> effect \<Rightarrow> bool) \<Rightarrow> worktree_disk \<Rightarrow> 'a managing \<Rightarrow> bool" where
  "quiet A d m \<longleftrightarrow> (\<forall>E. keeps A d (\<lambda>s. E (evidence s)) m (\<lambda>_ s. E (evidence s)))"

lemma quietD: "quiet A d m \<Longrightarrow> keeps A d (\<lambda>s. E (evidence s)) m (\<lambda>_ s. E (evidence s))"
  by (simp add: quiet_def)

lemma quiet_intros:
  "quiet A d m \<Longrightarrow> (\<And>x. quiet A d (f x)) \<Longrightarrow> quiet A d (and_next m f)"
  "quiet A d (yields x)" "quiet A d (fails e)" "quiet A d (lifted v)" "quiet A d (observe g)"
  "(raise_first gs = None \<Longrightarrow> quiet A d m) \<Longrightarrow> quiet A d (refuse_if gs m)"
  unfolding quiet_def
  by (blast intro: keeps_next) (auto intro: keeps_yields keeps_fails keeps_lifted keeps_observe keeps_refuse)

lemma quiet_git:
  assumes "wq_action q = RELEASE \<longrightarrow> ownership_clear m q t" and "reading_command argv"
  shows "quiet (allowed H m root q t d) d (run_git m cwd argv)" "quiet (allowed H m root q t d) d (git_success m cwd argv)"
proof -
  show git: "quiet (allowed H m root q t d) d (run_git m cwd argv)"
    unfolding quiet_def using assms by (intro allI keeps_git) (auto simp: allowed_def)
  show "quiet (allowed H m root q t d) d (git_success m cwd argv)"
    unfolding quiet_def
  proof (intro allI keepsI)
    fix E s r u assume s: "trail_ok (allowed H m root q t d) d s" "E (evidence s)" "git_success m cwd argv s = (r, u)"
    obtain v where "run_git m cwd argv s = (v, u)" using s(3) by (auto simp: git_success_def split: prod.splits sum.splits if_splits)
    moreover from this have "E (evidence u)" using s(2) by (auto simp: run_git_def Let_def split: git_answer.splits)
    ultimately show "trail_ok (allowed H m root q t d) d u \<and> (\<forall>x. r = Inr x \<longrightarrow> E (evidence u))"
      using keepsD [OF quietD [OF git, of E] s(1,2)] by blast
  qed
qed

lemma quiet_steps:
  assumes "wq_action q = RELEASE \<longrightarrow> ownership_clear m q t"
  shows "quiet (allowed H m root q t d) d (safe_directory m path code)"
    and "quiet (allowed H m root q t d) d (repository_identity H m root q)"
    and "quiet (allowed H m root q t d) d (result_of q outcome action w)"
  unfolding safe_directory_def repository_identity_def decoded_single_line_def result_of_def Let_def
  by (auto intro!: quiet_intros quiet_git [OF assms] simp: reading_command_def split: path_kind.split)

text \<open>The two observations later steps build on: a listing of the worktrees, a clean status.\<close>

definition entry_at :: "string \<Rightarrow> WorktreeInventoryEntry list \<Rightarrow> WorktreeInventoryEntry option" where
  "entry_at path inventory = (case filter (\<lambda>e. wi_worktree_path e = path) inventory of [] \<Rightarrow> None | e # _ \<Rightarrow> Some e)"

lemma entry_at_iff:
  "entry_at path inventory = None \<longleftrightarrow> (\<forall>e\<in>set inventory. wi_worktree_path e \<noteq> path)"
  "entry_at path inventory = Some e \<Longrightarrow> e \<in> set inventory \<and> wi_worktree_path e = path"
proof -
  have first: "x \<in> set inventory \<and> wi_worktree_path x = path" if "filter (\<lambda>e. wi_worktree_path e = path) inventory = x # xs" for x xs
  proof -
    have "x \<in> set (filter (\<lambda>e. wi_worktree_path e = path) inventory)" using that by simp
    then show ?thesis by simp
  qed
  show "entry_at path inventory = None \<longleftrightarrow> (\<forall>e\<in>set inventory. wi_worktree_path e \<noteq> path)"
  proof (cases "filter (\<lambda>e. wi_worktree_path e = path) inventory")
    case Nil
    then show ?thesis by (auto simp: entry_at_def filter_empty_conv)
  next
    case (Cons x xs)
    with first [OF Cons] show ?thesis by (auto simp: entry_at_def)
  qed
  show "e \<in> set inventory \<and> wi_worktree_path e = path" if "entry_at path inventory = Some e"
  proof (cases "filter (\<lambda>e. wi_worktree_path e = path) inventory")
    case Nil
    with that show ?thesis by (simp add: entry_at_def)
  next
    case (Cons x xs)
    with first [OF Cons] that show ?thesis by (simp add: entry_at_def)
  qed
qed

lemma keeps_inventory:
  assumes "wq_action q = RELEASE \<longrightarrow> ownership_clear m q t"
  shows "keeps (allowed H m root q t d) d (\<lambda>s. E (evidence s)) (read_inventory m root (wq_repository_common_dir q))
    (\<lambda>inventory s. E (evidence s) \<and> seen_inventory root q (trail s) inventory)"
  unfolding read_inventory_def
proof (rule keeps_next [where R = "\<lambda>out s. E (evidence s) \<and> (\<exists>xs. trail s = xs @ [Git root list_command (GitOut out)])"])
  show "keeps (allowed H m root q t d) d (\<lambda>s. E (evidence s)) (run_git m root list_command)
    (\<lambda>out s. E (evidence s) \<and> (\<exists>xs. trail s = xs @ [Git root list_command (GitOut out)]))"
    using assms by (intro keeps_git) (auto simp: allowed_def reading_command_def)
qed (auto intro!: keeps_lifted simp: seen_inventory_def)

lemma keeps_find:
  "(\<And>s. P s \<Longrightarrow> Q (entry_at path inventory) s) \<Longrightarrow> keeps A d P (find_entry inventory path) Q"
  unfolding find_entry_def Let_def entry_at_def by (intro keeps_refuse keeps_yields) simp

lemma keeps_clean:
  assumes "wq_action q = RELEASE \<longrightarrow> ownership_clear m q t"
  shows "keeps (allowed H m root q t d) d (\<lambda>s. E (evidence s)) (worktree_clean m (wq_worktree_path q))
    (\<lambda>clean s. E (evidence s) \<and> (clean \<longrightarrow> seen_clean q (trail s)))"
  unfolding worktree_clean_def
proof (rule keeps_next [OF quietD [OF quiet_steps(1) [OF assms]]])
  fix u :: unit
  show "keeps (allowed H m root q t d) d (\<lambda>s. E (evidence s))
    (and_next (run_git m (wq_worktree_path q) status_command) (\<lambda>out. yields (out = [])))
    (\<lambda>clean s. E (evidence s) \<and> (clean \<longrightarrow> seen_clean q (trail s)))"
  proof (rule keeps_next [where R = "\<lambda>out s. E (evidence s) \<and> (\<exists>xs. trail s = xs @ [Git (wq_worktree_path q) status_command (GitOut out)])"])
    show "keeps (allowed H m root q t d) d (\<lambda>s. E (evidence s)) (run_git m (wq_worktree_path q) status_command)
      (\<lambda>out s. E (evidence s) \<and> (\<exists>xs. trail s = xs @ [Git (wq_worktree_path q) status_command (GitOut out)]))"
      using assms by (intro keeps_git) (auto simp: allowed_def reading_command_def)
  qed (auto intro!: keeps_yields simp: seen_clean_def)
qed

section \<open>Operations of the store in a trail\<close>

lemma stored_step:
  assumes "worktree_legal op" and "worktree_writes H op d = [(p, b)]"
  shows "worktree_step H d (dict_set p b d)"
proof -
  have "worktree_step H d (commit (worktree_writes H op d) d)" using assms(1) by (rule crash_step_whole)
  then show ?thesis unfolding assms(2) by (simp add: commit_simps)
qed

lemma one_write_cases:
  assumes "one_write (r, ws)"
  obtains "ws = []" | p b where "ws = [(p, b)]"
proof (cases ws)
  case (Cons x xs)
  with assms have "ws = [(fst x, snd x)]" by (simp add: one_write_def)
  then show thesis using that(2) by blast
qed (use that(1) in blast)

lemma advance_record_result:
  assumes "advance_record H i expected target inventory time head d = (r, ws)"
  shows "ws = [] \<and> (\<forall>v. r = Inr v \<longrightarrow> holds_record H d i v \<and> wc_phase v = target)
    \<or> (\<exists>b v w. ws = [(RecordFile i, b)] \<and> decode_record H b = Inr v \<and> wc_phase v = target \<and> r = Inr v
        \<and> holds_record H d i w \<and> record_follows w v)"
proof -
  have "one_write (r, ws)" using operations_one(3) assms by metis
  then show ?thesis
  proof (rule one_write_cases)
    fix p b assume ws: "ws = [(p, b)]"
    then have "(p, b) \<in> set (snd (advance_record H i expected target inventory time head d))" using assms by simp
    note ok = advance_record_writes [OF this]
    from assms ws obtain b' w nxt where w: "dict_get d (RecordFile i) = Some b'" "decode_record H b' = Inr w"
      and n: "with_record_digest H (advanced target inventory time head w) = Inr nxt"
      and b: "p = RecordFile i" "encode_record H nxt = Inr b" "r = Inr nxt"
      by (auto simp: advance_record_def ensuring_def failing_def returning_def reading_def storing_def
          split: option.split_asm sum.split_asm if_split_asm dest!: sym [of "Inr _"])
    have "record_valid nxt" "wc_phase nxt = target" using with_record_digest_Inr [OF n] by (auto simp: advanced_def Let_def)
    with worktree_evidence_read(2) b(2) have decoded: "decode_record H b = Inr nxt" by blast
    moreover have "holds_record H d i w" using w by (auto simp: holds_record_def)
    moreover have "\<exists>v. holds_record H d i v \<and> record_follows v nxt"
      using ok decoded w by (auto simp: worktree_write_ok_def b(1))
    ultimately show ?thesis using ws b(1,3) \<open>wc_phase nxt = target\<close> by blast
  next
    assume "ws = []"
    moreover from this have "holds_record H d i v \<and> wc_phase v = target" if "r = Inr v" for v
      using assms that
      by (auto simp: advance_record_def ensuring_def failing_def returning_def reading_def storing_def holds_record_def
          split: option.split_asm sum.split_asm if_split_asm)
    ultimately show ?thesis by blast
  qed
qed

lemma keeps_advance:
  assumes "wq_action q = RELEASE \<longrightarrow> ownership_clear m q t" and "\<And>s. P s \<Longrightarrow> phase_justified root q (trail s) target"
    and "\<And>s u v. P s \<Longrightarrow> wc_phase v = target \<Longrightarrow>
        evidence u = evidence s \<and> holds_record H (evidence s) (wq_expected_worktree_id q) v
        \<or> (\<exists>b w. evidence u = dict_set (RecordFile (wq_expected_worktree_id q)) b (evidence s) \<and> decode_record H b = Inr v
            \<and> holds_record H (evidence s) (wq_expected_worktree_id q) w \<and> record_follows w v) \<Longrightarrow> Q v u"
  shows "keeps (allowed H m root q t d) d P (in_store (advance_record H (wq_expected_worktree_id q) expected target inventory time head)) Q"
proof (rule keeps_store)
  let ?i = "wq_expected_worktree_id q"
  fix s r ws assume s: "trail_ok (allowed H m root q t d) d s" "P s"
    and f: "advance_record H ?i expected target inventory time head (evidence s) = (r, ws)"
  from s(1) have disk: "disk_after d (trail s) = evidence s" by (simp add: trail_ok_def)
  from advance_record_result [OF f]
  show "(ws = [] \<or> (\<exists>p b. ws = [(p, b)] \<and> allowed H m root q t d (trail s) (Evidence p b)))
      \<and> (\<forall>x u. r = Inr x \<longrightarrow> evidence u = commit ws (evidence s) \<longrightarrow> clock u = clock s \<longrightarrow> Q x u)"
  proof (elim disjE exE conjE)
    assume "ws = []" "\<forall>v. r = Inr v \<longrightarrow> holds_record H (evidence s) ?i v \<and> wc_phase v = target"
    then show ?thesis using assms(3) [OF s(2)] by (auto simp: commit_simps)
  next
    fix b v w assume ws: "ws = [(RecordFile ?i, b)]" and v: "decode_record H b = Inr v" "wc_phase v = target" "r = Inr v"
      and w: "holds_record H (evidence s) ?i w" "record_follows w v"
    have "worktree_writes H (AdvanceRecord ?i expected target inventory time head) (evidence s) = [(RecordFile ?i, b)]"
      using f ws by (simp add: worktree_writes_def)
    from stored_step [OF _ this] have "worktree_step H (evidence s) (dict_set (RecordFile ?i) b (evidence s))"
      by (simp add: worktree_legal_def)
    with assms(1,2) s(2) v have "allowed H m root q t d (trail s) (Evidence (RecordFile ?i) b)"
      by (auto simp: allowed_def disk)
    moreover have "Q x u" if "r = Inr x" "evidence u = commit ws (evidence s)" for x u
      by (rule assms(3) [OF s(2)]) (use that v w in \<open>auto simp: ws commit_simps\<close>)
    ultimately show ?thesis using ws by auto
  qed
qed

section \<open>Release\<close>

lemma managing_results:
  "and_next m f s = (Inr y, v) \<longleftrightarrow> (\<exists>x u. m s = (Inr x, u) \<and> f x u = (Inr y, v))"
  "yields x s = (Inr y, v) \<longleftrightarrow> y = x \<and> v = s"
  "fails e s \<noteq> (Inr y, v)"
  "observe g s = (Inr y, v) \<longleftrightarrow> y = g (clock s) \<and> v = s\<lparr>clock := Suc (clock s)\<rparr>"
  "ownership z s = (Inr y, v) \<longleftrightarrow> z = Inr y \<and> v = s"
  "refuse_if gs n s = (Inr y, v) \<longleftrightarrow> raise_first gs = None \<and> n s = (Inr y, v)"
  "probing p s = (Inr l, v) \<longleftrightarrow> (\<exists>t. p (clock s) = (Inr l, t) \<and> v = s\<lparr>clock := t\<rparr>)"
  by (auto simp: and_next_def yields_def fails_def observe_def ownership_def refuse_if_def probing_def
      split: prod.splits sum.splits option.splits)

definition silent :: "'a managing \<Rightarrow> bool" where
  "silent m \<longleftrightarrow> (\<forall>s r u. m s = (r, u) \<longrightarrow> evidence u = evidence s \<and> trail u = trail s)"

lemma silent_next: "silent m \<Longrightarrow> (\<And>x. silent (f x)) \<Longrightarrow> silent (and_next m f)"
  unfolding silent_def and_next_def by (fastforce split: prod.splits sum.splits)

lemma silent_intros:
  "silent (yields x)" "silent (fails e)" "silent (observe g)" "silent (ownership v)" "silent (probing p)"
  "silent n \<Longrightarrow> silent (refuse_if gs n)"
  by (auto simp: silent_def yields_def fails_def observe_def ownership_def refuse_if_def probing_def
      split: prod.splits sum.splits option.splits)

lemma verify_process_result:
  assumes "verify_process m q receipt tombstone s = (Inr x, u)"
  obtains r where "receipt = Some r" "receipt_of_request q r"
    "dr_phase r = DispatchReceiptPhase.RESERVED \<or> (\<exists>e. tombstone = Some e \<and> tombstone_of_request q r e)
      \<or> (\<exists>w. probe_dispatch_process_tree (processes m) r (clock s) = (Inr DEAD, w))"
  using assms by (auto simp: verify_process_def managing_results split: option.splits if_splits)

lemma keeps_verify: "keeps A d (\<lambda>s. clock s = t) (verify_release_ownership m q) (\<lambda>_ _. ownership_clear m q t)"
proof (rule keepsI, intro conjI allI impI)
  fix s r u assume s: "trail_ok A d s" "clock s = t" "verify_release_ownership m q s = (r, u)"
  have "silent (verify_process m q receipt tombstone)" for receipt tombstone
    unfolding verify_process_def by (auto intro!: silent_next silent_intros split: option.split)
  then have "silent (verify_release_ownership m q)"
    unfolding verify_release_ownership_def by (intro silent_next silent_intros)
  with s(1,3) show "trail_ok A d u" unfolding silent_def trail_ok_def by metis
  fix x assume "r = Inr x"
  with s(3) have "verify_release_ownership m q s = (Inr x, u)" by simp
  then obtain st receipt tombstone where
    st: "read_store (lease_file m t) = Inr st" "\<not> list_ex (lease_blocks q) (dict_vals (leases st))"
    and receipt: "read_dispatch_receipt (wq_dispatch_id q) (dispatch_files m (Suc t)) = Inr receipt"
    and tombstone: "read_dispatch_tombstone (wq_dispatch_id q) (dispatch_files m (Suc (Suc t))) = Inr tombstone"
    and rest: "verify_process m q receipt tombstone (s\<lparr>clock := Suc (Suc (Suc t))\<rparr>) = (Inr x, u)"
    using s(2) by (auto simp: verify_release_ownership_def managing_results)
  from rest obtain c where "receipt = Some c" "receipt_of_request q c"
    "dr_phase c = DispatchReceiptPhase.RESERVED \<or> (\<exists>e. tombstone = Some e \<and> tombstone_of_request q c e)
      \<or> (\<exists>w. probe_dispatch_process_tree (processes m) c (Suc (Suc (Suc t))) = (Inr DEAD, w))"
    by (rule verify_process_result) simp
  with st receipt tombstone show "ownership_clear m q t"
    by (auto simp: ownership_clear_iff list_ex_iff lease_blocks_def)
qed

lemma keeps_require_clean:
  assumes "wq_action q = RELEASE \<longrightarrow> ownership_clear m q t"
  shows "keeps (allowed H m root q t d) d (\<lambda>s. E (evidence s)) (require_clean m q) (\<lambda>_ s. E (evidence s) \<and> seen_clean q (trail s))"
  unfolding require_clean_def
  by (rule keeps_next [OF keeps_clean [OF assms]]) (intro keeps_refuse keeps_yields, simp)

definition identity_held :: "(string \<Rightarrow> string) \<Rightarrow> WorktreeLifecycleRequest \<Rightarrow> WorktreeRecord \<Rightarrow> worktree_disk \<Rightarrow> bool" where
  "identity_held H q w d \<longleftrightarrow> (\<exists>r. holds_reservation H d (wq_expected_worktree_id q) r
     \<and> holds_record H d (wq_expected_worktree_id q) w \<and> request_identity q r w)"

lemma releasing_follows:
  assumes "identity_held H q w d" and "wc_phase v = RELEASING"
    and "d' = d \<and> holds_record H d (wq_expected_worktree_id q) v
      \<or> (\<exists>b x. d' = dict_set (RecordFile (wq_expected_worktree_id q)) b d \<and> decode_record H b = Inr v
          \<and> holds_record H d (wq_expected_worktree_id q) x \<and> record_follows x v)"
  shows "releasing_held H q d'"
proof -
  let ?i = "wq_expected_worktree_id q"
  from assms(1) obtain r where r: "holds_reservation H d ?i r" "holds_record H d ?i w" "request_identity q r w"
    by (auto simp: identity_held_def)
  from assms(3) show ?thesis
  proof (elim disjE exE conjE)
    assume "d' = d" "holds_record H d ?i v"
    moreover from this r(2) have "v = w" using evidence_unique(2) by blast
    ultimately show ?thesis using r assms(2) by (auto simp: releasing_held_iff)
  next
    fix b x assume d': "d' = dict_set (RecordFile ?i) b d" and b: "decode_record H b = Inr v" and x: "holds_record H d ?i x" "record_follows x v"
    from x(1) r(2) have "x = w" using evidence_unique(2) by blast
    with x(2) r(3) have "request_identity q r v" by (simp add: request_identity_def record_follows_def record_identity_def)
    moreover have "holds_reservation H d' ?i r" "holds_record H d' ?i v"
      using r(1) b by (simp_all add: d' holds_reservation_def holds_record_def dict_get_set)
    ultimately show ?thesis using assms(2) by (auto simp: releasing_held_iff)
  qed
qed

lemma keeps_begin:
  assumes "ownership_clear m q t" and "wq_action q = RELEASE"
  shows "keeps (allowed H m root q t d) d (\<lambda>s. identity_held H q w (evidence s)) (begin_release H m q w before found)
    (\<lambda>_ s. releasing_held H q (evidence s))"
proof (cases "wc_phase w = READY")
  case True
  let ?A = "allowed H m root q t d" and ?E = "\<lambda>s. identity_held H q w (evidence s)"
  have clear: "wq_action q = RELEASE \<longrightarrow> ownership_clear m q t" using assms by blast
  have "keeps ?A d (\<lambda>s. ?E s \<and> seen_clean q (trail s)) (in_store (advance_record H (wq_expected_worktree_id q) READY RELEASING
      (inventory_digest H before) (wq_requested_at q) None)) (\<lambda>_ s. releasing_held H q (evidence s))"
  proof (rule keeps_advance [OF clear])
    show "phase_justified root q (trail s) RELEASING" if "?E s \<and> seen_clean q (trail s)" for s
      using that assms(2) by (simp add: phase_justified_def)
    show "releasing_held H q (evidence u)"
      if "?E s \<and> seen_clean q (trail s)" "wc_phase v = RELEASING"
        "evidence u = evidence s \<and> holds_record H (evidence s) (wq_expected_worktree_id q) v
        \<or> (\<exists>b w. evidence u = dict_set (RecordFile (wq_expected_worktree_id q)) b (evidence s) \<and> decode_record H b = Inr v
            \<and> holds_record H (evidence s) (wq_expected_worktree_id q) w \<and> record_follows w v)" for s u v
      using that by (intro releasing_follows [of H q w "evidence s" v "evidence u"]) blast+
  qed
  note advance = this
  show ?thesis
    unfolding begin_release_def if_P [OF True]
    by (rule keeps_refuse, rule keeps_next [OF keeps_require_clean [OF clear, where E = "identity_held H q w"]],
        rule keeps_next [OF advance], rule keeps_yields)
next
  case False
  have held: "releasing_held H q e" if "wc_phase w = RELEASING" "identity_held H q w e" for e
    using that unfolding identity_held_def releasing_held_iff by blast
  show ?thesis
    unfolding begin_release_def if_not_P [OF False]
    by (rule keeps_refuse, rule keeps_yields, rule held) simp_all
qed

lemma keeps_remove:
  assumes "ownership_clear m q t" and "wq_action q = RELEASE"
  shows "keeps (allowed H m root q t d) d (\<lambda>s. releasing_held H q (evidence s)) (remove_worktree m root q) (\<lambda>_ _. True)"
  unfolding remove_worktree_def
proof (rule keeps_next [OF keeps_require_clean])
  fix u :: unit
  let ?P = "\<lambda>s. releasing_held H q (evidence s) \<and> seen_clean q (trail s)"
  have "keeps (allowed H m root q t d) d ?P (run_git m root (remove_command q)) (\<lambda>_ _. True)"
  proof (rule keeps_git)
    fix s a assume "trail_ok (allowed H m root q t d) d s" "?P s"
    then show "allowed H m root q t d (trail s) (Git root (remove_command q) a)"
      using assms by (auto simp: allowed_def trail_ok_def)
  qed simp
  then show "keeps (allowed H m root q t d) d ?P (and_next (run_git m root (remove_command q)) (\<lambda>_. yields ())) (\<lambda>_ _. True)"
    by (rule keeps_next) (simp add: keeps_yields)
qed (use assms in blast)

lemma keeps_conclude_release:
  assumes "ownership_clear m q t" and "wq_action q = RELEASE"
  shows "keeps (allowed H m root q t d) d (\<lambda>_. True) (conclude_release H m root q) (\<lambda>_ _. True)"
proof -
  let ?A = "allowed H m root q t d"
  have clear: "wq_action q = RELEASE \<longrightarrow> ownership_clear m q t" using assms by blast
  have gone: "keeps ?A d (\<lambda>s. seen_inventory root q (trail s) after \<and> left = entry_at (wq_worktree_path q) after)
      (refuse_if [(left \<noteq> None, ReleaseRefused ''remove_incomplete'')]
        (and_next (in_store (advance_record H (wq_expected_worktree_id q) RELEASING RELEASED (inventory_digest H after)
           (wq_requested_at q) None)) (\<lambda>released. result_of q WORKTREE_RELEASED NO_OP released))) (\<lambda>_ _. True)" for after left
  proof (rule keeps_refuse, rule keeps_next [where R = "\<lambda>_ _. True"], rule keeps_advance [OF clear])
    assume "raise_first [(left \<noteq> None, ReleaseRefused ''remove_incomplete'')] = None"
    then show "phase_justified root q (trail s) RELEASED"
      if "seen_inventory root q (trail s) after \<and> left = entry_at (wq_worktree_path q) after" for s
      using that assms(2) entry_at_iff(1) [of "wq_worktree_path q" after] by (auto simp: phase_justified_def)
  qed (use quietD [OF quiet_steps(3) [OF clear], where E = "\<lambda>_. True"] in simp_all)
  show ?thesis
    unfolding conclude_release_def
    by (rule keeps_next [OF keeps_inventory [OF clear, where E = "\<lambda>_. True"]], rule keeps_next [OF keeps_find gone]) simp
qed

lemma keeps_known:
  assumes "ownership_clear m q t" and "wq_action q = RELEASE"
  shows "keeps (allowed H m root q t d) d (\<lambda>s. identity_held H q w (evidence s)) (release_known H m root q w) (\<lambda>_ _. True)"
proof -
  let ?A = "allowed H m root q t d"
  have c: "wq_action q = RELEASE \<longrightarrow> ownership_clear m q t" using assms by blast
  have tail: "keeps ?A d (\<lambda>s. identity_held H q w (evidence s))
      (if wc_phase w = RELEASED then
         refuse_if [(found \<noteq> None, ReleaseRefused ''released_present'')] (result_of q WORKTREE_REPLAYED NO_OP w)
       else and_next (begin_release H m q w before found) (\<lambda>_.
         and_next (if found = None then yields () else remove_worktree m root q) (\<lambda>_. conclude_release H m root q)))
      (\<lambda>_ _. True)" for before found
  proof (cases "wc_phase w = RELEASED")
    case True
    show ?thesis unfolding if_P [OF True]
      by (rule keeps_refuse, rule keeps_weaken [OF quietD [OF quiet_steps(3) [OF c], where E = "\<lambda>_. True"]]) simp_all
  next
    case False
    have "keeps ?A d (\<lambda>s. releasing_held H q (evidence s)) (if found = None then yields () else remove_worktree m root q) (\<lambda>_ _. True)"
      using keeps_remove [OF assms] by (simp add: keeps_yields)
    then show ?thesis unfolding if_not_P [OF False]
      by (rule keeps_next [OF keeps_begin [OF assms] keeps_next [OF _ keeps_conclude_release [OF assms]]])
  qed
  show ?thesis
    unfolding release_known_def
    by (rule keeps_next [OF keeps_inventory [OF c, where E = "identity_held H q w"]], rule keeps_next [OF keeps_find tail]) simp
qed

lemma read_held_evidence:
  "read_worktree_reservation H i d = Inr r \<Longrightarrow> holds_reservation H d i r"
  "read_record H i missing_ok d = Inr (Some w) \<Longrightarrow> holds_record H d i w"
  by (auto simp: read_worktree_reservation_def read_record_def holds_reservation_def holds_record_def res_simps
      split: option.split_asm if_split_asm)

lemma keeps_release:
  "keeps (allowed H m root q t d) d (\<lambda>s. clock s = t) (release_worktree H m root q) (\<lambda>_ _. True)"
  unfolding release_worktree_def
proof (rule keeps_refuse, rule keeps_next [OF keeps_verify], rule keeps_given [where a = "ownership_clear m q t"], assumption)
  let ?A = "allowed H m root q t d" and ?i = "wq_expected_worktree_id q"
  assume "raise_first [(wq_action q \<noteq> RELEASE, StoreFailure (WorktreeLifecycleInputError ''release_request''))] = None"
    and clear: "ownership_clear m q t"
  then have release: "wq_action q = RELEASE" by simp
  have c: "wq_action q = RELEASE \<longrightarrow> ownership_clear m q t" using clear by blast
  have known: "keeps ?A d (\<lambda>s. holds_reservation H (evidence s) ?i r \<and> (\<forall>w. existing = Some w \<longrightarrow> holds_record H (evidence s) ?i w))
      (case existing of None \<Rightarrow> fails (ReleaseRefused ''record_missing'')
        | Some w \<Rightarrow> refuse_if [(\<not> request_identity q r w, ReleaseRefused ''identity'')] (release_known H m root q w))
      (\<lambda>_ _. True)" for existing r
  proof (cases existing)
    case (Some w)
    show ?thesis unfolding Some option.case
      by (rule keeps_refuse, rule keeps_weaken [OF keeps_known [OF clear release]]) (auto simp: identity_held_def)
  qed (simp add: keeps_fails)
  have found: "keeps ?A d (\<lambda>s. holds_reservation H (evidence s) ?i r) (read_evidence (read_record H ?i False))
      (\<lambda>existing s. holds_reservation H (evidence s) ?i r \<and> (\<forall>w. existing = Some w \<longrightarrow> holds_record H (evidence s) ?i w))" for r
    by (rule keeps_read) (auto dest: read_held_evidence)
  have reserved: "keeps ?A d (\<lambda>_. True) (read_evidence (read_worktree_reservation H ?i))
      (\<lambda>r s. holds_reservation H (evidence s) ?i r)"
    by (rule keeps_read) (rule read_held_evidence)
  show "keeps ?A d (\<lambda>_. ownership_clear m q t) (and_next (repository_identity H m root q) (\<lambda>_.
      and_next (read_evidence (read_worktree_reservation H ?i)) (\<lambda>r.
      and_next (read_evidence (read_record H ?i False)) (\<lambda>existing. case existing of
          None \<Rightarrow> fails (ReleaseRefused ''record_missing'')
        | Some w \<Rightarrow> refuse_if [(\<not> request_identity q r w, ReleaseRefused ''identity'')] (release_known H m root q w))))) (\<lambda>_ _. True)"
  proof (rule keeps_next [where R = "\<lambda>_ _. True"])
    show "keeps ?A d (\<lambda>_. ownership_clear m q t) (repository_identity H m root q) (\<lambda>_ _. True)"
      by (rule keeps_weaken [OF quietD [OF quiet_steps(2) [OF c], where E = "\<lambda>_. True"]]) simp_all
  qed (rule keeps_next [OF reserved], rule keeps_next [OF found known])
qed

section \<open>Creation\<close>

lemma keeps_reserve:
  assumes "wq_action q = CREATE"
  shows "keeps (allowed H m root q t d) d (\<lambda>_. True) (in_store (reserve H root q))
    (\<lambda>r s. holds_reservation H (evidence s) (wq_expected_worktree_id q) r \<and> wr_worktree_id r = wq_expected_worktree_id q)"
proof (rule keeps_store)
  let ?i = "wq_expected_worktree_id q"
  fix s r ws assume s: "trail_ok (allowed H m root q t d) d s" and f: "reserve H root q (evidence s) = (r, ws)"
  from s have disk: "disk_after d (trail s) = evidence s" by (simp add: trail_ok_def)
  have "one_write (r, ws)" using operations_one(1) f by metis
  then have "ws = [] \<or> (\<exists>p b. ws = [(p, b)] \<and> allowed H m root q t d (trail s) (Evidence p b))"
  proof (rule one_write_cases)
    fix p b assume ws: "ws = [(p, b)]"
    then obtain v where "r = Inr v"
      using f by (auto simp: reserve_def write_once_def ensuring_def failing_def returning_def reading_def storing_def
          split: option.split_asm sum.split_asm if_split_asm dest!: sym [of "Inr _"])
    with reserve_result [of H root q "evidence s" v ws] f ws have p: "p = ReservationFile ?i" by auto
    have "worktree_writes H (Reserve root q) (evidence s) = [(p, b)]" using f ws by (simp add: worktree_writes_def)
    from stored_step [OF _ this] have "worktree_step H (evidence s) (dict_set p b (evidence s))" by (simp add: worktree_legal_def)
    with p ws assms show ?thesis by (auto simp: allowed_def disk)
  qed simp
  with reserve_result [of H root q "evidence s"] f
  show "(ws = [] \<or> (\<exists>p b. ws = [(p, b)] \<and> allowed H m root q t d (trail s) (Evidence p b)))
      \<and> (\<forall>x u. r = Inr x \<longrightarrow> evidence u = commit ws (evidence s) \<longrightarrow> clock u = clock s \<longrightarrow>
          holds_reservation H (evidence u) ?i x \<and> wr_worktree_id x = ?i)" by auto
qed

lemma keeps_new_record:
  assumes "wq_action q = CREATE" and "record_valid w" and "wc_worktree_id w = wq_expected_worktree_id q" and "wc_phase w = CREATING"
  shows "keeps (allowed H m root q t d) d (\<lambda>s. holds_reservation H (evidence s) (wq_expected_worktree_id q) r) (in_store (create_record H w))
    (\<lambda>v s. holds_reservation H (evidence s) (wq_expected_worktree_id q) r \<and> holds_record H (evidence s) (wq_expected_worktree_id q) v)"
proof (rule keeps_store)
  let ?i = "wq_expected_worktree_id q"
  fix s x ws assume s: "trail_ok (allowed H m root q t d) d s" "holds_reservation H (evidence s) ?i r"
    and f: "create_record H w (evidence s) = (x, ws)"
  from s have disk: "disk_after d (trail s) = evidence s" by (simp add: trail_ok_def)
  have named: "\<exists>b. (p, b') = (RecordFile ?i, b) \<and> decode_record H b = Inr w" if "(p, b') \<in> set ws" for p b'
  proof -
    have "(p, b') \<in> set (snd (create_record H w (evidence s)))" using that f by simp
    then obtain b where "encode_record H w = Inr b" "(p, b') = (RecordFile (wc_worktree_id w), b)"
      by (auto simp: create_record_def dest!: writes_ensuring writes_reading write_once_writes)
    with worktree_evidence_read(2) [OF assms(2)] assms(3) show ?thesis by auto
  qed
  have "one_write (x, ws)" using operations_one(2) f by metis
  then have "ws = [] \<or> (\<exists>p b. ws = [(p, b)] \<and> allowed H m root q t d (trail s) (Evidence p b))"
  proof (rule one_write_cases)
    fix p b assume ws: "ws = [(p, b)]"
    with named have p: "p = RecordFile ?i" "decode_record H b = Inr w" by auto
    have "worktree_writes H (CreateRecord w) (evidence s) = [(p, b)]" using f ws by (simp add: worktree_writes_def)
    from stored_step [OF _ this] have "worktree_step H (evidence s) (dict_set p b (evidence s))"
      using assms(2) by (simp add: worktree_legal_def)
    with p ws assms(1,4) show ?thesis by (auto simp: allowed_def disk phase_justified_def)
  qed simp
  moreover have "holds_reservation H (commit ws (evidence s)) ?i r"
    using \<open>one_write (x, ws)\<close>
  proof (rule one_write_cases)
    fix p b assume ws: "ws = [(p, b)]"
    with named have "p = RecordFile ?i" by auto
    with s(2) show ?thesis by (simp add: ws commit_simps holds_reservation_def dict_get_set)
  qed (use s(2) in \<open>simp add: commit_simps\<close>)
  ultimately show "(ws = [] \<or> (\<exists>p b. ws = [(p, b)] \<and> allowed H m root q t d (trail s) (Evidence p b)))
      \<and> (\<forall>v u. x = Inr v \<longrightarrow> evidence u = commit ws (evidence s) \<longrightarrow> clock u = clock s \<longrightarrow>
          holds_reservation H (evidence u) ?i r \<and> holds_record H (evidence u) ?i v)"
    using create_record_result [of H w "evidence s" _ ws] f assms(2,3) by auto
qed

lemma keeps_record:
  assumes "wq_action q = CREATE"
  shows "keeps (allowed H m root q t d) d
    (\<lambda>s. (holds_reservation H (evidence s) (wq_expected_worktree_id q) r \<and> wr_worktree_id r = wq_expected_worktree_id q)
      \<and> (\<forall>w. existing = Some w \<longrightarrow> holds_record H (evidence s) (wq_expected_worktree_id q) w))
    (record_or_new H r before existing)
    (\<lambda>w s. holds_reservation H (evidence s) (wq_expected_worktree_id q) r \<and> holds_record H (evidence s) (wq_expected_worktree_id q) w)"
proof (cases existing)
  case (Some w)
  then show ?thesis by (auto simp: record_or_new_def intro: keeps_yields)
next
  case None
  show ?thesis
    unfolding record_or_new_def None option.case
  proof (rule keeps_next [where R = "\<lambda>w s. (holds_reservation H (evidence s) (wq_expected_worktree_id q) r)
        \<and> (record_valid w \<and> wc_worktree_id w = wq_expected_worktree_id q \<and> wc_phase w = CREATING)"], rule keeps_lifted)
    fix w s assume "make_record H r CREATING (inventory_digest H before) None None None None = Inr w"
      "(holds_reservation H (evidence s) (wq_expected_worktree_id q) r \<and> wr_worktree_id r = wq_expected_worktree_id q)
      \<and> (\<forall>w. None = Some w \<longrightarrow> holds_record H (evidence s) (wq_expected_worktree_id q) w)"
    then show "holds_reservation H (evidence s) (wq_expected_worktree_id q) r
        \<and> (record_valid w \<and> wc_worktree_id w = wq_expected_worktree_id q \<and> wc_phase w = CREATING)"
      using with_record_digest_Inr by (fastforce simp: make_record_def)
  next
    fix w
    let ?ok = "record_valid w \<and> wc_worktree_id w = wq_expected_worktree_id q \<and> wc_phase w = CREATING"
    show "keeps (allowed H m root q t d) d (\<lambda>s. holds_reservation H (evidence s) (wq_expected_worktree_id q) r \<and> ?ok)
      (in_store (create_record H w))
      (\<lambda>v s. holds_reservation H (evidence s) (wq_expected_worktree_id q) r \<and> holds_record H (evidence s) (wq_expected_worktree_id q) v)"
    proof (rule keeps_given [where a = ?ok])
      assume ok: ?ok
      show "keeps (allowed H m root q t d) d (\<lambda>s. holds_reservation H (evidence s) (wq_expected_worktree_id q) r \<and> ?ok)
        (in_store (create_record H w))
        (\<lambda>v s. holds_reservation H (evidence s) (wq_expected_worktree_id q) r \<and> holds_record H (evidence s) (wq_expected_worktree_id q) v)"
        by (rule keeps_weaken [OF keeps_new_record [OF assms]]) (use ok in simp_all)
    qed simp
  qed
qed

lemma resume_decided:
  assumes "reconcile_worktree H i (Some r) (Some w) inventory clean = Inr e" and "wd_action e = RESUME_CREATE"
  shows "\<not> record_divergent r (Some w) \<and> wc_phase w \<in> {WorktreePhase.RESERVED, CREATING}"
  using assms by (auto simp: reconcile_worktree_def Let_def res_simps split: if_split_asm dest!: decision_fields(1))

lemma keeps_parent:
  assumes "wq_action q = CREATE"
  shows "quiet (allowed H m root q t d) d (ensure_managed_parent m q)"
proof -
  have c: "wq_action q = RELEASE \<longrightarrow> ownership_clear m q t" using assms by simp
  have make: "quiet (allowed H m root q t d) d (make_directory m (managed_parent (wq_worktree_path q)))"
    unfolding quiet_def
  proof (intro allI keepsI)
    fix E s r u assume s: "trail_ok (allowed H m root q t d) d s" "E (evidence s)"
      "make_directory m (managed_parent (wq_worktree_path q)) s = (r, u)"
    then have u: "evidence u = evidence s"
      "trail u = trail s \<or> trail u = trail s @ [MakeDirectory (managed_parent (wq_worktree_path q))]"
      by (auto simp: make_directory_def split: if_splits)
    have "allowed H m root q t d (trail s) (MakeDirectory (managed_parent (wq_worktree_path q)))"
      using assms by (simp add: allowed_def)
    then have "trail_ok (allowed H m root q t d) d u"
      using u s(1) trail_ok_snoc [OF s(1), of "MakeDirectory (managed_parent (wq_worktree_path q))" u]
      by (auto simp: trail_ok_def)
    with u(1) s(2) show "trail_ok (allowed H m root q t d) d u \<and> (\<forall>x. r = Inr x \<longrightarrow> E (evidence u))" by simp
  qed
  note safe = quiet_steps(1) [OF c]
  show ?thesis
    unfolding ensure_managed_parent_def
  proof (rule quiet_intros(1) [OF quiet_intros(4)], rule quiet_intros(6))
    fix expected assume "raise_first [(expected \<noteq> wq_worktree_path q, StoreFailure (WorktreeLifecycleSecurityError ''managed_path''))] = None"
    then have path: "expected = wq_worktree_path q" by simp
    show "quiet (allowed H m root q t d) d
      (let parent = managed_parent expected
         in and_next (observe (\<lambda>t. path_exists m t parent)) (\<lambda>there.
            if there then safe_directory m parent ''managed_root''
            else and_next (make_directory m parent) (\<lambda>made.
              refuse_if [(\<not> made, PermissionFailure ''managed_root_create'')] (safe_directory m parent ''managed_root''))))"
      unfolding path Let_def by (auto intro!: quiet_intros make safe)
  qed
qed

lemma keeps_add:
  assumes "wq_action q = CREATE"
  shows "keeps (allowed H m root q t d) d (\<lambda>s. creating_held H q (evidence s)) (add_worktree m root q) (\<lambda>_ _. True)"
proof (rule keepsI)
  let ?A = "allowed H m root q t d"
  fix s r u assume s: "trail_ok ?A d s" "creating_held H q (evidence s)" "add_worktree m root q s = (r, u)"
  have c: "wq_action q = RELEASE \<longrightarrow> ownership_clear m q t" using assms by simp
  obtain x v where g: "run_git m root (add_command q) s = (x, v)" by (cases "run_git m root (add_command q) s")
  have "keeps ?A d (\<lambda>s. creating_held H q (evidence s)) (run_git m root (add_command q)) (\<lambda>_ _. True)"
    using assms by (intro keeps_git) (auto simp: allowed_def trail_ok_def)
  from keepsD [OF this s(1,2) g] have v: "trail_ok ?A d v" by simp
  have found: "keeps ?A d (\<lambda>_. True)
      (case entry_at (wq_worktree_path q) inventory of
            None \<Rightarrow> fails e
          | Some x \<Rightarrow> if wi_branch x \<noteq> Some (wq_branch q) \<or> wi_head_commit x \<noteq> wq_base_commit q then fails e else yields ())
      (\<lambda>_ _. True)" for inventory e
    by (simp add: keeps_fails keeps_yields split: option.split)
  have recover: "keeps ?A d (\<lambda>_. True)
      (and_next (read_inventory m root (wq_repository_common_dir q)) (\<lambda>inventory.
        and_next (find_entry inventory (wq_worktree_path q)) (\<lambda>found.
          case found of
            None \<Rightarrow> fails e
          | Some x \<Rightarrow> if wi_branch x \<noteq> Some (wq_branch q) \<or> wi_head_commit x \<noteq> wq_base_commit q then fails e else yields ())))
      (\<lambda>_ _. True)" for e
    by (rule keeps_next [OF keeps_inventory [OF c, where E = "\<lambda>_. True"]], rule keeps_next [OF keeps_find [where Q = "\<lambda>_ _. True"]])
      (simp_all add: keeps_fails keeps_yields split: option.split)
  show "trail_ok ?A d u \<and> (\<forall>x. r = Inr x \<longrightarrow> True)"
    using s(3) v keepsD [OF recover v] by (auto simp: add_worktree_def g split: sum.split_asm)
qed

lemma keeps_resume:
  assumes "wq_action q = CREATE"
  shows "keeps (allowed H m root q t d) d (\<lambda>s. creating_held H q (evidence s)) (resume_create m root q) (\<lambda>_ _. True)"
proof -
  let ?A = "allowed H m root q t d" and ?P = "\<lambda>s. creating_held H q (evidence s)"
  have c: "wq_action q = RELEASE \<longrightarrow> ownership_clear m q t" using assms by simp
  have clean: "keeps ?A d (\<lambda>_. True) (and_next (worktree_clean m (wq_worktree_path q)) (\<lambda>clean.
      refuse_if [(\<not> clean, StoreFailure (WorktreeLifecycleConflictError ''created_dirty''))] (yields ()))) (\<lambda>_ _. True)"
    by (rule keeps_next [OF keeps_clean [OF c, where E = "\<lambda>_. True"]]) (simp add: keeps_refuse keeps_yields)
  have there: "keeps ?A d ?P (observe (\<lambda>t. path_exists m t (wq_worktree_path q))) (\<lambda>_. ?P)"
    by (rule keeps_observe) simp
  show ?thesis
    unfolding resume_create_def
    by (rule keeps_next [OF quietD [OF keeps_parent [OF assms], where E = "creating_held H q"]], rule keeps_next [OF there],
        rule keeps_refuse, rule keeps_next [OF keeps_add [OF assms] clean])
qed

lemma keeps_conclude_create:
  assumes "wq_action q = CREATE"
  shows "keeps (allowed H m root q t d) d (\<lambda>_. True) (conclude_create H m root q) (\<lambda>_ _. True)"
proof -
  let ?A = "allowed H m root q t d"
  have c: "wq_action q = RELEASE \<longrightarrow> ownership_clear m q t" using assms by simp
  have there: "keeps ?A d (\<lambda>s. seen_inventory root q (trail s) inventory \<and> found = entry_at (wq_worktree_path q) inventory)
      (refuse_if [(case found of None \<Rightarrow> True | Some e \<Rightarrow> \<not> created_entry q e,
           StoreFailure (WorktreeLifecycleConflictError ''created_identity''))]
       (and_next (in_store (advance_record H (wq_expected_worktree_id q) CREATING READY (inventory_digest H inventory)
           (wq_requested_at q) (map_option wi_head_commit found))) (\<lambda>ready. result_of q WORKTREE_READY ADOPT_READY ready)))
      (\<lambda>_ _. True)" for inventory found
  proof (rule keeps_refuse, rule keeps_next [where R = "\<lambda>_ _. True"], rule keeps_advance [OF c])
    assume ok: "raise_first [(case found of None \<Rightarrow> True | Some e \<Rightarrow> \<not> created_entry q e,
           StoreFailure (WorktreeLifecycleConflictError ''created_identity''))] = None"
    show "phase_justified root q (trail s) READY"
      if "seen_inventory root q (trail s) inventory \<and> found = entry_at (wq_worktree_path q) inventory" for s
    proof -
      from that ok obtain e where "entry_at (wq_worktree_path q) inventory = Some e" "created_entry q e"
        by (cases "entry_at (wq_worktree_path q) inventory") auto
      with entry_at_iff(2) that assms show ?thesis unfolding phase_justified_def by blast
    qed
  qed (use quietD [OF quiet_steps(3) [OF c], where E = "\<lambda>_. True"] in simp_all)
  show ?thesis
    unfolding conclude_create_def
    by (rule keeps_next [OF keeps_inventory [OF c, where E = "\<lambda>_. True"]], rule keeps_next [OF keeps_find there]) simp
qed

lemma keeps_decided:
  assumes "wq_action q = CREATE"
  shows "keeps (allowed H m root q t d) d (\<lambda>s. action = RESUME_CREATE \<longrightarrow> creating_held H q (evidence s))
    (create_decided H m root q before w action) (\<lambda>_ _. True)"
proof -
  let ?A = "allowed H m root q t d"
  have c: "wq_action q = RELEASE \<longrightarrow> ownership_clear m q t" using assms by simp
  note clean = keeps_clean [OF c, where E = "\<lambda>_. True"]
  note result = quietD [OF quiet_steps(3) [OF c], where E = "\<lambda>_. True"]
  have replay: "keeps ?A d (\<lambda>_. True)
      (and_next (if found = None then yields False else worktree_clean m (wq_worktree_path q)) (\<lambda>clean.
        refuse_if [(\<not> clean, StoreFailure (WorktreeLifecycleConflictError ''ready_replay''))]
          (result_of q WORKTREE_REPLAYED NO_OP w))) (\<lambda>_ _. True)" for found
    by (rule keeps_next [where R = "\<lambda>_ _. True"])
      (auto intro!: keeps_yields keeps_refuse keeps_weaken [OF clean] result)
  consider (ready) "wc_phase w = READY" | (adopt) "wc_phase w \<noteq> READY" "action = ADOPT_READY"
    | (resume) "wc_phase w \<noteq> READY" "action = RESUME_CREATE" | (neither) "wc_phase w \<noteq> READY" "action \<notin> {ADOPT_READY, RESUME_CREATE}"
    by blast
  then show ?thesis
  proof cases
    case ready
    show ?thesis unfolding create_decided_def if_P [OF ready] by (rule keeps_next [OF keeps_find replay]) simp
  next
    case adopt
    have "keeps ?A d (\<lambda>_. True) (and_next (worktree_clean m (wq_worktree_path q)) (\<lambda>clean.
        refuse_if [(\<not> clean, StoreFailure (WorktreeLifecycleConflictError ''adopt_dirty''))] (conclude_create H m root q))) (\<lambda>_ _. True)"
      by (rule keeps_next [where R = "\<lambda>_ _. True"], rule keeps_weaken [OF clean])
        (auto intro!: keeps_refuse keeps_conclude_create [OF assms])
    then show ?thesis using adopt by (simp add: create_decided_def)
  next
    case resume
    have "keeps ?A d (\<lambda>s. creating_held H q (evidence s))
        (and_next (resume_create m root q) (\<lambda>_. conclude_create H m root q)) (\<lambda>_ _. True)"
      by (rule keeps_next [OF keeps_resume [OF assms] keeps_conclude_create [OF assms]])
    then show ?thesis using resume by (simp add: create_decided_def)
  next
    case neither
    then show ?thesis by (simp add: create_decided_def keeps_fails)
  qed
qed

lemma keeps_create: "keeps (allowed H m root q t d) d (\<lambda>_. True) (create_worktree H m root q) (\<lambda>_ _. True)"
  unfolding create_worktree_def
proof (rule keeps_refuse)
  let ?A = "allowed H m root q t d" and ?i = "wq_expected_worktree_id q"
  assume "raise_first [(wq_action q \<noteq> CREATE, StoreFailure (WorktreeLifecycleInputError ''create_request''))] = None"
  then have create: "wq_action q = CREATE" by simp
  then have c: "wq_action q = RELEASE \<longrightarrow> ownership_clear m q t" by simp
  let ?reserved = "\<lambda>r s. holds_reservation H (evidence s) ?i r \<and> wr_worktree_id r = ?i"
  let ?known = "\<lambda>r w s. holds_reservation H (evidence s) ?i r \<and> holds_record H (evidence s) ?i w"
  have existing: "keeps ?A d (?reserved r) (read_evidence (read_record H ?i True))
      (\<lambda>existing s. ?reserved r s \<and> (\<forall>w. existing = Some w \<longrightarrow> holds_record H (evidence s) ?i w))" for r
    by (rule keeps_read) (auto dest: read_held_evidence)
  have decided: "keeps ?A d (?known r w) (lifted (reconcile_worktree H ?i (Some r) (Some w) before None))
      (\<lambda>decided s. wd_action decided = RESUME_CREATE \<longrightarrow> creating_held H q (evidence s))" for r w before
    by (rule keeps_lifted) (use resume_decided in \<open>unfold creating_held_def, blast\<close>)
  have tail: "keeps ?A d (?known r w) (and_next (lifted (reconcile_worktree H ?i (Some r) (Some w) before None)) (\<lambda>decided.
      create_decided H m root q before w (wd_action decided))) (\<lambda>_ _. True)" for r w before
    by (rule keeps_next [OF decided keeps_decided [OF create]])
  have stored: "keeps ?A d (?reserved r) (and_next (read_evidence (read_record H ?i True)) (\<lambda>existing.
      and_next (record_or_new H r before existing) (\<lambda>w.
      and_next (lifted (reconcile_worktree H ?i (Some r) (Some w) before None)) (\<lambda>decided.
      create_decided H m root q before w (wd_action decided))))) (\<lambda>_ _. True)" for r before
    by (rule keeps_next [OF existing], rule keeps_next [OF keeps_record [OF create] tail])
  have reserved: "keeps ?A d (\<lambda>s. True \<and> seen_inventory root q (trail s) before) (in_store (reserve H root q)) ?reserved" for before
    by (rule keeps_weaken [OF keeps_reserve [OF create]]) simp_all
  show "keeps ?A d (\<lambda>_. True) (and_next (repository_identity H m root q) (\<lambda>_.
      and_next (read_inventory m root (wq_repository_common_dir q)) (\<lambda>before.
      and_next (in_store (reserve H root q)) (\<lambda>r.
      and_next (read_evidence (read_record H ?i True)) (\<lambda>existing.
      and_next (record_or_new H r before existing) (\<lambda>w.
      and_next (lifted (reconcile_worktree H ?i (Some r) (Some w) before None)) (\<lambda>decided.
      create_decided H m root q before w (wd_action decided)))))))) (\<lambda>_ _. True)"
    by (rule keeps_next [OF quietD [OF quiet_steps(2) [OF c], where E = "\<lambda>_. True"]],
        rule keeps_next [OF keeps_inventory [OF c, where E = "\<lambda>_. True"]], rule keeps_next [OF reserved stored])
qed

section \<open>Properties\<close>

abbreviation starting :: "nat \<Rightarrow> worktree_disk \<Rightarrow> managed" where
  "starting t d \<equiv> \<lparr>clock = t, evidence = d, trail = []\<rparr>"

definition managed_run ::
  "(string \<Rightarrow> string) \<Rightarrow> machine \<Rightarrow> string \<Rightarrow> WorktreeLifecycleRequest \<Rightarrow> nat \<Rightarrow> worktree_disk \<Rightarrow> managed \<Rightarrow> bool"
where
  "managed_run H m root q t d s \<longleftrightarrow> s = snd (create_worktree H m root q (starting t d))
     \<or> s = snd (release_worktree H m root q (starting t d))"

lemma manager_effects:
  assumes "managed_run H m root q t d s"
  shows "trail_ok (allowed H m root q t d) d s"
proof -
  have start: "trail_ok (allowed H m root q t d) d (starting t d)"
    by (simp add: trail_ok_def disk_after_snoc all_allowed_Nil)
  have "trail_ok (allowed H m root q t d) d (snd (create_worktree H m root q (starting t d)))"
    using keepsD [OF keeps_create start] by (metis prod.collapse)
  moreover have "trail_ok (allowed H m root q t d) d (snd (release_worktree H m root q (starting t d)))"
    using keepsD [OF keeps_release start] by (metis managed.select_convs(1) prod.collapse)
  ultimately show ?thesis using assms by (auto simp: managed_run_def)
qed

lemma effect_allowed:
  assumes "managed_run H m root q t d s" and "trail s = xs @ e # ys"
  shows "allowed H m root q t d xs e"
  using manager_effects [OF assms(1)] assms(2) by (auto simp: trail_ok_def all_allowed_def)

text \<open>
  C2. Every change of a worktree is justified.  Whatever Git, the file system and the other components answer, a
  creation or release runs no other command that changes a worktree than: adding the requested one,
  when a reservation and a record of its creation are stored; and removing it.  It is removed only
  when a release found no lease on the worktree or held by its dispatch, and that dispatch had not
  started, was finalised, or its process tree was seen dead; when a record of exactly this request
  says RELEASING; and right after a status showed it clean.
\<close>

theorem worktree_changes_justified:
  assumes "managed_run H m root q t d s" and "trail s = xs @ Git cwd argv a # ys" and "\<not> reading_command argv"
  shows "cwd = root \<and>
    (wq_action q = CREATE \<and> argv = [''worktree'', ''add'', ''-b'', wq_branch q, wq_worktree_path q, wq_base_commit q]
       \<and> creating_held H q (disk_after d xs)
     \<or> wq_action q = RELEASE \<and> argv = [''worktree'', ''remove'', wq_worktree_path q]
       \<and> ownership_clear m q t \<and> releasing_held H q (disk_after d xs) \<and> seen_clean q xs)"
  using effect_allowed [OF assms(1,2)] assms(3) by (auto simp: allowed_def add_command_def remove_command_def)

text \<open>
  C23. What the evidence says was seen.  A record is written READY only right after a listing of the
  worktrees showed the requested branch at its base commit in the requested path, RELEASING only
  right after a clean status by a release that nobody's use forbids, and RELEASED only right after
  a listing without the path.
\<close>

theorem recorded_phase_seen:
  assumes "managed_run H m root q t d s" and "trail s = xs @ Evidence (RecordFile i) b # ys" and "decode_record H b = Inr w"
  shows "i = wq_expected_worktree_id q
    \<and> (wc_phase w = READY \<longrightarrow> wq_action q = CREATE \<and> (\<exists>inventory e. seen_inventory root q xs inventory \<and> e \<in> set inventory
         \<and> wi_worktree_path e = wq_worktree_path q \<and> wi_branch e = Some (wq_branch q) \<and> wi_head_commit e = wq_base_commit q
         \<and> \<not> wi_is_detached e \<and> \<not> wi_is_bare e \<and> \<not> wi_is_prunable e))
    \<and> (wc_phase w = RELEASING \<longrightarrow> wq_action q = RELEASE \<and> ownership_clear m q t \<and> seen_clean q xs)
    \<and> (wc_phase w = RELEASED \<longrightarrow> wq_action q = RELEASE \<and> (\<exists>inventory. seen_inventory root q xs inventory
         \<and> (\<forall>e\<in>set inventory. wi_worktree_path e \<noteq> wq_worktree_path q)))"
  using effect_allowed [OF assms(1,2)] assms(3) by (auto simp: allowed_def phase_justified_def created_entry_def)

text \<open>
  C22. A crash leaves a store that can be trusted.  Cut off after any of its effects, a creation or release
  has taken the worktree store through steps of the store's own operations, so that from a reachable
  store it reaches a reachable one; and a release that found the worktree in use has had no effect.
\<close>

theorem manager_crash_safe:
  assumes "managed_run H m root q t d s" and "trail s = xs @ ys"
  shows "(worktree_step H)\<^sup>*\<^sup>* d (disk_after d xs) \<and> (xs = trail s \<longrightarrow> evidence s = disk_after d xs)
    \<and> (wq_action q = RELEASE \<and> \<not> ownership_clear m q t \<longrightarrow> xs = [])"
proof -
  have "(worktree_step H)\<^sup>*\<^sup>* d (disk_after d xs)" if "trail s = xs @ ys" for xs ys
    using that
  proof (induction xs arbitrary: ys rule: rev_induct)
    case Nil
    then show ?case by (simp add: disk_after_snoc)
  next
    case (snoc e xs)
    from snoc.prems have e: "allowed H m root q t d xs e" by (intro effect_allowed [OF assms(1), of xs e ys]) simp
    from snoc.prems have "(worktree_step H)\<^sup>*\<^sup>* d (disk_after d xs)" by (intro snoc.IH [of "e # ys"]) simp
    then show ?case using e by (cases e) (auto simp: disk_after_snoc allowed_def intro: rtranclp.rtrancl_into_rtrancl)
  qed
  moreover have "xs = []" if "wq_action q = RELEASE" "\<not> ownership_clear m q t"
  proof (cases xs)
    case (Cons e es)
    with assms(2) have "allowed H m root q t d [] e" by (intro effect_allowed [OF assms(1), of "[]" e "es @ ys"]) simp
    with that show ?thesis by (simp add: allowed_def)
  qed simp
  ultimately show ?thesis using assms(2) manager_effects [OF assms(1)] by (auto simp: trail_ok_def)
qed


section \<open>A resumed release\<close>

text \<open>
  C40. A resumed release trusts the path alone.  Once the record says RELEASING, a release that Git lists a
  worktree for at the requested path, and that sees it clean, removes it whatever branch and commit
  Git shows there, also when Git says it is detached, locked or prunable; from READY the same
  listing is refused, and nothing is removed.
\<close>

theorem resumed_release_unchecked:
  assumes "git m (clock s) root list_command = GitOut out"
    and "parse_worktree_inventory out (wq_repository_common_dir q) = Inr inventory"
    and "filter (\<lambda>x. wi_worktree_path x = wq_worktree_path q) inventory = [e]"
    and "path_kind_of m (Suc (clock s)) (wq_worktree_path q) = RealDirectory"
    and "git m (Suc (Suc (clock s))) (wq_worktree_path q) status_command = GitOut []"
  shows "(wc_phase w = RELEASING \<longrightarrow> (\<exists>a ys. trail (snd (release_known H m root q w s)) =
      trail s @ [Git root list_command (GitOut out), Git (wq_worktree_path q) status_command (GitOut []), Git root (remove_command q) a] @ ys))
    \<and> (wc_phase w = READY \<longrightarrow> \<not> releasable_entry w e \<longrightarrow>
         fst (release_known H m root q w s) = Inl (ReleaseRefused ''inventory_identity'')
       \<and> trail (snd (release_known H m root q w s)) = trail s @ [Git root list_command (GitOut out)])"
proof -
  let ?list = "Git root list_command (GitOut out)" and ?clean = "Git (wq_worktree_path q) status_command (GitOut [])"
  obtain s1 where s1: "read_inventory m root (wq_repository_common_dir q) s = (Inr inventory, s1)"
      "clock s1 = Suc (clock s)" "trail s1 = trail s @ [?list]"
    using assms(1,2) by (simp add: read_inventory_def and_next_def run_git_def lifted_def yields_def)
  have there: "find_entry inventory (wq_worktree_path q) = yields (Some e)"
    using assms(3) by (simp add: find_entry_def refuse_if_def)
  obtain s2 where s2: "require_clean m q s1 = (Inr (), s2)" "trail s2 = trail s1 @ [?clean]"
    using assms(4,5) s1(2) by (simp add: require_clean_def worktree_clean_def safe_directory_def observe_def and_next_def
        run_git_def yields_def refuse_if_def)
  have grows: "\<exists>ys. trail (snd (conclude_release H m root q u)) = trail u @ ys" for u
    by (auto simp: conclude_release_def read_inventory_def find_entry_def result_of_def and_next_def run_git_def lifted_def yields_def
        fails_def refuse_if_def in_store_def Let_def split: git_answer.split sum.split prod.split option.split list.split)
  show ?thesis
  proof (intro conjI impI)
    assume releasing: "wc_phase w = RELEASING"
    obtain r u a where removed: "run_git m root (remove_command q) s2 = (r, u)" "trail u = trail s2 @ [Git root (remove_command q) a]"
      by (cases "run_git m root (remove_command q) s2") (auto simp: run_git_def Let_def split: git_answer.split_asm)
    have "release_known H m root q w s =
        (case r of Inl e \<Rightarrow> (Inl e, u) | Inr _ \<Rightarrow> conclude_release H m root q u)"
      using releasing by (simp add: release_known_def and_next_def s1(1) there begin_release_def remove_worktree_def s2(1) removed(1)
          yields_def refuse_if_def split: sum.split)
    then show "\<exists>a ys. trail (snd (release_known H m root q w s)) = trail s @ [?list, ?clean, Git root (remove_command q) a] @ ys"
      using grows [of u] s1(3) s2(2) removed(2) by (cases r) auto
  next
    assume refused: "wc_phase w = READY" "\<not> releasable_entry w e"
    then have "release_known H m root q w s = (Inl (ReleaseRefused ''inventory_identity''), s1)"
      by (simp add: release_known_def and_next_def s1(1) there begin_release_def yields_def refuse_if_def fails_def)
    then show "fst (release_known H m root q w s) = Inl (ReleaseRefused ''inventory_identity'')"
      "trail (snd (release_known H m root q w s)) = trail s @ [?list]" using s1(3) by simp_all
  qed
qed

section \<open>A concrete run\<close>

text \<open>A repository whose Git answers everything but refuses to add or remove a worktree.\<close>

definition refusing_git :: "nat \<Rightarrow> string \<Rightarrow> string list \<Rightarrow> git_answer" where
  "refusing_git t cwd argv =
     (if argv = [''rev-parse'', ''--path-format=absolute'', ''--show-toplevel''] then GitOut ''/srv/r''
      else if argv = [''rev-parse'', ''--path-format=absolute'', ''--git-common-dir''] then GitOut ''/srv/r/.git''
      else if argv = [''rev-parse'', ''HEAD''] then GitOut (replicate 40 (CHR ''a''))
      else if argv = list_command then GitOut sample_listing
      else if hd argv = ''worktree'' then GitExecution
      else GitOut [])"

definition sample_machine :: machine where
  "sample_machine = \<lparr>git = refusing_git, path_kind_of = (\<lambda>t p. RealDirectory), path_exists = (\<lambda>t p. False),
     mkdir_works = (\<lambda>t p. True), lease_file = (\<lambda>t. None), dispatch_files = (\<lambda>t. []), processes = empty_host [] StatError\<rparr>"

lemma refuse_pass: "raise_first gs = None \<Longrightarrow> refuse_if gs m = m"
  by (simp add: refuse_if_def)

lemma sample_git:
  "run_git sample_machine root list_command s =
     (Inr sample_listing, s\<lparr>clock := Suc (clock s), trail := trail s @ [Git root list_command (GitOut sample_listing)]\<rparr>)"
  "run_git sample_machine root (add_command q) s =
     (Inl (GitFailure ''execution''), s\<lparr>clock := Suc (clock s), trail := trail s @ [Git root (add_command q) GitExecution]\<rparr>)"
  by (simp_all add: run_git_def sample_machine_def refusing_git_def list_command_def add_command_def)

lemma sample_lines:
  "decoded_single_line ''/srv/r'' c = yields ''/srv/r''" "decoded_single_line ''/srv/r/.git'' c = yields ''/srv/r/.git''"
  "decoded_single_line (replicate 40 (CHR ''a'')) c = yields (replicate 40 (CHR ''a''))"
  "normpath ''/srv/r'' = ''/srv/r''" "normpath ''/srv/r/.git'' = ''/srv/r/.git''"
proof -
  have "py_strip ''/srv/r'' = ''/srv/r''" "py_strip ''/srv/r/.git'' = ''/srv/r/.git''"
    "py_strip (replicate 40 (CHR ''a'')) = replicate 40 (CHR ''a'')" by code_simp+
  moreover have "\<not> has_char [CHR 0x0A, CHR 0x0D, CHR 0x00] ''/srv/r''" "\<not> has_char [CHR 0x0A, CHR 0x0D, CHR 0x00] ''/srv/r/.git''"
    "\<not> has_char [CHR 0x0A, CHR 0x0D, CHR 0x00] (replicate 40 (CHR ''a''))" by code_simp+
  ultimately show "decoded_single_line ''/srv/r'' c = yields ''/srv/r''" "decoded_single_line ''/srv/r/.git'' c = yields ''/srv/r/.git''"
    "decoded_single_line (replicate 40 (CHR ''a'')) c = yields (replicate 40 (CHR ''a''))"
    by (simp_all add: decoded_single_line_def Let_def refuse_if_def)
  show "normpath ''/srv/r'' = ''/srv/r''" "normpath ''/srv/r/.git'' = ''/srv/r/.git''" by code_simp+
qed

lemma answering_identity:
  assumes "validate_request_identity H q = Inr ()" and "wq_repository_root q = ''/srv/r''" and "wq_repository_common_dir q = ''/srv/r/.git''"
  shows "\<exists>t x. repository_identity H sample_machine root q s = (Inr x, t) \<and> evidence t = evidence s"
  using assms
  by (simp add: repository_identity_def lifted_def yields_def and_next_def run_git_def git_success_def sample_machine_def
      refusing_git_def list_command_def Let_def sample_lines refuse_if_def)

lemma sample_read_inventory:
  assumes "wq_repository_common_dir q = ''/srv/r/.git''"
  shows "read_inventory sample_machine root (wq_repository_common_dir q) s =
     (Inr [main_entry], s\<lparr>clock := Suc (clock s), trail := trail s @ [Git root list_command (GitOut sample_listing)]\<rparr>)"
  by (simp add: read_inventory_def and_next_def sample_git(1) assms sample_inventory lifted_def yields_def)

lemma sample_parent:
  assumes "validate_request_identity H q = Inr ()"
  shows "\<exists>t xs. ensure_managed_parent sample_machine q s = (Inr (), t) \<and> trail t = trail s @ xs"
proof -
  from assms have "expected_worktree_path (wq_repository_root q) (wq_expected_worktree_id q) = Inr (wq_worktree_path q)"
    by (auto simp: validate_request_identity_def res_simps)
  then show ?thesis
    by (simp add: ensure_managed_parent_def lifted_def yields_def and_next_def refuse_if_def observe_def make_directory_def
        safe_directory_def sample_machine_def Let_def)
qed

lemma root_not_managed:
  assumes "validate_request_identity H q = Inr ()" and "wq_repository_root q = ''/srv/r''"
  shows "wq_worktree_path q \<noteq> ''/srv/r''"
proof -
  have parts: "path_parts ''/srv/r'' = [''srv'', ''r'']" by code_simp
  from assms have "expected_worktree_path ''/srv/r'' (wq_expected_worktree_id q) = Inr (wq_worktree_path q)"
    by (auto simp: validate_request_identity_def res_simps)
  then have "wq_worktree_path q = posix_path [''srv'', ''r-agentdesk-worktrees'', wq_expected_worktree_id q]"
    by (simp add: expected_worktree_path_def guarded_Inr_iff Let_def parts)
  then show ?thesis by (simp add: posix_path_def)
qed

text \<open>Creation on the refusing machine: reserved, recorded, tried and given up.\<close>

lemma sample_creation:
  obtains q w b c xs s where "managed_run sample_hash sample_machine ''/srv/r'' q 0 [] s" "wq_action q = CREATE"
    "trail s = xs @ [Git ''/srv/r'' (add_command q) GitExecution, Git ''/srv/r'' list_command (GitOut sample_listing)]"
    "Evidence (RecordFile (wq_expected_worktree_id q)) c \<in> set xs" "decode_record sample_hash c = Inr w" "wc_phase w = CREATING"
proof -
  let ?m = sample_machine and ?root = "''/srv/r''" and ?inv = "[main_entry]"
  obtain q r b w c where q: "wq_action q = CREATE" "wq_repository_root q = ''/srv/r''" "wq_repository_common_dir q = ''/srv/r/.git''"
      "validate_request_identity sample_hash q = Inr ()" "wq_expected_worktree_id q = wr_worktree_id r" "wr_worktree_path r = wq_worktree_path q"
    and valid: "reservation_valid r"
    and reserved: "reserve sample_hash ?root q [] = (Inr r, [(ReservationFile (wr_worktree_id r), b)])"
    and none: "read_record sample_hash (wr_worktree_id r) True [(ReservationFile (wr_worktree_id r), b)] = Inr None"
    and made: "make_record sample_hash r CREATING (inventory_digest sample_hash ?inv) None None None None = Inr w"
    and created: "create_record sample_hash w [(ReservationFile (wr_worktree_id r), b)] = (Inr w, [(RecordFile (wr_worktree_id r), c)])"
    and w: "\<not> record_divergent r (Some w)" "wc_phase w = CREATING" "decode_record sample_hash c = Inr w"
      "decode_reservation sample_hash b = Inr r" "record_valid w"
    by (rule sample_reserving)
  let ?d = "[(ReservationFile (wr_worktree_id r), b)]" and ?i = "wq_expected_worktree_id q"
  let ?list = "Git ?root list_command (GitOut sample_listing)"
  obtain s1 x where s1: "repository_identity sample_hash ?m ?root q (starting 0 []) = (Inr x, s1)" "evidence s1 = []"
    using answering_identity [OF q(4,2,3)] by fastforce
  obtain s2 where s2: "read_inventory ?m ?root (wq_repository_common_dir q) s1 = (Inr ?inv, s2)" "evidence s2 = []"
    using sample_read_inventory [OF q(3)] s1(2) by simp
  obtain s3 where s3: "in_store (reserve sample_hash ?root q) s2 = (Inr r, s3)" "evidence s3 = ?d"
    using s2(2) reserved by (simp add: in_store_def lifted_def yields_def commit_simps dict_set_def)
  obtain s4 where s4: "record_or_new sample_hash r ?inv None s3 = (Inr w, s4)" "trail s4 = trail s3 @ [Evidence (RecordFile (wr_worktree_id r)) c]"
    using created s3(2) by (simp add: record_or_new_def made lifted_def yields_def and_next_def in_store_def)
  have read: "read_evidence (read_record sample_hash ?i True) s3 = (Inr None, s3)"
    using none q(5) s3(2) by (simp add: read_evidence_def lifted_def yields_def)
  have "worktree_id_ok ?i" using valid q(5)
    by (simp add: reservation_valid_def reservation_guards_def reservation_values_def worktree_id_ok_def)
  with reconcile_total [OF sample_hash_hexdigest this, of ?inv "Some r" "Some w" None] main_entry_ok q(5)
  obtain e where e: "reconcile_worktree sample_hash ?i (Some r) (Some w) ?inv None = Inr e" by auto
  have away: "wi_worktree_path main_entry \<noteq> wq_worktree_path q"
    using root_not_managed [OF q(4,2)] by (simp add: main_entry_def)
  with reconcile_acts_on_evidence [OF e] w q(6) have action: "wd_action e = RESUME_CREATE"
    by (auto simp: record_phase_def)
  obtain s5 xs where s5: "ensure_managed_parent ?m q s4 = (Inr (), s5)" "trail s5 = trail s4 @ xs"
    using sample_parent [OF q(4)] by blast
  obtain s6 where s6: "observe (\<lambda>t. path_exists ?m t (wq_worktree_path q)) s5 = (Inr False, s6)" "trail s6 = trail s5"
    by (simp add: observe_def sample_machine_def)
  obtain s7 where s7: "run_git ?m ?root (add_command q) s6 = (Inl (GitFailure ''execution''), s7)"
      "trail s7 = trail s6 @ [Git ?root (add_command q) GitExecution]"
    using sample_git(2) by simp
  obtain s8 where s8: "read_inventory ?m ?root (wq_repository_common_dir q) s7 = (Inr ?inv, s8)" "trail s8 = trail s7 @ [?list]"
    using sample_read_inventory [OF q(3)] by simp
  have "add_worktree ?m ?root q s6 = (Inl (GitFailure ''execution''), s8)"
    using away by (simp add: add_worktree_def s7(1) s8(1) find_entry_def refuse_if_def yields_def fails_def and_next_def)
  then have "resume_create ?m ?root q s4 = (Inl (GitFailure ''execution''), s8)"
    by (simp add: resume_create_def s5(1) s6(1) refuse_if_def and_next_def)
  then have "create_decided sample_hash ?m ?root q ?inv w (wd_action e) s4 = (Inl (GitFailure ''execution''), s8)"
    by (simp add: create_decided_def w(2) action and_next_def)
  moreover have "lifted (Inr e) s4 = (Inr e, s4)" by (simp add: lifted_def yields_def)
  ultimately have "create_worktree sample_hash ?m ?root q (starting 0 []) = (Inl (GitFailure ''execution''), s8)"
    using q(1) by (simp add: create_worktree_def refuse_pass and_next_def s1(1) s2(1) s3(1) read s4(1) e)
  then have run: "managed_run sample_hash ?m ?root q 0 [] s8" by (simp add: managed_run_def)
  show ?thesis
    by (rule that [OF run q(1), of "trail s6" c w]) (use s8 s7 s6 s5 s4 q(5) w in simp_all)
qed

section \<open>Witnesses\<close>

theorem worktree_changes_justified_witness:
  "\<exists>q s xs. managed_run sample_hash sample_machine ''/srv/r'' q 0 [] s \<and> Git ''/srv/r'' (add_command q) GitExecution \<in> set (trail s)
     \<and> creating_held sample_hash q (disk_after [] xs)"
proof -
  obtain q s xs where run: "managed_run sample_hash sample_machine ''/srv/r'' q 0 [] s" "wq_action q = CREATE"
    and t: "trail s = xs @ [Git ''/srv/r'' (add_command q) GitExecution, Git ''/srv/r'' list_command (GitOut sample_listing)]"
    by (rule sample_creation)
  have "\<not> reading_command (add_command q)" by (simp add: reading_command_def add_command_def list_command_def status_command_def)
  from worktree_changes_justified [OF run(1) t this] have "creating_held sample_hash q (disk_after [] xs)"
    by (auto simp: add_command_def remove_command_def)
  moreover from t have "Git ''/srv/r'' (add_command q) GitExecution \<in> set (trail s)" by simp
  ultimately show ?thesis using run(1) by blast
qed

theorem recorded_phase_seen_witness:
  "\<exists>q s i b w. managed_run sample_hash sample_machine ''/srv/r'' q 0 [] s \<and> Evidence (RecordFile i) b \<in> set (trail s)
     \<and> decode_record sample_hash b = Inr w \<and> wc_phase w = CREATING \<and> i = wq_expected_worktree_id q"
proof -
  obtain q s w b xs where run: "managed_run sample_hash sample_machine ''/srv/r'' q 0 [] s"
    and t: "trail s = xs @ [Git ''/srv/r'' (add_command q) GitExecution, Git ''/srv/r'' list_command (GitOut sample_listing)]"
      "Evidence (RecordFile (wq_expected_worktree_id q)) b \<in> set xs" and w: "decode_record sample_hash b = Inr w" "wc_phase w = CREATING"
    by (rule sample_creation)
  from t have held: "Evidence (RecordFile (wq_expected_worktree_id q)) b \<in> set (trail s)" by simp
  then obtain ys zs where "trail s = ys @ Evidence (RecordFile (wq_expected_worktree_id q)) b # zs" by (meson split_list)
  from recorded_phase_seen [OF run this w(1)] run w held show ?thesis by blast
qed

theorem manager_crash_safe_witness:
  "\<exists>q s xs e. managed_run sample_hash sample_machine ''/srv/r'' q 0 [] s \<and> trail s = xs @ [e]
     \<and> (worktree_step sample_hash)\<^sup>*\<^sup>* [] (disk_after [] xs)"
proof -
  obtain q s xs where run: "managed_run sample_hash sample_machine ''/srv/r'' q 0 [] s"
    and t: "trail s = xs @ [Git ''/srv/r'' (add_command q) GitExecution, Git ''/srv/r'' list_command (GitOut sample_listing)]"
    by (rule sample_creation)
  from t have "trail s = (xs @ [Git ''/srv/r'' (add_command q) GitExecution]) @ [Git ''/srv/r'' list_command (GitOut sample_listing)]" by simp
  from manager_crash_safe [OF run this] run this show ?thesis by blast
qed

definition detached_listing :: string where
  "detached_listing = sample_listing
     @ terminated (CHR 0x00) [''worktree /srv/w'', ''HEAD '' @ replicate 40 (CHR ''b''), ''detached'', ''locked'', []]"

text \<open>The same repository, listing a detached and locked worktree on another commit.\<close>

definition detached_machine :: machine where
  "detached_machine = sample_machine\<lparr>git := (\<lambda>t cwd argv. if argv = list_command then GitOut detached_listing
     else refusing_git t cwd argv)\<rparr>"

theorem resumed_release_unchecked_witness:
  "\<exists>w e. wc_phase w = RELEASING \<and> \<not> releasable_entry w e \<and> (\<exists>a xs ys.
     trail (snd (release_known sample_hash detached_machine ''/srv/r'' (Worktree_Reconcile.sample_request\<lparr>wq_action := RELEASE\<rparr>) w (starting 0 [])))
       = xs @ Git ''/srv/r'' [''worktree'', ''remove'', ''/srv/w''] a # ys)"
proof -
  let ?q = "Worktree_Reconcile.sample_request\<lparr>wq_action := RELEASE\<rparr>" and ?root = "''/srv/r''"
  have fields: "wq_worktree_path ?q = ''/srv/w''" "wq_repository_common_dir ?q = ''/srv/r/.git''"
    by (simp_all add: Worktree_Reconcile.sample_request_def)
  obtain w :: WorktreeRecord where w: "wc_phase w = RELEASING" by (meson WorktreeRecord.select_convs(14))
  let ?e = "main_entry\<lparr>wi_worktree_path := ''/srv/w'', wi_head_commit := replicate 40 (CHR ''b''), wi_branch := None,
      wi_is_detached := True, wi_is_locked := True\<rparr>"
  have listed: "parse_worktree_inventory detached_listing ''/srv/r/.git'' = Inr [main_entry, ?e]" by code_simp
  have one: "filter (\<lambda>x. wi_worktree_path x = ''/srv/w'') [main_entry, ?e] = [?e]" by (simp add: main_entry_def)
  have git: "git detached_machine t cwd list_command = GitOut detached_listing"
    "git detached_machine t cwd status_command = GitOut []" "path_kind_of detached_machine t p = RealDirectory" for t cwd p
    by (simp_all add: detached_machine_def sample_machine_def refusing_git_def list_command_def status_command_def)
  have "\<not> releasable_entry w ?e" by (simp add: releasable_entry_def)
  moreover obtain a ys where "trail (snd (release_known sample_hash detached_machine ?root ?q w (starting 0 []))) =
      [Git ?root list_command (GitOut detached_listing), Git ''/srv/w'' status_command (GitOut []), Git ?root (remove_command ?q) a] @ ys"
    using resumed_release_unchecked [of detached_machine "starting 0 []" ?root detached_listing ?q "[main_entry, ?e]" ?e w sample_hash]
      git listed one fields w by auto
  then have "trail (snd (release_known sample_hash detached_machine ?root ?q w (starting 0 []))) =
      [Git ?root list_command (GitOut detached_listing), Git ''/srv/w'' status_command (GitOut [])]
        @ Git ?root [''worktree'', ''remove'', ''/srv/w''] a # ys"
    by (simp add: remove_command_def fields)
  ultimately show ?thesis using w by blast
qed

end
