(* ===== verification/Spec2Isabelle.thy ===== *)
theory Spec2Isabelle
  imports Context_Budget Escalation Difficulty Rate_Limit Json Scheduler_Policy Scheduler_Guarantees Scheduler_Recovery Store_Lock
    Pairing_Guarantees Event_Stream Active_Execution Agent_Routing Worktree_Store Dispatch_Guarantees Process_Probe Worktree_Manager
begin

text \<open>
  Verification development for the AgentDesk control plane, the Python scripts under
  \<open>src/skills/agentdesk/scripts\<close> (file names below are relative to it).

  The program lets a project manager process hand tasks to worker processes on one machine.  Its
  state is a set of small files, each owned by one script that validates, writes atomically and
  reads it back; a process may be killed between any two writes, and several processes run at once.
  So the questions are the same everywhere: is what a store accepts what it should accept, does it
  read back what it wrote, what is left after a crash, who may still act on old information, and
  does what the program decides or does follow from evidence it has seen.

  \<^bold>\<open>Policies.\<close>  Pure decisions, translated guard by guard.
  \<^item> \<open>Core_Types\<close>: \<open>core_types.py\<close>, the enumerations of difficulty, kind, tier and their orders.
  \<^item> \<open>Context_Budget\<close>, \<open>Escalation\<close>, \<open>Rate_Limit\<close>: \<open>context_budget.py\<close>, \<open>escalation_service.py\<close>,
    \<open>rate_limit.py\<close>.
  \<^item> \<open>Difficulty\<close>: \<open>difficulty_assessor.py\<close>; a downgrade needs an authorised override, and the
    recommendation is the rule table's.
  \<^item> \<open>Model_Selection\<close>: \<open>select_model.py\<close>; a chosen binding meets the task's requirements.
  \<^item> \<open>Agent_Routing\<close>: \<open>agent_capability_registry.py\<close>; routes over validated bindings.
  \<^item> \<open>Scheduler_Policy\<close>: \<open>portfolio_scheduler_policy.py\<close>; which queue entry is selected next, and that
    one is selected exactly when one is eligible.
  \<^item> \<open>Scheduler_Recovery\<close>: \<open>portfolio_scheduler_recovery.py\<close>; what is done with a selection after a
    crash.  Work that can be running is never executed again.

  \<^bold>\<open>Stores.\<close>  Each has a codec, operations as sequences of atomic writes, and what its runs keep.
  \<^item> \<open>Scheduler_Types\<close>, \<open>Scheduler_Codec\<close>, \<open>Scheduler_Files\<close>, \<open>Scheduler_Store\<close>: the evidence of
    \<open>portfolio_scheduler_store.py\<close>.  \<open>Scheduler_Spec\<close> is its abstract specification (entries,
    receipts, tombstones as maps, steps as rules), \<open>Scheduler_Refinement\<close> shows that every operation,
    cut off anywhere, is a sequence of abstract steps, and \<open>Scheduler_Guarantees\<close> draws the
    consequences: nothing dispatched is queued again, nothing queued is lost, recovered receipts are
    fenced, an interrupted recovery can be resumed.
  \<^item> \<open>Lease_Store\<close> and \<open>Store_Lock\<close>: \<open>worker_slot_lease.py\<close>, leases with epochs and the lock file
    with its tokens; a stale holder never acts, at most two leases of a kind, mutual exclusion.
  \<^item> \<open>Pairing\<close>, \<open>Pairing_Runs\<close>, \<open>Pairing_Sample\<close>, \<open>Pairing_Guarantees\<close>: \<open>dockyard_pairing.py\<close>;
    a code pairs one device, a revoked device stays locked out, guesses are bounded.
  \<^item> \<open>Worktree_Evidence\<close>, \<open>Worktree_Reconcile\<close>, \<open>Worktree_Store\<close>: \<open>worktree_lifecycle_store.py\<close>,
    records of managed Git worktrees, identities derived from dispatches, the parser of Git's
    listing, and the decision after a crash.
  \<^item> \<open>Dispatch_Evidence\<close>, \<open>Dispatch_Store\<close>, \<open>Dispatch_Guarantees\<close>: \<open>dispatch_supervisor_evidence.py\<close>,
    receipts of dispatched processes, tombstones of finished ones and receipts of retries.  Runs
    refine single justified writes; receipts only advance, other generations are fenced, finished
    means that the tombstone is there, and a finalization that was cut off can be completed.

  \<^bold>\<open>Running parts.\<close>
  \<^item> \<open>Event_Stream\<close>: \<open>dockyard_sse.py\<close> and the stream handler \<open>_events\<close> of
    \<open>dockyard_control_api.py\<close>; publishing, replay after a cursor, stream permits.
  \<^item> \<open>Active_Execution\<close>: \<open>dockyard_active_execution.py\<close>; of completion and cancellation one wins.
  \<^item> \<open>Process_Probe\<close>: the liveness probes of \<open>dispatch_supervisor_evidence.py\<close>.  The operating
    system is what each single observation finds, so processes may come and go between two of them;
    DEAD is shown to rest on observations, and nothing that runs is reported dead.
  \<^item> \<open>Worktree_Manager\<close>: \<open>worktree_lifecycle_manager.py\<close>, where leases, dispatch evidence, probes,
    the worktree store and Git meet.  A call leaves a trail of its effects; every effect is shown to
    be justified by what the trail and the evidence before it show.  A release resumed from RELEASING
    is shown to check the path and the status only.

  \<^bold>\<open>Library.\<close>  \<open>Prelude\<close> has errors as sums with guard lists (\<open>raise_first\<close>, \<open>guarded\<close>,
  \<open>and_then\<close>), dictionaries as association lists, and Python's string functions; \<open>Effects\<close> has disks,
  operations as a result with a list of writes, and runs with crashes (\<open>crash_step\<close>);
  \<open>Json\<close> is the parser and printer of JSON texts, \<open>Flat_Json\<close> and \<open>Flat_Document\<close> the two document
  formats built of one record, with the locales \<open>json_evidence\<close> and \<open>flat_evidence\<close> that give the
  round trips of every record type interpreting them; \<open>Framing\<close> has length-framed lists whose digests
  bind their parts; \<open>Posix_Path\<close> has path functions.  The locales \<open>tracked_system\<close> and its relatives give, for any
  step relation with an invariant, what its runs keep; the stores interpret them.

  \<^bold>\<open>Conventions and assumptions.\<close>
  \<^item> Definitions keep the source's names in their own spelling; every raise, panic and early return is a branch:
    a value \<open>Inl e\<close> of the component's error type.  Checks of the dynamic type are translated where
    a value comes from a parsed document; a typed argument of a function discharges them.
  \<^item> Strings are ASCII.  Python's integers are \<open>int\<close>; times are integers of microseconds or the
    text the store keeps.  SHA-256 is an argument \<open>H\<close>, of which theorems assume at most \<open>hexdigest H\<close>
    (64 lower-case hexadecimal digits); where equal digests matter the theorem ends in "or \<open>H\<close>
    collides".
  \<^item> The clock, random tokens and paths of the caller are arguments.  A file is replaced atomically
    (a temporary file, a flush and \<open>os.replace\<close>), so an operation's writes happen in order and a crash
    leaves a prefix; the lock of a store makes a call see one disk.  The host is POSIX and
    \<open>normcase\<close> the identity, except that the probes are modelled for Windows as well.
  \<^item> Recursion is structural or proved to terminate.  The only fuel is that of the JSON parser:
    \<open>loads\<close> gives it two units per character, and \<open>loads_fuel\<close> shows that more never changes a result.
  \<^item> "Reachable" means reached from the empty disk by operations of the store, each cut off
    anywhere.  Theorems about runs hold for every later disk, not only the next one.

  \<^bold>\<open>Not modelled.\<close>  Lock files of the stores other than the slot leases', and locks between the
  threads of one process (their effect is that a call is one step); timeouts, symbolic links, permissions and \<open>fsync\<close>; the Windows Job API behind the job count;
  Unicode beyond ASCII.  HTTP transport and command handling of \<open>dockyard_control_api.py\<close>.  The
  large orchestrating scripts (\<open>workflow_orchestrator.py\<close>, \<open>control_plane_transition.py\<close>,
  \<open>dockyard_composition.py\<close>, the runners, gateways and providers) drive subprocesses, Git and the
  stores above; \<open>validate_project.py\<close>, \<open>validate_runtime.py\<close> and the renderers check or produce
  Markdown and YAML; their decisions are in the policies modelled here.  The further JSON stores
  (plans, deliveries, reviews, hand-offs) repeat the patterns of the stores above and are not done.
\<close>

end
